(* ===== verification/Prelude.thy ===== *)
theory Prelude
  imports Main
begin

text \<open>
  Shared vocabulary of the development: Python strings and the string operations the sources
  use, decimal rendering of integers, results that may be exceptions, and the generic list
  lemmas of the component proofs.

  A Python \<open>str\<close> is modelled by \<^typ>\<open>string\<close>: a list of code points U+0000 to U+00FF. Within
  that range \<open>py_isspace\<close>, \<open>py_lower\<close> and \<open>is_cc\<close> agree with \<open>str.isspace\<close>, \<open>str.lower\<close>
  and the Unicode category \<open>Cc\<close>. A Python exception is a value \<open>Inl e\<close> of a sum type.
\<close>

named_theorems op_defs \<open>definitions of the operations of the model\<close>
named_theorems frame_simps \<open>fields an operation leaves unchanged\<close>

section \<open>Python strings\<close>

type_synonym pystr = string
type_synonym bytes = string
type_synonym ns = int

abbreviation code_point :: "char \<Rightarrow> nat" where
  "code_point c \<equiv> of_char c"

definition py_isspace :: "char \<Rightarrow> bool" where
  "py_isspace c \<longleftrightarrow> code_point c \<in> {9, 10, 11, 12, 13, 28, 29, 30, 31, 32, 133, 160}"

definition py_lstrip :: "pystr \<Rightarrow> pystr" where
  "py_lstrip s = dropWhile py_isspace s"

definition py_strip :: "pystr \<Rightarrow> pystr" where
  "py_strip s = rev (py_lstrip (rev (py_lstrip s)))"

definition py_lower_char :: "char \<Rightarrow> char" where
  "py_lower_char c =
     (if (65 \<le> code_point c \<and> code_point c \<le> 90)
         \<or> (192 \<le> code_point c \<and> code_point c \<le> 222 \<and> code_point c \<noteq> 215)
      then char_of (code_point c + 32) else c)"

definition py_lower :: "pystr \<Rightarrow> pystr" where
  "py_lower s = map py_lower_char s"

definition is_cc :: "char \<Rightarrow> bool" where
  "is_cc c \<longleftrightarrow> code_point c < 32 \<or> (127 \<le> code_point c \<and> code_point c < 160)"

definition is_upper_ascii :: "char \<Rightarrow> bool" where
  "is_upper_ascii c \<longleftrightarrow> 65 \<le> code_point c \<and> code_point c \<le> 90"

definition is_lower_ascii :: "char \<Rightarrow> bool" where
  "is_lower_ascii c \<longleftrightarrow> 97 \<le> code_point c \<and> code_point c \<le> 122"

definition is_digit_ascii :: "char \<Rightarrow> bool" where
  "is_digit_ascii c \<longleftrightarrow> 48 \<le> code_point c \<and> code_point c \<le> 57"

definition is_alnum_ascii :: "char \<Rightarrow> bool" where
  "is_alnum_ascii c \<longleftrightarrow> is_upper_ascii c \<or> is_lower_ascii c \<or> is_digit_ascii c"

text \<open>\<open>str.encode("utf-8")\<close> on code points below U+0100.\<close>

definition utf8_char :: "char \<Rightarrow> bytes" where
  "utf8_char c =
     (if code_point c < 128 then [c]
      else [char_of (192 + code_point c div 64), char_of (128 + code_point c mod 64)])"

definition utf8 :: "pystr \<Rightarrow> bytes" where
  "utf8 s = concat (map utf8_char s)"

text \<open>Code equations over \<open>int\<close>, so that evaluation works on binary numerals.\<close>

lemma int_code_point: "of_char c = int (code_point c)"
  by (simp add: of_nat_of_char)

lemma char_class_code [code]:
  "is_cc c \<longleftrightarrow> (let n = of_char c :: int in n < 32 \<or> (127 \<le> n \<and> n < 160))"
  "is_upper_ascii c \<longleftrightarrow> (let n = of_char c :: int in 65 \<le> n \<and> n \<le> 90)"
  "is_lower_ascii c \<longleftrightarrow> (let n = of_char c :: int in 97 \<le> n \<and> n \<le> 122)"
  "is_digit_ascii c \<longleftrightarrow> (let n = of_char c :: int in 48 \<le> n \<and> n \<le> 57)"
  "py_isspace c \<longleftrightarrow> (let n = of_char c :: int
     in (9 \<le> n \<and> n \<le> 13) \<or> (28 \<le> n \<and> n \<le> 32) \<or> n = 133 \<or> n = 160)"
  by (auto simp: is_cc_def is_upper_ascii_def is_lower_ascii_def is_digit_ascii_def
      py_isspace_def Let_def int_code_point)

lemma char_map_code [code]:
  "py_lower_char c = (let n = of_char c :: int
     in if (65 \<le> n \<and> n \<le> 90) \<or> (192 \<le> n \<and> n \<le> 222 \<and> n \<noteq> 215) then char_of (n + 32) else c)"
  "utf8_char c = (let n = of_char c :: int
     in if n < 128 then [c] else [char_of (192 + n div 64), char_of (128 + n mod 64)])"
proof -
  have co: "char_of (int k) = char_of k" for k by (metis char_of_nat)
  have "char_of (int (code_point c) + 32) = char_of (code_point c + 32)"
    "char_of (192 + int (code_point c) div 64) = char_of (192 + code_point c div 64)"
    "char_of (128 + int (code_point c) mod 64) = char_of (128 + code_point c mod 64)"
    using co [of "code_point c + 32"] co [of "192 + code_point c div 64"]
      co [of "128 + code_point c mod 64"] by (simp_all add: zdiv_int zmod_int)
  then show "py_lower_char c = (let n = of_char c :: int
     in if (65 \<le> n \<and> n \<le> 90) \<or> (192 \<le> n \<and> n \<le> 222 \<and> n \<noteq> 215) then char_of (n + 32) else c)"
    "utf8_char c = (let n = of_char c :: int
     in if n < 128 then [c] else [char_of (192 + n div 64), char_of (128 + n mod 64)])"
    by (auto simp: py_lower_char_def utf8_char_def Let_def int_code_point simp del: char_of_quasi_inj)
qed

section \<open>Decimal rendering of integers\<close>

definition digit_char :: "nat \<Rightarrow> char" where
  "digit_char n = char_of (48 + n)"

fun nat_str :: "nat \<Rightarrow> pystr" where
  "nat_str n = (if n < 10 then [digit_char n] else nat_str (n div 10) @ [digit_char (n mod 10)])"

declare nat_str.simps [simp del]

definition int_str :: "int \<Rightarrow> pystr" where
  "int_str i = (if i < 0 then CHR ''-'' # nat_str (nat (- i)) else nat_str (nat i))"

definition digits_val :: "pystr \<Rightarrow> nat" where
  "digits_val s = foldl (\<lambda>acc c. 10 * acc + (code_point c - 48)) 0 s"

lemma code_point_char_of [simp]: "n < 256 \<Longrightarrow> code_point (char_of n) = n"
  by simp

lemma code_point_less [simp]: "code_point c < 256"
  by simp

lemma digit_char_code: "n < 10 \<Longrightarrow> code_point (digit_char n) = 48 + n"
  by (simp add: digit_char_def)

lemma digits_val_snoc: "digits_val (s @ [c]) = 10 * digits_val s + (code_point c - 48)"
  by (simp add: digits_val_def)

lemma digits_val_nat_str [simp]: "digits_val (nat_str n) = n"
proof (induction n rule: nat_str.induct)
  case (1 n)
  show ?case
  proof (cases "n < 10")
    case True
    then show ?thesis
      by (simp add: nat_str.simps [of n] digits_val_def digit_char_code)
  next
    case False
    with "1.IH" show ?thesis
      by (simp add: nat_str.simps [of n] digits_val_snoc digit_char_code)
  qed
qed

lemma nat_str_inject [simp]: "nat_str m = nat_str n \<longleftrightarrow> m = n"
  by (metis digits_val_nat_str)

lemma is_digit_digit_char: "n < 10 \<Longrightarrow> is_digit_ascii (digit_char n)"
  by (simp add: is_digit_ascii_def digit_char_code)

lemma nat_str_digits: "list_all is_digit_ascii (nat_str n)"
proof (induction n rule: nat_str.induct)
  case (1 n)
  then show ?case
    by (cases "n < 10") (simp_all add: nat_str.simps [of n] is_digit_digit_char)
qed

lemma nat_str_nonempty [simp]: "nat_str n \<noteq> []"
  by (subst nat_str.simps) simp

lemma not_digit_minus [simp]: "\<not> is_digit_ascii CHR ''-''"
  by (simp add: is_digit_ascii_def)

lemma nat_str_not_minus: "nat_str n \<noteq> CHR ''-'' # s"
  using nat_str_digits [of n] by auto

lemma int_str_inject [simp]: "int_str i = int_str j \<longleftrightarrow> i = j"
  by (auto simp: int_str_def nat_str_not_minus nat_str_not_minus [symmetric] split: if_splits)

definition is_int_char :: "char \<Rightarrow> bool" where
  "is_int_char c \<longleftrightarrow> is_digit_ascii c \<or> c = CHR ''-''"

lemma int_str_chars: "list_all is_int_char (int_str i)"
  using nat_str_digits [of "nat i"] nat_str_digits [of "nat (- i)"]
  by (auto simp: int_str_def is_int_char_def list_all_iff)

section \<open>Line-oriented texts\<close>

text \<open>
  Splitting at the first line feed is what makes a line-oriented text injective: two texts
  whose leading lines are free of line feeds agree only if the lines agree.
\<close>

abbreviation LF :: char where
  "LF \<equiv> CHR 0x0A"

definition no_lf :: "string \<Rightarrow> bool" where
  "no_lf s \<longleftrightarrow> LF \<notin> set s"

lemma append_sep_inject:
  assumes "x \<notin> set as" "x \<notin> set bs" "as @ x # us = bs @ x # vs"
  shows "as = bs \<and> us = vs"
  using assms
proof (induction as arbitrary: bs)
  case Nil
  then show ?case by (cases bs) auto
next
  case (Cons a as)
  then show ?case by (cases bs) auto
qed

fun unlines :: "string list \<Rightarrow> string" where
  "unlines [] = []"
| "unlines (l # ls) = l @ LF # unlines ls"

lemma unlines_inject:
  "list_all no_lf ls \<Longrightarrow> list_all no_lf ms \<Longrightarrow> unlines ls = unlines ms \<Longrightarrow> ls = ms"
proof (induction ls arbitrary: ms)
  case Nil
  then show ?case by (cases ms) auto
next
  case (Cons l ls)
  then obtain m ms' where ms: "ms = m # ms'" by (cases ms) auto
  with Cons.prems have "l @ LF # unlines ls = m @ LF # unlines ms'" by simp
  with Cons.prems ms have "l = m \<and> unlines ls = unlines ms'"
    by (intro append_sep_inject [of LF]) (auto simp: no_lf_def)
  with Cons ms show ?case by auto
qed

lemma int_str_no_lf [simp]: "no_lf (int_str i)"
proof -
  have "\<not> is_int_char LF" by (simp add: is_int_char_def is_digit_ascii_def)
  then show ?thesis using int_str_chars [of i] by (auto simp: no_lf_def list_all_iff)
qed

lemma no_lf_append [simp]: "no_lf (s @ t) \<longleftrightarrow> no_lf s \<and> no_lf t"
  by (simp add: no_lf_def)

section \<open>UTF-8 is injective\<close>

lemma utf8_append [simp]: "utf8 (s @ t) = utf8 s @ utf8 t"
  by (simp add: utf8_def)

lemma utf8_char_nonempty: "utf8_char c \<noteq> []"
  by (simp add: utf8_char_def)

lemma utf8_char_prefix:
  assumes "utf8_char c @ us = utf8_char d @ vs"
  shows "c = d \<and> us = vs"
proof (cases "code_point c < 128 \<longleftrightarrow> code_point d < 128")
  case same: True
  show ?thesis
  proof (cases "code_point c < 128")
    case True
    with same assms show ?thesis by (simp add: utf8_char_def)
  next
    case False
    with same have hi: "128 \<le> code_point c" "128 \<le> code_point d" by auto
    have lt: "code_point c < 256" "code_point d < 256" by simp_all
    have bnd: "192 + code_point c div 64 < 256" "192 + code_point d div 64 < 256"
      "128 + code_point c mod 64 < 256" "128 + code_point d mod 64 < 256"
      using lt by linarith+
    from assms hi
    have "char_of (192 + code_point c div 64) = (char_of (192 + code_point d div 64) :: char)"
      and "char_of (128 + code_point c mod 64) = (char_of (128 + code_point d mod 64) :: char)"
      and uv: "us = vs"
      by (simp_all add: utf8_char_def)
    then have "192 + code_point c div 64 = 192 + code_point d div 64"
      and "128 + code_point c mod 64 = 128 + code_point d mod 64"
      using bnd by (metis code_point_char_of)+
    then have "code_point c = code_point d"
      by (metis add_left_cancel div_mult_mod_eq)
    with uv show ?thesis by simp
  qed
next
  case False
  have hd: "hd (utf8_char e @ ws) = (if code_point e < 128 then e
              else char_of (192 + code_point e div 64))" for e ws
    by (simp add: utf8_char_def)
  have big: "128 \<le> code_point (char_of (192 + code_point e div 64))" for e :: char
  proof -
    have "192 + code_point e div 64 < 256"
      using code_point_less [of e] by linarith
    then show ?thesis by simp
  qed
  from assms hd [of c us] hd [of d vs]
  have "(if code_point c < 128 then c else char_of (192 + code_point c div 64))
      = (if code_point d < 128 then d else char_of (192 + code_point d div 64))"
    by simp
  with False big show ?thesis by (metis linorder_not_less)
qed

lemma utf8_inject: "utf8 s = utf8 t \<Longrightarrow> s = t"
proof (induction s arbitrary: t)
  case Nil
  then show ?case by (cases t) (auto simp: utf8_def utf8_char_nonempty)
next
  case (Cons c s)
  then obtain d t' where t: "t = d # t'"
    by (cases t) (auto simp: utf8_def utf8_char_nonempty)
  with Cons.prems have "utf8_char c @ utf8 s = utf8_char d @ utf8 t'"
    by (simp add: utf8_def)
  then have "c = d \<and> utf8 s = utf8 t'" by (rule utf8_char_prefix)
  with Cons.IH t show ?case by auto
qed

section \<open>Results\<close>

text \<open>
  \<open>'e + 'a\<close> is the result of a call: \<open>Inl\<close> an exception, \<open>Inr\<close> a value. \<open>rbind\<close> is
  sequencing: the rest of the function body runs only when no exception was raised.
\<close>

definition rbind :: "'e + 'a \<Rightarrow> ('a \<Rightarrow> 'e + 'b) \<Rightarrow> 'e + 'b" where
  "rbind m k = (case m of Inl e \<Rightarrow> Inl e | Inr a \<Rightarrow> k a)"

lemma rbind_simps [simp]: "rbind (Inl e) k = Inl e" "rbind (Inr a) k = k a"
  by (simp_all add: rbind_def)

lemma rbind_eq_Inr: "rbind m k = Inr b \<longleftrightarrow> (\<exists>a. m = Inr a \<and> k a = Inr b)"
  by (cases m) auto

definition guard :: "bool \<Rightarrow> 'e \<Rightarrow> 'e + unit" where
  "guard ok e = (if ok then Inr () else Inl e)"

lemma guard_eq_Inr [simp]: "guard ok e = Inr u \<longleftrightarrow> ok"
  by (simp add: guard_def)

fun rmap :: "('a \<Rightarrow> 'e + 'b) \<Rightarrow> 'a list \<Rightarrow> 'e + 'b list" where
  "rmap f [] = Inr []"
| "rmap f (x # xs) = rbind (f x) (\<lambda>y. rbind (rmap f xs) (\<lambda>ys. Inr (y # ys)))"

lemma rmap_Inr: "rmap f xs = Inr ys \<longleftrightarrow> list_all2 (\<lambda>x y. f x = Inr y) xs ys"
  by (induction xs arbitrary: ys) (auto simp: rbind_eq_Inr list_all2_Cons1)

lemma list_all2_mem2: "list_all2 P xs ys \<Longrightarrow> y \<in> set ys \<Longrightarrow> \<exists>x \<in> set xs. P x y"
  by (induction rule: list_all2_induct) auto

lemma rmap_total: "(\<And>x. x \<in> set xs \<Longrightarrow> \<exists>y. f x = Inr y) \<Longrightarrow> \<exists>ys. rmap f xs = Inr ys"
proof (induction xs)
  case (Cons x xs)
  obtain y where "f x = Inr y" using Cons.prems by fastforce
  moreover obtain ys where "rmap f xs = Inr ys" using Cons by force
  ultimately show ?case by simp
qed simp

section \<open>Calls that change state\<close>

text \<open>
  A method is a function from the state to a result and the new state; an exception keeps the
  changes made before it, as in Python.
\<close>

definition sbind ::
  "('s \<Rightarrow> ('e + 'a) \<times> 's) \<Rightarrow> ('a \<Rightarrow> 's \<Rightarrow> ('e + 'b) \<times> 's) \<Rightarrow> 's \<Rightarrow> ('e + 'b) \<times> 's" where
  "sbind m k s = (case m s of (Inl e, s') \<Rightarrow> (Inl e, s') | (Inr a, s') \<Rightarrow> k a s')"

definition spure :: "'e + 'a \<Rightarrow> 's \<Rightarrow> ('e + 'a) \<times> 's" where
  "spure r s = (r, s)"

lemma sbind_spure [simp]:
  "sbind (spure (Inr a)) k s = k a s" "sbind (spure (Inl e)) k s = (Inl e, s)"
  by (simp_all add: sbind_def spure_def)

lemma spure_simp [simp]: "spure r s = (r, s)"
  by (simp add: spure_def)

lemma sbind_eq_Inr:
  "sbind m k s = (Inr b, t) \<longleftrightarrow> (\<exists>a u. m s = (Inr a, u) \<and> k a u = (Inr b, t))"
  by (auto simp: sbind_def split: prod.splits sum.splits)

text \<open>A property of states that every call keeps is kept by a sequence of calls.\<close>

lemma sbind_keeps:
  assumes "\<And>s. I s \<Longrightarrow> I (snd (m s))" "\<And>a s. I s \<Longrightarrow> I (snd (k a s))" "I s"
  shows "I (snd (sbind m k s))"
  using assms(1) [OF assms(3)] assms(2) by (auto simp: sbind_def split: prod.splits sum.splits)

section \<open>JSON values\<close>

text \<open>
  A parsed JSON document. Objects are kept with their keys sorted, so that equality of dicts is
  equality of values; numbers are integers.
\<close>

datatype json = JNull | JBool bool | JNum int | JStr pystr | JArr "json list"
  | JObj "(pystr \<times> json) list"

text \<open>\<open>tuple(v)\<close> of a JSON value: \<open>None\<close> when it is not iterable.\<close>

fun json_tuple :: "json \<Rightarrow> json list option" where
  "json_tuple (JStr s) = Some (map (\<lambda>c. JStr [c]) s)"
| "json_tuple (JArr xs) = Some xs"
| "json_tuple (JObj kvs) = Some (map (\<lambda>kv. JStr (fst kv)) kvs)"
| "json_tuple _ = None"

fun json_str :: "json \<Rightarrow> pystr option" where
  "json_str (JStr s) = Some s"
| "json_str _ = None"

end
