(* ===== verification/Py_Decimal.thy ===== *)
theory Py_Decimal
  imports Prelude Complex_Main
begin

text \<open>
  Python's \<open>decimal.Decimal\<close> under the default context the sources run in: 28 significant
  digits, \<open>ROUND_HALF_EVEN\<close>. A finite Decimal is modelled by its numerical value, a rational;
  the sign of zero and trailing zeros are not observed by any modelled function. Every
  arithmetic operation computes the exact result and rounds it with \<open>rnd\<close>; comparisons,
  \<open>min\<close> and \<open>max\<close> are exact, as in Python. The exponent range (about \<open>10 ^ 1000000\<close>) is
  not modelled.

  The main facts: \<open>rnd\<close> is monotone, odd, idempotent and sign preserving, its relative
  error is at most \<open>5 * 10 ^ (- 28)\<close>, and it is the identity on every value with at most 28
  digits. The locale \<open>rounding\<close> collects the laws the clients use.
\<close>

section \<open>Values\<close>

datatype dec = Fin rat | Infinity bool | NaN

fun is_finite :: "dec \<Rightarrow> bool" where
  "is_finite (Fin x) = True"
| "is_finite _ = False"

section \<open>Rounding to 28 significant digits\<close>

fun ndigits :: "nat \<Rightarrow> nat" where
  "ndigits n = (if n = 0 then 0 else Suc (ndigits (n div 10)))"

declare ndigits.simps [simp del]

definition pow10 :: "int \<Rightarrow> rat" where
  "pow10 e = (if 0 \<le> e then 10 ^ nat e else 1 / 10 ^ nat (- e))"

definition adjusted :: "rat \<Rightarrow> int" where
  "adjusted x =
     (let q = quotient_of \<bar>x\<bar>;
          k = int (ndigits (nat (fst q))) - int (ndigits (nat (snd q)))
      in if pow10 k \<le> \<bar>x\<bar> then k else k - 1)"

definition round_half_even :: "rat \<Rightarrow> int" where
  "round_half_even x =
     (let f = \<lfloor>x\<rfloor>; d = x - of_int f
      in if d < 1 / 2 then f else if 1 / 2 < d then f + 1 else if even f then f else f + 1)"

abbreviation PREC :: int where
  "PREC \<equiv> 28"

definition rnd :: "rat \<Rightarrow> rat" where
  "rnd x =
     (if x = 0 then 0
      else let e = adjusted x - (PREC - 1)
           in of_int (round_half_even (x / pow10 e)) * pow10 e)"

definition dadd :: "rat \<Rightarrow> rat \<Rightarrow> rat" where "dadd a b = rnd (a + b)"
definition dsub :: "rat \<Rightarrow> rat \<Rightarrow> rat" where "dsub a b = rnd (a - b)"
definition dmul :: "rat \<Rightarrow> rat \<Rightarrow> rat" where "dmul a b = rnd (a * b)"
definition ddiv :: "rat \<Rightarrow> rat \<Rightarrow> rat" where "ddiv a b = rnd (a / b)"
definition dneg :: "rat \<Rightarrow> rat" where "dneg a = rnd (- a)"

text \<open>\<open>sum(xs, Decimal(0))\<close>: left to right, rounding after every addition.\<close>

fun dsum_from :: "rat \<Rightarrow> rat list \<Rightarrow> rat" where
  "dsum_from acc [] = acc"
| "dsum_from acc (x # xs) = dsum_from (dadd acc x) xs"

abbreviation dsum :: "rat list \<Rightarrow> rat" where
  "dsum \<equiv> dsum_from 0"

text \<open>The same digit count over \<open>int\<close>, so that evaluation works on binary numerals.\<close>

fun int_digits :: "int \<Rightarrow> nat" where
  "int_digits i = (if i \<le> 0 then 0 else Suc (int_digits (i div 10)))"

declare int_digits.simps [simp del]

lemma int_digits_eq: "int_digits i = ndigits (nat i)"
proof (induction i rule: int_digits.induct)
  case (1 i)
  then show ?case
    by (simp add: int_digits.simps [of i] ndigits.simps [of "nat i"] nat_div_distrib)
qed

lemma adjusted_code [code]:
  "adjusted x =
     (let q = quotient_of \<bar>x\<bar>; k = int (int_digits (fst q)) - int (int_digits (snd q))
      in if pow10 k \<le> \<bar>x\<bar> then k else k - 1)"
  by (simp add: adjusted_def int_digits_eq)

section \<open>Powers of ten\<close>

lemma pow10_powi: "pow10 e = 10 powi e"
  by (simp add: pow10_def power_int_def field_simps)

lemma pow10_pos [simp]: "0 < pow10 e"
  by (simp add: pow10_def)

lemma pow10_nz [simp]: "pow10 e \<noteq> 0"
  by (metis less_irrefl pow10_pos)

lemma pow10_not_le [simp]: "\<not> pow10 e \<le> 0" "0 \<le> pow10 e" "\<bar>pow10 e\<bar> = pow10 e"
  using pow10_pos [of e] by (simp_all only: not_le abs_of_pos less_imp_le)

lemma pow10_add: "pow10 (a + b) = pow10 a * pow10 b"
  by (simp add: pow10_powi power_int_add)

lemma pow10_diff: "pow10 (a - b) = pow10 a / pow10 b"
  by (simp add: pow10_powi power_int_diff)

lemma pow10_mono: "a \<le> b \<Longrightarrow> pow10 a \<le> pow10 b"
  by (simp add: pow10_powi power_int_increasing)

lemma pow10_less_iff [simp]: "pow10 a < pow10 b \<longleftrightarrow> a < b"
  by (metis linorder_not_less order_less_le pow10_mono pow10_powi power_int_strict_increasing
      one_less_numeral_iff semiring_norm(76))

lemma pow10_nat: "pow10 (int n) = 10 ^ n"
  by (simp add: pow10_def)

section \<open>The adjusted exponent\<close>

lemma ndigits_bounds: "0 < n \<Longrightarrow> 10 ^ (ndigits n - 1) \<le> n \<and> n < 10 ^ ndigits n \<and> 0 < ndigits n"
proof (induction n rule: ndigits.induct)
  case (1 n)
  show ?case
  proof (cases "n < 10")
    case True
    with "1.prems" show ?thesis
      by (simp add: ndigits.simps [of n] ndigits.simps [of 0])
  next
    case False
    then have pos: "0 < n div 10" by (simp add: div_greater_zero_iff)
    with "1.IH" "1.prems" have ih: "10 ^ (ndigits (n div 10) - 1) \<le> n div 10"
      "n div 10 < 10 ^ ndigits (n div 10)" "0 < ndigits (n div 10)" by auto
    from ih(1) have "10 * 10 ^ (ndigits (n div 10) - 1) \<le> n" by linarith
    with ih(3) have "10 ^ ndigits (n div 10) \<le> n"
      by (metis One_nat_def Suc_pred power_Suc)
    moreover from ih(2) have "n < 10 * 10 ^ ndigits (n div 10)" by linarith
    ultimately show ?thesis using "1.prems" by (simp add: ndigits.simps [of n])
  qed
qed

lemma adjusted_bounds:
  assumes "x \<noteq> 0"
  shows "pow10 (adjusted x) \<le> \<bar>x\<bar> \<and> \<bar>x\<bar> < pow10 (adjusted x + 1)"
proof -
  obtain a b where q: "quotient_of \<bar>x\<bar> = (a, b)" by force
  have b: "0 < b" using q quotient_of_denom_pos by blast
  have x: "\<bar>x\<bar> = of_int a / of_int b" using q quotient_of_div by blast
  have a: "0 < a"
  proof -
    have "0 < \<bar>x\<bar>" using assms by simp
    then show ?thesis using x b by (simp add: zero_less_divide_iff)
  qed
  define m n where "m = ndigits (nat a)" and "n = ndigits (nat b)"
  have m: "10 ^ (m - 1) \<le> nat a" "nat a < 10 ^ m" "0 < m"
    using ndigits_bounds [of "nat a"] a by (auto simp: m_def)
  have n: "10 ^ (n - 1) \<le> nat b" "nat b < 10 ^ n" "0 < n"
    using ndigits_bounds [of "nat b"] b by (auto simp: n_def)
  have A: "pow10 (int m - 1) \<le> of_int a" "of_int a < pow10 (int m)"
  proof -
    have "of_nat (10 ^ (m - 1)) \<le> (of_nat (nat a) :: rat)" using m(1) by (rule of_nat_mono)
    then show "pow10 (int m - 1) \<le> of_int a"
      using a m(3) pow10_nat [of "m - 1"] by (simp add: of_nat_diff)
    have "of_nat (nat a) < (of_nat (10 ^ m) :: rat)" using m(2) of_nat_less_iff by blast
    then show "of_int a < pow10 (int m)" using a by (simp add: pow10_nat)
  qed
  have B: "pow10 (int n - 1) \<le> of_int b" "of_int b < pow10 (int n)"
  proof -
    have "of_nat (10 ^ (n - 1)) \<le> (of_nat (nat b) :: rat)" using n(1) by (rule of_nat_mono)
    then show "pow10 (int n - 1) \<le> of_int b"
      using b n(3) pow10_nat [of "n - 1"] by (simp add: of_nat_diff)
    have "of_nat (nat b) < (of_nat (10 ^ n) :: rat)" using n(2) of_nat_less_iff by blast
    then show "of_int b < pow10 (int n)" using b by (simp add: pow10_nat)
  qed
  define k where "k = int m - int n"
  have up: "\<bar>x\<bar> < pow10 (k + 1)"
  proof -
    have "\<bar>x\<bar> \<le> of_int a / pow10 (int n - 1)"
      unfolding x using A B b a by (intro divide_left_mono) auto
    also have "\<dots> < pow10 (int m) / pow10 (int n - 1)"
      using A by (intro divide_strict_right_mono) auto
    also have "\<dots> = pow10 (k + 1)"
      by (simp add: k_def pow10_diff [symmetric] algebra_simps)
    finally show ?thesis .
  qed
  have lo: "pow10 (k - 1) \<le> \<bar>x\<bar>"
  proof -
    have "pow10 (k - 1) = pow10 (int m - 1) / pow10 (int n)"
      by (simp add: k_def pow10_diff [symmetric] algebra_simps)
    also have "\<dots> \<le> of_int a / pow10 (int n)"
      using A by (intro divide_right_mono) auto
    also have "\<dots> \<le> of_int a / of_int b"
      using B b a by (intro divide_left_mono) auto
    finally show ?thesis by (simp add: x)
  qed
  have "adjusted x = (if pow10 k \<le> \<bar>x\<bar> then k else k - 1)"
    by (simp add: adjusted_def Let_def q k_def m_def n_def)
  then show ?thesis using up lo by (auto simp: not_le)
qed

lemma adjusted_unique:
  assumes "pow10 e \<le> \<bar>x\<bar>" "\<bar>x\<bar> < pow10 (e + 1)"
  shows "adjusted x = e"
proof -
  have "x \<noteq> 0" using assms(1) by auto
  then have b: "pow10 (adjusted x) \<le> \<bar>x\<bar>" "\<bar>x\<bar> < pow10 (adjusted x + 1)"
    using adjusted_bounds by auto
  have "pow10 e < pow10 (adjusted x + 1)" using assms(1) b(2) by linarith
  moreover have "pow10 (adjusted x) < pow10 (e + 1)" using assms(2) b(1) by linarith
  ultimately show ?thesis by simp
qed

section \<open>Rounding to an integer, half to even\<close>

lemma round_half_even_near: "\<bar>of_int (round_half_even x) - x\<bar> \<le> 1 / 2"
proof -
  have "0 \<le> x - of_int \<lfloor>x\<rfloor>" "x - of_int \<lfloor>x\<rfloor> < 1" by linarith+
  then show ?thesis by (simp add: round_half_even_def Let_def abs_le_iff field_simps)
qed

lemma round_half_even_of_int [simp]: "round_half_even (of_int i) = i"
  by (simp add: round_half_even_def)

lemma round_half_even_mono:
  assumes "x \<le> y"
  shows "round_half_even x \<le> round_half_even y"
proof (cases "\<lfloor>x\<rfloor> = \<lfloor>y\<rfloor>")
  case True
  with assms show ?thesis by (auto simp: round_half_even_def Let_def)
next
  case False
  then have "\<lfloor>x\<rfloor> + 1 \<le> \<lfloor>y\<rfloor>" using assms floor_mono by fastforce
  moreover have "round_half_even x \<le> \<lfloor>x\<rfloor> + 1" "\<lfloor>y\<rfloor> \<le> round_half_even y"
    by (auto simp: round_half_even_def Let_def)
  ultimately show ?thesis by linarith
qed

lemma round_half_even_uminus: "round_half_even (- x) = - round_half_even x"
proof (cases "x = of_int \<lfloor>x\<rfloor>")
  case True
  then show ?thesis by (metis of_int_minus round_half_even_of_int)
next
  case False
  then have less: "of_int \<lfloor>x\<rfloor> < x" using of_int_floor_le [of x] by linarith
  have "\<lfloor>- x\<rfloor> = - \<lfloor>x\<rfloor> - 1"
    using less by (intro floor_unique) (simp_all, linarith+)
  then show ?thesis by (auto simp: round_half_even_def Let_def)
qed

section \<open>Laws of rounding\<close>

lemma rnd_0 [simp]: "rnd 0 = 0"
  by (simp add: rnd_def)

lemma adjusted_uminus [simp]: "adjusted (- x) = adjusted x"
  by (simp add: adjusted_def)

lemma rnd_uminus: "rnd (- x) = - rnd x"
  by (simp add: rnd_def Let_def round_half_even_uminus)

text \<open>A positive value is rounded inside its decade.\<close>

lemma rnd_decade:
  assumes "0 < x"
  shows "pow10 (adjusted x) \<le> rnd x \<and> rnd x \<le> pow10 (adjusted x + 1)"
proof -
  define e where "e = adjusted x - 27"
  have b: "pow10 (adjusted x) \<le> x" "x < pow10 (adjusted x + 1)"
    using adjusted_bounds [of x] assms by auto
  have p27: "pow10 (adjusted x) = of_int (10 ^ 27) * pow10 e"
    and p28: "pow10 (adjusted x + 1) = of_int (10 ^ 28) * pow10 e"
    using pow10_add [of 27 e] pow10_add [of 28 e] pow10_nat [of 27] pow10_nat [of 28]
    by (simp_all add: e_def add.commute [of 1])
  have "of_int (10 ^ 27) \<le> x / pow10 e" using b(1) p27 by (simp add: pos_le_divide_eq)
  then have "(10 ^ 27 :: int) \<le> round_half_even (x / pow10 e)"
    using round_half_even_mono round_half_even_of_int by metis
  moreover have "x / pow10 e \<le> of_int (10 ^ 28)" using b(2) p28 by (simp add: pos_divide_le_eq)
  then have "round_half_even (x / pow10 e) \<le> 10 ^ 28"
    using round_half_even_mono round_half_even_of_int by metis
  ultimately have "of_int (10 ^ 27) * pow10 e \<le> rnd x \<and> rnd x \<le> of_int (10 ^ 28) * pow10 e"
    using assms unfolding rnd_def Let_def e_def [symmetric]
    by (simp add: e_def)
  then show ?thesis by (simp add: p27 p28)
qed

lemma rnd_pos: "0 < x \<Longrightarrow> 0 < rnd x"
  using rnd_decade [of x] pow10_pos [of "adjusted x"] by linarith

lemma rnd_mono_pos:
  assumes "0 < x" "x \<le> y"
  shows "rnd x \<le> rnd y"
proof -
  have bx: "pow10 (adjusted x) \<le> x" "x < pow10 (adjusted x + 1)"
    and "by": "pow10 (adjusted y) \<le> y" "y < pow10 (adjusted y + 1)"
    using adjusted_bounds [of x] adjusted_bounds [of y] assms by auto
  have "pow10 (adjusted x) < pow10 (adjusted y + 1)" using bx "by" assms by linarith
  then have "adjusted x \<le> adjusted y" by simp
  then consider "adjusted x = adjusted y" | "adjusted x + 1 \<le> adjusted y" by linarith
  then show ?thesis
  proof cases
    case 1
    have "x / pow10 (adjusted x - 27) \<le> y / pow10 (adjusted x - 27)"
      using assms by (intro divide_right_mono) auto
    then have "round_half_even (x / pow10 (adjusted x - 27))
        \<le> round_half_even (y / pow10 (adjusted x - 27))"
      by (rule round_half_even_mono)
    then show ?thesis using assms 1
      by (simp add: rnd_def Let_def)
  next
    case 2
    have "rnd x \<le> pow10 (adjusted x + 1)" using rnd_decade assms by blast
    also have "\<dots> \<le> pow10 (adjusted y)" using 2 by (rule pow10_mono)
    also have "\<dots> \<le> rnd y" using rnd_decade [of y] assms by auto
    finally show ?thesis .
  qed
qed

lemma rnd_mono:
  assumes "x \<le> y"
  shows "rnd x \<le> rnd y"
proof -
  consider "0 < x" | "x \<le> 0" "0 \<le> y" | "y < 0" by linarith
  then show ?thesis
  proof cases
    case 1
    then show ?thesis using assms by (rule rnd_mono_pos)
  next
    case 2
    have "rnd x \<le> 0" using 2 rnd_pos [of "- x"] rnd_uminus [of x] by (cases "x = 0") auto
    moreover have "0 \<le> rnd y" using 2 rnd_pos [of y] by (cases "y = 0") auto
    ultimately show ?thesis by simp
  next
    case 3
    with assms rnd_mono_pos [of "- y" "- x"] show ?thesis by (simp add: rnd_uminus)
  qed
qed

text \<open>Values with at most 28 significant digits are left alone.\<close>

lemma rnd_coeff:
  assumes "\<bar>m\<bar> \<le> 10 ^ 28"
  shows "rnd (of_int m * pow10 e) = of_int m * pow10 e"
proof (cases "m = 0")
  case False
  define x where "x = of_int m * pow10 e"
  have x0: "x \<noteq> 0" using False by (simp add: x_def)
  have absx: "\<bar>x\<bar> = of_int \<bar>m\<bar> * pow10 e" by (simp add: x_def abs_mult)
  have p28: "pow10 28 = of_int (10 ^ 28)" using pow10_nat [of 28] by simp
  have "of_int \<bar>m\<bar> \<le> (of_int (10 ^ 28) :: rat)" using assms of_int_le_iff by blast
  then have "\<bar>x\<bar> \<le> pow10 28 * pow10 e"
    unfolding absx p28 by (intro mult_right_mono) auto
  also have "\<dots> = pow10 (28 + e)" by (simp add: pow10_add)
  finally have le: "\<bar>x\<bar> \<le> pow10 (28 + e)" .
  have b: "pow10 (adjusted x) \<le> \<bar>x\<bar>" using adjusted_bounds [OF x0] by auto
  then have "\<not> pow10 (28 + e) < pow10 (adjusted x)" using le by linarith
  then have adj: "adjusted x \<le> 28 + e" by simp
  show ?thesis
  proof (cases "adjusted x = 28 + e")
    case True
    with b le have abs: "\<bar>x\<bar> = pow10 (28 + e)" by simp
    have dec: "pow10 (28 + e) = of_int (10 ^ 27) * pow10 (1 + e)"
      using pow10_add [of 27 "1 + e"] pow10_nat [of 27] by simp
    have key: "rnd (pow10 (28 + e)) = pow10 (28 + e)"
    proof -
      have "adjusted (pow10 (28 + e)) = 28 + e"
        by (rule adjusted_unique) (auto simp: abs_of_pos)
      then have "rnd (pow10 (28 + e))
          = of_int (round_half_even (pow10 (28 + e) / pow10 (1 + e))) * pow10 (1 + e)"
        by (simp add: rnd_def Let_def)
      also have "pow10 (28 + e) / pow10 (1 + e) = of_int (10 ^ 27)" using dec by simp
      finally show ?thesis unfolding round_half_even_of_int using dec by simp
    qed
    from abs have "x = pow10 (28 + e) \<or> x = - pow10 (28 + e)" by (auto simp: abs_if split: if_splits)
    then show ?thesis using key rnd_uminus [of "pow10 (28 + e)"] unfolding x_def [symmetric] by auto
  next
    case False
    with adj have le27: "0 \<le> e - (adjusted x - 27)" by linarith
    define j where "j = nat (e - (adjusted x - 27))"
    have "pow10 e / pow10 (adjusted x - 27) = 10 ^ j"
      using pow10_nat [of j] le27 by (simp add: pow10_diff [symmetric] j_def)
    then have "x / pow10 (adjusted x - 27) = of_int (m * 10 ^ j)"
      by (simp add: x_def times_divide_eq_right [symmetric] del: times_divide_eq_right)
    then have "rnd x = of_int (m * 10 ^ j) * pow10 (adjusted x - 27)"
      using x0 unfolding rnd_def Let_def by (simp del: of_int_mult)
    also have "\<dots> = x"
      using \<open>x / pow10 (adjusted x - 27) = of_int (m * 10 ^ j)\<close> by (simp add: field_simps)
    finally show ?thesis by (simp add: x_def)
  qed
qed simp

text \<open>The result of a rounding has at most 28 digits, so rounding twice is rounding once.\<close>

lemma rnd_coeff_form: "\<exists>m e. rnd x = of_int m * pow10 e \<and> \<bar>m\<bar> \<le> 10 ^ 28"
proof (cases "x = 0")
  case False
  define e where "e = adjusted x - 27"
  have b: "\<bar>x\<bar> < pow10 (adjusted x + 1)" using adjusted_bounds [OF False] by auto
  have p28: "pow10 (adjusted x + 1) = of_int (10 ^ 28) * pow10 e"
    using pow10_add [of 28 e] pow10_nat [of 28] by (simp add: e_def add.commute [of 1])
  have "\<bar>x / pow10 e\<bar> \<le> of_int (10 ^ 28)"
    using b p28 by (simp add: abs_divide pos_divide_le_eq)
  then have "x / pow10 e \<le> of_int (10 ^ 28)" "of_int (- (10 ^ 28)) \<le> x / pow10 e"
    by (simp_all only: abs_le_iff of_int_minus minus_le_iff [of "of_int (10 ^ 28)"])
  then have "round_half_even (x / pow10 e) \<le> 10 ^ 28"
    "- (10 ^ 28) \<le> round_half_even (x / pow10 e)"
    using round_half_even_mono round_half_even_of_int by metis+
  then have "\<bar>round_half_even (x / pow10 e)\<bar> \<le> 10 ^ 28" by (simp add: abs_le_iff)
  moreover have "rnd x = of_int (round_half_even (x / pow10 e)) * pow10 e"
    using False by (simp add: rnd_def Let_def e_def)
  ultimately show ?thesis by blast
qed (auto intro: exI [of _ 0])

lemma rnd_rnd [simp]: "rnd (rnd x) = rnd x"
  using rnd_coeff rnd_coeff_form by metis

text \<open>
  A value on the grid of multiples of \<open>10 ^ (- k)\<close> whose magnitude leaves room for \<open>k\<close>
  decimals is exact. This is the bound under which the Decimal arithmetic of the sources is
  exact arithmetic.
\<close>

definition on_grid :: "nat \<Rightarrow> rat \<Rightarrow> bool" where
  "on_grid k x \<longleftrightarrow> snd (quotient_of (x * 10 ^ k)) = 1"

lemma on_grid_iff: "on_grid k x \<longleftrightarrow> (\<exists>m. x * 10 ^ k = of_int m)"
proof
  assume "on_grid k x"
  then obtain m where "quotient_of (x * 10 ^ k) = (m, 1)"
    by (metis on_grid_def prod.collapse)
  then show "\<exists>m. x * 10 ^ k = of_int m" using quotient_of_div by fastforce
next
  assume "\<exists>m. x * 10 ^ k = of_int m"
  then show "on_grid k x" by (auto simp: on_grid_def)
qed

lemma rnd_on_grid:
  assumes "on_grid k x" "\<bar>x\<bar> * 10 ^ k \<le> 10 ^ 28"
  shows "rnd x = x"
proof -
  obtain m where m: "x * 10 ^ k = of_int m" using assms(1) on_grid_iff by blast
  have "\<bar>of_int m :: rat\<bar> \<le> of_int (10 ^ 28)"
    using assms(2) m by (metis abs_mult abs_numeral of_int_numeral of_int_power power_abs)
  then have "\<bar>m\<bar> \<le> 10 ^ 28" by (metis of_int_abs of_int_le_iff)
  moreover have "x = of_int m * pow10 (- int k)"
    using m by (cases "k = 0") (simp_all add: pow10_def field_simps)
  ultimately show ?thesis using rnd_coeff by metis
qed

text \<open>Relative error of one rounding.\<close>

lemma rnd_error: "\<bar>rnd x - x\<bar> \<le> \<bar>x\<bar> * (5 * pow10 (- 28))"
proof (cases "x = 0")
  case False
  define e where "e = adjusted x - 27"
  have b: "pow10 (adjusted x) \<le> \<bar>x\<bar>" using adjusted_bounds [OF False] by auto
  have "rnd x - x = (of_int (round_half_even (x / pow10 e)) - x / pow10 e) * pow10 e"
    using False by (simp add: rnd_def Let_def e_def algebra_simps)
  then have "\<bar>rnd x - x\<bar>
      = \<bar>of_int (round_half_even (x / pow10 e)) - x / pow10 e\<bar> * pow10 e"
    by (simp add: abs_mult)
  also have "\<dots> \<le> 1 / 2 * pow10 e"
    using round_half_even_near by (intro mult_right_mono) auto
  also have "\<dots> = pow10 (adjusted x) * (5 * pow10 (- 28))"
  proof -
    have "pow10 e = pow10 (adjusted x) * pow10 (- 27)"
      using pow10_add [of "adjusted x" "- 27"] by (simp add: e_def)
    moreover have "pow10 (- 27) = 10 * pow10 (- 28)" by (simp add: pow10_def)
    ultimately show ?thesis by simp
  qed
  also have "\<dots> \<le> \<bar>x\<bar> * (5 * pow10 (- 28))" using b by (intro mult_right_mono) auto
  finally show ?thesis .
qed simp

section \<open>The interface of rounded arithmetic\<close>

text \<open>
  What the components rely on: a rounding function that is monotone, idempotent and odd. The
  exact values are its fixed points.
\<close>

locale rounding =
  fixes rd :: "rat \<Rightarrow> rat"
  assumes mono: "x \<le> y \<Longrightarrow> rd x \<le> rd y"
    and idem: "rd (rd x) = rd x"
    and odd: "rd (- x) = - rd x"
begin

lemma zero [simp]: "rd 0 = 0"
  using odd [of 0] by simp

lemma nonneg: "0 \<le> x \<Longrightarrow> 0 \<le> rd x"
  using mono [of 0 x] by simp

lemma nonpos: "x \<le> 0 \<Longrightarrow> rd x \<le> 0"
  using mono [of x 0] by simp

lemma le_exact: "x \<le> y \<Longrightarrow> rd y = y \<Longrightarrow> rd x \<le> y"
  using mono [of x y] by simp

lemma exact_le: "y \<le> x \<Longrightarrow> rd y = y \<Longrightarrow> y \<le> rd x"
  using mono [of y x] by simp

text \<open>A rounded value lies between any two exact values that enclose the true one.\<close>

lemma between: "lo \<le> x \<Longrightarrow> x \<le> hi \<Longrightarrow> rd lo = lo \<Longrightarrow> rd hi = hi \<Longrightarrow> lo \<le> rd x \<and> rd x \<le> hi"
  using le_exact exact_le by blast

end

interpretation dec28: rounding rnd
  by unfold_locales (simp_all add: rnd_mono rnd_uminus)

lemma rnd_1 [simp]: "rnd 1 = 1"
  using rnd_coeff [of 1 0] by (simp add: pow10_def)

lemma rnd_of_int: "\<bar>m\<bar> \<le> 10 ^ 28 \<Longrightarrow> rnd (of_int m) = of_int m"
  using rnd_coeff [of m 0] by (simp add: pow10_def)

end
