(* ===== verification/Motor_Models.thy ===== *)
theory Motor_Models
  imports Py_Decimal
begin

text \<open>
  Domain contracts of the execution motor (\<open>execution_motor/models.py\<close>, \<open>broker.py\<close>,
  \<open>quotes.py\<close>, \<open>errors.py\<close>): orders, attestations, broker requests and answers, execution
  reports, each with the validation its constructor runs. A pydantic model is a record plus a
  constructor function that returns \<open>Inl\<close> when validation fails; pydantic itself accepts
  only finite Decimals, so validated Decimal fields have type \<^typ>\<open>rat\<close>.
\<close>

section \<open>Exceptions\<close>

text \<open>An exception is its class name (\<open>type(exc).__name__\<close>) and its message (\<open>str(exc)\<close>).\<close>

datatype exc = Exc (exc_name: pystr) (exc_str: pystr)

abbreviation ValidationError :: exc where
  "ValidationError \<equiv> Exc ''ValidationError'' []"

text \<open>Decimal division: a zero divisor raises.\<close>

definition dquot :: "rat \<Rightarrow> rat \<Rightarrow> exc + rat" where
  "dquot a b =
     (if b = 0 then Inl (Exc (if a = 0 then ''InvalidOperation'' else ''DivisionByZero'') [])
      else Inr (ddiv a b))"

lemma dquot_ok [simp]: "b \<noteq> 0 \<Longrightarrow> dquot a b = Inr (ddiv a b)"
  by (simp add: dquot_def)

section \<open>Enumerations\<close>

datatype side = BUY | SELL
datatype order_type = MARKET | LIMIT | STOP | STOP_LIMIT
datatype exec_algo = DIRECT | ICEBERG | POV
datatype exec_status =
  REJECTED | ACCEPTED | PARTIALLY_FILLED | FILLED | CANCELLED | EXPIRED | UNKNOWN
datatype reject_reason =
  HALTED | INVALID_ORDER | ATTESTATION_MISSING | ATTESTATION_INVALID | ORDER_EXPIRED
| ORDER_FROM_FUTURE | SHORT_NOT_PERMITTED | ORDER_ID_MISMATCH | DUPLICATE_ORDER
| NOTIONAL_UNDETERMINABLE | NOTIONAL_CAP_EXCEEDED | SESSION_NOTIONAL_CAP_EXCEEDED
| ALGO_UNSUPPORTED | NO_ELIGIBLE_VENUE | BROKER_REJECTED | SUBMIT_OUTCOME_UNKNOWN
| INTERNAL_ERROR | CONTEXT_MISSING | CONTEXT_MISMATCH | STRATEGY_NOT_PROMOTED
| MANIFEST_FAILED

fun side_value :: "side \<Rightarrow> pystr" where
  "side_value BUY = ''buy''"
| "side_value SELL = ''sell''"

fun order_type_value :: "order_type \<Rightarrow> pystr" where
  "order_type_value MARKET = ''market''"
| "order_type_value LIMIT = ''limit''"
| "order_type_value STOP = ''stop''"
| "order_type_value STOP_LIMIT = ''stop_limit''"

fun exec_algo_value :: "exec_algo \<Rightarrow> pystr" where
  "exec_algo_value DIRECT = ''direct''"
| "exec_algo_value ICEBERG = ''iceberg''"
| "exec_algo_value POV = ''pov''"

fun exec_status_value :: "exec_status \<Rightarrow> pystr" where
  "exec_status_value REJECTED = ''rejected''"
| "exec_status_value ACCEPTED = ''accepted''"
| "exec_status_value PARTIALLY_FILLED = ''partially_filled''"
| "exec_status_value FILLED = ''filled''"
| "exec_status_value CANCELLED = ''cancelled''"
| "exec_status_value EXPIRED = ''expired''"
| "exec_status_value UNKNOWN = ''unknown''"

fun reject_reason_value :: "reject_reason \<Rightarrow> pystr" where
  "reject_reason_value HALTED = ''halted''"
| "reject_reason_value INVALID_ORDER = ''invalid_order''"
| "reject_reason_value ATTESTATION_MISSING = ''attestation_missing''"
| "reject_reason_value ATTESTATION_INVALID = ''attestation_invalid''"
| "reject_reason_value ORDER_EXPIRED = ''order_expired''"
| "reject_reason_value ORDER_FROM_FUTURE = ''order_from_future''"
| "reject_reason_value SHORT_NOT_PERMITTED = ''short_not_permitted''"
| "reject_reason_value ORDER_ID_MISMATCH = ''order_id_mismatch''"
| "reject_reason_value DUPLICATE_ORDER = ''duplicate_order''"
| "reject_reason_value NOTIONAL_UNDETERMINABLE = ''notional_undeterminable''"
| "reject_reason_value NOTIONAL_CAP_EXCEEDED = ''notional_cap_exceeded''"
| "reject_reason_value SESSION_NOTIONAL_CAP_EXCEEDED = ''session_notional_cap_exceeded''"
| "reject_reason_value ALGO_UNSUPPORTED = ''algo_unsupported''"
| "reject_reason_value NO_ELIGIBLE_VENUE = ''no_eligible_venue''"
| "reject_reason_value BROKER_REJECTED = ''broker_rejected''"
| "reject_reason_value SUBMIT_OUTCOME_UNKNOWN = ''submit_outcome_unknown''"
| "reject_reason_value INTERNAL_ERROR = ''internal_error''"
| "reject_reason_value CONTEXT_MISSING = ''context_missing''"
| "reject_reason_value CONTEXT_MISMATCH = ''context_mismatch''"
| "reject_reason_value STRATEGY_NOT_PROMOTED = ''strategy_not_promoted''"
| "reject_reason_value MANIFEST_FAILED = ''manifest_failed''"

section \<open>Orders\<close>

definition re_symbol :: "pystr \<Rightarrow> bool" where
  "re_symbol s \<longleftrightarrow>
     (case s of [] \<Rightarrow> False
      | c # cs \<Rightarrow> is_upper_ascii c \<and> length cs \<le> 9
          \<and> list_all (\<lambda>d. is_upper_ascii d \<or> is_digit_ascii d \<or> d = CHR ''.'' \<or> d = CHR ''-'') cs)"

definition re_id :: "pystr \<Rightarrow> bool" where
  "re_id s \<longleftrightarrow> 1 \<le> length s \<and> length s \<le> 64
     \<and> list_all (\<lambda>d. is_alnum_ascii d \<or> d = CHR ''.'' \<or> d = CHR ''_'' \<or> d = CHR ''-'') s"

record order =
  o_order_id :: pystr
  o_signal_id :: pystr
  o_symbol :: pystr
  o_created_at_ns :: ns
  o_side :: side
  o_order_type :: order_type
  o_quantity :: rat
  o_limit_price :: rat
  o_stop_price :: rat
  o_preferred_venue :: pystr
  o_max_venue_toxicity :: rat
  o_algo :: exec_algo
  o_pov_target_rate :: rat
  o_iceberg_display_size :: rat

definition client_order_id :: "order \<Rightarrow> pystr" where
  "client_order_id ord = o_order_id ord"

text \<open>The field validators, in field order; each failing field counts as one error.\<close>

definition order_field_checks :: "order \<Rightarrow> bool list" where
  "order_field_checks ord =
     [re_id (o_order_id ord),
      re_symbol (o_symbol ord),
      0 < o_created_at_ns ord,
      0 < o_quantity ord,
      0 \<le> o_limit_price ord,
      0 \<le> o_stop_price ord,
      0 \<le> o_max_venue_toxicity ord \<and> o_max_venue_toxicity ord \<le> 1,
      0 \<le> o_pov_target_rate ord,
      0 \<le> o_iceberg_display_size ord]"

fun required_prices :: "order_type \<Rightarrow> bool \<times> bool" where
  "required_prices MARKET = (False, False)"
| "required_prices LIMIT = (True, False)"
| "required_prices STOP = (False, True)"
| "required_prices STOP_LIMIT = (True, True)"

definition check_type_consistency :: "order \<Rightarrow> bool" where
  "check_type_consistency ord \<longleftrightarrow>
     (0 < o_limit_price ord, 0 < o_stop_price ord) = required_prices (o_order_type ord)"

text \<open>\<open>Order(...)\<close>: the validated order, or the \<open>ValidationError\<close>'s error count.\<close>

definition Order_new :: "order \<Rightarrow> nat + order" where
  "Order_new ord =
     (let n = length (filter Not (order_field_checks ord))
      in if 0 < n then Inl n
         else if check_type_consistency ord then Inr ord else Inl 1)"

definition wf_order :: "order \<Rightarrow> bool" where
  "wf_order ord \<longleftrightarrow> list_all id (order_field_checks ord) \<and> check_type_consistency ord"

section \<open>Attestations\<close>

record attestation =
  a_signature :: bytes
  a_key_id :: pystr
  a_signed_payload :: bytes
  a_payload_sha256 :: bytes
  a_decided_at_ns :: ns
  a_expires_at_ns :: ns
  a_attested_side :: pystr

record attested_order =
  ao_order :: order
  ao_attestation :: attestation

section \<open>Broker messages and quotes\<close>

record broker_order_request =
  q_client_order_id :: pystr
  q_symbol :: pystr
  q_side :: side
  q_order_type :: order_type
  q_quantity :: rat
  q_limit_price :: "rat option"
  q_stop_price :: "rat option"
  q_time_in_force :: pystr

definition BrokerOrderRequest_new :: "broker_order_request \<Rightarrow> exc + broker_order_request" where
  "BrokerOrderRequest_new q =
     (if 1 \<le> length (q_client_order_id q) \<and> length (q_client_order_id q) \<le> 128
         \<and> 0 < q_quantity q
      then Inr q else Inl ValidationError)"

record broker_order =
  b_broker_order_id :: pystr
  b_client_order_id :: pystr
  b_symbol :: pystr
  b_status :: exec_status
  b_raw_status :: pystr
  b_quantity :: rat
  b_filled_quantity :: rat
  b_filled_avg_price :: "rat option"
  b_submitted_at_ns :: "ns option"
  b_filled_at_ns :: "ns option"

record position =
  p_symbol :: pystr
  p_quantity :: rat
  p_avg_entry_price :: rat
  p_market_value :: rat

record account_snapshot =
  acc_status :: pystr
  acc_buying_power :: rat
  acc_cash :: rat
  acc_equity :: rat
  acc_trading_blocked :: bool

record price_quote =
  quote_price :: dec
  quote_as_of_ns :: ns

section \<open>Fills and reports\<close>

record fill =
  f_quantity :: rat
  f_price :: rat
  f_timestamp_ns :: ns
  f_venue :: pystr

definition Fill_new :: "rat \<Rightarrow> rat \<Rightarrow> ns \<Rightarrow> pystr \<Rightarrow> exc + fill" where
  "Fill_new q p ts v =
     (if 0 < q \<and> 0 < p
      then Inr \<lparr>f_quantity = q, f_price = p, f_timestamp_ns = ts, f_venue = v\<rparr>
      else Inl ValidationError)"

record exec_report =
  r_order_id :: pystr
  r_client_order_id :: pystr
  r_signal_id :: pystr
  r_symbol :: pystr
  r_side :: "side option"
  r_status :: exec_status
  r_requested_quantity :: rat
  r_reject_reason :: "reject_reason option"
  r_reject_detail :: pystr
  r_broker_order_id :: "pystr option"
  r_venue :: "pystr option"
  r_fills :: "fill list"
  r_arrival_price :: "rat option"
  r_received_at_ns :: ns
  r_submitted_at_ns :: "ns option"
  r_updated_at_ns :: ns

text \<open>A Decimal field of a report accepts finite values only.\<close>

fun finite_field :: "dec option \<Rightarrow> exc + rat option" where
  "finite_field None = Inr None"
| "finite_field (Some (Fin x)) = Inr (Some x)"
| "finite_field (Some _) = Inl ValidationError"

definition check_reason_matches_status :: "exec_report \<Rightarrow> bool" where
  "check_reason_matches_status r \<longleftrightarrow>
     (if r_status r = REJECTED then r_reject_reason r \<noteq> None
      else r_reject_reason r = None \<or> r_status r = UNKNOWN)"

text \<open>
  \<open>ExecutionReport(...)\<close>: the arrival price is passed separately because it is the only
  Decimal that reaches the constructor unvalidated.
\<close>

definition ExecutionReport_new :: "exec_report \<Rightarrow> dec option \<Rightarrow> exc + exec_report" where
  "ExecutionReport_new r ref =
     rbind (finite_field ref)
       (\<lambda>p. let r' = r\<lparr>r_arrival_price := p\<rparr>
            in if check_reason_matches_status r' then Inr r' else Inl ValidationError)"

definition filled_quantity :: "exec_report \<Rightarrow> rat" where
  "filled_quantity r = dsum (map f_quantity (r_fills r))"

definition avg_fill_price :: "exec_report \<Rightarrow> rat option" where
  "avg_fill_price r =
     (let qty = filled_quantity r
      in if qty = 0 then None
         else Some (ddiv (dsum (map (\<lambda>f. dmul (f_quantity f) (f_price f)) (r_fills r))) qty))"

definition report_slippage_bps :: "exec_report \<Rightarrow> exc + rat option" where
  "report_slippage_bps r =
     (case (avg_fill_price r, r_arrival_price r, r_side r) of
        (Some avg, Some p, Some s) \<Rightarrow>
          rbind (dquot (dsub avg p) p)
            (\<lambda>x. let raw = dmul x 10000 in Inr (Some (if s = BUY then raw else dneg raw)))
      | _ \<Rightarrow> Inr None)"

section \<open>Validation facts\<close>

lemma Order_new_wf: "Order_new ord = Inr ord' \<longleftrightarrow> wf_order ord \<and> ord' = ord"
  by (auto simp: Order_new_def wf_order_def Let_def list_all_iff filter_empty_conv)

lemma wf_order_quantity: "wf_order ord \<Longrightarrow> 0 < o_quantity ord"
  by (simp add: wf_order_def order_field_checks_def)

lemma wf_order_id_length:
  "wf_order ord \<Longrightarrow> 1 \<le> length (o_order_id ord) \<and> length (o_order_id ord) \<le> 64"
  by (simp add: wf_order_def order_field_checks_def re_id_def)

lemma wf_order_id_nonempty: "wf_order ord \<Longrightarrow> o_order_id ord \<noteq> []"
  using wf_order_id_length by fastforce

lemma BrokerOrderRequest_new_wf:
  assumes "wf_order ord" "q_client_order_id q = client_order_id ord" "q_quantity q = o_quantity ord"
  shows "BrokerOrderRequest_new q = Inr q"
  using wf_order_id_length [OF assms(1)] wf_order_quantity [OF assms(1)] assms(2,3)
  by (simp add: BrokerOrderRequest_new_def client_order_id_def)

lemma finite_field_cases:
  "finite_field ref = Inr p \<Longrightarrow> (ref = None \<and> p = None) \<or> (\<exists>x. ref = Some (Fin x) \<and> p = Some x)"
  by (cases ref rule: finite_field.cases) auto

definition finite_ref :: "dec option \<Rightarrow> bool" where
  "finite_ref ref \<longleftrightarrow> (case ref of None \<Rightarrow> True | Some d \<Rightarrow> is_finite d)"

lemma finite_field_ok: "finite_ref ref \<Longrightarrow> \<exists>p. finite_field ref = Inr p"
  by (cases ref rule: finite_field.cases) (auto simp: finite_ref_def)

lemma report_check_arrival [simp]:
  "check_reason_matches_status (r\<lparr>r_arrival_price := p\<rparr>) = check_reason_matches_status r"
  by (simp add: check_reason_matches_status_def)

lemma ExecutionReport_new_ok:
  assumes "finite_ref ref" "check_reason_matches_status r"
  shows "\<exists>p. ExecutionReport_new r ref = Inr (r\<lparr>r_arrival_price := p\<rparr>)"
proof -
  obtain p where "finite_field ref = Inr p" using finite_field_ok [OF assms(1)] by blast
  then have "ExecutionReport_new r ref = Inr (r\<lparr>r_arrival_price := p\<rparr>)"
    by (simp add: ExecutionReport_new_def assms(2))
  then show ?thesis by (rule exI)
qed

lemma ExecutionReport_new_Inr:
  assumes "ExecutionReport_new r ref = Inr r'"
  shows "check_reason_matches_status r \<and> (\<exists>p. r' = r\<lparr>r_arrival_price := p\<rparr>)"
proof (cases "finite_field ref")
  case (Inr p)
  with assms have "check_reason_matches_status r" "r' = r\<lparr>r_arrival_price := p\<rparr>"
    by (simp_all add: ExecutionReport_new_def split: if_splits)
  then show ?thesis by blast
qed (use assms in \<open>simp add: ExecutionReport_new_def\<close>)

lemma ExecutionReport_new_returns:
  "finite_ref ref \<Longrightarrow> check_reason_matches_status r \<Longrightarrow> \<exists>r'. ExecutionReport_new r ref = Inr r'"
  using ExecutionReport_new_ok by blast

end
