(* ===== verification/Halt.thy ===== *)
theory Halt
  imports Motor_Models
begin

text \<open>
  The in-process kill switch (\<open>execution_motor/halt.py\<close>). The external
  \<open>HaltSignalSource\<close> is not part of the component: one answer of its \<open>is_halted()\<close> is the
  argument \<open>poll\<close> of every operation that consults it, \<open>Inl\<close> for an exception.
  The lemmas show that the switch fails closed and that a local halt is sticky until an
  authorised resume.
\<close>

section \<open>State and operations\<close>

record kill_switch =
  ks_halted :: bool
  ks_reason :: pystr
  ks_has_source :: bool
  ks_latch_external :: bool

type_synonym poll = "exc + bool"

definition KillSwitch_new :: "bool \<Rightarrow> bool \<Rightarrow> bool \<Rightarrow> kill_switch" where
  "KillSwitch_new start_halted has_source latch_external =
     \<lparr>ks_halted = start_halted,
      ks_reason = (if start_halted then ''initial state: halted until explicit resume'' else []),
      ks_has_source = has_source,
      ks_latch_external = latch_external\<rparr>"

definition ks_halt :: "kill_switch \<Rightarrow> pystr \<Rightarrow> kill_switch" where
  "ks_halt ks reason = ks\<lparr>ks_halted := True, ks_reason := reason\<rparr>"

definition external_halted :: "kill_switch \<Rightarrow> poll \<Rightarrow> bool \<times> kill_switch" where
  "external_halted ks poll =
     (if \<not> ks_has_source ks then (False, ks)
      else case poll of
        Inl e \<Rightarrow> (True, if ks_latch_external ks
                       then ks_halt ks (''signal source error: '' @ exc_name e) else ks)
      | Inr halted \<Rightarrow> (halted, if halted \<and> ks_latch_external ks
                              then ks_halt ks ''external halt signal'' else ks))"

definition ks_is_halted :: "kill_switch \<Rightarrow> poll \<Rightarrow> bool \<times> kill_switch" where
  "ks_is_halted ks poll =
     (case external_halted ks poll of (ext, ks') \<Rightarrow>
        if ext then (True, ks') else (ks_halted ks', ks'))"

definition ks_resume :: "kill_switch \<Rightarrow> pystr \<Rightarrow> poll \<Rightarrow> kill_switch" where
  "ks_resume ks operator poll =
     (if py_strip operator = [] then ks
      else case external_halted ks poll of (ext, ks') \<Rightarrow>
        if ext then ks' else ks'\<lparr>ks_halted := False, ks_reason := []\<rparr>)"

text \<open>\<open>KillStateHaltSource.is_halted\<close>: the poll obtained from a fetched Aegis level.\<close>

definition KillStateHaltSource_is_halted :: "exc + int \<Rightarrow> poll" where
  "KillStateHaltSource_is_halted fetched =
     (case fetched of Inl e \<Rightarrow> Inl e | Inr level \<Rightarrow> Inr (level \<noteq> 0))"

lemmas halt_defs [op_defs] = ks_halt_def external_halted_def ks_is_halted_def ks_resume_def

section \<open>Sequences of operations\<close>

datatype ks_op = KHalt pystr | KPoll poll | KResume pystr poll

fun ks_step :: "kill_switch \<Rightarrow> ks_op \<Rightarrow> kill_switch" where
  "ks_step ks (KHalt reason) = ks_halt ks reason"
| "ks_step ks (KPoll poll) = snd (ks_is_halted ks poll)"
| "ks_step ks (KResume operator poll) = ks_resume ks operator poll"

definition demands_halt :: "poll \<Rightarrow> bool" where
  "demands_halt poll \<longleftrightarrow> poll \<noteq> Inr False"

text \<open>A resume is authorised when it names an operator and the source no longer halts.\<close>

fun authorised_resume :: "kill_switch \<Rightarrow> ks_op \<Rightarrow> bool" where
  "authorised_resume ks (KResume operator poll) =
     (py_strip operator \<noteq> [] \<and> (ks_has_source ks \<longrightarrow> \<not> demands_halt poll))"
| "authorised_resume ks _ = False"

section \<open>Fail-closed behaviour\<close>

lemma external_halted_fst:
  "fst (external_halted ks poll) \<longleftrightarrow> ks_has_source ks \<and> demands_halt poll"
  by (cases poll) (auto simp: external_halted_def demands_halt_def)

lemma external_halted_config [frame_simps]:
  "ks_has_source (snd (external_halted ks poll)) = ks_has_source ks"
  "ks_latch_external (snd (external_halted ks poll)) = ks_latch_external ks"
  by (auto simp: external_halted_def ks_halt_def split: sum.splits)

lemma ks_is_halted_fst:
  "fst (ks_is_halted ks poll) \<longleftrightarrow> ks_halted ks \<or> (ks_has_source ks \<and> demands_halt poll)"
  by (cases poll) (auto simp: ks_is_halted_def external_halted_def ks_halt_def demands_halt_def)

lemma ks_is_halted_snd:
  "ks_halted (snd (ks_is_halted ks poll)) \<longleftrightarrow>
     ks_halted ks \<or> (ks_has_source ks \<and> ks_latch_external ks \<and> demands_halt poll)"
  by (cases poll) (auto simp: ks_is_halted_def external_halted_def ks_halt_def demands_halt_def)

lemma ks_is_halted_config [frame_simps]:
  "ks_has_source (snd (ks_is_halted ks poll)) = ks_has_source ks"
  "ks_latch_external (snd (ks_is_halted ks poll)) = ks_latch_external ks"
  using external_halted_config [of ks poll]
  by (auto simp: ks_is_halted_def split: prod.splits)

lemma ks_halt_config [frame_simps]:
  "ks_has_source (ks_halt ks r) = ks_has_source ks"
  "ks_latch_external (ks_halt ks r) = ks_latch_external ks"
  by (simp_all add: ks_halt_def)

lemma ks_resume_config [frame_simps]:
  "ks_has_source (ks_resume ks op poll) = ks_has_source ks"
  "ks_latch_external (ks_resume ks op poll) = ks_latch_external ks"
  by (cases poll; simp add: ks_resume_def external_halted_def ks_halt_def)+

lemma ks_step_config [frame_simps]:
  "ks_has_source (ks_step ks op) = ks_has_source ks"
  "ks_latch_external (ks_step ks op) = ks_latch_external ks"
  by (cases op; simp add: frame_simps)+

lemma ks_step_keeps_halt:
  assumes "ks_halted ks" "\<not> authorised_resume ks op"
  shows "ks_halted (ks_step ks op)"
proof (cases op)
  case (KResume operator poll)
  show ?thesis
  proof (cases "py_strip operator = []")
    case True
    with KResume assms(1) show ?thesis by (simp add: ks_resume_def)
  next
    case False
    with KResume assms(2) have "fst (external_halted ks poll)"
      by (simp add: external_halted_fst)
    with KResume assms(1) show ?thesis
      by (cases poll)
        (auto simp: ks_resume_def external_halted_def ks_halt_def split: if_splits)
  qed
qed (use assms in \<open>auto simp: ks_halt_def ks_is_halted_snd\<close>)

text \<open>Once halted, and until an authorised resume, every poll answers "halted".\<close>

fun unauthorised :: "kill_switch \<Rightarrow> ks_op list \<Rightarrow> bool" where
  "unauthorised ks [] = True"
| "unauthorised ks (op # ops) = (\<not> authorised_resume ks op \<and> unauthorised (ks_step ks op) ops)"

lemma ks_run_keeps_halt:
  "ks_halted ks \<Longrightarrow> unauthorised ks ops \<Longrightarrow> ks_halted (foldl ks_step ks ops)"
  by (induction ops arbitrary: ks) (auto simp: ks_step_keeps_halt)

lemma ks_mirror_local:
  assumes "\<not> ks_latch_external ks"
  shows "snd (ks_is_halted ks poll) = ks"
  using assms by (cases poll) (auto simp: ks_is_halted_def external_halted_def)

section \<open>Properties\<close>

text \<open>
  The kill switch fails closed and is sticky. It answers "halted" whenever it was halted
  locally or its signal source raises or demands a halt; once halted it stays halted through any
  sequence of halts, polls and resume attempts in which no resume names an operator while the
  source is clear; and it is latched by an external halt exactly when configured to latch.
\<close>

theorem kill_switch_fails_closed:
  "(fst (ks_is_halted ks poll) \<longleftrightarrow> ks_halted ks \<or> (ks_has_source ks \<and> poll \<noteq> Inr False))
   \<and> (ks_halted (snd (ks_is_halted ks poll)) \<longleftrightarrow>
        ks_halted ks \<or> (ks_has_source ks \<and> ks_latch_external ks \<and> poll \<noteq> Inr False))
   \<and> (ks_halted ks \<and> unauthorised ks ops \<longrightarrow> ks_halted (foldl ks_step ks ops))"
  by (simp add: ks_is_halted_fst ks_is_halted_snd demands_halt_def ks_run_keeps_halt)

theorem kill_switch_fails_closed_witness:
  "ks_halted (foldl ks_step (KillSwitch_new True True True)
     [KResume [] (Inr False), KPoll (Inl (Exc ''OSError'' [])), KResume ''ann'' (Inr True), KHalt ''x''])"
proof -
  have "unauthorised (KillSwitch_new True True True)
     [KResume [] (Inr False), KPoll (Inl (Exc ''OSError'' [])), KResume ''ann'' (Inr True), KHalt ''x'']"
    by code_simp
  moreover have "ks_halted (KillSwitch_new True True True)" by code_simp
  ultimately show ?thesis using kill_switch_fails_closed by blast
qed

end
