(* ===== verification/Motor_Limits.thy ===== *)
theory Motor_Limits
  imports Motor_Models
begin

text \<open>
  Defence-in-depth limits (\<open>execution_motor/limits.py\<close>): single-use claims, in memory and in
  an append-only file, the worst-case notional of an order, and the session ledger.

  The file is modelled by its lines, each the key that \<open>json.loads\<close> reads back from it or
  \<open>Torn\<close> when it does not parse to a non-empty string key. The answer of the disk to the
  \<open>n\<close>-th write-flush-fsync is a parameter \<open>disk n\<close>: it may succeed, or fail having or not
  having stored the line, or leave a torn line. The locale \<open>single_use\<close> is the contract the
  motor relies on (\<open>IdempotencyStore\<close>); both stores are interpretations of it.
\<close>

section \<open>Idempotency stores\<close>

datatype file_line = KeyLine pystr | Torn

datatype write_outcome = Written | Failed_clean | Failed_written | Failed_torn

type_synonym disk = "nat \<Rightarrow> write_outcome"

record file_store =
  fs_seen :: "pystr set"
  fs_lines :: "file_line list"
  fs_writes :: nat

datatype idem_store = InMemory "pystr set" | FileBacked file_store

definition memory_claim :: "pystr set \<Rightarrow> pystr \<Rightarrow> bool \<times> pystr set" where
  "memory_claim seen key = (if key \<in> seen then (False, seen) else (True, insert key seen))"

fun written_lines :: "write_outcome \<Rightarrow> pystr \<Rightarrow> file_line list" where
  "written_lines Written key = [KeyLine key]"
| "written_lines Failed_clean key = []"
| "written_lines Failed_written key = [KeyLine key]"
| "written_lines Failed_torn key = [Torn]"

abbreviation IdempotencyStoreError :: exc where
  "IdempotencyStoreError \<equiv> Exc ''IdempotencyStoreError'' ''claim could not be persisted''"

definition file_claim :: "disk \<Rightarrow> file_store \<Rightarrow> pystr \<Rightarrow> (exc + bool) \<times> file_store" where
  "file_claim disk fs key =
     (if key \<in> fs_seen fs then (Inr False, fs)
      else let out = disk (fs_writes fs);
               fs' = fs\<lparr>fs_seen := insert key (fs_seen fs),
                        fs_lines := fs_lines fs @ written_lines out key,
                        fs_writes := Suc (fs_writes fs)\<rparr>
           in if out = Written then (Inr True, fs') else (Inl IdempotencyStoreError, fs'))"

text \<open>\<open>_load\<close>: all keys of the file, or the number of the line that is corrupt.\<close>

fun load_lines :: "nat \<Rightarrow> pystr set \<Rightarrow> file_line list \<Rightarrow> nat + pystr set" where
  "load_lines number seen [] = Inr seen"
| "load_lines number seen (KeyLine key # rest) =
     (if key = [] then Inl (Suc number) else load_lines (Suc number) (insert key seen) rest)"
| "load_lines number seen (Torn # rest) = Inl (Suc number)"

abbreviation ConfigError :: "pystr \<Rightarrow> exc" where
  "ConfigError msg \<equiv> Exc ''ConfigError'' msg"

definition FileIdempotencyStore_new :: "file_line list option \<Rightarrow> bool \<Rightarrow> exc + file_store" where
  "FileIdempotencyStore_new file writable =
     (case load_lines 0 {} (case file of None \<Rightarrow> [] | Some ls \<Rightarrow> ls) of
        Inl number \<Rightarrow>
          Inl (ConfigError (''idempotency store corrupt near line '' @ nat_str number))
      | Inr seen \<Rightarrow>
          if writable
          then Inr \<lparr>fs_seen = seen, fs_lines = (case file of None \<Rightarrow> [] | Some ls \<Rightarrow> ls),
                    fs_writes = 0\<rparr>
          else Inl (ConfigError ''idempotency store not writable''))"

text \<open>
  A state directory as the constructor finds it: whether it can be created and listed, whether
  it holds anything, the store file if there is one, whether that file can be appended to.
\<close>

record state_dir =
  sd_usable :: bool
  sd_populated :: bool
  sd_file :: "file_line list option"
  sd_writable :: bool

definition open_persistent_idempotency_store :: "state_dir \<Rightarrow> exc + file_store" where
  "open_persistent_idempotency_store d =
     (if \<not> sd_usable d then Inl (ConfigError ''state dir unusable'')
      else if sd_populated d \<and> sd_file d = None
      then Inl (ConfigError ''idempotency store missing in a non-empty state dir'')
      else FileIdempotencyStore_new (sd_file d) (sd_writable d))"

definition store_claim :: "disk \<Rightarrow> idem_store \<Rightarrow> pystr \<Rightarrow> (exc + bool) \<times> idem_store" where
  "store_claim disk st key =
     (case st of
        InMemory seen \<Rightarrow> (case memory_claim seen key of (ok, seen') \<Rightarrow> (Inr ok, InMemory seen'))
      | FileBacked fs \<Rightarrow> (case file_claim disk fs key of (r, fs') \<Rightarrow> (r, FileBacked fs')))"

fun store_seen :: "idem_store \<Rightarrow> pystr set" where
  "store_seen (InMemory seen) = seen"
| "store_seen (FileBacked fs) = fs_seen fs"

section \<open>Notional\<close>

fun usable_price :: "dec option \<Rightarrow> rat option" where
  "usable_price (Some (Fin x)) = (if x \<le> 0 then None else Some x)"
| "usable_price _ = None"

definition usable_prices :: "order \<Rightarrow> dec option \<Rightarrow> rat list" where
  "usable_prices ord trusted_price =
     List.map_filter id
       [usable_price (Some (Fin (o_limit_price ord))),
        usable_price (Some (Fin (o_stop_price ord))),
        usable_price trusted_price]"

definition compute_notional :: "order \<Rightarrow> dec option \<Rightarrow> rat option" where
  "compute_notional ord trusted_price =
     (let prices = usable_prices ord trusted_price
      in if prices = [] then None
         else Some (dmul (o_quantity ord) (fold max (tl prices) (hd prices))))"

section \<open>The session ledger\<close>

record notional_ledger =
  l_cap :: rat
  l_reserved :: rat

fun NotionalLedger_new :: "dec \<Rightarrow> exc + notional_ledger" where
  "NotionalLedger_new (Fin cap) =
     (if cap \<le> 0 then Inl (Exc ''ValueError'' ''cap must be > 0'')
      else Inr \<lparr>l_cap = cap, l_reserved = 0\<rparr>)"
| "NotionalLedger_new _ = Inl (Exc ''ValueError'' ''cap must be > 0'')"

definition try_reserve :: "notional_ledger \<Rightarrow> rat \<Rightarrow> bool \<times> notional_ledger" where
  "try_reserve l amount =
     (if amount \<le> 0 then (False, l)
      else if l_cap l < dadd (l_reserved l) amount then (False, l)
      else (True, l\<lparr>l_reserved := dadd (l_reserved l) amount\<rparr>))"

definition release :: "notional_ledger \<Rightarrow> rat \<Rightarrow> notional_ledger" where
  "release l amount = l\<lparr>l_reserved := max 0 (dsub (l_reserved l) amount)\<rparr>"

lemmas limit_defs [op_defs] =
  memory_claim_def file_claim_def store_claim_def try_reserve_def release_def

section \<open>The contract of single-use claims\<close>

locale single_use =
  fixes claim :: "'s \<Rightarrow> 'k \<Rightarrow> ('e + bool) \<times> 's"
    and claimed :: "'s \<Rightarrow> 'k set"
  assumes granted_fresh: "claim s k = (Inr True, s') \<Longrightarrow> k \<notin> claimed s"
    and records: "claimed (snd (claim s k)) = insert k (claimed s)"
begin

lemma repeat_refused: "k \<in> claimed s \<Longrightarrow> fst (claim s k) \<noteq> Inr True"
  using granted_fresh by (metis prod.collapse)

fun run_claims :: "'s \<Rightarrow> 'k list \<Rightarrow> 's" where
  "run_claims s [] = s"
| "run_claims s (k # ks) = run_claims (snd (claim s k)) ks"

text \<open>The keys granted along a sequence of claims, in order.\<close>

fun granted :: "'s \<Rightarrow> 'k list \<Rightarrow> 'k list" where
  "granted s [] = []"
| "granted s (k # ks) =
     (if fst (claim s k) = Inr True then [k] else []) @ granted (snd (claim s k)) ks"

lemma claimed_run: "claimed (run_claims s ks) = claimed s \<union> set ks"
  by (induction ks arbitrary: s) (auto simp: records)

lemma granted_new: "set (granted s ks) \<inter> claimed s = {}"
proof (induction ks arbitrary: s)
  case (Cons k ks)
  have "set (granted (snd (claim s k)) ks) \<inter> claimed s = {}"
    using Cons.IH [of "snd (claim s k)"] by (auto simp: records)
  moreover have "fst (claim s k) = Inr True \<Longrightarrow> k \<notin> claimed s"
    using repeat_refused by blast
  ultimately show ?case by auto
qed simp

theorem granted_once: "distinct (granted s ks)"
proof (induction ks arbitrary: s)
  case (Cons k ks)
  have "k \<notin> set (granted (snd (claim s k)) ks)"
    using granted_new [of "snd (claim s k)" ks] by (auto simp: records)
  with Cons.IH show ?case by simp
qed simp

end

interpretation mem: single_use "\<lambda>s k. (Inr (fst (memory_claim s k)), snd (memory_claim s k))" "\<lambda>s. s"
  by unfold_locales (auto simp: memory_claim_def split: if_splits)

interpretation fstore: single_use "file_claim disk" fs_seen for disk
  by unfold_locales (auto simp: file_claim_def Let_def split: if_splits)

lemma store_claim_cases:
  "store_claim disk st key = (r, st') \<Longrightarrow>
     store_seen st' = insert key (store_seen st) \<and> (r = Inr True \<longrightarrow> key \<notin> store_seen st)"
  by (cases st)
    (auto simp: store_claim_def memory_claim_def file_claim_def Let_def split: if_splits)

interpretation idem: single_use "store_claim disk" store_seen for disk
proof
  fix s :: idem_store and k s'
  show "store_claim disk s k = (Inr True, s') \<Longrightarrow> k \<notin> store_seen s"
    using store_claim_cases by blast
  show "store_seen (snd (store_claim disk s k)) = insert k (store_seen s)"
    using store_claim_cases by (metis prod.collapse)
qed

section \<open>Claims survive a restart\<close>

definition line_keys :: "file_line list \<Rightarrow> pystr set" where
  "line_keys ls = {key. KeyLine key \<in> set ls}"

lemma load_lines_Inr: "load_lines n seen ls = Inr s \<Longrightarrow> s = seen \<union> line_keys ls"
  by (induction n seen ls rule: load_lines.induct) (auto simp: line_keys_def split: if_splits)

lemma file_claim_lines:
  "file_claim disk fs key = (r, fs') \<Longrightarrow>
     line_keys (fs_lines fs) \<subseteq> line_keys (fs_lines fs')
     \<and> (r = Inr True \<longrightarrow> key \<in> line_keys (fs_lines fs'))"
  by (auto simp: file_claim_def Let_def line_keys_def split: if_splits)

lemma file_run_lines:
  "line_keys (fs_lines fs) \<union> set (fstore.granted disk fs ks)
     \<subseteq> line_keys (fs_lines (fstore.run_claims disk fs ks))"
proof (induction ks arbitrary: fs)
  case (Cons k ks)
  obtain r fs' where c: "file_claim disk fs k = (r, fs')" by force
  then show ?case
    using Cons.IH [of fs'] file_claim_lines [OF c] by (auto split: if_splits)
qed simp

section \<open>The ledger never exceeds its cap\<close>

definition ledger_inv :: "notional_ledger \<Rightarrow> bool" where
  "ledger_inv l \<longleftrightarrow> 0 \<le> l_reserved l \<and> l_reserved l \<le> l_cap l \<and> rnd (l_reserved l) = l_reserved l"

lemma ledger_inv_new: "NotionalLedger_new cap = Inr l \<Longrightarrow> ledger_inv l"
  by (cases cap) (auto simp: ledger_inv_def split: if_splits)

lemma ledger_cap_frame [frame_simps]:
  "l_cap (release l a) = l_cap l" "l_cap (snd (try_reserve l a)) = l_cap l"
  by (simp_all add: release_def try_reserve_def)

lemma ledger_inv_try_reserve:
  assumes "ledger_inv l"
  shows "ledger_inv (snd (try_reserve l a))"
proof (cases "a \<le> 0 \<or> l_cap l < dadd (l_reserved l) a")
  case False
  with assms have "0 \<le> dadd (l_reserved l) a"
    by (simp add: dadd_def ledger_inv_def dec28.nonneg)
  with False show ?thesis by (simp add: try_reserve_def ledger_inv_def dadd_def)
qed (use assms in \<open>auto simp: try_reserve_def\<close>)

lemma ledger_inv_release:
  assumes "ledger_inv l" "0 \<le> a"
  shows "ledger_inv (release l a)"
proof -
  have "dsub (l_reserved l) a \<le> l_reserved l"
    using assms by (simp add: dsub_def ledger_inv_def dec28.le_exact)
  with assms show ?thesis
    by (auto simp: release_def ledger_inv_def dsub_def max_def)
qed

lemma try_reserve_granted:
  "try_reserve l a = (True, l') \<Longrightarrow>
     0 < a \<and> l_reserved l' = dadd (l_reserved l) a \<and> l_reserved l' \<le> l_cap l"
  by (auto simp: try_reserve_def split: if_splits)

section \<open>The notional is the worst case\<close>

lemma usable_price_Some: "usable_price p = Some x \<longleftrightarrow> p = Some (Fin x) \<and> 0 < x"
  by (cases p rule: usable_price.cases) auto

lemma fold_max_ge: "x \<in> set (y # ys) \<Longrightarrow> x \<le> fold max ys (y :: rat)"
  by (metis Max.set_eq_fold Max_ge List.finite_set)

lemma fold_max_mem: "fold max ys (y :: rat) \<in> set (y # ys)"
  by (metis Max.set_eq_fold Max_in List.finite_set list.distinct(1) set_empty)

definition cap_prices :: "order \<Rightarrow> dec option \<Rightarrow> rat set" where
  "cap_prices ord trusted =
     {p. 0 < p \<and> (p = o_limit_price ord \<or> p = o_stop_price ord \<or> trusted = Some (Fin p))}"

lemma map_filter_id_set:
  "set (List.map_filter id xs) = {x. Some x \<in> set xs}"
  by (induction xs) (auto simp: List.map_filter_simps split: option.splits)

lemma cap_prices_set: "cap_prices ord trusted = set (usable_prices ord trusted)"
  unfolding usable_prices_def map_filter_id_set
  by (auto simp: cap_prices_def usable_price_Some eq_commute [of "Some _" "usable_price _"]
      simp del: usable_price.simps)

lemma compute_notional_Some:
  assumes "compute_notional ord trusted = Some n"
  shows "\<exists>p \<in> cap_prices ord trusted. n = dmul (o_quantity ord) p
           \<and> (\<forall>p' \<in> cap_prices ord trusted. p' \<le> p)"
proof -
  define ps where "ps = usable_prices ord trusted"
  have set: "set ps = cap_prices ord trusted"
    by (simp add: ps_def cap_prices_set)
  from assms have ne: "ps \<noteq> []" and n: "n = dmul (o_quantity ord) (fold max (tl ps) (hd ps))"
    by (auto simp: compute_notional_def ps_def Let_def split: if_splits)
  from ne have ps: "hd ps # tl ps = ps" by simp
  have "fold max (tl ps) (hd ps) \<in> set ps" "\<forall>p \<in> set ps. p \<le> fold max (tl ps) (hd ps)"
    using fold_max_mem [of "tl ps" "hd ps"] fold_max_ge [of _ "hd ps" "tl ps"] ps by auto
  with n set show ?thesis by blast
qed

section \<open>Properties\<close>

text \<open>
  A claim is granted at most once, also across a restart. Whatever the disk does, the keys a
  file store grants along any sequence of claims are distinct, and after the file it left is opened
  again no sequence of claims grants any of them a second time.
\<close>

theorem claims_granted_once_across_restart:
  assumes "FileIdempotencyStore_new (Some (fs_lines (fstore.run_claims disk fs keys))) writable = Inr fs'"
  shows "distinct (fstore.granted disk fs keys)
     \<and> set (fstore.granted disk fs keys) \<inter> set (fstore.granted disk' fs' keys') = {}"
proof -
  have "fs_seen fs' = line_keys (fs_lines (fstore.run_claims disk fs keys))"
    using assms by (auto simp: FileIdempotencyStore_new_def dest!: load_lines_Inr
        split: sum.splits if_splits)
  then have "set (fstore.granted disk fs keys) \<subseteq> fs_seen fs'" using file_run_lines by blast
  then show ?thesis using fstore.granted_once fstore.granted_new by blast
qed

theorem claims_granted_once_across_restart_witness:
  "fstore.granted (\<lambda>n. Written) \<lparr>fs_seen = {}, fs_lines = [], fs_writes = 0\<rparr> [''a'', ''b'', ''a''] = [''a'', ''b'']
   \<and> {''a'', ''b''} \<inter> set (fstore.granted (\<lambda>n. Written)
        \<lparr>fs_seen = {''a'', ''b''}, fs_lines = [KeyLine ''a'', KeyLine ''b''], fs_writes = 0\<rparr>
        [''b'', ''a'', ''c'']) = {}"
proof -
  let ?fs = "\<lparr>fs_seen = {}, fs_lines = [], fs_writes = 0\<rparr>"
  let ?fs' = "\<lparr>fs_seen = {''a'', ''b''}, fs_lines = [KeyLine ''a'', KeyLine ''b''], fs_writes = 0\<rparr>"
  have g: "fstore.granted (\<lambda>n. Written) ?fs [''a'', ''b'', ''a''] = [''a'', ''b'']"
    by (simp add: file_claim_def Let_def)
  have "FileIdempotencyStore_new (Some (fs_lines
      (fstore.run_claims (\<lambda>n. Written) ?fs [''a'', ''b'', ''a'']))) True = Inr ?fs'"
    by (simp add: file_claim_def Let_def FileIdempotencyStore_new_def insert_commute)
  from claims_granted_once_across_restart [OF this, of "\<lambda>n. Written" "[''b'', ''a'', ''c'']"]
  show ?thesis unfolding g by (simp only: list.set g conj_assoc simp_thms)
qed

text \<open>
  The notional checked against the caps is the worst case: the quantity times the highest of
  the positive limit, stop and trusted quote prices, rounded to 28 digits. It is undeterminable
  exactly when there is no such price.
\<close>

theorem notional_is_worst_case:
  "compute_notional ord trusted =
     (if cap_prices ord trusted = {} then None
      else Some (dmul (o_quantity ord) (Max (cap_prices ord trusted))))"
proof (cases "compute_notional ord trusted")
  case None
  then show ?thesis unfolding cap_prices_set by (simp add: compute_notional_def Let_def split: if_splits)
next
  case (Some n)
  have "finite (cap_prices ord trusted)" by (simp add: cap_prices_set)
  with compute_notional_Some [OF Some] have "n = dmul (o_quantity ord) (Max (cap_prices ord trusted))"
    "cap_prices ord trusted \<noteq> {}" using Max_eqI by blast+
  with Some show ?thesis by simp
qed

end
