(* ===== verification/Motor_Config.thy ===== *)
theory Motor_Config
  imports Motor_Limits
begin

text \<open>
  Motor configuration (\<open>execution_motor/config.py\<close>) from an environment \<open>env\<close>, a map from
  variable names to values: the parsing of decimals, integers and flags, and the checks of
  \<open>MotorConfig.__post_init__\<close>. Caps have no defaults; an unset environment is production. Error
  texts that quote a path or a list are abbreviated; nothing in the system reads them.
\<close>

section \<open>Python number syntax\<close>

definition split_sign :: "pystr \<Rightarrow> bool \<times> pystr" where
  "split_sign s = (case s of [] \<Rightarrow> (False, [])
     | c # cs \<Rightarrow> if c = CHR ''-'' then (True, cs) else if c = CHR ''+'' then (False, cs) else (False, s))"

fun no_double_underscore :: "pystr \<Rightarrow> bool" where
  "no_double_underscore (a # b # cs) \<longleftrightarrow>
     \<not> (a = CHR ''_'' \<and> b = CHR ''_'') \<and> no_double_underscore (b # cs)"
| "no_double_underscore _ \<longleftrightarrow> True"

text \<open>\<open>int(text)\<close>: blanks around, an optional sign, digits with single underscores between.\<close>

definition py_int :: "pystr \<Rightarrow> int option" where
  "py_int raw =
     (case split_sign (py_strip raw) of (neg, body) \<Rightarrow>
        if body \<noteq> [] \<and> list_all (\<lambda>c. is_digit_ascii c \<or> c = CHR ''_'') body
           \<and> hd body \<noteq> CHR ''_'' \<and> last body \<noteq> CHR ''_'' \<and> no_double_underscore body
        then let n = int (digits_val (filter is_digit_ascii body))
             in Some (if neg then - n else n)
        else None)"

definition parse_exponent :: "pystr \<Rightarrow> int option" where
  "parse_exponent rest =
     (if rest = [] then Some 0
      else if hd rest = CHR ''e''
      then case split_sign (tl rest) of (neg, ds) \<Rightarrow>
             if ds \<noteq> [] \<and> list_all is_digit_ascii ds
             then Some (if neg then - int (digits_val ds) else int (digits_val ds)) else None
      else None)"

definition parse_number :: "pystr \<Rightarrow> rat option" where
  "parse_number body =
     (let ip = takeWhile is_digit_ascii body;
          rest = dropWhile is_digit_ascii body;
          dot = (rest \<noteq> [] \<and> hd rest = CHR ''.'');
          fp = (if dot then takeWhile is_digit_ascii (tl rest) else []);
          rest2 = (if dot then dropWhile is_digit_ascii (tl rest) else rest)
      in if ip @ fp = [] then None
         else case parse_exponent rest2 of None \<Rightarrow> None
              | Some e \<Rightarrow> Some (of_nat (digits_val (ip @ fp)) * pow10 (e - int (length fp))))"

text \<open>\<open>Decimal(text)\<close>; \<open>None\<close> is \<open>InvalidOperation\<close>. A signalling NaN is not told apart.\<close>

definition parse_decimal :: "pystr \<Rightarrow> dec option" where
  "parse_decimal raw =
     (case split_sign (py_lower (filter (\<lambda>c. c \<noteq> CHR ''_'') (py_strip raw))) of (neg, body) \<Rightarrow>
        if body = ''inf'' \<or> body = ''infinity'' then Some (Infinity neg)
        else if (take 3 body = ''nan'' \<and> list_all is_digit_ascii (drop 3 body))
                \<or> (take 4 body = ''snan'' \<and> list_all is_digit_ascii (drop 4 body))
        then Some NaN
        else map_option (\<lambda>x. Fin (if neg then - x else x)) (parse_number body))"

section \<open>Configuration\<close>

type_synonym env = "pystr \<rightharpoonup> pystr"

definition NS_PER_MS :: int where
  "NS_PER_MS = 1000000"

definition positive_decimal :: "env \<Rightarrow> pystr \<Rightarrow> exc + rat" where
  "positive_decimal env name =
     (case env name of
        None \<Rightarrow> Inl (ConfigError (name @ '' is required''))
      | Some raw \<Rightarrow>
          if py_strip raw = [] then Inl (ConfigError (name @ '' is required''))
          else case parse_decimal (py_strip raw) of
            None \<Rightarrow> Inl (ConfigError (name @ '' is not a valid decimal''))
          | Some (Fin x) \<Rightarrow>
              if x \<le> 0 then Inl (ConfigError (name @ '' must be a finite number > 0'')) else Inr x
          | Some _ \<Rightarrow> Inl (ConfigError (name @ '' must be a finite number > 0'')))"

definition positive_ms :: "env \<Rightarrow> pystr \<Rightarrow> int \<Rightarrow> exc + int" where
  "positive_ms env name default_ms =
     (case env name of
        None \<Rightarrow> Inr (default_ms * NS_PER_MS)
      | Some raw \<Rightarrow>
          (case py_int raw of
             None \<Rightarrow> Inl (ConfigError (name @ '' must be an integer number of milliseconds''))
           | Some v \<Rightarrow> if v \<le> 0 then Inl (ConfigError (name @ '' must be > 0''))
                      else Inr (v * NS_PER_MS)))"

definition env_flag :: "env \<Rightarrow> pystr \<Rightarrow> exc + bool" where
  "env_flag env name =
     (case env name of
        None \<Rightarrow> Inr False
      | Some raw \<Rightarrow>
          if py_strip raw = [] then Inr False
          else let value = py_lower (py_strip raw)
               in if value \<noteq> ''true'' \<and> value \<noteq> ''false''
                  then Inl (ConfigError (name @ '' must be true or false''))
                  else Inr (value = ''true''))"

definition optional_path :: "env \<Rightarrow> pystr \<Rightarrow> pystr option" where
  "optional_path env name =
     (case env name of None \<Rightarrow> None
      | Some raw \<Rightarrow> if py_strip raw = [] then None else Some (py_strip raw))"

record motor_config =
  mc_max_order_notional :: rat
  mc_max_session_notional :: rat
  mc_max_order_age_ns :: ns
  mc_max_clock_skew_ns :: ns
  mc_max_quote_age_ns :: ns
  mc_environment :: pystr
  mc_allow_short_selling :: bool
  mc_state_dir :: "pystr option"

definition is_production :: "motor_config \<Rightarrow> bool" where
  "is_production c \<longleftrightarrow> mc_environment c = ''production''"

definition MotorConfig_new :: "motor_config \<Rightarrow> exc + motor_config" where
  "MotorConfig_new c =
     (if mc_environment c \<notin> {''production'', ''staging'', ''development'', ''test''}
      then Inl (ConfigError ''environment must be one of the known ones'')
      else if mc_max_order_notional c \<le> 0 \<or> mc_max_session_notional c \<le> 0
      then Inl (ConfigError ''notional caps must be > 0'')
      else if mc_max_session_notional c < mc_max_order_notional c
      then Inl (ConfigError ''session notional cap must be >= per-order notional cap'')
      else if mc_max_order_age_ns c \<le> 0 \<or> mc_max_clock_skew_ns c < 0 \<or> mc_max_quote_age_ns c \<le> 0
      then Inl (ConfigError ''age/skew windows are invalid'')
      else Inr c)"

definition environment_of :: "env \<Rightarrow> pystr" where
  "environment_of env =
     (let v = py_lower (py_strip (case env ''MOTOR_ENV'' of None \<Rightarrow> ''production'' | Some s \<Rightarrow> s))
      in if v = [] then ''production'' else v)"

definition MotorConfig_from_env :: "env \<Rightarrow> exc + motor_config" where
  "MotorConfig_from_env env =
     rbind (positive_decimal env ''MOTOR_MAX_ORDER_NOTIONAL_USD'') (\<lambda>order_cap.
     rbind (positive_decimal env ''MOTOR_MAX_SESSION_NOTIONAL_USD'') (\<lambda>session_cap.
     rbind (positive_ms env ''MOTOR_MAX_ORDER_AGE_MS'' 5000) (\<lambda>age.
     rbind (positive_ms env ''MOTOR_MAX_CLOCK_SKEW_MS'' 1000) (\<lambda>skew.
     rbind (positive_ms env ''MOTOR_MAX_QUOTE_AGE_MS'' 2000) (\<lambda>quote_age.
     rbind (env_flag env ''MOTOR_SHORT_SELLING_ENABLED'') (\<lambda>short.
     MotorConfig_new
       \<lparr>mc_max_order_notional = order_cap, mc_max_session_notional = session_cap,
        mc_max_order_age_ns = age, mc_max_clock_skew_ns = skew, mc_max_quote_age_ns = quote_age,
        mc_environment = environment_of env, mc_allow_short_selling = short,
        mc_state_dir = optional_path env ''MOTOR_STATE_DIR''\<rparr>))))))"

section \<open>What a started motor may rely on\<close>

definition config_ok :: "motor_config \<Rightarrow> bool" where
  "config_ok c \<longleftrightarrow> MotorConfig_new c = Inr c"

lemma MotorConfig_new_Inr: "MotorConfig_new c = Inr c' \<Longrightarrow> c' = c \<and> config_ok c"
  by (auto simp: MotorConfig_new_def config_ok_def split: if_splits)

lemma config_okD:
  assumes "config_ok c"
  shows "0 < mc_max_order_notional c" "mc_max_order_notional c \<le> mc_max_session_notional c"
    "0 < mc_max_order_age_ns c" "0 \<le> mc_max_clock_skew_ns c" "0 < mc_max_quote_age_ns c"
  using assms by (auto simp: config_ok_def MotorConfig_new_def split: if_splits)

lemma from_env_ok: "MotorConfig_from_env env = Inr c \<Longrightarrow> config_ok c"
  by (auto simp: MotorConfig_from_env_def rbind_eq_Inr dest: MotorConfig_new_Inr)

lemma from_env_needs_caps:
  assumes "env ''MOTOR_MAX_ORDER_NOTIONAL_USD'' = None
           \<or> env ''MOTOR_MAX_SESSION_NOTIONAL_USD'' = None"
  shows "\<exists>e. MotorConfig_from_env env = Inl e"
proof (cases "MotorConfig_from_env env")
  case (Inr c)
  then have "\<exists>x y. positive_decimal env ''MOTOR_MAX_ORDER_NOTIONAL_USD'' = Inr x
      \<and> positive_decimal env ''MOTOR_MAX_SESSION_NOTIONAL_USD'' = Inr y"
    by (auto simp: MotorConfig_from_env_def rbind_eq_Inr)
  with assms show ?thesis by (auto simp: positive_decimal_def)
qed simp

lemma unset_environment_is_production:
  assumes "MotorConfig_from_env env = Inr c" "env ''MOTOR_ENV'' = None"
  shows "is_production c"
proof -
  have "environment_of env = ''production''"
    by (simp add: environment_of_def assms(2)) code_simp
  with assms(1) show ?thesis
    by (auto simp: MotorConfig_from_env_def rbind_eq_Inr is_production_def
        dest!: MotorConfig_new_Inr)
qed

section \<open>Properties\<close>

text \<open>
  A motor configuration read from the environment is safe: both notional caps were set
  explicitly, they are positive and ordered, the time windows are valid, and without an explicit
  environment name the motor runs in production mode.
\<close>

theorem environment_config_is_safe:
  assumes "MotorConfig_from_env env = Inr c"
  shows "env ''MOTOR_MAX_ORDER_NOTIONAL_USD'' \<noteq> None
     \<and> env ''MOTOR_MAX_SESSION_NOTIONAL_USD'' \<noteq> None
     \<and> 0 < mc_max_order_notional c \<and> mc_max_order_notional c \<le> mc_max_session_notional c
     \<and> 0 < mc_max_order_age_ns c \<and> 0 \<le> mc_max_clock_skew_ns c \<and> 0 < mc_max_quote_age_ns c
     \<and> (env ''MOTOR_ENV'' = None \<longrightarrow> is_production c)"
proof -
  have "\<not> (env ''MOTOR_MAX_ORDER_NOTIONAL_USD'' = None \<or> env ''MOTOR_MAX_SESSION_NOTIONAL_USD'' = None)"
    using from_env_needs_caps [of env] assms by fastforce
  then show ?thesis
    using config_okD [OF from_env_ok [OF assms]] unset_environment_is_production [OF assms] by simp
qed

definition ex_env :: env where
  "ex_env = [''MOTOR_MAX_ORDER_NOTIONAL_USD'' \<mapsto> '' 500 '', ''MOTOR_MAX_SESSION_NOTIONAL_USD'' \<mapsto> ''1e3'']"

theorem environment_config_is_safe_witness:
  "\<exists>c. MotorConfig_from_env ex_env = Inr c \<and> mc_max_order_notional c \<le> mc_max_session_notional c
     \<and> is_production c"
proof -
  have "case MotorConfig_from_env ex_env of Inl e \<Rightarrow> False | Inr c \<Rightarrow> True" by code_simp
  then obtain c where c: "MotorConfig_from_env ex_env = Inr c" by (auto split: sum.splits)
  have "ex_env ''MOTOR_ENV'' = None" by (simp add: ex_env_def)
  then show ?thesis using environment_config_is_safe [OF c] c by blast
qed

end
