(* ===== verification/Router.thy ===== *)
theory Router
  imports Motor_Models "HOL-Library.AList" "HOL-Library.List_Lexorder"
    "HOL-Library.Char_ord" "HOL-Library.Product_Lexorder"
begin

text \<open>
  Venue toxicity and smart order routing (\<open>execution_motor/toxicity.py\<close>,
  \<open>execution_motor/sor.py\<close>). Both are pure functions of the motor's own observations. The
  lemmas show that a score lies in the unit interval in spite of the rounding of every Decimal
  operation, that valid observations never raise, and that the router only picks venues that
  pass the threshold (or are unscored under an explicit \<open>ALLOW\<close> policy).
\<close>

section \<open>Toxicity\<close>

definition side_sign :: "side \<Rightarrow> rat" where
  "side_sign s = (if s = BUY then 1 else dneg 1)"

definition clip01 :: "rat \<Rightarrow> rat" where
  "clip01 v = max 0 (min 1 v)"

definition markout_bps :: "side \<Rightarrow> rat \<Rightarrow> rat \<Rightarrow> exc + rat" where
  "markout_bps s fill_price mid_after_horizon =
     rbind (dquot (dmul (side_sign s) (dsub mid_after_horizon fill_price)) fill_price)
       (\<lambda>x. Inr (dmul x 10000))"

definition slippage_bps :: "side \<Rightarrow> rat \<Rightarrow> rat \<Rightarrow> exc + rat" where
  "slippage_bps s fill_price arrival_mid =
     rbind (dquot (dmul (side_sign s) (dsub fill_price arrival_mid)) arrival_mid)
       (\<lambda>x. Inr (dmul x 10000))"

record toxicity_params =
  tp_markout_scale_bps :: rat
  tp_slippage_scale_bps :: rat
  tp_weight_markout :: rat
  tp_weight_slippage :: rat
  tp_weight_fill_shortfall :: rat
  tp_min_observations :: int

abbreviation ValueError :: "pystr \<Rightarrow> exc" where
  "ValueError msg \<equiv> Exc ''ValueError'' msg"

definition ToxicityParams_new :: "toxicity_params \<Rightarrow> exc + toxicity_params" where
  "ToxicityParams_new p =
     (let weights = [tp_weight_markout p, tp_weight_slippage p, tp_weight_fill_shortfall p]
      in if tp_markout_scale_bps p \<le> 0 \<or> tp_slippage_scale_bps p \<le> 0
         then Inl (ValueError ''scales must be positive'')
         else if list_ex (\<lambda>w. w < 0) weights \<or> dsum weights \<noteq> 1
         then Inl (ValueError ''weights must be non-negative and sum to exactly 1'')
         else if tp_min_observations p < 1
         then Inl (ValueError ''min_observations must be >= 1'')
         else Inr p)"

record venue_observation =
  vo_timestamp_ns :: ns
  vo_side :: side
  vo_ordered_qty :: rat
  vo_filled_qty :: rat
  vo_avg_fill_price :: "rat option"
  vo_arrival_mid :: rat
  vo_mid_after_horizon :: "rat option"

definition positive_price :: "rat option \<Rightarrow> bool" where
  "positive_price v = (case v of None \<Rightarrow> False | Some x \<Rightarrow> 0 < x)"

definition VenueObservation_new :: "venue_observation \<Rightarrow> exc + venue_observation" where
  "VenueObservation_new ob =
     (if \<not> 0 < vo_ordered_qty ob then Inl (ValueError ''ordered_qty must be > 0'')
      else if \<not> (0 \<le> vo_filled_qty ob \<and> vo_filled_qty ob \<le> vo_ordered_qty ob)
      then Inl (ValueError ''filled_qty must be within [0, ordered_qty]'')
      else if \<not> 0 < vo_arrival_mid ob then Inl (ValueError ''arrival_mid must be > 0'')
      else if 0 < vo_filled_qty ob \<and> \<not> positive_price (vo_avg_fill_price ob)
      then Inl (ValueError ''avg_fill_price is required (> 0) when filled_qty > 0'')
      else if 0 < vo_filled_qty ob \<and> \<not> positive_price (vo_mid_after_horizon ob)
      then Inl (ValueError ''mid_after_horizon is required (> 0) when filled_qty > 0'')
      else Inr ob)"

definition is_filled :: "venue_observation \<Rightarrow> bool" where
  "is_filled ob \<longleftrightarrow> 0 < vo_filled_qty ob"

record toxicity_result =
  tr_score :: rat
  tr_mean_markout_bps :: rat
  tr_mean_slippage_bps :: rat
  tr_fill_rate :: rat
  tr_n_fills :: nat

definition required :: "rat option \<Rightarrow> exc + rat" where
  "required v = (case v of None \<Rightarrow> Inl (ValueError ''missing price on a filled observation'')
                 | Some x \<Rightarrow> Inr x)"

definition weighted_markout :: "venue_observation \<Rightarrow> exc + rat" where
  "weighted_markout ob =
     rbind (required (vo_avg_fill_price ob)) (\<lambda>fp.
     rbind (required (vo_mid_after_horizon ob)) (\<lambda>mid.
     rbind (markout_bps (vo_side ob) fp mid) (\<lambda>m. Inr (dmul (vo_filled_qty ob) m))))"

definition weighted_slippage :: "venue_observation \<Rightarrow> exc + rat" where
  "weighted_slippage ob =
     rbind (required (vo_avg_fill_price ob)) (\<lambda>fp.
     rbind (slippage_bps (vo_side ob) fp (vo_arrival_mid ob))
       (\<lambda>m. Inr (dmul (vo_filled_qty ob) m)))"

definition toxicity_score :: "toxicity_params \<Rightarrow> rat \<Rightarrow> rat \<Rightarrow> rat \<Rightarrow> exc + rat" where
  "toxicity_score p mean_markout mean_slippage fill_rate =
     rbind (dquot (dneg mean_markout) (tp_markout_scale_bps p)) (\<lambda>a.
     rbind (dquot mean_slippage (tp_slippage_scale_bps p)) (\<lambda>s.
     Inr (dadd (dadd (dmul (tp_weight_markout p) (clip01 a))
                     (dmul (tp_weight_slippage p) (clip01 s)))
               (dmul (tp_weight_fill_shortfall p) (clip01 (dsub 1 fill_rate))))))"

definition compute_toxicity ::
  "venue_observation list \<Rightarrow> toxicity_params \<Rightarrow> exc + toxicity_result option" where
  "compute_toxicity obs p =
     (let fills = filter is_filled obs
      in if int (length fills) < tp_min_observations p then Inr None
         else let total_filled = dsum (map vo_filled_qty fills)
              in rbind (rmap weighted_markout fills) (\<lambda>ms.
                 rbind (dquot (dsum ms) total_filled) (\<lambda>mean_markout.
                 rbind (rmap weighted_slippage fills) (\<lambda>ss.
                 rbind (dquot (dsum ss) total_filled) (\<lambda>mean_slippage.
                 rbind (dquot total_filled (dsum (map vo_ordered_qty obs))) (\<lambda>fill_rate.
                 rbind (toxicity_score p mean_markout mean_slippage fill_rate) (\<lambda>score.
                 Inr (Some \<lparr>tr_score = score, tr_mean_markout_bps = mean_markout,
                            tr_mean_slippage_bps = mean_slippage, tr_fill_rate = fill_rate,
                            tr_n_fills = length fills\<rparr>))))))))"

definition DAY_NS :: int where
  "DAY_NS = 86400000000000"

definition filter_window ::
  "venue_observation list \<Rightarrow> ns \<Rightarrow> int \<Rightarrow> exc + venue_observation list" where
  "filter_window obs now_ns window_days =
     (if window_days < 1 then Inl (ValueError ''window_days must be >= 1'')
      else let start = now_ns - window_days * DAY_NS
           in Inr (filter (\<lambda>ob. start \<le> vo_timestamp_ns ob \<and> vo_timestamp_ns ob \<le> now_ns) obs))"

section \<open>Routing\<close>

datatype unscored_policy = DENY | ALLOW

record router_config =
  rc_max_toxicity :: rat
  rc_params :: toxicity_params
  rc_unscored_policy :: unscored_policy
  rc_window_days :: int

definition RouterConfig_new :: "router_config \<Rightarrow> exc + router_config" where
  "RouterConfig_new c =
     (if \<not> (0 \<le> rc_max_toxicity c \<and> rc_max_toxicity c \<le> 1)
      then Inl (ValueError ''max_toxicity must be within [0, 1]'')
      else if rc_window_days c < 1 then Inl (ValueError ''window_days must be >= 1'')
      else Inr c)"

record venue_assessment =
  va_venue :: pystr
  va_score :: "rat option"
  va_eligible :: bool
  va_detail :: pystr

record routing_decision =
  rd_venue :: "pystr option"
  rd_threshold :: rat
  rd_assessments :: "venue_assessment list"

definition threshold :: "router_config \<Rightarrow> order \<Rightarrow> rat" where
  "threshold c ord =
     (if 0 < o_max_venue_toxicity ord
      then min (rc_max_toxicity c) (o_max_venue_toxicity ord) else rc_max_toxicity c)"

definition assess ::
  "router_config \<Rightarrow> pystr \<Rightarrow> venue_observation list \<Rightarrow> rat \<Rightarrow> ns \<Rightarrow> exc + venue_assessment" where
  "assess c venue obs thr now_ns =
     rbind (filter_window obs now_ns (rc_window_days c)) (\<lambda>windowed.
     rbind (compute_toxicity windowed (rc_params c)) (\<lambda>result.
     case result of
       None \<Rightarrow> Inr \<lparr>va_venue = venue, va_score = None,
                    va_eligible = (rc_unscored_policy c = ALLOW),
                    va_detail = ''unscored: insufficient evidence''\<rparr>
     | Some r \<Rightarrow>
         if thr < tr_score r
         then Inr \<lparr>va_venue = venue, va_score = Some (tr_score r), va_eligible = False,
                   va_detail = ''toxicity above threshold''\<rparr>
         else Inr \<lparr>va_venue = venue, va_score = Some (tr_score r), va_eligible = True,
                   va_detail = ''ok''\<rparr>))"

text \<open>A Python dict keeps the position of a key's first insertion and its last value.\<close>

definition eligible_dict :: "venue_assessment list \<Rightarrow> (pystr \<times> venue_assessment) list" where
  "eligible_dict as =
     fold (\<lambda>a d. if va_eligible a then AList.update (va_venue a) a d else d) as []"

definition assessment_key :: "venue_assessment \<Rightarrow> bool \<times> rat \<times> pystr" where
  "assessment_key a =
     (va_score a = None, case va_score a of None \<Rightarrow> 0 | Some s \<Rightarrow> s, va_venue a)"

text \<open>\<open>min(iterable, key=...)\<close>: the first element with the least key.\<close>

fun min_by :: "('a \<Rightarrow> 'k::linorder) \<Rightarrow> 'a \<Rightarrow> 'a list \<Rightarrow> 'a" where
  "min_by key best [] = best"
| "min_by key best (x # xs) = min_by key (if key x < key best then x else best) xs"

definition choose_venue :: "order \<Rightarrow> venue_assessment list \<Rightarrow> pystr option" where
  "choose_venue ord as =
     (let eligible = eligible_dict as
      in if o_preferred_venue ord \<in> set (map fst eligible) then Some (o_preferred_venue ord)
         else case map snd eligible of
           [] \<Rightarrow> None
         | a # rest \<Rightarrow> Some (va_venue (min_by assessment_key a rest)))"

definition route ::
  "router_config \<Rightarrow> order \<Rightarrow> pystr list \<Rightarrow> (pystr \<rightharpoonup> venue_observation list) \<Rightarrow> ns
     \<Rightarrow> exc + routing_decision" where
  "route c ord candidates observations now_ns =
     (let thr = threshold c ord
      in rbind
           (rmap (\<lambda>v. assess c v (case observations v of None \<Rightarrow> [] | Some obs \<Rightarrow> obs) thr now_ns)
              candidates)
           (\<lambda>as. Inr \<lparr>rd_venue = choose_venue ord as, rd_threshold = thr, rd_assessments = as\<rparr>))"

lemmas router_defs [op_defs] =
  markout_bps_def slippage_bps_def weighted_markout_def weighted_slippage_def
  toxicity_score_def compute_toxicity_def filter_window_def assess_def route_def

section \<open>The score lies in the unit interval\<close>

definition params_ok :: "toxicity_params \<Rightarrow> bool" where
  "params_ok p \<longleftrightarrow> ToxicityParams_new p = Inr p
     \<and> rnd (tp_weight_slippage p) = tp_weight_slippage p
     \<and> rnd (tp_weight_fill_shortfall p) = tp_weight_fill_shortfall p"

lemma clip01_bounds [simp]: "0 \<le> clip01 v" "clip01 v \<le> 1"
  by (simp_all add: clip01_def)

lemma weight_clip_le:
  assumes "0 \<le> w"
  shows "0 \<le> dmul w (clip01 v)" "dmul w (clip01 v) \<le> rnd w"
  using assms by (auto simp: dmul_def dec28.nonneg mult_left_le intro!: rnd_mono)

text \<open>Rounded weighted sums stay below the rounded sum of the weights.\<close>

lemma weighted_sum_le_1:
  assumes w: "0 \<le> w1" "0 \<le> w2" "0 \<le> w3" and exact: "rnd w2 = w2" "rnd w3 = w3"
    and sum: "dsum [w1, w2, w3] = 1"
  shows "0 \<le> dadd (dadd (dmul w1 (clip01 a)) (dmul w2 (clip01 s))) (dmul w3 (clip01 f))"
    and "dadd (dadd (dmul w1 (clip01 a)) (dmul w2 (clip01 s))) (dmul w3 (clip01 f)) \<le> 1"
proof -
  note le1 = weight_clip_le [OF w(1), of a] and le2 = weight_clip_le [OF w(2), of s]
    and le3 = weight_clip_le [OF w(3), of f]
  have inner: "0 \<le> dadd (dmul w1 (clip01 a)) (dmul w2 (clip01 s))"
    using le1 le2 by (simp add: dadd_def dec28.nonneg)
  then show "0 \<le> dadd (dadd (dmul w1 (clip01 a)) (dmul w2 (clip01 s))) (dmul w3 (clip01 f))"
    using le3 by (simp add: dadd_def dec28.nonneg)
  have "dadd (dmul w1 (clip01 a)) (dmul w2 (clip01 s)) \<le> dadd (dadd 0 w1) w2"
    using le1 le2 exact by (auto simp: dadd_def intro!: rnd_mono)
  then have "dadd (dadd (dmul w1 (clip01 a)) (dmul w2 (clip01 s))) (dmul w3 (clip01 f))
      \<le> dadd (dadd (dadd 0 w1) w2) w3"
    using le3 exact unfolding dadd_def [of _ w3] dadd_def [of _ "dmul w3 _"]
    by (intro rnd_mono) linarith
  also have "\<dots> = 1" using sum by simp
  finally show "dadd (dadd (dmul w1 (clip01 a)) (dmul w2 (clip01 s))) (dmul w3 (clip01 f)) \<le> 1" .
qed

lemma params_okD:
  assumes "params_ok p"
  shows "0 < tp_markout_scale_bps p" "0 < tp_slippage_scale_bps p" "1 \<le> tp_min_observations p"
    "0 \<le> tp_weight_markout p" "0 \<le> tp_weight_slippage p" "0 \<le> tp_weight_fill_shortfall p"
    "dsum [tp_weight_markout p, tp_weight_slippage p, tp_weight_fill_shortfall p] = 1"
  using assms by (auto simp: params_ok_def ToxicityParams_new_def Let_def split: if_splits)

lemma toxicity_score_unit:
  assumes "params_ok p"
  shows "\<exists>s. toxicity_score p m sl r = Inr s \<and> 0 \<le> s \<and> s \<le> 1"
  using params_okD [OF assms] assms weighted_sum_le_1 [of "tp_weight_markout p"
      "tp_weight_slippage p" "tp_weight_fill_shortfall p"]
  by (auto simp: toxicity_score_def params_ok_def simp del: dsum_from.simps)

section \<open>Valid observations never raise\<close>

definition obs_ok :: "venue_observation \<Rightarrow> bool" where
  "obs_ok ob \<longleftrightarrow> VenueObservation_new ob = Inr ob"

lemma obs_ok_filled:
  assumes "obs_ok ob" "is_filled ob"
  obtains fp mid where "vo_avg_fill_price ob = Some fp" "0 < fp"
    "vo_mid_after_horizon ob = Some mid" "0 < mid"
  using assms
  by (auto simp: obs_ok_def is_filled_def VenueObservation_new_def positive_price_def
      split: if_splits option.splits)

lemma obs_ok_qty: "obs_ok ob \<Longrightarrow> 0 < vo_ordered_qty ob \<and> 0 < vo_arrival_mid ob"
  by (auto simp: obs_ok_def VenueObservation_new_def split: if_splits)

lemma weighted_ok:
  assumes "obs_ok ob" "is_filled ob"
  shows "\<exists>m. weighted_markout ob = Inr m" "\<exists>m. weighted_slippage ob = Inr m"
proof -
  obtain fp mid where fp: "vo_avg_fill_price ob = Some fp" "0 < fp"
    "vo_mid_after_horizon ob = Some mid" using obs_ok_filled [OF assms] by metis
  have "vo_arrival_mid ob \<noteq> 0" using obs_ok_qty [OF assms(1)] by simp
  with fp show "\<exists>m. weighted_markout ob = Inr m" "\<exists>m. weighted_slippage ob = Inr m"
    by (auto simp: weighted_markout_def weighted_slippage_def required_def markout_bps_def
        slippage_bps_def)
qed

lemma dsum_from_pos:
  "0 \<le> acc \<Longrightarrow> (\<And>x. x \<in> set xs \<Longrightarrow> 0 < x) \<Longrightarrow> xs \<noteq> [] \<or> 0 < acc \<Longrightarrow> 0 < dsum_from acc xs"
proof (induction xs arbitrary: acc)
  case (Cons x xs)
  have "0 < x" using Cons.prems by simp
  then have "0 < dadd acc x" using Cons.prems(1) by (simp add: dadd_def rnd_pos)
  with Cons show ?case by simp
qed simp

lemma compute_toxicity_cases:
  assumes p: "params_ok p" and obs: "list_all obs_ok obs"
  shows "compute_toxicity obs p = Inr None
     \<or> (\<exists>r. compute_toxicity obs p = Inr (Some r) \<and> 0 \<le> tr_score r \<and> tr_score r \<le> 1)"
proof (cases "int (length (filter is_filled obs)) < tp_min_observations p")
  case False
  define fills where "fills = filter is_filled obs"
  have ok: "obs_ok ob" "is_filled ob" if "ob \<in> set fills" for ob
    using that obs by (auto simp: fills_def list_all_iff)
  have "fills \<noteq> []" using False params_okD(3) [OF p] by (auto simp: fills_def)
  then have ne: "fills \<noteq> []" "obs \<noteq> []" by (auto simp: fills_def)
  have tf: "0 < dsum (map vo_filled_qty fills)"
    using ne ok(2) by (intro dsum_from_pos) (auto simp: is_filled_def)
  have tord: "0 < dsum (map vo_ordered_qty obs)"
    using ne obs obs_ok_qty by (intro dsum_from_pos) (auto simp: list_all_iff)
  obtain ms where ms: "rmap weighted_markout fills = Inr ms"
    using rmap_total [of fills weighted_markout] ok weighted_ok by blast
  obtain ss where ss: "rmap weighted_slippage fills = Inr ss"
    using rmap_total [of fills weighted_slippage] ok weighted_ok by blast
  obtain s where s: "toxicity_score p (ddiv (dsum ms) (dsum (map vo_filled_qty fills)))
      (ddiv (dsum ss) (dsum (map vo_filled_qty fills)))
      (ddiv (dsum (map vo_filled_qty fills)) (dsum (map vo_ordered_qty obs))) = Inr s"
    "0 \<le> s" "s \<le> 1"
    using toxicity_score_unit [OF p] by blast
  have "dsum (map vo_filled_qty fills) \<noteq> 0" "dsum (map vo_ordered_qty obs) \<noteq> 0"
    using tf tord by auto
  with False ms ss s show ?thesis
    by (simp add: compute_toxicity_def Let_def fills_def [symmetric])
qed (simp add: compute_toxicity_def)

section \<open>The router picks eligible venues only\<close>

lemma min_by_mem: "min_by key b xs \<in> set (b # xs)"
  by (induction xs arbitrary: b) (auto split: if_splits)

lemma min_by_le_start: "key (min_by key b xs) \<le> key b"
proof (induction xs arbitrary: b)
  case (Cons y ys)
  show ?case using Cons.IH [of y] Cons.IH [of b] by (auto intro: order_trans)
qed simp

lemma min_by_le: "x \<in> set (b # xs) \<Longrightarrow> key (min_by key b xs) \<le> key x"
proof (induction xs arbitrary: b)
  case (Cons y ys)
  let ?c = "if key y < key b then y else b"
  have "key ?c \<le> key b" "key ?c \<le> key y" by auto
  then have "key (min_by key ?c ys) \<le> key b" "key (min_by key ?c ys) \<le> key y"
    using min_by_le_start [of key ?c ys] by (auto intro: order_trans)
  moreover have "x \<in> set ys \<Longrightarrow> key (min_by key ?c ys) \<le> key x" using Cons.IH by simp
  ultimately show ?case using Cons.prems by (auto split: if_splits)
qed simp

lemma eligible_dict_mem:
  "(v, a) \<in> set (eligible_dict as) \<Longrightarrow> a \<in> set as \<and> va_eligible a \<and> va_venue a = v"
proof -
  have step: "(v, a) \<in> set (AList.update k b d) \<Longrightarrow> (v, a) = (k, b) \<or> (v, a) \<in> set d" for k b d
    by (induction d) (auto split: if_splits)
  have "(v, a) \<in> set (fold (\<lambda>a d. if va_eligible a then AList.update (va_venue a) a d else d) as d)
      \<Longrightarrow> (a \<in> set as \<and> va_eligible a \<and> va_venue a = v) \<or> (v, a) \<in> set d" for d
    by (induction as arbitrary: d) (force dest: step split: if_splits)+
  then show "(v, a) \<in> set (eligible_dict as) \<Longrightarrow> a \<in> set as \<and> va_eligible a \<and> va_venue a = v"
    by (force simp: eligible_dict_def)
qed

lemma eligible_dict_dom:
  "fst ` set (eligible_dict as) = {va_venue a | a. a \<in> set as \<and> va_eligible a}"
proof -
  have "fst ` set (fold (\<lambda>a d. if va_eligible a then AList.update (va_venue a) a d else d) as d)
      = {va_venue a | a. a \<in> set as \<and> va_eligible a} \<union> fst ` set d" for d
    by (induction as arbitrary: d) (auto simp: dom_update)
  then show ?thesis by (simp add: eligible_dict_def)
qed

lemma choose_venue_eligible:
  assumes "choose_venue ord as = Some v"
  shows "\<exists>a \<in> set as. va_eligible a \<and> va_venue a = v"
proof (cases "o_preferred_venue ord \<in> set (map fst (eligible_dict as))")
  case True
  with assms have v: "v \<in> fst ` set (eligible_dict as)" by (auto simp: choose_venue_def Let_def)
  then show ?thesis unfolding eligible_dict_dom by auto
next
  case False
  with assms obtain a rest where vs: "map snd (eligible_dict as) = a # rest"
    and v: "v = va_venue (min_by assessment_key a rest)"
    by (auto simp: choose_venue_def Let_def split: list.splits)
  have "min_by assessment_key a rest \<in> set (map snd (eligible_dict as))"
    unfolding vs by (rule min_by_mem)
  then obtain k where "(k, min_by assessment_key a rest) \<in> set (eligible_dict as)" by auto
  then show ?thesis using eligible_dict_mem v by blast
qed

lemma choose_venue_None:
  "choose_venue ord as = None \<longleftrightarrow> (\<forall>a \<in> set as. \<not> va_eligible a)"
proof -
  have "choose_venue ord as = None \<longleftrightarrow> eligible_dict as = []"
    by (auto simp: choose_venue_def Let_def split: list.splits)
  also have "\<dots> \<longleftrightarrow> fst ` set (eligible_dict as) = {}" by simp
  also have "\<dots> \<longleftrightarrow> (\<forall>a \<in> set as. \<not> va_eligible a)" unfolding eligible_dict_dom by auto
  finally show ?thesis .
qed

lemma choose_venue_least:
  assumes "choose_venue ord as = Some v" "v \<noteq> o_preferred_venue ord"
  shows "\<exists>b \<in> set as. va_eligible b \<and> va_venue b = v
           \<and> (\<forall>(k, a) \<in> set (eligible_dict as). assessment_key b \<le> assessment_key a)"
proof -
  from assms obtain a rest where vs: "map snd (eligible_dict as) = a # rest"
    and v: "v = va_venue (min_by assessment_key a rest)"
    by (auto simp: choose_venue_def Let_def split: list.splits if_splits)
  have "min_by assessment_key a rest \<in> set (map snd (eligible_dict as))"
    unfolding vs by (rule min_by_mem)
  then obtain k where "(k, min_by assessment_key a rest) \<in> set (eligible_dict as)" by auto
  moreover have "\<forall>(k, c) \<in> set (eligible_dict as).
      assessment_key (min_by assessment_key a rest) \<le> assessment_key c"
    using min_by_le [of _ a rest assessment_key] unfolding vs [symmetric] by force
  ultimately show ?thesis using eligible_dict_mem v by blast
qed

lemma assess_eligible:
  assumes "assess c v obs thr now = Inr a" "va_eligible a"
  shows "va_venue a = v \<and> (case va_score a of None \<Rightarrow> rc_unscored_policy c = ALLOW
                             | Some s \<Rightarrow> s \<le> thr)"
  using assms by (auto simp: assess_def rbind_eq_Inr split: option.splits if_splits)

lemma assess_venue: "assess c v obs thr now = Inr a \<Longrightarrow> va_venue a = v"
  by (auto simp: assess_def rbind_eq_Inr split: option.splits if_splits)

lemma threshold_le: "threshold c ord \<le> rc_max_toxicity c"
  by (simp add: threshold_def)

lemma route_chosen:
  assumes "route c ord cands stats now = Inr d" "rd_venue d = Some v"
  shows "\<exists>a \<in> set (rd_assessments d). va_venue a = v \<and> va_eligible a \<and> v \<in> set cands
     \<and> (case va_score a of None \<Rightarrow> rc_unscored_policy c = ALLOW
        | Some s \<Rightarrow> s \<le> threshold c ord \<and> s \<le> rc_max_toxicity c)"
proof -
  from assms obtain as where as: "list_all2 (\<lambda>v a. assess c v
      (case stats v of None \<Rightarrow> [] | Some obs \<Rightarrow> obs) (threshold c ord) now = Inr a) cands as"
    and d: "rd_assessments d = as" "choose_venue ord as = Some v"
    by (auto simp: route_def Let_def rbind_eq_Inr rmap_Inr)
  obtain a where a: "a \<in> set as" "va_eligible a" "va_venue a = v"
    using choose_venue_eligible [OF d(2)] by blast
  obtain u where u: "u \<in> set cands"
    "assess c u (case stats u of None \<Rightarrow> [] | Some obs \<Rightarrow> obs) (threshold c ord) now = Inr a"
    using list_all2_mem2 [OF as a(1)] by blast
  have "u = v" using assess_venue [OF u(2)] a(3) by simp
  moreover have "case va_score a of None \<Rightarrow> rc_unscored_policy c = ALLOW
      | Some s \<Rightarrow> s \<le> threshold c ord \<and> s \<le> rc_max_toxicity c"
    using assess_eligible [OF u(2) a(2)] threshold_le [of c ord]
    by (auto split: option.splits)
  ultimately show ?thesis using a u d by blast
qed

section \<open>Properties\<close>

text \<open>
  Toxicity scoring never raises on validated observations and parameters, and a score lies in
  [0, 1] although every intermediate value is rounded to 28 digits.
\<close>

theorem toxicity_scores_are_unit_interval:
  assumes "params_ok p" "list_all obs_ok obs"
  shows "compute_toxicity obs p = Inr None
     \<or> (\<exists>r. compute_toxicity obs p = Inr (Some r) \<and> 0 \<le> tr_score r \<and> tr_score r \<le> 1)"
  by (rule compute_toxicity_cases [OF assms])

definition ex_params :: toxicity_params where
  "ex_params = \<lparr>tp_markout_scale_bps = 10, tp_slippage_scale_bps = 10, tp_weight_markout = 1 / 2,
      tp_weight_slippage = 3 / 10, tp_weight_fill_shortfall = 1 / 5, tp_min_observations = 1\<rparr>"

definition ex_obs :: venue_observation where
  "ex_obs = \<lparr>vo_timestamp_ns = 5, vo_side = BUY, vo_ordered_qty = 10, vo_filled_qty = 5,
     vo_avg_fill_price = Some 4, vo_arrival_mid = 4, vo_mid_after_horizon = Some 2\<rparr>"

theorem toxicity_scores_are_unit_interval_witness:
  "\<exists>r. compute_toxicity [ex_obs] ex_params = Inr (Some r) \<and> 0 \<le> tr_score r \<and> tr_score r \<le> 1"
proof -
  have p: "params_ok ex_params" unfolding params_ok_def by (intro conjI) code_simp+
  have o: "list_all obs_ok [ex_obs]" by (simp add: obs_ok_def) code_simp
  have "compute_toxicity [ex_obs] ex_params \<noteq> Inr None"
    by (simp add: compute_toxicity_def Let_def rbind_eq_Inr is_filled_def ex_obs_def ex_params_def)
  then show ?thesis using toxicity_scores_are_unit_interval [OF p o] by auto
qed

text \<open>
  The router refuses rather than compromises: it picks no venue exactly when no candidate is
  eligible, and a picked venue is a candidate whose own assessment is eligible, with a score at
  most the order's and the router's threshold, or unscored under the ALLOW policy.
\<close>

theorem router_picks_eligible_venue:
  assumes "route c ord cands stats now = Inr d"
  shows "(rd_venue d = None \<longleftrightarrow> (\<forall>a \<in> set (rd_assessments d). \<not> va_eligible a))
   \<and> (\<forall>v. rd_venue d = Some v \<longrightarrow> v \<in> set cands
        \<and> (\<exists>a \<in> set (rd_assessments d). va_venue a = v \<and> va_eligible a
             \<and> (case va_score a of None \<Rightarrow> rc_unscored_policy c = ALLOW
                 | Some s \<Rightarrow> s \<le> threshold c ord \<and> s \<le> rc_max_toxicity c)))"
proof -
  have "rd_venue d = choose_venue ord (rd_assessments d)"
    using assms by (auto simp: route_def Let_def rbind_eq_Inr)
  then have "rd_venue d = None \<longleftrightarrow> (\<forall>a \<in> set (rd_assessments d). \<not> va_eligible a)"
    by (simp add: choose_venue_None)
  then show ?thesis using route_chosen [OF assms] by (intro conjI allI impI) blast+
qed

definition ex_router_config :: router_config where
  "ex_router_config = \<lparr>rc_max_toxicity = 1 / 2, rc_params = ex_params, rc_unscored_policy = ALLOW,
     rc_window_days = 1\<rparr>"

definition ex_routed :: order where
  "ex_routed = \<lparr>o_order_id = ''s'', o_signal_id = ''s'', o_symbol = ''A'', o_created_at_ns = 1,
     o_side = BUY, o_order_type = MARKET, o_quantity = 1, o_limit_price = 0, o_stop_price = 0,
     o_preferred_venue = ''B'', o_max_venue_toxicity = 0, o_algo = DIRECT, o_pov_target_rate = 0,
     o_iceberg_display_size = 0\<rparr>"

definition ex_decision :: routing_decision where
  "ex_decision = (case route ex_router_config ex_routed [''A'', ''B''] Map.empty 10 of
      Inr d \<Rightarrow> d | Inl e \<Rightarrow> \<lparr>rd_venue = None, rd_threshold = 0, rd_assessments = []\<rparr>)"

theorem router_picks_eligible_venue_witness:
  "rd_venue ex_decision = Some ''B''
   \<and> (\<exists>a \<in> set (rd_assessments ex_decision). va_venue a = ''B'' \<and> va_eligible a)"
proof -
  have "case route ex_router_config ex_routed [''A'', ''B''] Map.empty 10 of
      Inl e \<Rightarrow> False | Inr d \<Rightarrow> rd_venue d = Some ''B''" by code_simp
  then obtain d where d: "route ex_router_config ex_routed [''A'', ''B''] Map.empty 10 = Inr d"
    "rd_venue d = Some ''B''" by (auto split: sum.splits)
  then have "ex_decision = d" by (simp add: ex_decision_def)
  then show ?thesis using router_picks_eligible_venue [OF d(1)] d(2) by blast
qed

end
