(* ===== verification/Attestation.thy ===== *)
theory Attestation
  imports Motor_Models
begin

text \<open>
  Aegis attestations on the motor's side: the canonical signed text
  (\<open>execution_motor/canonical.py\<close>), its reconstruction from the received messages
  (\<open>proto_adapter.py\<close>), the attestation gate (\<open>attestation.py\<close>) and the key registry
  (\<open>verifiers.py\<close>).

  SHA-256 is the parameter \<open>sha\<close>; the two signature schemes and the parsing of public keys of
  the package \<open>cryptography\<close> are the fields of the parameter record \<open>crypto\<close>. The
  double-valued routing hints of a message are represented by the Decimal their \<open>repr\<close>
  denotes. The main result is that the canonical text is injective: a signed text determines
  every field it covers, and with them the order sent to the broker.
\<close>

section \<open>Canonical text\<close>

abbreviation OrderValidationError :: "pystr \<Rightarrow> exc" where
  "OrderValidationError msg \<equiv> Exc ''OrderValidationError'' msg"

definition CANONICAL_VERSION :: pystr where
  "CANONICAL_VERSION = ''afe-attest-v1''"

definition SIDE_BUY :: pystr where "SIDE_BUY = ''BUY''"
definition SIDE_SELL :: pystr where "SIDE_SELL = ''SELL''"
definition SIDE_SELL_SHORT :: pystr where "SIDE_SELL_SHORT = ''SELL_SHORT''"

definition is_clean :: "pystr \<Rightarrow> bool" where
  "is_clean value \<longleftrightarrow> value \<noteq> [] \<and> list_all (\<lambda>c. \<not> is_cc c \<and> c \<noteq> CHR ''='') value"

definition clean :: "pystr \<Rightarrow> pystr \<Rightarrow> exc + pystr" where
  "clean name value =
     (if is_clean value then Inr value
      else Inl (OrderValidationError (name @ '' is empty or has forbidden characters'')))"

record canonical_fields =
  cf_signal_id :: pystr
  cf_symbol :: pystr
  cf_side :: pystr
  cf_order_type :: pystr
  cf_qty_nanos :: int
  cf_limit_price_nanos :: int
  cf_stop_price_nanos :: int
  cf_decided_at_ns :: ns
  cf_expires_at_ns :: ns
  cf_aegis_state_seq :: int
  cf_limits_config_sha256 :: pystr
  cf_key_id :: pystr

definition canonical_lines :: "canonical_fields \<Rightarrow> pystr list" where
  "canonical_lines f =
     [CANONICAL_VERSION,
      ''signal_id='' @ cf_signal_id f,
      ''symbol='' @ cf_symbol f,
      ''side='' @ cf_side f,
      ''order_type='' @ cf_order_type f,
      ''qty_nanos='' @ int_str (cf_qty_nanos f),
      ''limit_price_nanos='' @ int_str (cf_limit_price_nanos f),
      ''stop_price_nanos='' @ int_str (cf_stop_price_nanos f),
      ''decided_at_ns='' @ int_str (cf_decided_at_ns f),
      ''expires_at_ns='' @ int_str (cf_expires_at_ns f),
      ''aegis_state_seq='' @ int_str (cf_aegis_state_seq f),
      ''limits_config_sha256='' @ cf_limits_config_sha256 f,
      ''key_id='' @ cf_key_id f]"

definition build_canonical_text :: "canonical_fields \<Rightarrow> exc + bytes" where
  "build_canonical_text f =
     rbind (clean ''signal_id'' (cf_signal_id f)) (\<lambda>_.
     rbind (clean ''symbol'' (cf_symbol f)) (\<lambda>_.
     rbind (clean ''order_type'' (cf_order_type f)) (\<lambda>_.
     rbind (clean ''limits_config_sha256'' (cf_limits_config_sha256 f)) (\<lambda>_.
     rbind (clean ''key_id'' (cf_key_id f)) (\<lambda>_.
     Inr (utf8 (unlines (canonical_lines f))))))))"

definition candidate_side_names :: "int \<Rightarrow> bool \<Rightarrow> exc + pystr list" where
  "candidate_side_names order_side allow_short =
     (if order_side = 1 then Inr [SIDE_BUY]
      else if order_side = 2
      then Inr (if allow_short then [SIDE_SELL, SIDE_SELL_SHORT] else [SIDE_SELL])
      else Inl (OrderValidationError (''side has unsupported value '' @ int_str order_side)))"

section \<open>Messages and their conversion\<close>

record order_msg =
  om_order_id :: pystr
  om_signal_id :: pystr
  om_symbol :: pystr
  om_created_at_ns :: ns
  om_side :: int
  om_order_type :: int
  om_quantity_nanos :: int
  om_limit_price_nanos :: int
  om_stop_price_nanos :: int
  om_preferred_venue :: pystr
  om_max_venue_toxicity :: dec
  om_algo :: int
  om_pov_target_rate :: dec
  om_iceberg_display_size :: dec
  om_status :: int
  om_hsm_signature :: bytes
  om_hsm_key_id :: pystr
  om_attestation_expires_at_ns :: ns

record attestation_msg =
  am_signature :: bytes
  am_key_id :: pystr
  am_payload_sha256 :: bytes
  am_canonical_version :: pystr
  am_decided_at_ns :: ns
  am_expires_at_ns :: ns
  am_aegis_state_seq :: int
  am_limits_config_sha256 :: pystr

definition from_nanos :: "int \<Rightarrow> pystr \<Rightarrow> exc + rat" where
  "from_nanos value name =
     (if value < 0 then Inl (OrderValidationError (name @ '' must not be negative''))
      else Inr (rnd (of_int value / 10 ^ 9)))"

fun double_hint :: "dec \<Rightarrow> pystr \<Rightarrow> exc + rat" where
  "double_hint (Fin x) name = Inr x"
| "double_hint _ name = Inl (OrderValidationError (name @ '' is not finite''))"

definition unsupported :: "pystr \<Rightarrow> int \<Rightarrow> exc" where
  "unsupported name value =
     OrderValidationError (name @ '' has unsupported value '' @ int_str value)"

definition lookup_side :: "int \<Rightarrow> exc + side" where
  "lookup_side v = (if v = 1 then Inr BUY else if v = 2 then Inr SELL
                    else Inl (unsupported ''side'' v))"

definition lookup_type :: "int \<Rightarrow> exc + (pystr \<times> order_type)" where
  "lookup_type v =
     (if v = 1 then Inr (''MARKET'', MARKET) else if v = 2 then Inr (''LIMIT'', LIMIT)
      else if v = 3 then Inr (''STOP'', STOP) else if v = 4 then Inr (''STOP_LIMIT'', STOP_LIMIT)
      else Inl (unsupported ''order_type'' v))"

definition lookup_algo :: "int \<Rightarrow> exc + exec_algo" where
  "lookup_algo v =
     (if v = 1 then Inr DIRECT else if v = 2 then Inr ICEBERG else if v = 3 then Inr POV
      else Inl (unsupported ''algo'' v))"

definition canonical_fields_of ::
  "order_msg \<Rightarrow> attestation_msg \<Rightarrow> pystr \<Rightarrow> pystr \<Rightarrow> canonical_fields" where
  "canonical_fields_of om am type_name side_name =
     \<lparr>cf_signal_id = om_signal_id om, cf_symbol = om_symbol om, cf_side = side_name,
      cf_order_type = type_name, cf_qty_nanos = om_quantity_nanos om,
      cf_limit_price_nanos = om_limit_price_nanos om,
      cf_stop_price_nanos = om_stop_price_nanos om,
      cf_decided_at_ns = am_decided_at_ns am, cf_expires_at_ns = am_expires_at_ns am,
      cf_aegis_state_seq = am_aegis_state_seq am,
      cf_limits_config_sha256 = am_limits_config_sha256 am, cf_key_id = am_key_id am\<rparr>"

definition canonical_attestation_text ::
  "order_msg \<Rightarrow> attestation_msg \<Rightarrow> pystr option \<Rightarrow> exc + bytes" where
  "canonical_attestation_text om am side_name =
     rbind (lookup_type (om_order_type om)) (\<lambda>ty.
     rbind (case side_name of Some n \<Rightarrow> Inr n
            | None \<Rightarrow> rbind (candidate_side_names (om_side om) False) (\<lambda>ns. Inr (hd ns))) (\<lambda>name.
     build_canonical_text (canonical_fields_of om am (fst ty) name)))"

text \<open>The loop over the candidate side names, with the first text seen as its state.\<close>

fun select_loop ::
  "(bytes \<Rightarrow> bytes) \<Rightarrow> order_msg \<Rightarrow> attestation_msg \<Rightarrow> (bytes \<times> pystr) option \<Rightarrow> pystr list
     \<Rightarrow> exc + bytes \<times> pystr" where
  "select_loop sha om am first [] =
     (case first of None \<Rightarrow> Inl (OrderValidationError ''no candidate side'') | Some f \<Rightarrow> Inr f)"
| "select_loop sha om am first (name # names) =
     rbind (canonical_attestation_text om am (Some name)) (\<lambda>text.
       if sha text = am_payload_sha256 am then Inr (text, name)
       else select_loop sha om am (case first of None \<Rightarrow> Some (text, name) | Some f \<Rightarrow> Some f) names)"

definition select_signed_text ::
  "(bytes \<Rightarrow> bytes) \<Rightarrow> order_msg \<Rightarrow> attestation_msg \<Rightarrow> bool \<Rightarrow> exc + bytes \<times> pystr" where
  "select_signed_text sha om am allow_short =
     rbind (candidate_side_names (om_side om) allow_short) (select_loop sha om am None)"

definition check_consistency :: "order_msg \<Rightarrow> attestation_msg \<Rightarrow> exc + unit" where
  "check_consistency om am =
     rbind (guard (om_status om = 0)
       (OrderValidationError ''OrderRequest.status must be ORDER_PENDING on ingress'')) (\<lambda>_.
     rbind (guard (am_canonical_version am = CANONICAL_VERSION)
       (OrderValidationError ''unsupported attestation canonical_version'')) (\<lambda>_.
     rbind (guard (om_order_id om = om_signal_id om)
       (OrderValidationError ''order_id must equal signal_id'')) (\<lambda>_.
     guard (\<not> (om_hsm_signature om \<noteq> am_signature am \<or> om_hsm_key_id om \<noteq> am_key_id am
              \<or> om_attestation_expires_at_ns om \<noteq> am_expires_at_ns am))
       (OrderValidationError ''OrderRequest does not mirror its Attestation''))))"

definition validated_order :: "order \<Rightarrow> exc + order" where
  "validated_order ord =
     (case Order_new ord of
        Inl n \<Rightarrow> Inl (OrderValidationError (''invalid OrderRequest: '' @ nat_str n @ '' field error(s)''))
      | Inr o' \<Rightarrow> Inr o')"

definition build_order :: "order_msg \<Rightarrow> exc + order" where
  "build_order om =
     rbind (lookup_side (om_side om)) (\<lambda>sd.
     rbind (lookup_type (om_order_type om)) (\<lambda>ty.
     rbind (from_nanos (om_quantity_nanos om) ''quantity_nanos'') (\<lambda>qty.
     rbind (from_nanos (om_limit_price_nanos om) ''limit_price_nanos'') (\<lambda>lim.
     rbind (from_nanos (om_stop_price_nanos om) ''stop_price_nanos'') (\<lambda>stp.
     rbind (double_hint (om_max_venue_toxicity om) ''max_venue_toxicity'') (\<lambda>tox.
     rbind (lookup_algo (om_algo om)) (\<lambda>alg.
     rbind (double_hint (om_pov_target_rate om) ''pov_target_rate'') (\<lambda>pov.
     rbind (double_hint (om_iceberg_display_size om) ''iceberg_display_size'') (\<lambda>ice.
     validated_order
       \<lparr>o_order_id = om_order_id om, o_signal_id = om_signal_id om, o_symbol = om_symbol om,
        o_created_at_ns = om_created_at_ns om, o_side = sd, o_order_type = snd ty,
        o_quantity = qty, o_limit_price = lim, o_stop_price = stp,
        o_preferred_venue = om_preferred_venue om, o_max_venue_toxicity = tox, o_algo = alg,
        o_pov_target_rate = pov, o_iceberg_display_size = ice\<rparr>)))))))))"

definition attested_order_from_proto ::
  "(bytes \<Rightarrow> bytes) \<Rightarrow> order_msg \<Rightarrow> attestation_msg \<Rightarrow> bool \<Rightarrow> exc + attested_order" where
  "attested_order_from_proto sha om am allow_short =
     rbind (check_consistency om am) (\<lambda>_.
     rbind (build_order om) (\<lambda>ord.
     rbind (select_signed_text sha om am allow_short) (\<lambda>sel.
     Inr \<lparr>ao_order = ord,
          ao_attestation =
            \<lparr>a_signature = am_signature am, a_key_id = am_key_id am,
             a_signed_payload = fst sel, a_payload_sha256 = am_payload_sha256 am,
             a_decided_at_ns = am_decided_at_ns am, a_expires_at_ns = am_expires_at_ns am,
             a_attested_side = snd sel\<rparr>\<rparr>)))"

section \<open>The gate\<close>

text \<open>A verifier's answer: \<open>Inr True\<close> is the literal \<open>True\<close>, \<open>Inl\<close> an exception.\<close>

type_synonym verifier = "bytes \<Rightarrow> bytes \<Rightarrow> pystr \<Rightarrow> exc + bool"

definition DenyAllVerifier :: verifier where
  "DenyAllVerifier payload sig key_id = Inr False"

definition evaluate_attestation ::
  "(bytes \<Rightarrow> bytes) \<Rightarrow> verifier \<Rightarrow> attested_order \<Rightarrow> reject_reason option" where
  "evaluate_attestation sha verify attested =
     (let att = ao_attestation attested
      in if a_signature att = [] \<or> a_key_id att = [] \<or> a_signed_payload att = []
         then Some ATTESTATION_MISSING
         else if sha (a_signed_payload att) \<noteq> a_payload_sha256 att then Some ATTESTATION_INVALID
         else case verify (a_signed_payload att) (a_signature att) (a_key_id att) of
           Inl e \<Rightarrow> Some ATTESTATION_INVALID
         | Inr verdict \<Rightarrow> if verdict then None else Some ATTESTATION_INVALID)"

section \<open>Key registry and signature verification\<close>

datatype signature_algorithm = ED25519_DEV | ECDSA_P256_SHA256

record registered_key =
  rk_key_id :: pystr
  rk_algorithm :: signature_algorithm
  rk_public_key :: bytes

definition is_dev :: "registered_key \<Rightarrow> bool" where
  "is_dev k \<longleftrightarrow> rk_algorithm k = ED25519_DEV \<or> take 4 (rk_key_id k) = ''dev-''"

datatype public_key = EdKey bytes | P256Key bytes

datatype crypto_outcome = SigOk | SigInvalid | SigMalformed

record crypto =
  cr_ed_parses :: "bytes \<Rightarrow> bool"
  cr_p256_parses :: "bytes \<Rightarrow> bool"
  cr_ed_verify :: "bytes \<Rightarrow> bytes \<Rightarrow> bytes \<Rightarrow> crypto_outcome"
  cr_p256_verify :: "bytes \<Rightarrow> nat \<Rightarrow> nat \<Rightarrow> bytes \<Rightarrow> crypto_outcome"

definition parse_public_key :: "crypto \<Rightarrow> registered_key \<Rightarrow> exc + public_key" where
  "parse_public_key cr k =
     (if rk_algorithm k = ED25519_DEV
      then if cr_ed_parses cr (rk_public_key k) then Inr (EdKey (rk_public_key k))
           else Inl (Exc ''ConfigError'' ''public key is invalid'')
      else if cr_p256_parses cr (rk_public_key k) then Inr (P256Key (rk_public_key k))
           else Inl (Exc ''ConfigError'' ''public key is invalid''))"

type_synonym key_table = "(pystr \<times> signature_algorithm \<times> public_key) list"

fun register_keys ::
  "crypto \<Rightarrow> bool \<Rightarrow> key_table \<Rightarrow> registered_key list \<Rightarrow> exc + key_table" where
  "register_keys cr production parsed [] = Inr parsed"
| "register_keys cr production parsed (k # ks) =
     (if rk_key_id k = [] \<or> rk_key_id k \<in> set (map fst parsed)
      then Inl (Exc ''ConfigError'' ''key ids must be non-empty and unique'')
      else if production \<and> is_dev k
      then Inl (Exc ''ConfigError'' ''dev key is forbidden in production'')
      else rbind (parse_public_key cr k) (\<lambda>pk.
             register_keys cr production (parsed @ [(rk_key_id k, rk_algorithm k, pk)]) ks))"

definition AegisAttestationVerifier_new ::
  "crypto \<Rightarrow> registered_key list \<Rightarrow> bool \<Rightarrow> exc + key_table" where
  "AegisAttestationVerifier_new cr ks production =
     rbind (register_keys cr production [] ks) (\<lambda>parsed.
       if parsed = [] then Inl (Exc ''ConfigError'' ''at least one attestation key is required'')
       else Inr parsed)"

definition accepts_dev_keys :: "key_table \<Rightarrow> bool" where
  "accepts_dev_keys parsed \<longleftrightarrow>
     list_ex (\<lambda>(kid, algo, _). algo = ED25519_DEV \<or> take 4 kid = ''dev-'') parsed"

text \<open>\<open>int.from_bytes(b, "big")\<close>\<close>

definition from_bytes_big :: "bytes \<Rightarrow> nat" where
  "from_bytes_big b = foldl (\<lambda>acc c. 256 * acc + code_point c) 0 b"

definition verify_ed25519 :: "(bytes \<Rightarrow> bytes) \<Rightarrow> crypto \<Rightarrow> bytes \<Rightarrow> bytes \<Rightarrow> bytes \<Rightarrow> bool" where
  "verify_ed25519 sha cr pub payload sig =
     (if length sig \<noteq> 64 then False else cr_ed_verify cr pub sig (sha payload) = SigOk)"

definition verify_p256 :: "crypto \<Rightarrow> bytes \<Rightarrow> bytes \<Rightarrow> bytes \<Rightarrow> bool" where
  "verify_p256 cr pub payload sig =
     (if length sig \<noteq> 64 then False
      else cr_p256_verify cr pub (from_bytes_big (take 32 sig)) (from_bytes_big (drop 32 sig))
             payload = SigOk)"

text \<open>
  \<open>AegisAttestationVerifier.verify\<close>: an invalid or malformed signature is \<open>False\<close>, never an
  exception.
\<close>

definition aegis_verify :: "(bytes \<Rightarrow> bytes) \<Rightarrow> crypto \<Rightarrow> key_table \<Rightarrow> verifier" where
  "aegis_verify sha cr parsed payload sig key_id =
     (case map_of parsed key_id of
        None \<Rightarrow> Inr False
      | Some (algorithm, EdKey pub) \<Rightarrow>
          Inr (algorithm = ED25519_DEV \<and> verify_ed25519 sha cr pub payload sig)
      | Some (algorithm, P256Key pub) \<Rightarrow> Inr (verify_p256 cr pub payload sig))"

section \<open>The text determines the fields\<close>

lemma is_clean_no_lf: "is_clean s \<Longrightarrow> no_lf s"
proof -
  have "is_cc LF" by (simp add: is_cc_def)
  then show "is_clean s \<Longrightarrow> no_lf s" by (auto simp: is_clean_def no_lf_def list_all_iff)
qed

definition side_names :: "pystr set" where
  "side_names = {SIDE_BUY, SIDE_SELL, SIDE_SELL_SHORT}"

lemma side_names_no_lf: "s \<in> side_names \<Longrightarrow> no_lf s"
  by (auto simp: side_names_def SIDE_BUY_def SIDE_SELL_def SIDE_SELL_SHORT_def no_lf_def)

lemma build_canonical_text_Inr:
  "build_canonical_text f = Inr t \<longleftrightarrow>
     is_clean (cf_signal_id f) \<and> is_clean (cf_symbol f) \<and> is_clean (cf_order_type f)
     \<and> is_clean (cf_limits_config_sha256 f) \<and> is_clean (cf_key_id f)
     \<and> t = utf8 (unlines (canonical_lines f))"
  by (auto simp: build_canonical_text_def clean_def rbind_eq_Inr)

lemma canonical_lines_no_lf:
  assumes "build_canonical_text f = Inr t" "cf_side f \<in> side_names"
  shows "list_all no_lf (canonical_lines f)"
proof -
  have "no_lf CANONICAL_VERSION" by (simp add: CANONICAL_VERSION_def no_lf_def)
  moreover have "no_lf (cf_side f)" using assms(2) by (rule side_names_no_lf)
  moreover have "no_lf ''signal_id=''" "no_lf ''symbol=''" "no_lf ''side=''" "no_lf ''order_type=''"
    "no_lf ''qty_nanos=''" "no_lf ''limit_price_nanos=''" "no_lf ''stop_price_nanos=''"
    "no_lf ''decided_at_ns=''" "no_lf ''expires_at_ns=''" "no_lf ''aegis_state_seq=''"
    "no_lf ''limits_config_sha256=''" "no_lf ''key_id=''"
    by (simp_all add: no_lf_def)
  ultimately show ?thesis
    using assms(1) is_clean_no_lf
    by (simp add: build_canonical_text_Inr canonical_lines_def del: append.simps)
qed

lemma canonical_lines_inject: "canonical_lines f = canonical_lines g \<Longrightarrow> f = g"
  by (cases f, cases g) (simp add: canonical_lines_def)

lemma build_canonical_text_inject:
  assumes "build_canonical_text f = Inr t" "build_canonical_text g = Inr t"
    and "cf_side f \<in> side_names" "cf_side g \<in> side_names"
  shows "f = g"
proof -
  have "utf8 (unlines (canonical_lines f)) = utf8 (unlines (canonical_lines g))"
    using assms(1,2) by (simp add: build_canonical_text_Inr)
  then have "unlines (canonical_lines f) = unlines (canonical_lines g)" by (rule utf8_inject)
  then have "canonical_lines f = canonical_lines g"
    using canonical_lines_no_lf assms by (intro unlines_inject) auto
  then show ?thesis by (rule canonical_lines_inject)
qed

section \<open>Converted orders\<close>

lemma candidate_side_names_sub:
  "candidate_side_names sd short = Inr ns \<Longrightarrow>
     set ns \<subseteq> side_names \<and> (sd = 1 \<or> sd = 2) \<and> (sd = 1 \<longleftrightarrow> SIDE_BUY \<in> set ns)
     \<and> (sd = 1 \<longrightarrow> set ns = {SIDE_BUY})
     \<and> (\<not> short \<longrightarrow> SIDE_SELL_SHORT \<notin> set ns)"
  by (auto simp: candidate_side_names_def side_names_def SIDE_BUY_def SIDE_SELL_def
      SIDE_SELL_SHORT_def split: if_splits)

lemma canonical_attestation_text_Some:
  "canonical_attestation_text om am (Some name) = Inr t \<longleftrightarrow>
     (\<exists>ty. lookup_type (om_order_type om) = Inr ty
        \<and> build_canonical_text (canonical_fields_of om am (fst ty) name) = Inr t)"
  by (auto simp: canonical_attestation_text_def rbind_eq_Inr)

lemma select_loop_Inr:
  assumes "select_loop sha om am first names = Inr (t, n)"
    and "\<And>f. first = Some f \<Longrightarrow> snd f \<in> N
           \<and> canonical_attestation_text om am (Some (snd f)) = Inr (fst f)"
    and "set names \<subseteq> N"
  shows "n \<in> N \<and> canonical_attestation_text om am (Some n) = Inr t"
  using assms
proof (induction sha om am first names rule: select_loop.induct)
  case (1 sha om am first)
  then show ?case by (auto split: option.splits)
next
  case (2 sha om am first name names)
  then obtain tx where tx: "canonical_attestation_text om am (Some name) = Inr tx"
    by (auto simp: rbind_eq_Inr)
  show ?case
  proof (cases "sha tx = am_payload_sha256 am")
    case True
    with 2 tx show ?thesis by auto
  next
    case False
    show ?thesis
    proof (rule "2.IH" [OF False])
      show "select_loop sha om am
          (case first of None \<Rightarrow> Some (tx, name) | Some f \<Rightarrow> Some f) names = Inr (t, n)"
        using "2.prems"(1) tx False by simp
    qed (use "2.prems" tx in \<open>auto split: option.splits\<close>)
  qed
qed

lemma validated_order_Inr: "validated_order ord = Inr ord' \<longleftrightarrow> wf_order ord \<and> ord' = ord"
  using Order_new_wf [of ord ord'] by (auto simp: validated_order_def split: sum.splits)

lemma build_order_Inr:
  assumes "build_order om = Inr ord"
  shows "wf_order ord" "o_order_id ord = om_order_id om" "o_signal_id ord = om_signal_id om"
    "o_symbol ord = om_symbol om" "lookup_side (om_side om) = Inr (o_side ord)"
    "\<exists>n. lookup_type (om_order_type om) = Inr (n, o_order_type ord)"
    "from_nanos (om_quantity_nanos om) ''quantity_nanos'' = Inr (o_quantity ord)"
    "from_nanos (om_limit_price_nanos om) ''limit_price_nanos'' = Inr (o_limit_price ord)"
    "from_nanos (om_stop_price_nanos om) ''stop_price_nanos'' = Inr (o_stop_price ord)"
  using assms unfolding build_order_def rbind_eq_Inr
  by (auto simp: validated_order_Inr)

lemma lookup_type_name:
  "lookup_type v = Inr (n, ty) \<Longrightarrow> lookup_type w = Inr (n, ty') \<Longrightarrow> v = w \<and> ty = ty'"
  by (auto simp: lookup_type_def split: if_splits)

lemma attested_order_from_proto_Inr:
  assumes "attested_order_from_proto sha om am short = Inr ao"
  shows "build_order om = Inr (ao_order ao)"
    and "check_consistency om am = Inr ()"
    and "\<exists>ns. candidate_side_names (om_side om) short = Inr ns \<and> a_attested_side (ao_attestation ao) \<in> set ns"
    and "canonical_attestation_text om am (Some (a_attested_side (ao_attestation ao)))
           = Inr (a_signed_payload (ao_attestation ao))"
proof -
  obtain ord sel where c: "check_consistency om am = Inr ()" and b: "build_order om = Inr ord"
    and s: "select_signed_text sha om am short = Inr sel"
    and ao: "ao_order ao = ord" "a_attested_side (ao_attestation ao) = snd sel"
      "a_signed_payload (ao_attestation ao) = fst sel"
    using assms by (auto simp: attested_order_from_proto_def rbind_eq_Inr)
  obtain ns where ns: "candidate_side_names (om_side om) short = Inr ns"
    "select_loop sha om am None ns = Inr (fst sel, snd sel)"
    using s by (auto simp: select_signed_text_def rbind_eq_Inr)
  have "snd sel \<in> set ns \<and> canonical_attestation_text om am (Some (snd sel)) = Inr (fst sel)"
    using select_loop_Inr [OF ns(2), of "set ns"] by simp
  with c b ao ns show "build_order om = Inr (ao_order ao)" "check_consistency om am = Inr ()"
    "\<exists>ns. candidate_side_names (om_side om) short = Inr ns \<and> a_attested_side (ao_attestation ao) \<in> set ns"
    "canonical_attestation_text om am (Some (a_attested_side (ao_attestation ao)))
       = Inr (a_signed_payload (ao_attestation ao))"
    by auto
qed

lemma check_consistency_ids: "check_consistency om am = Inr () \<Longrightarrow> om_order_id om = om_signal_id om"
  by (simp add: check_consistency_def rbind_eq_Inr)

text \<open>The part of an order the signature covers, as the broker receives it.\<close>

definition signed_part :: "order \<Rightarrow> pystr \<times> pystr \<times> side \<times> order_type \<times> rat \<times> rat \<times> rat" where
  "signed_part ord = (client_order_id ord, o_symbol ord, o_side ord, o_order_type ord,
     o_quantity ord, o_limit_price ord, o_stop_price ord)"

lemma attested_side_side:
  assumes "candidate_side_names sd short = Inr ns" "n \<in> set ns" "lookup_side sd = Inr s"
  shows "n \<in> side_names \<and> s = (if n = SIDE_BUY then BUY else SELL)"
  using assms
  by (auto simp: candidate_side_names_def side_names_def lookup_side_def SIDE_BUY_def
      SIDE_SELL_def SIDE_SELL_SHORT_def split: if_splits)

lemma signed_payload_determines_order:
  assumes "attested_order_from_proto sha om am short = Inr ao"
    and "attested_order_from_proto sha' om' am' short' = Inr ao'"
    and eq: "a_signed_payload (ao_attestation ao) = a_signed_payload (ao_attestation ao')"
  shows "signed_part (ao_order ao) = signed_part (ao_order ao')"
    and "a_attested_side (ao_attestation ao) = a_attested_side (ao_attestation ao')"
proof -
  note A = attested_order_from_proto_Inr [OF assms(1)] and B = attested_order_from_proto_Inr [OF assms(2)]
  note O = build_order_Inr [OF A(1)] and O' = build_order_Inr [OF B(1)]
  let ?n = "a_attested_side (ao_attestation ao)" and ?n' = "a_attested_side (ao_attestation ao')"
  have side: "?n \<in> side_names" "o_side (ao_order ao) = (if ?n = SIDE_BUY then BUY else SELL)"
    using A(3) O(5) attested_side_side by blast+
  have side': "?n' \<in> side_names" "o_side (ao_order ao') = (if ?n' = SIDE_BUY then BUY else SELL)"
    using B(3) O'(5) attested_side_side by blast+
  obtain ty where ty: "lookup_type (om_order_type om) = Inr ty"
    "build_canonical_text (canonical_fields_of om am (fst ty) ?n) = Inr (a_signed_payload (ao_attestation ao))"
    using A(4) canonical_attestation_text_Some by blast
  obtain ty' where ty': "lookup_type (om_order_type om') = Inr ty'"
    "build_canonical_text (canonical_fields_of om' am' (fst ty') ?n') = Inr (a_signed_payload (ao_attestation ao))"
    using B(4) canonical_attestation_text_Some eq by auto
  have f: "canonical_fields_of om am (fst ty) ?n = canonical_fields_of om' am' (fst ty') ?n'"
    using build_canonical_text_inject [OF ty(2) ty'(2)] side(1) side'(1)
    by (simp add: canonical_fields_of_def)
  then show "?n = ?n'" by (simp add: canonical_fields_of_def)
  have "o_order_type (ao_order ao) = o_order_type (ao_order ao')"
    using f O(6) O'(6) ty(1) ty'(1) lookup_type_name
    by (auto simp: canonical_fields_of_def)
  moreover have "client_order_id (ao_order ao) = client_order_id (ao_order ao')"
    using f O(2,3) O'(2,3) check_consistency_ids [OF A(2)] check_consistency_ids [OF B(2)]
    by (simp add: canonical_fields_of_def client_order_id_def)
  ultimately show "signed_part (ao_order ao) = signed_part (ao_order ao')"
    using f O(4,7,8,9) O'(4,7,8,9) side(2) side'(2)
    by (simp add: signed_part_def canonical_fields_of_def)
qed

section \<open>The gate accepts only verified texts\<close>

lemma evaluate_attestation_None:
  "evaluate_attestation sha verify ao = None \<longleftrightarrow>
     (let att = ao_attestation ao
      in a_signature att \<noteq> [] \<and> a_key_id att \<noteq> [] \<and> a_signed_payload att \<noteq> []
         \<and> sha (a_signed_payload att) = a_payload_sha256 att
         \<and> verify (a_signed_payload att) (a_signature att) (a_key_id att) = Inr True)"
  by (auto simp: evaluate_attestation_def Let_def split: sum.splits)

lemma deny_all_denies: "evaluate_attestation sha DenyAllVerifier ao \<noteq> None"
  by (simp add: evaluate_attestation_None DenyAllVerifier_def Let_def)

lemma aegis_verify_never_raises: "\<exists>b. aegis_verify sha cr tbl p s k = Inr b"
  by (auto simp: aegis_verify_def split: option.splits prod.splits public_key.splits)

lemma register_keys_table:
  "register_keys cr production parsed ks = Inr tbl \<Longrightarrow> (kid, algo, pk) \<in> set tbl \<Longrightarrow>
     (kid, algo, pk) \<in> set parsed
     \<or> (\<exists>k \<in> set ks. rk_key_id k = kid \<and> rk_algorithm k = algo \<and> parse_public_key cr k = Inr pk
          \<and> (production \<longrightarrow> \<not> is_dev k))"
  by (induction cr production parsed ks rule: register_keys.induct)
    (fastforce simp: rbind_eq_Inr split: if_splits)+

lemma production_key_used:
  assumes new: "AegisAttestationVerifier_new cr ks True = Inr tbl"
    and ok: "aegis_verify sha cr tbl payload sig kid = Inr True"
  shows "\<exists>k \<in> set ks. rk_key_id k = kid \<and> rk_algorithm k = ECDSA_P256_SHA256 \<and> \<not> is_dev k
           \<and> verify_p256 cr (rk_public_key k) payload sig"
proof -
  from ok obtain algo pk where "map_of tbl kid = Some (algo, pk)"
    by (auto simp: aegis_verify_def split: option.splits)
  moreover from this have "(kid, algo, pk) \<in> set tbl" by (rule map_of_SomeD)
  ultimately obtain k where k: "k \<in> set ks" "rk_key_id k = kid" "rk_algorithm k = algo"
      "parse_public_key cr k = Inr pk" "\<not> is_dev k" and m: "map_of tbl kid = Some (algo, pk)"
    using register_keys_table [of cr True "[]" ks tbl kid algo pk] new
    by (auto simp: AegisAttestationVerifier_new_def rbind_eq_Inr split: if_splits)
  then have "algo = ECDSA_P256_SHA256" by (cases algo) (auto simp: is_dev_def)
  moreover from this k have "pk = P256Key (rk_public_key k)"
    by (auto simp: parse_public_key_def split: if_splits)
  ultimately show ?thesis using k m ok by (auto simp: aegis_verify_def)
qed

section \<open>Properties\<close>

text \<open>
  C13: The signed payload binds the order. Two orders accepted from the wire under the same signed
  payload agree on everything a broker is told: client order id, symbol, side, type, quantity,
  limit and stop price; they also agree on the attested side.
\<close>

theorem signed_payload_binds_order:
  assumes "attested_order_from_proto sha om am short = Inr ao"
    and "attested_order_from_proto sha' om' am' short' = Inr ao'"
    and "a_signed_payload (ao_attestation ao) = a_signed_payload (ao_attestation ao')"
  shows "signed_part (ao_order ao) = signed_part (ao_order ao')
     \<and> a_attested_side (ao_attestation ao) = a_attested_side (ao_attestation ao')"
  using signed_payload_determines_order [OF assms] by blast

definition ex_order_msg :: order_msg where
  "ex_order_msg = \<lparr>om_order_id = ''s1'', om_signal_id = ''s1'', om_symbol = ''AAPL'',
     om_created_at_ns = 5, om_side = 2, om_order_type = 2, om_quantity_nanos = 3,
     om_limit_price_nanos = 25, om_stop_price_nanos = 0, om_preferred_venue = [],
     om_max_venue_toxicity = Fin 0, om_algo = 1, om_pov_target_rate = Fin 0,
     om_iceberg_display_size = Fin 0, om_status = 0, om_hsm_signature = ''sig'',
     om_hsm_key_id = ''k'', om_attestation_expires_at_ns = 9\<rparr>"

definition ex_attestation_msg :: attestation_msg where
  "ex_attestation_msg = \<lparr>am_signature = ''sig'', am_key_id = ''k'', am_payload_sha256 = ''h'',
     am_canonical_version = CANONICAL_VERSION, am_decided_at_ns = 4, am_expires_at_ns = 9,
     am_aegis_state_seq = 1, am_limits_config_sha256 = ''cc''\<rparr>"

definition ex_accept :: "pystr \<Rightarrow> exc + attested_order" where
  "ex_accept venue = attested_order_from_proto (\<lambda>b. ''h'')
     (ex_order_msg\<lparr>om_preferred_venue := venue\<rparr>) ex_attestation_msg False"

theorem signed_payload_binds_order_witness:
  "\<exists>ao ao'. ex_accept [] = Inr ao \<and> ex_accept ''IEX'' = Inr ao'
     \<and> ao \<noteq> ao' \<and> signed_part (ao_order ao) = signed_part (ao_order ao')"
proof -
  have "(case ex_accept [] of Inl e \<Rightarrow> False | Inr ao \<Rightarrow> (case ex_accept ''IEX'' of Inl e \<Rightarrow> False
      | Inr ao' \<Rightarrow> ao \<noteq> ao'
          \<and> a_signed_payload (ao_attestation ao) = a_signed_payload (ao_attestation ao')))"
    by code_simp
  then obtain ao ao' where ao: "ex_accept [] = Inr ao" "ex_accept ''IEX'' = Inr ao'" "ao \<noteq> ao'"
    "a_signed_payload (ao_attestation ao) = a_signed_payload (ao_attestation ao')"
    by (auto split: sum.splits)
  with signed_payload_binds_order [OF ao(1,2) [unfolded ex_accept_def] ao(4)]
  show ?thesis by blast
qed

text \<open>
  C14: In production an order passes the attestation gate only with a fresh hash over its payload
  and a P-256 signature of a registered key that is not a development key.
\<close>

theorem production_gate_needs_registered_p256_key:
  assumes "AegisAttestationVerifier_new cr ks True = Inr tbl"
    and "evaluate_attestation sha (aegis_verify sha cr tbl) ao = None"
  shows "sha (a_signed_payload (ao_attestation ao)) = a_payload_sha256 (ao_attestation ao)
     \<and> (\<exists>k \<in> set ks. rk_key_id k = a_key_id (ao_attestation ao)
          \<and> rk_algorithm k = ECDSA_P256_SHA256 \<and> \<not> is_dev k
          \<and> verify_p256 cr (rk_public_key k) (a_signed_payload (ao_attestation ao))
               (a_signature (ao_attestation ao)))"
  using production_key_used [OF assms(1)] assms(2) by (auto simp: evaluate_attestation_None Let_def)

definition ex_crypto :: crypto where
  "ex_crypto = \<lparr>cr_ed_parses = (\<lambda>_. True), cr_p256_parses = (\<lambda>_. True),
     cr_ed_verify = (\<lambda>_ _ _. SigOk), cr_p256_verify = (\<lambda>pub r s p. if r = 0 then SigOk else SigInvalid)\<rparr>"

definition ex_key :: registered_key where
  "ex_key = \<lparr>rk_key_id = ''hsm-1'', rk_algorithm = ECDSA_P256_SHA256, rk_public_key = ''pub''\<rparr>"

definition ex_signed :: attested_order where
  "ex_signed = \<lparr>ao_order = undefined, ao_attestation =
     \<lparr>a_signature = replicate 64 (CHR 0x00), a_key_id = ''hsm-1'', a_signed_payload = ''p'',
      a_payload_sha256 = ''p'', a_decided_at_ns = 1, a_expires_at_ns = 2, a_attested_side = SIDE_BUY\<rparr>\<rparr>"

theorem production_gate_needs_registered_p256_key_witness:
  "\<exists>tbl. AegisAttestationVerifier_new ex_crypto [ex_key] True = Inr tbl
     \<and> evaluate_attestation (\<lambda>b. b) (aegis_verify (\<lambda>b. b) ex_crypto tbl) ex_signed = None
     \<and> (\<exists>k \<in> set [ex_key]. rk_key_id k = a_key_id (ao_attestation ex_signed) \<and> \<not> is_dev k)"
proof -
  define tbl where "tbl = [(''hsm-1'', ECDSA_P256_SHA256, P256Key ''pub'')]"
  have new: "AegisAttestationVerifier_new ex_crypto [ex_key] True = Inr tbl"
    unfolding tbl_def by code_simp
  have gate: "evaluate_attestation (\<lambda>b. b) (aegis_verify (\<lambda>b. b) ex_crypto tbl) ex_signed = None"
    unfolding tbl_def by code_simp
  show ?thesis using new gate production_gate_needs_registered_p256_key [OF new gate] by blast
qed

text \<open>
  Fail closed by default: the verifier used when none is configured lets no order through, and
  the Aegis verifier turns every key or signature problem into a refusal, never an exception.
\<close>

theorem verifiers_fail_closed:
  "evaluate_attestation sha DenyAllVerifier ao \<noteq> None
   \<and> (\<exists>b. aegis_verify sha cr tbl payload sig kid = Inr b)
   \<and> (map_of tbl kid = None \<or> length sig \<noteq> 64 \<longrightarrow> aegis_verify sha cr tbl payload sig kid = Inr False)"
  using deny_all_denies aegis_verify_never_raises
  by (auto simp: aegis_verify_def verify_ed25519_def verify_p256_def
      split: option.splits prod.splits public_key.splits)

theorem verifiers_fail_closed_witness:
  "aegis_verify (\<lambda>b. b) ex_crypto [] ''p'' ''sig'' ''unknown-key'' = Inr False"
  using verifiers_fail_closed [of "\<lambda>b. b" ex_signed ex_crypto "[]" "''p''" "''sig''" "''unknown-key''"]
  by simp

end
