(* ===== verification/Motor.thy ===== *)
theory Motor
  imports Halt Motor_Config Router Attestation
begin

text \<open>
  The execution motor (\<open>execution_motor/motor.py\<close>): the pipeline from an attested order to at
  most one broker submission. A method of \<open>ExecutionMotor\<close> is a function from the motor's state
  to a result and the new state; \<open>Inl\<close> is an exception, and the state changes made before it
  are kept, as in Python.

  Everything the motor calls but does not own is the record \<open>world\<close>: the clock, the halt
  signal, the disk, the quote source, the venue statistics and the brokers. Each answer may
  depend on how many calls came before, so nothing is assumed about them. The state keeps the
  list of broker submissions made so far (\<open>ms_sent\<close>), which is the effect the theorems are
  about. The release check is a parameter acting on its own state \<open>ms_manifest\<close>.
\<close>

section \<open>State and environment\<close>

record motor =
  m_config :: motor_config
  m_venues :: "pystr list"
  m_router :: router_config
  m_sha :: "bytes \<Rightarrow> bytes"
  m_verify :: verifier
  m_has_quotes :: bool

datatype submit_result =
  Submitted broker_order
| BrokerRejectedError pystr
| SubmitOutcomeUnknown pystr
| OtherError exc

record world =
  w_clock :: "nat \<Rightarrow> ns"
  w_poll :: "nat \<Rightarrow> poll"
  w_disk :: disk
  w_quote :: "nat \<Rightarrow> pystr \<Rightarrow> exc + price_quote option"
  w_stats :: "nat \<Rightarrow> exc + (pystr \<rightharpoonup> venue_observation list)"
  w_submit :: "nat \<Rightarrow> pystr \<Rightarrow> broker_order_request \<Rightarrow> submit_result"

record 'm motor_state =
  ms_kill :: kill_switch
  ms_idem :: idem_store
  ms_ledger :: notional_ledger
  ms_reads :: nat
  ms_polls :: nat
  ms_sent :: "(pystr \<times> broker_order_request) list"
  ms_manifest :: 'm

type_synonym 'm release_check = "('m \<Rightarrow> pystr option \<times> 'm) option"

text \<open>The outcome of a stage: an exception, a final report, or a value for the next stage.\<close>

datatype 'a stage = Raise exc | Report exec_report | Continue 'a

definition ms_clock :: "world \<Rightarrow> 'm motor_state \<Rightarrow> ns \<times> 'm motor_state" where
  "ms_clock w s = (w_clock w (ms_reads s), s\<lparr>ms_reads := Suc (ms_reads s)\<rparr>)"

definition ms_is_halted :: "world \<Rightarrow> 'm motor_state \<Rightarrow> bool \<times> 'm motor_state" where
  "ms_is_halted w s =
     (case ks_is_halted (ms_kill s) (w_poll w (ms_polls s)) of (h, ks) \<Rightarrow>
        (h, s\<lparr>ms_kill := ks, ms_polls := Suc (ms_polls s)\<rparr>))"

definition ms_halt :: "pystr \<Rightarrow> 'm motor_state \<Rightarrow> 'm motor_state" where
  "ms_halt reason s = s\<lparr>ms_kill := ks_halt (ms_kill s) reason\<rparr>"

section \<open>Construction\<close>

definition resolve_idempotency ::
  "motor_config \<Rightarrow> idem_store option \<Rightarrow> (pystr \<Rightarrow> state_dir) \<Rightarrow> exc + idem_store" where
  "resolve_idempotency c injected dirs =
     (if is_production c
      then case injected of
          Some (InMemory _) \<Rightarrow>
            Inl (ConfigError ''an in-memory idempotency store is forbidden in production'')
        | Some st \<Rightarrow> Inr st
        | None \<Rightarrow>
            (case mc_state_dir c of
               None \<Rightarrow>
                 Inl (ConfigError ''MOTOR_STATE_DIR is required in production (persistent claims)'')
             | Some d \<Rightarrow>
                 rbind (open_persistent_idempotency_store (dirs d)) (\<lambda>fs. Inr (FileBacked fs)))
      else case injected of
          Some st \<Rightarrow> Inr st
        | None \<Rightarrow>
            (case mc_state_dir c of
               None \<Rightarrow> Inr (InMemory {})
             | Some d \<Rightarrow>
                 rbind (open_persistent_idempotency_store (dirs d)) (\<lambda>fs. Inr (FileBacked fs))))"

definition ExecutionMotor_new ::
  "motor \<Rightarrow> bool \<Rightarrow> kill_switch \<Rightarrow> idem_store option \<Rightarrow> (pystr \<Rightarrow> state_dir) \<Rightarrow> 'm
     \<Rightarrow> exc + 'm motor_state" where
  "ExecutionMotor_new m verifier_accepts_dev ks injected dirs mst =
     (if m_venues m = [] then Inl (ConfigError ''at least one broker/venue is required'')
      else if is_production (m_config m) \<and> verifier_accepts_dev
      then Inl (ConfigError
             ''a verifier that accepts dev signing keys is forbidden in production'')
      else rbind (resolve_idempotency (m_config m) injected dirs) (\<lambda>st.
           rbind (NotionalLedger_new (Fin (mc_max_session_notional (m_config m)))) (\<lambda>l.
           Inr \<lparr>ms_kill = ks, ms_idem = st, ms_ledger = l, ms_reads = 0, ms_polls = 0,
                ms_sent = [], ms_manifest = mst\<rparr>)))"

section \<open>Reports\<close>

definition rejected ::
  "world \<Rightarrow> order \<Rightarrow> reject_reason \<Rightarrow> pystr \<Rightarrow> ns \<Rightarrow> dec option \<Rightarrow> pystr option
     \<Rightarrow> 'm motor_state \<Rightarrow> (exc + exec_report) \<times> 'm motor_state" where
  "rejected w ord reason detail received ref venue s =
     (case ms_clock w s of (now, s') \<Rightarrow>
        (ExecutionReport_new
           \<lparr>r_order_id = o_order_id ord, r_client_order_id = client_order_id ord,
            r_signal_id = o_signal_id ord, r_symbol = o_symbol ord, r_side = Some (o_side ord),
            r_status = REJECTED, r_requested_quantity = o_quantity ord,
            r_reject_reason = Some reason, r_reject_detail = take 300 detail,
            r_broker_order_id = None, r_venue = venue, r_fills = [], r_arrival_price = None,
            r_received_at_ns = received, r_submitted_at_ns = None, r_updated_at_ns = now\<rparr> ref,
         s'))"

definition unknown ::
  "world \<Rightarrow> order \<Rightarrow> pystr \<Rightarrow> pystr \<Rightarrow> ns \<Rightarrow> ns \<Rightarrow> dec option
     \<Rightarrow> 'm motor_state \<Rightarrow> (exc + exec_report) \<times> 'm motor_state" where
  "unknown w ord venue detail received submitted ref s =
     (case ms_clock w (ms_halt (''submit outcome unknown for order '' @ o_order_id ord) s) of
        (now, s') \<Rightarrow>
        (ExecutionReport_new
           \<lparr>r_order_id = o_order_id ord, r_client_order_id = client_order_id ord,
            r_signal_id = o_signal_id ord, r_symbol = o_symbol ord, r_side = Some (o_side ord),
            r_status = UNKNOWN, r_requested_quantity = o_quantity ord,
            r_reject_reason = Some SUBMIT_OUTCOME_UNKNOWN, r_reject_detail = take 300 detail,
            r_broker_order_id = None, r_venue = Some venue, r_fills = [], r_arrival_price = None,
            r_received_at_ns = received, r_submitted_at_ns = Some submitted,
            r_updated_at_ns = now\<rparr> ref,
         s'))"

text \<open>\<open>x or y\<close> for an optional timestamp: \<open>None\<close> and \<open>0\<close> are falsy.\<close>

definition ts_or :: "ns option \<Rightarrow> ns \<Rightarrow> ns" where
  "ts_or x y = (case x of None \<Rightarrow> y | Some t \<Rightarrow> if t = 0 then y else t)"

definition broker_fills :: "broker_order \<Rightarrow> ns \<Rightarrow> pystr \<Rightarrow> exc + fill list" where
  "broker_fills result now venue =
     (case b_filled_avg_price result of
        Some price \<Rightarrow>
          if 0 < b_filled_quantity result
          then rbind (Fill_new (b_filled_quantity result) price
                 (ts_or (b_filled_at_ns result) now) venue) (\<lambda>f. Inr [f])
          else Inr []
      | None \<Rightarrow> Inr [])"

definition from_broker ::
  "world \<Rightarrow> order \<Rightarrow> pystr \<Rightarrow> broker_order \<Rightarrow> rat \<Rightarrow> ns \<Rightarrow> ns \<Rightarrow> dec option
     \<Rightarrow> 'm motor_state \<Rightarrow> (exc + exec_report) \<times> 'm motor_state" where
  "from_broker w ord venue result notional received submitted ref s =
     (if b_status result = UNKNOWN
      then unknown w ord venue (''unmapped broker status '' @ b_raw_status result)
             received submitted ref s
      else if b_status result = REJECTED
      then rejected w ord BROKER_REJECTED (b_raw_status result) received ref (Some venue)
             (s\<lparr>ms_ledger := release (ms_ledger s) notional\<rparr>)
      else case ms_clock w s of (now, s') \<Rightarrow>
        (rbind (broker_fills result now venue) (\<lambda>fills.
           ExecutionReport_new
             \<lparr>r_order_id = o_order_id ord, r_client_order_id = client_order_id ord,
              r_signal_id = o_signal_id ord, r_symbol = o_symbol ord, r_side = Some (o_side ord),
              r_status = b_status result, r_requested_quantity = o_quantity ord,
              r_reject_reason = None, r_reject_detail = [],
              r_broker_order_id = Some (b_broker_order_id result), r_venue = Some venue,
              r_fills = fills, r_arrival_price = None, r_received_at_ns = received,
              r_submitted_at_ns = Some (ts_or (b_submitted_at_ns result) submitted),
              r_updated_at_ns = now\<rparr> ref),
         s'))"

section \<open>Pipeline\<close>

definition trusted_quote_price :: "motor \<Rightarrow> world \<Rightarrow> nat \<Rightarrow> pystr \<Rightarrow> ns \<Rightarrow> dec option" where
  "trusted_quote_price m w n symbol now =
     (if \<not> m_has_quotes m then None
      else case w_quote w n symbol of
        Inl e \<Rightarrow> None
      | Inr None \<Rightarrow> None
      | Inr (Some q) \<Rightarrow>
          (case quote_price q of
             Fin p \<Rightarrow>
               if p \<le> 0 then None
               else if now + mc_max_clock_skew_ns (m_config m) < quote_as_of_ns q
                       \<or> mc_max_quote_age_ns (m_config m) < now - quote_as_of_ns q
               then None else Some (Fin p)
           | _ \<Rightarrow> None))"

definition timing_reason :: "motor_config \<Rightarrow> attested_order \<Rightarrow> ns \<Rightarrow> reject_reason option" where
  "timing_reason c attested now =
     (let att = ao_attestation attested
      in if now + mc_max_clock_skew_ns c < a_decided_at_ns att then Some ORDER_FROM_FUTURE
         else if a_expires_at_ns att \<le> now \<or> mc_max_order_age_ns c < now - a_decided_at_ns att
         then Some ORDER_EXPIRED
         else None)"

definition finish :: "(exc + exec_report) \<times> 's \<Rightarrow> 'a stage \<times> 's" where
  "finish rs = ((case fst rs of Inl e \<Rightarrow> Raise e | Inr r \<Rightarrow> Report r), snd rs)"

definition precheck ::
  "motor \<Rightarrow> world \<Rightarrow> attested_order \<Rightarrow> dec option \<Rightarrow> ns \<Rightarrow> 'm motor_state
     \<Rightarrow> rat stage \<times> 'm motor_state" where
  "precheck m w attested ref received s0 =
     (let ord = ao_order attested; c = m_config m
      in case ms_is_halted w s0 of (halted, s) \<Rightarrow>
         if halted
         then finish (rejected w ord HALTED (ks_reason (ms_kill s)) received ref None s)
         else if o_order_id ord \<noteq> o_signal_id ord
         then finish (rejected w ord ORDER_ID_MISMATCH [] received ref None s)
         else case evaluate_attestation (m_sha m) (m_verify m) attested of
           Some denial \<Rightarrow> finish (rejected w ord denial [] received ref None s)
         | None \<Rightarrow>
         if a_attested_side (ao_attestation attested) = SIDE_SELL_SHORT
            \<and> \<not> mc_allow_short_selling c
         then finish (rejected w ord SHORT_NOT_PERMITTED [] received ref None s)
         else case timing_reason c attested received of
           Some timing \<Rightarrow> finish (rejected w ord timing [] received ref None s)
         | None \<Rightarrow>
         if o_algo ord \<noteq> DIRECT
         then finish (rejected w ord ALGO_UNSUPPORTED
                (exec_algo_value (o_algo ord) @ '' not implemented'') received ref None s)
         else case compute_notional ord
                (trusted_quote_price m w (ms_reads s) (o_symbol ord) received) of
           None \<Rightarrow> finish (rejected w ord NOTIONAL_UNDETERMINABLE [] received ref None s)
         | Some notional \<Rightarrow>
         if mc_max_order_notional c < notional
         then finish (rejected w ord NOTIONAL_CAP_EXCEEDED [] received ref None s)
         else (Continue notional, s))"

definition signal_key :: "order \<Rightarrow> pystr" where
  "signal_key ord = ''signal:'' @ o_signal_id ord"

definition order_key :: "order \<Rightarrow> pystr" where
  "order_key ord = ''order:'' @ o_order_id ord"

definition claim_and_reserve ::
  "world \<Rightarrow> order \<Rightarrow> rat \<Rightarrow> ns \<Rightarrow> dec option \<Rightarrow> 'm motor_state \<Rightarrow> unit stage \<times> 'm motor_state" where
  "claim_and_reserve w ord notional received ref s =
     (case store_claim (w_disk w) (ms_idem s) (signal_key ord) of
        (Inl e, st1) \<Rightarrow> (Raise e, s\<lparr>ms_idem := st1\<rparr>)
      | (Inr signal_new, st1) \<Rightarrow>
        (case store_claim (w_disk w) st1 (order_key ord) of
           (Inl e, st2) \<Rightarrow> (Raise e, s\<lparr>ms_idem := st2\<rparr>)
         | (Inr order_new, st2) \<Rightarrow>
           let s2 = s\<lparr>ms_idem := st2\<rparr>
           in if \<not> (signal_new \<and> order_new)
              then finish (rejected w ord DUPLICATE_ORDER [] received ref None s2)
              else case try_reserve (ms_ledger s2) notional of
                (False, l) \<Rightarrow>
                  finish (rejected w ord SESSION_NOTIONAL_CAP_EXCEEDED [] received ref None s2)
              | (True, l) \<Rightarrow> (Continue (), s2\<lparr>ms_ledger := l\<rparr>)))"

definition price_or_none :: "rat \<Rightarrow> rat option" where
  "price_or_none p = (if p = 0 then None else Some p)"

definition request_of :: "order \<Rightarrow> broker_order_request" where
  "request_of ord =
     \<lparr>q_client_order_id = client_order_id ord, q_symbol = o_symbol ord, q_side = o_side ord,
      q_order_type = o_order_type ord, q_quantity = o_quantity ord,
      q_limit_price = price_or_none (o_limit_price ord),
      q_stop_price = price_or_none (o_stop_price ord), q_time_in_force = ''day''\<rparr>"

definition submit ::
  "world \<Rightarrow> order \<Rightarrow> pystr \<Rightarrow> rat \<Rightarrow> ns \<Rightarrow> dec option \<Rightarrow> 'm motor_state
     \<Rightarrow> (exc + exec_report) \<times> 'm motor_state" where
  "submit w ord venue notional received ref s0 =
     (case ms_is_halted w s0 of (halted, s) \<Rightarrow>
        if halted
        then rejected w ord HALTED (ks_reason (ms_kill s)) received ref (Some venue)
               (s\<lparr>ms_ledger := release (ms_ledger s) notional\<rparr>)
        else case BrokerOrderRequest_new (request_of ord) of
          Inl e \<Rightarrow> (Inl e, s)
        | Inr request \<Rightarrow>
          (case ms_clock w s of (submitted, s1) \<Rightarrow>
           let s2 = s1\<lparr>ms_sent := ms_sent s1 @ [(venue, request)]\<rparr>
           in case w_submit w (length (ms_sent s1)) venue request of
                BrokerRejectedError msg \<Rightarrow>
                  rejected w ord BROKER_REJECTED msg received ref (Some venue)
                    (s2\<lparr>ms_ledger := release (ms_ledger s2) notional\<rparr>)
              | SubmitOutcomeUnknown msg \<Rightarrow> unknown w ord venue msg received submitted ref s2
              | OtherError e \<Rightarrow> unknown w ord venue (exc_name e) received submitted ref s2
              | Submitted result \<Rightarrow>
                  from_broker w ord venue result notional received submitted ref s2))"

definition release_stage ::
  "world \<Rightarrow> order \<Rightarrow> pystr \<Rightarrow> rat \<Rightarrow> ns \<Rightarrow> dec option \<Rightarrow> 'm release_check \<Rightarrow> 'm motor_state
     \<Rightarrow> unit stage \<times> 'm motor_state" where
  "release_stage w ord venue notional received ref check s =
     (case check of
        None \<Rightarrow> (Continue (), s)
      | Some f \<Rightarrow>
          (case f (ms_manifest s) of
             (None, mst) \<Rightarrow> (Continue (), s\<lparr>ms_manifest := mst\<rparr>)
           | (Some refusal, mst) \<Rightarrow>
               finish (rejected w ord MANIFEST_FAILED refusal received ref (Some venue)
                 (s\<lparr>ms_manifest := mst, ms_ledger := release (ms_ledger s) notional\<rparr>))))"

definition run ::
  "motor \<Rightarrow> world \<Rightarrow> attested_order \<Rightarrow> dec option \<Rightarrow> ns \<Rightarrow> 'm release_check \<Rightarrow> 'm motor_state
     \<Rightarrow> (exc + exec_report) \<times> 'm motor_state" where
  "run m w attested ref received check s0 =
     (let ord = ao_order attested
      in case precheck m w attested ref received s0 of
        (Raise e, s) \<Rightarrow> (Inl e, s)
      | (Report r, s) \<Rightarrow> (Inr r, s)
      | (Continue notional, s) \<Rightarrow>
      (case rbind (w_stats w (ms_reads s))
              (\<lambda>stats. route (m_router m) ord (sort (m_venues m)) stats received) of
        Inl e \<Rightarrow> (Inl e, s)
      | Inr decision \<Rightarrow>
      (case rd_venue decision of
        None \<Rightarrow> rejected w ord NO_ELIGIBLE_VENUE [] received ref None s
      | Some venue \<Rightarrow>
      (case claim_and_reserve w ord notional received ref s of
        (Raise e, s1) \<Rightarrow> (Inl e, s1)
      | (Report r, s1) \<Rightarrow> (Inr r, s1)
      | (Continue _, s1) \<Rightarrow>
      (case release_stage w ord venue notional received ref check s1 of
        (Raise e, s2) \<Rightarrow> (Inl e, s2)
      | (Report r, s2) \<Rightarrow> (Inr r, s2)
      | (Continue _, s2) \<Rightarrow> submit w ord venue notional received ref s2)))))"

definition execute ::
  "motor \<Rightarrow> world \<Rightarrow> attested_order \<Rightarrow> dec option \<Rightarrow> 'm release_check \<Rightarrow> 'm motor_state
     \<Rightarrow> (exc + exec_report) \<times> 'm motor_state" where
  "execute m w attested ref check s0 =
     (case ms_clock w s0 of (received, s) \<Rightarrow>
      case run m w attested ref received check s of
        (Inr report, s1) \<Rightarrow> (Inr report, s1)
      | (Inl e, s1) \<Rightarrow>
          rejected w (ao_order attested) INTERNAL_ERROR (exc_name e) received ref None
            (ms_halt (''unexpected error: '' @ exc_name e) s1))"

end
