(* ===== verification/Motor_Stages.thy ===== *)
theory Motor_Stages
  imports Motor
begin

text \<open>
  What the stages of \<open>ExecutionMotor.execute\<close> do to the motor: which of them touch the claims,
  the ledger and the broker (\<open>core\<close>, \<open>advances\<close>, \<open>settled\<close>), the conditions under which an
  order reaches a broker (\<open>submission_gate\<close>), and what the returned report says about it
  (\<open>honest\<close>).
\<close>

section \<open>What each stage changes\<close>

lemma snd_ms_clock: "snd (ms_clock w s) = s\<lparr>ms_reads := Suc (ms_reads s)\<rparr>"
  by (simp add: ms_clock_def)

lemma snd_rejected [simp]:
  "snd (rejected w ord reason d rc ref v s) = s\<lparr>ms_reads := Suc (ms_reads s)\<rparr>"
  by (simp add: rejected_def ms_clock_def)

lemma snd_unknown [simp]:
  "snd (unknown w ord v d rc sb ref s) =
     s\<lparr>ms_kill := ks_halt (ms_kill s) (''submit outcome unknown for order '' @ o_order_id ord),
       ms_reads := Suc (ms_reads s)\<rparr>"
  by (simp add: unknown_def ms_clock_def ms_halt_def)

lemma snd_finish [simp]: "snd (finish rs) = snd rs"
  by (simp add: finish_def)

lemma fst_finish_not_Continue [simp]: "fst (finish rs) \<noteq> Continue x" "finish rs \<noteq> (Continue x, s)"
  by (auto simp: finish_def split: sum.splits)

lemma snd_ms_is_halted:
  "snd (ms_is_halted w s) =
     s\<lparr>ms_kill := snd (ks_is_halted (ms_kill s) (w_poll w (ms_polls s))),
       ms_polls := Suc (ms_polls s)\<rparr>"
  by (simp add: ms_is_halted_def split: prod.split)

lemma fst_ms_is_halted:
  "fst (ms_is_halted w s) = fst (ks_is_halted (ms_kill s) (w_poll w (ms_polls s)))"
  by (simp add: ms_is_halted_def split: prod.split)

lemma ms_is_halted_eq:
  "ms_is_halted w s = (fst (ks_is_halted (ms_kill s) (w_poll w (ms_polls s))),
     s\<lparr>ms_kill := snd (ks_is_halted (ms_kill s) (w_poll w (ms_polls s))),
       ms_polls := Suc (ms_polls s)\<rparr>)"
  by (simp add: ms_is_halted_def split: prod.split)

definition poll_halts :: "world \<Rightarrow> 'm motor_state \<Rightarrow> bool" where
  "poll_halts w s \<longleftrightarrow> fst (ks_is_halted (ms_kill s) (w_poll w (ms_polls s)))"

definition polled :: "world \<Rightarrow> 'm motor_state \<Rightarrow> 'm motor_state" where
  "polled w s = s\<lparr>ms_kill := snd (ks_is_halted (ms_kill s) (w_poll w (ms_polls s))),
       ms_polls := Suc (ms_polls s)\<rparr>"

lemma ms_is_halted_polled: "ms_is_halted w s = (poll_halts w s, polled w s)"
  by (simp add: ms_is_halted_eq poll_halts_def polled_def)

lemma polled_frame [simp]:
  "ms_sent (polled w s) = ms_sent s" "ms_idem (polled w s) = ms_idem s"
  "ms_ledger (polled w s) = ms_ledger s" "ms_manifest (polled w s) = ms_manifest s"
  "ms_reads (polled w s) = ms_reads s"
  by (simp_all add: polled_def)

text \<open>The effects the theorems speak about, as one tuple per state.\<close>

definition core ::
  "'m motor_state \<Rightarrow> idem_store \<times> notional_ledger \<times> (pystr \<times> broker_order_request) list \<times> 'm"
  where "core s = (ms_idem s, ms_ledger s, ms_sent s, ms_manifest s)"

lemma core_eqD:
  "core s = core t \<Longrightarrow> ms_idem s = ms_idem t \<and> ms_ledger s = ms_ledger t
     \<and> ms_sent s = ms_sent t \<and> ms_manifest s = ms_manifest t"
  by (simp add: core_def)

lemma core_rejected [simp]: "core (snd (rejected w ord r d rc ref v s)) = core s"
  by (simp add: core_def)

lemma core_unknown [simp]: "core (snd (unknown w ord v d rc sb ref s)) = core s"
  by (simp add: core_def)

lemma core_update [simp]:
  "core (s\<lparr>ms_reads := n\<rparr>) = core s" "core (s\<lparr>ms_kill := k\<rparr>) = core s"
  "core (s\<lparr>ms_polls := n\<rparr>) = core s" "core (ms_halt r s) = core s"
  by (simp_all add: core_def ms_halt_def)

lemma core_polled [simp]: "core (polled w s) = core s"
  by (simp add: core_def)

section \<open>Pre-checks\<close>

text \<open>What must hold for the pre-checks to let an order through with a given notional.\<close>

definition cleared :: "motor \<Rightarrow> world \<Rightarrow> attested_order \<Rightarrow> ns \<Rightarrow> nat \<Rightarrow> rat \<Rightarrow> bool" where
  "cleared m w a received n notional \<longleftrightarrow>
     o_order_id (ao_order a) = o_signal_id (ao_order a)
     \<and> evaluate_attestation (m_sha m) (m_verify m) a = None
     \<and> (a_attested_side (ao_attestation a) = SIDE_SELL_SHORT
          \<longrightarrow> mc_allow_short_selling (m_config m))
     \<and> timing_reason (m_config m) a received = None
     \<and> o_algo (ao_order a) = DIRECT
     \<and> compute_notional (ao_order a)
          (trusted_quote_price m w n (o_symbol (ao_order a)) received) = Some notional
     \<and> notional \<le> mc_max_order_notional (m_config m)"

lemma precheck_Continue:
  "precheck m w a ref rc s0 = (Continue n, s) \<longleftrightarrow>
     \<not> poll_halts w s0 \<and> cleared m w a rc (ms_reads s0) n \<and> s = polled w s0"
  by (auto simp: precheck_def Let_def ms_is_halted_polled cleared_def not_less
      split: option.splits if_splits)

lemma precheck_core: "core (snd (precheck m w a ref rc s0)) = core s0"
  by (simp add: precheck_def Let_def ms_is_halted_polled split: option.split)

section \<open>Claims\<close>

definition durable :: "idem_store \<Rightarrow> pystr set" where
  "durable st = (case st of InMemory seen \<Rightarrow> seen
                 | FileBacked fs \<Rightarrow> fs_seen fs \<inter> line_keys (fs_lines fs))"

lemma durable_seen: "durable st \<subseteq> store_seen st"
  by (cases st) (auto simp: durable_def)

lemma store_claim_durable:
  assumes "store_claim disk st key = (r, st')"
  shows "durable st \<subseteq> durable st'" "r = Inr True \<Longrightarrow> key \<in> durable st'"
  using assms
  by (cases st; auto simp: store_claim_def durable_def memory_claim_def file_claim_def Let_def
      line_keys_def split: if_splits prod.splits)+

lemma claim_and_reserve_Continue:
  assumes "claim_and_reserve w ord n rc ref s = (Continue u, s')"
  shows "signal_key ord \<notin> store_seen (ms_idem s)" "signal_key ord \<in> durable (ms_idem s')"
    "durable (ms_idem s) \<subseteq> durable (ms_idem s')"
    "try_reserve (ms_ledger s) n = (True, ms_ledger s')"
    "s' = s\<lparr>ms_idem := ms_idem s', ms_ledger := ms_ledger s'\<rparr>"
proof -
  obtain st1 st2 where
    c1: "store_claim (w_disk w) (ms_idem s) (signal_key ord) = (Inr True, st1)" and
    c2: "store_claim (w_disk w) st1 (order_key ord) = (Inr True, st2)" and
    l: "try_reserve (ms_ledger s) n = (True, ms_ledger s')" and
    s': "s' = s\<lparr>ms_idem := st2, ms_ledger := ms_ledger s'\<rparr>"
    using assms
    by (auto simp: claim_and_reserve_def Let_def split: prod.splits sum.splits if_splits bool.splits)
  have idem: "ms_idem s' = st2" by (subst s') simp
  show "signal_key ord \<notin> store_seen (ms_idem s)" using store_claim_cases [OF c1] by simp
  show "durable (ms_idem s) \<subseteq> durable (ms_idem s')"
    and "signal_key ord \<in> durable (ms_idem s')"
    using store_claim_durable [OF c1] store_claim_durable [OF c2] idem by auto
  show "try_reserve (ms_ledger s) n = (True, ms_ledger s')" by (rule l)
  show "s' = s\<lparr>ms_idem := ms_idem s', ms_ledger := ms_ledger s'\<rparr>"
    unfolding idem by (rule s')
qed

section \<open>Submission\<close>

lemma ms_clock_eq: "ms_clock w s = (w_clock w (ms_reads s), s\<lparr>ms_reads := Suc (ms_reads s)\<rparr>)"
  by (simp add: ms_clock_def)

text \<open>What a submission may do to the claims, the ledger and the broker.\<close>

definition settled :: "rat \<Rightarrow> 'm motor_state \<Rightarrow> 'm motor_state \<Rightarrow> bool" where
  "settled n s t \<longleftrightarrow> ms_idem t = ms_idem s \<and> ms_ledger t \<in> {ms_ledger s, release (ms_ledger s) n}"

lemma from_broker_frame [simp]:
  "ms_idem (snd (from_broker w ord v b n rc sb ref s)) = ms_idem s"
  "ms_sent (snd (from_broker w ord v b n rc sb ref s)) = ms_sent s"
  "ms_ledger (snd (from_broker w ord v b n rc sb ref s)) =
     (if b_status b = REJECTED then release (ms_ledger s) n else ms_ledger s)"
  by (simp_all add: from_broker_def ms_clock_eq)

lemma settled_release [simp]: "settled n s (s\<lparr>ms_ledger := release (ms_ledger s) n\<rparr>)"
  by (simp add: settled_def)

lemma submit_outcome:
  fixes s0 :: "'m motor_state" and w ord v n rc ref
  defines "s \<equiv> polled w s0"
  defines "t \<equiv> snd (submit w ord v n rc ref s0)"
  shows "settled n s t
     \<and> (ms_sent t = ms_sent s0
        \<or> ms_sent t = ms_sent s0 @ [(v, request_of ord)] \<and> \<not> poll_halts w s0
          \<and> 0 < o_quantity ord)"
proof (cases "poll_halts w s0 \<or> (\<exists>e. BrokerOrderRequest_new (request_of ord) = Inl e)")
  case True
  then show ?thesis
    by (auto simp: s_def t_def submit_def ms_is_halted_polled settled_def)
next
  case False
  then obtain q where q: "BrokerOrderRequest_new (request_of ord) = Inr q" by (metis sum.exhaust)
  then have [simp]: "q = request_of ord" and "0 < o_quantity ord"
    by (auto simp: BrokerOrderRequest_new_def request_of_def split: if_splits)
  moreover have "settled n s t \<and> ms_sent t = ms_sent s0 @ [(v, request_of ord)]"
    using False q
    by (simp add: s_def t_def submit_def ms_is_halted_polled ms_clock_eq settled_def Let_def
        split: submit_result.split)
  ultimately show ?thesis using False by blast
qed

definition release_ok :: "'m release_check \<Rightarrow> 'm \<Rightarrow> bool" where
  "release_ok chk mst \<longleftrightarrow> (case chk of None \<Rightarrow> True | Some f \<Rightarrow> fst (f mst) = None)"

lemma release_stage_outcome:
  fixes s :: "'m motor_state" and w ord v n rc ref chk
  defines "t \<equiv> snd (release_stage w ord v n rc ref chk s)"
  shows "settled n s t \<and> ms_sent t = ms_sent s
     \<and> (fst (release_stage w ord v n rc ref chk s) = Continue u \<longrightarrow>
          release_ok chk (ms_manifest s)
          \<and> ms_ledger t = ms_ledger s)"
  by (auto simp: t_def release_stage_def release_ok_def settled_def split: option.splits prod.splits)

section \<open>Execution\<close>

text \<open>
  What every operation of a motor keeps: claims are never forgotten, the ledger stays within its
  cap, and nothing reaches a broker.
\<close>

definition advances :: "'m motor_state \<Rightarrow> 'm motor_state \<Rightarrow> bool" where
  "advances s t \<longleftrightarrow> durable (ms_idem s) \<subseteq> durable (ms_idem t)
     \<and> store_seen (ms_idem s) \<subseteq> store_seen (ms_idem t)
     \<and> (ledger_inv (ms_ledger s) \<longrightarrow> ledger_inv (ms_ledger t))
     \<and> l_cap (ms_ledger t) = l_cap (ms_ledger s)"

lemma advances_refl [simp]: "advances s s"
  by (simp add: advances_def)

lemma advances_trans [trans]: "advances s t \<Longrightarrow> advances t u \<Longrightarrow> advances s u"
  by (auto simp: advances_def)

lemma advances_core: "core s = core t \<Longrightarrow> advances s t"
  by (auto simp: advances_def core_def)

lemma advances_settled: "settled n s t \<Longrightarrow> 0 \<le> n \<Longrightarrow> advances s t"
  by (auto simp: advances_def settled_def frame_simps intro: ledger_inv_release)

lemma store_claim_mono:
  "store_claim disk st key = (r, st') \<Longrightarrow>
     durable st \<subseteq> durable st' \<and> store_seen st \<subseteq> store_seen st'"
  using store_claim_durable(1) store_claim_cases by blast

lemma try_reserve_advances:
  "try_reserve l n = (b, l') \<Longrightarrow> l_cap l' = l_cap l \<and> (ledger_inv l \<longrightarrow> ledger_inv l')"
  using ledger_inv_try_reserve [of l n] ledger_cap_frame(2) [of l n] by auto

lemma claim_and_reserve_advances: "advances s (snd (claim_and_reserve w ord n rc ref s))"
proof -
  obtain r1 st1 where c1: "store_claim (w_disk w) (ms_idem s) (signal_key ord) = (r1, st1)" by force
  obtain r2 st2 where c2: "store_claim (w_disk w) st1 (order_key ord) = (r2, st2)" by force
  obtain b l where l: "try_reserve (ms_ledger s) n = (b, l)" by force
  show ?thesis
    using store_claim_mono [OF c1] store_claim_mono [OF c2] try_reserve_advances [OF l]
    by (cases r1; cases r2; cases b)
      (auto simp: claim_and_reserve_def c1 c2 l advances_def Let_def)
qed

lemma claim_and_reserve_sent: "ms_sent (snd (claim_and_reserve w ord n rc ref s)) = ms_sent s"
  by (simp add: claim_and_reserve_def Let_def split: prod.split sum.split bool.split)

definition routed :: "motor \<Rightarrow> world \<Rightarrow> order \<Rightarrow> ns \<Rightarrow> nat \<Rightarrow> exc + routing_decision" where
  "routed m w ord rc k =
     rbind (w_stats w k) (\<lambda>stats. route (m_router m) ord (sort (m_venues m)) stats rc)"

text \<open>
  The conditions under which an execution received at \<open>rc\<close> may reach a broker, over the state at
  that moment.
\<close>

definition submission_gate ::
  "motor \<Rightarrow> world \<Rightarrow> attested_order \<Rightarrow> ns \<Rightarrow> 'm release_check \<Rightarrow> 'm motor_state \<Rightarrow> pystr \<Rightarrow> rat
     \<Rightarrow> bool" where
  "submission_gate m w a rc chk s venue n \<longleftrightarrow>
     \<not> poll_halts w s
     \<and> cleared m w a rc (ms_reads s) n
     \<and> (\<exists>d. routed m w (ao_order a) rc (ms_reads s) = Inr d \<and> rd_venue d = Some venue)
     \<and> signal_key (ao_order a) \<notin> store_seen (ms_idem s)
     \<and> fst (try_reserve (ms_ledger s) n)
     \<and> release_ok chk (ms_manifest s)
     \<and> \<not> poll_halts w (polled w s)"

lemma ms_polls_frame [simp]:
  "ms_polls (snd (ms_clock w s)) = ms_polls s" "ms_kill (snd (ms_clock w s)) = ms_kill s"
  by (simp_all add: ms_clock_def)

lemma execute_eq:
  "snd (execute m w a ref chk s) =
     (let s1 = s\<lparr>ms_reads := Suc (ms_reads s)\<rparr>; rc = w_clock w (ms_reads s)
      in case run m w a ref rc chk s1 of
           (Inr r, t) \<Rightarrow> t
         | (Inl e, t) \<Rightarrow> snd (rejected w (ao_order a) INTERNAL_ERROR (exc_name e) rc ref None
             (ms_halt (''unexpected error: '' @ exc_name e) t)))"
  by (simp add: execute_def ms_clock_eq Let_def split: prod.split sum.split)

lemma core_execute:
  "core (snd (execute m w a ref chk s)) =
     core (snd (run m w a ref (w_clock w (ms_reads s)) chk (s\<lparr>ms_reads := Suc (ms_reads s)\<rparr>)))"
  by (simp add: execute_eq Let_def split: prod.split sum.split)

lemma claim_and_reserve_frame:
  assumes "claim_and_reserve w ord n rc ref s = (Continue u, s')"
  shows "ms_sent s' = ms_sent s" "ms_manifest s' = ms_manifest s" "poll_halts w s' = poll_halts w s"
  by (subst claim_and_reserve_Continue(5) [OF assms], simp add: poll_halts_def)+

lemma release_stage_frame:
  assumes "release_stage w ord v n rc ref chk s = (Continue u, s')"
  shows "ms_sent s' = ms_sent s" "ms_idem s' = ms_idem s" "ms_ledger s' = ms_ledger s"
    "poll_halts w s' = poll_halts w s"
    "release_ok chk (ms_manifest s)"
  using assms
  by (auto simp: release_stage_def release_ok_def poll_halts_def split: option.splits prod.splits)

lemma settled_advances_sent:
  "settled n s t \<Longrightarrow> 0 \<le> n \<Longrightarrow> durable (ms_idem s) = durable (ms_idem t) \<and> advances s t"
  by (simp add: advances_settled) (simp add: settled_def)

text \<open>The part of \<open>_run\<close> after routing, as the state it leaves.\<close>

definition dispatched ::
  "world \<Rightarrow> order \<Rightarrow> pystr \<Rightarrow> rat \<Rightarrow> ns \<Rightarrow> dec option \<Rightarrow> 'm release_check \<Rightarrow> 'm motor_state
     \<Rightarrow> 'm motor_state" where
  "dispatched w ord v n rc ref chk s =
     (case claim_and_reserve w ord n rc ref s of
        (Continue _, s1) \<Rightarrow>
          (case release_stage w ord v n rc ref chk s1 of
             (Continue _, s2) \<Rightarrow> snd (submit w ord v n rc ref s2)
           | (_, s2) \<Rightarrow> s2)
      | (_, s1) \<Rightarrow> s1)"

lemma run_dispatched:
  "precheck m w a ref rc s0 = (Continue n, s) \<Longrightarrow> routed m w (ao_order a) rc (ms_reads s) = Inr d
     \<Longrightarrow> rd_venue d = Some v
     \<Longrightarrow> snd (run m w a ref rc chk s0) = dispatched w (ao_order a) v n rc ref chk s"
  by (simp add: run_def routed_def dispatched_def Let_def split: prod.split stage.split)

lemma run_not_dispatched:
  assumes "precheck m w a ref rc s0 = (p, s)"
    and "\<nexists>n d v. p = Continue n \<and> routed m w (ao_order a) rc (ms_reads s) = Inr d
           \<and> rd_venue d = Some v"
  shows "core (snd (run m w a ref rc chk s0)) = core s"
  using assms
  by (auto simp: run_def routed_def Let_def split: stage.split sum.split option.split)

lemma dispatched_outcome:
  fixes s :: "'m motor_state" and w ord v n rc ref chk
  defines "t \<equiv> dispatched w ord v n rc ref chk s"
  shows "advances s t \<and> (ms_sent t = ms_sent s
     \<or> ms_sent t = ms_sent s @ [(v, request_of ord)] \<and> 0 < o_quantity ord
       \<and> signal_key ord \<notin> store_seen (ms_idem s) \<and> signal_key ord \<in> durable (ms_idem t)
       \<and> fst (try_reserve (ms_ledger s) n) \<and> \<not> poll_halts w s
       \<and> release_ok chk (ms_manifest s))"
proof -
  obtain c s1 where c: "claim_and_reserve w ord n rc ref s = (c, s1)" by force
  have adv1: "advances s s1" "ms_sent s1 = ms_sent s"
    using claim_and_reserve_advances [of s w ord n rc ref]
      claim_and_reserve_sent [of w ord n rc ref s] c by simp_all
  obtain l s2 where l: "release_stage w ord v n rc ref chk s1 = (l, s2)" by force
  have st: "settled n s1 s2" "ms_sent s2 = ms_sent s1"
    using release_stage_outcome [of n s1 w ord v rc ref chk] l by simp_all
  have t: "t = (case c of Continue _ \<Rightarrow>
      (case l of Continue _ \<Rightarrow> snd (submit w ord v n rc ref s2) | _ \<Rightarrow> s2) | _ \<Rightarrow> s1)"
    by (simp add: t_def dispatched_def c l split: stage.split)
  consider (stop1) "t = s1" | (stop2) u where "c = Continue u" "t = s2"
    | (go) u u2 where "c = Continue u" "l = Continue u2" "t = snd (submit w ord v n rc ref s2)"
    using t by (cases c; cases l) auto
  then show ?thesis
  proof cases
    case stop1
    with adv1 show ?thesis by simp
  next
    case stop2
    with c have "try_reserve (ms_ledger s) n = (True, ms_ledger s1)"
      using claim_and_reserve_Continue(4) by blast
    with stop2 adv1 st show ?thesis
      using advances_settled [OF st(1)] try_reserve_granted advances_trans by force
  next
    case go
    note claim = claim_and_reserve_Continue [OF c [unfolded go(1)]]
      claim_and_reserve_frame [OF c [unfolded go(1)]]
    note rel = release_stage_frame [OF l [unfolded go(2)]]
    note sub = submit_outcome [of n w s2 ord v rc ref, folded go(3)]
    have n: "0 \<le> n" using try_reserve_granted [OF claim(4)] by simp
    have "advances (polled w s2) t" using sub n advances_settled by blast
    then have "advances s t"
      using adv1(1) advances_settled [OF st(1) n] by (metis advances_core advances_trans core_polled)
    moreover have "signal_key ord \<in> durable (ms_idem t)"
      using claim(2) rel(2) sub by (simp add: settled_def)
    moreover have "release_ok chk (ms_manifest s)"
      using rel(5) unfolding claim(7) .
    moreover have "poll_halts w s2 = poll_halts w s" using rel(4) claim(8) by simp
    ultimately show ?thesis using sub adv1(2) st(2) claim(1,4) by auto
  qed
qed

lemma run_outcome:
  fixes s0 :: "'m motor_state" and m w a ref rc chk
  defines "t \<equiv> snd (run m w a ref rc chk s0)"
  shows "advances s0 t \<and> (ms_sent t = ms_sent s0
     \<or> (\<exists>v n. ms_sent t = ms_sent s0 @ [(v, request_of (ao_order a))]
          \<and> submission_gate m w a rc chk s0 v n \<and> 0 < o_quantity (ao_order a)
          \<and> signal_key (ao_order a) \<in> durable (ms_idem t)))"
proof -
  obtain p s where p: "precheck m w a ref rc s0 = (p, s)" by force
  have s: "core s = core s0" using precheck_core [of m w a ref rc s0] p by simp
  note same = core_eqD [OF s]
  have adv: "advances s0 s" using s by (simp add: advances_core)
  show ?thesis
  proof (cases "\<exists>n d v. p = Continue n \<and> routed m w (ao_order a) rc (ms_reads s) = Inr d
      \<and> rd_venue d = Some v")
    case False
    from run_not_dispatched [OF p False, of chk] have "core t = core s0" by (simp add: t_def s)
    then show ?thesis using core_eqD [of t s0] by (simp add: advances_core)
  next
    case True
    then obtain n d v where pn: "precheck m w a ref rc s0 = (Continue n, s)"
      and d: "routed m w (ao_order a) rc (ms_reads s) = Inr d" "rd_venue d = Some v"
      using p by auto
    then have pre: "\<not> poll_halts w s0" "cleared m w a rc (ms_reads s0) n" "s = polled w s0"
      by (simp_all add: precheck_Continue)
    have t: "t = dispatched w (ao_order a) v n rc ref chk s"
      unfolding t_def by (rule run_dispatched [OF pn d])
    show ?thesis
      using dispatched_outcome [of s w "ao_order a" v n rc ref chk, folded t] adv pre d same
      by (auto simp: submission_gate_def dest: advances_trans)
  qed
qed

lemma advances_halt_reads [simp]:
  "advances (s\<lparr>ms_reads := k\<rparr>) t = advances s t" "advances s (t\<lparr>ms_reads := k\<rparr>) = advances s t"
  "advances s (ms_halt r t) = advances s t"
  by (simp_all add: advances_def ms_halt_def)

lemma execute_outcome:
  fixes s :: "'m motor_state" and m w a ref chk
  defines "t \<equiv> snd (execute m w a ref chk s)"
  shows "advances s t \<and> (ms_sent t = ms_sent s
     \<or> (\<exists>v n. ms_sent t = ms_sent s @ [(v, request_of (ao_order a))]
          \<and> submission_gate m w a (w_clock w (ms_reads s)) chk (snd (ms_clock w s)) v n
          \<and> 0 < o_quantity (ao_order a) \<and> signal_key (ao_order a) \<in> durable (ms_idem t)))"
proof -
  let ?s = "snd (ms_clock w s)"
  define u where "u = snd (run m w a ref (w_clock w (ms_reads s)) chk ?s)"
  have t: "core t = core u"
    unfolding t_def u_def by (simp add: core_execute ms_clock_def)
  note same = core_eqD [OF t]
  have "advances ?s t"
    using run_outcome [of ?s m w a ref "w_clock w (ms_reads s)" chk, folded u_def] t
    by (metis advances_core advances_trans)
  then have "advances s t" by (simp add: ms_clock_def)
  moreover have "ms_sent ?s = ms_sent s" by (simp add: ms_clock_def)
  ultimately show ?thesis
    using run_outcome [of ?s m w a ref "w_clock w (ms_reads s)" chk, folded u_def] same by auto
qed

section \<open>What the report says\<close>

definition identifies :: "exec_report \<Rightarrow> order \<Rightarrow> bool" where
  "identifies r ord \<longleftrightarrow> r_order_id r = o_order_id ord \<and> r_client_order_id r = client_order_id ord
     \<and> r_signal_id r = o_signal_id ord \<and> r_symbol r = o_symbol ord \<and> r_side r = Some (o_side ord)
     \<and> r_requested_quantity r = o_quantity ord"

text \<open>
  A report is honest about an execution that led from \<open>s\<close> to \<open>t\<close>: it names the order, it says
  REJECTED, not by the broker, when nothing was sent, it blames the broker or an internal error when a submitted
  order is reported REJECTED, and an ambiguous or unexpected outcome has latched the kill switch.
\<close>

definition honest :: "order \<Rightarrow> 'm motor_state \<Rightarrow> 'm motor_state \<Rightarrow> exec_report \<Rightarrow> bool" where
  "honest ord s t r \<longleftrightarrow> identifies r ord
     \<and> (ms_sent t = ms_sent s \<longrightarrow>
          r_status r = REJECTED \<and> r_reject_reason r \<noteq> Some BROKER_REJECTED)
     \<and> (ms_sent t \<noteq> ms_sent s \<and> r_status r = REJECTED \<longrightarrow>
          r_reject_reason r \<in> {Some BROKER_REJECTED, Some INTERNAL_ERROR})
     \<and> (r_status r = UNKNOWN \<or> r_reject_reason r = Some INTERNAL_ERROR \<longrightarrow> ks_halted (ms_kill t))"

lemma rejected_Inr:
  assumes "rejected w ord reason d rc ref v s = (Inr r, t)"
  shows "identifies r ord" "r_status r = REJECTED" "r_reject_reason r = Some reason"
    "r_venue r = v" "r_fills r = []"
  using assms ExecutionReport_new_Inr by (fastforce simp: rejected_def ms_clock_eq identifies_def)+

lemma rejected_returns:
  "finite_ref ref \<Longrightarrow> \<exists>r. fst (rejected w ord reason d rc ref v s) = Inr r"
  unfolding rejected_def ms_clock_eq prod.case fst_conv
  by (rule ExecutionReport_new_returns) (simp_all add: check_reason_matches_status_def)

lemma unknown_Inr:
  assumes "unknown w ord v d rc sb ref s = (Inr r, t)"
  shows "identifies r ord" "r_status r = UNKNOWN" "r_reject_reason r = Some SUBMIT_OUTCOME_UNKNOWN"
    "ks_halted (ms_kill t)"
  using assms ExecutionReport_new_Inr
  by (fastforce simp: unknown_def ms_clock_eq identifies_def ms_halt_def ks_halt_def)+

lemma from_broker_Inr:
  assumes "from_broker w ord v b n rc sb ref s = (Inr r, t)"
  shows "identifies r ord" "r_status r = b_status b"
    "r_status r = REJECTED \<Longrightarrow> r_reject_reason r = Some BROKER_REJECTED"
    "r_reject_reason r \<noteq> Some INTERNAL_ERROR"
    "r_status r = UNKNOWN \<Longrightarrow> ks_halted (ms_kill t)"
proof -
  consider (u) "b_status b = UNKNOWN" | (r) "b_status b = REJECTED"
    | (o) "b_status b \<noteq> UNKNOWN" "b_status b \<noteq> REJECTED" by blast
  then have "identifies r ord \<and> r_status r = b_status b
    \<and> (r_status r = REJECTED \<longrightarrow> r_reject_reason r = Some BROKER_REJECTED)
    \<and> r_reject_reason r \<noteq> Some INTERNAL_ERROR \<and> (r_status r = UNKNOWN \<longrightarrow> ks_halted (ms_kill t))"
  proof cases
    case u
    with assms show ?thesis by (auto simp: from_broker_def dest: unknown_Inr)
  next
    case r
    with assms show ?thesis by (auto simp: from_broker_def dest: rejected_Inr)
  next
    case o
    with assms show ?thesis
      using ExecutionReport_new_Inr
      by (fastforce simp: from_broker_def ms_clock_eq rbind_eq_Inr identifies_def)
  qed
  then show "identifies r ord" "r_status r = b_status b"
    "r_status r = REJECTED \<Longrightarrow> r_reject_reason r = Some BROKER_REJECTED"
    "r_reject_reason r \<noteq> Some INTERNAL_ERROR"
    "r_status r = UNKNOWN \<Longrightarrow> ks_halted (ms_kill t)" by blast+
qed

lemma honest_rejected:
  assumes "rejected w ord reason d rc ref v u = (Inr r, t)" "reason \<noteq> INTERNAL_ERROR"
    and "if reason = BROKER_REJECTED then ms_sent u \<noteq> ms_sent s else ms_sent u = ms_sent s"
  shows "honest ord s t r"
  using rejected_Inr [OF assms(1)] assms(2,3) arg_cong [OF assms(1), of snd]
  by (auto simp: honest_def split: if_splits)

lemma finish_Report: "finish rs = (Report r, t) \<longleftrightarrow> rs = (Inr r, t)"
  by (cases rs) (auto simp: finish_def split: sum.splits)

lemma denial_reasons:
  "evaluate_attestation sha verify ao \<noteq> Some INTERNAL_ERROR"
  "evaluate_attestation sha verify ao \<noteq> Some BROKER_REJECTED"
  "timing_reason c ao now \<noteq> Some INTERNAL_ERROR"
  "timing_reason c ao now \<noteq> Some BROKER_REJECTED"
  by (auto simp: evaluate_attestation_def timing_reason_def Let_def split: sum.splits)

lemma precheck_honest:
  assumes "precheck m w a ref rc s = (Report r, t)"
  shows "honest (ao_order a) s t r"
proof -
  have "\<exists>reason d. rejected w (ao_order a) reason d rc ref None (polled w s) = (Inr r, t)
      \<and> reason \<noteq> INTERNAL_ERROR \<and> reason \<noteq> BROKER_REJECTED"
    using assms denial_reasons
    by (fastforce simp: precheck_def Let_def ms_is_halted_polled finish_Report
        split: option.splits if_splits)
  then show ?thesis by (auto intro: honest_rejected)
qed

lemma claim_and_reserve_honest:
  assumes "claim_and_reserve w ord n rc ref s = (Report r, t)"
  shows "honest ord s t r"
  using assms
  by (auto simp: claim_and_reserve_def Let_def finish_Report intro: honest_rejected
      split: prod.splits sum.splits bool.splits if_splits)

lemma release_stage_honest:
  assumes "release_stage w ord v n rc ref chk s = (Report r, t)"
  shows "honest ord s t r"
  using assms
  by (auto simp: release_stage_def finish_Report intro: honest_rejected
      split: prod.splits option.splits)

lemma submit_honest:
  assumes "submit w ord v n rc ref s = (Inr r, t)"
  shows "honest ord s t r"
proof -
  let ?s = "polled w s" let ?q = "request_of ord"
  let ?s2 = "?s\<lparr>ms_reads := Suc (ms_reads ?s), ms_sent := ms_sent ?s @ [(v, ?q)]\<rparr>"
  let ?sb = "w_clock w (ms_reads ?s)"
  have req: "BrokerOrderRequest_new ?q = Inr q \<Longrightarrow> q = ?q" for q
    by (simp add: BrokerOrderRequest_new_def split: if_splits)
  consider (halted) d l where
      "rejected w ord HALTED d rc ref (Some v) (?s\<lparr>ms_ledger := l\<rparr>) = (Inr r, t)"
    | (rejected) d l where
      "rejected w ord BROKER_REJECTED d rc ref (Some v) (?s2\<lparr>ms_ledger := l\<rparr>) = (Inr r, t)"
    | (unknown) d where "unknown w ord v d rc ?sb ref ?s2 = (Inr r, t)"
    | (broker) b where "from_broker w ord v b n rc ?sb ref ?s2 = (Inr r, t)"
    using assms req
    by (fastforce simp: submit_def ms_is_halted_polled ms_clock_eq Let_def
        split: if_splits sum.splits submit_result.splits)
  then show ?thesis
  proof cases
    case halted
    then show ?thesis by (rule honest_rejected) auto
  next
    case rejected
    then show ?thesis by (rule honest_rejected) auto
  next
    case unknown
    from arg_cong [OF unknown, of snd] have "ms_sent t = ms_sent ?s2" by auto
    then show ?thesis using unknown_Inr [OF unknown] by (simp add: honest_def)
  next
    case broker
    from arg_cong [OF broker, of "\<lambda>x. ms_sent (snd x)"] have "ms_sent t = ms_sent ?s2" by simp
    then show ?thesis using from_broker_Inr [OF broker] by (auto simp: honest_def)
  qed
qed

lemma honest_cong: "honest ord s t r \<Longrightarrow> ms_sent s = ms_sent s' \<Longrightarrow> honest ord s' t r"
  by (simp add: honest_def)

lemma run_honest:
  assumes "run m w a ref rc chk s = (Inr r, t)"
  shows "honest (ao_order a) s t r"
proof -
  let ?o = "ao_order a"
  obtain p s1 where p: "precheck m w a ref rc s = (p, s1)" by force
  have sent: "ms_sent s = ms_sent s1"
    using precheck_core [of m w a ref rc s] p core_eqD [of s1 s] by simp
  consider (pre) "p = Report r" "t = s1"
    | (venue) "rejected w ?o NO_ELIGIBLE_VENUE [] rc ref None s1 = (Inr r, t)"
    | (claim) n where "claim_and_reserve w ?o n rc ref s1 = (Report r, t)"
    | (release) n u s2 v where "claim_and_reserve w ?o n rc ref s1 = (Continue u, s2)"
        "release_stage w ?o v n rc ref chk s2 = (Report r, t)"
    | (submit) n u s2 v u2 s3 where "claim_and_reserve w ?o n rc ref s1 = (Continue u, s2)"
        "release_stage w ?o v n rc ref chk s2 = (Continue u2, s3)"
        "submit w ?o v n rc ref s3 = (Inr r, t)"
    using assms p
    by (auto simp: run_def Let_def split: stage.splits sum.splits option.splits prod.splits)
  then show ?thesis
  proof cases
    case pre
    with p show ?thesis using precheck_honest by simp
  next
    case venue
    then show ?thesis by (rule honest_rejected) (simp_all add: sent)
  next
    case claim
    then show ?thesis using claim_and_reserve_honest honest_cong sent by metis
  next
    case release
    then show ?thesis
      using release_stage_honest honest_cong sent claim_and_reserve_frame(1) by metis
  next
    case submit
    then show ?thesis
      using submit_honest honest_cong sent claim_and_reserve_frame(1) release_stage_frame(1) by metis
  qed
qed

lemma execute_cases:
  fixes s :: "'m motor_state"
  obtains (ran) r t where
    "run m w a ref (w_clock w (ms_reads s)) chk (snd (ms_clock w s)) = (Inr r, t)"
    "execute m w a ref chk s = (Inr r, t)"
  | (failed) e u where
    "run m w a ref (w_clock w (ms_reads s)) chk (snd (ms_clock w s)) = (Inl e, u)"
    "execute m w a ref chk s = rejected w (ao_order a) INTERNAL_ERROR (exc_name e)
       (w_clock w (ms_reads s)) ref None (ms_halt (''unexpected error: '' @ exc_name e) u)"
proof -
  obtain x u where x: "run m w a ref (w_clock w (ms_reads s)) chk (snd (ms_clock w s)) = (x, u)"
    by force
  show thesis
    using x ran failed by (cases x) (simp_all add: execute_def ms_clock_def)
qed

lemma ks_halted_ms_halt [simp]: "ks_halted (ms_kill (ms_halt r s))"
  by (simp add: ms_halt_def ks_halt_def)

lemma execute_honest:
  assumes "execute m w a ref chk s = (Inr r, t)"
  shows "honest (ao_order a) s t r"
proof (cases rule: execute_cases [of m w a ref s chk])
  case (ran r' t')
  with assms have "honest (ao_order a) (snd (ms_clock w s)) t r" using run_honest by simp
  then show ?thesis by (rule honest_cong) (simp add: ms_clock_def)
next
  case (failed e u)
  with assms have rej: "rejected w (ao_order a) INTERNAL_ERROR (exc_name e)
       (w_clock w (ms_reads s)) ref None (ms_halt (''unexpected error: '' @ exc_name e) u) = (Inr r, t)"
    by simp
  from arg_cong [OF rej, of "\<lambda>x. ks_halted (ms_kill (snd x))"] have "ks_halted (ms_kill t)"
    by simp
  then show ?thesis using rejected_Inr [OF rej] by (simp add: honest_def)
qed

lemma execute_returns:
  assumes "finite_ref ref"
  shows "\<exists>r t. execute m w a ref chk s = (Inr r, t)"
proof (cases rule: execute_cases [of m w a ref s chk])
  case (failed e u)
  then show ?thesis using rejected_returns [OF assms] by (metis prod.collapse)
qed auto

end
