(* ===== verification/Motor_Lifetime.thy ===== *)
theory Motor_Lifetime
  imports Motor_Stages
begin

text \<open>
  A motor over its lifetime: any sequence of executions, operator halts and resumes, and restarts
  over the claims file. The invariant \<open>motor_inv\<close> (every submitted order id is durably claimed,
  no id is submitted twice, the ledger stays within its cap) holds in every reachable state.
\<close>

section \<open>A motor over its lifetime\<close>

text \<open>
  The operations of a running motor: an execution, with any configuration, environment and release
  check, and the operator's halt and resume.
\<close>

datatype 'm motor_op =
  Execute motor world attested_order "dec option" "'m release_check"
| Halt pystr
| Resume pystr poll

fun motor_step :: "'m motor_state \<Rightarrow> 'm motor_op \<Rightarrow> 'm motor_state" where
  "motor_step s (Execute m w a ref chk) = snd (execute m w a ref chk s)"
| "motor_step s (Halt reason) = ms_halt reason s"
| "motor_step s (Resume operator poll) = s\<lparr>ms_kill := ks_resume (ms_kill s) operator poll\<rparr>"

text \<open>
  States reachable from a construction by operations and restarts. A restart builds a new motor
  over the claims file the previous one left; what was sent to brokers stays sent.
\<close>

inductive motor_reach :: "'m motor_state \<Rightarrow> bool" where
  start: "ExecutionMotor_new m dev ks injected dirs mst = Inr s \<Longrightarrow> motor_reach s"
| step: "motor_reach s \<Longrightarrow> motor_reach (motor_step s oper)"
| restart: "motor_reach s \<Longrightarrow> ms_idem s = FileBacked fs \<Longrightarrow> mc_state_dir (m_config m) = Some d
    \<Longrightarrow> sd_file (dirs d) = Some (fs_lines fs)
    \<Longrightarrow> ExecutionMotor_new m dev ks None dirs mst = Inr s'
    \<Longrightarrow> motor_reach (s'\<lparr>ms_sent := ms_sent s\<rparr>)"

lemma ExecutionMotor_new_Inr:
  assumes "ExecutionMotor_new m dev ks injected dirs mst = Inr s"
  shows "ms_sent s = [] \<and> ledger_inv (ms_ledger s) \<and> ms_kill s = ks
     \<and> l_cap (ms_ledger s) = mc_max_session_notional (m_config m)
     \<and> resolve_idempotency (m_config m) injected dirs = Inr (ms_idem s)
     \<and> (is_production (m_config m) \<longrightarrow> \<not> dev)"
proof -
  from assms obtain st l where "resolve_idempotency (m_config m) injected dirs = Inr st"
    and l: "NotionalLedger_new (Fin (mc_max_session_notional (m_config m))) = Inr l"
    and "s = \<lparr>ms_kill = ks, ms_idem = st, ms_ledger = l, ms_reads = 0, ms_polls = 0,
                ms_sent = [], ms_manifest = mst\<rparr>"
    and "is_production (m_config m) \<longrightarrow> \<not> dev"
    by (auto simp: ExecutionMotor_new_def rbind_eq_Inr split: if_splits)
  moreover have "l_cap l = mc_max_session_notional (m_config m)" using l by (auto split: if_splits)
  ultimately show ?thesis using ledger_inv_new [OF l] by simp
qed

lemma reopened_claims:
  assumes "resolve_idempotency c None dirs = Inr st" "mc_state_dir c = Some d"
    "sd_file (dirs d) = Some ls"
  shows "durable st = line_keys ls"
proof -
  from assms have "rbind (open_persistent_idempotency_store (dirs d)) (\<lambda>fs. Inr (FileBacked fs)) = Inr st"
    by (simp add: resolve_idempotency_def split: if_splits)
  then obtain fs where fs: "open_persistent_idempotency_store (dirs d) = Inr fs" "st = FileBacked fs"
    by (auto simp: rbind_eq_Inr)
  then have "FileIdempotencyStore_new (Some ls) (sd_writable (dirs d)) = Inr fs"
    using assms(3) by (simp add: open_persistent_idempotency_store_def split: if_splits)
  then have "fs_seen fs = line_keys ls" "fs_lines fs = ls"
    by (auto simp: FileIdempotencyStore_new_def dest!: load_lines_Inr split: sum.splits if_splits)
  with fs show ?thesis by (simp add: durable_def)
qed

definition sent_ids :: "'m motor_state \<Rightarrow> pystr list" where
  "sent_ids s = map (\<lambda>x. q_client_order_id (snd x)) (ms_sent s)"

definition motor_inv :: "'m motor_state \<Rightarrow> bool" where
  "motor_inv s \<longleftrightarrow> ledger_inv (ms_ledger s) \<and> distinct (sent_ids s)
     \<and> (\<forall>i \<in> set (sent_ids s). ''signal:'' @ i \<in> durable (ms_idem s))"

lemma submission_gate_ids:
  "submission_gate m w a rc chk s v n \<Longrightarrow>
     q_client_order_id (request_of (ao_order a)) = o_signal_id (ao_order a)"
  by (simp add: submission_gate_def cleared_def request_of_def client_order_id_def)

lemma motor_inv_execute:
  assumes "motor_inv s"
  shows "motor_inv (snd (execute m w a ref chk s))"
proof -
  let ?t = "snd (execute m w a ref chk s)"
  let ?i = "o_signal_id (ao_order a)"
  note out = execute_outcome [of s m w a ref chk]
  have adv: "durable (ms_idem s) \<subseteq> durable (ms_idem ?t)" "ledger_inv (ms_ledger ?t)"
    using out assms by (simp_all add: advances_def motor_inv_def)
  show ?thesis
  proof (cases "ms_sent ?t = ms_sent s")
    case True
    then show ?thesis using assms adv by (auto simp: motor_inv_def sent_ids_def)
  next
    case False
    then obtain v n where sent: "ms_sent ?t = ms_sent s @ [(v, request_of (ao_order a))]"
      and gate: "submission_gate m w a (w_clock w (ms_reads s)) chk (snd (ms_clock w s)) v n"
      and dur: "signal_key (ao_order a) \<in> durable (ms_idem ?t)" using out by blast
    have ids: "sent_ids ?t = sent_ids s @ [?i]"
      using submission_gate_ids [OF gate] by (simp add: sent_ids_def sent)
    have "''signal:'' @ ?i \<notin> durable (ms_idem s)"
      using gate durable_seen by (auto simp: submission_gate_def signal_key_def ms_clock_def)
    then show ?thesis using assms adv ids dur by (auto simp: motor_inv_def signal_key_def)
  qed
qed

lemma motor_inv_step: "motor_inv s \<Longrightarrow> motor_inv (motor_step s oper)"
  by (cases oper) (simp_all add: motor_inv_execute, simp_all add: motor_inv_def sent_ids_def ms_halt_def)

lemma motor_reach_inv: "motor_reach s \<Longrightarrow> motor_inv s"
proof (induction rule: motor_reach.induct)
  case (start m dev ks injected dirs mst s)
  then show ?case using ExecutionMotor_new_Inr by (fastforce simp: motor_inv_def sent_ids_def)
next
  case (step s oper)
  then show ?case by (simp add: motor_inv_step)
next
  case (restart s fs m d dirs dev ks mst s')
  note new = ExecutionMotor_new_Inr [OF restart.hyps(5)]
  have "durable (ms_idem s') = line_keys (fs_lines fs)"
    using reopened_claims new restart.hyps by blast
  then have "durable (ms_idem s) \<subseteq> durable (ms_idem s')"
    using restart.hyps(2) by (simp add: durable_def)
  then show ?case using restart.IH new by (auto simp: motor_inv_def sent_ids_def)
qed

lemma ks_halted_polled: "ks_halted (ms_kill s) \<Longrightarrow> poll_halts w s \<and> ks_halted (ms_kill (polled w s))"
  by (simp add: poll_halts_def polled_def ks_is_halted_fst ks_is_halted_snd)

lemma precheck_halted:
  "poll_halts w s \<Longrightarrow> precheck m w a ref rc s =
     finish (rejected w (ao_order a) HALTED (ks_reason (ms_kill (polled w s))) rc ref None (polled w s))"
  by (simp add: precheck_def ms_is_halted_polled Let_def)

lemma execute_halted:
  assumes "ks_halted (ms_kill s)"
  shows "ms_sent (snd (execute m w a ref chk s)) = ms_sent s
     \<and> ks_halted (ms_kill (snd (execute m w a ref chk s)))"
proof -
  let ?s = "snd (ms_clock w s)"
  have h: "poll_halts w ?s" "ks_halted (ms_kill (polled w ?s))"
    using ks_halted_polled [of ?s w] assms by simp_all
  have "\<not> submission_gate m w a rc chk ?s v n" for rc v n using h by (simp add: submission_gate_def)
  then have "ms_sent (snd (execute m w a ref chk s)) = ms_sent s"
    using execute_outcome [of s m w a ref chk] by blast
  moreover have "ks_halted (ms_kill (snd (run m w a ref rc chk ?s)))" for rc
    using h by (simp add: run_def precheck_halted Let_def finish_def split: sum.split)
  then have "ks_halted (ms_kill (snd (execute m w a ref chk s)))"
    by (cases rule: execute_cases [of m w a ref s chk]) (simp_all, metis snd_conv)
  ultimately show ?thesis by blast
qed

text \<open>Operations that contain no authorised resume.\<close>

fun resumes :: "'m motor_state \<Rightarrow> 'm motor_op \<Rightarrow> bool" where
  "resumes s (Resume operator poll) = authorised_resume (ms_kill s) (KResume operator poll)"
| "resumes s _ = False"

fun unresumed :: "'m motor_state \<Rightarrow> 'm motor_op list \<Rightarrow> bool" where
  "unresumed s [] = True"
| "unresumed s (oper # opers) = (\<not> resumes s oper \<and> unresumed (motor_step s oper) opers)"

lemma halted_step:
  assumes "ks_halted (ms_kill s)" "\<not> resumes s oper"
  shows "ms_sent (motor_step s oper) = ms_sent s \<and> ks_halted (ms_kill (motor_step s oper))"
proof (cases oper)
  case (Resume operator poll)
  with assms show ?thesis
    using ks_step_keeps_halt [of "ms_kill s" "KResume operator poll"] by simp
qed (use assms in \<open>simp_all add: execute_halted, simp_all add: ms_halt_def ks_halt_def\<close>)

lemma halted_run:
  "ks_halted (ms_kill s) \<Longrightarrow> unresumed s opers
     \<Longrightarrow> ms_sent (foldl motor_step s opers) = ms_sent s
         \<and> ks_halted (ms_kill (foldl motor_step s opers))"
proof (induction opers arbitrary: s)
  case (Cons oper opers)
  then show ?case using halted_step [of s oper] by simp
qed simp

end
