(* ===== verification/Motor_Properties.thy ===== *)
theory Motor_Properties
  imports Motor_Lifetime
begin

text \<open>
  The properties of the execution motor, each over the definitions of \<open>Motor\<close>, with a concrete
  motor, order and environment on which they are exercised.
\<close>

section \<open>A concrete motor\<close>

definition ex_order :: order where
  "ex_order = \<lparr>o_order_id = ''sig-1'', o_signal_id = ''sig-1'', o_symbol = ''AAPL'',
     o_created_at_ns = 900, o_side = BUY, o_order_type = LIMIT, o_quantity = 10,
     o_limit_price = 20, o_stop_price = 0, o_preferred_venue = [], o_max_venue_toxicity = 0,
     o_algo = DIRECT, o_pov_target_rate = 0, o_iceberg_display_size = 0\<rparr>"

definition ex_attested :: attested_order where
  "ex_attested = \<lparr>ao_order = ex_order, ao_attestation =
     \<lparr>a_signature = ''good'', a_key_id = ''k1'', a_signed_payload = ''payload'', a_payload_sha256 = ''payload'',
      a_decided_at_ns = 950, a_expires_at_ns = 2000, a_attested_side = SIDE_BUY\<rparr>\<rparr>"

definition ex_config :: motor_config where
  "ex_config = \<lparr>mc_max_order_notional = 500, mc_max_session_notional = 1000,
     mc_max_order_age_ns = 5000, mc_max_clock_skew_ns = 1000, mc_max_quote_age_ns = 5000,
     mc_environment = ''production'', mc_allow_short_selling = False,
     mc_state_dir = Some ''/state''\<rparr>"

definition ex_router :: router_config where
  "ex_router = \<lparr>rc_max_toxicity = 7 / 10, rc_params =
     \<lparr>tp_markout_scale_bps = 10, tp_slippage_scale_bps = 10, tp_weight_markout = 1 / 2,
      tp_weight_slippage = 3 / 10, tp_weight_fill_shortfall = 1 / 5, tp_min_observations = 1\<rparr>,
     rc_unscored_policy = ALLOW, rc_window_days = 30\<rparr>"

text \<open>A motor whose hash is the identity and whose verifier accepts one signature only.\<close>

definition ex_motor :: motor where
  "ex_motor = \<lparr>m_config = ex_config, m_venues = [''ALPACA''], m_router = ex_router,
     m_sha = (\<lambda>b. b), m_verify = (\<lambda>p s k. Inr (s = ''good'')), m_has_quotes = False\<rparr>"

definition ex_broker_order :: broker_order where
  "ex_broker_order = \<lparr>b_broker_order_id = ''b-1'', b_client_order_id = ''sig-1'',
     b_symbol = ''AAPL'', b_status = ACCEPTED, b_raw_status = ''accepted'', b_quantity = 10,
     b_filled_quantity = 0, b_filled_avg_price = None, b_submitted_at_ns = None,
     b_filled_at_ns = None\<rparr>"

definition ex_world :: world where
  "ex_world = \<lparr>w_clock = (\<lambda>n. 1000 + int n), w_poll = (\<lambda>n. Inr False), w_disk = (\<lambda>n. Written),
     w_quote = (\<lambda>n s. Inr None), w_stats = (\<lambda>n. Inr Map.empty),
     w_submit = (\<lambda>n v q. Submitted ex_broker_order)\<rparr>"

definition ex_dirs :: "pystr \<Rightarrow> state_dir" where
  "ex_dirs d = \<lparr>sd_usable = True, sd_populated = False, sd_file = None, sd_writable = True\<rparr>"

definition ex_state :: "unit motor_state" where
  "ex_state = \<lparr>ms_kill = KillSwitch_new False True False,
     ms_idem = FileBacked \<lparr>fs_seen = {}, fs_lines = [], fs_writes = 0\<rparr>,
     ms_ledger = \<lparr>l_cap = 1000, l_reserved = 0\<rparr>, ms_reads = 0, ms_polls = 0, ms_sent = [],
     ms_manifest = ()\<rparr>"

lemma ex_new: "ExecutionMotor_new ex_motor False (KillSwitch_new False True False) None ex_dirs ()
  = Inr ex_state"
  by code_simp

lemma ex_sent: "ms_sent (snd (execute ex_motor ex_world ex_attested None None ex_state)) =
  [(''ALPACA'', request_of ex_order)]"
  by code_simp
abbreviation ex_after :: "unit motor_state" where
  "ex_after \<equiv> snd (execute ex_motor ex_world ex_attested None None ex_state)"

lemma ex_reach: "motor_reach ex_after"
  using motor_reach.step [OF motor_reach.start [OF ex_new],
      of "Execute ex_motor ex_world ex_attested None None"] by simp

section \<open>Submission\<close>

text \<open>
  C1: An execution reaches a broker only when every control let it through, and then with exactly
  one request, built from the attested order: neither poll of the kill switch demanded a halt, the
  order id is the signal id, the attestation verified, shorting was permitted, the order was fresh,
  its worst-case notional was determinable and within the per-order cap, an eligible configured
  venue was routed, the signal was never claimed before, the session ledger accepted the notional
  and the release check passed.
\<close>

theorem submission_is_authorised:
  fixes s :: "'m motor_state" and m w a ref chk
  defines "t \<equiv> snd (execute m w a ref chk s)"
  assumes "ms_sent t \<noteq> ms_sent s"
  shows "\<exists>v n. ms_sent t = ms_sent s @ [(v, request_of (ao_order a))]
     \<and> submission_gate m w a (w_clock w (ms_reads s)) chk (snd (ms_clock w s)) v n
     \<and> v \<in> set (m_venues m) \<and> 0 < n \<and> n \<le> mc_max_order_notional (m_config m)
     \<and> dadd (l_reserved (ms_ledger s)) n \<le> l_cap (ms_ledger s)"
proof -
  from assms execute_outcome [of s m w a ref chk] obtain v n where
    sent: "ms_sent t = ms_sent s @ [(v, request_of (ao_order a))]" and
    gate: "submission_gate m w a (w_clock w (ms_reads s)) chk (snd (ms_clock w s)) v n"
    unfolding t_def by blast
  from gate obtain stats d where "route (m_router m) (ao_order a) (sort (m_venues m)) stats
      (w_clock w (ms_reads s)) = Inr d" "rd_venue d = Some v"
    by (auto simp: submission_gate_def routed_def rbind_eq_Inr)
  then have "v \<in> set (m_venues m)" using route_chosen by force
  moreover have "0 < n \<and> dadd (l_reserved (ms_ledger s)) n \<le> l_cap (ms_ledger s)"
    using gate by (auto simp: submission_gate_def ms_clock_def try_reserve_def split: if_splits)
  moreover have "n \<le> mc_max_order_notional (m_config m)"
    using gate by (simp add: submission_gate_def cleared_def)
  ultimately show ?thesis using sent gate by blast
qed

theorem submission_is_authorised_witness:
  "\<exists>v n. ms_sent ex_after = ms_sent ex_state @ [(v, request_of (ao_order ex_attested))]
     \<and> submission_gate ex_motor ex_world ex_attested (w_clock ex_world (ms_reads ex_state)) None
         (snd (ms_clock ex_world ex_state)) v n
     \<and> v \<in> set (m_venues ex_motor) \<and> 0 < n \<and> n \<le> mc_max_order_notional (m_config ex_motor)
     \<and> dadd (l_reserved (ms_ledger ex_state)) n \<le> l_cap (ms_ledger ex_state)"
proof (rule submission_is_authorised)
  show "ms_sent ex_after \<noteq> ms_sent ex_state" unfolding ex_sent by (simp add: ex_state_def)
qed

text \<open>
  C2: No signal is ever submitted twice. In every state a motor can reach by executions (in any
  environment, with any verifier, disk, broker or release check), operator halts and resumes, and
  restarts over the claims file, the client order ids sent to brokers are pairwise distinct.
\<close>

theorem at_most_once:
  assumes "motor_reach s"
  shows "distinct (sent_ids s)"
  using motor_reach_inv [OF assms] by (simp add: motor_inv_def)

theorem at_most_once_witness:
  "motor_reach ex_after \<and> sent_ids ex_after = [''sig-1''] \<and> distinct (sent_ids ex_after)"
  using ex_reach at_most_once [OF ex_reach]
  by (simp add: sent_ids_def ex_sent request_of_def client_order_id_def ex_order_def)

text \<open>
  C12: The session ledger never exceeds its cap and never goes negative, in every reachable state,
  although sums are rounded to 28 digits and reservations are released after rejections.
\<close>

theorem session_cap_respected:
  assumes "motor_reach s"
  shows "0 \<le> l_reserved (ms_ledger s) \<and> l_reserved (ms_ledger s) \<le> l_cap (ms_ledger s)"
  using motor_reach_inv [OF assms] by (simp add: motor_inv_def ledger_inv_def)

theorem session_cap_respected_witness:
  "l_reserved (ms_ledger ex_after) = 200
     \<and> 0 \<le> l_reserved (ms_ledger ex_after) \<and> l_reserved (ms_ledger ex_after) \<le> l_cap (ms_ledger ex_after)"
proof -
  have "l_reserved (ms_ledger ex_after) = 200" by code_simp
  then show ?thesis using session_cap_respected [OF ex_reach] by simp
qed

text \<open>
  C11: A halted motor stays halted and submits nothing, through any sequence of executions, further
  halts and resume attempts, until a resume names an operator while the external signal is clear.
\<close>

theorem halted_motor_never_submits:
  assumes "ks_halted (ms_kill s)" "unresumed s opers"
  shows "ms_sent (foldl motor_step s opers) = ms_sent s
     \<and> ks_halted (ms_kill (foldl motor_step s opers))"
  using halted_run [OF assms] .

abbreviation ex_halted :: "unit motor_state" where
  "ex_halted \<equiv> ms_halt ''operator'' ex_state"

theorem halted_motor_never_submits_witness:
  "ms_sent (foldl motor_step ex_halted
      [Resume ''  '' (Inr False), Resume ''ann'' (Inr True),
       Execute ex_motor ex_world ex_attested None None]) = ms_sent ex_halted
   \<and> ks_halted (ms_kill (foldl motor_step ex_halted
      [Resume ''  '' (Inr False), Resume ''ann'' (Inr True),
       Execute ex_motor ex_world ex_attested None None]))"
proof (rule halted_motor_never_submits)
  show "ks_halted (ms_kill ex_halted)" by simp
  show "unresumed ex_halted [Resume ''  '' (Inr False), Resume ''ann'' (Inr True),
       Execute ex_motor ex_world ex_attested None None]" by code_simp
qed



text \<open>
  A production motor that could be constructed keeps its claims in a file, refuses a verifier
  that accepts development keys, starts with an empty ledger bounded by the configured session cap,
  and has sent nothing.
\<close>

theorem production_motor_is_persistent:
  assumes "ExecutionMotor_new m dev ks injected dirs mst = Inr s" "is_production (m_config m)"
  shows "\<not> dev \<and> (\<exists>fs. ms_idem s = FileBacked fs) \<and> ms_sent s = []
     \<and> l_cap (ms_ledger s) = mc_max_session_notional (m_config m) \<and> ledger_inv (ms_ledger s)"
proof -
  note new = ExecutionMotor_new_Inr [OF assms(1)]
  have "resolve_idempotency (m_config m) injected dirs = Inr (ms_idem s)" using new by simp
  then have "\<exists>fs. ms_idem s = FileBacked fs"
    using assms(2) by (auto simp: resolve_idempotency_def rbind_eq_Inr
        split: option.splits idem_store.splits intro: sym)
  then show ?thesis using new assms(2) by simp
qed

theorem production_motor_is_persistent_witness:
  "is_production (m_config ex_motor) \<and> (\<exists>fs. ms_idem ex_state = FileBacked fs) \<and> ms_sent ex_state = []
     \<and> l_cap (ms_ledger ex_state) = mc_max_session_notional (m_config ex_motor)"
proof -
  have "is_production (m_config ex_motor)" by code_simp
  then show ?thesis using production_motor_is_persistent [OF ex_new] by simp
qed

end
