(* ===== verification/Sharp.thy ===== *)
theory Sharp
  imports Prelude
begin

text \<open>
  The SHARP promotion gate (\<open>zone-c/sharp-gate/afe_sharp\<close>: \<open>models.py\<close>, \<open>gate.py\<close>,
  \<open>ports.py\<close>, \<open>memory_store.py\<close>, \<open>errors.py\<close>): a proposal climbs six stages, each signed
  by a different authorised person who is not the proposer; every transition is written to the
  audit log first and to the proposal store second; \<open>fold\<close> rebuilds the record from the stored
  history and re-verifies all of it.

  Parameters: \<open>canon\<close> is the Unicode part of \<open>normalise_identity\<close> (NFKC, strip, casefold); the
  record \<open>gate_world\<close> says, for the n-th call, whether the audit sink, the store or the audit
  lookup fails, before or after having had its effect, and gives the clock, the authorizer and the
  hash the sink computes. Nothing is assumed about them. \<open>detail_json\<close> is represented by what
  \<open>json.loads\<close> makes of it (\<open>None\<close>: not JSON) and a timestamp by the instant it denotes; error
  messages are not modelled.
\<close>

section \<open>Errors and stages\<close>

datatype sharp_error =
  ProposalValidationError | UnknownProposalError | DuplicateProposalError | ProposalClosedError
| StageSkipError | SelfApprovalError | DistinctApproverError | NotAuthorizedError
| ConcurrencyError | StoreError | AuditFailureError | AbortNotRecordedError "int option"
| OtherException pystr

datatype sharp_stage =
  DRAFT | COMPLIANCE | LEGAL | BACKTEST | RISK | CANARY | PROMOTED | REJECTED

definition PIPELINE :: "sharp_stage list" where
  "PIPELINE = [DRAFT, COMPLIANCE, LEGAL, BACKTEST, RISK, CANARY, PROMOTED]"

definition TERMINAL :: "sharp_stage \<Rightarrow> bool" where
  "TERMINAL st \<longleftrightarrow> st = PROMOTED \<or> st = REJECTED"

definition MAX_TEXT :: nat where
  "MAX_TEXT = 20000"

text \<open>\<open>xs.index(x)\<close>, for an element that occurs.\<close>

fun index_of :: "'a \<Rightarrow> 'a list \<Rightarrow> nat" where
  "index_of x [] = 0"
| "index_of x (y # ys) = (if x = y then 0 else Suc (index_of x ys))"

text \<open>\<open>PIPELINE[PIPELINE.index(state) + 1]\<close>, only evaluated for non-terminal states.\<close>

definition succ_stage :: "sharp_stage \<Rightarrow> sharp_stage" where
  "succ_stage st = PIPELINE ! (index_of st PIPELINE + 1)"

section \<open>Proposals\<close>

definition NUL :: char where
  "NUL = CHR 0x00"

definition normalise_identity :: "(pystr \<Rightarrow> pystr) \<Rightarrow> pystr \<Rightarrow> sharp_error + pystr" where
  "normalise_identity canon i =
     (if py_strip i = [] then Inl ProposalValidationError
      else if NUL \<in> set i then Inl ProposalValidationError
      else Inr (canon i))"

definition text_ok :: "pystr \<Rightarrow> bool" where
  "text_ok v \<longleftrightarrow> py_strip v \<noteq> [] \<and> length v \<le> MAX_TEXT \<and> NUL \<notin> set v"

text \<open>The same test over \<open>int\<close>, so that evaluation works on binary numerals.\<close>

lemma text_ok_code [code]:
  "text_ok v \<longleftrightarrow> py_strip v \<noteq> [] \<and> int (length v) \<le> 20000 \<and> NUL \<notin> set v"
  by (simp add: text_ok_def MAX_TEXT_def)

record proposal =
  pr_proposal_id :: pystr
  pr_proposer_id :: pystr
  pr_description :: pystr
  pr_proposed_change :: pystr
  pr_rationale :: pystr
  pr_evidence_refs :: "pystr list"

definition RubricChangeProposal_new :: "(pystr \<Rightarrow> pystr) \<Rightarrow> proposal \<Rightarrow> sharp_error + proposal" where
  "RubricChangeProposal_new canon p =
     rbind (guard (text_ok (pr_proposal_id p)) ProposalValidationError) (\<lambda>_.
     rbind (normalise_identity canon (pr_proposer_id p)) (\<lambda>_.
     rbind (guard (text_ok (pr_description p)) ProposalValidationError) (\<lambda>_.
     rbind (guard (text_ok (pr_proposed_change p)) ProposalValidationError) (\<lambda>_.
     rbind (guard (text_ok (pr_rationale p)) ProposalValidationError) (\<lambda>_.
     rbind (guard (pr_evidence_refs p \<noteq> []) ProposalValidationError) (\<lambda>_.
     rbind (guard (list_all text_ok (pr_evidence_refs p)) ProposalValidationError) (\<lambda>_.
     Inr p)))))))"

text \<open>\<open>data.get(k)\<close> as a truthy string, and \<open>data[k]\<close>, over the reflector's string fields.\<close>

definition truthy :: "pystr option \<Rightarrow> bool" where
  "truthy v \<longleftrightarrow> (case v of None \<Rightarrow> False | Some s \<Rightarrow> s \<noteq> [])"

definition field :: "(pystr \<rightharpoonup> pystr) \<Rightarrow> pystr \<Rightarrow> sharp_error + pystr" where
  "field data k = (case data k of None \<Rightarrow> Inl ProposalValidationError | Some v \<Rightarrow> Inr v)"

definition from_reflector ::
  "(pystr \<Rightarrow> pystr) \<Rightarrow> (pystr \<rightharpoonup> pystr) \<Rightarrow> pystr list \<Rightarrow> pystr \<Rightarrow> sharp_error + proposal" where
  "from_reflector canon data evidence proposer =
     (let refs = evidence @ (if truthy (data ''trigger_signal_id'')
                  then [''signal:'' @ the (data ''trigger_signal_id'')] else [])
      in rbind (field data ''proposal_id'') (\<lambda>pid.
         rbind (if truthy (data ''description'') then field data ''description''
                else field data ''observed_underperformance'') (\<lambda>desc.
         rbind (field data ''proposed_change'') (\<lambda>chg.
         rbind (field data ''rationale'') (\<lambda>rat.
         RubricChangeProposal_new canon
           \<lparr>pr_proposal_id = pid, pr_proposer_id = proposer, pr_description = desc,
            pr_proposed_change = chg, pr_rationale = rat, pr_evidence_refs = refs\<rparr>)))))"

definition to_detail :: "proposal \<Rightarrow> json" where
  "to_detail p =
     JObj [(''description'', JStr (pr_description p)),
           (''evidence_refs'', JArr (map JStr (pr_evidence_refs p))),
           (''proposal_id'', JStr (pr_proposal_id p)),
           (''proposed_change'', JStr (pr_proposed_change p)),
           (''proposer_id'', JStr (pr_proposer_id p)),
           (''rationale'', JStr (pr_rationale p))]"

section \<open>Transitions, audit entries, records\<close>

record transition_event =
  te_proposal_id :: pystr
  te_version :: nat
  te_kind :: pystr
  te_from :: "sharp_stage option"
  te_to :: sharp_stage
  te_actor :: pystr
  te_occurred_at :: int
  te_detail :: "json option"
  te_audit_seq :: "int option"
  te_audit_hash :: "pystr option"

record tpayload =
  tp_proposal_id :: pystr
  tp_version :: nat
  tp_kind :: pystr
  tp_from :: "sharp_stage option"
  tp_to :: sharp_stage
  tp_occurred_at :: int
  tp_detail :: json

datatype payload =
  Transition tpayload
| Aborted tpayload "int option" "pystr option" pystr pystr
| Foreign json

record audit_entry =
  ae_seq :: int
  ae_hash :: pystr
  ae_event_type :: pystr
  ae_actor :: pystr
  ae_payload :: payload

definition transition_payload :: "transition_event \<Rightarrow> sharp_error + tpayload" where
  "transition_payload e =
     (case te_detail e of
        None \<Rightarrow> Inl (OtherException ''JSONDecodeError'')
      | Some d \<Rightarrow>
          Inr \<lparr>tp_proposal_id = te_proposal_id e, tp_version = te_version e, tp_kind = te_kind e,
               tp_from = te_from e, tp_to = te_to e, tp_occurred_at = te_occurred_at e,
               tp_detail = d\<rparr>)"

text \<open>\<open>note\<close> is the JSON value that the code passes through \<open>str\<close>.\<close>

record approval =
  ap_stage :: sharp_stage
  ap_approver_id :: pystr
  ap_occurred_at :: int
  ap_evidence_refs :: "json list"
  ap_note :: json

record proposal_record =
  rec_proposal :: proposal
  rec_state :: sharp_stage
  rec_version :: nat
  rec_approvals :: "approval list"
  rec_rejected_by :: "pystr option"
  rec_rejection_reason :: "pystr option"

definition next_stage :: "proposal_record \<Rightarrow> sharp_stage option" where
  "next_stage r = (if TERMINAL (rec_state r) then None else Some (succ_stage (rec_state r)))"

definition is_terminal :: "proposal_record \<Rightarrow> bool" where
  "is_terminal r = TERMINAL (rec_state r)"

section \<open>Rebuilding a record from its history\<close>

definition stored_detail :: "transition_event \<Rightarrow> sharp_error + (pystr \<rightharpoonup> json)" where
  "stored_detail e =
     (case te_detail e of Some (JObj kvs) \<Rightarrow> Inr (map_of kvs) | _ \<Rightarrow> Inl StoreError)"

definition stored_identity :: "(pystr \<Rightarrow> pystr) \<Rightarrow> transition_event \<Rightarrow> sharp_error + pystr" where
  "stored_identity canon e =
     (case normalise_identity canon (te_actor e) of Inl _ \<Rightarrow> Inl StoreError | Inr who \<Rightarrow> Inr who)"

definition proposal_keys :: "pystr set" where
  "proposal_keys = {''description'', ''evidence_refs'', ''proposal_id'', ''proposed_change'',
     ''proposer_id'', ''rationale''}"

text \<open>A constructor argument that must be a string: every other type fails validation.\<close>

definition str_arg :: "(pystr \<rightharpoonup> json) \<Rightarrow> pystr \<Rightarrow> sharp_error + pystr" where
  "str_arg d k =
     (case d k of Some v \<Rightarrow> (case json_str v of Some s \<Rightarrow> Inr s | None \<Rightarrow> Inl StoreError)
      | None \<Rightarrow> Inl StoreError)"

definition stored_proposal ::
  "(pystr \<Rightarrow> pystr) \<Rightarrow> transition_event \<Rightarrow> sharp_error + proposal" where
  "stored_proposal canon e =
     (case te_detail e of
        Some (JObj kvs) \<Rightarrow>
          let d = map_of kvs
          in rbind (case d ''evidence_refs'' of None \<Rightarrow> Inl StoreError
               | Some v \<Rightarrow> (case json_tuple v of None \<Rightarrow> Inl StoreError
                    | Some xs \<Rightarrow> Inr xs)) (\<lambda>xs.
             rbind (guard (set (map fst kvs) = proposal_keys) StoreError) (\<lambda>_.
             rbind (str_arg d ''proposal_id'') (\<lambda>pid.
             rbind (str_arg d ''proposer_id'') (\<lambda>who.
             rbind (str_arg d ''description'') (\<lambda>desc.
             rbind (str_arg d ''proposed_change'') (\<lambda>chg.
             rbind (str_arg d ''rationale'') (\<lambda>rat.
             rbind (guard (list_all (\<lambda>x. json_str x \<noteq> None) xs) StoreError) (\<lambda>_.
             rbind (case RubricChangeProposal_new canon
                 \<lparr>pr_proposal_id = pid, pr_proposer_id = who, pr_description = desc,
                  pr_proposed_change = chg, pr_rationale = rat,
                  pr_evidence_refs = map (\<lambda>x. the (json_str x)) xs\<rparr>
               of Inl _ \<Rightarrow> Inl StoreError | Inr p \<Rightarrow> Inr p) (\<lambda>p.
             rbind (guard (te_actor e = pr_proposer_id p) StoreError) (\<lambda>_.
             Inr p))))))))))
      | _ \<Rightarrow> Inl StoreError)"

definition approval_of :: "transition_event \<Rightarrow> sharp_error + approval" where
  "approval_of e =
     rbind (stored_detail e) (\<lambda>d.
     rbind (case d ''evidence_refs'' of None \<Rightarrow> Inr []
       | Some v \<Rightarrow> (case json_tuple v of None \<Rightarrow> Inl (OtherException ''TypeError'')
            | Some xs \<Rightarrow> Inr xs)) (\<lambda>refs.
     Inr \<lparr>ap_stage = te_to e, ap_approver_id = te_actor e, ap_occurred_at = te_occurred_at e,
          ap_evidence_refs = refs,
          ap_note = (case d ''note'' of None \<Rightarrow> JStr [] | Some v \<Rightarrow> v)\<rparr>))"

definition stored_reason :: "transition_event \<Rightarrow> sharp_error + pystr" where
  "stored_reason e =
     rbind (stored_detail e) (\<lambda>d.
       case d ''reason'' of
         Some (JStr r) \<Rightarrow> if py_strip r = [] then Inl StoreError else Inr r
       | _ \<Rightarrow> Inl StoreError)"

record fold_state =
  fd_state :: sharp_stage
  fd_approvals :: "approval list"
  fd_signers :: "pystr list"
  fd_rejected_by :: "pystr option"
  fd_reason :: "pystr option"

definition fold_init :: fold_state where
  "fold_init = \<lparr>fd_state = DRAFT, fd_approvals = [], fd_signers = [], fd_rejected_by = None,
     fd_reason = None\<rparr>"

text \<open>One iteration of the loop of \<open>fold\<close>, with its index counted from 1.\<close>

definition fold_event ::
  "(pystr \<Rightarrow> pystr) \<Rightarrow> pystr \<Rightarrow> pystr \<Rightarrow> nat \<Rightarrow> fold_state \<Rightarrow> transition_event
     \<Rightarrow> sharp_error + fold_state" where
  "fold_event canon pid submitter index st e =
     (if te_version e \<noteq> index \<or> te_proposal_id e \<noteq> pid then Inl StoreError
      else if index = 1
      then if te_to e \<noteq> DRAFT \<or> te_from e \<noteq> None then Inl StoreError else Inr st
      else if TERMINAL (fd_state st) \<or> te_from e \<noteq> Some (fd_state st) then Inl StoreError
      else if te_kind e = ''approved''
      then if succ_stage (fd_state st) \<noteq> te_to e then Inl StoreError
           else rbind (stored_identity canon e) (\<lambda>who.
                if who = submitter then Inl StoreError
                else if who \<in> set (fd_signers st) then Inl StoreError
                else rbind (approval_of e) (\<lambda>a.
                     Inr (st\<lparr>fd_state := te_to e, fd_approvals := fd_approvals st @ [a],
                             fd_signers := fd_signers st @ [who]\<rparr>)))
      else if te_kind e = ''rejected'' \<and> te_to e = REJECTED
      then rbind (stored_identity canon e) (\<lambda>_.
           rbind (stored_reason e) (\<lambda>r.
           Inr (st\<lparr>fd_state := te_to e, fd_rejected_by := Some (te_actor e), fd_reason := Some r\<rparr>)))
      else Inl StoreError)"

fun fold_loop ::
  "(pystr \<Rightarrow> pystr) \<Rightarrow> pystr \<Rightarrow> pystr \<Rightarrow> nat \<Rightarrow> fold_state \<Rightarrow> transition_event list
     \<Rightarrow> sharp_error + fold_state" where
  "fold_loop canon pid submitter index st [] = Inr st"
| "fold_loop canon pid submitter index st (e # es) =
     rbind (fold_event canon pid submitter index st e)
       (\<lambda>st'. fold_loop canon pid submitter (Suc index) st' es)"

text \<open>The audit log as the lookup answers it; \<open>Inl\<close> when it cannot answer.\<close>

type_synonym audit_lookup = "int list \<Rightarrow> sharp_error + (int \<rightharpoonup> audit_entry)"

definition entry_matches :: "audit_entry \<Rightarrow> transition_event \<Rightarrow> sharp_error + bool" where
  "entry_matches entry e =
     (if Some (ae_hash entry) \<noteq> te_audit_hash e \<or> ae_event_type entry \<noteq> ''sharp.'' @ te_kind e
         \<or> ae_actor entry \<noteq> te_actor e
      then Inr False
      else rbind (transition_payload e) (\<lambda>tp. Inr (ae_payload entry = Transition tp)))"

fun check_entries ::
  "(int \<rightharpoonup> audit_entry) \<Rightarrow> transition_event list \<Rightarrow> sharp_error + unit" where
  "check_entries found [] = Inr ()"
| "check_entries found (e # es) =
     (case found (the (te_audit_seq e)) of
        None \<Rightarrow> Inl StoreError
      | Some entry \<Rightarrow>
          rbind (entry_matches entry e) (\<lambda>ok.
            if ok then check_entries found es else Inl StoreError))"

definition verify_audit_records ::
  "audit_lookup \<Rightarrow> transition_event list \<Rightarrow> sharp_error + unit" where
  "verify_audit_records lookup es =
     (if \<not> list_all (\<lambda>e. te_audit_seq e \<noteq> None \<and> te_audit_hash e \<noteq> None) es then Inl StoreError
      else let seqs = map (\<lambda>e. the (te_audit_seq e)) es
           in if \<not> distinct seqs then Inl StoreError
              else rbind (lookup seqs) (\<lambda>found. check_entries found es))"

definition fold_history ::
  "(pystr \<Rightarrow> pystr) \<Rightarrow> audit_lookup \<Rightarrow> transition_event list \<Rightarrow> sharp_error + proposal_record" where
  "fold_history canon lookup es =
     (if es = [] \<or> te_kind (hd es) \<noteq> ''submitted'' then Inl StoreError
      else rbind (stored_proposal canon (hd es)) (\<lambda>p.
           rbind (normalise_identity canon (pr_proposer_id p)) (\<lambda>submitter.
           rbind (fold_loop canon (pr_proposal_id p) submitter 1 fold_init es) (\<lambda>st.
           rbind (verify_audit_records lookup es) (\<lambda>_.
           Inr \<lparr>rec_proposal = p, rec_state = fd_state st, rec_version = length es,
                rec_approvals = fd_approvals st, rec_rejected_by = fd_rejected_by st,
                rec_rejection_reason = fd_reason st\<rparr>)))))"
end
