(* ===== verification/Service.thy ===== *)
theory Service
  imports Motor_Lifetime Sharp
begin

text \<open>
  The order path around the motor: \<open>execution_motor/service.py\<close> (decisions and requests),
  \<open>compliance.py\<close> (the SHARP strategy gate, the manifest gate, their configuration) and
  \<open>grpc_service.py\<close> (the servicer's answers).

  A decision message is modelled by the fields these functions read; the manifest writer is a
  parameter acting on its own state, the \<open>'m\<close> of the motor's \<open>ms_manifest\<close>. A handler returns its
  result, the motor state and the reports it handed to the Aegis reporter.
\<close>

section \<open>Messages\<close>

record decision_msg =
  dm_decision :: int
  dm_signal_id :: pystr
  dm_order :: "order_msg option"
  dm_attestation :: "attestation_msg option"

record signal_msg =
  sg_signal_id :: pystr
  sg_symbol :: pystr
  sg_strategy_id :: pystr

record context_msg =
  cx_signal :: "signal_msg option"
  cx_snapshot_symbol :: "pystr option"

record request_msg =
  rq_decision :: decision_msg
  rq_context :: "context_msg option"

text \<open>An absent submessage reads as its default: empty strings.\<close>

definition msg_order_id :: "decision_msg \<Rightarrow> pystr" where
  "msg_order_id d = (case dm_order d of None \<Rightarrow> [] | Some om \<Rightarrow> om_order_id om)"

definition msg_order_signal :: "decision_msg \<Rightarrow> pystr" where
  "msg_order_signal d = (case dm_order d of None \<Rightarrow> [] | Some om \<Rightarrow> om_signal_id om)"

definition msg_order_symbol :: "decision_msg \<Rightarrow> pystr" where
  "msg_order_symbol d = (case dm_order d of None \<Rightarrow> [] | Some om \<Rightarrow> om_symbol om)"

section \<open>Compliance gates\<close>

record context_refusal =
  cr_reason :: reject_reason
  cr_detail :: pystr

definition bind_context :: "decision_msg \<Rightarrow> context_msg \<Rightarrow> context_refusal option" where
  "bind_context d cx =
     (case (cx_signal cx, cx_snapshot_symbol cx) of
        (Some sg, Some snap) \<Rightarrow>
          if sg_signal_id sg = [] \<or> sg_signal_id sg \<noteq> dm_signal_id d
             \<or> dm_signal_id d \<noteq> msg_order_signal d
          then Some \<lparr>cr_reason = CONTEXT_MISMATCH, cr_detail = ''signal_id differs from decision''\<rparr>
          else if sg_symbol sg \<noteq> msg_order_symbol d \<or> msg_order_symbol d \<noteq> snap
          then Some \<lparr>cr_reason = CONTEXT_MISMATCH, cr_detail = ''symbol differs from decision''\<rparr>
          else if py_strip (sg_strategy_id sg) = []
          then Some \<lparr>cr_reason = CONTEXT_MISMATCH, cr_detail = ''signal has no strategy_id''\<rparr>
          else None
      | _ \<Rightarrow> Some \<lparr>cr_reason = CONTEXT_MISSING, cr_detail = ''context lacks signal or snapshot''\<rparr>)"

type_synonym 'm manifest_writer = "decision_msg \<Rightarrow> context_msg \<Rightarrow> 'm \<Rightarrow> (exc + pystr) \<times> 'm"

record 'm compliance_gates =
  cg_manifest :: "'m manifest_writer option"
  cg_strategy_gate :: "(pystr \<Rightarrow> pystr option) option"

definition DISABLED :: "'m compliance_gates" where
  "DISABLED = \<lparr>cg_manifest = None, cg_strategy_gate = None\<rparr>"

definition requires_context :: "'m compliance_gates \<Rightarrow> bool" where
  "requires_context g \<longleftrightarrow> cg_manifest g \<noteq> None \<or> cg_strategy_gate g \<noteq> None"

definition strategy_of :: "context_msg \<Rightarrow> pystr" where
  "strategy_of cx = (case cx_signal cx of None \<Rightarrow> [] | Some sg \<Rightarrow> sg_strategy_id sg)"

definition check_strategy :: "'m compliance_gates \<Rightarrow> context_msg \<Rightarrow> pystr option" where
  "check_strategy g cx =
     (case cg_strategy_gate g of None \<Rightarrow> None | Some check \<Rightarrow> check (strategy_of cx))"

definition short_exc :: "exc \<Rightarrow> pystr" where
  "short_exc e = take 200 (exc_name e @ '': '' @ exc_str e)"

definition gates_release_check ::
  "'m compliance_gates \<Rightarrow> decision_msg \<Rightarrow> context_msg \<Rightarrow> 'm release_check" where
  "gates_release_check g d cx =
     (case cg_manifest g of
        None \<Rightarrow> None
      | Some writer \<Rightarrow> Some (\<lambda>mst.
          case writer d cx mst of
            (Inl e, mst') \<Rightarrow> (Some (''manifest not stored: '' @ short_exc e), mst')
          | (Inr digest, mst') \<Rightarrow> (None, mst')))"

text \<open>
  \<open>SharpStrategyGate.check\<close>; the store and the audit lookup are those of the SHARP gate. Of the
  refusal texts only the fixed words are modelled, not the identifiers they quote.
\<close>

fun stage_value :: "sharp_stage \<Rightarrow> pystr" where
  "stage_value DRAFT = ''DRAFT''"
| "stage_value COMPLIANCE = ''COMPLIANCE''"
| "stage_value LEGAL = ''LEGAL''"
| "stage_value BACKTEST = ''BACKTEST''"
| "stage_value RISK = ''RISK''"
| "stage_value CANARY = ''CANARY''"
| "stage_value PROMOTED = ''PROMOTED''"
| "stage_value sharp_stage.REJECTED = ''REJECTED''"

definition sharp_gate_check ::
  "(pystr \<rightharpoonup> pystr) \<Rightarrow> (pystr \<Rightarrow> pystr) \<Rightarrow> (pystr \<Rightarrow> sharp_error + transition_event list)
     \<Rightarrow> audit_lookup \<Rightarrow> pystr list \<Rightarrow> pystr \<Rightarrow> pystr option" where
  "sharp_gate_check strategies canon load lookup allowed strategy_id =
     (case strategies strategy_id of
        None \<Rightarrow> Some (''strategy has no SHARP proposal mapping'')
      | Some pid \<Rightarrow>
          (case load pid of
             Inl e \<Rightarrow> Some (''SHARP state unverifiable'')
           | Inr [] \<Rightarrow> Some (''SHARP proposal does not exist'')
           | Inr history \<Rightarrow>
               (case fold_history canon lookup history of
                  Inl e \<Rightarrow> Some (''SHARP state unverifiable'')
                | Inr r \<Rightarrow>
                    if stage_value (rec_state r) \<in> set allowed then None
                    else Some (''SHARP proposal is '' @ stage_value (rec_state r)))))"

text \<open>\<open>load_strategy_map\<close>; the file is represented by what reading and parsing it gives.\<close>

definition load_strategy_map :: "exc + json \<Rightarrow> exc + (pystr \<times> pystr) list" where
  "load_strategy_map raw =
     (case raw of
        Inl e \<Rightarrow> Inl (ConfigError ''cannot read SHARP strategy map'')
      | Inr (JObj kvs) \<Rightarrow>
          if kvs = [] then Inl (ConfigError ''SHARP strategy map must be a non-empty JSON object'')
          else if list_all (\<lambda>(k, v). py_strip k \<noteq> []
                 \<and> (case json_str v of None \<Rightarrow> False | Some t \<Rightarrow> py_strip t \<noteq> [])) kvs
          then Inr (map (\<lambda>(k, v). (k, the (json_str v))) kvs)
          else Inl (ConfigError ''SHARP strategy map keys and values must be non-empty strings'')
      | Inr _ \<Rightarrow> Inl (ConfigError ''SHARP strategy map must be a non-empty JSON object''))"

record compliance_config =
  cc_manifest_dir :: "pystr option"
  cc_strategy_map_file :: "pystr option"
  cc_allow_canary :: bool
  cc_audit_actor :: pystr

definition env_get :: "env \<Rightarrow> pystr \<Rightarrow> pystr \<Rightarrow> pystr" where
  "env_get env name dflt = (case env name of None \<Rightarrow> dflt | Some v \<Rightarrow> v)"

definition is_true :: "env \<Rightarrow> pystr \<Rightarrow> bool" where
  "is_true env name \<longleftrightarrow> py_lower (py_strip (env_get env name [])) \<in> {''1'', ''true'', ''yes''}"

definition required_path :: "env \<Rightarrow> pystr \<Rightarrow> exc + pystr" where
  "required_path env name =
     (let v = py_strip (env_get env name [])
      in if v = [] then Inl (ConfigError (name @ '' is required (or disable the gate outside production)''))
         else Inr v)"

definition ComplianceConfig_from_env :: "env \<Rightarrow> bool \<Rightarrow> exc + compliance_config" where
  "ComplianceConfig_from_env env production =
     (let manifest_off = is_true env ''MOTOR_MANIFEST_DISABLED'';
          sharp_off = is_true env ''MOTOR_SHARP_DISABLED'';
          stripped = py_strip (env_get env ''MOTOR_AUDIT_ACTOR'' ''execution-motor'')
      in if production \<and> (manifest_off \<or> sharp_off)
         then Inl (ConfigError
                ''MOTOR_MANIFEST_DISABLED / MOTOR_SHARP_DISABLED are refused in production'')
         else rbind (if manifest_off then Inr None
                     else rbind (required_path env ''MOTOR_MANIFEST_DIR'') (\<lambda>p. Inr (Some p))) (\<lambda>dir.
              rbind (if sharp_off then Inr None
                     else rbind (required_path env ''MOTOR_SHARP_STRATEGY_MAP'') (\<lambda>p. Inr (Some p))) (\<lambda>map_file.
              Inr \<lparr>cc_manifest_dir = dir, cc_strategy_map_file = map_file,
                   cc_allow_canary = is_true env ''MOTOR_SHARP_ALLOW_CANARY'',
                   cc_audit_actor = (if stripped = [] then ''execution-motor'' else stripped)\<rparr>)))"

definition needs_audit_db :: "compliance_config \<Rightarrow> bool" where
  "needs_audit_db c \<longleftrightarrow> cc_manifest_dir c \<noteq> None \<or> cc_strategy_map_file c \<noteq> None"

text \<open>
  \<open>build_compliance\<close>: \<open>writer\<close> is the manifest writer over the store of a directory, \<open>maps\<close> the
  contents of a strategy map file, \<open>load\<close> and \<open>lookup\<close> the database ports.
\<close>

definition build_compliance ::
  "compliance_config \<Rightarrow> (pystr \<Rightarrow> 'm manifest_writer) \<Rightarrow> (pystr \<Rightarrow> exc + json) \<Rightarrow> (pystr \<Rightarrow> pystr)
     \<Rightarrow> (pystr \<Rightarrow> sharp_error + transition_event list) \<Rightarrow> audit_lookup
     \<Rightarrow> exc + 'm compliance_gates" where
  "build_compliance c writer maps canon load lookup =
     (if \<not> needs_audit_db c then Inr DISABLED
      else rbind (case cc_strategy_map_file c of
             None \<Rightarrow> Inr None
           | Some f \<Rightarrow> rbind (load_strategy_map (maps f)) (\<lambda>strategies.
               Inr (Some (sharp_gate_check (map_of strategies) canon load lookup
                 (if cc_allow_canary c then [''PROMOTED'', ''CANARY''] else [''PROMOTED'']))))) (\<lambda>gate.
           Inr \<lparr>cg_manifest = (case cc_manifest_dir c of None \<Rightarrow> None | Some d \<Rightarrow> Some (writer d)),
                cg_strategy_gate = gate\<rparr>))"

section \<open>Handling decisions\<close>

definition str_or :: "pystr \<Rightarrow> pystr \<Rightarrow> pystr" where
  "str_or a b = (if a = [] then b else a)"

definition invalid_report :: "decision_msg \<Rightarrow> pystr \<Rightarrow> ns \<Rightarrow> reject_reason \<Rightarrow> exc + exec_report" where
  "invalid_report d detail now reason =
     ExecutionReport_new
       \<lparr>r_order_id = str_or (msg_order_id d) ''unknown'',
        r_client_order_id = str_or (msg_order_id d) ''unknown'',
        r_signal_id = str_or (str_or (dm_signal_id d) (msg_order_signal d)) ''unknown'',
        r_symbol = str_or (msg_order_symbol d) ''unknown'', r_side = None,
        r_status = exec_status.REJECTED, r_requested_quantity = 0, r_reject_reason = Some reason,
        r_reject_detail = take 300 detail, r_broker_order_id = None, r_venue = None, r_fills = [],
        r_arrival_price = None, r_received_at_ns = now, r_submitted_at_ns = None,
        r_updated_at_ns = now\<rparr> None"

definition reached_broker :: "exec_report \<Rightarrow> bool" where
  "reached_broker r \<longleftrightarrow>
     r_status r \<noteq> exec_status.REJECTED \<or> r_reject_reason r = Some BROKER_REJECTED"

text \<open>\<open>_attested\<close>: the attested order, or the refusal report (the left component).\<close>

definition attested_of :: "motor \<Rightarrow> decision_msg \<Rightarrow> ns \<Rightarrow> exc + (exec_report + attested_order)" where
  "attested_of m d now =
     (if dm_decision d \<noteq> 1
      then rbind (invalid_report d ''decision is not APPROVED'' now INVALID_ORDER) (\<lambda>r. Inr (Inl r))
      else case (dm_order d, dm_attestation d) of
        (Some om, Some am) \<Rightarrow>
          (case attested_order_from_proto (m_sha m) om am (mc_allow_short_selling (m_config m)) of
             Inr ao \<Rightarrow> Inr (Inr ao)
           | Inl e \<Rightarrow>
               if exc_name e = ''OrderValidationError''
               then rbind (invalid_report d (exc_str e) now INVALID_ORDER) (\<lambda>r. Inr (Inl r))
               else Inl e)
      | _ \<Rightarrow> rbind (invalid_report d ''APPROVED decision lacks order or attestation'' now INVALID_ORDER)
               (\<lambda>r. Inr (Inl r)))"

type_synonym 'm handled = "(exc + exec_report) \<times> 'm motor_state \<times> exec_report list"

definition execute_and_report ::
  "motor \<Rightarrow> world \<Rightarrow> attested_order \<Rightarrow> dec option \<Rightarrow> bool \<Rightarrow> 'm release_check \<Rightarrow> 'm motor_state
     \<Rightarrow> 'm handled" where
  "execute_and_report m w ao ref has_reporter chk s =
     (case execute m w ao ref chk s of
        (Inl e, s') \<Rightarrow> (Inl e, s', [])
      | (Inr r, s') \<Rightarrow> (Inr r, s', if has_reporter \<and> reached_broker r then [r] else []))"

definition handle_decision ::
  "motor \<Rightarrow> world \<Rightarrow> decision_msg \<Rightarrow> ns \<Rightarrow> dec option \<Rightarrow> bool \<Rightarrow> 'm compliance_gates
     \<Rightarrow> 'm motor_state \<Rightarrow> 'm handled" where
  "handle_decision m w d now ref has_reporter g s =
     (if requires_context g
      then (invalid_report d ''compliance is enforced: use ExecuteWithContext'' now CONTEXT_MISSING,
            s, [])
      else case attested_of m d now of
        Inl e \<Rightarrow> (Inl e, s, [])
      | Inr (Inl r) \<Rightarrow> (Inr r, s, [])
      | Inr (Inr ao) \<Rightarrow> execute_and_report m w ao ref has_reporter None s)"

definition handle_request ::
  "motor \<Rightarrow> world \<Rightarrow> request_msg \<Rightarrow> ns \<Rightarrow> 'm compliance_gates \<Rightarrow> dec option \<Rightarrow> bool
     \<Rightarrow> 'm motor_state \<Rightarrow> 'm handled" where
  "handle_request m w rq now g ref has_reporter s =
     (let d = rq_decision rq
      in case attested_of m d now of
        Inl e \<Rightarrow> (Inl e, s, [])
      | Inr (Inl r) \<Rightarrow> (Inr r, s, [])
      | Inr (Inr ao) \<Rightarrow>
        (case rq_context rq of
           None \<Rightarrow> (invalid_report d ''request has no context'' now CONTEXT_MISSING, s, [])
         | Some cx \<Rightarrow>
           (case bind_context d cx of
              Some rf \<Rightarrow> (invalid_report d (cr_detail rf) now (cr_reason rf), s, [])
            | None \<Rightarrow>
              (case check_strategy g cx of
                 Some blocked \<Rightarrow> (invalid_report d blocked now STRATEGY_NOT_PROMOTED, s, [])
               | None \<Rightarrow> execute_and_report m w ao ref has_reporter (gates_release_check g d cx) s))))"

section \<open>The servicer\<close>

record execute_ack =
  ack_accepted :: bool
  ack_order_id :: pystr
  ack_status :: pystr
  ack_reject_reason :: pystr
  ack_detail :: pystr

definition ack_of :: "exec_report \<Rightarrow> execute_ack" where
  "ack_of r =
     \<lparr>ack_accepted = (r_status r \<in> {ACCEPTED, PARTIALLY_FILLED, FILLED}),
      ack_order_id = r_order_id r, ack_status = exec_status_value (r_status r),
      ack_reject_reason = (case r_reject_reason r of None \<Rightarrow> [] | Some x \<Rightarrow> reject_reason_value x),
      ack_detail = r_reject_detail r\<rparr>"

definition map_fst3 :: "('a \<Rightarrow> 'b) \<Rightarrow> ('e + 'a) \<times> 's \<times> 'r \<Rightarrow> ('e + 'b) \<times> 's \<times> 'r" where
  "map_fst3 f x = (case x of (Inl e, s, r) \<Rightarrow> (Inl e, s, r) | (Inr a, s, r) \<Rightarrow> (Inr (f a), s, r))"

definition Execute_rpc ::
  "motor \<Rightarrow> world \<Rightarrow> decision_msg \<Rightarrow> bool \<Rightarrow> 'm compliance_gates \<Rightarrow> 'm motor_state
     \<Rightarrow> (exc + execute_ack) \<times> 'm motor_state \<times> exec_report list" where
  "Execute_rpc m w d has_reporter g s =
     (case ms_clock w s of (now, s') \<Rightarrow>
        map_fst3 ack_of (handle_decision m w d now None has_reporter g s'))"

definition ExecuteWithContext_rpc ::
  "motor \<Rightarrow> world \<Rightarrow> request_msg \<Rightarrow> bool \<Rightarrow> 'm compliance_gates \<Rightarrow> 'm motor_state
     \<Rightarrow> (exc + execute_ack) \<times> 'm motor_state \<times> exec_report list" where
  "ExecuteWithContext_rpc m w rq has_reporter g s =
     (case ms_clock w s of (now, s') \<Rightarrow>
        map_fst3 ack_of (handle_request m w rq now g None has_reporter s'))"

record health_status =
  hs_ok :: bool
  hs_halted :: bool
  hs_detail :: pystr

definition Health_rpc :: "world \<Rightarrow> 'm motor_state \<Rightarrow> health_status \<times> 'm motor_state" where
  "Health_rpc w s =
     (case ms_is_halted w s of (halted, s') \<Rightarrow>
        (\<lparr>hs_ok = \<not> halted, hs_halted = halted,
          hs_detail = (if halted then ks_reason (ms_kill s') else [])\<rparr>, s'))"

section \<open>What handling an order implies\<close>

lemma execute_and_report_eq:
  "execute_and_report m w ao ref rep chk s = (res, t, reps) \<Longrightarrow>
     execute m w ao ref chk s = (res, t)
     \<and> reps = (case res of Inl e \<Rightarrow> [] | Inr r \<Rightarrow> if rep \<and> reached_broker r then [r] else [])"
  by (auto simp: execute_and_report_def split: prod.splits sum.splits)

text \<open>A handler either refuses without touching the motor, or runs the motor on the attested order.\<close>

lemma handle_request_cases:
  assumes "handle_request m w rq now g ref rep s = (res, t, reps)"
  obtains (refused) "t = s" "reps = []"
  | (ran) ao cx where "attested_of m (rq_decision rq) now = Inr (Inr ao)" "rq_context rq = Some cx"
      "bind_context (rq_decision rq) cx = None" "check_strategy g cx = None"
      "execute_and_report m w ao ref rep (gates_release_check g (rq_decision rq) cx) s = (res, t, reps)"
  using assms
  by (auto simp: handle_request_def Let_def split: sum.splits option.splits)

lemma handle_decision_cases:
  assumes "handle_decision m w d now ref rep g s = (res, t, reps)"
  obtains (refused) "t = s" "reps = []"
  | (ran) ao where "\<not> requires_context g" "attested_of m d now = Inr (Inr ao)"
      "execute_and_report m w ao ref rep None s = (res, t, reps)"
  using assms by (auto simp: handle_decision_def split: if_splits sum.splits)

lemma sharp_gate_check_None:
  "sharp_gate_check strategies canon load lookup allowed sid = None \<longleftrightarrow>
     (\<exists>pid h r. strategies sid = Some pid \<and> load pid = Inr h \<and> h \<noteq> []
        \<and> fold_history canon lookup h = Inr r \<and> stage_value (rec_state r) \<in> set allowed)"
  by (auto simp: sharp_gate_check_def split: option.splits sum.splits list.splits)

lemma stage_value_PROMOTED: "stage_value st = ''PROMOTED'' \<longleftrightarrow> st = PROMOTED"
  by (cases st) simp_all

lemma release_ok_manifest:
  "cg_manifest g = Some writer \<Longrightarrow> release_ok (gates_release_check g d cx) mst \<Longrightarrow>
     \<exists>digest. fst (writer d cx mst) = Inr digest"
  by (auto simp: release_ok_def gates_release_check_def split: prod.splits sum.splits)

lemma execute_sent_release:
  assumes "execute m w ao ref chk s = (res, t)" "ms_sent t \<noteq> ms_sent s"
  shows "release_ok chk (ms_manifest s)"
proof -
  have "ms_sent (snd (execute m w ao ref chk s)) \<noteq> ms_sent s" using assms by simp
  then obtain v n where
    "submission_gate m w ao (w_clock w (ms_reads s)) chk (snd (ms_clock w s)) v n"
    using execute_outcome [of s m w ao ref chk] by blast
  then show ?thesis by (simp add: submission_gate_def ms_clock_def)
qed

lemma executed_report:
  assumes "execute_and_report m w ao ref rep chk s = (Inr r, t, reps)"
  shows "(reps \<noteq> [] \<longrightarrow> ms_sent t \<noteq> ms_sent s)
     \<and> (rep \<and> ms_sent t \<noteq> ms_sent s \<longrightarrow> reps = [r] \<or> r_reject_reason r = Some INTERNAL_ERROR)"
proof -
  note e = execute_and_report_eq [OF assms]
  then have "honest (ao_order ao) s t r" using execute_honest by blast
  then show ?thesis using e by (auto simp: honest_def reached_broker_def split: if_splits)
qed

end
