(* ===== verification/Sharp_Gate.thy ===== *)
theory Sharp_Gate
  imports Sharp
begin

text \<open>
  The commands of \<open>SharpGate\<close> (\<open>gate.py\<close>) over an in-memory proposal store
  (\<open>memory_store.py\<close>) and an append-only audit log, with faults injected by \<open>gate_world\<close> at every
  call: the order of effects is validate, write the audit record, append to the store, and on a
  failed append look whether the row landed, else write a compensating record.
\<close>

section \<open>Environment and state\<close>

datatype sink_outcome = SinkRefuses | SinkCommits | SinkCommitsNoReceipt | SinkCommitsThenRaises

datatype append_outcome = AppendRuns | AppendFails sharp_error | AppendLosesAck sharp_error

record gate_world =
  gw_canon :: "pystr \<Rightarrow> pystr"
  gw_sink :: "nat \<Rightarrow> sink_outcome"
  gw_hash :: "nat \<Rightarrow> pystr"
  gw_load :: "nat \<Rightarrow> sharp_error option"
  gw_append :: "nat \<Rightarrow> append_outcome"
  gw_lookup :: "nat \<Rightarrow> sharp_error option"
  gw_authorized :: "pystr \<Rightarrow> sharp_stage \<Rightarrow> sharp_error + bool"
  gw_clock :: "nat \<Rightarrow> int"

record gate_state =
  gs_events :: "pystr \<Rightarrow> transition_event list"
  gs_audit :: "audit_entry list"
  gs_calls :: nat

definition tick :: "gate_state \<Rightarrow> gate_state" where
  "tick s = s\<lparr>gs_calls := Suc (gs_calls s)\<rparr>"

text \<open>\<open>StaticRoleAuthorizer\<close>: the configured identities per stage, normalised; unlisted stages deny.\<close>

definition StaticRoleAuthorizer_new ::
  "(pystr \<Rightarrow> pystr) \<Rightarrow> (sharp_stage \<times> pystr list) list
     \<Rightarrow> sharp_error + (sharp_stage \<times> pystr list) list" where
  "StaticRoleAuthorizer_new canon allowed =
     rmap (\<lambda>(st, ids). rbind (rmap (normalise_identity canon) ids) (\<lambda>ns. Inr (st, ns))) allowed"

definition static_is_authorized ::
  "(pystr \<Rightarrow> pystr) \<Rightarrow> (sharp_stage \<times> pystr list) list \<Rightarrow> pystr \<Rightarrow> sharp_stage
     \<Rightarrow> sharp_error + bool" where
  "static_is_authorized canon allowed identity st =
     rbind (normalise_identity canon identity) (\<lambda>who.
       Inr (case map_of allowed st of None \<Rightarrow> False | Some ids \<Rightarrow> who \<in> set ids))"

section \<open>The audit log and the store\<close>

definition audit_record ::
  "gate_world \<Rightarrow> pystr \<Rightarrow> pystr \<Rightarrow> payload \<Rightarrow> gate_state
     \<Rightarrow> (sharp_error + (int \<times> pystr) option) \<times> gate_state" where
  "audit_record w etype actor pl s =
     (let n = gs_calls s; seq = int (length (gs_audit s)) + 1;
          entry = \<lparr>ae_seq = seq, ae_hash = gw_hash w n, ae_event_type = etype,
                   ae_actor = actor, ae_payload = pl\<rparr>;
          committed = (tick s)\<lparr>gs_audit := gs_audit s @ [entry]\<rparr>
      in case gw_sink w n of
           SinkRefuses \<Rightarrow> (Inl (OtherException ''AuditError''), tick s)
         | SinkCommits \<Rightarrow> (Inr (Some (seq, gw_hash w n)), committed)
         | SinkCommitsNoReceipt \<Rightarrow> (Inr None, committed)
         | SinkCommitsThenRaises \<Rightarrow> (Inl (OtherException ''AuditError''), committed))"

definition audit_find :: "audit_entry list \<Rightarrow> int list \<Rightarrow> int \<Rightarrow> audit_entry option" where
  "audit_find log seqs i = (if i \<in> set seqs then List.find (\<lambda>a. ae_seq a = i) log else None)"

definition lookup_of :: "gate_world \<Rightarrow> gate_state \<Rightarrow> audit_lookup" where
  "lookup_of w s seqs =
     (case gw_lookup w (gs_calls s) of Some e \<Rightarrow> Inl e | None \<Rightarrow> Inr (audit_find (gs_audit s) seqs))"

definition store_load ::
  "gate_world \<Rightarrow> pystr \<Rightarrow> gate_state \<Rightarrow> (sharp_error + transition_event list) \<times> gate_state" where
  "store_load w pid s =
     ((case gw_load w (gs_calls s) of Some e \<Rightarrow> Inl e | None \<Rightarrow> Inr (gs_events s pid)), tick s)"

definition memory_append ::
  "transition_event \<Rightarrow> nat \<Rightarrow> (pystr \<Rightarrow> transition_event list)
     \<Rightarrow> sharp_error + (pystr \<Rightarrow> transition_event list)" where
  "memory_append e expected events =
     (let history = events (te_proposal_id e)
      in if length history \<noteq> expected \<or> te_version e \<noteq> expected + 1 then Inl ConcurrencyError
         else Inr (events(te_proposal_id e := history @ [e])))"

definition store_append ::
  "gate_world \<Rightarrow> transition_event \<Rightarrow> nat \<Rightarrow> gate_state \<Rightarrow> (sharp_error + unit) \<times> gate_state" where
  "store_append w e expected s =
     (case gw_append w (gs_calls s) of
        AppendFails err \<Rightarrow> (Inl err, tick s)
      | AppendRuns \<Rightarrow>
          (case memory_append e expected (gs_events s) of
             Inl err \<Rightarrow> (Inl err, tick s)
           | Inr events \<Rightarrow> (Inr (), (tick s)\<lparr>gs_events := events\<rparr>))
      | AppendLosesAck lost \<Rightarrow>
          (case memory_append e expected (gs_events s) of
             Inl err \<Rightarrow> (Inl err, tick s)
           | Inr events \<Rightarrow> (Inl lost, (tick s)\<lparr>gs_events := events\<rparr>)))"

section \<open>Commands\<close>

definition sharp_get ::
  "gate_world \<Rightarrow> pystr \<Rightarrow> gate_state \<Rightarrow> (sharp_error + proposal_record) \<times> gate_state" where
  "sharp_get w pid =
     sbind (store_load w pid) (\<lambda>history s.
       if history = [] then (Inl UnknownProposalError, s)
       else (fold_history (gw_canon w) (lookup_of w s) history, tick s))"

definition open_proposal ::
  "gate_world \<Rightarrow> pystr \<Rightarrow> gate_state \<Rightarrow> (sharp_error + proposal_record) \<times> gate_state" where
  "open_proposal w pid =
     sbind (sharp_get w pid) (\<lambda>r. spure (if is_terminal r then Inl ProposalClosedError else Inr r))"

definition make_event ::
  "gate_world \<Rightarrow> pystr \<Rightarrow> nat \<Rightarrow> pystr \<Rightarrow> sharp_stage option \<Rightarrow> sharp_stage \<Rightarrow> pystr \<Rightarrow> json
     \<Rightarrow> gate_state \<Rightarrow> (sharp_error + transition_event) \<times> gate_state" where
  "make_event w pid version kind from_st to_st actor detail s =
     (Inr \<lparr>te_proposal_id = pid, te_version = version, te_kind = kind, te_from = from_st,
           te_to = to_st, te_actor = actor, te_occurred_at = gw_clock w (gs_calls s),
           te_detail = Some detail, te_audit_seq = None, te_audit_hash = None\<rparr>, tick s)"

fun error_name :: "sharp_error \<Rightarrow> pystr" where
  "error_name ProposalValidationError = ''ProposalValidationError''"
| "error_name UnknownProposalError = ''UnknownProposalError''"
| "error_name DuplicateProposalError = ''DuplicateProposalError''"
| "error_name ProposalClosedError = ''ProposalClosedError''"
| "error_name StageSkipError = ''StageSkipError''"
| "error_name SelfApprovalError = ''SelfApprovalError''"
| "error_name DistinctApproverError = ''DistinctApproverError''"
| "error_name NotAuthorizedError = ''NotAuthorizedError''"
| "error_name ConcurrencyError = ''ConcurrencyError''"
| "error_name StoreError = ''StoreError''"
| "error_name AuditFailureError = ''AuditFailureError''"
| "error_name (AbortNotRecordedError _) = ''AbortNotRecordedError''"
| "error_name (OtherException n) = n"

definition store_outcome ::
  "gate_world \<Rightarrow> transition_event \<Rightarrow> gate_state \<Rightarrow> pystr \<times> gate_state" where
  "store_outcome w e s =
     (case store_load w (te_proposal_id e) s of
        (Inl _, s') \<Rightarrow> (''unverified'', s')
      | (Inr history, s') \<Rightarrow>
          (if list_ex (\<lambda>x. te_version x = te_version e \<and> te_audit_seq x = te_audit_seq e
                  \<and> te_audit_hash x = te_audit_hash e) history
           then ''present'' else ''absent'', s'))"

definition record_abort ::
  "gate_world \<Rightarrow> transition_event \<Rightarrow> tpayload \<Rightarrow> sharp_error \<Rightarrow> pystr \<Rightarrow> gate_state
     \<Rightarrow> (sharp_error + unit) \<times> gate_state" where
  "record_abort w e tp err outcome s =
     (case audit_record w ''sharp.transition_aborted'' (te_actor e)
             (Aborted tp (te_audit_seq e) (te_audit_hash e) (error_name err) outcome) s of
        (Inl _, s') \<Rightarrow> (Inl (AbortNotRecordedError (te_audit_seq e)), s')
      | (Inr _, s') \<Rightarrow> (Inr (), s'))"

definition append_or_abort ::
  "gate_world \<Rightarrow> transition_event \<Rightarrow> tpayload \<Rightarrow> nat \<Rightarrow> gate_state
     \<Rightarrow> (sharp_error + unit) \<times> gate_state" where
  "append_or_abort w stored tp expected s =
     (case store_append w stored expected s of
        (Inr _, s1) \<Rightarrow> (Inr (), s1)
      | (Inl err, s1) \<Rightarrow>
          (case store_outcome w stored s1 of (outcome, s2) \<Rightarrow>
             if outcome = ''present'' then (Inr (), s2)
             else case record_abort w stored tp err outcome s2 of
               (Inl abort, s3) \<Rightarrow> (Inl abort, s3)
             | (Inr _, s3) \<Rightarrow> (Inl err, s3)))"

definition sharp_commit ::
  "gate_world \<Rightarrow> transition_event \<Rightarrow> nat \<Rightarrow> gate_state \<Rightarrow> (sharp_error + unit) \<times> gate_state" where
  "sharp_commit w e expected s =
     (case transition_payload e of
        Inl err \<Rightarrow> (Inl err, s)
      | Inr tp \<Rightarrow>
          (case audit_record w (''sharp.'' @ te_kind e) (te_actor e) (Transition tp) s of
             (Inl _, s1) \<Rightarrow> (Inl AuditFailureError, s1)
           | (Inr None, s1) \<Rightarrow> (Inl AuditFailureError, s1)
           | (Inr (Some (seq, digest)), s1) \<Rightarrow>
               append_or_abort w (e\<lparr>te_audit_seq := Some seq, te_audit_hash := Some digest\<rparr>)
                 tp expected s1))"

text \<open>
  Each command is split into the part that reads and validates, ending with the event to write and
  the version it expects, and the commit; the split is where another process may come in between.
\<close>

definition submit_event ::
  "gate_world \<Rightarrow> proposal \<Rightarrow> gate_state \<Rightarrow> (sharp_error + transition_event \<times> nat) \<times> gate_state" where
  "submit_event w p =
     sbind (store_load w (pr_proposal_id p)) (\<lambda>history.
     if history \<noteq> [] then spure (Inl DuplicateProposalError)
     else sbind (make_event w (pr_proposal_id p) 1 ''submitted'' None DRAFT (pr_proposer_id p)
                   (to_detail p)) (\<lambda>e. spure (Inr (e, 0))))"

text \<open>\<open>any(who == normalise_identity(a.approver_id) for a in approvals)\<close>\<close>

fun already_approved :: "(pystr \<Rightarrow> pystr) \<Rightarrow> pystr \<Rightarrow> approval list \<Rightarrow> sharp_error + bool" where
  "already_approved canon who [] = Inr False"
| "already_approved canon who (a # as) =
     rbind (normalise_identity canon (ap_approver_id a)) (\<lambda>x.
       if who = x then Inr True else already_approved canon who as)"

definition approve_checks ::
  "gate_world \<Rightarrow> pystr \<Rightarrow> sharp_stage \<Rightarrow> proposal_record \<Rightarrow> sharp_error + unit" where
  "approve_checks w approver gate r =
     rbind (guard (next_stage r = Some gate) StageSkipError) (\<lambda>_.
     rbind (normalise_identity (gw_canon w) approver) (\<lambda>who.
     rbind (normalise_identity (gw_canon w) (pr_proposer_id (rec_proposal r))) (\<lambda>sub.
     rbind (guard (who \<noteq> sub) SelfApprovalError) (\<lambda>_.
     rbind (already_approved (gw_canon w) who (rec_approvals r)) (\<lambda>again.
     rbind (guard (\<not> again) DistinctApproverError) (\<lambda>_.
     rbind (gw_authorized w approver gate) (\<lambda>ok.
     guard ok NotAuthorizedError)))))))"

definition approve_detail :: "pystr list \<Rightarrow> pystr \<Rightarrow> json" where
  "approve_detail refs note = JObj [(''evidence_refs'', JArr (map JStr refs)), (''note'', JStr note)]"

definition approve_event ::
  "gate_world \<Rightarrow> pystr \<Rightarrow> pystr \<Rightarrow> sharp_stage \<Rightarrow> pystr list \<Rightarrow> pystr \<Rightarrow> gate_state
     \<Rightarrow> (sharp_error + transition_event \<times> nat) \<times> gate_state" where
  "approve_event w pid approver gate refs note =
     sbind (open_proposal w pid) (\<lambda>r.
     sbind (spure (approve_checks w approver gate r)) (\<lambda>_.
     sbind (make_event w pid (rec_version r + 1) ''approved'' (Some (rec_state r)) gate approver
              (approve_detail refs note)) (\<lambda>e. spure (Inr (e, rec_version r)))))"

definition reject_checks ::
  "gate_world \<Rightarrow> pystr \<Rightarrow> pystr \<Rightarrow> proposal_record \<Rightarrow> sharp_error + unit" where
  "reject_checks w approver reason r =
     rbind (guard (py_strip reason \<noteq> []) ProposalValidationError) (\<lambda>_.
     rbind (normalise_identity (gw_canon w) approver) (\<lambda>_.
     case next_stage r of
       None \<Rightarrow> Inl NotAuthorizedError
     | Some st \<Rightarrow> rbind (gw_authorized w approver st) (\<lambda>ok. guard ok NotAuthorizedError)))"

definition reject_event ::
  "gate_world \<Rightarrow> pystr \<Rightarrow> pystr \<Rightarrow> pystr \<Rightarrow> gate_state
     \<Rightarrow> (sharp_error + transition_event \<times> nat) \<times> gate_state" where
  "reject_event w pid approver reason =
     sbind (open_proposal w pid) (\<lambda>r.
     sbind (spure (reject_checks w approver reason r)) (\<lambda>_.
     sbind (make_event w pid (rec_version r + 1) ''rejected'' (Some (rec_state r)) REJECTED approver
              (JObj [(''reason'', JStr reason)])) (\<lambda>e. spure (Inr (e, rec_version r)))))"

definition perform ::
  "gate_world \<Rightarrow> pystr \<Rightarrow> (gate_state \<Rightarrow> (sharp_error + transition_event \<times> nat) \<times> gate_state)
     \<Rightarrow> gate_state \<Rightarrow> (sharp_error + proposal_record) \<times> gate_state" where
  "perform w pid plan = sbind plan (\<lambda>ev. sbind (sharp_commit w (fst ev) (snd ev)) (\<lambda>_. sharp_get w pid))"

definition sharp_submit ::
  "gate_world \<Rightarrow> proposal \<Rightarrow> gate_state \<Rightarrow> (sharp_error + proposal_record) \<times> gate_state" where
  "sharp_submit w p = perform w (pr_proposal_id p) (submit_event w p)"

definition sharp_approve ::
  "gate_world \<Rightarrow> pystr \<Rightarrow> pystr \<Rightarrow> sharp_stage \<Rightarrow> pystr list \<Rightarrow> pystr \<Rightarrow> gate_state
     \<Rightarrow> (sharp_error + proposal_record) \<times> gate_state" where
  "sharp_approve w pid approver gate refs note = perform w pid (approve_event w pid approver gate refs note)"

definition sharp_reject ::
  "gate_world \<Rightarrow> pystr \<Rightarrow> pystr \<Rightarrow> pystr \<Rightarrow> gate_state
     \<Rightarrow> (sharp_error + proposal_record) \<times> gate_state" where
  "sharp_reject w pid approver reason = perform w pid (reject_event w pid approver reason)"

end
