(* ===== verification/Sharp_Safety.thy ===== *)
theory Sharp_Safety
  imports Sharp_Gate
begin

text \<open>
  Why the SHARP gate is safe. A history that \<open>fold\<close> accepts has the first stages of the pipeline
  signed in order by distinct people other than the proposer, each row backed by a matching audit
  record (\<open>loop_sound\<close>, \<open>backed\<close>). The gate only ever writes histories that \<open>fold\<close> accepts, even
  when several processes interleave their reads, audit writes and appends and when the audit log,
  the store or the lookup fail at any call (\<open>gate_inv\<close>, \<open>gate_reach\<close>).
\<close>

section \<open>What a folded history guarantees\<close>

lemma succ_stage_nth:
  assumes "k < 6"
  shows "succ_stage (PIPELINE ! k) = PIPELINE ! Suc k"
proof -
  have "k = 0 \<or> k = 1 \<or> k = 2 \<or> k = 3 \<or> k = 4 \<or> k = 5" using assms by linarith
  then show ?thesis by (elim disjE) (simp_all add: succ_stage_def PIPELINE_def)
qed

lemma PIPELINE_nth_neq_REJECTED: "k \<le> 6 \<Longrightarrow> PIPELINE ! k \<noteq> REJECTED"
proof -
  assume "k \<le> 6"
  then have "PIPELINE ! k \<in> set PIPELINE" by (intro nth_mem) (simp add: PIPELINE_def)
  then show ?thesis by (auto simp: PIPELINE_def)
qed

lemma PIPELINE_nth_PROMOTED: "k \<le> 6 \<Longrightarrow> PIPELINE ! k = PROMOTED \<longleftrightarrow> k = 6"
proof -
  have d: "distinct PIPELINE" "length PIPELINE = 7" "PIPELINE ! 6 = PROMOTED" by (simp_all add: PIPELINE_def)
  show "k \<le> 6 \<Longrightarrow> PIPELINE ! k = PROMOTED \<longleftrightarrow> k = 6"
    using nth_eq_iff_index_eq [OF d(1), of k 6] d by simp
qed

lemma take_tl_PIPELINE:
  assumes "k < 6"
  shows "take (Suc k) (tl PIPELINE) = take k (tl PIPELINE) @ [PIPELINE ! Suc k]"
proof -
  have "k < length (tl PIPELINE)" using assms by (simp add: PIPELINE_def)
  then show ?thesis by (simp only: take_Suc_conv_app_nth nth_tl)
qed

text \<open>
  The state of the loop after \<open>n\<close> events: the approvals are the first stages of the pipeline in
  order, their normalised signers are distinct and none is the submitter, and a rejection has a
  named actor and a reason.
\<close>

definition loop_sound :: "(pystr \<Rightarrow> pystr) \<Rightarrow> pystr \<Rightarrow> nat \<Rightarrow> fold_state \<Rightarrow> bool" where
  "loop_sound canon sub n st \<longleftrightarrow>
     (let k = length (fd_approvals st)
      in k \<le> 6 \<and> map ap_stage (fd_approvals st) = take k (tl PIPELINE)
         \<and> list_all2 (\<lambda>a who. normalise_identity canon (ap_approver_id a) = Inr who)
             (fd_approvals st) (fd_signers st)
         \<and> distinct (fd_signers st) \<and> sub \<notin> set (fd_signers st)
         \<and> (if fd_state st = REJECTED
            then k < 6 \<and> n = k + 2 \<and> fd_rejected_by st \<noteq> None
                 \<and> (\<exists>r. fd_reason st = Some r \<and> py_strip r \<noteq> [])
            else fd_state st = PIPELINE ! k \<and> n = k + 1))"

lemma loop_sound_init: "loop_sound canon sub 1 fold_init"
  by (simp add: loop_sound_def fold_init_def PIPELINE_def)

lemma stored_identity_Inr:
  "stored_identity canon e = Inr who \<longleftrightarrow> normalise_identity canon (te_actor e) = Inr who"
  by (simp add: stored_identity_def split: sum.splits)

lemma approval_of_Inr:
  "approval_of e = Inr a \<Longrightarrow> ap_stage a = te_to e \<and> ap_approver_id a = te_actor e"
  by (auto simp: approval_of_def rbind_eq_Inr)

lemma stored_reason_Inr: "stored_reason e = Inr r \<Longrightarrow> py_strip r \<noteq> []"
proof -
  assume "stored_reason e = Inr r"
  then obtain d where d: "stored_detail e = Inr d" "(case d ''reason'' of
      Some (JStr r) \<Rightarrow> if py_strip r = [] then Inl StoreError else Inr r
    | _ \<Rightarrow> Inl StoreError) = Inr r" unfolding stored_reason_def rbind_eq_Inr by blast
  define v where "v = d ''reason''"
  have "(case v of Some (JStr r) \<Rightarrow> if py_strip r = [] then Inl StoreError else Inr r
    | _ \<Rightarrow> Inl StoreError) = Inr r" using d(2) by (simp only: v_def)
  then show ?thesis by (cases v) (auto split: json.split_asm if_split_asm)
qed

lemma fold_event_cases:
  assumes "fold_event canon pid sub i st e = Inr st'" "i \<noteq> 1"
  obtains (approved) who a where "te_kind e = ''approved''" "te_to e = succ_stage (fd_state st)"
      "normalise_identity canon (te_actor e) = Inr who" "who \<noteq> sub" "who \<notin> set (fd_signers st)"
      "approval_of e = Inr a"
      "st' = st\<lparr>fd_state := te_to e, fd_approvals := fd_approvals st @ [a],
                fd_signers := fd_signers st @ [who]\<rparr>"
      "\<not> TERMINAL (fd_state st)"
  | (rejected) r where "te_kind e = ''rejected''" "te_to e = REJECTED" "py_strip r \<noteq> []"
      "st' = st\<lparr>fd_state := REJECTED, fd_rejected_by := Some (te_actor e), fd_reason := Some r\<rparr>"
      "\<not> TERMINAL (fd_state st)"
proof (cases "te_kind e = ''approved''")
  case True
  with assms show thesis
    using approved by (auto simp: fold_event_def rbind_eq_Inr stored_identity_Inr split: if_splits)
next
  case False
  with assms obtain r where "te_kind e = ''rejected''" "te_to e = REJECTED"
      "\<not> TERMINAL (fd_state st)" "stored_reason e = Inr r"
      "st' = st\<lparr>fd_state := REJECTED, fd_rejected_by := Some (te_actor e), fd_reason := Some r\<rparr>"
    by (auto simp: fold_event_def rbind_eq_Inr split: if_splits)
  then show thesis using rejected stored_reason_Inr by blast
qed

lemma loop_sound_event:
  assumes s: "loop_sound canon sub n st" and e: "fold_event canon pid sub (Suc n) st e = Inr st'"
    and n: "0 < n"
  shows "loop_sound canon sub (Suc n) st'"
proof (cases rule: fold_event_cases [OF e])
  case (2 who a)
  note approved = 2
  let ?k = "length (fd_approvals st)"
  from s approved(8) have k: "?k \<le> 6" "fd_state st = PIPELINE ! ?k" "n = ?k + 1"
    by (auto simp: loop_sound_def Let_def TERMINAL_def split: if_splits)
  with approved(8) have k6: "?k < 6" using PIPELINE_nth_PROMOTED [of ?k] by (force simp: TERMINAL_def)
  have to: "te_to e = PIPELINE ! Suc ?k" using approved(2) k(2) succ_stage_nth [OF k6] by simp
  then have "te_to e \<noteq> REJECTED" using PIPELINE_nth_neq_REJECTED [of "Suc ?k"] k6 by simp
  moreover have "list_all2 (\<lambda>a who. normalise_identity canon (ap_approver_id a) = Inr who)
      (fd_approvals st @ [a]) (fd_signers st @ [who])"
    using s approved(3) approval_of_Inr [OF approved(6)]
    by (intro list_all2_appendI) (simp_all add: loop_sound_def Let_def)
  moreover have "map ap_stage (fd_approvals st @ [a]) = take (Suc ?k) (tl PIPELINE)"
    using s approval_of_Inr [OF approved(6)] to take_tl_PIPELINE [OF k6]
    by (simp add: loop_sound_def Let_def)
  moreover have "distinct (fd_signers st @ [who])" "sub \<notin> set (fd_signers st @ [who])"
    using s approved(4,5) by (auto simp: loop_sound_def Let_def)
  ultimately show ?thesis
    unfolding loop_sound_def approved(7) Let_def using k k6 to by simp
next
  case (3 r)
  then show ?thesis
    using s PIPELINE_nth_PROMOTED [of "length (fd_approvals st)"]
    by (auto simp: loop_sound_def Let_def TERMINAL_def le_less split: if_splits)
qed (use n in simp)

lemma fold_loop_sound:
  "fold_loop canon pid sub (Suc n) st es = Inr st' \<Longrightarrow> loop_sound canon sub n st \<Longrightarrow> 0 < n
     \<Longrightarrow> loop_sound canon sub (n + length es) st'"
proof (induction es arbitrary: n st)
  case (Cons e es)
  then obtain st1 where st1: "fold_event canon pid sub (Suc n) st e = Inr st1"
    "fold_loop canon pid sub (Suc (Suc n)) st1 es = Inr st'" by (auto simp: rbind_eq_Inr)
  then show ?case
    using Cons.IH [OF st1(2)] loop_sound_event [OF Cons.prems(2) st1(1) Cons.prems(3)] by simp
qed simp

lemma fold_event_first: "fold_event canon pid sub (Suc 0) st e = Inr st' \<Longrightarrow> st' = st"
  by (simp add: fold_event_def split: if_splits)

lemma fold_loop_sound_history:
  assumes "fold_loop canon pid sub 1 fold_init es = Inr st" "es \<noteq> []"
  shows "loop_sound canon sub (length es) st"
proof -
  obtain e es' where es: "es = e # es'" using assms(2) by (cases es) auto
  from assms(1) es have "fold_loop canon pid sub (Suc 1) fold_init es' = Inr st"
    by (auto simp: rbind_eq_Inr dest!: fold_event_first)
  from fold_loop_sound [OF this loop_sound_init] show ?thesis by (simp add: es)
qed

section \<open>Audit backing\<close>

text \<open>A stored event is backed by an entry of the log that says the same thing.\<close>

definition backed :: "audit_entry list \<Rightarrow> transition_event \<Rightarrow> bool" where
  "backed log e \<longleftrightarrow>
     (\<exists>entry \<in> set log. te_audit_seq e = Some (ae_seq entry) \<and> entry_matches entry e = Inr True)"

lemma check_entries_Inr:
  "check_entries found es = Inr () \<longleftrightarrow>
     (\<forall>e \<in> set es. \<exists>entry. found (the (te_audit_seq e)) = Some entry
        \<and> entry_matches entry e = Inr True)"
  by (induction es) (auto simp: rbind_eq_Inr split: option.splits if_splits)

lemma verify_audit_Inr:
  assumes "verify_audit_records lookup es = Inr ()"
  shows "\<exists>found. lookup (map (\<lambda>e. the (te_audit_seq e)) es) = Inr found
     \<and> distinct (map (\<lambda>e. the (te_audit_seq e)) es)
     \<and> (\<forall>e \<in> set es. \<exists>entry. found (the (te_audit_seq e)) = Some entry
          \<and> entry_matches entry e = Inr True)"
  using assms
  by (auto simp: verify_audit_records_def Let_def rbind_eq_Inr check_entries_Inr split: if_splits)

lemma verify_audit_backed:
  assumes "verify_audit_records lookup es = Inr ()"
    "\<And>seqs found. lookup seqs = Inr found \<Longrightarrow> found = audit_find log seqs"
  shows "list_all (backed log) es"
proof -
  let ?seqs = "map (\<lambda>e. the (te_audit_seq e)) es"
  from assms(1) obtain found where "lookup ?seqs = Inr found" "check_entries found es = Inr ()"
    and refs: "list_all (\<lambda>e. te_audit_seq e \<noteq> None \<and> te_audit_hash e \<noteq> None) es"
    by (auto simp: verify_audit_records_def Let_def rbind_eq_Inr split: if_splits)
  with assms(2) have c: "check_entries (audit_find log ?seqs) es = Inr ()" by simp
  show ?thesis
    unfolding list_all_iff
  proof
    fix e assume e: "e \<in> set es"
    with c obtain entry where "audit_find log ?seqs (the (te_audit_seq e)) = Some entry"
      "entry_matches entry e = Inr True" unfolding check_entries_Inr by blast
    moreover have "te_audit_seq e = Some (the (te_audit_seq e))"
      using refs e by (auto simp: list_all_iff)
    ultimately show "backed log e"
      by (auto simp: backed_def audit_find_def find_Some_iff split: if_splits)
         (metis nth_mem)
  qed
qed

lemma fold_history_Inr:
  assumes "fold_history canon lookup es = Inr r"
  obtains p sub st where "es \<noteq> []" "te_kind (hd es) = ''submitted''"
    "stored_proposal canon (hd es) = Inr p" "normalise_identity canon (pr_proposer_id p) = Inr sub"
    "fold_loop canon (pr_proposal_id p) sub 1 fold_init es = Inr st"
    "verify_audit_records lookup es = Inr ()"
    "r = \<lparr>rec_proposal = p, rec_state = fd_state st, rec_version = length es,
          rec_approvals = fd_approvals st, rec_rejected_by = fd_rejected_by st,
          rec_rejection_reason = fd_reason st\<rparr>"
  using assms by (auto simp: fold_history_def rbind_eq_Inr split: if_splits)

section \<open>Histories the gate writes\<close>

text \<open>The structure of a history, apart from its audit references.\<close>

definition well_formed :: "(pystr \<Rightarrow> pystr) \<Rightarrow> pystr \<Rightarrow> transition_event list \<Rightarrow> bool" where
  "well_formed canon pid h \<longleftrightarrow>
     h \<noteq> [] \<and> te_kind (hd h) = ''submitted''
     \<and> (\<exists>p sub st. stored_proposal canon (hd h) = Inr p \<and> pr_proposal_id p = pid
          \<and> normalise_identity canon (pr_proposer_id p) = Inr sub
          \<and> fold_loop canon pid sub 1 fold_init h = Inr st)"

definition numbered :: "audit_entry list \<Rightarrow> bool" where
  "numbered log \<longleftrightarrow> (\<forall>i < length log. ae_seq (log ! i) = int i + 1)"

lemma numbered_snoc:
  "numbered log \<Longrightarrow> ae_seq entry = int (length log) + 1 \<Longrightarrow> numbered (log @ [entry])"
  by (simp add: numbered_def nth_append less_Suc_eq)

lemma numbered_unique:
  assumes "numbered log" "a \<in> set log" "b \<in> set log" "ae_seq a = ae_seq b"
  shows "a = b"
proof -
  obtain i j where "i < length log" "a = log ! i" "j < length log" "b = log ! j"
    using assms(2,3) by (auto simp: in_set_conv_nth)
  moreover from this assms(1,4) have "i = j" by (simp add: numbered_def)
  ultimately show ?thesis by simp
qed

lemma numbered_find:
  assumes "numbered log" "a \<in> set log" "ae_seq a \<in> set seqs"
  shows "audit_find log seqs (ae_seq a) = Some a"
proof -
  from assms(2) obtain b where b: "List.find (\<lambda>x. ae_seq x = ae_seq a) log = Some b"
    by (metis (mono_tags, lifting) find_None_iff not_Some_eq)
  then have "b \<in> set log" "ae_seq b = ae_seq a" by (auto simp: find_Some_iff)
  with assms have "b = a" using numbered_unique by blast
  with b assms(3) show ?thesis by (simp add: audit_find_def)
qed

lemma fold_loop_append:
  "fold_loop canon pid sub i st (es @ [e]) =
     rbind (fold_loop canon pid sub i st es) (\<lambda>st'. fold_event canon pid sub (i + length es) st' e)"
proof (induction es arbitrary: i st)
  case Nil
  then show ?case by (cases "fold_event canon pid sub i st e") auto
next
  case (Cons x es)
  then show ?case by (cases "fold_event canon pid sub i st x") auto
qed

lemma fold_event_ident: "fold_event canon pid sub i st e = Inr st' \<Longrightarrow> te_version e = i \<and> te_proposal_id e = pid"
  by (simp add: fold_event_def split: if_splits)

lemma fold_loop_versions:
  "fold_loop canon pid sub i st es = Inr st' \<Longrightarrow> k < length es \<Longrightarrow> te_version (es ! k) = i + k"
proof (induction es arbitrary: i st k)
  case (Cons e es)
  then obtain st1 where "fold_event canon pid sub i st e = Inr st1"
    "fold_loop canon pid sub (Suc i) st1 es = Inr st'" by (auto simp: rbind_eq_Inr)
  then show ?case using Cons.IH [of "Suc i" st1 "k - 1"] Cons.prems fold_event_ident
    by (cases k) auto
qed simp

lemma entry_matches_True:
  assumes "entry_matches entry e = Inr True"
  shows "te_audit_hash e = Some (ae_hash entry)"
    "\<exists>tp. ae_payload entry = Transition tp \<and> tp_version tp = te_version e \<and> transition_payload e = Inr tp"
  using assms
  by (auto simp: entry_matches_def rbind_eq_Inr transition_payload_def
      split: if_splits option.splits)

lemma backed_distinct:
  assumes "numbered log" "list_all (backed log) h" "distinct (map te_version h)"
  shows "distinct (map (\<lambda>e. the (te_audit_seq e)) h)"
proof -
  have same: "te_version a = te_version b"
    if "a \<in> set h" "b \<in> set h" "the (te_audit_seq a) = the (te_audit_seq b)" for a b
  proof -
    from that(1,2) assms(2) obtain x y where
      x: "x \<in> set log" "te_audit_seq a = Some (ae_seq x)" "entry_matches x a = Inr True" and
      y: "y \<in> set log" "te_audit_seq b = Some (ae_seq y)" "entry_matches y b = Inr True"
      unfolding list_all_iff backed_def by meson
    with that(3) have "x = y" using numbered_unique [OF assms(1)] by simp
    then show ?thesis using entry_matches_True(2) [OF x(3)] entry_matches_True(2) [OF y(3)] by auto
  qed
  have "inj_on te_version (set h)" using assms(3) by (simp add: distinct_map)
  then have "inj_on (\<lambda>e. the (te_audit_seq e)) (set h)" by (meson inj_on_def same)
  then show ?thesis using assms(3) by (simp add: distinct_map)
qed

lemma backed_verifies:
  assumes "numbered log" "list_all (backed log) h" "distinct (map te_version h)"
  shows "verify_audit_records (\<lambda>seqs. Inr (audit_find log seqs)) h = Inr ()"
proof -
  let ?seqs = "map (\<lambda>e. the (te_audit_seq e)) h"
  have "\<exists>entry. audit_find log ?seqs (the (te_audit_seq e)) = Some entry \<and> entry_matches entry e = Inr True"
    and "te_audit_seq e \<noteq> None \<and> te_audit_hash e \<noteq> None" if e: "e \<in> set h" for e
  proof -
    from e assms(2) obtain x where
      x: "x \<in> set log" "te_audit_seq e = Some (ae_seq x)" "entry_matches x e = Inr True"
      by (fastforce simp: list_all_iff backed_def)
    have "ae_seq x \<in> set ?seqs" using e x(2) by force
    from numbered_find [OF assms(1) x(1) this] x entry_matches_True(1) [OF x(3)]
    show "\<exists>entry. audit_find log ?seqs (the (te_audit_seq e)) = Some entry \<and> entry_matches entry e = Inr True"
      and "te_audit_seq e \<noteq> None \<and> te_audit_hash e \<noteq> None" by auto
  qed
  then show ?thesis
    using backed_distinct [OF assms]
    by (simp add: verify_audit_records_def Let_def list_all_iff check_entries_Inr)
qed

lemma well_formed_folds:
  assumes "well_formed canon pid h" "numbered log" "list_all (backed log) h"
  shows "\<exists>r. fold_history canon (\<lambda>seqs. Inr (audit_find log seqs)) h = Inr r
           \<and> pr_proposal_id (rec_proposal r) = pid \<and> rec_version r = length h"
proof -
  from assms(1) obtain p sub st where p: "h \<noteq> []" "te_kind (hd h) = ''submitted''"
    "stored_proposal canon (hd h) = Inr p" "pr_proposal_id p = pid"
    "normalise_identity canon (pr_proposer_id p) = Inr sub"
    "fold_loop canon pid sub 1 fold_init h = Inr st" by (auto simp: well_formed_def)
  have "distinct (map te_version h)"
    using fold_loop_versions [OF p(6)] by (simp add: distinct_conv_nth)
  from backed_verifies [OF assms(2,3) this] p show ?thesis by (simp add: fold_history_def)
qed

section \<open>The invariant of the gate\<close>

definition gate_inv :: "(pystr \<Rightarrow> pystr) \<Rightarrow> gate_state \<Rightarrow> bool" where
  "gate_inv canon s \<longleftrightarrow> numbered (gs_audit s)
     \<and> (\<forall>pid. gs_events s pid \<noteq> [] \<longrightarrow>
          well_formed canon pid (gs_events s pid))
     \<and> (\<forall>pid. list_all (backed (gs_audit s)) (gs_events s pid))"

text \<open>An event planned against version \<open>v\<close>: it extends the first \<open>v\<close> stored events.\<close>

definition planned :: "(pystr \<Rightarrow> pystr) \<Rightarrow> gate_state \<Rightarrow> transition_event \<Rightarrow> nat \<Rightarrow> bool" where
  "planned canon s e v \<longleftrightarrow>
     (let h = gs_events s (te_proposal_id e)
      in v \<le> length h \<and> well_formed canon (te_proposal_id e) (take v h @ [e]))"

lemma tick_simps [simp]:
  "gs_events (tick s) = gs_events s" "gs_audit (tick s) = gs_audit s"
  by (simp_all add: tick_def)

lemma backed_mono: "backed log e \<Longrightarrow> backed (log @ log') e"
  by (auto simp: backed_def)

lemma gate_inv_audit:
  assumes "gate_inv canon s"
  shows "gate_inv canon (snd (audit_record w etype actor pl s))"
proof -
  have "numbered (gs_audit s @ [\<lparr>ae_seq = int (length (gs_audit s)) + 1, ae_hash = gw_hash w (gs_calls s),
      ae_event_type = etype, ae_actor = actor, ae_payload = pl\<rparr>])"
    using assms by (intro numbered_snoc) (simp_all add: gate_inv_def)
  then show ?thesis
    using assms backed_mono
    by (auto simp: gate_inv_def audit_record_def Let_def list_all_iff split: sink_outcome.split)
qed

lemma audit_record_events [simp]: "gs_events (snd (audit_record w etype actor pl s)) = gs_events s"
  by (simp add: audit_record_def Let_def split: sink_outcome.split)

lemma audit_record_backs:
  assumes "audit_record w (''sharp.'' @ te_kind e) (te_actor e) (Transition tp) s = (Inr (Some (i, d)), s')"
    "transition_payload e = Inr tp"
  shows "backed (gs_audit s') (e\<lparr>te_audit_seq := Some i, te_audit_hash := Some d\<rparr>)"
proof -
  have "transition_payload (e\<lparr>te_audit_seq := a, te_audit_hash := b\<rparr>) = Inr tp" for a b
    using assms(2) by (simp add: transition_payload_def split: option.splits)
  then show ?thesis
    using assms(1)
    by (auto simp: audit_record_def Let_def backed_def entry_matches_def split: sink_outcome.splits)
qed

lemma stored_refs [simp]:
  "stored_identity canon (e\<lparr>te_audit_seq := a, te_audit_hash := b\<rparr>) = stored_identity canon e"
  "stored_detail (e\<lparr>te_audit_seq := a, te_audit_hash := b\<rparr>) = stored_detail e"
  "stored_reason (e\<lparr>te_audit_seq := a, te_audit_hash := b\<rparr>) = stored_reason e"
  by (simp_all add: stored_identity_def stored_detail_def stored_reason_def)

lemma stored_proposal_refs [simp]:
  "stored_proposal canon (e\<lparr>te_audit_seq := a, te_audit_hash := b\<rparr>) = stored_proposal canon e"
proof -
  have "te_detail (e\<lparr>te_audit_seq := a, te_audit_hash := b\<rparr>) = te_detail e"
    "te_actor (e\<lparr>te_audit_seq := a, te_audit_hash := b\<rparr>) = te_actor e" by simp_all
  then show ?thesis by (simp only: stored_proposal_def)
qed

lemma approval_of_refs [simp]:
  "approval_of (e\<lparr>te_audit_seq := a, te_audit_hash := b\<rparr>) = approval_of e"
  by (simp add: approval_of_def)

lemma well_formed_refs [simp]:
  "well_formed canon pid (h @ [e\<lparr>te_audit_seq := a, te_audit_hash := b\<rparr>]) = well_formed canon pid (h @ [e])"
proof -
  let ?e = "e\<lparr>te_audit_seq := a, te_audit_hash := b\<rparr>"
  have "fold_event canon pid sub i st ?e = fold_event canon pid sub i st e" for sub i st
    by (simp add: fold_event_def cong: if_cong)
  then have "fold_loop canon pid sub i st (h @ [?e]) = fold_loop canon pid sub i st (h @ [e])" for sub i st
    by (simp add: fold_loop_append)
  moreover have "stored_proposal canon (hd (h @ [?e])) = stored_proposal canon (hd (h @ [e]))"
    "te_kind (hd (h @ [?e])) = te_kind (hd (h @ [e]))"
    by (cases h; simp)+
  ultimately show ?thesis by (simp add: well_formed_def)
qed

lemma memory_append_Inr:
  "memory_append e v ev = Inr ev' \<Longrightarrow>
     length (ev (te_proposal_id e)) = v \<and> ev' = ev(te_proposal_id e := ev (te_proposal_id e) @ [e])"
  by (simp add: memory_append_def Let_def split: if_splits)

lemma gate_inv_append:
  assumes "gate_inv canon s" "planned canon s e v" "backed (gs_audit s) e"
  shows "gate_inv canon (snd (store_append w e v s))"
proof (cases "memory_append e v (gs_events s)")
  case (Inl err)
  then show ?thesis using assms(1)
    by (simp add: store_append_def gate_inv_def split: append_outcome.split)
next
  case (Inr ev)
  from memory_append_Inr [OF Inr] assms have
    "gate_inv canon (s\<lparr>gs_events := ev\<rparr>)"
    by (auto simp: gate_inv_def planned_def Let_def)
  then have "gate_inv canon (tick s\<lparr>gs_events := ev\<rparr>)" by (simp add: gate_inv_def)
  moreover have "gate_inv canon (tick s)" using assms(1) by (simp add: gate_inv_def)
  ultimately show ?thesis by (simp add: store_append_def Inr split: append_outcome.split)
qed

lemma gate_inv_tick [simp]: "gate_inv canon (tick s) = gate_inv canon s"
  by (simp add: gate_inv_def)

lemma gate_inv_load [simp]: "gate_inv canon (snd (store_load w pid s)) = gate_inv canon s"
  by (simp add: store_load_def)

lemma gate_inv_outcome: "gate_inv canon s \<Longrightarrow> gate_inv canon (snd (store_outcome w e s))"
  by (simp add: store_outcome_def store_load_def split: sum.split option.split)

lemma gate_inv_abort: "gate_inv canon s \<Longrightarrow> gate_inv canon (snd (record_abort w e tp err out s))"
  using gate_inv_audit [of canon s w "''sharp.transition_aborted''" "te_actor e"
      "Aborted tp (te_audit_seq e) (te_audit_hash e) (error_name err) out"]
  by (auto simp: record_abort_def split: prod.splits sum.splits)

lemma gate_inv_append_or_abort:
  assumes "gate_inv canon s" "planned canon s e v" "backed (gs_audit s) e"
  shows "gate_inv canon (snd (append_or_abort w e tp v s))"
proof -
  obtain r s1 where a: "store_append w e v s = (r, s1)" by force
  obtain out s2 where o: "store_outcome w e s1 = (out, s2)" by force
  obtain b s3 where b: "record_abort w e tp err out s2 = (b err, s3 err)" for err by (meson surj_pair)
  have i1: "gate_inv canon s1" using gate_inv_append [OF assms, of w] a by simp
  then have i2: "gate_inv canon s2" using gate_inv_outcome [of canon s1 w e] o by simp
  then have "gate_inv canon (s3 err)" for err using gate_inv_abort [of canon s2 w e tp err out] b by simp
  with i1 i2 show ?thesis
    by (auto simp: append_or_abort_def a o b split: sum.split)
qed

lemma planned_events: "gs_events s = gs_events t \<Longrightarrow> planned canon s e v = planned canon t e v"
  by (simp add: planned_def)

lemma planned_refs [simp]:
  "planned canon s (e\<lparr>te_audit_seq := a, te_audit_hash := b\<rparr>) v = planned canon s e v"
  by (simp add: planned_def Let_def)

lemma gate_inv_commit:
  assumes "gate_inv canon s" "planned canon s e v"
  shows "gate_inv canon (snd (sharp_commit w e v s))"
proof (cases "transition_payload e")
  case (Inr tp)
  obtain r s1 where a: "audit_record w (''sharp.'' @ te_kind e) (te_actor e) (Transition tp) s = (r, s1)"
    by force
  have i1: "gate_inv canon s1" and ev: "gs_events s1 = gs_events s"
    using gate_inv_audit [OF assms(1)] audit_record_events a by (metis snd_conv)+
  show ?thesis
  proof (cases "\<exists>i d. r = Inr (Some (i, d))")
    case True
    then obtain i d where r: "r = Inr (Some (i, d))" by blast
    let ?e = "e\<lparr>te_audit_seq := Some i, te_audit_hash := Some d\<rparr>"
    have "backed (gs_audit s1) ?e" using audit_record_backs a r Inr by blast
    moreover have "planned canon s1 ?e v" using assms(2) planned_events [OF ev] by simp
    ultimately show ?thesis
      using gate_inv_append_or_abort [OF i1] by (simp add: sharp_commit_def Inr a [simplified] r)
  next
    case False
    then show ?thesis
      using i1 by (auto simp: sharp_commit_def Inr a [simplified] split: sum.split option.split)
  qed
qed (use assms in \<open>simp add: sharp_commit_def\<close>)

section \<open>Planning\<close>

lemma gate_inv_cong:
  "gs_events s = gs_events t \<Longrightarrow> gs_audit s = gs_audit t \<Longrightarrow> gate_inv canon s = gate_inv canon t"
  by (simp add: gate_inv_def)

lemma get_frame: "gs_events (snd (sharp_get w pid s)) = gs_events s \<and> gs_audit (snd (sharp_get w pid s)) = gs_audit s"
  by (simp add: sharp_get_def sbind_def store_load_def split: prod.split sum.split option.split)

lemma get_Inr:
  assumes "sharp_get w pid s = (Inr r, s')" "gate_inv (gw_canon w) s"
  obtains p sub st where "rec_proposal r = p" "pr_proposal_id p = pid"
    "normalise_identity (gw_canon w) (pr_proposer_id p) = Inr sub"
    "fold_loop (gw_canon w) pid sub 1 fold_init (gs_events s pid) = Inr st"
    "rec_state r = fd_state st" "rec_approvals r = fd_approvals st"
    "rec_version r = length (gs_events s pid)" "gs_events s pid \<noteq> []"
    "well_formed (gw_canon w) pid (gs_events s pid)"
    "stored_proposal (gw_canon w) (hd (gs_events s pid)) = Inr p"
proof -
  let ?h = "gs_events s pid"
  from assms(1) have ne: "?h \<noteq> []" and
    f: "\<exists>lookup. fold_history (gw_canon w) lookup ?h = Inr r"
    by (auto simp: sharp_get_def sbind_eq_Inr store_load_def split: option.splits if_splits)
  have wf: "well_formed (gw_canon w) pid ?h" using assms(2) ne by (simp add: gate_inv_def)
  from f obtain lookup where "fold_history (gw_canon w) lookup ?h = Inr r" by blast
  then show thesis
  proof (rule fold_history_Inr)
    fix p sub st
    assume a: "stored_proposal (gw_canon w) (hd ?h) = Inr p"
      "normalise_identity (gw_canon w) (pr_proposer_id p) = Inr sub"
      "fold_loop (gw_canon w) (pr_proposal_id p) sub 1 fold_init ?h = Inr st"
      "r = \<lparr>rec_proposal = p, rec_state = fd_state st, rec_version = length ?h,
          rec_approvals = fd_approvals st, rec_rejected_by = fd_rejected_by st,
          rec_rejection_reason = fd_reason st\<rparr>"
    then have "pr_proposal_id p = pid" using wf by (auto simp: well_formed_def)
    with a show thesis using that [of p sub st] ne wf by simp
  qed
qed

lemma already_approved_False:
  assumes "list_all2 (\<lambda>a who. normalise_identity canon (ap_approver_id a) = Inr who) as ws"
    "already_approved canon who as = Inr False"
  shows "who \<notin> set ws"
  using assms by (induction rule: list_all2_induct) (auto split: if_splits)

lemma well_formed_snoc:
  assumes "well_formed canon pid h" "stored_proposal canon (hd h) = Inr p"
    "normalise_identity canon (pr_proposer_id p) = Inr sub"
    "fold_loop canon pid sub 1 fold_init h = Inr st"
    "fold_event canon pid sub (Suc (length h)) st e = Inr st'"
  shows "well_formed canon pid (h @ [e])"
  using assms by (auto simp: well_formed_def fold_loop_append)

lemma open_proposal_Inr:
  "open_proposal w pid s = (Inr r, s') \<longleftrightarrow> sharp_get w pid s = (Inr r, s') \<and> \<not> TERMINAL (rec_state r)"
  by (auto simp: open_proposal_def sbind_eq_Inr is_terminal_def split: if_splits)

text \<open>
  The step both commands share: after a read of an open proposal, an event that the fold would
  accept next is planned against the version read.
\<close>

lemma plan_next:
  assumes g: "sharp_get w pid s = (Inr r, s')" and inv: "gate_inv (gw_canon w) s"
    and ident: "te_proposal_id e = pid" "te_version e = rec_version r + 1"
    and ok: "\<And>sub st. normalise_identity (gw_canon w) (pr_proposer_id (rec_proposal r)) = Inr sub
        \<Longrightarrow> rec_state r = fd_state st \<Longrightarrow> rec_approvals r = fd_approvals st
        \<Longrightarrow> list_all2 (\<lambda>a who. normalise_identity (gw_canon w) (ap_approver_id a) = Inr who)
              (fd_approvals st) (fd_signers st) \<Longrightarrow> 0 < rec_version r
        \<Longrightarrow> \<exists>st'. fold_event (gw_canon w) pid sub (rec_version r + 1) st e = Inr st'"
  shows "planned (gw_canon w) s e (rec_version r)"
proof -
  let ?h = "gs_events s pid"
  obtain p sub st where p: "rec_proposal r = p" "pr_proposal_id p = pid"
    "normalise_identity (gw_canon w) (pr_proposer_id p) = Inr sub"
    "fold_loop (gw_canon w) pid sub 1 fold_init ?h = Inr st"
    "rec_state r = fd_state st" "rec_approvals r = fd_approvals st"
    "rec_version r = length ?h" "?h \<noteq> []" "well_formed (gw_canon w) pid ?h"
    "stored_proposal (gw_canon w) (hd ?h) = Inr p"
    using get_Inr [OF g inv] .
  have "loop_sound (gw_canon w) sub (length ?h) st" by (rule fold_loop_sound_history [OF p(4,8)])
  then obtain st' where "fold_event (gw_canon w) pid sub (rec_version r + 1) st e = Inr st'"
    using ok [of sub st] p by (auto simp: loop_sound_def Let_def)
  then have "well_formed (gw_canon w) pid (?h @ [e])"
    using well_formed_snoc [OF p(9,10) _ p(4)] p by simp
  then show ?thesis using ident p(7) by (simp add: planned_def Let_def)
qed

lemma plan_approve:
  assumes "approve_event w pid approver gate refs note s = (Inr (e, v), s')" "gate_inv (gw_canon w) s"
  shows "planned (gw_canon w) s' e v \<and> gate_inv (gw_canon w) s' \<and> te_proposal_id e = pid"
proof -
  obtain r s1 where o: "open_proposal w pid s = (Inr r, s1)"
    and c: "approve_checks w approver gate r = Inr ()"
    and m: "make_event w pid (rec_version r + 1) ''approved'' (Some (rec_state r)) gate approver
        (approve_detail refs note) s1 = (Inr e, s')" and v: "v = rec_version r"
    using assms(1) by (auto simp: approve_event_def sbind_eq_Inr)
  from o have g: "sharp_get w pid s = (Inr r, s1)" "\<not> TERMINAL (rec_state r)"
    by (simp_all add: open_proposal_Inr)
  from m have e: "te_proposal_id e = pid" "te_version e = rec_version r + 1" "te_kind e = ''approved''"
    "te_from e = Some (rec_state r)" "te_to e = gate" "te_actor e = approver"
    "te_detail e = Some (approve_detail refs note)" "s' = tick s1" by (auto simp: make_event_def)
  from c obtain who sub where who: "next_stage r = Some gate"
    "normalise_identity (gw_canon w) approver = Inr who"
    "normalise_identity (gw_canon w) (pr_proposer_id (rec_proposal r)) = Inr sub" "who \<noteq> sub"
    "already_approved (gw_canon w) who (rec_approvals r) = Inr False"
    by (auto simp: approve_checks_def rbind_eq_Inr)
  have "\<exists>a. approval_of e = Inr a"
    by (simp add: approval_of_def stored_detail_def e approve_detail_def)
  then have "planned (gw_canon w) s e (rec_version r)"
    using who g(2) e already_approved_False
    by (intro plan_next [OF g(1) assms(2)])
      (auto simp: fold_event_def stored_identity_def next_stage_def split: if_splits)
  then show ?thesis
    using get_frame [of w pid s] g(1) e(1,8) v assms(2) gate_inv_cong [of s' s] planned_events [of s' s]
    by simp
qed

lemma plan_reject:
  assumes "reject_event w pid approver reason s = (Inr (e, v), s')" "gate_inv (gw_canon w) s"
  shows "planned (gw_canon w) s' e v \<and> gate_inv (gw_canon w) s' \<and> te_proposal_id e = pid"
proof -
  obtain r s1 where o: "open_proposal w pid s = (Inr r, s1)"
    and c: "reject_checks w approver reason r = Inr ()"
    and m: "make_event w pid (rec_version r + 1) ''rejected'' (Some (rec_state r)) REJECTED approver
        (JObj [(''reason'', JStr reason)]) s1 = (Inr e, s')" and v: "v = rec_version r"
    using assms(1) by (auto simp: reject_event_def sbind_eq_Inr)
  from o have g: "sharp_get w pid s = (Inr r, s1)" "\<not> TERMINAL (rec_state r)"
    by (simp_all add: open_proposal_Inr)
  from m have e: "te_proposal_id e = pid" "te_version e = rec_version r + 1" "te_kind e = ''rejected''"
    "te_from e = Some (rec_state r)" "te_to e = REJECTED" "te_actor e = approver"
    "te_detail e = Some (JObj [(''reason'', JStr reason)])" "s' = tick s1" by (auto simp: make_event_def)
  from c obtain who where who: "py_strip reason \<noteq> []"
    "normalise_identity (gw_canon w) approver = Inr who"
    by (auto simp: reject_checks_def rbind_eq_Inr)
  have "stored_reason e = Inr reason"
    by (simp add: stored_reason_def stored_detail_def e who)
  then have "planned (gw_canon w) s e (rec_version r)"
    using who g(2) e
    by (intro plan_next [OF g(1) assms(2)]) (simp_all add: fold_event_def stored_identity_def)
  then show ?thesis
    using get_frame [of w pid s] g(1) e(1,8) v assms(2) gate_inv_cong [of s' s] planned_events [of s' s]
    by simp
qed

text \<open>A proposal object exists only if its constructor accepted it.\<close>

definition valid_proposal :: "(pystr \<Rightarrow> pystr) \<Rightarrow> proposal \<Rightarrow> bool" where
  "valid_proposal canon p \<longleftrightarrow> RubricChangeProposal_new canon p = Inr p"

lemma stored_proposal_to_detail:
  assumes "valid_proposal canon p" "te_detail e = Some (to_detail p)" "te_actor e = pr_proposer_id p"
  shows "stored_proposal canon e = Inr p"
proof -
  have refs: "map ((\<lambda>x. the (json_str x)) \<circ> JStr) xs = xs" for xs by (induction xs) auto
  have keys: "set (map fst [(''description'', JStr (pr_description p)),
           (''evidence_refs'', JArr (map JStr (pr_evidence_refs p))),
           (''proposal_id'', JStr (pr_proposal_id p)),
           (''proposed_change'', JStr (pr_proposed_change p)),
           (''proposer_id'', JStr (pr_proposer_id p)),
           (''rationale'', JStr (pr_rationale p))]) = proposal_keys"
    by (auto simp: proposal_keys_def)
  have same: "\<lparr>pr_proposal_id = pr_proposal_id p, pr_proposer_id = pr_proposer_id p,
      pr_description = pr_description p, pr_proposed_change = pr_proposed_change p,
      pr_rationale = pr_rationale p, pr_evidence_refs = pr_evidence_refs p\<rparr> = p" by simp
  show ?thesis
    using assms keys
    by (simp add: stored_proposal_def same to_detail_def str_arg_def valid_proposal_def refs comp_def
        list_all_iff guard_def)
qed

lemma plan_submit:
  assumes "submit_event w p s = (Inr (e, v), s')" "gate_inv (gw_canon w) s"
    "valid_proposal (gw_canon w) p"
  shows "planned (gw_canon w) s' e v \<and> gate_inv (gw_canon w) s' \<and> te_proposal_id e = pr_proposal_id p"
proof -
  from assms(1) have m: "\<exists>s1. make_event w (pr_proposal_id p) 1 ''submitted'' None DRAFT
      (pr_proposer_id p) (to_detail p) s1 = (Inr e, s') \<and> s1 = tick s" and v: "v = 0"
    by (auto simp: submit_event_def sbind_eq_Inr store_load_def split: if_splits option.splits)
  then have e: "te_proposal_id e = pr_proposal_id p" "te_version e = 1" "te_kind e = ''submitted''"
    "te_from e = None" "te_to e = DRAFT" "te_actor e = pr_proposer_id p"
    "te_detail e = Some (to_detail p)" "s' = tick (tick s)" by (auto simp: make_event_def)
  obtain sub where sub: "normalise_identity (gw_canon w) (pr_proposer_id p) = Inr sub"
    using assms(3) by (auto simp: valid_proposal_def RubricChangeProposal_new_def rbind_eq_Inr)
  have "stored_proposal (gw_canon w) e = Inr p"
    by (rule stored_proposal_to_detail [OF assms(3) e(7,6)])
  then have "well_formed (gw_canon w) (pr_proposal_id p) [e]"
    using sub e by (simp add: well_formed_def fold_event_def)
  then show ?thesis using v e assms(2) by (simp add: planned_def)
qed

section \<open>Concurrent use\<close>

text \<open>
  Several processes share the store and the audit log. Each command reads and plans, later writes
  its audit record, later appends; between these any other process may act, and the environment may
  differ at every step. \<open>cs_plans\<close> holds the planned events not yet audited, \<open>cs_audited\<close> those
  with an audit reference that are not yet appended.
\<close>

record conc_state =
  cs_gate :: gate_state
  cs_plans :: "(transition_event \<times> nat) list"
  cs_audited :: "(transition_event \<times> nat) list"

inductive gate_reach :: "(pystr \<Rightarrow> pystr) \<Rightarrow> conc_state \<Rightarrow> bool" for canon where
  start: "gate_reach canon \<lparr>cs_gate = \<lparr>gs_events = \<lambda>_. [], gs_audit = [], gs_calls = 0\<rparr>,
            cs_plans = [], cs_audited = []\<rparr>"
| read_submit: "gate_reach canon c \<Longrightarrow> gw_canon w = canon \<Longrightarrow> valid_proposal canon p
    \<Longrightarrow> submit_event w p (cs_gate c) = (Inr ev, s)
    \<Longrightarrow> gate_reach canon (c\<lparr>cs_gate := s, cs_plans := ev # cs_plans c\<rparr>)"
| read_approve: "gate_reach canon c \<Longrightarrow> gw_canon w = canon
    \<Longrightarrow> approve_event w pid approver gate refs note (cs_gate c) = (Inr ev, s)
    \<Longrightarrow> gate_reach canon (c\<lparr>cs_gate := s, cs_plans := ev # cs_plans c\<rparr>)"
| read_reject: "gate_reach canon c \<Longrightarrow> gw_canon w = canon
    \<Longrightarrow> reject_event w pid approver reason (cs_gate c) = (Inr ev, s)
    \<Longrightarrow> gate_reach canon (c\<lparr>cs_gate := s, cs_plans := ev # cs_plans c\<rparr>)"
| write_audit: "gate_reach canon c \<Longrightarrow> (e, v) \<in> set (cs_plans c)
    \<Longrightarrow> transition_payload e = Inr tp
    \<Longrightarrow> audit_record w (''sharp.'' @ te_kind e) (te_actor e) (Transition tp) (cs_gate c)
          = (Inr (Some (i, d)), s)
    \<Longrightarrow> gate_reach canon (c\<lparr>cs_gate := s, cs_plans := remove1 (e, v) (cs_plans c),
          cs_audited := (e\<lparr>te_audit_seq := Some i, te_audit_hash := Some d\<rparr>, v) # cs_audited c\<rparr>)"
| other_audit: "gate_reach canon c \<Longrightarrow> audit_record w etype actor pl (cs_gate c) = (r, s)
    \<Longrightarrow> gate_reach canon (c\<lparr>cs_gate := s\<rparr>)"
| append: "gate_reach canon c \<Longrightarrow> (e, v) \<in> set (cs_audited c)
    \<Longrightarrow> store_append w e v (cs_gate c) = (r, s)
    \<Longrightarrow> gate_reach canon (c\<lparr>cs_gate := s, cs_audited := remove1 (e, v) (cs_audited c)\<rparr>)"

definition conc_inv :: "(pystr \<Rightarrow> pystr) \<Rightarrow> conc_state \<Rightarrow> bool" where
  "conc_inv canon c \<longleftrightarrow> gate_inv canon (cs_gate c)
     \<and> (\<forall>(e, v) \<in> set (cs_plans c). planned canon (cs_gate c) e v)
     \<and> (\<forall>(e, v) \<in> set (cs_audited c). planned canon (cs_gate c) e v \<and> backed (gs_audit (cs_gate c)) e)"

text \<open>Plans stay good while histories only grow at their end.\<close>

definition grows :: "gate_state \<Rightarrow> gate_state \<Rightarrow> bool" where
  "grows s t \<longleftrightarrow> (\<forall>pid. \<exists>xs. gs_events t pid = gs_events s pid @ xs) \<and> (\<exists>xs. gs_audit t = gs_audit s @ xs)"

lemma grows_same: "gs_events t = gs_events s \<Longrightarrow> gs_audit t = gs_audit s \<Longrightarrow> grows s t"
  by (simp add: grows_def)

lemma planned_grows: "planned canon s e v \<Longrightarrow> grows s t \<Longrightarrow> planned canon t e v"
  unfolding planned_def Let_def grows_def by (metis le_add1 le_trans length_append take_append append_Nil2 diff_is_0_eq' take0 take_eq_Nil)

lemma backed_grows: "backed (gs_audit s) e \<Longrightarrow> grows s t \<Longrightarrow> backed (gs_audit t) e"
  using backed_mono by (auto simp: grows_def)

lemma audit_record_grows: "grows s (snd (audit_record w etype actor pl s))"
  by (auto simp: grows_def audit_record_def Let_def split: sink_outcome.split)

lemma store_append_grows: "grows s (snd (store_append w e v s))"
proof (cases "memory_append e v (gs_events s)")
  case (Inr ev)
  have "grows s (tick s\<lparr>gs_events := ev\<rparr>)" using memory_append_Inr [OF Inr] by (simp add: grows_def)
  then show ?thesis
    by (simp add: store_append_def Inr split: append_outcome.split) (simp add: grows_def)
qed (simp add: store_append_def grows_def split: append_outcome.split)

lemma conc_inv_grows:
  assumes "conc_inv canon c" "grows (cs_gate c) s" "gate_inv canon s"
  shows "conc_inv canon (c\<lparr>cs_gate := s\<rparr>)"
  using assms planned_grows backed_grows unfolding conc_inv_def by fastforce

lemma conc_inv_audit:
  assumes "audit_record w etype actor pl (cs_gate c) = (r, s)" "conc_inv canon c"
  shows "conc_inv canon (c\<lparr>cs_gate := s\<rparr>)"
proof -
  have "gate_inv canon (cs_gate c)" using assms(2) by (simp add: conc_inv_def)
  then show ?thesis
    using audit_record_grows [of "cs_gate c" w etype actor pl]
      gate_inv_audit [of canon "cs_gate c" w etype actor pl] assms conc_inv_grows by simp
qed

lemma conc_inv_plan:
  "conc_inv canon c \<Longrightarrow> planned canon (cs_gate c) (fst ev) (snd ev)
     \<Longrightarrow> conc_inv canon (c\<lparr>cs_plans := ev # cs_plans c\<rparr>)"
  by (auto simp: conc_inv_def)

lemma plan_frame:
  "submit_event w p s = (Inr ev, s') \<Longrightarrow> grows s s'"
  "approve_event w pid approver gate refs note s = (Inr ev, s') \<Longrightarrow> grows s s'"
  "reject_event w pid approver reason s = (Inr ev, s') \<Longrightarrow> grows s s'"
proof -
  show "submit_event w p s = (Inr ev, s') \<Longrightarrow> grows s s'"
    by (auto simp: submit_event_def sbind_eq_Inr store_load_def make_event_def grows_def
        split: if_splits option.splits)
  have get: "sharp_get w pid s = (Inr r, s1) \<Longrightarrow> grows s (tick s1)" for r s1
    using get_frame [of w pid s] by (simp add: grows_def)
  show "approve_event w pid approver gate refs note s = (Inr ev, s') \<Longrightarrow> grows s s'"
    by (auto simp: approve_event_def sbind_eq_Inr open_proposal_Inr make_event_def dest: get)
  show "reject_event w pid approver reason s = (Inr ev, s') \<Longrightarrow> grows s s'"
    by (auto simp: reject_event_def sbind_eq_Inr open_proposal_Inr make_event_def dest: get)
qed

lemma gate_reach_inv: "gate_reach canon c \<Longrightarrow> conc_inv canon c"
proof (induction rule: gate_reach.induct)
  case start
  then show ?case by (simp add: conc_inv_def gate_inv_def numbered_def)
next
  case (read_submit c w p ev s)
  then have "planned canon s (fst ev) (snd ev) \<and> gate_inv canon s"
    using plan_submit [of w p "cs_gate c" "fst ev" "snd ev" s] by (simp add: conc_inv_def)
  then have "conc_inv canon (c\<lparr>cs_gate := s\<rparr>)" "planned canon s (fst ev) (snd ev)"
    using conc_inv_grows read_submit plan_frame(1) by blast+
  from conc_inv_plan [OF this(1)] this(2) show ?case by simp
next
  case (read_approve c w pid approver gate refs nt ev s)
  then have "planned canon s (fst ev) (snd ev) \<and> gate_inv canon s"
    using plan_approve [of w pid approver gate refs nt "cs_gate c" "fst ev" "snd ev" s]
    by (simp add: conc_inv_def)
  then have "conc_inv canon (c\<lparr>cs_gate := s\<rparr>)" "planned canon s (fst ev) (snd ev)"
    using conc_inv_grows read_approve plan_frame(2) by blast+
  from conc_inv_plan [OF this(1)] this(2) show ?case by simp
next
  case (read_reject c w pid approver reason ev s)
  then have "planned canon s (fst ev) (snd ev) \<and> gate_inv canon s"
    using plan_reject [of w pid approver reason "cs_gate c" "fst ev" "snd ev" s]
    by (simp add: conc_inv_def)
  then have "conc_inv canon (c\<lparr>cs_gate := s\<rparr>)" "planned canon s (fst ev) (snd ev)"
    using conc_inv_grows read_reject plan_frame(3) by blast+
  from conc_inv_plan [OF this(1)] this(2) show ?case by simp
next
  case (write_audit c e v tp w i d s)
  let ?e = "e\<lparr>te_audit_seq := Some i, te_audit_hash := Some d\<rparr>"
  have c: "conc_inv canon (c\<lparr>cs_gate := s\<rparr>)"
    by (rule conc_inv_audit [OF write_audit.hyps(4) write_audit.IH])
  have "planned canon s e v" using c write_audit.hyps(2) by (auto simp: conc_inv_def)
  moreover have "backed (gs_audit s) ?e" using audit_record_backs write_audit.hyps(3,4) by blast
  ultimately show ?case using c by (auto simp: conc_inv_def dest: in_set_remove1 notin_set_remove1)
next
  case (other_audit c w etype actor pl r s)
  then show ?case using conc_inv_audit by blast
next
  case (append c e v w r s)
  have g: "grows (cs_gate c) s" using store_append_grows append.hyps by (metis snd_conv)
  have "gate_inv canon s"
    using append gate_inv_append [of canon "cs_gate c" e v w] by (auto simp: conc_inv_def)
  then have "conc_inv canon (c\<lparr>cs_gate := s\<rparr>)" using conc_inv_grows append.IH g by blast
  then show ?case by (auto simp: conc_inv_def dest: notin_set_remove1)
qed

section \<open>Commands of a single process\<close>

lemma well_formed_version:
  assumes "well_formed canon pid h" "x \<in> set h"
  shows "te_version x \<le> length h"
proof -
  obtain k where "k < length h" "x = h ! k" using assms(2) by (auto simp: in_set_conv_nth)
  then show ?thesis using assms(1) fold_loop_versions by (fastforce simp: well_formed_def)
qed

lemma well_formed_last_version:
  "well_formed canon pid (h @ [e]) \<Longrightarrow> te_version e = Suc (length h) \<and> te_proposal_id e = pid"
  by (auto simp: well_formed_def fold_loop_append rbind_eq_Inr dest: fold_event_ident)

lemma append_or_abort_Inr:
  assumes "append_or_abort w e tp v s = (Inr (), t)" "gate_inv canon s" "planned canon s e v"
    "v = length (gs_events s (te_proposal_id e))"
  shows "gs_events t (te_proposal_id e) = gs_events s (te_proposal_id e) @ [e] \<and> gs_audit t = gs_audit s"
proof -
  let ?h = "gs_events s (te_proposal_id e)"
  have wf: "well_formed canon (te_proposal_id e) (?h @ [e])" using assms(3,4) by (simp add: planned_def Let_def)
  have "x \<in> set ?h \<Longrightarrow> te_version x \<noteq> te_version e" for x
    using well_formed_version [of canon "te_proposal_id e" ?h x] well_formed_last_version [OF wf] assms(2)
    by (cases "?h = []") (auto simp: gate_inv_def)
  then have absent: "\<not> list_ex (\<lambda>x. te_version x = te_version e \<and> te_audit_seq x = te_audit_seq e
      \<and> te_audit_hash x = te_audit_hash e) ?h" by (auto simp: list_ex_iff)
  have app: "memory_append e v (gs_events s) = Inr ((gs_events s)(te_proposal_id e := ?h @ [e]))"
    using well_formed_last_version [OF wf] assms(4) by (simp add: memory_append_def Let_def)
  show ?thesis
  proof (cases "gw_append w (gs_calls s)")
    case AppendRuns
    then show ?thesis using assms(1) app by (auto simp: append_or_abort_def store_append_def)
  next
    case (AppendFails err)
    then show ?thesis using assms(1) absent
      by (auto simp: append_or_abort_def store_append_def store_outcome_def store_load_def
          split: option.splits if_splits prod.splits sum.splits)
  next
    case (AppendLosesAck err)
    then show ?thesis using assms(1) app
      by (auto simp: append_or_abort_def store_append_def store_outcome_def store_load_def
          split: option.splits if_splits prod.splits sum.splits)
  qed
qed

lemma commit_Inr:
  assumes "sharp_commit w e v s = (Inr (), t)" "gate_inv canon s" "planned canon s e v"
    "v = length (gs_events s (te_proposal_id e))"
  shows "\<exists>i d. gs_events t (te_proposal_id e) = gs_events s (te_proposal_id e)
            @ [e\<lparr>te_audit_seq := Some i, te_audit_hash := Some d\<rparr>]
          \<and> backed (gs_audit t) (e\<lparr>te_audit_seq := Some i, te_audit_hash := Some d\<rparr>)"
proof -
  obtain tp i d s1 where tp: "transition_payload e = Inr tp"
    and a: "audit_record w (''sharp.'' @ te_kind e) (te_actor e) (Transition tp) s = (Inr (Some (i, d)), s1)"
    and c: "append_or_abort w (e\<lparr>te_audit_seq := Some i, te_audit_hash := Some d\<rparr>) tp v s1 = (Inr (), t)"
    using assms(1)
    by (auto simp: sharp_commit_def split: sum.splits prod.splits option.splits)
  have s1: "gate_inv canon s1" "gs_events s1 = gs_events s"
    using gate_inv_audit [OF assms(2)] audit_record_events a by (metis snd_conv)+
  have "planned canon s1 (e\<lparr>te_audit_seq := Some i, te_audit_hash := Some d\<rparr>) v"
    using assms(3) planned_events [OF s1(2)] by simp
  from append_or_abort_Inr [OF c s1(1) this] assms(4) s1(2) audit_record_backs [OF a tp]
  show ?thesis by auto
qed

lemma plan_approve_length:
  assumes "approve_event w pid approver gate refs note s = (Inr (e, v), s')" "gate_inv (gw_canon w) s"
  shows "v = length (gs_events s' pid) \<and> gs_events s' = gs_events s \<and> te_actor e = approver \<and> te_to e = gate
     \<and> te_kind e = ''approved'' \<and> gw_authorized w approver gate = Inr True"
proof -
  obtain r s1 where o: "open_proposal w pid s = (Inr r, s1)"
    and c: "approve_checks w approver gate r = Inr ()"
    and m: "make_event w pid (rec_version r + 1) ''approved'' (Some (rec_state r)) gate approver
        (approve_detail refs note) s1 = (Inr e, s')" and v: "v = rec_version r"
    using assms(1) by (auto simp: approve_event_def sbind_eq_Inr)
  from o have g: "sharp_get w pid s = (Inr r, s1)" by (simp add: open_proposal_Inr)
  have "rec_version r = length (gs_events s pid)" by (rule get_Inr [OF g assms(2)])
  moreover have "gw_authorized w approver gate = Inr True"
    using c by (auto simp: approve_checks_def rbind_eq_Inr)
  ultimately show ?thesis using m v get_frame [of w pid s] g by (auto simp: make_event_def)
qed

lemma approve_Inr:
  assumes "sharp_approve w pid approver gate refs note s = (Inr r, t)" "gate_inv (gw_canon w) s"
  shows "\<exists>e. gs_events t pid = gs_events s pid @ [e] \<and> te_kind e = ''approved''
           \<and> te_actor e = approver \<and> te_to e = gate \<and> backed (gs_audit t) e
           \<and> gw_authorized w approver gate = Inr True
           \<and> rec_state r = gate \<and> rec_version r = Suc (length (gs_events s pid))"
proof -
  obtain e v s1 s2 where p: "approve_event w pid approver gate refs note s = (Inr (e, v), s1)"
    and c: "sharp_commit w e v s1 = (Inr (), s2)" and g: "sharp_get w pid s2 = (Inr r, t)"
    using assms(1) by (auto simp: sharp_approve_def perform_def sbind_eq_Inr)
  note pl = plan_approve [OF p assms(2)] and len = plan_approve_length [OF p assms(2)]
  obtain i d where e': "gs_events s2 pid = gs_events s1 pid @ [e\<lparr>te_audit_seq := Some i, te_audit_hash := Some d\<rparr>]"
    "backed (gs_audit s2) (e\<lparr>te_audit_seq := Some i, te_audit_hash := Some d\<rparr>)"
    using commit_Inr [OF c, of "gw_canon w"] pl len by auto
  let ?e = "e\<lparr>te_audit_seq := Some i, te_audit_hash := Some d\<rparr>"
  have inv2: "gate_inv (gw_canon w) s2" using gate_inv_commit pl c by (metis snd_conv)
  obtain p' sub st where f: "fold_loop (gw_canon w) pid sub 1 fold_init (gs_events s2 pid) = Inr st"
    "rec_state r = fd_state st" "rec_version r = length (gs_events s2 pid)"
    using get_Inr [OF g inv2] by metis
  then obtain st1 where "fold_event (gw_canon w) pid sub (Suc (length (gs_events s1 pid))) st1 ?e = Inr st"
    using e'(1) by (auto simp: fold_loop_append rbind_eq_Inr)
  moreover have "gs_events s1 pid \<noteq> []"
  proof -
    obtain r1 u where "sharp_get w pid s = (Inr r1, u)"
      using p by (auto simp: approve_event_def sbind_eq_Inr open_proposal_Inr)
    then show ?thesis using get_Inr [OF _ assms(2)] len by metis
  qed
  ultimately have "fd_state st = gate" using len by (auto elim!: fold_event_cases)
  then show ?thesis using e' f len get_frame [of w pid s2] g by auto
qed

lemma gate_inv_perform:
  assumes "gate_inv canon s" "gw_canon w = canon"
    and plan: "\<And>e v s'. plan s = (Inr (e, v), s') \<Longrightarrow> planned canon s' e v \<and> gate_inv canon s'"
    and fail: "\<And>err s'. plan s = (Inl err, s') \<Longrightarrow> gate_inv canon s'"
  shows "gate_inv canon (snd (perform w pid plan s))"
proof (cases "plan s")
  case (Pair r s1)
  show ?thesis
  proof (cases r)
    case (Inl err)
    then show ?thesis using fail Pair by (simp add: perform_def sbind_def)
  next
    case (Inr ev)
    obtain e v where ev: "ev = (e, v)" by force
    obtain c s2 where c: "sharp_commit w e v s1 = (c, s2)" by force
    have "gate_inv canon s2" using gate_inv_commit plan Pair Inr ev c by (metis snd_conv)
    moreover from this have "gate_inv canon (snd (sharp_get w pid s2))"
      using get_frame [of w pid s2] gate_inv_cong by metis
    ultimately show ?thesis
      using Pair Inr ev c by (cases c) (simp_all add: perform_def sbind_def)
  qed
qed

lemma plan_fails_frame:
  "submit_event w p s = (r, s') \<Longrightarrow> gs_events s' = gs_events s \<and> gs_audit s' = gs_audit s"
  by (auto simp: submit_event_def sbind_def store_load_def make_event_def spure_def
      split: if_splits option.splits prod.splits sum.splits)

lemma gate_inv_submit:
  assumes "gate_inv (gw_canon w) s" "valid_proposal (gw_canon w) p"
  shows "gate_inv (gw_canon w) (snd (sharp_submit w p s))"
  unfolding sharp_submit_def
proof (rule gate_inv_perform [OF assms(1) refl])
  show "planned (gw_canon w) s' e v \<and> gate_inv (gw_canon w) s'"
    if "submit_event w p s = (Inr (e, v), s')" for e v s'
    using plan_submit [OF that assms] by simp
  show "gate_inv (gw_canon w) s'" if "submit_event w p s = (Inl err, s')" for err s'
    using plan_fails_frame [OF that] gate_inv_cong [of s' s] assms(1) by simp
qed

section \<open>Properties\<close>

text \<open>
  C15: A proposal reported as PROMOTED was signed for all six stages in order, by six different
  people none of whom is the proposer (identities compared in normalised form), in exactly seven
  stored transitions, each of them backed by an audit record of its own that says the same.
\<close>

theorem promoted_means_six_distinct_signatures:
  assumes "fold_history canon lookup es = Inr r" "rec_state r = PROMOTED"
  shows "map ap_stage (rec_approvals r) = [COMPLIANCE, LEGAL, BACKTEST, RISK, CANARY, PROMOTED]
     \<and> rec_version r = 7 \<and> length es = 7
     \<and> (\<exists>sub signers. normalise_identity canon (pr_proposer_id (rec_proposal r)) = Inr sub
          \<and> list_all2 (\<lambda>a who. normalise_identity canon (ap_approver_id a) = Inr who)
              (rec_approvals r) signers
          \<and> distinct (sub # signers))
     \<and> (\<exists>found. lookup (map (\<lambda>e. the (te_audit_seq e)) es) = Inr found
          \<and> distinct (map (\<lambda>e. the (te_audit_seq e)) es)
          \<and> (\<forall>e \<in> set es. \<exists>entry. found (the (te_audit_seq e)) = Some entry
               \<and> entry_matches entry e = Inr True))"
  using assms(1)
proof (rule fold_history_Inr)
  fix p sub st
  assume h: "es \<noteq> []" "normalise_identity canon (pr_proposer_id p) = Inr sub"
    "fold_loop canon (pr_proposal_id p) sub 1 fold_init es = Inr st"
    "verify_audit_records lookup es = Inr ()"
    "r = \<lparr>rec_proposal = p, rec_state = fd_state st, rec_version = length es,
          rec_approvals = fd_approvals st, rec_rejected_by = fd_rejected_by st,
          rec_rejection_reason = fd_reason st\<rparr>"
  have s: "loop_sound canon sub (length es) st" by (rule fold_loop_sound_history [OF h(3,1)])
  with h(5) assms(2) have k: "length (fd_approvals st) = 6"
    using PIPELINE_nth_PROMOTED [of "length (fd_approvals st)"]
    by (simp add: loop_sound_def Let_def split: if_splits)
  with s h(5) assms(2) have "length es = 7" "map ap_stage (fd_approvals st) = take 6 (tl PIPELINE)"
    "distinct (sub # fd_signers st)"
    "list_all2 (\<lambda>a who. normalise_identity canon (ap_approver_id a) = Inr who)
       (fd_approvals st) (fd_signers st)"
    by (simp_all add: loop_sound_def Let_def)
  then show ?thesis
    using h verify_audit_Inr [OF h(4)] by (auto simp: PIPELINE_def)
qed

definition ex_canon :: "pystr \<Rightarrow> pystr" where
  "ex_canon i = py_lower (py_strip i)"

definition ex_proposal :: proposal where
  "ex_proposal = \<lparr>pr_proposal_id = ''p'', pr_proposer_id = ''z'', pr_description = ''d'',
     pr_proposed_change = ''c'', pr_rationale = ''r'', pr_evidence_refs = [''e'']\<rparr>"

definition ex_step :: "nat \<Rightarrow> sharp_stage option \<Rightarrow> sharp_stage \<Rightarrow> pystr \<Rightarrow> transition_event" where
  "ex_step n from_st to_st actor =
     \<lparr>te_proposal_id = ''p'', te_version = n,
      te_kind = (if from_st = None then ''submitted'' else ''approved''), te_from = from_st,
      te_to = to_st, te_actor = actor, te_occurred_at = 0,
      te_detail = Some (if from_st = None then to_detail ex_proposal else approve_detail [] []),
      te_audit_seq = Some (int n), te_audit_hash = Some ''h''\<rparr>"

definition ex_history :: "transition_event list" where
  "ex_history = [ex_step 1 None DRAFT ''z'', ex_step 2 (Some DRAFT) COMPLIANCE ''a'',
     ex_step 3 (Some COMPLIANCE) LEGAL ''b'', ex_step 4 (Some LEGAL) BACKTEST ''c'',
     ex_step 5 (Some BACKTEST) RISK ''d'', ex_step 6 (Some RISK) CANARY ''e'',
     ex_step 7 (Some CANARY) PROMOTED ''f'']"

definition ex_log :: "audit_entry list" where
  "ex_log = map (\<lambda>e. \<lparr>ae_seq = the (te_audit_seq e), ae_hash = ''h'',
     ae_event_type = ''sharp.'' @ te_kind e, ae_actor = te_actor e,
     ae_payload = (case transition_payload e of Inr tp \<Rightarrow> Transition tp | Inl _ \<Rightarrow> Foreign JNull)\<rparr>)
     ex_history"

theorem promoted_means_six_distinct_signatures_witness:
  "\<exists>r. fold_history ex_canon (\<lambda>seqs. Inr (audit_find ex_log seqs)) ex_history = Inr r
     \<and> rec_state r = PROMOTED
     \<and> map ap_stage (rec_approvals r) = [COMPLIANCE, LEGAL, BACKTEST, RISK, CANARY, PROMOTED]"
proof -
  have "case fold_history ex_canon (\<lambda>seqs. Inr (audit_find ex_log seqs)) ex_history of
    Inl _ \<Rightarrow> False | Inr r \<Rightarrow> rec_state r = PROMOTED" by code_simp
  then obtain r where r: "fold_history ex_canon (\<lambda>seqs. Inr (audit_find ex_log seqs)) ex_history = Inr r"
    "rec_state r = PROMOTED" by (auto split: sum.splits)
  from r conjunct1 [OF promoted_means_six_distinct_signatures [OF r]] show ?thesis
    by (intro exI conjI)
qed

text \<open>
  C16: However several processes interleave their reads, audit writes and appends, and whatever the
  audit log, the store and the lookup do at each call, every stored history can be read back: it
  passes every check of \<open>fold\<close>, including its audit records, whenever the lookup answers.
\<close>

theorem concurrent_histories_fold:
  assumes "gate_reach canon c" "gs_events (cs_gate c) pid \<noteq> []"
  shows "\<exists>r. fold_history canon (\<lambda>seqs. Inr (audit_find (gs_audit (cs_gate c)) seqs))
               (gs_events (cs_gate c) pid) = Inr r
           \<and> pr_proposal_id (rec_proposal r) = pid
           \<and> rec_version r = length (gs_events (cs_gate c) pid)"
  using gate_reach_inv [OF assms(1)] assms(2)
  by (intro well_formed_folds) (simp_all add: conc_inv_def gate_inv_def)

definition ex_gate_world :: gate_world where
  "ex_gate_world = \<lparr>gw_canon = ex_canon, gw_sink = (\<lambda>n. SinkCommits),
     gw_hash = (\<lambda>n. ''h''), gw_load = (\<lambda>n. None), gw_append = (\<lambda>n. AppendRuns),
     gw_lookup = (\<lambda>n. None), gw_authorized = (\<lambda>i st. Inr True), gw_clock = (\<lambda>n. 0)\<rparr>"

definition ex_empty :: gate_state where
  "ex_empty = \<lparr>gs_events = \<lambda>_. [], gs_audit = [], gs_calls = 0\<rparr>"

definition ex_submitted :: gate_state where
  "ex_submitted = snd (sharp_submit ex_gate_world ex_proposal ex_empty)"
text \<open>One process plans a submission, writes its audit record and appends.\<close>

definition ex_planned :: transition_event where
  "ex_planned = (ex_step 1 None DRAFT ''z'')\<lparr>te_audit_seq := None, te_audit_hash := None\<rparr>"

lemma ex_conc_reach: "\<exists>c. gate_reach ex_canon c \<and> length (gs_events (cs_gate c) ''p'') = 1"
proof -
  let ?w = ex_gate_world
  define s1 where "s1 = snd (submit_event ?w ex_proposal ex_empty)"
  define tp where "tp = (case transition_payload ex_planned of Inr tp \<Rightarrow> tp | Inl _ \<Rightarrow> undefined)"
  define s2 where "s2 = snd (audit_record ?w (''sharp.'' @ te_kind ex_planned) (te_actor ex_planned)
      (Transition tp) s1)"
  define s3 where "s3 = snd (store_append ?w (ex_step 1 None DRAFT ''z'') 0 s2)"
  have w: "gw_canon ?w = ex_canon" by (simp add: ex_gate_world_def)
  have v: "valid_proposal ex_canon ex_proposal" unfolding valid_proposal_def by code_simp
  have r0: "gate_reach ex_canon \<lparr>cs_gate = ex_empty, cs_plans = [], cs_audited = []\<rparr>"
    unfolding ex_empty_def by (rule gate_reach.start)
  have "fst (submit_event ?w ex_proposal ex_empty) = Inr (ex_planned, 0)" by code_simp
  then have "submit_event ?w ex_proposal ex_empty = (Inr (ex_planned, 0), s1)"
    unfolding s1_def by (metis prod.collapse)
  with gate_reach.read_submit [OF r0 w v, of "(ex_planned, 0)" s1]
  have r1: "gate_reach ex_canon \<lparr>cs_gate = s1, cs_plans = [(ex_planned, 0)], cs_audited = []\<rparr>" by simp
  have t: "transition_payload ex_planned = Inr tp" unfolding tp_def by code_simp
  have "fst (audit_record ?w (''sharp.'' @ te_kind ex_planned) (te_actor ex_planned) (Transition tp) s1)
      = Inr (Some (1, ''h''))" unfolding s1_def tp_def by code_simp
  then have a: "audit_record ?w (''sharp.'' @ te_kind ex_planned) (te_actor ex_planned) (Transition tp) s1
      = (Inr (Some (1, ''h'')), s2)" unfolding s2_def by (metis prod.collapse)
  have e: "ex_planned\<lparr>te_audit_seq := Some 1, te_audit_hash := Some ''h''\<rparr> = ex_step 1 None DRAFT ''z''"
    by (simp add: ex_planned_def ex_step_def)
  from gate_reach.write_audit [OF r1 _ t, of 0 ?w 1 "''h''" s2] a
  have r2: "gate_reach ex_canon \<lparr>cs_gate = s2, cs_plans = [], cs_audited = [(ex_step 1 None DRAFT ''z'', 0)]\<rparr>"
    by (simp add: e)
  have "store_append ?w (ex_step 1 None DRAFT ''z'') 0 s2
      = (fst (store_append ?w (ex_step 1 None DRAFT ''z'') 0 s2), s3)" by (simp add: s3_def)
  with gate_reach.append [OF r2, of "ex_step 1 None DRAFT ''z''" 0 ?w]
  have r3: "gate_reach ex_canon \<lparr>cs_gate = s3, cs_plans = [], cs_audited = []\<rparr>" by simp
  have "length (gs_events s3 ''p'') = 1" unfolding s3_def s2_def s1_def tp_def by code_simp
  then show ?thesis using r3 by force
qed

theorem concurrent_histories_fold_witness:
  "\<exists>c r. gate_reach ex_canon c \<and> fold_history ex_canon
     (\<lambda>seqs. Inr (audit_find (gs_audit (cs_gate c)) seqs)) (gs_events (cs_gate c) ''p'') = Inr r
     \<and> rec_version r = 1"
proof -
  obtain c where c: "gate_reach ex_canon c" "length (gs_events (cs_gate c) ''p'') = 1"
    using ex_conc_reach by blast
  then have "gs_events (cs_gate c) ''p'' \<noteq> []" by auto
  from concurrent_histories_fold [OF c(1) this] c show ?thesis by auto
qed

text \<open>
  A successful approval is exactly one new stored transition, by the named and authorised
  approver, into the stage asked for, backed by an audit record; the record returned shows it.
\<close>

theorem approval_is_one_audited_row:
  assumes "sharp_approve w pid approver gate refs nt s = (Inr r, t)" "gate_inv (gw_canon w) s"
  shows "\<exists>e. gs_events t pid = gs_events s pid @ [e] \<and> te_kind e = ''approved''
           \<and> te_actor e = approver \<and> te_to e = gate \<and> backed (gs_audit t) e
           \<and> gw_authorized w approver gate = Inr True
           \<and> rec_state r = gate \<and> rec_version r = Suc (length (gs_events s pid))"
  by (rule approve_Inr [OF assms])

theorem approval_is_one_audited_row_witness:
  "\<exists>r t e. sharp_approve ex_gate_world ''p'' ''Ann'' COMPLIANCE [''ref''] ''ok'' ex_submitted = (Inr r, t)
     \<and> gs_events t ''p'' = gs_events ex_submitted ''p'' @ [e] \<and> te_actor e = ''Ann''
     \<and> backed (gs_audit t) e"
proof -
  have v: "valid_proposal ex_canon ex_proposal" unfolding valid_proposal_def by code_simp
  have "gate_inv ex_canon ex_empty" by (simp add: gate_inv_def ex_empty_def numbered_def)
  then have inv: "gate_inv (gw_canon ex_gate_world) ex_submitted"
    using gate_inv_submit [of ex_gate_world ex_empty ex_proposal] v
    by (simp add: ex_submitted_def ex_gate_world_def)
  have "case fst (sharp_approve ex_gate_world ''p'' ''Ann'' COMPLIANCE [''ref''] ''ok'' ex_submitted) of
      Inl _ \<Rightarrow> False | Inr r \<Rightarrow> True" by code_simp
  then obtain r t where
    a: "sharp_approve ex_gate_world ''p'' ''Ann'' COMPLIANCE [''ref''] ''ok'' ex_submitted = (Inr r, t)"
    by (metis (no_types, lifting) prod.collapse sum.case_eq_if sum.collapse(2))
  from approval_is_one_audited_row [OF a inv] a show ?thesis by blast
qed

end
