(* ===== verification/Service_Properties.thy ===== *)
theory Service_Properties
  imports Service Motor_Properties Sharp_Safety
begin

text \<open>
  The properties of the order path (\<open>Service\<close>): what reaching a broker implies about compliance,
  what Aegis is told, and what production configuration enforces, exercised on a concrete request.
\<close>

section \<open>A concrete request\<close>

definition ex_decision_msg :: decision_msg where
  "ex_decision_msg = \<lparr>dm_decision = 1, dm_signal_id = ''s1'', dm_order = Some ex_order_msg,
     dm_attestation = Some ex_attestation_msg\<rparr>"

definition ex_context :: context_msg where
  "ex_context = \<lparr>cx_signal = Some \<lparr>sg_signal_id = ''s1'', sg_symbol = ''AAPL'', sg_strategy_id = ''st''\<rparr>,
     cx_snapshot_symbol = Some ''AAPL''\<rparr>"

definition ex_request :: request_msg where
  "ex_request = \<lparr>rq_decision = ex_decision_msg, rq_context = Some ex_context\<rparr>"

definition ex_service_motor :: motor where
  "ex_service_motor = ex_motor\<lparr>m_sha := (\<lambda>b. ''h''), m_verify := (\<lambda>p sg k. Inr (sg = ''sig''))\<rparr>"

definition ex_service_world :: world where
  "ex_service_world = ex_world\<lparr>w_clock := (\<lambda>n. 5)\<rparr>"

definition ex_writer :: "unit manifest_writer" where
  "ex_writer d cx mst = (Inr ''digest'', mst)"

definition ex_gates :: "unit compliance_gates" where
  "ex_gates = \<lparr>cg_manifest = Some ex_writer, cg_strategy_gate = Some (sharp_gate_check [''st'' \<mapsto> ''p'']
     ex_canon (\<lambda>pid. Inr ex_history) (\<lambda>seqs. Inr (audit_find ex_log seqs)) [''PROMOTED''])\<rparr>"

definition ex_handled :: "unit handled" where
  "ex_handled = handle_request ex_service_motor ex_service_world ex_request 5 ex_gates None True ex_state"

definition ex_zero_fill_world :: world where
  "ex_zero_fill_world = ex_world\<lparr>w_submit := (\<lambda>n v q. Submitted (ex_broker_order
     \<lparr>b_status := FILLED, b_filled_quantity := 10, b_filled_avg_price := Some 0\<rparr>))\<rparr>"
section \<open>Properties\<close>



text \<open>
  Aegis is told about an order only if it was sent to a broker, whichever entry point handled
  it; and a sent order is always reported unless the report is an internal error.
\<close>

theorem aegis_told_only_of_sent_orders:
  assumes "handle_request m w rq now g ref rep s = (Inr r, t, reps)
         \<or> handle_decision m w (rq_decision rq) now ref rep g s = (Inr r, t, reps)"
  shows "(reps \<noteq> [] \<longrightarrow> ms_sent t \<noteq> ms_sent s)
     \<and> (rep \<and> ms_sent t \<noteq> ms_sent s \<longrightarrow> reps = [r] \<or> r_reject_reason r = Some INTERNAL_ERROR)"
  using assms
proof
  assume "handle_request m w rq now g ref rep s = (Inr r, t, reps)"
  then show ?thesis by (cases rule: handle_request_cases) (simp, metis executed_report)
next
  assume "handle_decision m w (rq_decision rq) now ref rep g s = (Inr r, t, reps)"
  then show ?thesis by (cases rule: handle_decision_cases) (simp, metis executed_report)
qed

theorem aegis_told_only_of_sent_orders_witness:
  "\<exists>r t. handle_request ex_service_motor ex_service_world ex_request 5 ex_gates None True ex_state
       = (Inr r, t, [r]) \<and> ms_sent t \<noteq> ms_sent ex_state"
proof -
  have "case ex_handled of (Inl e, _) \<Rightarrow> False | (Inr r, t, reps) \<Rightarrow> reps = [r]" by code_simp
  then obtain r t where h: "handle_request ex_service_motor ex_service_world ex_request 5 ex_gates
      None True ex_state = (Inr r, t, [r])"
    by (auto simp: ex_handled_def [symmetric] split: prod.splits sum.splits)
  from aegis_told_only_of_sent_orders [OF disjI1 [OF h]] h show ?thesis by blast
qed

text \<open>
  In production both compliance gates are on: a configuration that could be read and wired has
  a manifest writer and a strategy gate that accepts PROMOTED (and CANARY only on opt-in), and a
  bare decision without context is then refused without running the motor.
\<close>

theorem production_enforces_both_gates:
  assumes "ComplianceConfig_from_env env True = Inr c"
    and "build_compliance c writer maps canon load lookup = Inr g"
  shows "(\<exists>d. cg_manifest g = Some (writer d))
     \<and> (\<exists>strategies. cg_strategy_gate g = Some (sharp_gate_check strategies canon load lookup
          (if cc_allow_canary c then [''PROMOTED'', ''CANARY''] else [''PROMOTED''])))
     \<and> handle_decision m w d now ref rep g s =
         (invalid_report d ''compliance is enforced: use ExecuteWithContext'' now CONTEXT_MISSING, s, [])"
proof -
  obtain dir mf where c: "cc_manifest_dir c = Some dir" "cc_strategy_map_file c = Some mf"
    using assms(1)
    by (auto simp: ComplianceConfig_from_env_def Let_def rbind_eq_Inr split: if_splits)
  with assms(2) have "cg_manifest g = Some (writer dir)"
    "\<exists>strategies. cg_strategy_gate g = Some (sharp_gate_check strategies canon load lookup
          (if cc_allow_canary c then [''PROMOTED'', ''CANARY''] else [''PROMOTED'']))"
    by (auto simp: build_compliance_def needs_audit_db_def rbind_eq_Inr split: if_splits)
  then show ?thesis by (auto simp: handle_decision_def requires_context_def)
qed

definition ex_gate_env :: env where
  "ex_gate_env = [''MOTOR_MANIFEST_DIR'' \<mapsto> ''/m'', ''MOTOR_SHARP_STRATEGY_MAP'' \<mapsto> ''/f'']"

theorem production_enforces_both_gates_witness:
  "\<exists>c g. ComplianceConfig_from_env ex_gate_env True = Inr c
     \<and> build_compliance c (\<lambda>d. ex_writer) (\<lambda>f. Inr (JObj [(''st'', JStr ''p'')])) ex_canon
         (\<lambda>pid. Inr ex_history) (\<lambda>seqs. Inr (audit_find ex_log seqs)) = Inr g
     \<and> fst (handle_decision ex_service_motor ex_service_world ex_decision_msg 5 None True g ex_state)
         = invalid_report ex_decision_msg ''compliance is enforced: use ExecuteWithContext'' 5 CONTEXT_MISSING"
proof -
  define c where "c = \<lparr>cc_manifest_dir = Some ''/m'', cc_strategy_map_file = Some ''/f'',
    cc_allow_canary = False, cc_audit_actor = ''execution-motor''\<rparr>"
  have c: "ComplianceConfig_from_env ex_gate_env True = Inr c" unfolding c_def by code_simp
  obtain g where g: "build_compliance c (\<lambda>d. ex_writer) (\<lambda>f. Inr (JObj [(''st'', JStr ''p'')])) ex_canon
      (\<lambda>pid. Inr ex_history) (\<lambda>seqs. Inr (audit_find ex_log seqs)) = Inr g"
  proof -
    have "py_strip ''st'' \<noteq> []" "py_strip ''p'' \<noteq> []" by code_simp+
    then show thesis using that
      by (simp add: build_compliance_def c_def needs_audit_db_def load_strategy_map_def)
  qed
  from production_enforces_both_gates [OF c g, of ex_service_motor ex_service_world ex_decision_msg 5
      None True ex_state] c g show ?thesis by auto
qed

text \<open>
  A broker answer that reports a fill at price 0 turns a sent order into a rejection that is not
  reported to Aegis: the order was submitted, yet the report says REJECTED with an internal error
  and nothing reaches the reporter. (The kill switch is latched, so the motor stops there.)
\<close>

theorem zero_price_fill_hides_sent_order:
  "case execute_and_report ex_motor ex_zero_fill_world ex_attested None True None ex_state of
     (Inr r, t, reps) \<Rightarrow> length (ms_sent t) = 1 \<and> r_status r = exec_status.REJECTED
       \<and> r_reject_reason r = Some INTERNAL_ERROR \<and> reps = [] \<and> ks_halted (ms_kill t)
   | (Inl e, t, reps) \<Rightarrow> False"
  by code_simp

end
