(* ===== verification/Kill_Watch.thy ===== *)
theory Kill_Watch
  imports Halt "HOL-Library.Multiset"
begin

text \<open>
  Reaction to the Aegis kill-switch state (\<open>execution_motor/kill_watch.py\<close>): the mirror of the
  effective level, the sweep that cancels open orders, and the watcher whose stream thread and
  sweeper thread share the mirror, the pending sweep request and the wake-up flag.

  The state keeps the reasons of the sweeps made so far (\<open>kw_sweeps\<close>). A stream is the list of
  messages it delivers and how it ends; the answers of the brokers and of the liveness probe are
  parameters. The step function \<open>watch_step\<close> interleaves the two threads and the operator at the
  granularity of the handlers; \<open>Stream*\<close> actions are made by the stream thread, \<open>Sweeper*\<close> ones by
  the sweeper thread, which takes a request and runs it in separate actions.
\<close>

section \<open>Levels and the mirror\<close>

definition KILL_LEVEL_NORMAL :: int where "KILL_LEVEL_NORMAL = 0"
definition KILL_LEVEL_SOFT :: int where "KILL_LEVEL_SOFT = 1"
definition KILL_LEVEL_LOGIC :: int where "KILL_LEVEL_LOGIC = 2"
definition KILL_LEVEL_HARD :: int where "KILL_LEVEL_HARD = 4"
definition KILL_LEVEL_MAX :: int where "KILL_LEVEL_MAX = 5"
definition CANCEL_THRESHOLD :: int where "CANCEL_THRESHOLD = KILL_LEVEL_LOGIC"

lemmas level_defs = KILL_LEVEL_NORMAL_def KILL_LEVEL_SOFT_def KILL_LEVEL_LOGIC_def
  KILL_LEVEL_HARD_def KILL_LEVEL_MAX_def CANCEL_THRESHOLD_def

record watcher =
  kw_level :: int
  kw_known :: bool
  kw_last_seq :: "int option"
  kw_pending :: "pystr option"
  kw_taken :: "pystr option"
  kw_wake :: bool
  kw_active :: bool
  kw_stop :: bool
  kw_sweeps :: "pystr list"

text \<open>\<open>KillLevelMirror\<close>: \<open>apply\<close> and \<open>mark_unknown\<close> return the previous level.\<close>

definition mirror_apply :: "int \<Rightarrow> watcher \<Rightarrow> int \<times> watcher" where
  "mirror_apply level s =
     (let safe = if KILL_LEVEL_NORMAL \<le> level \<and> level \<le> KILL_LEVEL_MAX then level
                 else KILL_LEVEL_HARD
      in (kw_level s, s\<lparr>kw_level := safe, kw_known := True\<rparr>))"

definition mark_unknown :: "watcher \<Rightarrow> int \<times> watcher" where
  "mark_unknown s = (kw_level s, s\<lparr>kw_level := KILL_LEVEL_HARD, kw_known := False\<rparr>)"

section \<open>Cancelling open orders\<close>

record venue_view =
  vv_name :: pystr
  vv_orders :: "exc + broker_order list"
  vv_cancel :: "pystr \<Rightarrow> exc option"

record sweep_result =
  sw_listed :: nat
  sw_cancelled :: "pystr list"
  sw_failed :: "pystr list"
  sw_unreadable :: "pystr list"

definition sweep_complete :: "sweep_result \<Rightarrow> bool" where
  "sweep_complete r \<longleftrightarrow> sw_failed r = [] \<and> sw_unreadable r = []"

fun cancel_each ::
  "(pystr \<Rightarrow> exc option) \<Rightarrow> broker_order list \<Rightarrow> pystr list \<times> pystr list \<Rightarrow> pystr list \<times> pystr list"
  where
  "cancel_each cancel [] acc = acc"
| "cancel_each cancel (ord # ords) (cancelled, failed) =
     (case cancel (b_broker_order_id ord) of
        Some e \<Rightarrow> cancel_each cancel ords (cancelled, failed @ [b_broker_order_id ord])
      | None \<Rightarrow> cancel_each cancel ords (cancelled @ [b_broker_order_id ord], failed))"

definition sweep_venue ::
  "venue_view \<Rightarrow> pystr list \<times> pystr list \<Rightarrow> nat option \<times> pystr list \<times> pystr list" where
  "sweep_venue v acc =
     (case vv_orders v of
        Inl e \<Rightarrow> (None, acc)
      | Inr ords \<Rightarrow> (Some (length ords), cancel_each (vv_cancel v) ords acc))"

fun sweep_venues :: "venue_view list \<Rightarrow> sweep_result \<Rightarrow> sweep_result" where
  "sweep_venues [] r = r"
| "sweep_venues (v # vs) r =
     (case sweep_venue v (sw_cancelled r, sw_failed r) of
        (None, (cancelled, failed)) \<Rightarrow>
          sweep_venues vs (r\<lparr>sw_cancelled := cancelled, sw_failed := failed,
                             sw_unreadable := sw_unreadable r @ [vv_name v]\<rparr>)
      | (Some n, (cancelled, failed)) \<Rightarrow>
          sweep_venues vs (r\<lparr>sw_listed := sw_listed r + n, sw_cancelled := cancelled,
                             sw_failed := failed\<rparr>))"

definition sweep :: "venue_view list \<Rightarrow> sweep_result" where
  "sweep vs = sweep_venues vs \<lparr>sw_listed = 0, sw_cancelled = [], sw_failed = [], sw_unreadable = []\<rparr>"

section \<open>The watcher\<close>

definition KillSwitchWatcher_new :: watcher where
  "KillSwitchWatcher_new = \<lparr>kw_level = KILL_LEVEL_HARD, kw_known = False, kw_last_seq = None,
     kw_pending = None, kw_taken = None, kw_wake = False, kw_active = False, kw_stop = False,
     kw_sweeps = []\<rparr>"

definition build_kill_guard :: "kill_switch \<times> watcher" where
  "build_kill_guard = (KillSwitch_new False True False, KillSwitchWatcher_new)"

text \<open>What the guard's kill switch answers while the mirror is in a given state.\<close>

definition guard_halted :: "watcher \<Rightarrow> bool" where
  "guard_halted s =
     fst (ks_is_halted (fst build_kill_guard) (KillStateHaltSource_is_halted (Inr (kw_level s))))"

definition do_sweep :: "pystr \<Rightarrow> watcher \<Rightarrow> watcher" where
  "do_sweep reason s = s\<lparr>kw_sweeps := kw_sweeps s @ [reason]\<rparr>"

definition request_sweep :: "pystr \<Rightarrow> watcher \<Rightarrow> watcher" where
  "request_sweep reason s =
     (if \<not> kw_active s then do_sweep reason s
      else s\<lparr>kw_pending := Some reason, kw_wake := True\<rparr>)"

definition begin_stream :: "watcher \<Rightarrow> watcher" where
  "begin_stream s = s\<lparr>kw_last_seq := None\<rparr>"

definition out_of_order :: "watcher \<Rightarrow> int \<Rightarrow> bool" where
  "out_of_order s seq \<longleftrightarrow> (case kw_last_seq s of None \<Rightarrow> False | Some l \<Rightarrow> seq < l)"

definition handle_state :: "int \<Rightarrow> int \<Rightarrow> watcher \<Rightarrow> watcher" where
  "handle_state seq level s =
     (if out_of_order s seq then s
      else case mirror_apply level (s\<lparr>kw_last_seq := Some seq\<rparr>) of (previous, s1) \<Rightarrow>
        if CANCEL_THRESHOLD \<le> kw_level s1
        then request_sweep
               (''aegis kill level '' @ int_str (kw_level s1) @ '' (seq '' @ int_str seq @ '')'') s1
        else s1)"

definition handle_stream_down :: "pystr \<Rightarrow> watcher \<Rightarrow> watcher" where
  "handle_stream_down reason s =
     request_sweep (''kill state unknown: '' @ reason) (snd (mark_unknown s))"

text \<open>
  \<open>consume\<close>: each message comes with whether \<open>stop()\<close> was called before it was looked at; \<open>failure\<close>
  is the exception that ended the stream, if any.
\<close>

fun consume_loop :: "nat \<Rightarrow> (bool \<times> int \<times> int) list \<Rightarrow> watcher \<Rightarrow> nat \<times> watcher" where
  "consume_loop received [] s = (received, s)"
| "consume_loop received ((stopped, seq, level) # msgs) s =
     (let s' = s\<lparr>kw_stop := kw_stop s \<or> stopped\<rparr>
      in if kw_stop s' then (received, s')
         else consume_loop (Suc received) msgs (handle_state seq level s'))"

definition consume ::
  "(bool \<times> int \<times> int) list \<Rightarrow> exc option \<Rightarrow> bool \<Rightarrow> watcher \<Rightarrow> nat \<times> watcher" where
  "consume msgs failure stopped s =
     (case consume_loop 0 msgs s of (received, s1) \<Rightarrow>
      let s2 = s1\<lparr>kw_stop := kw_stop s1 \<or> stopped\<rparr>;
          reason = (case failure of None \<Rightarrow> ''stream ended'' | Some e \<Rightarrow> exc_name e)
      in (received, if kw_stop s2 then snd (mark_unknown s2) else handle_stream_down reason s2))"

definition sweep_if_elevated :: "watcher \<Rightarrow> watcher" where
  "sweep_if_elevated s =
     (if kw_level s < CANCEL_THRESHOLD then s
      else do_sweep (''re-sweep at kill level '' @ int_str (kw_level s)) s)"

definition watcher_start :: "watcher \<Rightarrow> watcher" where
  "watcher_start s = s\<lparr>kw_stop := False, kw_active := True\<rparr>"

text \<open>\<open>stop\<close>: the flag, the wake-up, and, once the threads are joined, no sweeper.\<close>

definition watcher_stop :: "watcher \<Rightarrow> watcher" where
  "watcher_stop s = s\<lparr>kw_stop := True, kw_wake := True, kw_active := False\<rparr>"

text \<open>
  One turn of \<open>_stream_loop\<close>: subscribe, consume, and the next backoff. The answer of
  \<open>open_stream\<close> is an exception or a stream.
\<close>

definition next_backoff :: "rat \<Rightarrow> rat \<Rightarrow> rat" where
  "next_backoff max_backoff b = min (b * 2) max_backoff"

definition stream_turn ::
  "rat \<Rightarrow> rat \<Rightarrow> exc + (bool \<times> int \<times> int) list \<times> exc option \<times> bool \<Rightarrow> rat \<times> watcher \<Rightarrow> rat \<times> watcher"
  where
  "stream_turn base max_backoff opened bs =
     (case bs of (backoff, s) \<Rightarrow>
        if kw_stop s then (backoff, s)
        else case opened of
          Inl e \<Rightarrow>
            (next_backoff max_backoff backoff,
             handle_stream_down (''subscribe failed: '' @ exc_name e) (begin_stream s))
        | Inr (msgs, failure, stopped) \<Rightarrow>
            (case consume msgs failure stopped (begin_stream s) of (received, s') \<Rightarrow>
               (next_backoff max_backoff (if 0 < received then base else backoff), s')))"

definition check_liveness :: "(exc option) option \<Rightarrow> watcher \<Rightarrow> bool \<times> watcher" where
  "check_liveness probe s =
     (case probe of
        None \<Rightarrow> (True, s)
      | Some answer \<Rightarrow>
          if \<not> kw_known s then (True, s)
          else case answer of
            None \<Rightarrow> (True, s)
          | Some e \<Rightarrow> (False, handle_stream_down (''liveness probe failed: '' @ exc_name e) s))"

text \<open>A pass of \<open>_sweep_loop\<close>: wake up and take the request, sweep, probe.\<close>

definition sweeper_take :: "watcher \<Rightarrow> watcher" where
  "sweeper_take s =
     (if kw_stop s then s\<lparr>kw_wake := False\<rparr>
      else s\<lparr>kw_wake := False, kw_taken := kw_pending s, kw_pending := None\<rparr>)"

definition sweeper_sweep :: "watcher \<Rightarrow> watcher" where
  "sweeper_sweep s =
     (case kw_taken s of
        Some reason \<Rightarrow> do_sweep reason (s\<lparr>kw_taken := None\<rparr>)
      | None \<Rightarrow> sweep_if_elevated s)"

section \<open>Interleavings\<close>

datatype watch_action =
  StreamBegin
| StreamState int int
| StreamDown pystr
| StreamStopping
| SweeperTake
| SweeperSweep
| SweeperProbe "exc option"
| StopCalled

fun watch_step :: "watcher \<Rightarrow> watch_action \<Rightarrow> watcher" where
  "watch_step s StreamBegin = begin_stream s"
| "watch_step s (StreamState seq level) = handle_state seq level s"
| "watch_step s (StreamDown reason) = handle_stream_down reason s"
| "watch_step s StreamStopping = snd (mark_unknown s)"
| "watch_step s SweeperTake = sweeper_take s"
| "watch_step s SweeperSweep = sweeper_sweep s"
| "watch_step s (SweeperProbe answer) = snd (check_liveness (Some answer) s)"
| "watch_step s StopCalled = watcher_stop s"

definition watch_run :: "watcher \<Rightarrow> watch_action list \<Rightarrow> watcher" where
  "watch_run s as = foldl watch_step s as"

section \<open>The sweep reaches every listed order\<close>

lemma cancel_each_split:
  "cancel_each cancel ords (c, f) =
     (c @ filter (\<lambda>i. cancel i = None) (map b_broker_order_id ords),
      f @ filter (\<lambda>i. cancel i \<noteq> None) (map b_broker_order_id ords))"
  by (induction ords arbitrary: c f) (auto split: option.splits)

definition readable_orders :: "venue_view \<Rightarrow> broker_order list" where
  "readable_orders v = (case vv_orders v of Inl e \<Rightarrow> [] | Inr ords \<Rightarrow> ords)"

definition venue_ids :: "venue_view \<Rightarrow> pystr list" where
  "venue_ids v = map b_broker_order_id (readable_orders v)"

lemma sweep_venue_eq:
  "sweep_venue v (c, f) =
     ((case vv_orders v of Inl e \<Rightarrow> None | Inr ords \<Rightarrow> Some (length ords)),
      c @ filter (\<lambda>i. vv_cancel v i = None) (venue_ids v),
      f @ filter (\<lambda>i. vv_cancel v i \<noteq> None) (venue_ids v))"
  by (simp add: sweep_venue_def cancel_each_split venue_ids_def readable_orders_def split: sum.split)

lemma sweep_venues_eq:
  "sweep_venues vs r =
     r\<lparr>sw_listed := sw_listed r + sum_list (map (\<lambda>v. length (readable_orders v)) vs),
       sw_cancelled := sw_cancelled r
         @ concat (map (\<lambda>v. filter (\<lambda>i. vv_cancel v i = None) (venue_ids v)) vs),
       sw_failed := sw_failed r
         @ concat (map (\<lambda>v. filter (\<lambda>i. vv_cancel v i \<noteq> None) (venue_ids v)) vs),
       sw_unreadable := sw_unreadable r
         @ map vv_name (filter (\<lambda>v. isl (vv_orders v)) vs)\<rparr>"
proof (induction vs arbitrary: r)
  case (Cons v vs)
  show ?case
    by (cases "vv_orders v") (simp_all add: sweep_venue_eq Cons.IH readable_orders_def add.assoc)
qed simp

section \<open>The mirror is fail-closed\<close>

definition watch_inv :: "watcher \<Rightarrow> bool" where
  "watch_inv s \<longleftrightarrow> 0 \<le> kw_level s \<and> kw_level s \<le> KILL_LEVEL_MAX
     \<and> (\<not> kw_known s \<longrightarrow> kw_level s = KILL_LEVEL_HARD)"

lemma do_sweep_frame [simp]:
  "kw_level (do_sweep r s) = kw_level s" "kw_known (do_sweep r s) = kw_known s"
  "kw_last_seq (do_sweep r s) = kw_last_seq s" "kw_stop (do_sweep r s) = kw_stop s"
  "kw_pending (do_sweep r s) = kw_pending s" "kw_active (do_sweep r s) = kw_active s"
  by (simp_all add: do_sweep_def)

lemma request_sweep_frame [simp]:
  "kw_level (request_sweep r s) = kw_level s" "kw_known (request_sweep r s) = kw_known s"
  "kw_last_seq (request_sweep r s) = kw_last_seq s" "kw_stop (request_sweep r s) = kw_stop s"
  "kw_active (request_sweep r s) = kw_active s"
  by (simp_all add: request_sweep_def)

lemma sweeper_frame [simp]:
  "kw_level (sweeper_sweep s) = kw_level s" "kw_known (sweeper_sweep s) = kw_known s"
  "kw_pending (sweeper_sweep s) = kw_pending s" "kw_stop (sweeper_sweep s) = kw_stop s"
  "kw_level (sweeper_take s) = kw_level s" "kw_known (sweeper_take s) = kw_known s"
  by (simp_all add: sweeper_sweep_def sweep_if_elevated_def sweeper_take_def split: option.split)

lemma handle_stream_down_level [simp]:
  "kw_level (handle_stream_down r s) = KILL_LEVEL_HARD" "\<not> kw_known (handle_stream_down r s)"
  by (simp_all add: handle_stream_down_def mark_unknown_def)

lemma handle_state_level:
  "kw_level (handle_state seq level s) =
     (if out_of_order s seq then kw_level s
      else if 0 \<le> level \<and> level \<le> KILL_LEVEL_MAX then level else KILL_LEVEL_HARD)"
  "kw_known (handle_state seq level s) = (if out_of_order s seq then kw_known s else True)"
  by (simp_all add: handle_state_def mirror_apply_def Let_def KILL_LEVEL_NORMAL_def)

lemma watch_inv_step: "watch_inv s \<Longrightarrow> watch_inv (watch_step s a)"
  by (cases a) (auto simp: watch_inv_def handle_state_level begin_stream_def mark_unknown_def
      check_liveness_def watcher_stop_def level_defs split: option.split)

lemma watch_inv_new: "watch_inv (watcher_start KillSwitchWatcher_new)"
  by (simp add: watch_inv_def watcher_start_def KillSwitchWatcher_new_def level_defs)

lemma watch_run_snoc: "watch_run s (as @ [a]) = watch_step (watch_run s as) a"
  by (simp add: watch_run_def)

lemma watch_run_inv: "watch_inv s \<Longrightarrow> watch_inv (watch_run s as)"
  by (induction as rule: rev_induct) (simp_all add: watch_run_snoc watch_inv_step, simp add: watch_run_def)

text \<open>
  Actions after which the last reported NORMAL is no longer to be trusted: the stream failed or is
  shutting down, a liveness probe failed, or a newer state reported another level.
\<close>

fun distrusts :: "watcher \<Rightarrow> watch_action \<Rightarrow> bool" where
  "distrusts s (StreamDown r) = True"
| "distrusts s StreamStopping = True"
| "distrusts s (SweeperProbe (Some e)) = True"
| "distrusts s (StreamState seq level) = (\<not> out_of_order s seq \<and> level \<noteq> 0)"
| "distrusts s _ = False"

fun quiet :: "watcher \<Rightarrow> watch_action list \<Rightarrow> bool" where
  "quiet s [] = True"
| "quiet s (a # as) = (\<not> distrusts s a \<and> quiet (watch_step s a) as)"

lemma quiet_snoc: "quiet s (as @ [a]) \<longleftrightarrow> quiet s as \<and> \<not> distrusts (watch_run s as) a"
  by (induction as arbitrary: s) (auto simp: watch_run_def)

lemma distrust_ends_normal:
  assumes "kw_level (watch_step s a) = 0" "watch_inv s"
  shows "(\<exists>seq. a = StreamState seq 0 \<and> \<not> out_of_order s seq) \<or> (kw_level s = 0 \<and> \<not> distrusts s a)"
  using assms
  by (cases "(s, a)" rule: distrusts.cases)
    (auto simp: handle_state_level begin_stream_def mark_unknown_def check_liveness_def watch_inv_def
      watcher_stop_def level_defs split: if_splits option.splits)

lemma guard_halted_iff: "guard_halted s \<longleftrightarrow> kw_level s \<noteq> 0"
  by (simp add: guard_halted_def build_kill_guard_def ks_is_halted_fst KillSwitch_new_def
      KillStateHaltSource_is_halted_def demands_halt_def)

lemma watch_run_append: "watch_run s (xs @ ys) = watch_run (watch_run s xs) ys"
  by (simp add: watch_run_def)

lemma normal_needs_report:
  assumes "watch_inv s" "kw_level s \<noteq> 0"
  shows "kw_level (watch_run s as) = 0 \<Longrightarrow>
     \<exists>pre seq post. as = pre @ StreamState seq 0 # post
       \<and> \<not> out_of_order (watch_run s pre) seq
       \<and> quiet (watch_run s (pre @ [StreamState seq 0])) post"
proof (induction as rule: rev_induct)
  case Nil
  then show ?case using assms by (simp add: watch_run_def)
next
  case (snoc a as)
  let ?s = "watch_run s as"
  have inv: "watch_inv ?s" by (rule watch_run_inv [OF assms(1)])
  from distrust_ends_normal [OF _ inv, of a] snoc.prems consider
      (new) seq where "a = StreamState seq 0" "\<not> out_of_order ?s seq"
    | (old) "kw_level ?s = 0" "\<not> distrusts ?s a" by (auto simp: watch_run_snoc)
  then show ?case
  proof cases
    case new
    then show ?thesis by (intro exI [of _ as] exI [of _ seq] exI [of _ "[]"]) simp
  next
    case old
    then obtain pre seq post where p: "as = pre @ StreamState seq 0 # post"
      "\<not> out_of_order (watch_run s pre) seq" "quiet (watch_run s (pre @ [StreamState seq 0])) post"
      using snoc.IH by blast
    have "?s = watch_run (watch_run s (pre @ [StreamState seq 0])) post"
      using p(1) watch_run_append [of s "pre @ [StreamState seq 0]" post] by simp
    with p old have "quiet (watch_run s (pre @ [StreamState seq 0])) (post @ [a])"
      by (simp add: quiet_snoc)
    with p show ?thesis by (intro exI [of _ pre] exI [of _ seq] exI [of _ "post @ [a]"]) simp
  qed
qed

section \<open>A requested sweep is made\<close>

fun stream_action :: "watch_action \<Rightarrow> bool" where
  "stream_action StreamBegin = True"
| "stream_action (StreamState seq level) = True"
| "stream_action (StreamDown r) = True"
| "stream_action _ = False"

lemma request_pending:
  "kw_active s \<Longrightarrow> kw_pending (request_sweep r s) \<noteq> None"
  by (simp add: request_sweep_def)

lemma stream_step_keeps:
  assumes "stream_action a" "kw_active s" "\<not> kw_stop s"
  shows "kw_active (watch_step s a) \<and> \<not> kw_stop (watch_step s a) \<and> kw_taken (watch_step s a) = kw_taken s
     \<and> kw_sweeps (watch_step s a) = kw_sweeps s
     \<and> (kw_pending s \<noteq> None \<longrightarrow> kw_pending (watch_step s a) \<noteq> None)"
  using assms
  by (cases a) (auto simp: begin_stream_def handle_state_def mirror_apply_def Let_def request_sweep_def
      handle_stream_down_def mark_unknown_def)

lemma stream_run_keeps:
  assumes "list_all stream_action as" "kw_active s" "\<not> kw_stop s"
  shows "kw_active (watch_run s as) \<and> \<not> kw_stop (watch_run s as) \<and> kw_taken (watch_run s as) = kw_taken s
     \<and> kw_sweeps (watch_run s as) = kw_sweeps s
     \<and> (kw_pending s \<noteq> None \<longrightarrow> kw_pending (watch_run s as) \<noteq> None)"
  using assms
proof (induction as arbitrary: s)
  case (Cons a as)
  then show ?case
    using stream_step_keeps [of a s] Cons.IH [of "watch_step s a"] by (simp add: watch_run_def)
qed (simp add: watch_run_def)

lemma elevated_request:
  assumes "kw_active s" "\<not> out_of_order s seq" "level \<notin> {0, 1}"
  shows "kw_pending (handle_state seq level s) \<noteq> None"
  using assms request_pending
  by (auto simp: handle_state_def mirror_apply_def Let_def level_defs)

section \<open>Properties\<close>

text \<open>
  C17: New submissions are possible only on a fresh NORMAL. Whatever the stream and sweeper threads
  and the operator do, in any interleaving, the guard's kill switch is open only when the last
  trusted event was a NORMAL state accepted in sequence, with no stream failure, failed liveness
  probe, shutdown or other level since.
\<close>

theorem submissions_need_fresh_normal:
  assumes "\<not> guard_halted (watch_run (watcher_start KillSwitchWatcher_new) as)"
  shows "\<exists>pre seq post. as = pre @ StreamState seq 0 # post
     \<and> \<not> out_of_order (watch_run (watcher_start KillSwitchWatcher_new) pre) seq
     \<and> quiet (watch_run (watcher_start KillSwitchWatcher_new) (pre @ [StreamState seq 0])) post"
proof (rule normal_needs_report [OF watch_inv_new])
  show "kw_level (watcher_start KillSwitchWatcher_new) \<noteq> 0"
    by (simp add: watcher_start_def KillSwitchWatcher_new_def level_defs)
  show "kw_level (watch_run (watcher_start KillSwitchWatcher_new) as) = 0"
    using assms by (simp add: guard_halted_iff)
qed

theorem submissions_need_fresh_normal_witness:
  "\<not> guard_halted (watch_run (watcher_start KillSwitchWatcher_new)
      [StreamBegin, StreamState 7 2, StreamState 8 0, StreamState 6 5])
   \<and> (\<exists>pre seq post. [StreamBegin, StreamState 7 2, StreamState 8 0, StreamState 6 5]
        = pre @ StreamState seq 0 # post)"
proof -
  have g: "\<not> guard_halted (watch_run (watcher_start KillSwitchWatcher_new)
      [StreamBegin, StreamState 7 2, StreamState 8 0, StreamState 6 5])" by code_simp
  then show ?thesis using submissions_need_fresh_normal [OF g] by blast
qed



text \<open>
  C18: While the sweeper runs, an accepted state of level LOGIC or above (or an invalid level) is
  followed by a sweep on the sweeper's next pass, whatever the stream thread does meanwhile, even
  if the level is reset before the pass.
\<close>

theorem elevated_state_is_swept:
  assumes "kw_active s" "\<not> kw_stop s" "\<not> out_of_order s seq" "level \<notin> {0, 1}"
    and "list_all stream_action mid" "list_all stream_action mid2"
  shows "length (kw_sweeps s) < length (kw_sweeps (watch_run s
     (StreamState seq level # mid @ SweeperTake # mid2 @ [SweeperSweep])))"
proof -
  let ?a = "watch_step s (StreamState seq level)"
  let ?b = "watch_run ?a mid"
  let ?c = "watch_step ?b SweeperTake"
  let ?d = "watch_run ?c mid2"
  have a: "kw_active ?a" "\<not> kw_stop ?a" "kw_sweeps ?a = kw_sweeps s" "kw_pending ?a \<noteq> None"
    using stream_step_keeps [of "StreamState seq level" s] elevated_request assms by simp_all
  have b: "kw_active ?b" "\<not> kw_stop ?b" "kw_sweeps ?b = kw_sweeps s" "kw_pending ?b \<noteq> None"
    using stream_run_keeps [OF assms(5) a(1,2)] a by simp_all
  have c: "kw_active ?c" "\<not> kw_stop ?c" "kw_sweeps ?c = kw_sweeps s" "kw_taken ?c \<noteq> None"
    using b by (simp_all add: sweeper_take_def)
  have d: "kw_sweeps ?d = kw_sweeps s" "kw_taken ?d \<noteq> None"
    using stream_run_keeps [OF assms(6) c(1,2)] c by simp_all
  have "watch_run s (StreamState seq level # mid @ SweeperTake # mid2 @ [SweeperSweep])
      = sweeper_sweep ?d" by (simp add: watch_run_def)
  then show ?thesis using d by (auto simp: sweeper_sweep_def do_sweep_def)
qed

theorem elevated_state_is_swept_witness:
  "length (kw_sweeps (watcher_start KillSwitchWatcher_new)) < length (kw_sweeps (watch_run
     (watcher_start KillSwitchWatcher_new)
     (StreamState 1 2 # [StreamState 2 0] @ SweeperTake # [StreamBegin] @ [SweeperSweep])))"
  by (rule elevated_state_is_swept) code_simp+

text \<open>
  A sweep never stops early: every open order of every readable venue is asked to be cancelled
  exactly once and is counted as cancelled or failed, every unreadable venue is reported, and the
  sweep is complete exactly when every venue was readable and every cancel succeeded.
\<close>

theorem sweep_reaches_every_order:
  "mset (sw_cancelled (sweep vs)) + mset (sw_failed (sweep vs)) = mset (concat (map venue_ids vs))
   \<and> sw_listed (sweep vs) = length (concat (map venue_ids vs))
   \<and> sw_unreadable (sweep vs) = map vv_name (filter (\<lambda>v. isl (vv_orders v)) vs)
   \<and> (sweep_complete (sweep vs) \<longleftrightarrow>
        list_all (\<lambda>v. \<not> isl (vv_orders v) \<and> list_all (\<lambda>i. vv_cancel v i = None) (venue_ids v)) vs)"
proof -
  have split: "mset (filter (\<lambda>i. P i) xs) + mset (filter (\<lambda>i. \<not> P i) xs) = mset xs"
    for P and xs :: "pystr list" by (metis mset_filter multiset_partition)
  have m: "mset (concat (map (\<lambda>v. filter (\<lambda>i. vv_cancel v i = None) (venue_ids v)) vs))
      + mset (concat (map (\<lambda>v. filter (\<lambda>i. vv_cancel v i \<noteq> None) (venue_ids v)) vs))
      = mset (concat (map venue_ids vs))"
  proof (induction vs)
    case (Cons v vs)
    let ?c = "mset (filter (\<lambda>i. vv_cancel v i = None) (venue_ids v))"
    let ?f = "mset (filter (\<lambda>i. vv_cancel v i \<noteq> None) (venue_ids v))"
    have "?c + ?f = mset (venue_ids v)" by (rule split)
    moreover have "(?c + x) + (?f + y) = (?c + ?f) + (x + y)" for x y by simp
    ultimately show ?case using Cons.IH by (simp only: list.map concat.simps mset_append)
  qed simp
  have l: "sum_list (map (\<lambda>v. length (readable_orders v)) vs) = length (concat (map venue_ids vs))"
    by (simp add: length_concat venue_ids_def comp_def)
  have c: "sweep_complete (sweep vs) \<longleftrightarrow>
        list_all (\<lambda>v. \<not> isl (vv_orders v) \<and> list_all (\<lambda>i. vv_cancel v i = None) (venue_ids v)) vs"
    by (auto simp: sweep_complete_def sweep_def sweep_venues_eq list_all_iff filter_empty_conv)
  show ?thesis using m l c by (simp add: sweep_def sweep_venues_eq)
qed

end
