(* ===== verification/Reporter.thy ===== *)
theory Reporter
  imports Service "HOL-Library.Multiset"
begin

text \<open>
  Reporting executions to Aegis: \<open>to_nanos\<close> and \<open>to_aegis_execution_report\<close> of
  \<open>execution_motor/service.py\<close> and the reporter of \<open>aegis_reporter.py\<close>, with its cumulative fills,
  closed orders and undelivered reports.

  Parameters: the equity provider and the clock of the n-th call, whether the generated message
  class accepts a message (\<open>rw_accepts\<close>: it refuses integers that do not fit their field), and the
  transport's answer to the n-th attempt. The state keeps the messages Aegis acknowledged
  (\<open>rs_acked\<close>), which is what the theorems are about.
\<close>

section \<open>Messages\<close>

record aegis_report =
  ar_order_id :: pystr
  ar_signal_id :: pystr
  ar_symbol :: pystr
  ar_side :: int
  ar_status :: int
  ar_filled_qty_nanos :: int
  ar_avg_fill_price_nanos :: int
  ar_account_equity_nanos :: int
  ar_reported_at_ns :: ns

text \<open>The product is rounded to 28 digits before it is rounded to an integer.\<close>

fun to_nanos :: "dec \<Rightarrow> exc + int" where
  "to_nanos (Fin x) = Inr (round_half_even (dmul x (10 ^ 9)))"
| "to_nanos _ = Inl (Exc ''ValueError'' ''value must be finite'')"

fun side_enum :: "side option \<Rightarrow> int" where
  "side_enum None = 0"
| "side_enum (Some BUY) = 1"
| "side_enum (Some SELL) = 2"

fun status_enum :: "exec_status \<Rightarrow> int" where
  "status_enum ACCEPTED = 1"
| "status_enum PARTIALLY_FILLED = 2"
| "status_enum FILLED = 3"
| "status_enum CANCELLED = 4"
| "status_enum EXPIRED = 4"
| "status_enum exec_status.REJECTED = 5"
| "status_enum UNKNOWN = 1"

definition to_aegis_execution_report ::
  "(aegis_report \<Rightarrow> bool) \<Rightarrow> exec_report \<Rightarrow> dec \<Rightarrow> ns \<Rightarrow> exc + aegis_report" where
  "to_aegis_execution_report accepts r equity now =
     rbind (to_nanos (Fin (filled_quantity r))) (\<lambda>qty.
     rbind (case avg_fill_price r of None \<Rightarrow> Inr 0 | Some p \<Rightarrow> to_nanos (Fin p)) (\<lambda>avg.
     rbind (to_nanos equity) (\<lambda>eq.
     let msg = \<lparr>ar_order_id = r_order_id r, ar_signal_id = r_signal_id r, ar_symbol = r_symbol r,
                ar_side = side_enum (r_side r), ar_status = status_enum (r_status r),
                ar_filled_qty_nanos = qty, ar_avg_fill_price_nanos = avg,
                ar_account_equity_nanos = eq, ar_reported_at_ns = now\<rparr>
     in if accepts msg then Inr msg else Inl (Exc ''ValueError'' []))))"

section \<open>The reporter\<close>

record reporter_world =
  rw_equity :: "nat \<Rightarrow> exc + dec"
  rw_clock :: "nat \<Rightarrow> ns"
  rw_accepts :: "aegis_report \<Rightarrow> bool"
  rw_transport :: "nat \<Rightarrow> exc + bool"
  rw_max_attempts :: nat

text \<open>An acknowledged message is kept with the report it was built from; an equity update has none.\<close>

record reporter =
  rs_sent_qty :: "(pystr \<times> rat) list"
  rs_closed :: "pystr list"
  rs_pending :: "exec_report list"
  rs_calls :: nat
  rs_acked :: "(exec_report option \<times> aegis_report) list"

definition AegisReporter_new :: "nat \<Rightarrow> exc + reporter" where
  "AegisReporter_new max_attempts =
     (if max_attempts < 1 then Inl (Exc ''ValueError'' ''max_attempts must be >= 1'')
      else Inr \<lparr>rs_sent_qty = [], rs_closed = [], rs_pending = [], rs_calls = 0, rs_acked = []\<rparr>)"

definition terminal_status :: "exec_status \<Rightarrow> bool" where
  "terminal_status st \<longleftrightarrow> st \<in> {FILLED, CANCELLED, EXPIRED, exec_status.REJECTED}"

definition acceptable :: "reporter \<Rightarrow> exec_report \<Rightarrow> bool" where
  "acceptable s r \<longleftrightarrow>
     (if r_order_id r \<in> set (rs_closed s) then False
      else \<not> filled_quantity r < (case map_of (rs_sent_qty s) (r_order_id r) of None \<Rightarrow> 0 | Some q \<Rightarrow> q))"

definition remember :: "exec_report \<Rightarrow> reporter \<Rightarrow> reporter" where
  "remember r s =
     s\<lparr>rs_sent_qty := (r_order_id r, filled_quantity r) # rs_sent_qty s,
       rs_closed := (if terminal_status (r_status r) then r_order_id r # rs_closed s
                     else rs_closed s)\<rparr>"

text \<open>\<open>_send\<close>: at most \<open>attempts\<close> tries, stopping at the first acknowledgement.\<close>

fun send_attempts ::
  "reporter_world \<Rightarrow> exec_report option \<Rightarrow> aegis_report \<Rightarrow> nat \<Rightarrow> reporter \<Rightarrow> bool \<times> reporter" where
  "send_attempts w r msg 0 s = (False, s)"
| "send_attempts w r msg (Suc k) s =
     (let s' = s\<lparr>rs_calls := Suc (rs_calls s)\<rparr>
      in if rw_transport w (rs_calls s) = Inr True
         then (True, s'\<lparr>rs_acked := rs_acked s @ [(r, msg)]\<rparr>)
         else send_attempts w r msg k s')"

definition send_message ::
  "reporter_world \<Rightarrow> exec_report option \<Rightarrow> aegis_report \<Rightarrow> reporter \<Rightarrow> bool \<times> reporter" where
  "send_message w r msg s = send_attempts w r msg (rw_max_attempts w) s"

definition deliver :: "reporter_world \<Rightarrow> exec_report \<Rightarrow> reporter \<Rightarrow> bool \<times> reporter" where
  "deliver w r s =
     (let s' = s\<lparr>rs_calls := Suc (rs_calls s)\<rparr>
      in case rbind (rw_equity w (rs_calls s)) (\<lambda>equity.
               to_aegis_execution_report (rw_accepts w) r equity (rw_clock w (rs_calls s))) of
           Inl e \<Rightarrow> (False, s')
         | Inr msg \<Rightarrow> send_message w (Some r) msg s')"

definition report_execution :: "reporter_world \<Rightarrow> exec_report \<Rightarrow> reporter \<Rightarrow> bool \<times> reporter" where
  "report_execution w r s =
     (if \<not> acceptable s r then (False, s)
      else case deliver w r s of
        (True, s') \<Rightarrow> (True, remember r s')
      | (False, s') \<Rightarrow> (False, s'\<lparr>rs_pending := rs_pending s' @ [r]\<rparr>))"

definition report_equity :: "reporter_world \<Rightarrow> reporter \<Rightarrow> bool \<times> reporter" where
  "report_equity w s =
     (let s' = s\<lparr>rs_calls := Suc (rs_calls s)\<rparr>
      in case rbind (rw_equity w (rs_calls s)) to_nanos of
           Inl e \<Rightarrow> (False, s')
         | Inr eq \<Rightarrow>
             let msg = \<lparr>ar_order_id = [], ar_signal_id = [], ar_symbol = [], ar_side = 0,
                        ar_status = 0, ar_filled_qty_nanos = 0, ar_avg_fill_price_nanos = 0,
                        ar_account_equity_nanos = eq, ar_reported_at_ns = rw_clock w (rs_calls s)\<rparr>
             in if rw_accepts w msg then send_message w None msg s' else (False, s'))"

text \<open>\<open>flush\<close>: the queue is taken, and what is left of it at the first failure goes back in front.\<close>

fun flush_queue :: "reporter_world \<Rightarrow> exec_report list \<Rightarrow> reporter \<Rightarrow> reporter" where
  "flush_queue w [] s = s"
| "flush_queue w (r # rs) s =
     (case deliver w r s of
        (True, s') \<Rightarrow> flush_queue w rs (remember r s')
      | (False, s') \<Rightarrow> s'\<lparr>rs_pending := (r # rs) @ rs_pending s'\<rparr>)"

definition flush :: "reporter_world \<Rightarrow> reporter \<Rightarrow> nat \<times> reporter" where
  "flush w s =
     (let s' = flush_queue w (rs_pending s) (s\<lparr>rs_pending := []\<rparr>)
      in (length (rs_pending s'), s'))"

section \<open>Delivery\<close>

lemma send_attempts_effect:
  assumes "send_attempts w r msg k s = (ok, t)"
  shows "rs_pending t = rs_pending s \<and> rs_sent_qty t = rs_sent_qty s \<and> rs_closed t = rs_closed s
     \<and> rs_acked t = rs_acked s @ (if ok then [(r, msg)] else []) \<and> rs_calls t \<le> rs_calls s + k
     \<and> (ok \<longleftrightarrow> (\<exists>i<k. rw_transport w (rs_calls s + i) = Inr True))"
  using assms
proof (induction k arbitrary: s)
  case (Suc k)
  have shift: "(\<exists>i<Suc k. P (n + i)) \<longleftrightarrow> P n \<or> (\<exists>i<k. P (Suc n + i))" for P and n :: nat
    using Ex_less_Suc2 [of k "\<lambda>i. P (n + i)"] by simp
  show ?case
  proof (cases "rw_transport w (rs_calls s) = Inr True")
    case True
    then have "\<exists>i<Suc k. rw_transport w (rs_calls s + i) = Inr True" by (intro exI [of _ 0]) simp
    with Suc.prems True show ?thesis by auto
  next
    case False
    with Suc.prems Suc.IH [of "s\<lparr>rs_calls := Suc (rs_calls s)\<rparr>"] show ?thesis
      by (simp add: shift [of "\<lambda>n. rw_transport w n = Inr True"])
  qed
qed simp

definition acked_reports :: "reporter \<Rightarrow> exec_report list" where
  "acked_reports s = concat (map (\<lambda>(r, m). case r of None \<Rightarrow> [] | Some x \<Rightarrow> [x]) (rs_acked s))"

text \<open>
  A message is faithful when it is the translation of its report with an equity the provider
  returned; an equity update carries such an equity too.
\<close>

definition carries_equity :: "reporter_world \<Rightarrow> exec_report option \<times> aegis_report \<Rightarrow> bool" where
  "carries_equity w a \<longleftrightarrow>
     (\<exists>n equity. rw_equity w n = Inr equity \<and> to_nanos equity = Inr (ar_account_equity_nanos (snd a))
        \<and> (case fst a of None \<Rightarrow> ar_order_id (snd a) = []
           | Some r \<Rightarrow> to_aegis_execution_report (rw_accepts w) r equity (ar_reported_at_ns (snd a))
                        = Inr (snd a)))"

lemma to_aegis_execution_report_Inr:
  assumes "to_aegis_execution_report acc r equity now = Inr msg"
  shows "to_nanos equity = Inr (ar_account_equity_nanos msg) \<and> ar_reported_at_ns msg = now"
  using assms by (auto simp: to_aegis_execution_report_def Let_def rbind_eq_Inr split: if_splits)

definition same_books :: "reporter \<Rightarrow> reporter \<Rightarrow> bool" where
  "same_books s t \<longleftrightarrow> rs_pending t = rs_pending s \<and> rs_sent_qty t = rs_sent_qty s
     \<and> rs_closed t = rs_closed s"

lemma deliver_effect:
  assumes "deliver w r s = (ok, t)"
  shows "same_books s t \<and> rs_calls t \<le> Suc (rs_calls s + rw_max_attempts w)
    \<and> (if ok then \<exists>msg. rs_acked t = rs_acked s @ [(Some r, msg)] \<and> carries_equity w (Some r, msg)
       else rs_acked t = rs_acked s)"
proof (cases "rbind (rw_equity w (rs_calls s)) (\<lambda>equity.
         to_aegis_execution_report (rw_accepts w) r equity (rw_clock w (rs_calls s)))")
  case (Inl e)
  with assms show ?thesis by (auto simp: deliver_def same_books_def Let_def)
next
  case (Inr msg)
  then obtain equity where eq: "rw_equity w (rs_calls s) = Inr equity"
    "to_aegis_execution_report (rw_accepts w) r equity (rw_clock w (rs_calls s)) = Inr msg"
    by (auto simp: rbind_eq_Inr)
  have "carries_equity w (Some r, msg)"
    unfolding carries_equity_def using eq to_aegis_execution_report_Inr [OF eq(2)] by auto
  moreover have "send_attempts w (Some r) msg (rw_max_attempts w) (s\<lparr>rs_calls := Suc (rs_calls s)\<rparr>)
      = (ok, t)"
    using assms Inr by (simp add: deliver_def send_message_def Let_def)
  note send_attempts_effect [OF this]
  ultimately show ?thesis by (auto simp: same_books_def)
qed

lemma report_equity_effect:
  assumes "report_equity w s = (ok, t)"
  shows "same_books s t
    \<and> (if ok then \<exists>msg. rs_acked t = rs_acked s @ [(None, msg)] \<and> carries_equity w (None, msg)
       else rs_acked t = rs_acked s)"
proof (cases "rbind (rw_equity w (rs_calls s)) to_nanos")
  case (Inl e)
  with assms show ?thesis by (auto simp: report_equity_def same_books_def Let_def)
next
  case (Inr q)
  then obtain equity where eq: "rw_equity w (rs_calls s) = Inr equity" "to_nanos equity = Inr q"
    by (auto simp: rbind_eq_Inr)
  define msg where "msg = \<lparr>ar_order_id = [], ar_signal_id = [], ar_symbol = [], ar_side = 0,
      ar_status = 0, ar_filled_qty_nanos = 0, ar_avg_fill_price_nanos = 0,
      ar_account_equity_nanos = q, ar_reported_at_ns = rw_clock w (rs_calls s)\<rparr>"
  have c: "carries_equity w (None, msg)"
    unfolding carries_equity_def using eq by (auto simp: msg_def)
  show ?thesis
  proof (cases "rw_accepts w msg")
    case True
    with assms Inr have "send_attempts w None msg (rw_max_attempts w)
        (s\<lparr>rs_calls := Suc (rs_calls s)\<rparr>) = (ok, t)"
      by (simp add: report_equity_def send_message_def Let_def msg_def)
    from send_attempts_effect [OF this] c show ?thesis by (auto simp: same_books_def)
  next
    case False
    with assms Inr show ?thesis
      by (auto simp: report_equity_def Let_def msg_def same_books_def)
  qed
qed

lemma remember_frame [simp]:
  "rs_pending (remember r s) = rs_pending s" "rs_acked (remember r s) = rs_acked s"
  "rs_calls (remember r s) = rs_calls s"
  by (simp_all add: remember_def)

lemma acked_reports_append:
  "rs_acked t = rs_acked s @ [(Some r, m)] \<Longrightarrow> acked_reports t = acked_reports s @ [r]"
  "rs_acked t = rs_acked s @ [(None, m)] \<Longrightarrow> acked_reports t = acked_reports s"
  "rs_acked t = rs_acked s \<Longrightarrow> acked_reports t = acked_reports s"
  by (simp_all add: acked_reports_def)

text \<open>A flush acknowledges a prefix of the queue, in order, and keeps the rest, in order.\<close>

lemma flush_queue_effect:
  "\<exists>sent kept. q = sent @ kept \<and> acked_reports (flush_queue w q s) = acked_reports s @ sent
     \<and> rs_pending (flush_queue w q s) = kept @ rs_pending s
     \<and> (list_all (carries_equity w) (rs_acked s) \<longrightarrow>
          list_all (carries_equity w) (rs_acked (flush_queue w q s)))"
proof (induction q arbitrary: s)
  case (Cons r q)
  obtain ok t where d: "deliver w r s = (ok, t)" by fastforce
  show ?case
  proof (cases ok)
    case True
    with deliver_effect [OF d] obtain msg where m: "rs_acked t = rs_acked s @ [(Some r, msg)]"
      "carries_equity w (Some r, msg)" "rs_pending t = rs_pending s" by (auto simp: same_books_def)
    obtain sent kept where ih: "q = sent @ kept"
      "acked_reports (flush_queue w q (remember r t)) = acked_reports (remember r t) @ sent"
      "rs_pending (flush_queue w q (remember r t)) = kept @ rs_pending (remember r t)"
      "list_all (carries_equity w) (rs_acked (remember r t)) \<longrightarrow>
          list_all (carries_equity w) (rs_acked (flush_queue w q (remember r t)))"
      using Cons.IH by blast
    have "acked_reports (remember r t) = acked_reports s @ [r]"
      using acked_reports_append(1) m(1) by simp
    then show ?thesis using d True ih m by (intro exI [of _ "r # sent"] exI [of _ kept]) auto
  next
    case False
    with d deliver_effect [OF d] show ?thesis
      by (intro exI [of _ "[]"] exI [of _ "r # q"]) (auto simp: same_books_def acked_reports_def)
  qed
qed simp

section \<open>Lifetime of a reporter\<close>

datatype reporter_op = ReportExecution exec_report | ReportEquity | Flush

definition reporter_step :: "reporter_world \<Rightarrow> reporter_op \<Rightarrow> reporter \<Rightarrow> reporter" where
  "reporter_step w a s = (case a of ReportExecution r \<Rightarrow> snd (report_execution w r s)
     | ReportEquity \<Rightarrow> snd (report_equity w s) | Flush \<Rightarrow> snd (flush w s))"

definition reporter_run :: "reporter_world \<Rightarrow> reporter_op list \<Rightarrow> reporter \<Rightarrow> reporter" where
  "reporter_run w as s = fold (reporter_step w) as s"

text \<open>The reports the reporter took responsibility for: those it did not refuse.\<close>

fun taken_reports :: "reporter_world \<Rightarrow> reporter_op list \<Rightarrow> reporter \<Rightarrow> exec_report list" where
  "taken_reports w [] s = []"
| "taken_reports w (a # as) s =
     (case a of ReportExecution r \<Rightarrow> (if acceptable s r then [r] else []) | _ \<Rightarrow> [])
     @ taken_reports w as (reporter_step w a s)"

lemma reporter_run_Cons [simp]:
  "reporter_run w [] s = s" "reporter_run w (a # as) s = reporter_run w as (reporter_step w a s)"
  by (simp_all add: reporter_run_def)

lemma report_execution_effect:
  assumes "acceptable s r"
  shows "mset (acked_reports (snd (report_execution w r s))) + mset (rs_pending (snd (report_execution w r s)))
       = mset (acked_reports s) + mset (rs_pending s) + {#r#}
     \<and> (list_all (carries_equity w) (rs_acked s) \<longrightarrow>
          list_all (carries_equity w) (rs_acked (snd (report_execution w r s))))"
proof -
  obtain ok t where d: "deliver w r s = (ok, t)" by fastforce
  show ?thesis
  proof (cases ok)
    case True
    with deliver_effect [OF d] obtain msg where m: "rs_acked t = rs_acked s @ [(Some r, msg)]"
      "carries_equity w (Some r, msg)" "rs_pending t = rs_pending s" by (auto simp: same_books_def)
    with assms d True acked_reports_append(1) [of "remember r t" s r msg] show ?thesis
      by (simp add: report_execution_def)
  next
    case False
    with assms d deliver_effect [OF d] show ?thesis
      by (simp add: report_execution_def same_books_def acked_reports_def)
  qed
qed

lemma reporter_step_conserves:
  "mset (acked_reports (reporter_step w a s)) + mset (rs_pending (reporter_step w a s))
     = mset (acked_reports s) + mset (rs_pending s) + mset (taken_reports w [a] s)
   \<and> (list_all (carries_equity w) (rs_acked s) \<longrightarrow>
        list_all (carries_equity w) (rs_acked (reporter_step w a s)))"
proof (cases a)
  case (ReportExecution r)
  then show ?thesis using report_execution_effect [of s r w]
    by (cases "acceptable s r") (simp_all add: reporter_step_def report_execution_def)
next
  case ReportEquity
  obtain ok t where "report_equity w s = (ok, t)" by fastforce
  with report_equity_effect [OF this] ReportEquity show ?thesis
    by (cases ok) (auto simp: reporter_step_def same_books_def acked_reports_def)
next
  case Flush
  obtain sent kept where "rs_pending s = sent @ kept"
    "acked_reports (flush_queue w (rs_pending s) (s\<lparr>rs_pending := []\<rparr>))
       = acked_reports (s\<lparr>rs_pending := []\<rparr>) @ sent"
    "rs_pending (flush_queue w (rs_pending s) (s\<lparr>rs_pending := []\<rparr>)) = kept"
    "list_all (carries_equity w) (rs_acked s) \<longrightarrow>
       list_all (carries_equity w) (rs_acked (flush_queue w (rs_pending s) (s\<lparr>rs_pending := []\<rparr>)))"
    using flush_queue_effect [of "rs_pending s" w "s\<lparr>rs_pending := []\<rparr>"] by auto
  with Flush show ?thesis
    by (simp add: reporter_step_def flush_def Let_def acked_reports_def)
qed

lemma reporter_run_conserves:
  "mset (acked_reports (reporter_run w as s)) + mset (rs_pending (reporter_run w as s))
     = mset (acked_reports s) + mset (rs_pending s) + mset (taken_reports w as s)
   \<and> (list_all (carries_equity w) (rs_acked s) \<longrightarrow>
        list_all (carries_equity w) (rs_acked (reporter_run w as s)))"
proof (induction as arbitrary: s)
  case (Cons a as)
  have "taken_reports w (a # as) s
      = taken_reports w [a] s @ taken_reports w as (reporter_step w a s)" by simp
  then show ?case using reporter_step_conserves [of w a s] Cons.IH [of "reporter_step w a s"]
    by (simp only: reporter_run_Cons mset_append) simp
qed simp


section \<open>Order of the reports of one order\<close>

definition no_flush :: "reporter_op \<Rightarrow> bool" where
  "no_flush a \<longleftrightarrow> a \<noteq> Flush"

text \<open>
  The acknowledged reports of every order are cumulative: fills never decrease and nothing
  follows a terminal status.
\<close>

definition cumulative :: "exec_report list \<Rightarrow> bool" where
  "cumulative rs \<longleftrightarrow> sorted_wrt (\<lambda>a b. r_order_id a = r_order_id b \<longrightarrow>
     filled_quantity a \<le> filled_quantity b \<and> \<not> terminal_status (r_status a)) rs"

definition books_ok :: "reporter \<Rightarrow> bool" where
  "books_ok s \<longleftrightarrow> cumulative (acked_reports s)
     \<and> (\<forall>r \<in> set (acked_reports s). \<exists>q. map_of (rs_sent_qty s) (r_order_id r) = Some q
          \<and> filled_quantity r \<le> q)
     \<and> (\<forall>r \<in> set (acked_reports s). terminal_status (r_status r) \<longrightarrow> r_order_id r \<in> set (rs_closed s))"

lemma books_ok_ack:
  assumes "books_ok s" "acceptable s r" "acked_reports t = acked_reports s @ [r]"
    "rs_sent_qty t = rs_sent_qty s" "rs_closed t = rs_closed s"
  shows "books_ok (remember r t)"
proof -
  have le: "filled_quantity a \<le> filled_quantity r \<and> \<not> terminal_status (r_status a)"
    if "a \<in> set (acked_reports s)" "r_order_id a = r_order_id r" for a
    using assms(1,2) that by (fastforce simp: books_ok_def acceptable_def split: if_splits)
  have acked: "acked_reports (remember r t) = acked_reports s @ [r]"
    using assms(3) by (simp add: acked_reports_def)
  show ?thesis
    using assms(1,4,5) le unfolding books_ok_def acked cumulative_def
    by (auto simp: sorted_wrt_append remember_def)
qed

lemma books_ok_cong:
  "same_books s t \<Longrightarrow> acked_reports t = acked_reports s \<Longrightarrow> books_ok t = books_ok s"
  by (simp add: books_ok_def same_books_def)

lemma books_ok_step:
  assumes "books_ok s" "no_flush a"
  shows "books_ok (reporter_step w a s)"
proof (cases a)
  case (ReportExecution r)
  obtain ok t where d: "deliver w r s = (ok, t)" by fastforce
  show ?thesis
  proof (cases "acceptable s r")
    case acc: True
    show ?thesis
    proof (cases ok)
      case True
      with deliver_effect [OF d] obtain msg where m: "rs_acked t = rs_acked s @ [(Some r, msg)]"
        "same_books s t" by auto
      have "books_ok (remember r t)"
        using books_ok_ack [OF assms(1) acc acked_reports_append(1) [OF m(1)]] m(2)
        by (simp add: same_books_def)
      with ReportExecution acc d True show ?thesis
        by (simp add: reporter_step_def report_execution_def)
    next
      case False
      with deliver_effect [OF d] have "same_books s t" "acked_reports t = acked_reports s"
        by (auto simp: acked_reports_def)
      then have "books_ok (t\<lparr>rs_pending := rs_pending t @ [r]\<rparr>)"
        using books_ok_cong [of s t] assms(1) by (simp add: books_ok_def acked_reports_def)
      with ReportExecution acc d False show ?thesis
        by (simp add: reporter_step_def report_execution_def)
    qed
  qed (use ReportExecution assms(1) in \<open>simp add: reporter_step_def report_execution_def\<close>)
next
  case ReportEquity
  obtain ok t where e: "report_equity w s = (ok, t)" by fastforce
  have "acked_reports t = acked_reports s"
    using report_equity_effect [OF e] by (cases ok) (auto simp: acked_reports_def)
  then have "books_ok t" using report_equity_effect [OF e] books_ok_cong [of s t] assms(1) by blast
  with ReportEquity e show ?thesis by (simp add: reporter_step_def)
qed (use assms(2) in \<open>simp add: no_flush_def\<close>)

lemma books_ok_run: "books_ok s \<Longrightarrow> list_all no_flush as \<Longrightarrow> books_ok (reporter_run w as s)"
  by (induction as arbitrary: s) (simp_all add: books_ok_step)

text \<open>
  As long as nothing is flushed, the reports Aegis acknowledges for one order never lower its
  cumulative fill and none follows a terminal status.
\<close>

theorem acknowledged_fills_are_cumulative:
  assumes "AegisReporter_new k = Inr s" "list_all no_flush as"
  shows "cumulative (acked_reports (reporter_run w as s))"
proof -
  have "books_ok s" using assms(1)
    by (auto simp: AegisReporter_new_def books_ok_def cumulative_def acked_reports_def split: if_splits)
  with books_ok_run [OF this assms(2)] show ?thesis by (simp add: books_ok_def)
qed

text \<open>
  C31: Sending a message takes at most \<open>max_attempts\<close> transport calls, stops at the first
  acknowledgement, and succeeds exactly when one of these attempts is acknowledged.
\<close>

theorem send_stops_at_first_acknowledgement:
  "(fst (send_message w r msg s) \<longleftrightarrow>
      (\<exists>i < rw_max_attempts w. rw_transport w (rs_calls s + i) = Inr True))
   \<and> rs_calls (snd (send_message w r msg s)) \<le> rs_calls s + rw_max_attempts w
   \<and> rs_acked (snd (send_message w r msg s))
       = rs_acked s @ (if fst (send_message w r msg s) then [(r, msg)] else [])"
proof -
  obtain ok t where "send_attempts w r msg (rw_max_attempts w) s = (ok, t)" by fastforce
  with send_attempts_effect [OF this] show ?thesis by (simp add: send_message_def)
qed

definition ex_exec_report :: "exec_status \<Rightarrow> rat \<Rightarrow> exec_report" where
  "ex_exec_report st qty = \<lparr>r_order_id = ''o1'', r_client_order_id = ''o1'', r_signal_id = ''o1'',
     r_symbol = ''AAPL'', r_side = Some BUY, r_status = st, r_requested_quantity = 10,
     r_reject_reason = None, r_reject_detail = [], r_broker_order_id = Some ''b'',
     r_venue = Some ''v'', r_fills = [\<lparr>f_quantity = qty, f_price = 2, f_timestamp_ns = 1, f_venue = ''v''\<rparr>],
     r_arrival_price = None, r_received_at_ns = 0, r_submitted_at_ns = Some 0, r_updated_at_ns = 0\<rparr>"

text \<open>The transport answers nothing before its fifth call; equity is 100.\<close>

definition ex_reporter_world :: reporter_world where
  "ex_reporter_world = \<lparr>rw_equity = (\<lambda>n. Inr (Fin 100)), rw_clock = (\<lambda>n. int n),
     rw_accepts = (\<lambda>m. True),
     rw_transport = (\<lambda>n. if n < 4 then Inl (Exc ''ConnectionError'' []) else Inr True),
     rw_max_attempts = 3\<rparr>"

definition ex_reporter :: reporter where
  "ex_reporter = \<lparr>rs_sent_qty = [], rs_closed = [], rs_pending = [], rs_calls = 0, rs_acked = []\<rparr>"

definition ex_ops :: "reporter_op list" where
  "ex_ops = [ReportExecution (ex_exec_report PARTIALLY_FILLED 5),
             ReportExecution (ex_exec_report FILLED 10), ReportEquity]"

lemma ex_reporter_new: "AegisReporter_new 3 = Inr ex_reporter"
  by (simp add: AegisReporter_new_def ex_reporter_def)

lemma ex_reporter_runs:
  "map filled_quantity (acked_reports (reporter_run ex_reporter_world ex_ops ex_reporter)) = [10]"
  "map filled_quantity (rs_pending (reporter_run ex_reporter_world ex_ops ex_reporter)) = [5]"
  by code_simp+


theorem acknowledged_fills_are_cumulative_witness:
  "cumulative (acked_reports (reporter_run ex_reporter_world ex_ops ex_reporter))
   \<and> map filled_quantity (acked_reports (reporter_run ex_reporter_world ex_ops ex_reporter)) = [10]"
proof -
  have "list_all no_flush ex_ops" by (simp add: ex_ops_def no_flush_def)
  from acknowledged_fills_are_cumulative [OF ex_reporter_new this] ex_reporter_runs(1)
  show ?thesis by simp
qed

text \<open>
  Flushing does not check a queued report against what was sent since: a partial fill of 5 that
  could not be delivered is sent again after the terminal report of 10, so Aegis is told a smaller
  cumulative fill of an order that is already closed.
\<close>

theorem flush_resends_stale_report:
  "map (\<lambda>r. (filled_quantity r, r_status r)) (acked_reports
     (reporter_run ex_reporter_world (ex_ops @ [Flush]) ex_reporter))
   = [(10, FILLED), (5, PARTIALLY_FILLED)]"
  by code_simp

end
