(* ===== verification/Py_Float.thy ===== *)
theory Py_Float
  imports Motor_Config
begin

text \<open>
  Python's \<open>float\<close>: IEEE 754 double precision with rounding half to even, on rational values. A
  finite result is the nearest double, subnormals included; a result beyond the largest double is
  an infinity. The sign of zero is not observed.
\<close>

section \<open>Rounding to a double\<close>

definition pow2 :: "int \<Rightarrow> rat" where
  "pow2 e = (if 0 \<le> e then 2 ^ nat e else 1 / 2 ^ nat (- e))"

fun bit_length :: "int \<Rightarrow> int" where
  "bit_length i = (if i \<le> 0 then 0 else 1 + bit_length (i div 2))"

declare bit_length.simps [simp del]

definition binary_exponent :: "rat \<Rightarrow> int" where
  "binary_exponent x =
     (let q = quotient_of \<bar>x\<bar>; k = bit_length (fst q) - bit_length (snd q)
      in if pow2 k \<le> \<bar>x\<bar> then k else k - 1)"

definition fl :: "rat \<Rightarrow> rat" where
  "fl x =
     (if x = 0 then 0
      else let e = max (binary_exponent x - 52) (- 1074)
           in of_int (round_half_even (x / pow2 e)) * pow2 e)"

definition MAX_DOUBLE :: rat where
  "MAX_DOUBLE = 179769313486231570814527423731704356798070567525844996598917476803157260780028538760589558632766878171540458953514382464234321326889464182768467546703537516986049910576551282076245490090389328944075868508455133942304583236903222948165808559332123348274797826204144723168738177180919299881250404026184124858368"

lemma MAX_DOUBLE_eq: "MAX_DOUBLE = (2 ^ 53 - 1) * 2 ^ 971"
  by (simp add: MAX_DOUBLE_def)

definition to_float :: "rat \<Rightarrow> dec" where
  "to_float x =
     (let y = fl x in if \<bar>y\<bar> \<le> MAX_DOUBLE then Fin y else Infinity (y < 0))"

lemma fl_0 [simp]: "fl 0 = 0"
  by (simp add: fl_def)

lemma pow2_pos [simp]: "0 < pow2 e"
  by (simp add: pow2_def)

lemma fl_nonneg: "0 \<le> x \<Longrightarrow> 0 \<le> fl x"
proof -
  assume x: "0 \<le> x"
  have "0 \<le> round_half_even (x / pow2 e)" for e
    using round_half_even_mono [of 0 "x / pow2 e"] x pow2_pos [of e]
    by (simp add: round_half_even_of_int [of 0, simplified] zero_le_divide_iff less_imp_le)
  then show ?thesis
    by (simp add: fl_def Let_def zero_le_mult_iff less_imp_le)
qed

section \<open>\<open>float(text)\<close>\<close>

text \<open>An underscore has a digit on both sides.\<close>

fun underscores_ok :: "bool \<Rightarrow> pystr \<Rightarrow> bool" where
  "underscores_ok prev [] \<longleftrightarrow> True"
| "underscores_ok prev (c # cs) \<longleftrightarrow>
     (c = CHR ''_'' \<longrightarrow> prev \<and> cs \<noteq> [] \<and> is_digit_ascii (hd cs)) \<and> underscores_ok (is_digit_ascii c) cs"

definition py_float :: "pystr \<Rightarrow> dec option" where
  "py_float raw =
     (let s = py_strip raw in
      case split_sign (py_lower (filter (\<lambda>c. c \<noteq> CHR ''_'') s)) of (neg, body) \<Rightarrow>
        if body \<in> {''inf'', ''infinity''} \<and> CHR ''_'' \<notin> set s then Some (Infinity neg)
        else if body = ''nan'' \<and> CHR ''_'' \<notin> set s then Some NaN
        else if \<not> underscores_ok False s then None
        else map_option (\<lambda>x. to_float (if neg then - x else x)) (parse_number body))"

lemma py_float_ascii_number:
  "py_float raw = Some (Fin x) \<Longrightarrow> \<exists>y. x = fl y \<and> \<bar>x\<bar> \<le> MAX_DOUBLE"
  by (auto simp: py_float_def to_float_def Let_def split: prod.splits if_splits)

end
