(* ===== verification/Json.thy ===== *)
theory Json
  imports Py_Float "HOL-Library.AList" "HOL-Library.Char_ord" "HOL-Library.List_Lexorder"
begin

text \<open>
  JSON as the sources use it: the values \<open>json.loads\<close> returns, the printer
  \<open>json.dumps(v, sort_keys=True, separators=(",", ":"), ensure_ascii=True)\<close> and the reader
  \<open>json.loads\<close> itself, with the theorem that reading a printed value gives the value back with its
  keys sorted. Texts are over U+0000 to U+00FF, as everywhere in the development: an escape beyond
  that range makes the reader fail here.
\<close>

section \<open>Values\<close>

text \<open>
  \<open>JvDec\<close> is a number with a fraction or an exponent, \<open>JFloat\<close> one of the constants NaN and
  Infinity. An object is a dict in its insertion order.
\<close>

datatype jv = JvNull | JvBool bool | JvInt int | JvDec rat | JFloat | JvStr pystr
  | JvArr "jv list" | JvObj "(pystr \<times> jv) list"

definition jget :: "(pystr \<times> jv) list \<Rightarrow> pystr \<Rightarrow> jv" where
  "jget kvs k = (case map_of kvs k of None \<Rightarrow> JvNull | Some v \<Rightarrow> v)"

text \<open>The value with the keys of every object sorted: equality of dicts ignores their order.\<close>

fun sort_obj :: "jv \<Rightarrow> jv" where
  "sort_obj (JvArr vs) = JvArr (map sort_obj vs)"
| "sort_obj (JvObj kvs) = JvObj (sort_key fst (map (\<lambda>kv. (fst kv, sort_obj (snd kv))) kvs))"
| "sort_obj v = v"

section \<open>Printing\<close>

definition hex_char :: "int \<Rightarrow> char" where
  "hex_char n = (if n < 10 then char_of (48 + n) else char_of (87 + n))"

definition esc_char :: "char \<Rightarrow> pystr" where
  "esc_char c =
     (let n = of_char c :: int
      in if c = CHR 0x22 then [CHR 0x5C, CHR 0x22]
         else if c = CHR 0x5C then [CHR 0x5C, CHR 0x5C]
         else if n = 10 then [CHR 0x5C, CHR ''n'']
         else if n = 13 then [CHR 0x5C, CHR ''r'']
         else if n = 9 then [CHR 0x5C, CHR ''t'']
         else if n = 12 then [CHR 0x5C, CHR ''f'']
         else if n = 8 then [CHR 0x5C, CHR ''b'']
         else if 32 \<le> n \<and> n \<le> 126 then [c]
         else [CHR 0x5C, CHR ''u'', CHR ''0'', CHR ''0'', hex_char (n div 16), hex_char (n mod 16)])"

definition dumps_str :: "pystr \<Rightarrow> pystr" where
  "dumps_str s = CHR 0x22 # concat (map esc_char s) @ [CHR 0x22]"

fun join :: "pystr \<Rightarrow> pystr list \<Rightarrow> pystr" where
  "join sep [] = []"
| "join sep [x] = x"
| "join sep (x # xs) = x @ sep @ join sep xs"

text \<open>
  \<open>repr\<close> of a finite double: the shortest decimal that reads back as the double, with an exponent
  below 1e-4 and from 1e16 on.
\<close>

definition short_at :: "int \<Rightarrow> rat \<Rightarrow> int \<times> int" where
  "short_at n x = (let e = adjusted x - n + 1 in (round_half_even (x / pow10 e), e))"

fun shortest :: "nat \<Rightarrow> int \<Rightarrow> rat \<Rightarrow> int \<times> int" where
  "shortest 0 n x = short_at n x"
| "shortest (Suc k) n x =
     (let c = short_at n x in if fl (of_int (fst c) * pow10 (snd c)) = x then c else shortest k (n + 1) x)"

text \<open>\<open>Decimal(str(x))\<close>: the value of the shortest decimal.\<close>

definition shortest_decimal :: "rat \<Rightarrow> rat" where
  "shortest_decimal x =
     (if x = 0 then 0
      else let c = shortest 16 1 \<bar>x\<bar>; y = of_int (fst c) * pow10 (snd c) in if x < 0 then - y else y)"

definition layout_float :: "pystr \<Rightarrow> int \<Rightarrow> pystr" where
  "layout_float ds e =
     (if 16 \<le> e \<or> e < - 4
      then hd ds # (if tl ds = [] then [] else ''.'' @ tl ds) @ ''e'' @ (if e < 0 then ''-'' else ''+'')
        @ (if \<bar>e\<bar> < 10 then ''0'' else []) @ int_str \<bar>e\<bar>
      else if e < 0 then ''0.'' @ replicate (nat (- e - 1)) (CHR ''0'') @ ds
      else if int (length ds) \<le> e + 1 then ds @ replicate (nat (e + 1) - length ds) (CHR ''0'') @ ''.0''
      else take (nat (e + 1)) ds @ ''.'' @ drop (nat (e + 1)) ds)"

definition float_repr :: "rat \<Rightarrow> pystr" where
  "float_repr x =
     (if x = 0 then ''0.0''
      else let c = shortest 16 1 \<bar>x\<bar>; ds = int_str (fst c)
           in (if x < 0 then ''-'' else [])
              @ layout_float (rev (dropWhile (\<lambda>d. d = CHR ''0'') (rev ds))) (snd c + int (length ds) - 1))"

text \<open>NaN and the infinities are refused (\<open>allow_nan=False\<close>) before printing wherever the sources print.\<close>

fun dumps :: "jv \<Rightarrow> pystr" where
  "dumps JvNull = ''null''"
| "dumps (JvBool b) = (if b then ''true'' else ''false'')"
| "dumps (JvInt i) = int_str i"
| "dumps (JvStr s) = dumps_str s"
| "dumps (JvArr vs) = ''['' @ join '','' (map dumps vs) @ '']''"
| "dumps (JvObj kvs) =
     ''{'' @ join '','' (map (\<lambda>kt. dumps_str (fst kt) @ '':'' @ snd kt)
       (sort_key fst (map (\<lambda>kv. (fst kv, dumps (snd kv))) kvs))) @ ''}''"
| "dumps (JvDec x) = float_repr x"
| "dumps JFloat = []"

section \<open>Reading\<close>

definition is_ws :: "char \<Rightarrow> bool" where
  "is_ws c \<longleftrightarrow> c = CHR '' '' \<or> c = CHR 0x09 \<or> c = CHR 0x0A \<or> c = CHR 0x0D"

definition skip_ws :: "pystr \<Rightarrow> pystr" where
  "skip_ws s = dropWhile is_ws s"

definition hex_val :: "char \<Rightarrow> int option" where
  "hex_val c =
     (let n = of_char c :: int
      in if 48 \<le> n \<and> n \<le> 57 then Some (n - 48)
         else if 97 \<le> n \<and> n \<le> 102 then Some (n - 87)
         else if 65 \<le> n \<and> n \<le> 70 then Some (n - 55)
         else None)"

definition hex4 :: "char \<Rightarrow> char \<Rightarrow> char \<Rightarrow> char \<Rightarrow> int option" where
  "hex4 a b c d =
     (case (hex_val a, hex_val b, hex_val c, hex_val d) of
        (Some w, Some x, Some y, Some z) \<Rightarrow> Some (4096 * w + 256 * x + 16 * y + z)
      | _ \<Rightarrow> None)"

definition unescape :: "char \<Rightarrow> char option" where
  "unescape c =
     (if c = CHR 0x22 then Some (CHR 0x22) else if c = CHR 0x5C then Some (CHR 0x5C)
      else if c = CHR ''/'' then Some (CHR ''/'') else if c = CHR ''b'' then Some (CHR 0x08)
      else if c = CHR ''f'' then Some (CHR 0x0C) else if c = CHR ''n'' then Some (CHR 0x0A)
      else if c = CHR ''r'' then Some (CHR 0x0D) else if c = CHR ''t'' then Some (CHR 0x09) else None)"

text \<open>The rest of a string after its opening quote: the text read and what follows.\<close>

fun read_str :: "pystr \<Rightarrow> (pystr \<times> pystr) option" where
  "read_str [] = None"
| "read_str (c # s) =
     (if c = CHR 0x22 then Some ([], s)
      else if c = CHR 0x5C
      then (case s of [] \<Rightarrow> None
         | e # t \<Rightarrow>
             if e = CHR ''u''
             then (case t of h1 # h2 # h3 # h4 # u \<Rightarrow>
                  (case hex4 h1 h2 h3 h4 of None \<Rightarrow> None
                   | Some n \<Rightarrow> if n < 256
                       then map_option (\<lambda>p. (char_of n # fst p, snd p)) (read_str u) else None)
                | _ \<Rightarrow> None)
             else (case unescape e of None \<Rightarrow> None
                | Some ch \<Rightarrow> map_option (\<lambda>p. (ch # fst p, snd p)) (read_str t)))
      else if (of_char c :: int) < 32 then None
      else map_option (\<lambda>p. (c # fst p, snd p)) (read_str s))"

text \<open>A number: the integer part, then an optional fraction and exponent.\<close>

definition read_frac :: "pystr \<Rightarrow> pystr \<times> pystr" where
  "read_frac s =
     (if s \<noteq> [] \<and> hd s = CHR ''.'' \<and> takeWhile is_digit_ascii (tl s) \<noteq> []
      then (takeWhile is_digit_ascii (tl s), dropWhile is_digit_ascii (tl s)) else ([], s))"

definition read_exp :: "pystr \<Rightarrow> int option \<times> pystr" where
  "read_exp s =
     (if s \<noteq> [] \<and> (hd s = CHR ''e'' \<or> hd s = CHR ''E'')
      then let p = split_sign (tl s); ds = takeWhile is_digit_ascii (snd p)
           in if ds \<noteq> [] then (Some (if fst p then - int (digits_val ds) else int (digits_val ds)),
                dropWhile is_digit_ascii (snd p)) else (None, s)
      else (None, s))"

definition leading_digits :: "pystr \<Rightarrow> pystr" where
  "leading_digits t = (if t \<noteq> [] \<and> hd t = CHR ''0'' then ''0'' else takeWhile is_digit_ascii t)"

definition read_unsigned :: "bool \<Rightarrow> pystr \<Rightarrow> (jv \<times> pystr) option" where
  "read_unsigned neg t =
     (let ds = leading_digits t; f = read_frac (drop (length ds) t); e = read_exp (snd f);
          i = int (digits_val ds)
      in if ds = [] then None
         else if fst f = [] \<and> fst e = None then Some (JvInt (if neg then - i else i), snd f)
         else let x = of_nat (digits_val (ds @ fst f))
                      * pow10 ((case fst e of None \<Rightarrow> 0 | Some k \<Rightarrow> k) - int (length (fst f)))
              in Some (case to_float (if neg then - x else x) of Fin y \<Rightarrow> JvDec y | _ \<Rightarrow> JFloat, snd e))"

definition read_num :: "pystr \<Rightarrow> (jv \<times> pystr) option" where
  "read_num s = (if s \<noteq> [] \<and> hd s = CHR ''-'' then read_unsigned True (tl s) else read_unsigned False s)"

text \<open>A later value of a repeated key replaces the earlier one.\<close>

definition dict_of :: "(pystr \<times> jv) list \<Rightarrow> (pystr \<times> jv) list" where
  "dict_of kvs = fold (\<lambda>kv d. AList.update (fst kv) (snd kv) d) kvs []"

definition strip_prefix :: "pystr \<Rightarrow> pystr \<Rightarrow> pystr option" where
  "strip_prefix p s = (if take (length p) s = p then Some (drop (length p) s) else None)"

fun first_some :: "(pystr \<times> jv) list \<Rightarrow> pystr \<Rightarrow> (jv \<times> pystr) option" where
  "first_some [] s = None"
| "first_some (wv # ws) s =
     (case strip_prefix (fst wv) s of Some r \<Rightarrow> Some (snd wv, r) | None \<Rightarrow> first_some ws s)"

definition read_word :: "pystr \<Rightarrow> (jv \<times> pystr) option" where
  "read_word s = first_some [(''null'', JvNull), (''true'', JvBool True), (''false'', JvBool False),
     (''NaN'', JFloat), (''Infinity'', JFloat), (''-Infinity'', JFloat)] s"

text \<open>The fuel bounds the nesting; a text is never nested deeper than it is long.\<close>

fun read_val :: "nat \<Rightarrow> pystr \<Rightarrow> (jv \<times> pystr) option"
  and read_items :: "nat \<Rightarrow> pystr \<Rightarrow> (jv list \<times> pystr) option"
  and read_pairs :: "nat \<Rightarrow> pystr \<Rightarrow> ((pystr \<times> jv) list \<times> pystr) option" where
  "read_val 0 s = None"
| "read_val (Suc n) s =
     (case s of [] \<Rightarrow> None
      | c # t \<Rightarrow>
          if c = CHR 0x22 then map_option (\<lambda>p. (JvStr (fst p), snd p)) (read_str t)
          else if c = CHR ''[''
          then (let u = skip_ws t in
                if u \<noteq> [] \<and> hd u = CHR '']'' then Some (JvArr [], tl u)
                else map_option (\<lambda>p. (JvArr (fst p), snd p)) (read_items n u))
          else if c = CHR ''{''
          then (let u = skip_ws t in
                if u \<noteq> [] \<and> hd u = CHR ''}'' then Some (JvObj [], tl u)
                else map_option (\<lambda>p. (JvObj (dict_of (fst p)), snd p)) (read_pairs n u))
          else case read_word s of Some p \<Rightarrow> Some p | None \<Rightarrow> read_num s)"
| "read_items 0 s = None"
| "read_items (Suc n) s =
     (case read_val n s of None \<Rightarrow> None
      | Some (v, t) \<Rightarrow>
          (case skip_ws t of [] \<Rightarrow> None
           | d # u \<Rightarrow>
               if d = CHR '']'' then Some ([v], u)
               else if d = CHR '','' then map_option (\<lambda>p. (v # fst p, snd p)) (read_items n (skip_ws u))
               else None))"
| "read_pairs 0 s = None"
| "read_pairs (Suc n) s =
     (case s of [] \<Rightarrow> None
      | q # s0 \<Rightarrow>
         if q \<noteq> CHR 0x22 then None
         else case read_str s0 of None \<Rightarrow> None
          | Some (k, s1) \<Rightarrow>
             (case skip_ws s1 of [] \<Rightarrow> None
              | d # s2 \<Rightarrow>
                 if d \<noteq> CHR '':'' then None
                 else case read_val n (skip_ws s2) of None \<Rightarrow> None
                  | Some (v, s3) \<Rightarrow>
                     (case skip_ws s3 of [] \<Rightarrow> None
                      | e # s4 \<Rightarrow>
                         if e = CHR ''}'' then Some ([(k, v)], s4)
                         else if e = CHR '',''
                         then map_option (\<lambda>p. ((k, v) # fst p, snd p)) (read_pairs n (skip_ws s4))
                         else None)))"

definition loads_text :: "pystr \<Rightarrow> jv option" where
  "loads_text s =
     (case read_val (Suc (length s)) (skip_ws s) of None \<Rightarrow> None
      | Some (v, rest) \<Rightarrow> if skip_ws rest = [] then Some v else None)"

section \<open>Strings\<close>

lemma hex_val_char: "0 \<le> k \<Longrightarrow> k < 16 \<Longrightarrow> hex_val (hex_char k) = Some k"
proof -
  assume k: "0 \<le> k" "k < 16"
  have "of_char (char_of n :: char) = n" if "0 \<le> n" "n < 256" for n :: int
    using that by simp
  then have "of_char (hex_char k) = (if k < 10 then 48 + k else 87 + k)" using k by (simp add: hex_char_def)
  then show ?thesis using k by (auto simp: hex_val_def Let_def)
qed

lemma of_char_bounds: "0 \<le> (of_char c :: int)" "(of_char c :: int) < 256"
  using code_point_less [of c] by (simp_all add: int_code_point)

lemma char_of_int_of_char: "char_of (of_char c :: int) = c"
  by simp

lemma read_str_esc:
  "read_str (esc_char c @ t) = map_option (\<lambda>p. (c # fst p, snd p)) (read_str t)"
proof -
  define n where "n = (of_char c :: int)"
  have n: "0 \<le> n" "n < 256" "char_of n = c" using of_char_bounds [of c] by (simp_all add: n_def)
  have hex: "hex4 (CHR ''0'') (CHR ''0'') (hex_char (n div 16)) (hex_char (n mod 16)) = Some n"
  proof -
    have z: "hex_val (CHR ''0'') = Some 0" by (simp add: hex_val_def)
    have "hex_val (hex_char (n div 16)) = Some (n div 16)" "hex_val (hex_char (n mod 16)) = Some (n mod 16)"
      using n by (auto intro!: hex_val_char)
    then show ?thesis using z by (simp add: hex4_def)
  qed
  have eqs: "n = 10 \<Longrightarrow> c = CHR 0x0A" "n = 13 \<Longrightarrow> c = CHR 0x0D" "n = 9 \<Longrightarrow> c = CHR 0x09"
    "n = 12 \<Longrightarrow> c = CHR 0x0C" "n = 8 \<Longrightarrow> c = CHR 0x08"
    using n(3) by (auto simp: char_of_def)
  have lit: "c \<noteq> CHR 0x22 \<Longrightarrow> c \<noteq> CHR 0x5C \<Longrightarrow> 32 \<le> n \<Longrightarrow> n \<le> 126 \<Longrightarrow> ?thesis"
    by (simp add: esc_char_def Let_def n_def [symmetric])
  have u: "esc_char c = [CHR 0x5C, CHR ''u'', CHR ''0'', CHR ''0'', hex_char (n div 16), hex_char (n mod 16)] \<Longrightarrow> ?thesis"
    using hex n by simp
  consider "c = CHR 0x22" | "c = CHR 0x5C" | "n = 10" | "n = 13" | "n = 9" | "n = 12" | "n = 8"
    | "c \<noteq> CHR 0x22" "c \<noteq> CHR 0x5C" "32 \<le> n" "n \<le> 126"
    | (other) "c \<noteq> CHR 0x22" "c \<noteq> CHR 0x5C" "n \<notin> {8, 9, 10, 12, 13}" "\<not> (32 \<le> n \<and> n \<le> 126)"
    by blast
  then show ?thesis
  proof cases
    case other
    then show ?thesis by (intro u) (simp add: esc_char_def Let_def n_def [symmetric])
  qed (use eqs lit in \<open>simp_all add: esc_char_def unescape_def\<close>)
qed

lemma read_str_esc_all: "read_str (concat (map esc_char s) @ CHR 0x22 # t) = Some (s, t)"
  by (induction s) (simp_all add: read_str_esc)

section \<open>Numbers\<close>

text \<open>What may follow a value inside a text.\<close>

definition follows :: "pystr \<Rightarrow> bool" where
  "follows t \<longleftrightarrow> t = [] \<or> hd t = CHR '','' \<or> hd t = CHR '']'' \<or> hd t = CHR ''}'' \<or> hd t = CHR 0x0A"

lemma follows_digit: "follows t \<Longrightarrow> takeWhile is_digit_ascii t = [] \<and> dropWhile is_digit_ascii t = t"
  by (cases t) (auto simp: follows_def is_digit_ascii_def)

lemma follows_read: "follows t \<Longrightarrow> read_frac t = ([], t) \<and> read_exp t = (None, t)"
  by (cases t) (auto simp: follows_def read_frac_def read_exp_def)

lemma nat_str_zero: "hd (nat_str n) = CHR ''0'' \<Longrightarrow> nat_str n = ''0''"
proof (induction n rule: nat_str.induct)
  case (1 n)
  have digit: "digit_char k = CHR ''0'' \<longleftrightarrow> k = 0" if "k < 10" for k
  proof -
    have "digit_char 0 = CHR ''0''" by code_simp
    then show ?thesis using digit_char_code [OF that] digit_char_code [of 0] by (metis add_left_cancel zero_less_numeral)
  qed
  show ?case
  proof (cases "n < 10")
    case True
    with 1(2) show ?thesis by (simp add: nat_str.simps [of n])
  next
    case False
    then have "hd (nat_str n) = hd (nat_str (n div 10))" by (simp add: nat_str.simps [of n])
    with 1 False have "nat_str (n div 10) = ''0''" by simp
    then have "n div 10 = 0" by (metis digits_val_nat_str nat_str_inject nat_str.simps digit zero_less_numeral)
    with False show ?thesis by simp
  qed
qed

lemma digits_val_zero: "digits_val ''0'' = 0"
  by (simp add: digits_val_def)

lemma read_num_nat:
  assumes "follows t"
  shows "read_num (nat_str n @ t) = Some (JvInt (int n), t)"
    and "read_num (CHR ''-'' # nat_str n @ t) = Some (JvInt (- int n), t)"
proof -
  have dig: "list_all is_digit_ascii (nat_str n)" by (rule nat_str_digits)
  have "takeWhile is_digit_ascii (nat_str n @ t) = nat_str n"
    using dig follows_digit [OF assms] by (simp add: list_all_iff takeWhile_append)
  then have ds: "leading_digits (nat_str n @ t) = nat_str n"
    using nat_str_zero [of n] by (auto simp: leading_digits_def)
  have un: "read_unsigned neg (nat_str n @ t) = Some (JvInt (if neg then - int n else int n), t)" for neg
    using ds follows_read [OF assms] by (simp add: read_unsigned_def Let_def)
  have "hd (nat_str n @ t) \<noteq> CHR ''-''" using dig by (cases "nat_str n") auto
  then show "read_num (nat_str n @ t) = Some (JvInt (int n), t)"
    using un [of False] by (simp add: read_num_def)
  show "read_num (CHR ''-'' # nat_str n @ t) = Some (JvInt (- int n), t)"
    using un [of True] by (simp add: read_num_def)
qed

lemma read_num_int: "follows t \<Longrightarrow> read_num (int_str i @ t) = Some (JvInt i, t)"
  using read_num_nat [of t "nat i"] read_num_nat [of t "nat (- i)"] by (simp add: int_str_def)


section \<open>Values\<close>

text \<open>Values without fractions whose objects have sorted, distinct keys.\<close>

fun normal :: "jv \<Rightarrow> bool" where
  "normal (JvArr vs) \<longleftrightarrow> list_all normal vs"
| "normal (JvObj kvs) \<longleftrightarrow> sorted_wrt (<) (map fst kvs) \<and> list_all (\<lambda>kv. normal (snd kv)) kvs"
| "normal (JvDec x) \<longleftrightarrow> False"
| "normal JFloat \<longleftrightarrow> False"
| "normal v \<longleftrightarrow> True"

lemma sort_key_sorted: "sorted_wrt (<) (map fst kvs) \<Longrightarrow> sort_key fst kvs = kvs"
  by (simp add: sort_key_id_if_sorted strict_sorted_imp_sorted)

lemma dict_of_append:
  "distinct (map fst (d @ kvs)) \<Longrightarrow> fold (\<lambda>kv d. AList.update (fst kv) (snd kv) d) kvs d = d @ kvs"
proof (induction kvs arbitrary: d)
  case (Cons kv kvs)
  have "AList.update k v d = d @ [(k, v)]" if "k \<notin> fst ` set d" for k v
    using that by (induction d) auto
  with Cons show ?case by (simp add: image_iff)
qed simp

lemma dict_of_distinct: "distinct (map fst kvs) \<Longrightarrow> dict_of kvs = kvs"
  using dict_of_append [of "[]" kvs] by (simp add: dict_of_def)

definition pair_text :: "pystr \<times> jv \<Rightarrow> pystr" where
  "pair_text kv = dumps_str (fst kv) @ '':'' @ dumps (snd kv)"

lemma dumps_obj:
  assumes "sorted_wrt (<) (map fst kvs)"
  shows "dumps (JvObj kvs) = ''{'' @ join '','' (map pair_text kvs) @ ''}''"
proof -
  have "map fst (map (\<lambda>kv. (fst kv, dumps (snd kv))) kvs) = map fst kvs" by (simp add: comp_def)
  then have "sort_key fst (map (\<lambda>kv. (fst kv, dumps (snd kv))) kvs) = map (\<lambda>kv. (fst kv, dumps (snd kv))) kvs"
    using assms sort_key_sorted by metis
  then show ?thesis by (simp add: pair_text_def [abs_def] comp_def)
qed

lemma join_Cons: "join sep (x # xs) = (if xs = [] then x else x @ sep @ join sep xs)"
  by (cases xs) simp_all

lemma pair_text_append:
  "pair_text (k, v) @ u = CHR 0x22 # concat (map esc_char k) @ CHR 0x22 # CHR '':'' # dumps v @ u"
  by (simp add: pair_text_def dumps_str_def)

lemma pairs_head: "kvs \<noteq> [] \<Longrightarrow> \<exists>cs. join '','' (map pair_text kvs) = CHR 0x22 # cs"
  by (cases kvs) (auto simp: join_Cons pair_text_append pair_text_append [of _ _ "[]", simplified])

lemma int_str_head: "\<exists>c cs. int_str i = c # cs \<and> (is_digit_ascii c \<or> (c = CHR ''-'' \<and> cs \<noteq> [] \<and> is_digit_ascii (hd cs)))"
proof -
  have *: "\<exists>c cs. nat_str n = c # cs \<and> is_digit_ascii c" for n
    using nat_str_digits [of n] nat_str_nonempty [of n] by (cases "nat_str n") auto
  show ?thesis using * [of "nat i"] * [of "nat (- i)"] by (auto simp: int_str_def)
qed

lemma read_word_digit: "is_digit_ascii c \<Longrightarrow> read_word (c # s) = None"
  "is_digit_ascii c \<Longrightarrow> read_word (CHR ''-'' # c # s) = None"
proof -
  assume "is_digit_ascii c"
  then have "c \<notin> {CHR ''n'', CHR ''t'', CHR ''f'', CHR ''N'', CHR ''I'', CHR ''-''}"
    by (auto simp: is_digit_ascii_def)
  then show "read_word (c # s) = None" "read_word (CHR ''-'' # c # s) = None"
    by (simp_all add: read_word_def strip_prefix_def)
qed

lemma read_val_int:
  assumes "follows t"
  shows "read_val (Suc n) (int_str i @ t) = Some (JvInt i, t)"
proof -
  obtain c cs where c: "int_str i = c # cs"
    "is_digit_ascii c \<or> (c = CHR ''-'' \<and> cs \<noteq> [] \<and> is_digit_ascii (hd cs))" using int_str_head by blast
  have "c \<noteq> CHR 0x22 \<and> c \<noteq> CHR ''['' \<and> c \<noteq> CHR ''{''" using c(2) by (auto simp: is_digit_ascii_def)
  moreover have "read_word (int_str i @ t) = None"
    using c read_word_digit by (cases cs) auto
  ultimately show ?thesis using read_num_int [OF assms, of i] c(1) by simp
qed

lemma first_char: "normal v \<Longrightarrow> \<exists>c cs. dumps v = c # cs \<and> \<not> is_ws c \<and> c \<noteq> CHR '']'' \<and> c \<noteq> CHR ''}''"
proof (cases v)
  case (JvInt i)
  then show ?thesis using int_str_head [of i] by (auto simp: is_ws_def is_digit_ascii_def)
next
  case (JvObj kvs)
  moreover assume "normal v"
  ultimately show ?thesis by (simp add: is_ws_def)
qed (auto simp: is_ws_def dumps_str_def)

lemma skip_ws_nonws: "\<not> is_ws c \<Longrightarrow> skip_ws (c # s) = c # s"
  by (simp add: skip_ws_def)

lemma skip_ws_dumps: "normal v \<Longrightarrow> skip_ws (dumps v @ t) = dumps v @ t"
  using first_char [of v] skip_ws_nonws by auto

lemma skip_ws_sep [simp]: "skip_ws (CHR '','' # s) = CHR '','' # s" "skip_ws (CHR '']'' # s) = CHR '']'' # s"
  "skip_ws (CHR ''}'' # s) = CHR ''}'' # s" "skip_ws (CHR '':'' # s) = CHR '':'' # s"
  "skip_ws (CHR 0x22 # s) = CHR 0x22 # s" "skip_ws [] = []"
  by (simp_all add: skip_ws_def is_ws_def)

lemma follows_sep [simp]: "follows (CHR '','' # s)" "follows (CHR '']'' # s)" "follows (CHR ''}'' # s)" "follows []"
  by (simp_all add: follows_def)

lemma dumps_nonempty: "normal v \<Longrightarrow> 1 \<le> length (dumps v)"
  using first_char [of v] by auto

lemma read_items_dumps:
  assumes "\<And>v n t. v \<in> set vs \<Longrightarrow> length (dumps v) \<le> n \<Longrightarrow> follows t \<Longrightarrow> read_val n (dumps v @ t) = Some (v, t)"
    and "list_all normal vs" "vs \<noteq> []" "length (join '','' (map dumps vs)) < n"
  shows "read_items n (join '','' (map dumps vs) @ CHR '']'' # t) = Some (vs, t)"
  using assms
proof (induction vs arbitrary: n)
  case (Cons v vs)
  obtain m where n: "n = Suc m" using Cons.prems(4) by (cases n) auto
  show ?case
  proof (cases "vs = []")
    case True
    with Cons.prems n show ?thesis by simp
  next
    case False
    have "length (dumps v) \<le> m" "length (join '','' (map dumps vs)) < m"
      using Cons.prems(2,4) n False dumps_nonempty [of v] by (auto simp: join_Cons)
    moreover have "skip_ws (join '','' (map dumps vs) @ CHR '']'' # t) = join '','' (map dumps vs) @ CHR '']'' # t"
      using False Cons.prems(2) skip_ws_dumps by (cases vs) (auto simp: join_Cons)
    ultimately show ?thesis using Cons n False by (simp add: join_Cons)
  qed
qed simp

lemma read_pairs_dumps:
  assumes "\<And>v n t. v \<in> snd ` set kvs \<Longrightarrow> length (dumps v) \<le> n \<Longrightarrow> follows t \<Longrightarrow> read_val n (dumps v @ t) = Some (v, t)"
    and "list_all (\<lambda>kv. normal (snd kv)) kvs" "kvs \<noteq> []" "length (join '','' (map pair_text kvs)) < n"
  shows "read_pairs n (join '','' (map pair_text kvs) @ CHR ''}'' # t) = Some (kvs, t)"
  using assms
proof (induction kvs arbitrary: n)
  case (Cons kv kvs)
  obtain k v where kv: "kv = (k, v)" by fastforce
  obtain m where n: "n = Suc m" using Cons.prems(4) by (cases n) auto
  have nv: "normal v" using Cons.prems(2) kv by simp
  show ?case
  proof (cases "kvs = []")
    case True
    then have "length (dumps v) \<le> m" using Cons.prems(4) n kv by (simp add: pair_text_def)
    then have "read_val m (dumps v @ CHR ''}'' # t) = Some (v, CHR ''}'' # t)"
      using Cons.prems(1) [of v] kv by simp
    with True n kv show ?thesis
      by (simp add: pair_text_append read_str_esc_all skip_ws_dumps [OF nv])
  next
    case False
    let ?r = "join '','' (map pair_text kvs) @ CHR ''}'' # t"
    have "length (pair_text kv) = length (dumps_str k) + 1 + length (dumps v)" "2 \<le> length (dumps_str k)"
      using kv by (simp_all add: pair_text_def dumps_str_def)
    then have "length (dumps v) \<le> m" "length (join '','' (map pair_text kvs)) < m"
      using Cons.prems(4) n False by (auto simp: join_Cons)
    then have "read_val m (dumps v @ CHR '','' # ?r) = Some (v, CHR '','' # ?r)" "read_pairs m ?r = Some (kvs, t)"
      using Cons.prems(1) [of v] Cons.IH [of m] Cons.prems False kv by (simp_all add: image_iff)
    moreover have "skip_ws ?r = ?r"
      using pairs_head [OF False] by auto
    ultimately show ?thesis using n False kv
      by (simp add: join_Cons pair_text_append read_str_esc_all skip_ws_dumps [OF nv])
  qed
qed simp

lemma read_val_dumps:
  "normal v \<Longrightarrow> length (dumps v) \<le> n \<Longrightarrow> follows t \<Longrightarrow> read_val n (dumps v @ t) = Some (v, t)"
proof (induction v arbitrary: n t)
  case (JvArr vs)
  obtain m where n: "n = Suc m" using JvArr.prems(2) by (cases n) auto
  show ?case
  proof (cases "vs = []")
    case False
    have "read_items m (join '','' (map dumps vs) @ CHR '']'' # t) = Some (vs, t)"
      using JvArr n False by (intro read_items_dumps) (auto simp: list_all_iff)
    moreover obtain c cs where "join '','' (map dumps vs) = c # cs" "\<not> is_ws c" "c \<noteq> CHR '']''"
      using False JvArr.prems(1) first_char by (cases vs) (auto simp: join_Cons split: if_splits, fastforce+)
    ultimately show ?thesis using n by (simp add: skip_ws_nonws)
  qed (use n in simp)
next
  case (JvObj kvs)
  obtain m where n: "n = Suc m" using JvObj.prems(2) by (cases n) auto
  have sorted: "sorted_wrt (<) (map fst kvs)" using JvObj.prems(1) by simp
  then have dist: "dict_of kvs = kvs"
    by (intro dict_of_distinct) (simp add: strict_sorted_iff)
  show ?case
  proof (cases "kvs = []")
    case False
    have "read_pairs m (join '','' (map pair_text kvs) @ CHR ''}'' # t) = Some (kvs, t)"
      using JvObj n False dumps_obj [OF sorted] by (intro read_pairs_dumps) (auto simp: list_all_iff, blast?)
    moreover obtain cs where "join '','' (map pair_text kvs) = CHR 0x22 # cs"
      using pairs_head [OF False] by blast
    ultimately show ?thesis using n dist dumps_obj [OF sorted] by simp
  qed (use n in simp)
next
  case (JvInt i)
  then show ?case using read_val_int [of t "n - 1" i] dumps_nonempty [of "JvInt i"] by (cases n) auto
next
  case (JvBool b)
  then show ?case by (cases n; cases b) (auto simp: read_word_def strip_prefix_def)
next
  case (JvStr s)
  then show ?case by (cases n) (auto simp: dumps_str_def read_str_esc_all)
next
  case JvNull
  then show ?case by (cases n) (auto simp: read_word_def strip_prefix_def)
qed simp_all

text \<open>Reading a printed value in normal form gives it back.\<close>

lemma loads_dumps: "normal v \<Longrightarrow> loads_text (dumps v) = Some v"
  using read_val_dumps [of v "Suc (length (dumps v))" "[]"] skip_ws_dumps [of v "[]"]
  by (simp add: loads_text_def)

text \<open>Sorting the keys of a value with distinct keys puts it in normal form and does not change the text.\<close>

fun printable :: "jv \<Rightarrow> bool" where
  "printable (JvArr vs) \<longleftrightarrow> list_all printable vs"
| "printable (JvObj kvs) \<longleftrightarrow> distinct (map fst kvs) \<and> list_all (\<lambda>kv. printable (snd kv)) kvs"
| "printable (JvDec x) \<longleftrightarrow> False"
| "printable JFloat \<longleftrightarrow> False"
| "printable v \<longleftrightarrow> True"

lemma sort_key_map_values:
  "sort_key fst (map (\<lambda>kv. (fst kv, f (snd kv))) kvs) = map (\<lambda>kv. (fst kv, f (snd kv))) (sort_key fst kvs)"
proof (induction kvs)
  case (Cons kv kvs)
  have "insort_key fst (fst a, f (snd a)) (map (\<lambda>kv. (fst kv, f (snd kv))) xs)
      = map (\<lambda>kv. (fst kv, f (snd kv))) (insort_key fst a xs)" for a xs
    by (induction xs) auto
  with Cons show ?case by simp
qed simp

lemma normal_sort_obj: "printable v \<Longrightarrow> normal (sort_obj v)"
proof (induction v)
  case (JvObj kvs)
  let ?s = "sort_key fst (map (\<lambda>kv. (fst kv, sort_obj (snd kv))) kvs)"
  have "sorted (map fst ?s)" by simp
  moreover have "distinct (map fst ?s)"
    using JvObj.prems by (metis (no_types, lifting) distinct_map distinct_sort map_map comp_def fst_conv printable.simps(2) inj_on_cong set_sort distinct_map)
  ultimately show ?case using JvObj by (auto simp: strict_sorted_iff list_all_iff)
qed (auto simp: list_all_iff)

lemma dumps_sort_obj: "dumps (sort_obj v) = dumps v"
proof (induction v)
  case (JvArr vs)
  then show ?case by (simp add: comp_def cong: map_cong)
next
  case (JvObj kvs)
  have eq: "map (\<lambda>kv. (fst kv, dumps (sort_obj (snd kv)))) kvs = map (\<lambda>kv. (fst kv, dumps (snd kv))) kvs"
    using JvObj by (auto simp: snds.simps)
  have "sort_key fst (map (\<lambda>kv. (fst kv, dumps (snd kv))) (sort_key fst (map (\<lambda>kv. (fst kv, sort_obj (snd kv))) kvs)))
      = sort_key fst (map (\<lambda>kv. (fst kv, dumps (snd kv))) kvs)"
    unfolding sort_key_map_values [symmetric]
    by (simp add: comp_def eq sort_key_id_if_sorted)
  then show ?case by simp
qed simp_all

lemma loads_dumps_sorted: "printable v \<Longrightarrow> loads_text (dumps v) = Some (sort_obj v)"
  using loads_dumps [OF normal_sort_obj] by (simp add: dumps_sort_obj)

text \<open>A printed value with a line feed behind it, as the sources write files.\<close>

lemma loads_dumps_line: "printable v \<Longrightarrow> loads_text (dumps v @ [CHR 0x0A]) = Some (sort_obj v)"
proof -
  assume "printable v"
  then have n: "normal (sort_obj v)" by (rule normal_sort_obj)
  have f: "follows [CHR 0x0A]" by (simp add: follows_def)
  have w: "skip_ws [CHR 0x0A] = []" by (simp add: skip_ws_def is_ws_def)
  show ?thesis
    using read_val_dumps [OF n _ f, of "Suc (length (dumps v @ [CHR 0x0A]))"] skip_ws_dumps [OF n, of "[CHR 0x0A]"] w
    by (simp add: loads_text_def dumps_sort_obj)
qed

lemma map_of_sort_key: "distinct (map fst kvs) \<Longrightarrow> map_of (sort_key fst kvs) = map_of kvs"
  by (rule map_of_inject_set [THEN iffD2]) (simp_all add: distinct_map)

text \<open>Looking up a key after sorting.\<close>

lemma map_of_sort_obj:
  assumes "distinct (map fst kvs)"
  shows "\<exists>kvs'. sort_obj (JvObj kvs) = JvObj kvs' \<and> (\<forall>k. map_of kvs' k = map_option sort_obj (map_of kvs k))"
proof -
  let ?m = "map (\<lambda>kv. (fst kv, sort_obj (snd kv))) kvs"
  have "map_of (sort_key fst ?m) = map_of ?m" using assms by (intro map_of_sort_key) (simp add: comp_def)
  moreover have "map_of ?m k = map_option sort_obj (map_of kvs k)" for k by (induction kvs) auto
  ultimately show ?thesis by simp
qed

lemma jget_sort_obj:
  assumes "distinct (map fst kvs)"
  shows "\<exists>kvs'. sort_obj (JvObj kvs) = JvObj kvs' \<and> (\<forall>k. jget kvs' k = sort_obj (jget kvs k))"
  using map_of_sort_obj [OF assms] by (auto simp: jget_def split: option.split)

end
