(* ===== verification/Alpaca.thy ===== *)
theory Alpaca
  imports Motor Json
begin

text \<open>
  The Alpaca client (\<open>execution_motor/alpaca.py\<close>), the parsing of its answers
  (\<open>alpaca_parse.py\<close>) and the in-memory broker (\<open>mock_broker.py\<close>).

  The HTTP library is a parameter: \<open>http n rq\<close> is what the n-th request \<open>rq\<close> of the client comes
  back with, a response, an \<open>httpx.HTTPError\<close> or any other exception. A response carries its body
  as \<open>json.loads(text, parse_float=Decimal)\<close> reads it, \<open>None\<close> when it is not JSON. The state of the
  client is the log of requests it has made and the backoff limits it has slept under.
\<close>

section \<open>JSON bodies\<close>

abbreviation MalformedResponse :: "pystr \<Rightarrow> exc" where
  "MalformedResponse msg \<equiv> Exc ''MalformedResponse'' msg"

definition loads :: "jv option \<Rightarrow> exc + jv" where
  "loads body = (case body of None \<Rightarrow> Inl (MalformedResponse ''body is not valid JSON'') | Some v \<Rightarrow> Inr v)"

definition finite_dec :: "dec option \<Rightarrow> pystr \<Rightarrow> exc + rat" where
  "finite_dec d name =
     (case d of None \<Rightarrow> Inl (MalformedResponse (name @ '' is not a valid decimal''))
      | Some (Fin x) \<Rightarrow> Inr x
      | Some _ \<Rightarrow> Inl (MalformedResponse (name @ '' is not finite'')))"

fun parse_dec :: "jv \<Rightarrow> pystr \<Rightarrow> exc + rat" where
  "parse_dec (JvStr s) name = finite_dec (parse_decimal s) name"
| "parse_dec (JvInt i) name = finite_dec (Some (Fin (of_int i))) name"
| "parse_dec (JvDec x) name = finite_dec (Some (Fin x)) name"
| "parse_dec _ name = Inl (MalformedResponse (name @ '' is not a decimal string''))"

definition parse_opt_dec :: "jv \<Rightarrow> pystr \<Rightarrow> exc + rat option" where
  "parse_opt_dec v name =
     (if v = JvNull then Inr None else rbind (parse_dec v name) (\<lambda>x. Inr (Some x)))"

definition parse_str :: "jv \<Rightarrow> pystr \<Rightarrow> exc + pystr" where
  "parse_str v name =
     (case v of JvStr s \<Rightarrow> if s = [] then Inl (MalformedResponse (name @ '' missing'')) else Inr s
      | _ \<Rightarrow> Inl (MalformedResponse (name @ '' missing'')))"

section \<open>Timestamps\<close>

text \<open>\<open>int(digits)\<close> of a string of digits.\<close>

definition digits_int :: "pystr \<Rightarrow> int" where
  "digits_int s = foldl (\<lambda>acc c. 10 * acc + (of_char c - 48)) 0 s"

definition leap_year :: "int \<Rightarrow> bool" where
  "leap_year y \<longleftrightarrow> y mod 4 = 0 \<and> (y mod 100 \<noteq> 0 \<or> y mod 400 = 0)"

definition month_days :: "int \<Rightarrow> int list" where
  "month_days y = [31, if leap_year y then 29 else 28, 31, 30, 31, 30, 31, 31, 30, 31, 30, 31]"

text \<open>\<open>datetime(year, month, day, ...)\<close> accepts exactly the dates of the proleptic calendar.\<close>

definition valid_date :: "int \<Rightarrow> int \<Rightarrow> int \<Rightarrow> bool" where
  "valid_date y m d \<longleftrightarrow> 1 \<le> y \<and> 1 \<le> m \<and> m \<le> 12 \<and> 1 \<le> d \<and> d \<le> month_days y ! nat (m - 1)"

definition days_before_year :: "int \<Rightarrow> int" where
  "days_before_year y = (let p = y - 1 in p * 365 + p div 4 - p div 100 + p div 400)"

definition ordinal :: "int \<Rightarrow> int \<Rightarrow> int \<Rightarrow> int" where
  "ordinal y m d = days_before_year y + sum_list (take (nat (m - 1)) (month_days y)) + d"

definition EPOCH_ORDINAL :: int where
  "EPOCH_ORDINAL = 719163"

definition utc_seconds :: "int \<Rightarrow> int \<Rightarrow> int \<Rightarrow> int \<Rightarrow> int \<Rightarrow> int \<Rightarrow> int" where
  "utc_seconds y m d h mi s =
     (ordinal y m d - EPOCH_ORDINAL) * 86400 + h * 3600 + mi * 60 + s"

text \<open>
  The groups of \<open>_TS_RE\<close>: the six numbers, the fraction and the zone. The final \<open>$\<close> of the
  expression also matches before one trailing line feed.
\<close>

definition all_digits :: "pystr \<Rightarrow> bool" where
  "all_digits s \<longleftrightarrow> list_all is_digit_ascii s"

definition split_fraction :: "pystr \<Rightarrow> pystr \<times> pystr" where
  "split_fraction s =
     (if s \<noteq> [] \<and> hd s = CHR ''.'' \<and> takeWhile is_digit_ascii (tl s) \<noteq> []
         \<and> length (takeWhile is_digit_ascii (tl s)) \<le> 9
      then (takeWhile is_digit_ascii (tl s), dropWhile is_digit_ascii (tl s)) else ([], s))"

definition zone_ok :: "pystr \<Rightarrow> bool" where
  "zone_ok z \<longleftrightarrow> z = ''Z'' \<or> (length z = 6 \<and> hd z \<in> {CHR ''+'', CHR ''-''}
     \<and> all_digits (take 2 (drop 1 z)) \<and> z ! 3 = CHR '':'' \<and> all_digits (drop 4 z))"

definition ts_groups :: "pystr \<Rightarrow> (int list \<times> pystr \<times> pystr) option" where
  "ts_groups v =
     (let num = (\<lambda>i n. take n (drop i v));
          rest = drop 19 v;
          z = snd (split_fraction rest);
          zone = (if z \<noteq> [] \<and> last z = LF then butlast z else z)
      in if 19 \<le> length v \<and> list_all (\<lambda>p. all_digits (num (fst p) (snd p)))
              [(0, 4), (5, 2), (8, 2), (11, 2), (14, 2), (17, 2)]
            \<and> v ! 4 = CHR ''-'' \<and> v ! 7 = CHR ''-'' \<and> v ! 10 = CHR ''T'' \<and> v ! 13 = CHR '':''
            \<and> v ! 16 = CHR '':'' \<and> zone_ok zone
         then Some (map (\<lambda>p. digits_int (num (fst p) (snd p)))
                [(0, 4), (5, 2), (8, 2), (11, 2), (14, 2), (17, 2)], fst (split_fraction rest), zone)
         else None)"

definition zone_offset :: "pystr \<Rightarrow> int" where
  "zone_offset z =
     (if z = ''Z'' then 0
      else (if hd z = CHR ''+'' then 1 else - 1)
           * (digits_int (take 2 (drop 1 z)) * 3600 + digits_int (take 2 (drop 4 z)) * 60))"

definition frac_ns :: "pystr \<Rightarrow> int" where
  "frac_ns f = digits_int (f @ replicate (9 - length f) (CHR ''0''))"

definition parse_ts_ns :: "jv \<Rightarrow> pystr \<Rightarrow> exc + ns option" where
  "parse_ts_ns v name =
     (if v = JvNull then Inr None
      else case (case v of JvStr s \<Rightarrow> ts_groups s | _ \<Rightarrow> None) of
        None \<Rightarrow> Inl (MalformedResponse (name @ '' is not an RFC 3339 timestamp''))
      | Some ([y, m, d, h, mi, s], fr, z) \<Rightarrow>
          if valid_date y m d \<and> h < 24 \<and> mi < 60 \<and> s < 60
          then Inr (Some ((utc_seconds y m d h mi s - zone_offset z) * 1000000000 + frac_ns fr))
          else Inl (MalformedResponse (name @ '' is not a valid time''))
      | Some _ \<Rightarrow> Inl (MalformedResponse []))"

section \<open>Orders, positions and the account\<close>

definition alpaca_status :: "pystr \<Rightarrow> exec_status" where
  "alpaca_status s =
     (if s \<in> {''new'', ''accepted'', ''pending_new'', ''accepted_for_bidding'', ''calculated'', ''held'',
              ''pending_cancel'', ''pending_replace''} then ACCEPTED
      else if s = ''partially_filled'' then PARTIALLY_FILLED
      else if s = ''filled'' then FILLED
      else if s \<in> {''canceled'', ''replaced''} then CANCELLED
      else if s \<in> {''expired'', ''done_for_day''} then EXPIRED
      else if s \<in> {''rejected'', ''suspended''} then exec_status.REJECTED
      else UNKNOWN)"

definition order_of_object :: "(pystr \<times> jv) list \<Rightarrow> exc + broker_order" where
  "order_of_object kvs =
     rbind (parse_str (jget kvs ''status'') ''status'') (\<lambda>raw.
     rbind (parse_str (jget kvs ''id'') ''id'') (\<lambda>oid.
     rbind (parse_str (jget kvs ''client_order_id'') ''client_order_id'') (\<lambda>cid.
     rbind (parse_str (jget kvs ''symbol'') ''symbol'') (\<lambda>symb.
     rbind (parse_dec (jget kvs ''qty'') ''qty'') (\<lambda>qty.
     rbind (parse_dec (case map_of kvs ''filled_qty'' of None \<Rightarrow> JvStr ''0'' | Some v \<Rightarrow> v) ''filled_qty'') (\<lambda>filled.
     rbind (parse_opt_dec (jget kvs ''filled_avg_price'') ''filled_avg_price'') (\<lambda>avg.
     rbind (parse_ts_ns (jget kvs ''submitted_at'') ''submitted_at'') (\<lambda>sub.
     rbind (parse_ts_ns (jget kvs ''filled_at'') ''filled_at'') (\<lambda>fa.
     Inr \<lparr>b_broker_order_id = oid, b_client_order_id = cid, b_symbol = symb,
          b_status = alpaca_status raw, b_raw_status = raw, b_quantity = qty,
          b_filled_quantity = filled, b_filled_avg_price = avg, b_submitted_at_ns = sub,
          b_filled_at_ns = fa\<rparr>)))))))))"

definition parse_order :: "jv \<Rightarrow> exc + broker_order" where
  "parse_order body =
     (case body of JvObj kvs \<Rightarrow> order_of_object kvs
      | _ \<Rightarrow> Inl (MalformedResponse ''order is not an object''))"

definition parse_orders :: "jv \<Rightarrow> exc + broker_order list" where
  "parse_orders body =
     (case body of JvArr items \<Rightarrow> rmap parse_order items
      | _ \<Rightarrow> Inl (MalformedResponse ''orders is not a list''))"

definition position_of_object :: "(pystr \<times> jv) list \<Rightarrow> exc + position" where
  "position_of_object p =
     rbind (parse_str (jget p ''symbol'') ''symbol'') (\<lambda>symb.
     rbind (parse_dec (jget p ''qty'') ''qty'') (\<lambda>qty.
     rbind (parse_dec (jget p ''avg_entry_price'') ''avg_entry_price'') (\<lambda>avg.
     rbind (parse_dec (jget p ''market_value'') ''market_value'') (\<lambda>mv.
     Inr \<lparr>p_symbol = symb, p_quantity = qty, p_avg_entry_price = avg, p_market_value = mv\<rparr>))))"

fun json_objects :: "jv list \<Rightarrow> (pystr \<times> jv) list list" where
  "json_objects [] = []"
| "json_objects (v # vs) = (case v of JvObj kvs \<Rightarrow> [kvs] | _ \<Rightarrow> []) @ json_objects vs"

definition parse_positions :: "jv \<Rightarrow> exc + position list" where
  "parse_positions body =
     (case body of JvArr items \<Rightarrow> rmap position_of_object (json_objects items)
      | _ \<Rightarrow> Inl (MalformedResponse ''positions is not a list''))"

text \<open>\<open>bool(v)\<close> of a JSON value; a float constant is NaN or Infinity.\<close>

fun jv_true :: "jv \<Rightarrow> bool" where
  "jv_true JvNull = False"
| "jv_true (JvBool b) = b"
| "jv_true (JvInt i) = (i \<noteq> 0)"
| "jv_true (JvDec x) = (x \<noteq> 0)"
| "jv_true JFloat = True"
| "jv_true (JvStr s) = (s \<noteq> [])"
| "jv_true (JvArr vs) = (vs \<noteq> [])"
| "jv_true (JvObj kvs) = (kvs \<noteq> [])"

definition parse_account :: "jv \<Rightarrow> exc + account_snapshot" where
  "parse_account body =
     (case body of JvObj kvs \<Rightarrow>
        let flag = (\<lambda>k. case map_of kvs k of None \<Rightarrow> True | Some v \<Rightarrow> jv_true v);
            blocked = (flag ''trading_blocked'' \<or> flag ''account_blocked'')
        in rbind (parse_str (jget kvs ''status'') ''status'') (\<lambda>st.
           rbind (parse_dec (jget kvs ''buying_power'') ''buying_power'') (\<lambda>bp.
           rbind (parse_dec (jget kvs ''cash'') ''cash'') (\<lambda>ca.
           rbind (parse_dec (jget kvs ''equity'') ''equity'') (\<lambda>eq.
           Inr \<lparr>acc_status = st, acc_buying_power = bp, acc_cash = ca, acc_equity = eq,
                acc_trading_blocked = blocked\<rparr>))))
      | _ \<Rightarrow> Inl (MalformedResponse ''account is not an object''))"

section \<open>Credentials and endpoints\<close>

definition PAPER_BASE_URL :: pystr where
  "PAPER_BASE_URL = ''https://paper-api.alpaca.markets''"

definition LIVE_BASE_URL :: pystr where
  "LIVE_BASE_URL = ''https://api.alpaca.markets''"

definition LIVE_OPT_IN_ENV :: pystr where
  "LIVE_OPT_IN_ENV = ''AFE_ENABLE_LIVE_TRADING''"

definition LIVE_CONFIRM_ENV :: pystr where
  "LIVE_CONFIRM_ENV = ''AFE_LIVE_TRADING_CONFIRM''"

definition LIVE_CONFIRM_VALUE :: pystr where
  "LIVE_CONFIRM_VALUE = ''I-UNDERSTAND-THIS-TRADES-REAL-MONEY''"

definition PLACEHOLDER_FRAGMENTS :: "pystr list" where
  "PLACEHOLDER_FRAGMENTS = [''change-me'', ''change_me'', ''changeme'', ''replace-me'', ''replaceme'',
     ''placeholder'', ''your-secret'', ''yoursecret'', ''your-key'', ''yourkey'', ''example'']"

fun py_in :: "pystr \<Rightarrow> pystr \<Rightarrow> bool" where
  "py_in f [] \<longleftrightarrow> f = []"
| "py_in f (c # s) \<longleftrightarrow> take (length f) (c # s) = f \<or> py_in f s"

record alpaca_credentials =
  api_key :: pystr
  secret_key :: pystr

definition AlpacaCredentials_new :: "pystr \<Rightarrow> pystr \<Rightarrow> exc + alpaca_credentials" where
  "AlpacaCredentials_new key secret =
     (if py_strip key = [] \<or> py_strip secret = []
      then Inl (Exc ''ConfigError'' ''Alpaca credentials must be non-empty'')
      else if list_ex (\<lambda>v. list_ex (\<lambda>f. py_in f (py_lower v)) PLACEHOLDER_FRAGMENTS) [key, secret]
      then Inl (Exc ''ConfigError'' ''Alpaca credentials look like a placeholder; set real keys'')
      else Inr \<lparr>api_key = key, secret_key = secret\<rparr>)"

definition AlpacaCredentials_from_env :: "env \<Rightarrow> exc + alpaca_credentials" where
  "AlpacaCredentials_from_env env =
     (let get = (\<lambda>k. case env k of None \<Rightarrow> [] | Some v \<Rightarrow> v);
          key = get ''ALPACA_API_KEY''; secret = get ''ALPACA_SECRET_KEY''
      in if py_strip key = [] \<or> py_strip secret = []
         then Inl (Exc ''ConfigError'' ''ALPACA_API_KEY and ALPACA_SECRET_KEY are required'')
         else AlpacaCredentials_new key secret)"

definition rstrip_slash :: "pystr \<Rightarrow> pystr" where
  "rstrip_slash s = rev (dropWhile (\<lambda>c. c = CHR ''/'') (rev s))"

definition resolve_base_url :: "pystr option \<Rightarrow> env \<Rightarrow> exc + pystr" where
  "resolve_base_url requested env =
     (case requested of None \<Rightarrow> Inr PAPER_BASE_URL
      | Some r \<Rightarrow>
          if py_strip r = [] then Inr PAPER_BASE_URL
          else let url = rstrip_slash (py_strip r)
               in if url = PAPER_BASE_URL then Inr PAPER_BASE_URL
                  else if url = LIVE_BASE_URL
                  then if env LIVE_OPT_IN_ENV = Some ''true'' \<and> env LIVE_CONFIRM_ENV = Some LIVE_CONFIRM_VALUE
                       then Inr LIVE_BASE_URL
                       else Inl (Exc ''LiveTradingRefused'' ''live endpoint requires both opt-ins'')
                  else Inl (Exc ''ConfigError'' ''unrecognised Alpaca endpoint''))"

record alpaca_broker =
  ab_base_url :: pystr
  ab_credentials :: alpaca_credentials
  ab_read_retries :: nat

definition AlpacaBroker_new ::
  "alpaca_credentials \<Rightarrow> pystr option \<Rightarrow> env option \<Rightarrow> int \<Rightarrow> exc + alpaca_broker" where
  "AlpacaBroker_new creds base_url live retries =
     (if retries < 0 then Inl (Exc ''ConfigError'' ''read_retries must be >= 0'')
      else rbind (resolve_base_url base_url (case live of None \<Rightarrow> Map.empty | Some e \<Rightarrow> e)) (\<lambda>url.
        Inr \<lparr>ab_base_url = url, ab_credentials = creds, ab_read_retries = nat retries\<rparr>))"

definition AlpacaPaperBroker_new :: "alpaca_credentials \<Rightarrow> int \<Rightarrow> exc + alpaca_broker" where
  "AlpacaPaperBroker_new creds retries = AlpacaBroker_new creds (Some PAPER_BASE_URL) None retries"

definition alpaca_venue :: "alpaca_broker \<Rightarrow> pystr" where
  "alpaca_venue b = (if ab_base_url b = PAPER_BASE_URL then ''alpaca-paper'' else ''alpaca-live'')"

definition alpaca_broker_from_env :: "env \<Rightarrow> exc + alpaca_broker" where
  "alpaca_broker_from_env env =
     rbind (AlpacaCredentials_from_env env) (\<lambda>creds.
     rbind (resolve_base_url (env ''ALPACA_BASE_URL'') env) (\<lambda>url.
     if url = PAPER_BASE_URL then AlpacaPaperBroker_new creds 3
     else AlpacaBroker_new creds (Some url) (Some env) 3))"

section \<open>Requests\<close>

text \<open>A money field is the text \<open>format(value, "f")\<close>, known here by its value.\<close>

datatype body_text = Text pystr | Money rat

datatype http_request =
  POST pystr "(pystr \<times> body_text) list"
| GET pystr "(pystr \<times> pystr) list"
| DELETE pystr

record http_response =
  status_code :: int
  resp_body :: "jv option"

datatype http_answer = Response http_response | HTTPError pystr | OtherExc exc

type_synonym http = "nat \<Rightarrow> http_request \<Rightarrow> http_answer"

record client =
  cl_log :: "http_request list"
  cl_sleeps :: "rat list"

definition send_http :: "http \<Rightarrow> http_request \<Rightarrow> client \<Rightarrow> http_answer \<times> client" where
  "send_http http rq c = (http (length (cl_log c)) rq, c\<lparr>cl_log := cl_log c @ [rq]\<rparr>)"

definition order_body :: "broker_order_request \<Rightarrow> (pystr \<times> body_text) list" where
  "order_body q =
     [(''symbol'', Text (q_symbol q)), (''qty'', Money (q_quantity q)),
      (''side'', Text (side_value (q_side q))), (''type'', Text (order_type_value (q_order_type q))),
      (''time_in_force'', Text (q_time_in_force q)), (''client_order_id'', Text (q_client_order_id q))]
     @ (case q_limit_price q of None \<Rightarrow> [] | Some p \<Rightarrow> [(''limit_price'', Money p)])
     @ (case q_stop_price q of None \<Rightarrow> [] | Some p \<Rightarrow> [(''stop_price'', Money p)])"

text \<open>\<open>str_of\<close> is \<open>str\<close> of a message that is not a string.\<close>

definition error_message :: "(jv \<Rightarrow> pystr) \<Rightarrow> http_response \<Rightarrow> pystr" where
  "error_message str_of r =
     (case loads (resp_body r) of
        Inr (JvObj kvs) \<Rightarrow>
          take 200 (case map_of kvs ''message'' of None \<Rightarrow> [] | Some (JvStr s) \<Rightarrow> s | Some v \<Rightarrow> str_of v)
      | _ \<Rightarrow> [])"

section \<open>Reads\<close>

abbreviation BrokerReadError :: "pystr \<Rightarrow> exc" where
  "BrokerReadError msg \<equiv> Exc ''BrokerReadError'' msg"

definition retryable :: "int \<Rightarrow> bool" where
  "retryable code \<longleftrightarrow> code \<in> {408, 429}"

definition backoff_cap :: "nat \<Rightarrow> rat" where
  "backoff_cap attempt = min 2 (1 / 10 * 2 ^ attempt)"

text \<open>\<open>read_loop\<close> with \<open>attempts\<close> tries left, of which the next is number \<open>attempt\<close>.\<close>

fun read_loop ::
  "http \<Rightarrow> http_request \<Rightarrow> nat \<Rightarrow> nat \<Rightarrow> pystr \<Rightarrow> client \<Rightarrow> (exc + http_response) \<times> client" where
  "read_loop http rq attempt 0 prev c =
     (Inl (BrokerReadError (''read failed after retries: '' @ prev)), c)"
| "read_loop http rq attempt (Suc left) prev c =
     (let again = (\<lambda>lst d. read_loop http rq (Suc attempt) left lst
            (if left = 0 then d else d\<lparr>cl_sleeps := cl_sleeps d @ [backoff_cap attempt]\<rparr>))
      in case send_http http rq c of
        (HTTPError name, d) \<Rightarrow> again name d
      | (OtherExc e, d) \<Rightarrow> (Inl e, d)
      | (Response r, d) \<Rightarrow>
          let code = status_code r
          in if code < 400 \<or> code = 404 then (Inr r, d)
             else if \<not> retryable code \<and> code < 500
             then (Inl (BrokerReadError (''read failed: HTTP '' @ int_str code)), d)
             else again (''HTTP '' @ int_str code) d)"

definition read_http ::
  "alpaca_broker \<Rightarrow> http \<Rightarrow> pystr \<Rightarrow> (pystr \<times> pystr) list \<Rightarrow> client \<Rightarrow> (exc + http_response) \<times> client" where
  "read_http b http path params c =
     read_loop http (GET path params) 0 (Suc (ab_read_retries b)) ''unknown'' c"

definition parsed :: "http_response \<Rightarrow> (jv \<Rightarrow> exc + 'a) \<Rightarrow> exc + 'a" where
  "parsed r fn =
     (if 400 \<le> status_code r then Inl (BrokerReadError (''read failed: HTTP '' @ int_str (status_code r)))
      else case rbind (loads (resp_body r)) fn of
        Inl e \<Rightarrow> Inl (BrokerReadError (''malformed response: '' @ exc_str e))
      | Inr x \<Rightarrow> Inr x)"

definition get_order_by_client_id ::
  "alpaca_broker \<Rightarrow> http \<Rightarrow> pystr \<Rightarrow> client \<Rightarrow> (exc + broker_order option) \<times> client" where
  "get_order_by_client_id b http cid =
     sbind (read_http b http ''/v2/orders:by_client_order_id'' [(''client_order_id'', cid)]) (\<lambda>r.
     spure (if status_code r = 404 then Inr None
            else rbind (parsed r parse_order) (\<lambda>ord.
              if b_client_order_id ord \<noteq> cid
              then Inl (BrokerReadError ''broker returned a different client_order_id'')
              else Inr (Some ord))))"

definition list_open_orders :: "alpaca_broker \<Rightarrow> http \<Rightarrow> client \<Rightarrow> (exc + broker_order list) \<times> client" where
  "list_open_orders b http =
     sbind (read_http b http ''/v2/orders''
       [(''status'', ''open''), (''limit'', ''500''), (''direction'', ''asc'')]) (\<lambda>r. spure (parsed r parse_orders))"

definition get_positions :: "alpaca_broker \<Rightarrow> http \<Rightarrow> client \<Rightarrow> (exc + position list) \<times> client" where
  "get_positions b http =
     sbind (read_http b http ''/v2/positions'' []) (\<lambda>r. spure (parsed r parse_positions))"

definition get_account :: "alpaca_broker \<Rightarrow> http \<Rightarrow> client \<Rightarrow> (exc + account_snapshot) \<times> client" where
  "get_account b http =
     sbind (read_http b http ''/v2/account'' []) (\<lambda>r. spure (parsed r parse_account))"

section \<open>Submit and cancel\<close>

definition reconcile ::
  "alpaca_broker \<Rightarrow> http \<Rightarrow> broker_order_request \<Rightarrow> pystr \<Rightarrow> client \<Rightarrow> submit_result \<times> client" where
  "reconcile b http q cause c =
     (case get_order_by_client_id b http (q_client_order_id q) c of
        (Inl e, d) \<Rightarrow>
          (if exc_name e = ''BrokerReadError''
           then SubmitOutcomeUnknown (''submit outcome unknown ('' @ cause @ ''); reconciliation failed'')
           else OtherError e, d)
      | (Inr None, d) \<Rightarrow>
          (SubmitOutcomeUnknown
             (''submit outcome unknown ('' @ cause @ ''); not found at broker, may still be in flight''), d)
      | (Inr (Some ord), d) \<Rightarrow> (Submitted ord, d))"

definition submit_order ::
  "alpaca_broker \<Rightarrow> http \<Rightarrow> (jv \<Rightarrow> pystr) \<Rightarrow> broker_order_request \<Rightarrow> client \<Rightarrow> submit_result \<times> client" where
  "submit_order b http str_of q c =
     (case send_http http (POST ''/v2/orders'' (order_body q)) c of
        (HTTPError name, d) \<Rightarrow> reconcile b http q (''transport:'' @ name) d
      | (OtherExc e, d) \<Rightarrow> (OtherError e, d)
      | (Response r, d) \<Rightarrow>
          let status = status_code r
          in if 200 \<le> status \<and> status < 300
             then case rbind (loads (resp_body r)) parse_order of
                Inl e \<Rightarrow> reconcile b http q ''malformed_2xx'' d
              | Inr ord \<Rightarrow>
                  if b_client_order_id ord \<noteq> q_client_order_id q \<or> b_symbol ord \<noteq> q_symbol q
                  then reconcile b http q ''mismatched_2xx'' d
                  else (Submitted ord, d)
             else if 400 \<le> status \<and> status < 500 \<and> \<not> retryable status
             then (BrokerRejectedError (''broker rejected order (HTTP '' @ int_str status @ ''): ''
                     @ error_message str_of r), d)
             else reconcile b http q (''http_'' @ int_str status) d)"

definition re_broker_id :: "pystr \<Rightarrow> bool" where
  "re_broker_id s \<longleftrightarrow> 1 \<le> length s \<and> length s \<le> 64 \<and> list_all (\<lambda>c. is_alnum_ascii c \<or> c = CHR ''-'') s"

definition cancel_order :: "http \<Rightarrow> pystr \<Rightarrow> client \<Rightarrow> exc option \<times> client" where
  "cancel_order http oid c =
     (if \<not> re_broker_id oid then (Some (Exc ''BrokerError'' ''invalid broker order id''), c)
      else case send_http http (DELETE (''/v2/orders/'' @ oid)) c of
        (HTTPError name, d) \<Rightarrow> (Some (Exc ''BrokerError'' (''cancel failed: '' @ name)), d)
      | (OtherExc e, d) \<Rightarrow> (Some e, d)
      | (Response r, d) \<Rightarrow>
          if 200 \<le> status_code r \<and> status_code r < 300 then (None, d)
          else (Some (Exc ''BrokerError'' (''cancel failed: HTTP '' @ int_str (status_code r))), d))"

section \<open>The in-memory broker\<close>

text \<open>The orders dict keeps one order per client order id, in the order of first submission.\<close>

record mock_broker =
  mb_venue :: pystr
  mb_orders :: "(pystr \<times> broker_order) list"

definition MockBroker_new :: "pystr \<Rightarrow> mock_broker" where
  "MockBroker_new venue = \<lparr>mb_venue = venue, mb_orders = []\<rparr>"

definition price_or :: "rat option \<Rightarrow> rat \<Rightarrow> rat" where
  "price_or p d = (case p of None \<Rightarrow> d | Some x \<Rightarrow> if x = 0 then d else x)"

definition mock_submit_order ::
  "ns \<Rightarrow> broker_order_request \<Rightarrow> mock_broker \<Rightarrow> submit_result \<times> mock_broker" where
  "mock_submit_order now q m =
     (let price = price_or (q_limit_price q) (price_or (q_stop_price q) 1);
          ord = \<lparr>b_broker_order_id = ''mock-'' @ q_client_order_id q,
                 b_client_order_id = q_client_order_id q, b_symbol = q_symbol q,
                 b_status = FILLED, b_raw_status = ''filled'', b_quantity = q_quantity q,
                 b_filled_quantity = q_quantity q, b_filled_avg_price = Some price,
                 b_submitted_at_ns = Some now, b_filled_at_ns = Some now\<rparr>
      in (Submitted ord, m\<lparr>mb_orders := AList.update (q_client_order_id q) ord (mb_orders m)\<rparr>))"

definition mock_get_order_by_client_id :: "pystr \<Rightarrow> mock_broker \<Rightarrow> broker_order option" where
  "mock_get_order_by_client_id cid m = map_of (mb_orders m) cid"

definition mock_list_open_orders :: "mock_broker \<Rightarrow> broker_order list" where
  "mock_list_open_orders m =
     filter (\<lambda>ord. b_status ord \<in> {ACCEPTED, PARTIALLY_FILLED}) (map snd (mb_orders m))"

definition mock_cancel_order :: "pystr \<Rightarrow> mock_broker \<Rightarrow> mock_broker" where
  "mock_cancel_order oid m = m"

definition mock_get_account :: "mock_broker \<Rightarrow> account_snapshot" where
  "mock_get_account m = \<lparr>acc_status = ''ACTIVE'', acc_buying_power = 0, acc_cash = 0, acc_equity = 0,
     acc_trading_blocked = False\<rparr>"

end
