(* ===== verification/Alpaca_Properties.thy ===== *)
theory Alpaca_Properties
  imports Alpaca Motor_Properties
begin

text \<open>
  What the brokers promise: the contract of \<open>Broker\<close> in \<open>broker.py\<close> as locales, interpreted on the
  Alpaca client and on the in-memory broker; the retrying read against a reference definition; the
  gate in front of the live endpoint; and the motor composed with the Alpaca client.
\<close>

section \<open>The retrying read\<close>

text \<open>An answer settles a read when the loop does not try again after it.\<close>

fun settles :: "http_answer \<Rightarrow> bool" where
  "settles (HTTPError name) \<longleftrightarrow> False"
| "settles (OtherExc e) \<longleftrightarrow> True"
| "settles (Response r) \<longleftrightarrow> status_code r < 500 \<and> \<not> retryable (status_code r)"

fun conclude :: "http_answer \<Rightarrow> exc + http_response" where
  "conclude (OtherExc e) = Inl e"
| "conclude (Response r) =
     (if status_code r < 400 \<or> status_code r = 404 then Inr r
      else Inl (BrokerReadError (''read failed: HTTP '' @ int_str (status_code r))))"
| "conclude (HTTPError name) = Inl (BrokerReadError name)"

fun describe :: "http_answer \<Rightarrow> pystr" where
  "describe (HTTPError name) = name"
| "describe (OtherExc e) = exc_name e"
| "describe (Response r) = ''HTTP '' @ int_str (status_code r)"

definition answers_to :: "http \<Rightarrow> http_request \<Rightarrow> nat \<Rightarrow> nat \<Rightarrow> http_answer list" where
  "answers_to http rq n k = map (\<lambda>i. http i rq) [n..<n + k]"

text \<open>The reference: the first answer that settles the read decides it.\<close>

definition read_ref :: "pystr \<Rightarrow> http_answer list \<Rightarrow> exc + http_response" where
  "read_ref prev as =
     (case find settles as of Some a \<Rightarrow> conclude a
      | None \<Rightarrow> Inl (BrokerReadError (''read failed after retries: ''
                  @ (if as = [] then prev else describe (last as)))))"

lemma answers_to_0 [simp]: "answers_to http rq n 0 = []"
  by (simp add: answers_to_def)

lemma answers_to_Suc: "answers_to http rq n (Suc k) = http n rq # answers_to http rq (Suc n) k"
  by (simp add: answers_to_def upt_conv_Cons del: upt_Suc)

lemma read_ref_Cons:
  "read_ref prev (a # as) = (if settles a then conclude a else read_ref (describe a) as)"
  by (cases "as = []") (simp_all add: read_ref_def split: option.split)

lemma retryable_range: "retryable code \<Longrightarrow> 400 \<le> code \<and> code \<noteq> 404"
  by (auto simp: retryable_def)

definition logged :: "http_request \<Rightarrow> client \<Rightarrow> client" where
  "logged rq c = c\<lparr>cl_log := cl_log c @ [rq]\<rparr>"

definition slept :: "nat \<Rightarrow> nat \<Rightarrow> client \<Rightarrow> client" where
  "slept left attempt c =
     (if left = 0 then c else c\<lparr>cl_sleeps := cl_sleeps c @ [backoff_cap attempt]\<rparr>)"

lemma client_frame [simp]:
  "cl_log (logged rq c) = cl_log c @ [rq]" "cl_sleeps (logged rq c) = cl_sleeps c"
  "cl_log (slept k a c) = cl_log c"
  "cl_sleeps (slept k a c) = cl_sleeps c @ (if k = 0 then [] else [backoff_cap a])"
  by (simp_all add: logged_def slept_def)

lemma read_loop_step:
  "read_loop http rq a (Suc k) prev c =
     (let ans = http (length (cl_log c)) rq
      in if settles ans then (conclude ans, logged rq c)
         else read_loop http rq (Suc a) k (describe ans) (slept k a (logged rq c)))"
proof (cases "http (length (cl_log c)) rq")
  case (Response r)
  consider "status_code r < 400" | "status_code r = 404" | "retryable (status_code r)"
    | "500 \<le> status_code r" | "400 \<le> status_code r" "status_code r < 500" "status_code r \<noteq> 404"
      "\<not> retryable (status_code r)"
    by linarith
  then show ?thesis using Response retryable_range [of "status_code r"]
    by cases (auto simp: send_http_def Let_def logged_def slept_def retryable_def)
qed (simp_all add: send_http_def Let_def logged_def slept_def)

declare read_loop.simps(2) [simp del]

lemma read_loop_ref:
  "fst (read_loop http rq a k prev c) = read_ref prev (answers_to http rq (length (cl_log c)) k)"
proof (induction k arbitrary: a prev c)
  case 0
  then show ?case by (simp add: read_ref_def)
next
  case (Suc k)
  show ?case
    by (simp add: read_loop_step Let_def answers_to_Suc read_ref_Cons Suc.IH)
qed

text \<open>What the loop does to the client: requests of one kind only, and bounded sleeps.\<close>

lemma read_loop_log:
  "\<exists>n \<le> k. cl_log (snd (read_loop http rq a k prev c)) = cl_log c @ replicate n rq
     \<and> length (cl_sleeps (snd (read_loop http rq a k prev c))) \<le> length (cl_sleeps c) + (k - 1)"
proof (induction k arbitrary: a prev c)
  case (Suc k)
  show ?case
  proof (cases "settles (http (length (cl_log c)) rq)")
    case True
    then show ?thesis by (intro exI [of _ 1]) (simp add: read_loop_step Let_def)
  next
    case False
    define lst where "lst = describe (http (length (cl_log c)) rq)"
    define t where "t = read_loop http rq (Suc a) k lst (slept k a (logged rq c))"
    obtain n where n: "n \<le> k" "cl_log (snd t) = cl_log c @ rq # replicate n rq"
      "length (cl_sleeps (snd t)) \<le> length (cl_sleeps c) + (if k = 0 then 0 else 1) + (k - 1)"
      using Suc.IH [of "Suc a" lst "slept k a (logged rq c)"]
      by (cases "k = 0") (auto simp: t_def)
    have "read_loop http rq a (Suc k) prev c = t"
      using False by (simp add: read_loop_step Let_def t_def lst_def)
    with n show ?thesis by (intro exI [of _ "Suc n"]) (auto split: if_splits)
  qed
qed simp

text \<open>
  C23: The retrying read is the first answer that settles it: among the answers to at most
  \<open>read_retries + 1\<close> identical requests, the first one that is neither a transport error nor a
  408, 429 or 5xx decides the result, and if there is none the read fails with
  \<open>BrokerReadError\<close>; it always returns, after at most \<open>read_retries\<close> sleeps.
\<close>

theorem read_is_first_settling_answer:
  "fst (read_http b http path params c)
     = read_ref ''unknown'' (answers_to http (GET path params) (length (cl_log c)) (Suc (ab_read_retries b)))
   \<and> (\<exists>n \<le> Suc (ab_read_retries b).
        cl_log (snd (read_http b http path params c)) = cl_log c @ replicate n (GET path params))
   \<and> length (cl_sleeps (snd (read_http b http path params c))) \<le> length (cl_sleeps c) + ab_read_retries b"
  using read_loop_ref [of http "GET path params" 0 "Suc (ab_read_retries b)" "''unknown''" c]
    read_loop_log [of "Suc (ab_read_retries b)" http "GET path params" 0 "''unknown''" c]
  unfolding read_http_def by auto

lemma read_ref_Inr:
  assumes "read_ref prev as = Inr r"
  shows "Response r \<in> set as \<and> (status_code r < 400 \<or> status_code r = 404)"
proof -
  from assms obtain a where a: "find settles as = Some a" "conclude a = Inr r"
    by (auto simp: read_ref_def split: option.splits)
  from a(1) have "a \<in> set as" by (auto simp: find_Some_iff)
  with a(2) show ?thesis by (cases a) (auto split: if_splits)
qed

section \<open>Submitting\<close>

lemma answers_to_mem: "a \<in> set (answers_to http rq n k) \<Longrightarrow> \<exists>i \<ge> n. http i rq = a"
  by (auto simp: answers_to_def)

lemma read_http_Inr:
  assumes "read_http b http path params c = (Inr r, d)"
  shows "\<exists>i. length (cl_log c) \<le> i \<and> http i (GET path params) = Response r
     \<and> (status_code r < 400 \<or> status_code r = 404)"
proof -
  let ?as = "answers_to http (GET path params) (length (cl_log c)) (Suc (ab_read_retries b))"
  have "read_ref ''unknown'' ?as = Inr r"
    using assms read_loop_ref [of http "GET path params" 0 "Suc (ab_read_retries b)" "''unknown''" c]
    unfolding read_http_def by (metis fst_conv)
  from read_ref_Inr [OF this] answers_to_mem show ?thesis by blast
qed

abbreviation by_id :: "broker_order_request \<Rightarrow> http_request" where
  "by_id q \<equiv> GET ''/v2/orders:by_client_order_id'' [(''client_order_id'', q_client_order_id q)]"

abbreviation post_of :: "broker_order_request \<Rightarrow> http_request" where
  "post_of q \<equiv> POST ''/v2/orders'' (order_body q)"

lemma get_order_log:
  "\<exists>n \<le> Suc (ab_read_retries b). cl_log (snd (get_order_by_client_id b http (q_client_order_id q) c))
     = cl_log c @ replicate n (by_id q)"
  using read_loop_log [of "Suc (ab_read_retries b)" http "by_id q" 0 "''unknown''" c]
  by (auto simp: get_order_by_client_id_def sbind_def read_http_def split: prod.split sum.split)

lemma parsed_Inr:
  "parsed r fn = Inr x \<longleftrightarrow> status_code r < 400 \<and> (\<exists>v. resp_body r = Some v \<and> fn v = Inr x)"
  by (auto simp: parsed_def loads_def split: sum.splits option.splits)

text \<open>An order that was found is an answer of the broker to this question.\<close>

definition told :: "http \<Rightarrow> http_request \<Rightarrow> broker_order \<Rightarrow> bool" where
  "told http rq ord \<longleftrightarrow> (\<exists>i r v. http i rq = Response r \<and> status_code r < 400
     \<and> resp_body r = Some v \<and> parse_order v = Inr ord)"

lemma get_order_Some:
  assumes "get_order_by_client_id b http cid c = (Inr (Some ord), d)"
  shows "b_client_order_id ord = cid
     \<and> told http (GET ''/v2/orders:by_client_order_id'' [(''client_order_id'', cid)]) ord"
proof -
  from assms obtain r where r: "read_http b http ''/v2/orders:by_client_order_id''
      [(''client_order_id'', cid)] c = (Inr r, d)"
    "parsed r parse_order = Inr ord" "b_client_order_id ord = cid"
    by (auto simp: get_order_by_client_id_def sbind_eq_Inr rbind_eq_Inr split: if_splits)
  from read_http_Inr [OF r(1)] r(2,3) show ?thesis by (auto simp: told_def parsed_Inr)
qed

lemma reconcile_log:
  "\<exists>n \<le> Suc (ab_read_retries b). cl_log (snd (reconcile b http q cause c)) = cl_log c @ replicate n (by_id q)"
  using get_order_log [of b http q c]
  by (auto simp: reconcile_def split: prod.split sum.split option.split)

lemma reconcile_result:
  assumes "reconcile b http q cause c = (res, d)"
  shows "(\<forall>m. res \<noteq> BrokerRejectedError m)
     \<and> (\<forall>ord. res = Submitted ord \<longrightarrow> b_client_order_id ord = q_client_order_id q \<and> told http (by_id q) ord)"
proof -
  obtain x e where g: "get_order_by_client_id b http (q_client_order_id q) c = (x, e)" by fastforce
  show ?thesis
  proof (cases x)
    case (Inr y)
    with assms g get_order_Some [of b http "q_client_order_id q" c _ e] show ?thesis
      by (cases y) (auto simp: reconcile_def)
  qed (use assms g in \<open>auto simp: reconcile_def split: if_splits\<close>)
qed

text \<open>The answer to the POST is the definitive refusal the client may report.\<close>

definition refused :: "http_answer \<Rightarrow> bool" where
  "refused a \<longleftrightarrow> (case a of Response r \<Rightarrow> 400 \<le> status_code r \<and> status_code r < 500
       \<and> \<not> retryable (status_code r) | _ \<Rightarrow> False)"

lemma submit_log:
  "\<exists>n \<le> Suc (ab_read_retries b). cl_log (snd (submit_order b http str_of q c))
     = cl_log c @ post_of q # replicate n (by_id q)"
proof -
  let ?d = "c\<lparr>cl_log := cl_log c @ [post_of q]\<rparr>"
  have rec: "\<exists>n \<le> Suc (ab_read_retries b). cl_log (snd (reconcile b http q cause ?d))
      = cl_log c @ post_of q # replicate n (by_id q)" for cause
    using reconcile_log [of b http q cause ?d] by auto
  have stop: "\<exists>n \<le> Suc (ab_read_retries b). cl_log ?d = cl_log c @ post_of q # replicate n (by_id q)"
    by (intro exI [of _ 0]) simp
  from rec stop show ?thesis
    by (cases "http (length (cl_log c)) (post_of q)")
      (auto simp: submit_order_def send_http_def Let_def split: sum.split)
qed

lemma submit_result:
  assumes "submit_order b http str_of q c = (res, d)"
  shows "(\<forall>ord. res = Submitted ord \<longrightarrow> b_client_order_id ord = q_client_order_id q
           \<and> (told http (post_of q) ord \<or> told http (by_id q) ord))
     \<and> ((\<exists>m. res = BrokerRejectedError m) \<longleftrightarrow> refused (http (length (cl_log c)) (post_of q)))"
proof (cases "http (length (cl_log c)) (post_of q)")
  case (Response r)
  consider (ok) "200 \<le> status_code r" "status_code r < 300"
    | (no) "refused (http (length (cl_log c)) (post_of q))"
    | (amb) "\<not> (200 \<le> status_code r \<and> status_code r < 300)"
      "\<not> refused (http (length (cl_log c)) (post_of q))"
    by blast
  then show ?thesis
  proof cases
    case ok
    then have nr: "\<not> refused (http (length (cl_log c)) (post_of q))"
      using Response by (simp add: refused_def)
    from assms Response ok consider (direct) ord where "res = Submitted ord"
        "rbind (loads (resp_body r)) parse_order = Inr ord"
        "b_client_order_id ord = q_client_order_id q"
      | (recon) cause where "reconcile b http q cause (c\<lparr>cl_log := cl_log c @ [post_of q]\<rparr>) = (res, d)"
      by (auto simp: submit_order_def send_http_def Let_def split: sum.splits if_splits)
    then show ?thesis
    proof cases
      case direct
      then have "told http (post_of q) ord"
        unfolding told_def
        by (intro exI [of _ "length (cl_log c)"] exI [of _ r])
          (use Response ok direct(2) in \<open>auto simp: rbind_eq_Inr loads_def split: option.splits\<close>)
      with direct nr show ?thesis by simp
    next
      case recon
      from reconcile_result [OF recon] nr show ?thesis by auto
    qed
  next
    case no
    with assms Response show ?thesis
      by (auto simp: submit_order_def send_http_def Let_def refused_def)
  next
    case amb
    with assms Response obtain cause where
      "reconcile b http q cause (c\<lparr>cl_log := cl_log c @ [post_of q]\<rparr>) = (res, d)"
      by (auto simp: submit_order_def send_http_def Let_def refused_def split: if_splits)
    from reconcile_result [OF this] amb show ?thesis by auto
  qed
next
  case (HTTPError name)
  with assms have "reconcile b http q (''transport:'' @ name) (c\<lparr>cl_log := cl_log c @ [post_of q]\<rparr>) = (res, d)"
    by (simp add: submit_order_def send_http_def)
  from reconcile_result [OF this] HTTPError show ?thesis by (auto simp: refused_def)
next
  case (OtherExc e)
  with assms show ?thesis by (auto simp: submit_order_def send_http_def refused_def)
qed

text \<open>
  C21: A submit sends the order exactly once. Whatever the network answers, the request log grows by
  one POST of the order followed by at most \<open>read_retries + 1\<close> lookups of its client order id; a
  rejection is reported exactly when the answer to that POST was a definitive 4xx (not 408 or 429);
  and an order that is returned carries the client order id of the request and was stated by the
  broker in answer to the POST or to a lookup of that id.
\<close>

theorem submit_is_sent_once:
  "(\<exists>n \<le> Suc (ab_read_retries b). cl_log (snd (submit_order b http str_of q c))
      = cl_log c @ POST ''/v2/orders'' (order_body q)
          # replicate n (GET ''/v2/orders:by_client_order_id'' [(''client_order_id'', q_client_order_id q)]))
   \<and> ((\<exists>m. fst (submit_order b http str_of q c) = BrokerRejectedError m)
        \<longleftrightarrow> refused (http (length (cl_log c)) (POST ''/v2/orders'' (order_body q))))
   \<and> (case fst (submit_order b http str_of q c) of
        Submitted ord \<Rightarrow> b_client_order_id ord = q_client_order_id q
          \<and> (told http (post_of q) ord \<or> told http (by_id q) ord)
      | _ \<Rightarrow> True)"
proof -
  obtain res d where s: "submit_order b http str_of q c = (res, d)" by fastforce
  show ?thesis using submit_log [of b http str_of q c] submit_result [OF s] s
    by (simp split: submit_result.split)
qed

section \<open>The contract of a broker\<close>

text \<open>
  \<open>Broker.submit_order\<close> returns the broker's truth about the order it was given; the second
  contract adds that it sends the order once, \<open>wire\<close> being what has gone out.
\<close>

fun submit_all ::
  "(broker_order_request \<Rightarrow> 's \<Rightarrow> submit_result \<times> 's) \<Rightarrow> broker_order_request list \<Rightarrow> 's
    \<Rightarrow> submit_result list \<times> 's" where
  "submit_all put [] s = ([], s)"
| "submit_all put (q # qs) s =
     (let (r, s') = put q s; (rs, s'') = submit_all put qs s' in (r # rs, s''))"

definition own_order :: "broker_order_request \<Rightarrow> submit_result \<Rightarrow> bool" where
  "own_order q res \<longleftrightarrow>
     (case res of Submitted ord \<Rightarrow> b_client_order_id ord = q_client_order_id q | _ \<Rightarrow> True)"

locale broker_truth =
  fixes put :: "broker_order_request \<Rightarrow> 's \<Rightarrow> submit_result \<times> 's"
  assumes own: "own_order q (fst (put q s))"
begin

lemma all_own: "list_all2 own_order qs (fst (submit_all put qs s))"
proof (induction qs arbitrary: s)
  case (Cons q qs)
  then show ?case using own [of q s] by (auto simp: split_beta)
qed simp

end

locale broker_once = broker_truth put
  for put :: "broker_order_request \<Rightarrow> 's \<Rightarrow> submit_result \<times> 's" +
  fixes wire :: "'s \<Rightarrow> 'w list" and encode :: "broker_order_request \<Rightarrow> 'w"
  assumes once: "wire (snd (put q s)) = wire s @ [encode q]"
begin

lemma all_once: "wire (snd (submit_all put qs s)) = wire s @ map encode qs"
proof (induction qs arbitrary: s)
  case (Cons q qs)
  then show ?case using once [of q s] by (simp add: split_beta)
qed simp

end

text \<open>The orders a client has put on the wire: the bodies of its POST requests.\<close>

fun posted_of :: "http_request \<Rightarrow> (pystr \<times> body_text) list list" where
  "posted_of (POST path body) = [body]"
| "posted_of _ = []"

definition posted :: "client \<Rightarrow> (pystr \<times> body_text) list list" where
  "posted c = concat (map posted_of (cl_log c))"

lemma posted_start [simp]: "posted \<lparr>cl_log = [], cl_sleeps = []\<rparr> = []"
  by (simp add: posted_def)

lemma posted_gets [simp]: "concat (map posted_of (replicate n (GET path params))) = []"
  by (induction n) simp_all

lemma submit_own: "own_order q (fst (submit_order b http str_of q c))"
  using submit_result [of b http str_of q c]
  by (auto simp: own_order_def split: submit_result.split) (metis prod.collapse)

lemma submit_posted: "posted (snd (submit_order b http str_of q c)) = posted c @ [order_body q]"
  using submit_log [of b http str_of q c] by (auto simp: posted_def)

interpretation alpaca: broker_once "submit_order b http str_of" posted order_body
  by unfold_locales (simp_all add: submit_own submit_posted)

interpretation mock: broker_truth "mock_submit_order now"
  by unfold_locales (simp add: own_order_def mock_submit_order_def Let_def)

text \<open>A submitted order can be looked up, and every order of the in-memory broker is its own.\<close>

lemma mock_lookup_after_submit:
  "\<exists>ord. mock_get_order_by_client_id (q_client_order_id q) (snd (mock_submit_order now q m)) = Some ord
     \<and> b_client_order_id ord = q_client_order_id q \<and> b_filled_quantity ord = q_quantity q"
  "cid \<noteq> q_client_order_id q \<Longrightarrow> mock_get_order_by_client_id cid (snd (mock_submit_order now q m))
     = mock_get_order_by_client_id cid m"
  by (simp_all add: mock_get_order_by_client_id_def mock_submit_order_def Let_def update_conv')

section \<open>The motor on Alpaca\<close>

definition body_client_id :: "(pystr \<times> body_text) list \<Rightarrow> body_text option" where
  "body_client_id body = map_of body ''client_order_id''"

lemma body_client_id_order_body [simp]:
  "body_client_id (order_body q) = Some (Text (q_client_order_id q))"
  by (simp add: body_client_id_def order_body_def)

text \<open>
  C22: When every submission of a motor goes through the Alpaca client, no two POST requests ever
  carry the same client order id, over any lifetime of the motor with its executions, operator
  actions and restarts, whatever the network answers, timeouts and malformed answers included.
\<close>

theorem alpaca_orders_posted_once:
  assumes "motor_reach s"
  shows "distinct (map body_client_id (posted
           (snd (submit_all (submit_order b http str_of) (map snd (ms_sent s)) \<lparr>cl_log = [], cl_sleeps = []\<rparr>))))
     \<and> length (posted (snd (submit_all (submit_order b http str_of) (map snd (ms_sent s))
           \<lparr>cl_log = [], cl_sleeps = []\<rparr>))) = length (ms_sent s)"
proof -
  have "distinct (sent_ids s)" using motor_reach_inv [OF assms] by (simp add: motor_inv_def)
  then have "distinct (map (Some \<circ> Text) (sent_ids s))"
    by (simp add: distinct_map inj_on_def)
  then show ?thesis
    by (simp add: alpaca.all_once sent_ids_def comp_def)
qed

theorem alpaca_orders_posted_once_witness:
  "\<exists>http. http 0 = (\<lambda>rq. HTTPError ''ReadTimeout'') \<and> motor_reach ex_after
     \<and> distinct (map body_client_id (posted (snd (submit_all (submit_order
          \<lparr>ab_base_url = PAPER_BASE_URL, ab_credentials = \<lparr>api_key = ''k'', secret_key = ''s''\<rparr>, ab_read_retries = 3\<rparr>
          http (\<lambda>v. [])) (map snd (ms_sent ex_after)) \<lparr>cl_log = [], cl_sleeps = []\<rparr>))))
     \<and> length (ms_sent ex_after) = 1"
proof (intro exI conjI)
  show "(\<lambda>n rq. HTTPError ''ReadTimeout'') 0 = (\<lambda>rq. HTTPError ''ReadTimeout'')" by (rule refl)
  show "length (ms_sent ex_after) = 1" by (simp add: ex_sent)
qed (rule ex_reach, rule conjunct1 [OF alpaca_orders_posted_once [OF ex_reach]])

section \<open>The live endpoint\<close>

text \<open>
  A client built from the environment talks to the paper endpoint or to the live one and to no
  other host; to the live one only if it was asked for and both opt-ins are set to their exact
  values; and its credentials are not blank. The paper client ignores the environment altogether.
\<close>

theorem live_endpoint_needs_both_opt_ins:
  assumes "alpaca_broker_from_env env = Inr b"
  shows "ab_base_url b \<in> {PAPER_BASE_URL, LIVE_BASE_URL}
     \<and> (ab_base_url b = LIVE_BASE_URL \<longrightarrow>
          env LIVE_OPT_IN_ENV = Some ''true'' \<and> env LIVE_CONFIRM_ENV = Some LIVE_CONFIRM_VALUE
          \<and> (\<exists>u. env ''ALPACA_BASE_URL'' = Some u \<and> rstrip_slash (py_strip u) = LIVE_BASE_URL))
     \<and> (ab_base_url b \<noteq> LIVE_BASE_URL \<longrightarrow> alpaca_venue b = ''alpaca-paper'')
     \<and> py_strip (api_key (ab_credentials b)) \<noteq> [] \<and> py_strip (secret_key (ab_credentials b)) \<noteq> []"
proof -
  have ne: "LIVE_BASE_URL \<noteq> PAPER_BASE_URL" by (simp add: LIVE_BASE_URL_def PAPER_BASE_URL_def)
  from assms obtain creds url where c: "AlpacaCredentials_from_env env = Inr creds"
    "resolve_base_url (env ''ALPACA_BASE_URL'') env = Inr url"
    "(if url = PAPER_BASE_URL then AlpacaPaperBroker_new creds 3
      else AlpacaBroker_new creds (Some url) (Some env) 3) = Inr b"
    unfolding alpaca_broker_from_env_def rbind_eq_Inr by blast
  have cr: "py_strip (api_key creds) \<noteq> []" "py_strip (secret_key creds) \<noteq> []"
    using c(1) by (auto simp: AlpacaCredentials_from_env_def AlpacaCredentials_new_def Let_def split: if_splits)
  have b: "ab_credentials b = creds" "ab_base_url b = PAPER_BASE_URL \<or>
      (ab_base_url b = LIVE_BASE_URL \<and> url \<noteq> PAPER_BASE_URL)"
    using c(3) by (auto simp: AlpacaPaperBroker_new_def AlpacaBroker_new_def resolve_base_url_def Let_def
        rbind_eq_Inr split: if_splits)
  have u: "url = PAPER_BASE_URL \<or> (env LIVE_OPT_IN_ENV = Some ''true''
      \<and> env LIVE_CONFIRM_ENV = Some LIVE_CONFIRM_VALUE
      \<and> (\<exists>u. env ''ALPACA_BASE_URL'' = Some u \<and> rstrip_slash (py_strip u) = LIVE_BASE_URL))"
    using c(2) by (auto simp: resolve_base_url_def Let_def split: option.splits if_splits)
  from cr b u ne show ?thesis by (auto simp: alpaca_venue_def)
qed

section \<open>Reading open orders\<close>

text \<open>
  No open order is dropped from a sweep's view: a successful read lists, in order, one parsed
  order for each item of the broker's answer, and a single item that is not a well-formed order
  fails the whole read.
\<close>

theorem open_orders_are_all_or_nothing:
  assumes "list_open_orders b http c = (Inr ords, d)"
  shows "\<exists>i r items. http i (GET ''/v2/orders'' [(''status'', ''open''), (''limit'', ''500''), (''direction'', ''asc'')])
         = Response r \<and> resp_body r = Some (JvArr items)
     \<and> list_all2 (\<lambda>v ord. parse_order v = Inr ord) items ords"
proof -
  from assms obtain r where r: "read_http b http ''/v2/orders''
      [(''status'', ''open''), (''limit'', ''500''), (''direction'', ''asc'')] c = (Inr r, d)"
    "parsed r parse_orders = Inr ords"
    by (auto simp: list_open_orders_def sbind_eq_Inr)
  from r(2) obtain v where v: "resp_body r = Some v" "parse_orders v = Inr ords"
    by (auto simp: parsed_Inr)
  then obtain items where "v = JvArr items" "rmap parse_order items = Inr ords"
    by (cases v) (simp_all add: parse_orders_def)
  then have "resp_body r = Some (JvArr items)" "rmap parse_order items = Inr ords" using v by simp_all
  with read_http_Inr [OF r(1)] show ?thesis by (auto simp: rmap_Inr)
qed

definition ex_order_json :: jv where
  "ex_order_json = JvObj [(''id'', JvStr ''b-1''), (''client_order_id'', JvStr ''sig-1''),
     (''symbol'', JvStr ''AAPL''), (''status'', JvStr ''new''), (''qty'', JvStr ''10''), (''filled_qty'', JvStr ''0''),
     (''submitted_at'', JvStr ''2024-02-29T12:30:00.25Z'')]"

definition ex_alpaca :: alpaca_broker where
  "ex_alpaca = \<lparr>ab_base_url = PAPER_BASE_URL,
     ab_credentials = \<lparr>api_key = ''AK'', secret_key = ''SK''\<rparr>, ab_read_retries = 3\<rparr>"

text \<open>The first answer is a timeout, then one open order.\<close>

definition ex_http :: http where
  "ex_http n rq = (if n = 0 then HTTPError ''ReadTimeout''
     else Response \<lparr>status_code = 200, resp_body = Some (JvArr [ex_order_json])\<rparr>)"

theorem open_orders_are_all_or_nothing_witness:
  "\<exists>ords d items. list_open_orders ex_alpaca ex_http \<lparr>cl_log = [], cl_sleeps = []\<rparr> = (Inr ords, d)
     \<and> list_all2 (\<lambda>v ord. parse_order v = Inr ord) items ords
     \<and> map b_submitted_at_ns ords = [Some 1709209800250000000]"
proof -
  have e: "case fst (list_open_orders ex_alpaca ex_http \<lparr>cl_log = [], cl_sleeps = []\<rparr>) of
      Inr ords \<Rightarrow> map b_submitted_at_ns ords = [Some 1709209800250000000] | Inl _ \<Rightarrow> False"
    by code_simp
  then obtain ords d where o: "list_open_orders ex_alpaca ex_http \<lparr>cl_log = [], cl_sleeps = []\<rparr> = (Inr ords, d)"
    "map b_submitted_at_ns ords = [Some 1709209800250000000]"
    by (cases "list_open_orders ex_alpaca ex_http \<lparr>cl_log = [], cl_sleeps = []\<rparr>") (auto split: sum.splits)
  from open_orders_are_all_or_nothing [OF o(1)] obtain items where
    "list_all2 (\<lambda>v ord. parse_order v = Inr ord) items ords" by auto
  with o show ?thesis by (intro exI conjI)
qed

definition ex_live_env :: env where
  "ex_live_env = [''ALPACA_API_KEY'' \<mapsto> ''AK1'', ''ALPACA_SECRET_KEY'' \<mapsto> ''SK1'',
     ''ALPACA_BASE_URL'' \<mapsto> '' https://api.alpaca.markets/ '',
     ''AFE_ENABLE_LIVE_TRADING'' \<mapsto> ''true'',
     ''AFE_LIVE_TRADING_CONFIRM'' \<mapsto> ''I-UNDERSTAND-THIS-TRADES-REAL-MONEY'']"

theorem live_endpoint_needs_both_opt_ins_witness:
  "\<exists>b. alpaca_broker_from_env ex_live_env = Inr b \<and> ab_base_url b = LIVE_BASE_URL
     \<and> ex_live_env LIVE_OPT_IN_ENV = Some ''true''"
proof -
  have e: "case alpaca_broker_from_env ex_live_env of Inr b \<Rightarrow> ab_base_url b = LIVE_BASE_URL | Inl _ \<Rightarrow> False"
    by code_simp
  then obtain b where b: "alpaca_broker_from_env ex_live_env = Inr b" "ab_base_url b = LIVE_BASE_URL"
    by (auto split: sum.splits)
  from live_endpoint_needs_both_opt_ins [OF b(1)] b show ?thesis by blast
qed

end
