(* ===== verification/Hitl.thy ===== *)
theory Hitl
  imports Service Alpaca
begin

text \<open>
  The human-in-the-loop backend (\<open>zone-c/hitl-backend/hitl_backend\<close>): operator authentication
  (\<open>auth.py\<close>), held signals and the decision book (\<open>holds.py\<close>), hold listing and operator
  decisions (\<open>service.py\<close>), the REST routes (\<open>http_api.py\<close>) and the settings (\<open>config.py\<close>).

  Aegis, the execution motor, the audit log, the clock and the JWT library are the record
  \<open>hitl_world\<close>; the n-th call of the service gets the n-th answer, about which nothing is assumed.
  A gRPC call either answers or raises \<open>RpcError\<close>. The state keeps the decision book and the
  ordered list of effects: audit records that were written, holds that Aegis resolved or refused,
  releases relayed to the motor.
\<close>

section \<open>Held signals\<close>

record held_signal =
  hg_signal_id :: pystr
  hg_symbol :: pystr
  hg_created_at_ns :: ns
  hg_side :: int
  hg_quantity_nanos :: int
  hg_price_limit_nanos :: int
  hg_spread_cost_nanos :: int
  hg_market_impact_nanos :: int
  hg_venue_fees_nanos :: int
  hg_total_cost_nanos :: int
  hg_omega :: rat
  hg_expected_value :: rat
  hg_p_success :: rat
  hg_p_failure :: rat
  hg_reward_estimate :: rat
  hg_risk_estimate :: rat
  hg_regime :: int
  hg_regime_confidence :: rat
  hg_strategy_id :: pystr
  hg_debate_summary :: pystr
  hg_valid_until_ns :: ns

record control_result =
  ct_control_id :: pystr
  ct_is_hard :: bool
  ct_passed :: bool
  ct_reason :: int
  ct_threshold :: rat
  ct_observed :: rat
  ct_detail :: pystr

record held =
  hd_hold_id :: pystr
  hd_decided_at_ns :: ns
  hd_expires_at_ns :: ns
  hd_reasons :: "int list"
  hd_results :: "control_result list"
  hd_signal :: held_signal

section \<open>Hold documents\<close>

record control_doc =
  cd_control_id :: pystr
  cd_is_hard :: bool
  cd_passed :: bool
  cd_reason :: pystr
  cd_threshold :: rat
  cd_observed :: rat
  cd_detail :: pystr

record approval_doc =
  apd_approver_sub :: pystr
  apd_decision :: pystr
  apd_reason :: pystr
  apd_decided_at_ns :: pystr

datatype execution_doc =
  NotRelayed pystr
| Relayed bool pystr pystr pystr

record hold_doc =
  hj_hold_id :: pystr
  hj_signal_id :: pystr
  hj_symbol :: pystr
  hj_created_at_ns :: pystr
  hj_side :: pystr
  hj_quantity_nanos :: pystr
  hj_price_limit_nanos :: pystr
  hj_cost_nanos :: "pystr list"
  hj_estimates :: "rat list"
  hj_regime :: pystr
  hj_regime_confidence :: rat
  hj_strategy_id :: pystr
  hj_debate_summary :: pystr
  hj_valid_until_ns :: pystr
  hj_hold_expires_at_ns :: pystr
  hj_held_reasons :: "pystr list"
  hj_controls :: "control_doc list"
  hj_status :: pystr
  hj_required :: int
  hj_approvals :: "approval_doc list"
  hj_execution :: "execution_doc option"

text \<open>The names of the generated enums, by enum and value; an unknown value is printed.\<close>

type_synonym enum_names = "pystr \<Rightarrow> int \<Rightarrow> pystr option"

definition enum_name :: "enum_names \<Rightarrow> pystr \<Rightarrow> int \<Rightarrow> pystr" where
  "enum_name names enum v = (case names enum v of None \<Rightarrow> int_str v | Some n \<Rightarrow> n)"

abbreviation NANOS :: rat where
  "NANOS \<equiv> 10 ^ 9"

definition required_approvals :: "held_signal \<Rightarrow> rat \<Rightarrow> rat option \<Rightarrow> int" where
  "required_approvals g quantity_threshold notional_threshold =
     (let quantity = ddiv (of_int (hg_quantity_nanos g)) NANOS
      in if quantity_threshold \<le> quantity then 2
         else case notional_threshold of None \<Rightarrow> 1
           | Some nt \<Rightarrow>
               if hg_price_limit_nanos g \<le> 0 then 1
               else let notional = ddiv (dmul quantity (of_int (hg_price_limit_nanos g))) NANOS
                    in if nt \<le> notional then 2 else 1)"

definition hold_json ::
  "enum_names \<Rightarrow> held \<Rightarrow> pystr \<Rightarrow> int \<Rightarrow> approval_doc list \<Rightarrow> hold_doc" where
  "hold_json names h status reqd approvals =
     (let g = hd_signal h in
      \<lparr>hj_hold_id = hd_hold_id h, hj_signal_id = hg_signal_id g, hj_symbol = hg_symbol g,
       hj_created_at_ns = int_str (hg_created_at_ns g),
       hj_side = enum_name names ''SignalSide'' (hg_side g),
       hj_quantity_nanos = int_str (hg_quantity_nanos g),
       hj_price_limit_nanos = int_str (hg_price_limit_nanos g),
       hj_cost_nanos = map int_str [hg_spread_cost_nanos g, hg_market_impact_nanos g,
         hg_venue_fees_nanos g, hg_total_cost_nanos g],
       hj_estimates = [hg_omega g, hg_expected_value g, hg_p_success g, hg_p_failure g,
         hg_reward_estimate g, hg_risk_estimate g],
       hj_regime = enum_name names ''RegimeLabel'' (hg_regime g),
       hj_regime_confidence = hg_regime_confidence g, hj_strategy_id = hg_strategy_id g,
       hj_debate_summary = hg_debate_summary g,
       hj_valid_until_ns = int_str (hg_valid_until_ns g),
       hj_hold_expires_at_ns = int_str (hd_expires_at_ns h),
       hj_held_reasons = map (enum_name names ''ReasonCode'') (hd_reasons h),
       hj_controls = map (\<lambda>c. \<lparr>cd_control_id = ct_control_id c, cd_is_hard = ct_is_hard c,
           cd_passed = ct_passed c, cd_reason = enum_name names ''ReasonCode'' (ct_reason c),
           cd_threshold = ct_threshold c, cd_observed = ct_observed c, cd_detail = ct_detail c\<rparr>)
         (hd_results h),
       hj_status = status, hj_required = reqd, hj_approvals = approvals,
       hj_execution = None\<rparr>)"

section \<open>Requests\<close>

datatype api_error = ApiError (err_status: int) (err_code: pystr) (err_message: pystr)

definition ApiError_new :: "int \<Rightarrow> pystr \<Rightarrow> pystr \<Rightarrow> api_error" where
  "ApiError_new status code message = ApiError status code (take 500 message)"

definition re_hold_id :: "pystr \<Rightarrow> bool" where
  "re_hold_id s \<longleftrightarrow> 1 \<le> length s \<and> length s \<le> 64
     \<and> list_all (\<lambda>c. is_alnum_ascii c \<or> c = CHR ''_'' \<or> c = CHR ''-'') s"

definition check_hold_id :: "pystr \<Rightarrow> api_error + unit" where
  "check_hold_id hid = (if re_hold_id hid then Inr () else Inl (ApiError_new 404 ''not_found'' ''unknown hold''))"

definition is_control :: "char \<Rightarrow> bool" where
  "is_control c \<longleftrightarrow> (let n = of_char c :: int in n \<le> 8 \<or> n = 11 \<or> n = 12 \<or> (14 \<le> n \<and> n \<le> 31) \<or> n = 127)"

definition is_hex :: "char \<Rightarrow> bool" where
  "is_hex c \<longleftrightarrow> is_digit_ascii c \<or> (let n = of_char c :: int in (65 \<le> n \<and> n \<le> 70) \<or> (97 \<le> n \<and> n \<le> 102))"

text \<open>\<open>int(text, 16)\<close> accepts: blanks around, a sign, \<open>0x\<close>, digits with single underscores between.\<close>

definition hex_digits_ok :: "bool \<Rightarrow> pystr \<Rightarrow> bool" where
  "hex_digits_ok prefixed s \<longleftrightarrow> s \<noteq> [] \<and> list_all (\<lambda>c. is_hex c \<or> c = CHR ''_'') s
     \<and> (prefixed \<or> hd s \<noteq> CHR ''_'') \<and> last s \<noteq> CHR ''_'' \<and> no_double_underscore s"

definition py_hex_ok :: "pystr \<Rightarrow> bool" where
  "py_hex_ok raw \<longleftrightarrow>
     (let body = snd (split_sign (py_strip raw))
      in if py_lower (take 2 body) = ''0x'' then hex_digits_ok True (drop 2 body) else hex_digits_ok False body)"

fun remove_all :: "pystr \<Rightarrow> nat \<Rightarrow> pystr \<Rightarrow> pystr" where
  "remove_all f 0 s = s"
| "remove_all f (Suc k) s =
     (if s = [] then []
      else if take (length f) s = f then remove_all f k (drop (length f) s)
      else hd s # remove_all f k (tl s))"

definition py_remove :: "pystr \<Rightarrow> pystr \<Rightarrow> pystr" where
  "py_remove f s = remove_all f (length s) s"

text \<open>\<open>uuid.UUID(text)\<close> raises unless 32 characters remain that \<open>int(..., 16)\<close> reads.\<close>

definition strip_braces :: "pystr \<Rightarrow> pystr" where
  "strip_braces s = rev (dropWhile (\<lambda>c. c = CHR ''{'' \<or> c = CHR ''}'')
     (rev (dropWhile (\<lambda>c. c = CHR ''{'' \<or> c = CHR ''}'') s)))"

definition is_uuid :: "pystr \<Rightarrow> bool" where
  "is_uuid s \<longleftrightarrow>
     (let h = filter (\<lambda>c. c \<noteq> CHR ''-'') (strip_braces (py_remove ''uuid:'' (py_remove ''urn:'' s)))
      in length h = 32 \<and> py_hex_ok h)"

text \<open>\<open>str(request_id)\<close>; no JSON value but a string or an integer prints as a UUID.\<close>

definition request_id_text :: "jv \<Rightarrow> pystr" where
  "request_id_text v = (case v of JvStr s \<Rightarrow> s | JvInt i \<Rightarrow> int_str i | _ \<Rightarrow> [])"

definition parse_body :: "jv \<Rightarrow> api_error + pystr \<times> pystr \<times> pystr" where
  "parse_body body =
     (case body of JvObj kvs \<Rightarrow>
        let decision = jget kvs ''decision''; reason = jget kvs ''reason'';
            rid = request_id_text (jget kvs ''clientRequestId'')
        in if decision \<notin> {JvStr ''APPROVE'', JvStr ''REJECT''}
           then Inl (ApiError_new 422 ''invalid_request'' ''decision must be APPROVE or REJECT'')
           else case reason of JvStr raw \<Rightarrow>
               let r = py_strip raw
               in if \<not> (10 \<le> length r \<and> length r \<le> 1000) \<or> list_ex is_control r
                  then Inl (ApiError_new 422 ''reason_missing'' ''reason must be 10..1000 chars'')
                  else if \<not> is_uuid rid
                  then Inl (ApiError_new 422 ''invalid_request'' ''clientRequestId must be a UUID'')
                  else Inr (if decision = JvStr ''APPROVE'' then ''APPROVE'' else ''REJECT'', r, rid)
             | _ \<Rightarrow> Inl (ApiError_new 422 ''reason_missing'' ''reason is required'')
      | _ \<Rightarrow> Inl (ApiError_new 422 ''invalid_request'' ''body must be a JSON object''))"

section \<open>Operators\<close>

record operator =
  op_sub :: pystr
  op_role :: pystr
  op_amr :: "pystr list"

datatype auth_error = AuthError int pystr pystr | AuthCrash pystr

record authenticator =
  au_secret :: pystr
  au_issuer :: "pystr option"
  au_audience :: "pystr option"
  au_service_token :: "pystr option"

text \<open>
  \<open>jwt.decode\<close> with the algorithm HS256 and required claims \<open>exp\<close> and \<open>sub\<close>: a parameter that
  takes the token, the secret, the issuer and the audience to check and returns the claims, or the
  name of the \<open>PyJWTError\<close>.
\<close>

type_synonym jwt_decode =
  "pystr \<Rightarrow> pystr \<Rightarrow> pystr option \<Rightarrow> pystr option \<Rightarrow> pystr + (pystr \<times> jv) list"

type_synonym headers = "pystr \<rightharpoonup> pystr"

definition header_or_empty :: "headers \<Rightarrow> pystr \<Rightarrow> pystr" where
  "header_or_empty hs k = (case hs k of None \<Rightarrow> [] | Some v \<Rightarrow> v)"

definition py_partition_space :: "pystr \<Rightarrow> pystr \<times> pystr" where
  "py_partition_space s = (takeWhile (\<lambda>c. c \<noteq> CHR '' '') s, drop 1 (dropWhile (\<lambda>c. c \<noteq> CHR '' '') s))"

fun hashable :: "jv \<Rightarrow> bool" where
  "hashable (JvArr vs) = False"
| "hashable (JvObj kvs) = False"
| "hashable _ = True"

text \<open>\<open>str_of\<close> is \<open>str\<close> of an authentication method that is not a string.\<close>

definition operator_of_claims ::
  "(jv \<Rightarrow> pystr) \<Rightarrow> (pystr \<times> jv) list \<Rightarrow> auth_error + operator" where
  "operator_of_claims str_of claims =
     (case jget claims ''sub'' of JvStr sub \<Rightarrow>
        if py_strip sub = [] \<or> 128 < length sub
        then Inl (AuthError 401 ''token_invalid'' ''token has no usable sub'')
        else if \<not> hashable (jget claims ''role'') then Inl (AuthCrash ''TypeError'')
        else (case jget claims ''role'' of JvStr role \<Rightarrow>
          if role \<notin> {''approver'', ''viewer''}
          then Inl (AuthError 403 ''role_not_allowed'' ''role must be approver or viewer'')
          else (case jget claims ''amr'' of JvArr amr \<Rightarrow>
            if JvStr ''mfa'' \<notin> set amr
            then Inl (AuthError 403 ''mfa_required'' ''multi-factor authentication is required'')
            else Inr \<lparr>op_sub = sub, op_role = role,
                      op_amr = map (\<lambda>v. case v of JvStr a \<Rightarrow> a | _ \<Rightarrow> str_of v) amr\<rparr>
          | _ \<Rightarrow> Inl (AuthError 403 ''mfa_required'' ''multi-factor authentication is required''))
        | _ \<Rightarrow> Inl (AuthError 403 ''role_not_allowed'' ''role must be approver or viewer''))
      | _ \<Rightarrow> Inl (AuthError 401 ''token_invalid'' ''token has no usable sub''))"

definition authenticate ::
  "authenticator \<Rightarrow> jwt_decode \<Rightarrow> (jv \<Rightarrow> pystr) \<Rightarrow> headers \<Rightarrow> auth_error + operator" where
  "authenticate a decode str_of hs =
     (if (case au_service_token a of None \<Rightarrow> False
          | Some t \<Rightarrow> utf8 (header_or_empty hs ''X-Service-Token'') \<noteq> utf8 t)
      then Inl (AuthError 401 ''service_token_invalid'' ''service token missing or invalid'')
      else case py_partition_space (header_or_empty hs ''Authorization'') of (scheme, token) \<Rightarrow>
        if scheme \<noteq> ''Bearer'' \<or> py_strip token = []
        then Inl (AuthError 401 ''token_missing'' ''bearer token required'')
        else case decode (py_strip token) (au_secret a) (au_issuer a) (au_audience a) of
          Inl name \<Rightarrow> Inl (AuthError 401 ''token_invalid'' (''token rejected: '' @ name))
        | Inr claims \<Rightarrow> operator_of_claims str_of claims)"

section \<open>State and environment of the service\<close>

datatype rpc_error = RpcError (rpc_code: pystr) (rpc_details: pystr)

record resolve_request =
  rv_hold_id :: pystr
  rv_approve :: bool
  rv_note :: pystr
  rv_distress_score :: rat
  rv_cooling_enforced :: bool
  rv_operator_id :: pystr

record resolve_result =
  rz_decision :: decision_msg
  rz_reasons :: "int list"

record override_record =
  ov_operator_id :: pystr
  ov_timestamp_ns :: ns
  ov_text :: pystr
  ov_distress_score :: rat
  ov_cooling_enforced :: bool
  ov_decision :: pystr

record relay_request =
  rl_request :: request_msg
  rl_regime :: int
  rl_ingestion_ns :: ns
  rl_judge_synthesis :: pystr
  rl_override :: override_record
  rl_model_versions :: "(pystr \<times> pystr) list"

record attempt =
  at_hold_id :: pystr
  at_decision :: pystr
  at_reason :: pystr
  at_request_id :: pystr
  at_role :: pystr
  at_amr :: "pystr list"

datatype audit_event =
  Replayed attempt
| Denied attempt pystr
| Attempted attempt
| Result attempt pystr int "int list" "execution_doc option" override_record

datatype hitl_effect =
  Audited pystr audit_event
| ResolveCalled resolve_request "rpc_error + resolve_result"
| RelayCalled relay_request "rpc_error + execute_ack"

record hitl_world =
  hw_audit :: "nat \<Rightarrow> bool"
  hw_list :: "nat \<Rightarrow> rpc_error + held list"
  hw_get :: "nat \<Rightarrow> pystr \<Rightarrow> rpc_error + held"
  hw_resolve :: "nat \<Rightarrow> resolve_request \<Rightarrow> rpc_error + resolve_result"
  hw_relay :: "(nat \<Rightarrow> relay_request \<Rightarrow> rpc_error + execute_ack) option"
  hw_clock :: "nat \<Rightarrow> ns"
  hw_names :: enum_names
  hw_identity :: pystr

record policy =
  po_quantity_threshold :: rat
  po_notional_threshold :: "rat option"
  po_cooling_period_s :: rat
  po_unscored_dev :: bool

datatype reply_body = ErrorBody pystr pystr | HoldBody hold_doc

type_synonym reply = "int \<times> reply_body"

record hitl_state =
  hs_finals :: "pystr \<rightharpoonup> hold_doc"
  hs_replies :: "pystr \<rightharpoonup> reply"
  hs_calls :: nat
  hs_effects :: "hitl_effect list"

definition HitlService_new :: hitl_state where
  "HitlService_new = \<lparr>hs_finals = Map.empty, hs_replies = Map.empty, hs_calls = 0, hs_effects = []\<rparr>"

definition tick :: "hitl_state \<Rightarrow> hitl_state" where
  "tick s = s\<lparr>hs_calls := Suc (hs_calls s)\<rparr>"

definition effect :: "hitl_effect \<Rightarrow> hitl_state \<Rightarrow> hitl_state" where
  "effect e s = s\<lparr>hs_effects := hs_effects s @ [e]\<rparr>"

section \<open>Audit\<close>

definition write_audit :: "hitl_world \<Rightarrow> pystr \<Rightarrow> audit_event \<Rightarrow> hitl_state \<Rightarrow> bool \<times> hitl_state" where
  "write_audit w who ev s =
     (if hw_audit w (hs_calls s) then (True, effect (Audited who ev) (tick s)) else (False, tick s))"

definition audit_or_refuse ::
  "hitl_world \<Rightarrow> pystr \<Rightarrow> audit_event \<Rightarrow> hitl_state \<Rightarrow> (api_error + unit) \<times> hitl_state" where
  "audit_or_refuse w who ev s =
     (case write_audit w who ev s of
        (True, t) \<Rightarrow> (Inr (), t)
      | (False, t) \<Rightarrow> (Inl (ApiError_new 503 ''audit_unavailable'' ''audit log unavailable; decision refused''), t))"

definition audit_quietly :: "hitl_world \<Rightarrow> pystr \<Rightarrow> audit_event \<Rightarrow> hitl_state \<Rightarrow> hitl_state" where
  "audit_quietly w who ev s = snd (write_audit w who ev s)"

section \<open>Reads\<close>

definition fetch :: "hitl_world \<Rightarrow> pystr \<Rightarrow> hitl_state \<Rightarrow> (api_error + held) \<times> hitl_state" where
  "fetch w hid s =
     (case hw_get w (hs_calls s) hid of
        Inl e \<Rightarrow>
          (Inl (if rpc_code e = ''NOT_FOUND'' then ApiError_new 404 ''not_found'' ''unknown or expired hold''
                else ApiError_new 503 ''aegis_unavailable'' (''Aegis call failed: '' @ rpc_code e)), tick s)
      | Inr h \<Rightarrow> (Inr h, tick s))"

definition required_for :: "policy \<Rightarrow> held \<Rightarrow> int" where
  "required_for p h = required_approvals (hd_signal h) (po_quantity_threshold p) (po_notional_threshold p)"

definition pending_json :: "hitl_world \<Rightarrow> policy \<Rightarrow> held \<Rightarrow> hold_doc" where
  "pending_json w p h = hold_json (hw_names w) h ''PENDING'' (required_for p h) []"

definition list_pending ::
  "hitl_world \<Rightarrow> policy \<Rightarrow> hitl_state \<Rightarrow> (api_error + hold_doc list) \<times> hitl_state" where
  "list_pending w p s =
     (case hw_list w (hs_calls s) of
        Inl e \<Rightarrow> (Inl (ApiError_new 503 ''aegis_unavailable'' (''Aegis call failed: '' @ rpc_code e)), tick s)
      | Inr hs \<Rightarrow> (Inr (map (pending_json w p) hs), tick s))"

definition get_hold ::
  "hitl_world \<Rightarrow> policy \<Rightarrow> pystr \<Rightarrow> hitl_state \<Rightarrow> (api_error + hold_doc) \<times> hitl_state" where
  "get_hold w p hid =
     sbind (spure (check_hold_id hid)) (\<lambda>_ s.
       case hs_finals s hid of Some doc \<Rightarrow> (Inr doc, s)
       | None \<Rightarrow> sbind (fetch w hid) (\<lambda>h. spure (Inr (pending_json w p h))) s)"

section \<open>Decisions\<close>

definition hitl_status :: "int \<Rightarrow> bool \<Rightarrow> pystr" where
  "hitl_status aegis_decision approve =
     (if \<not> approve then ''REJECTED'' else if aegis_decision = 1 then ''APPROVED'' else ''RELEASE_DENIED'')"

definition map_resolve_error :: "rpc_error \<Rightarrow> api_error" where
  "map_resolve_error e =
     (if rpc_code e = ''NOT_FOUND'' then ApiError_new 410 ''expired'' ''the hold expired or is unknown to Aegis''
      else if rpc_code e = ''FAILED_PRECONDITION''
      then ApiError_new 422 ''aegis_refused'' (''Aegis refused the release: '' @ take 300 (rpc_details e))
      else if rpc_code e = ''PERMISSION_DENIED''
      then ApiError_new 503 ''aegis_permission'' ''this service is not allowed to resolve holds''
      else ApiError_new 503 ''aegis_unavailable'' (''outcome unknown ('' @ rpc_code e @ ''); reload to verify''))"

definition call_resolve ::
  "hitl_world \<Rightarrow> resolve_request \<Rightarrow> hitl_state \<Rightarrow> (api_error + resolve_result) \<times> hitl_state" where
  "call_resolve w rq s =
     (let ans = hw_resolve w (hs_calls s) rq; t = effect (ResolveCalled rq ans) (tick s)
      in case ans of Inl e \<Rightarrow> (Inl (map_resolve_error e), t) | Inr r \<Rightarrow> (Inr r, t))"

definition override_of :: "operator \<Rightarrow> pystr \<Rightarrow> ns \<Rightarrow> bool \<Rightarrow> bool \<Rightarrow> override_record" where
  "override_of oper reason now cooling approve =
     \<lparr>ov_operator_id = op_sub oper, ov_timestamp_ns = now, ov_text = reason, ov_distress_score = 0,
      ov_cooling_enforced = cooling, ov_decision = (if approve then ''approved'' else ''rejected'')\<rparr>"

definition release_request :: "resolve_result \<Rightarrow> held \<Rightarrow> override_record \<Rightarrow> relay_request" where
  "release_request r h ov =
     (let g = hd_signal h in
      \<lparr>rl_request = \<lparr>rq_decision = rz_decision r, rq_context = Some
           \<lparr>cx_signal = Some \<lparr>sg_signal_id = hg_signal_id g, sg_symbol = hg_symbol g,
                             sg_strategy_id = hg_strategy_id g\<rparr>,
            cx_snapshot_symbol = Some (hg_symbol g)\<rparr>\<rparr>,
       rl_regime = hg_regime g, rl_ingestion_ns = hg_created_at_ns g,
       rl_judge_synthesis = hg_debate_summary g, rl_override = ov,
       rl_model_versions = [(''hitl-backend'', ''ali-156''), (''snapshot-source'', ''hold-signal-only'')]\<rparr>)"

definition relay_release ::
  "hitl_world \<Rightarrow> resolve_result \<Rightarrow> held \<Rightarrow> override_record \<Rightarrow> hitl_state \<Rightarrow> execution_doc \<times> hitl_state" where
  "relay_release w r h ov s =
     (case hw_relay w of None \<Rightarrow> (NotRelayed ''no execution-motor configured (dev)'', s)
      | Some relay \<Rightarrow>
          let rq = release_request r h ov; ans = relay (hs_calls s) rq;
              t = effect (RelayCalled rq ans) (tick s)
          in case ans of
               Inl e \<Rightarrow> (NotRelayed (''execution-motor call failed: '' @ rpc_code e), t)
             | Inr ack \<Rightarrow> (Relayed (ack_accepted ack) (ack_status ack) (ack_reject_reason ack)
                             (take 300 (ack_detail ack)), t))"

text \<open>The checks before anything is written: the reply is an error, or the clock and what is required.\<close>

definition waited_s :: "ns \<Rightarrow> held \<Rightarrow> rat" where
  "waited_s now h = fl (fl (of_int (now - hd_decided_at_ns h)) / 10 ^ 9)"

definition decision_checks :: "policy \<Rightarrow> held \<Rightarrow> ns \<Rightarrow> bool \<Rightarrow> api_error + unit" where
  "decision_checks p h now approve =
     rbind (guard (now < min (hg_valid_until_ns (hd_signal h)) (hd_expires_at_ns h))
              (ApiError_new 410 ''expired'' ''the hold has expired'')) (\<lambda>_.
     if \<not> approve then Inr ()
     else rbind (guard (required_for p h \<le> 1) (ApiError_new 422 ''second_approver_signing_unavailable''
                 ''this hold needs two approvers; signed second approvals are not implemented'')) (\<lambda>_.
          rbind (guard (po_unscored_dev p) (ApiError_new 422 ''distress_classifier_unavailable''
                 ''no reverse-guardrail distress classifier is configured'')) (\<lambda>_.
          guard (\<not> (0 < po_cooling_period_s p \<and> waited_s now h < po_cooling_period_s p))
            (ApiError_new 422 ''cooling_period'' ''the cooling period has not elapsed''))))"

text \<open>What happens once Aegis has answered: the release is relayed and the hold becomes final.\<close>

definition finish_decision ::
  "hitl_world \<Rightarrow> policy \<Rightarrow> operator \<Rightarrow> attempt \<Rightarrow> held \<Rightarrow> ns \<Rightarrow> bool \<Rightarrow> resolve_result \<Rightarrow> hitl_state
     \<Rightarrow> (api_error + reply) \<times> hitl_state" where
  "finish_decision w p oper a h now approve result s =
     (let status = hitl_status (dm_decision (rz_decision result)) approve;
          cooling = (0 < po_cooling_period_s p);
          approval = \<lparr>apd_approver_sub = op_sub oper, apd_decision = at_decision a,
                      apd_reason = at_reason a, apd_decided_at_ns = int_str now\<rparr>;
          doc = hold_json (hw_names w) h status (required_for p h) [approval];
          ov = override_of oper (at_reason a) now cooling approve;
          (execution, t) = (if status = ''APPROVED''
             then (case relay_release w result h ov s of (e, t) \<Rightarrow> (Some e, t)) else (None, s));
          final = doc\<lparr>hj_execution := execution\<rparr>;
          u = t\<lparr>hs_finals := (hs_finals t)(at_hold_id a \<mapsto> final)\<rparr>
      in (Inr (200, HoldBody final),
          audit_quietly w (op_sub oper) (Result a status (dm_decision (rz_decision result))
            (rz_reasons result) execution ov) u))"

definition decide_locked ::
  "hitl_world \<Rightarrow> policy \<Rightarrow> operator \<Rightarrow> attempt \<Rightarrow> hitl_state \<Rightarrow> (api_error + reply) \<times> hitl_state" where
  "decide_locked w p oper a s =
     (if op_role oper \<noteq> ''approver''
      then (Inl (ApiError_new 403 ''role_not_allowed'' ''only approvers can decide''), s)
      else if hs_finals s (at_hold_id a) \<noteq> None
      then (Inl (ApiError_new 409 ''already_final'' ''this hold already has a final decision''), s)
      else sbind (fetch w (at_hold_id a)) (\<lambda>h t.
        let now = hw_clock w (hs_calls t); approve = (at_decision a = ''APPROVE'') in
        sbind (spure (decision_checks p h now approve)) (\<lambda>_.
        sbind (audit_or_refuse w (op_sub oper) (Attempted a)) (\<lambda>_.
        sbind (call_resolve w \<lparr>rv_hold_id = at_hold_id a, rv_approve = approve,
            rv_note = take 480 (op_sub oper @ '': '' @ at_reason a), rv_distress_score = 0,
            rv_cooling_enforced = (0 < po_cooling_period_s p), rv_operator_id = hw_identity w\<rparr>) (\<lambda>result.
        finish_decision w p oper a h now approve result))) (tick t)) s)"

abbreviation NUL :: char where
  "NUL \<equiv> CHR 0x00"

definition reply_key :: "operator \<Rightarrow> pystr \<Rightarrow> pystr" where
  "reply_key oper rid = op_sub oper @ NUL # rid"

definition decide_new ::
  "hitl_world \<Rightarrow> policy \<Rightarrow> operator \<Rightarrow> attempt \<Rightarrow> hitl_state \<Rightarrow> reply \<times> hitl_state" where
  "decide_new w p oper a s =
     (let (reply, t) = (case decide_locked w p oper a s of
            (Inr reply, t) \<Rightarrow> (reply, t)
          | (Inl err, t) \<Rightarrow>
              ((err_status err, ErrorBody (err_code err) (take 500 (err_message err))),
               if err_code err \<noteq> ''audit_unavailable''
               then audit_quietly w (op_sub oper) (Denied a (err_code err)) t else t))
      in (reply, if fst reply < 500
                 then t\<lparr>hs_replies := (hs_replies t)(reply_key oper (at_request_id a) \<mapsto> reply)\<rparr> else t))"

definition decide ::
  "hitl_world \<Rightarrow> policy \<Rightarrow> operator \<Rightarrow> pystr \<Rightarrow> jv \<Rightarrow> hitl_state \<Rightarrow> (api_error + reply) \<times> hitl_state" where
  "decide w p oper hid body =
     sbind (spure (parse_body body)) (\<lambda>(decision, reason, rid).
     sbind (spure (check_hold_id hid)) (\<lambda>_ s.
       let a = \<lparr>at_hold_id = hid, at_decision = decision, at_reason = reason, at_request_id = rid,
                at_role = op_role oper, at_amr = op_amr oper\<rparr>
       in case hs_replies s (reply_key oper rid) of
            Some replay \<Rightarrow>
              sbind (audit_or_refuse w (op_sub oper) (Replayed a)) (\<lambda>_. spure (Inr replay)) s
          | None \<Rightarrow> (case decide_new w p oper a s of (reply, t) \<Rightarrow> (Inr reply, t))))"

section \<open>Routes\<close>

text \<open>
  A request as the HTTP server hands it over: the path and the \<open>status\<close> parameter of the query as
  \<open>urlsplit\<close> and \<open>parse_qs\<close> split them, the headers, and the body as \<open>json.loads\<close> reads it.
\<close>

record http_call =
  hc_path :: pystr
  hc_status :: "pystr list option"
  hc_headers :: headers
  hc_body :: "jv option"

datatype http_reply = Reply int reply_body | HoldList "hold_doc list" | Healthy | Crashed pystr

definition fail_reply :: "api_error \<Rightarrow> http_reply" where
  "fail_reply e = Reply (err_status e) (ErrorBody (err_code e) (take 500 (err_message e)))"

fun auth_reply :: "auth_error \<Rightarrow> http_reply" where
  "auth_reply (AuthError st code msg) = Reply st (ErrorBody code (take 500 msg))"
| "auth_reply (AuthCrash name) = Crashed name"

definition HOLDS_PREFIX :: pystr where
  "HOLDS_PREFIX = ''/v1/holds/''"

definition hold_route :: "pystr \<Rightarrow> pystr option" where
  "hold_route path =
     (let rest = drop (length HOLDS_PREFIX) path
      in if take (length HOLDS_PREFIX) path = HOLDS_PREFIX \<and> rest \<noteq> [] \<and> CHR ''/'' \<notin> set rest
         then Some rest else None)"

definition decisions_route :: "pystr \<Rightarrow> pystr option" where
  "decisions_route path =
     (let n = length path - length ''/decisions''
      in if drop n path = ''/decisions'' then hold_route (take n path) else None)"

definition json_body :: "http_call \<Rightarrow> api_error + jv" where
  "json_body c =
     (if py_strip (takeWhile (\<lambda>ch. ch \<noteq> CHR '';'') (header_or_empty (hc_headers c) ''Content-Type''))
         \<noteq> ''application/json''
      then Inl (ApiError_new 415 ''invalid_request'' ''Content-Type must be application/json'')
      else case py_int (header_or_empty (hc_headers c) ''Content-Length'') of
        None \<Rightarrow> Inl (ApiError_new 411 ''invalid_request'' ''Content-Length required'')
      | Some n \<Rightarrow>
          if \<not> (0 < n \<and> n \<le> 16 * 1024)
          then Inl (ApiError_new 413 ''invalid_request'' ''body must be 1..16384 bytes'')
          else case hc_body c of
            None \<Rightarrow> Inl (ApiError_new 422 ''invalid_request'' ''body is not valid JSON'')
          | Some v \<Rightarrow> Inr v)"

definition do_GET ::
  "authenticator \<Rightarrow> jwt_decode \<Rightarrow> (jv \<Rightarrow> pystr) \<Rightarrow> hitl_world \<Rightarrow> policy \<Rightarrow> http_call \<Rightarrow> hitl_state
     \<Rightarrow> http_reply \<times> hitl_state" where
  "do_GET a decode str_of w p c s =
     (if hc_path c = ''/healthz'' then (Healthy, s)
      else case authenticate a decode str_of (hc_headers c) of
        Inl e \<Rightarrow> (auth_reply e, s)
      | Inr oper \<Rightarrow>
          if hc_path c = ''/v1/holds''
          then if (case hc_status c of None \<Rightarrow> [''pending''] | Some v \<Rightarrow> v) \<noteq> [''pending'']
               then (fail_reply (ApiError_new 422 ''invalid_request'' ''only status=pending is supported''), s)
               else (case list_pending w p s of
                   (Inl e, t) \<Rightarrow> (fail_reply e, t) | (Inr docs, t) \<Rightarrow> (HoldList docs, t))
          else case hold_route (hc_path c) of
            None \<Rightarrow> (fail_reply (ApiError_new 404 ''not_found'' ''no such route''), s)
          | Some hid \<Rightarrow> (case get_hold w p hid s of
                (Inl e, t) \<Rightarrow> (fail_reply e, t) | (Inr doc, t) \<Rightarrow> (Reply 200 (HoldBody doc), t)))"

definition do_POST ::
  "authenticator \<Rightarrow> jwt_decode \<Rightarrow> (jv \<Rightarrow> pystr) \<Rightarrow> hitl_world \<Rightarrow> policy \<Rightarrow> http_call \<Rightarrow> hitl_state
     \<Rightarrow> http_reply \<times> hitl_state" where
  "do_POST a decode str_of w p c s =
     (case authenticate a decode str_of (hc_headers c) of
        Inl e \<Rightarrow> (auth_reply e, s)
      | Inr oper \<Rightarrow>
          (case decisions_route (hc_path c) of
             None \<Rightarrow> (fail_reply (ApiError_new 404 ''not_found'' ''no such route''), s)
           | Some hid \<Rightarrow>
               (case json_body c of
                  Inl e \<Rightarrow> (fail_reply e, s)
                | Inr body \<Rightarrow>
                    (case decide w p oper hid body s of
                       (Inl e, t) \<Rightarrow> (fail_reply e, t)
                     | (Inr (st, b), t) \<Rightarrow> (Reply st b, t)))))"

section \<open>Settings\<close>

record tls_files =
  tls_ca :: pystr
  tls_cert :: pystr
  tls_key :: pystr

record settings =
  st_production :: bool
  st_listen_host :: pystr
  st_listen_port :: int
  st_jwt_secret :: pystr
  st_jwt_issuer :: "pystr option"
  st_jwt_audience :: "pystr option"
  st_service_token :: "pystr option"
  st_aegis_target :: pystr
  st_aegis_identity :: pystr
  st_aegis_tls :: "tls_files option"
  st_aegis_timeout_s :: rat
  st_motor_target :: "pystr option"
  st_motor_tls :: "tls_files option"
  st_motor_timeout_s :: rat
  st_quantity_threshold :: rat
  st_notional_threshold :: "rat option"
  st_cooling_period_s :: rat
  st_unscored_dev :: bool
  st_audit_actor :: pystr

abbreviation HitlConfigError :: "pystr \<Rightarrow> exc" where
  "HitlConfigError msg \<equiv> Exc ''ConfigError'' msg"

definition SECRET_FRAGMENTS :: "pystr list" where
  "SECRET_FRAGMENTS = [''change-me'', ''change_me'', ''changeme'', ''replace-me'', ''replaceme'',
     ''placeholder'', ''your-secret'', ''yoursecret'', ''example'', ''default'', ''password'']"

definition check_secret :: "pystr \<Rightarrow> exc + unit" where
  "check_secret secret =
     (if length secret < 32 then Inl (HitlConfigError ''HITL_JWT_SECRET must be at least 32 characters'')
      else if list_ex (\<lambda>f. py_in f (py_lower secret)) SECRET_FRAGMENTS
      then Inl (HitlConfigError ''HITL_JWT_SECRET looks like a placeholder'')
      else Inr ())"

definition or_none :: "pystr \<Rightarrow> pystr option" where
  "or_none v = (if v = [] then None else Some v)"

definition strip_brackets :: "pystr \<Rightarrow> pystr" where
  "strip_brackets s = rev (dropWhile (\<lambda>c. c = CHR ''['' \<or> c = CHR '']'')
     (rev (dropWhile (\<lambda>c. c = CHR ''['' \<or> c = CHR '']'') s)))"

definition listen_address :: "pystr \<Rightarrow> exc + pystr \<times> int" where
  "listen_address raw =
     (let s = py_strip raw; port = rev (takeWhile (\<lambda>c. c \<noteq> CHR '':'') (rev s));
          host = (if CHR '':'' \<in> set s then take (length s - length port - 1) s else [])
      in case py_int port of
           None \<Rightarrow> Inl (HitlConfigError ''HITL_BACKEND_LISTEN must be host:port'')
         | Some n \<Rightarrow>
             if host = [] \<or> \<not> (0 < n \<and> n < 65536)
             then Inl (HitlConfigError ''HITL_BACKEND_LISTEN must be host:port'')
             else Inr (strip_brackets host, n))"

definition tls_of_env :: "env \<Rightarrow> pystr \<Rightarrow> exc + tls_files option" where
  "tls_of_env env prefix =
     (let v = (\<lambda>sfx. py_strip (env_get env (prefix @ sfx) []));
          ca = v ''_CA''; cert = v ''_CERT''; key = v ''_KEY''
      in if ca = [] \<and> cert = [] \<and> key = [] then Inr None
         else if ca = [] \<or> cert = [] \<or> key = [] then Inl (HitlConfigError (''set all of '' @ prefix @ '' or none''))
         else Inr (Some \<lparr>tls_ca = ca, tls_cert = cert, tls_key = key\<rparr>))"

definition text_or :: "env \<Rightarrow> pystr \<Rightarrow> pystr \<Rightarrow> pystr" where
  "text_or env name dflt = (let v = py_strip (env_get env name dflt) in if v = [] then dflt else v)"

definition float_setting :: "env \<Rightarrow> pystr \<Rightarrow> pystr \<Rightarrow> exc + rat" where
  "float_setting env name dflt =
     (case py_float (text_or env name dflt) of
        None \<Rightarrow> Inl (HitlConfigError (name @ '' must be a number''))
      | Some (Fin x) \<Rightarrow> Inr x
      | Some _ \<Rightarrow> Inl (HitlConfigError (name @ '' must be finite'')))"

definition positive_setting :: "env \<Rightarrow> pystr \<Rightarrow> pystr \<Rightarrow> exc + rat" where
  "positive_setting env name dflt =
     rbind (float_setting env name dflt) (\<lambda>x.
       if x \<le> 0 then Inl (HitlConfigError (name @ '' must be positive'')) else Inr x)"

definition non_negative_setting :: "env \<Rightarrow> pystr \<Rightarrow> pystr \<Rightarrow> exc + rat" where
  "non_negative_setting env name dflt =
     rbind (float_setting env name dflt) (\<lambda>x.
       if x < 0 then Inl (HitlConfigError (name @ '' must be >= 0'')) else Inr x)"

definition decimal_setting :: "env \<Rightarrow> pystr \<Rightarrow> pystr \<Rightarrow> exc + rat" where
  "decimal_setting env name dflt =
     (case parse_decimal (text_or env name dflt) of
        None \<Rightarrow> Inl (HitlConfigError (name @ '' must be a decimal number''))
      | Some (Fin x) \<Rightarrow>
          if x < 0 then Inl (HitlConfigError (name @ '' must be a finite number >= 0'')) else Inr x
      | Some _ \<Rightarrow> Inl (HitlConfigError (name @ '' must be a finite number >= 0'')))"

definition optional_decimal :: "env \<Rightarrow> pystr \<Rightarrow> exc + rat option" where
  "optional_decimal env name =
     (if py_strip (env_get env name []) = [] then Inr None
      else rbind (decimal_setting env name ''0'') (\<lambda>x. Inr (Some x)))"

definition Settings_from_env :: "env \<Rightarrow> exc + settings" where
  "Settings_from_env env =
     (let production = (py_lower (py_strip (env_get env ''HITL_ENV'' ''production'')) \<in> {[], ''production''});
          secret = env_get env ''HITL_JWT_SECRET'' [];
          txt = (\<lambda>name. py_strip (env_get env name []));
          issuer = or_none (txt ''HITL_JWT_ISSUER''); audience = or_none (txt ''HITL_JWT_AUDIENCE'');
          motor_target = or_none (txt ''MOTOR_TARGET'');
          unscored = (py_lower (txt ''HITL_UNSCORED_DEV'') \<in> {''1'', ''true'', ''yes''});
          token = or_none (txt ''HITL_API_TOKEN'')
      in rbind (check_secret secret) (\<lambda>_.
         rbind (guard (\<not> (production \<and> (issuer = None \<or> audience = None)))
           (HitlConfigError ''HITL_JWT_ISSUER and HITL_JWT_AUDIENCE are required in production'')) (\<lambda>_.
         rbind (listen_address (env_get env ''HITL_BACKEND_LISTEN'' ''127.0.0.1:8090'')) (\<lambda>(host, port).
         rbind (guard (txt ''AEGIS_TARGET'' \<noteq> []) (HitlConfigError ''AEGIS_TARGET (host:port) is required'')) (\<lambda>_.
         rbind (guard (txt ''HITL_AEGIS_IDENTITY'' \<noteq> []) (HitlConfigError ''HITL_AEGIS_IDENTITY is required'')) (\<lambda>_.
         rbind (tls_of_env env ''HITL_AEGIS_TLS'') (\<lambda>aegis_tls.
         rbind (tls_of_env env ''HITL_MOTOR_TLS'') (\<lambda>motor_tls.
         rbind (guard (\<not> (production \<and> (aegis_tls = None \<or> (motor_target \<noteq> None \<and> motor_tls = None))))
           (HitlConfigError ''production requires mTLS material for Aegis (and the motor)'')) (\<lambda>_.
         rbind (guard (\<not> (production \<and> motor_target = None))
           (HitlConfigError ''MOTOR_TARGET is required in production (released holds must execute)'')) (\<lambda>_.
         rbind (guard (\<not> (production \<and> unscored))
           (HitlConfigError ''HITL_UNSCORED_DEV is refused in production'')) (\<lambda>_.
         rbind (guard (case token of None \<Rightarrow> True | Some t \<Rightarrow> \<not> length t < 16)
           (HitlConfigError ''HITL_API_TOKEN must be at least 16 characters when set'')) (\<lambda>_.
         rbind (positive_setting env ''HITL_AEGIS_TIMEOUT_S'' ''2'') (\<lambda>aegis_timeout.
         rbind (positive_setting env ''HITL_MOTOR_TIMEOUT_S'' ''2'') (\<lambda>motor_timeout.
         rbind (decimal_setting env ''HITL_FOUR_EYES_QUANTITY_THRESHOLD'' ''0'') (\<lambda>qt.
         rbind (optional_decimal env ''HITL_FOUR_EYES_NOTIONAL_THRESHOLD_USD'') (\<lambda>nt.
         rbind (non_negative_setting env ''HITL_COOLING_PERIOD_S'' ''0'') (\<lambda>cooling.
         Inr \<lparr>st_production = production, st_listen_host = host, st_listen_port = port,
              st_jwt_secret = secret, st_jwt_issuer = issuer, st_jwt_audience = audience,
              st_service_token = token, st_aegis_target = txt ''AEGIS_TARGET'',
              st_aegis_identity = txt ''HITL_AEGIS_IDENTITY'', st_aegis_tls = aegis_tls,
              st_aegis_timeout_s = aegis_timeout, st_motor_target = motor_target,
              st_motor_tls = motor_tls, st_motor_timeout_s = motor_timeout,
              st_quantity_threshold = qt, st_notional_threshold = nt, st_cooling_period_s = cooling,
              st_unscored_dev = unscored,
              st_audit_actor = text_or env ''HITL_AUDIT_ACTOR'' ''hitl-backend''\<rparr>)))))))))))))))))"

text \<open>The policy the entry point builds from the settings.\<close>

definition policy_of :: "settings \<Rightarrow> policy" where
  "policy_of c = \<lparr>po_quantity_threshold = st_quantity_threshold c,
     po_notional_threshold = st_notional_threshold c, po_cooling_period_s = st_cooling_period_s c,
     po_unscored_dev = st_unscored_dev c\<rparr>"

end
