(* ===== verification/Hitl_Properties.thy ===== *)
theory Hitl_Properties
  imports Hitl
begin

text \<open>
  The properties of the human-in-the-loop backend. Every decision is split by what it did (refused
  before Aegis was called, refused by Aegis, decided); the lifetime of the service is a run of
  requests, with the invariant that the holds Aegis resolved are exactly the final ones.
\<close>

section \<open>One decision\<close>

lemma write_audit_effect:
  assumes "write_audit w who ev s = (ok, t)"
  shows "hs_finals t = hs_finals s \<and> hs_replies t = hs_replies s
     \<and> hs_effects t = hs_effects s @ (if ok then [Audited who ev] else [])"
  using assms by (auto simp: write_audit_def effect_def tick_def split: if_splits)

lemma audit_quietly_frame [simp]:
  "hs_finals (audit_quietly w who ev s) = hs_finals s"
  "hs_replies (audit_quietly w who ev s) = hs_replies s"
  by (simp_all add: audit_quietly_def write_audit_def effect_def tick_def)

lemma audit_quietly_effects:
  "hs_effects (audit_quietly w who ev s) \<in> {hs_effects s, hs_effects s @ [Audited who ev]}"
  by (simp add: audit_quietly_def write_audit_def effect_def tick_def)

definition is_audit :: "hitl_effect \<Rightarrow> bool" where
  "is_audit e \<longleftrightarrow> (\<exists>who ev. e = Audited who ev)"

lemma is_audit_simps [simp]: "is_audit (Audited who ev)" "\<not> is_audit (ResolveCalled rq x)"
  "\<not> is_audit (RelayCalled rl y)"
  by (simp_all add: is_audit_def)

text \<open>The conditions under which a hold may be handed to Aegis.\<close>

definition may_resolve :: "policy \<Rightarrow> operator \<Rightarrow> attempt \<Rightarrow> hitl_state \<Rightarrow> held \<Rightarrow> ns \<Rightarrow> bool" where
  "may_resolve p oper a s h now \<longleftrightarrow> op_role oper = ''approver'' \<and> hs_finals s (at_hold_id a) = None
     \<and> decision_checks p h now (at_decision a = ''APPROVE'') = Inr ()"

definition asked :: "hitl_world \<Rightarrow> policy \<Rightarrow> operator \<Rightarrow> attempt \<Rightarrow> resolve_request" where
  "asked w p oper a = \<lparr>rv_hold_id = at_hold_id a, rv_approve = (at_decision a = ''APPROVE''),
     rv_note = take 480 (op_sub oper @ '': '' @ at_reason a), rv_distress_score = 0,
     rv_cooling_enforced = (0 < po_cooling_period_s p), rv_operator_id = hw_identity w\<rparr>"

lemma fetch_frame:
  "fetch w hid s = (x, t) \<Longrightarrow> t = tick s \<and> (\<forall>h. x = Inr h \<longrightarrow> hw_get w (hs_calls s) hid = Inr h)"
  by (auto simp: fetch_def split: sum.splits)

lemma tick_frame [simp]: "hs_finals (tick s) = hs_finals s" "hs_replies (tick s) = hs_replies s"
  "hs_effects (tick s) = hs_effects s" "hs_calls (tick s) = Suc (hs_calls s)"
  by (simp_all add: tick_def)

lemma effect_frame [simp]: "hs_finals (effect e s) = hs_finals s" "hs_replies (effect e s) = hs_replies s"
  "hs_effects (effect e s) = hs_effects s @ [e]" "hs_calls (effect e s) = hs_calls s"
  by (simp_all add: effect_def)

lemma finish_decision_effect:
  assumes "finish_decision w p oper a h now approve r s = (res, t)"
  shows "\<exists>doc relay tail. res = Inr (200, HoldBody doc) \<and> hs_finals t = (hs_finals s)(at_hold_id a \<mapsto> doc)
     \<and> hs_replies t = hs_replies s \<and> hs_effects t = hs_effects s @ relay @ tail \<and> list_all is_audit tail
     \<and> (relay = [] \<or> (approve \<and> dm_decision (rz_decision r) = 1
          \<and> (\<exists>q ans. relay = [RelayCalled q ans] \<and> rq_decision (rl_request q) = rz_decision r)))"
proof -
  define ov where "ov = override_of oper (at_reason a) now (0 < po_cooling_period_s p) approve"
  define st where "st = hitl_status (dm_decision (rz_decision r)) approve"
  obtain ex u where x: "(if st = ''APPROVED'' then (case relay_release w r h ov s of (e, t) \<Rightarrow> (Some e, t))
      else (None, s)) = (ex, u)" by fastforce
  have u: "hs_finals u = hs_finals s \<and> hs_replies u = hs_replies s \<and> (\<exists>relay. hs_effects u = hs_effects s @ relay
      \<and> (relay = [] \<or> (st = ''APPROVED'' \<and> (\<exists>q ans. relay = [RelayCalled q ans]
            \<and> rq_decision (rl_request q) = rz_decision r))))"
    using x by (auto simp: relay_release_def Let_def release_request_def split: if_splits option.splits sum.splits)
  define doc where "doc = (hold_json (hw_names w) h st (required_for p h)
     [\<lparr>apd_approver_sub = op_sub oper, apd_decision = at_decision a, apd_reason = at_reason a,
       apd_decided_at_ns = int_str now\<rparr>])\<lparr>hj_execution := ex\<rparr>"
  define v where "v = u\<lparr>hs_finals := (hs_finals u)(at_hold_id a \<mapsto> doc)\<rparr>"
  define ev where "ev = Result a st (dm_decision (rz_decision r)) (rz_reasons r) ex ov"
  have t: "res = Inr (200, HoldBody doc)" "t = audit_quietly w (op_sub oper) ev v"
    using assms unfolding finish_decision_def Let_def ov_def [symmetric] st_def [symmetric] x
    by (simp_all add: doc_def v_def ev_def)
  obtain relay where relay: "hs_effects u = hs_effects s @ relay" "relay = [] \<or> (st = ''APPROVED''
      \<and> (\<exists>q ans. relay = [RelayCalled q ans] \<and> rq_decision (rl_request q) = rz_decision r))"
    using u by blast
  have ap: "st = ''APPROVED'' \<Longrightarrow> approve \<and> dm_decision (rz_decision r) = 1"
    by (auto simp: st_def hitl_status_def split: if_splits)
  obtain tail where tail: "hs_effects t = hs_effects v @ tail" "list_all is_audit tail"
    using audit_quietly_effects [of w "op_sub oper" ev v] t(2) by fastforce
  have "hs_effects t = hs_effects s @ relay @ tail" using tail(1) relay(1) by (simp add: v_def)
  moreover have "hs_finals t = (hs_finals s)(at_hold_id a \<mapsto> doc)" "hs_replies t = hs_replies s"
    using t(2) u by (simp_all add: v_def)
  ultimately show ?thesis using t(1) tail(2) relay(2) ap by blast
qed

text \<open>The three ways a decision ends.\<close>

lemma decide_locked_cases:
  assumes "decide_locked w p oper a s = (res, t)"
  obtains (refused) e where "res = Inl e" "hs_finals t = hs_finals s" "hs_replies t = hs_replies s"
      "hs_effects t = hs_effects s"
  | (denied) h now e where "may_resolve p oper a s h now" "res = Inl (map_resolve_error e)"
      "hs_finals t = hs_finals s" "hs_replies t = hs_replies s"
      "hs_effects t = hs_effects s @ [Audited (op_sub oper) (Attempted a), ResolveCalled (asked w p oper a) (Inl e)]"
  | (decided) h now r doc relay tail where "may_resolve p oper a s h now" "res = Inr (200, HoldBody doc)"
      "hs_finals t = (hs_finals s)(at_hold_id a \<mapsto> doc)" "hs_replies t = hs_replies s"
      "hs_effects t = hs_effects s @ [Audited (op_sub oper) (Attempted a),
         ResolveCalled (asked w p oper a) (Inr r)] @ relay @ tail"
      "list_all is_audit tail" "relay = [] \<or> (at_decision a = ''APPROVE'' \<and> dm_decision (rz_decision r) = 1
          \<and> (\<exists>q ans. relay = [RelayCalled q ans] \<and> rq_decision (rl_request q) = rz_decision r))"
proof (cases "op_role oper = ''approver'' \<and> hs_finals s (at_hold_id a) = None")
  case False
  with assms show thesis by (intro refused [of "projl res"]) (auto simp: decide_locked_def split: if_splits)
next
  case role: True
  obtain x s1 where f: "fetch w (at_hold_id a) s = (x, s1)" by fastforce
  have s1: "s1 = tick s" using fetch_frame [OF f] by simp
  define now where "now = hw_clock w (hs_calls s1)"
  define approve where "approve = (at_decision a = ''APPROVE'')"
  have run: "(res, t) = sbind (fetch w (at_hold_id a)) (\<lambda>h t.
        let now = hw_clock w (hs_calls t); approve = (at_decision a = ''APPROVE'') in
        sbind (spure (decision_checks p h now approve)) (\<lambda>_.
        sbind (audit_or_refuse w (op_sub oper) (Attempted a)) (\<lambda>_.
        sbind (call_resolve w (asked w p oper a)) (\<lambda>result.
        finish_decision w p oper a h now approve result))) (tick t)) s"
    using assms role by (simp add: decide_locked_def asked_def Let_def)
  show thesis
  proof (cases x)
    case (Inl e)
    with run f s1 show thesis by (intro refused [of e]) (simp_all add: sbind_def)
  next
    case (Inr h)
    with run f have run: "(res, t) = sbind (spure (decision_checks p h now approve)) (\<lambda>_.
        sbind (audit_or_refuse w (op_sub oper) (Attempted a)) (\<lambda>_.
        sbind (call_resolve w (asked w p oper a)) (\<lambda>result.
        finish_decision w p oper a h now approve result))) (tick s1)"
      by (simp add: sbind_def [of "fetch w (at_hold_id a)"] Let_def now_def approve_def)
    show thesis
    proof (cases "decision_checks p h now approve")
      case (Inl e)
      with run s1 show thesis by (intro refused [of e]) (simp_all add: sbind_def)
    next
      case checks: (Inr uu)
      then have may: "may_resolve p oper a s h now" using role by (simp add: may_resolve_def approve_def)
      obtain ok s2 where au: "write_audit w (op_sub oper) (Attempted a) (tick s1) = (ok, s2)" by fastforce
      note s2 = write_audit_effect [OF au]
      show thesis
      proof (cases ok)
        case False
        with run checks au s2 s1 show thesis
          by (intro refused [of "projl res"]) (simp_all add: sbind_def audit_or_refuse_def)
      next
        case True
        define ans where "ans = hw_resolve w (hs_calls s2) (asked w p oper a)"
        define s3 where "s3 = effect (ResolveCalled (asked w p oper a) ans) (tick s2)"
        have run: "(res, t) = (case ans of Inl e \<Rightarrow> (Inl (map_resolve_error e), s3)
            | Inr r \<Rightarrow> finish_decision w p oper a h now approve r s3)"
          using run checks au True
          by (simp add: sbind_def audit_or_refuse_def call_resolve_def Let_def ans_def s3_def split: sum.splits)
        have s3: "hs_finals s3 = hs_finals s" "hs_replies s3 = hs_replies s"
          "hs_effects s3 = hs_effects s @ [Audited (op_sub oper) (Attempted a), ResolveCalled (asked w p oper a) ans]"
          using s2 s1 True by (simp_all add: s3_def)
        show thesis
        proof (cases ans)
          case (Inl e)
          with run s3 may show thesis by (intro denied [of h now e]) simp_all
        next
          case (Inr r)
          with run have "finish_decision w p oper a h now approve r s3 = (res, t)" by simp
          from finish_decision_effect [OF this] obtain doc relay tail where d:
            "res = Inr (200, HoldBody doc)" "hs_finals t = (hs_finals s3)(at_hold_id a \<mapsto> doc)"
            "hs_replies t = hs_replies s3" "hs_effects t = hs_effects s3 @ relay @ tail"
            "list_all is_audit tail" "relay = [] \<or> (approve \<and> dm_decision (rz_decision r) = 1
               \<and> (\<exists>q ans. relay = [RelayCalled q ans] \<and> rq_decision (rl_request q) = rz_decision r))"
            by blast
          show thesis
            by (rule decided [of h now doc r relay tail]) (use d s3 may Inr in \<open>simp_all add: approve_def\<close>)
        qed
      qed
    qed
  qed
qed

section \<open>One request\<close>

definition attempt_of :: "operator \<Rightarrow> pystr \<Rightarrow> pystr \<times> pystr \<times> pystr \<Rightarrow> attempt" where
  "attempt_of oper hid b = \<lparr>at_hold_id = hid, at_decision = fst b, at_reason = fst (snd b),
     at_request_id = snd (snd b), at_role = op_role oper, at_amr = op_amr oper\<rparr>"

lemma attempt_of_simps [simp]:
  "at_hold_id (attempt_of oper hid b) = hid" "at_decision (attempt_of oper hid b) = fst b"
  "at_reason (attempt_of oper hid b) = fst (snd b)" "at_request_id (attempt_of oper hid b) = snd (snd b)"
  by (simp_all add: attempt_of_def)

lemma parse_body_Inr:
  assumes "parse_body body = Inr b"
  shows "fst b \<in> {''APPROVE'', ''REJECT''} \<and> 10 \<le> length (fst (snd b)) \<and> length (fst (snd b)) \<le> 1000
     \<and> is_uuid (snd (snd b))"
proof (cases body)
  case (JvObj kvs)
  with assms show ?thesis
    by (cases "jget kvs ''reason''") (auto simp: parse_body_def Let_def split: if_splits)
qed (use assms in \<open>simp_all add: parse_body_def\<close>)

text \<open>What one request adds to the effects: audit records, and at most one hold handed to Aegis.\<close>

inductive decision_effects ::
  "hitl_world \<Rightarrow> policy \<Rightarrow> operator \<Rightarrow> attempt \<Rightarrow> hitl_state \<Rightarrow> hitl_state \<Rightarrow> bool"
  for w p oper a s t where
  only_audit: "hs_effects t = hs_effects s @ es \<Longrightarrow> list_all is_audit es \<Longrightarrow> hs_finals t = hs_finals s
    \<Longrightarrow> decision_effects w p oper a s t"
| aegis_refused: "may_resolve p oper a s h now \<Longrightarrow> hs_finals t = hs_finals s
    \<Longrightarrow> hs_effects t = hs_effects s @ Audited (op_sub oper) (Attempted a)
          # ResolveCalled (asked w p oper a) (Inl e) # tail
    \<Longrightarrow> list_all is_audit tail \<Longrightarrow> decision_effects w p oper a s t"
| resolved: "may_resolve p oper a s h now \<Longrightarrow> hs_finals t = (hs_finals s)(at_hold_id a \<mapsto> doc)
    \<Longrightarrow> hs_effects t = hs_effects s @ Audited (op_sub oper) (Attempted a)
          # ResolveCalled (asked w p oper a) (Inr r) # tail
    \<Longrightarrow> list_all is_audit tail \<Longrightarrow> decision_effects w p oper a s t"
| released: "may_resolve p oper a s h now \<Longrightarrow> hs_finals t = (hs_finals s)(at_hold_id a \<mapsto> doc)
    \<Longrightarrow> hs_effects t = hs_effects s @ Audited (op_sub oper) (Attempted a)
          # ResolveCalled (asked w p oper a) (Inr r) # RelayCalled q ans # tail
    \<Longrightarrow> list_all is_audit tail \<Longrightarrow> at_decision a = ''APPROVE'' \<Longrightarrow> dm_decision (rz_decision r) = 1
    \<Longrightarrow> rq_decision (rl_request q) = rz_decision r \<Longrightarrow> decision_effects w p oper a s t"

lemma decide_new_effects:
  assumes "decide_new w p oper a s = (reply, t)"
  shows "decision_effects w p oper a s t
    \<and> hs_replies t = (if fst reply < 500
        then (hs_replies s)(reply_key oper (at_request_id a) \<mapsto> reply) else hs_replies s)"
proof -
  obtain res u where d: "decide_locked w p oper a s = (res, u)" by fastforce
  from d show ?thesis
  proof (cases rule: decide_locked_cases)
    case (refused e)
    obtain es where es: "hs_effects (audit_quietly w (op_sub oper) (Denied a (err_code e)) u) = hs_effects s @ es"
      "list_all is_audit es"
      using audit_quietly_effects [of w "op_sub oper" "Denied a (err_code e)" u] refused by fastforce
    from assms d refused have t: "hs_effects t = hs_effects s @ (if err_code e \<noteq> ''audit_unavailable'' then es else [])"
      "hs_finals t = hs_finals s" "hs_replies t = (if fst reply < 500
        then (hs_replies s)(reply_key oper (at_request_id a) \<mapsto> reply) else hs_replies s)"
      using es by (auto simp: decide_new_def Let_def split: if_splits)
    then show ?thesis using only_audit [OF t(1) _ t(2), of w p oper a] es(2) by simp
  next
    case (denied h now e)
    define e' where "e' = map_resolve_error e"
    obtain es where es: "hs_effects (audit_quietly w (op_sub oper) (Denied a (err_code e')) u) = hs_effects u @ es"
      "list_all is_audit es"
      using audit_quietly_effects [of w "op_sub oper" "Denied a (err_code e')" u] by fastforce
    from assms d denied have t: "hs_effects t = hs_effects u @ (if err_code e' \<noteq> ''audit_unavailable'' then es else [])"
      "hs_finals t = hs_finals s" "hs_replies t = (if fst reply < 500
        then (hs_replies s)(reply_key oper (at_request_id a) \<mapsto> reply) else hs_replies s)"
      using es by (auto simp: decide_new_def Let_def e'_def split: if_splits)
    have "decision_effects w p oper a s t"
      by (rule aegis_refused [OF denied(1) t(2), of w e
            "if err_code e' \<noteq> ''audit_unavailable'' then es else []"])
        (use t(1) denied(5) es(2) in simp_all)
    with t(3) show ?thesis by simp
  next
    case (decided h now r doc relay tail)
    from assms d decided have t: "hs_effects t = hs_effects u" "hs_finals t = hs_finals u"
      "hs_replies t = (if fst reply < 500
        then (hs_replies s)(reply_key oper (at_request_id a) \<mapsto> reply) else hs_replies s)"
      by (auto simp: decide_new_def Let_def)
    have f: "hs_finals t = (hs_finals s)(at_hold_id a \<mapsto> doc)" using t(2) decided(3) by simp
    show ?thesis
    proof (cases "relay = []")
      case True
      have "decision_effects w p oper a s t"
        by (rule resolved [OF decided(1) f, of w r tail]) (use t(1) decided(5,6) True in simp_all)
      with t(3) show ?thesis by simp
    next
      case False
      with decided(7) obtain q ans where q: "relay = [RelayCalled q ans]" "at_decision a = ''APPROVE''"
        "dm_decision (rz_decision r) = 1" "rq_decision (rl_request q) = rz_decision r" by auto
      have "decision_effects w p oper a s t"
        by (rule released [OF decided(1) f, of w r q ans tail]) (use t(1) decided(5,6) q in simp_all)
      with t(3) show ?thesis by simp
    qed
  qed
qed

lemma decide_cases:
  assumes "decide w p oper hid body s = (res, t)"
  obtains (malformed) e where "res = Inl e" "t = s" "isl (parse_body body) \<or> \<not> re_hold_id hid"
  | (replay) b rep where "parse_body body = Inr b" "hs_replies s (reply_key oper (snd (snd b))) = Some rep"
      "hs_finals t = hs_finals s" "hs_replies t = hs_replies s"
      "\<exists>es. hs_effects t = hs_effects s @ es \<and> list_all is_audit es"
      "(if hw_audit w (hs_calls s) then res = Inr rep else isl res)"
  | (fresh) b rep where "parse_body body = Inr b" "re_hold_id hid"
      "hs_replies s (reply_key oper (snd (snd b))) = None"
      "res = Inr rep" "decide_new w p oper (attempt_of oper hid b) s = (rep, t)"
proof (cases "parse_body body")
  case (Inl e)
  with assms show thesis by (intro malformed [of e]) (simp_all add: decide_def)
next
  case (Inr b)
  show thesis
  proof (cases "check_hold_id hid")
    case bad: (Inl e)
    then have "\<not> re_hold_id hid" by (auto simp: check_hold_id_def)
    with bad assms Inr show thesis by (intro malformed [of e]) (simp_all add: decide_def split_beta)
  next
    case ok: (Inr uu)
    then have hid: "re_hold_id hid" by (simp add: check_hold_id_def split: if_splits)
    show thesis
    proof (cases "hs_replies s (reply_key oper (snd (snd b)))")
      case None
      obtain rep u where n: "decide_new w p oper (attempt_of oper hid b) s = (rep, u)" by fastforce
      with assms Inr ok None have "res = Inr rep" "t = u"
        by (simp_all add: decide_def split_beta Let_def attempt_of_def)
      with n None Inr hid show thesis by (intro fresh [of b rep]) simp_all
    next
      case (Some rep)
      obtain aok u where a: "write_audit w (op_sub oper) (Replayed (attempt_of oper hid b)) s = (aok, u)" by fastforce
      have aok: "aok = hw_audit w (hs_calls s)" using a by (auto simp: write_audit_def split: if_splits)
      with assms Inr ok Some a have "t = u" "if aok then res = Inr rep else isl res"
        by (auto simp: decide_def split_beta Let_def attempt_of_def sbind_def audit_or_refuse_def split: bool.splits)
      moreover have "\<exists>es. hs_effects u = hs_effects s @ es \<and> list_all is_audit es"
        using write_audit_effect [OF a] by auto
      ultimately show thesis
        using write_audit_effect [OF a] aok Inr Some by (intro replay [of b rep]) simp_all
    qed
  qed
qed

lemma decide_effects:
  assumes "decide w p oper hid body s = (res, t)"
  shows "(\<exists>b. parse_body body = Inr b \<and> decision_effects w p oper (attempt_of oper hid b) s t)
     \<or> (\<exists>es. hs_effects t = hs_effects s @ es \<and> list_all is_audit es \<and> hs_finals t = hs_finals s)"
  using assms
proof (cases rule: decide_cases)
  case (fresh b rep)
  from decide_new_effects [OF fresh(5)] fresh(1) show ?thesis by blast
qed auto

lemma may_resolve_checks:
  assumes "may_resolve p oper a s h now"
  shows "op_role oper = ''approver'' \<and> hs_finals s (at_hold_id a) = None
     \<and> now < hg_valid_until_ns (hd_signal h) \<and> now < hd_expires_at_ns h
     \<and> (at_decision a = ''APPROVE'' \<longrightarrow> required_for p h \<le> 1 \<and> po_unscored_dev p
          \<and> (0 < po_cooling_period_s p \<longrightarrow> po_cooling_period_s p \<le> waited_s now h))"
  using assms by (auto simp: may_resolve_def decision_checks_def rbind_eq_Inr split: if_splits)


section \<open>The lifetime of the service\<close>

datatype hitl_op = Decide operator pystr jv | GetHold pystr | ListPending

definition hitl_step :: "hitl_world \<Rightarrow> policy \<Rightarrow> hitl_op \<Rightarrow> hitl_state \<Rightarrow> hitl_state" where
  "hitl_step w p x s = (case x of Decide oper hid body \<Rightarrow> snd (decide w p oper hid body s)
     | GetHold hid \<Rightarrow> snd (get_hold w p hid s) | ListPending \<Rightarrow> snd (list_pending w p s))"

definition hitl_run :: "hitl_world \<Rightarrow> policy \<Rightarrow> hitl_op list \<Rightarrow> hitl_state \<Rightarrow> hitl_state" where
  "hitl_run w p xs s = fold (hitl_step w p) xs s"

lemma hitl_run_simps [simp]:
  "hitl_run w p [] s = s" "hitl_run w p (x # xs) s = hitl_run w p xs (hitl_step w p x s)"
  by (simp_all add: hitl_run_def)

lemma read_steps_frame:
  "hs_effects (snd (get_hold w p hid s)) = hs_effects s" "hs_finals (snd (get_hold w p hid s)) = hs_finals s"
  "hs_replies (snd (get_hold w p hid s)) = hs_replies s"
  "hs_effects (snd (list_pending w p s)) = hs_effects s" "hs_finals (snd (list_pending w p s)) = hs_finals s"
  "hs_replies (snd (list_pending w p s)) = hs_replies s"
  by (auto simp: get_hold_def list_pending_def check_hold_id_def sbind_def fetch_def
      split: sum.splits option.splits)

text \<open>The holds Aegis resolved, in order, and the relays that are not backed by a release.\<close>

fun resolved_of :: "hitl_effect \<Rightarrow> pystr list" where
  "resolved_of (ResolveCalled rq (Inr r)) = [rv_hold_id rq]"
| "resolved_of _ = []"

definition resolved_holds :: "hitl_effect list \<Rightarrow> pystr list" where
  "resolved_holds es = concat (map resolved_of es)"

fun relays_backed :: "hitl_effect list \<Rightarrow> bool" where
  "relays_backed (ResolveCalled rq (Inr r) # RelayCalled q ans # es) \<longleftrightarrow>
     rv_approve rq \<and> dm_decision (rz_decision r) = 1 \<and> rq_decision (rl_request q) = rz_decision r
     \<and> relays_backed es"
| "relays_backed (RelayCalled q ans # es) \<longleftrightarrow> False"
| "relays_backed (e # es) \<longleftrightarrow> relays_backed es"
| "relays_backed [] \<longleftrightarrow> True"

lemma resolved_holds_append [simp]:
  "resolved_holds (xs @ ys) = resolved_holds xs @ resolved_holds ys" "resolved_holds [] = []"
  "resolved_holds (e # ys) = resolved_of e @ resolved_holds ys"
  by (simp_all add: resolved_holds_def)

lemma audits_resolve_nothing: "list_all is_audit es \<Longrightarrow> resolved_holds es = [] \<and> relays_backed es"
  by (induction es) (auto simp: is_audit_def)

lemma relays_backed_resolve: "relays_backed ys \<Longrightarrow> relays_backed (ResolveCalled rq x # ys)"
proof (cases x)
  case (Inr r)
  moreover assume "relays_backed ys"
  ultimately show ?thesis
    by (cases ys) (simp, rename_tac e es, case_tac e, simp_all)
qed simp

lemma relays_backed_append: "relays_backed xs \<Longrightarrow> relays_backed ys \<Longrightarrow> relays_backed (xs @ ys)"
  by (induction xs rule: relays_backed.induct) (auto intro: relays_backed_resolve)

definition hitl_inv :: "hitl_state \<Rightarrow> bool" where
  "hitl_inv s \<longleftrightarrow> distinct (resolved_holds (hs_effects s)) \<and> set (resolved_holds (hs_effects s)) = dom (hs_finals s)
     \<and> relays_backed (hs_effects s)"

lemma hitl_inv_new: "hitl_inv HitlService_new"
  by (simp add: hitl_inv_def HitlService_new_def)

lemma hitl_inv_audits:
  assumes "hitl_inv s" "hs_effects t = hs_effects s @ es" "list_all is_audit es" "hs_finals t = hs_finals s"
  shows "hitl_inv t"
  using assms audits_resolve_nothing [OF assms(3)] relays_backed_append by (simp add: hitl_inv_def)

lemma hitl_inv_decision:
  assumes "hitl_inv s" "decision_effects w p oper a s t"
  shows "hitl_inv t"
  using assms(2)
proof cases
  case (only_audit es)
  with hitl_inv_audits [OF assms(1)] show ?thesis by blast
next
  case (aegis_refused h now e tail)
  with assms(1) audits_resolve_nothing [OF aegis_refused(4)] show ?thesis
    by (auto simp: hitl_inv_def intro!: relays_backed_append)
next
  case (resolved h now doc r tail)
  have "at_hold_id a \<notin> dom (hs_finals s)" using may_resolve_checks [OF resolved(1)] by auto
  with resolved assms(1) audits_resolve_nothing [OF resolved(4)] show ?thesis
    by (auto simp: hitl_inv_def asked_def intro!: relays_backed_append relays_backed_resolve)
next
  case (released h now doc r q ans tail)
  have "at_hold_id a \<notin> dom (hs_finals s)" using may_resolve_checks [OF released(1)] by auto
  with released assms(1) audits_resolve_nothing [OF released(4)] show ?thesis
    by (auto simp: hitl_inv_def asked_def intro!: relays_backed_append)
qed

lemma hitl_inv_step:
  assumes "hitl_inv s"
  shows "hitl_inv (hitl_step w p x s)"
proof (cases x)
  case (Decide oper hid body)
  obtain res t where d: "decide w p oper hid body s = (res, t)" by fastforce
  from decide_effects [OF d] have "hitl_inv t"
    using hitl_inv_decision [OF assms] hitl_inv_audits [OF assms] by blast
  with d Decide show ?thesis by (simp add: hitl_step_def)
qed (use assms read_steps_frame in \<open>simp_all add: hitl_step_def hitl_inv_def\<close>)

lemma hitl_inv_run: "hitl_inv s \<Longrightarrow> hitl_inv (hitl_run w p xs s)"
  by (induction xs arbitrary: s) (simp_all add: hitl_inv_step)

text \<open>
  C33: No hold is decided twice. Over any sequence of requests, whatever Aegis, the motor and the
  audit log answer, the holds Aegis resolved are pairwise distinct and are exactly the holds with a
  final record; and every release relayed to the motor directly follows the approval of that hold
  that Aegis answered with APPROVED, and carries the decision Aegis answered.
\<close>

theorem holds_decided_at_most_once:
  "distinct (resolved_holds (hs_effects (hitl_run w p xs HitlService_new)))
   \<and> set (resolved_holds (hs_effects (hitl_run w p xs HitlService_new)))
       = dom (hs_finals (hitl_run w p xs HitlService_new))
   \<and> relays_backed (hs_effects (hitl_run w p xs HitlService_new))"
  using hitl_inv_run [OF hitl_inv_new] by (simp add: hitl_inv_def)

section \<open>Replies are replayed to their author\<close>

text \<open>A request id has no NUL, so the key determines the operator and the request.\<close>

lemma hex_char_not_nul: "\<not> is_hex NUL" "NUL \<noteq> CHR ''_''" "\<not> py_isspace NUL"
  by (simp_all add: is_hex_def is_digit_ascii_def py_isspace_def Let_def)

lemma dropWhile_keeps: "x \<in> set s \<Longrightarrow> \<not> P x \<Longrightarrow> x \<in> set (dropWhile P s)"
  by (induction s) auto

lemma strip_keeps: "x \<in> set s \<Longrightarrow> \<not> py_isspace x \<Longrightarrow> x \<in> set (py_strip s)"
  by (simp add: py_strip_def py_lstrip_def dropWhile_keeps)

lemma braces_keep: "NUL \<in> set s \<Longrightarrow> NUL \<in> set (strip_braces s)"
  by (simp add: strip_braces_def dropWhile_keeps)

lemma remove_all_keeps: "x \<in> set s \<Longrightarrow> x \<notin> set f \<Longrightarrow> x \<in> set (remove_all f k s)"
proof (induction k arbitrary: s)
  case (Suc k)
  have "x \<in> set (drop (length f) s)" if "take (length f) s = f"
    using Suc.prems that by (metis Un_iff append_take_drop_id set_append)
  moreover have "x = hd s \<or> x \<in> set (tl s)" using Suc.prems(1) by (cases s) auto
  ultimately show ?case
    using Suc.IH [of "drop (length f) s"] Suc.IH [of "tl s"] Suc.prems by (auto simp del: set_drop_subset)
qed simp

lemma hex_no_nul: "hex_digits_ok pre s \<Longrightarrow> NUL \<notin> set s"
  using hex_char_not_nul by (auto simp: hex_digits_ok_def list_all_iff)

lemma py_hex_no_nul:
  assumes "py_hex_ok s"
  shows "NUL \<notin> set s"
proof
  assume "NUL \<in> set s"
  then have "NUL \<in> set (py_strip s)" using strip_keeps hex_char_not_nul(3) by blast
  then have body: "NUL \<in> set (snd (split_sign (py_strip s)))"
    by (auto simp: split_sign_def split: list.splits)
  define b where "b = snd (split_sign (py_strip s))"
  have "NUL \<in> set (take 2 b) \<or> NUL \<in> set (drop 2 b)"
    using body by (metis Un_iff append_take_drop_id b_def set_append)
  moreover have "NUL \<notin> set (take 2 b)" if "py_lower (take 2 b) = ''0x''"
  proof
    assume "NUL \<in> set (take 2 b)"
    then have "py_lower_char NUL \<in> set (py_lower (take 2 b))" by (simp add: py_lower_def)
    then show False using that by (simp add: py_lower_char_def)
  qed
  ultimately show False
    using assms body hex_no_nul unfolding py_hex_ok_def Let_def b_def [symmetric] by metis
qed

lemma uuid_no_nul:
  assumes "is_uuid s"
  shows "NUL \<notin> set s"
proof
  assume "NUL \<in> set s"
  then have "NUL \<in> set (py_remove ''urn:'' s)" by (simp add: py_remove_def remove_all_keeps)
  then have "NUL \<in> set (py_remove ''uuid:'' (py_remove ''urn:'' s))"
    using remove_all_keeps [of NUL _ "''uuid:''"] by (simp add: py_remove_def)
  then have "NUL \<in> set (filter (\<lambda>c. c \<noteq> CHR ''-'')
      (strip_braces (py_remove ''uuid:'' (py_remove ''urn:'' s))))" using braces_keep by simp
  moreover have "py_hex_ok (filter (\<lambda>c. c \<noteq> CHR ''-'')
      (strip_braces (py_remove ''uuid:'' (py_remove ''urn:'' s))))"
    using assms unfolding is_uuid_def Let_def by (rule conjunct2)
  ultimately show False using py_hex_no_nul by blast
qed

lemma reply_key_inject:
  assumes "is_uuid r1" "is_uuid r2" "reply_key o1 r1 = reply_key o2 r2"
  shows "op_sub o1 = op_sub o2 \<and> r1 = r2"
proof -
  have "rev r1 @ NUL # rev (op_sub o1) = rev r2 @ NUL # rev (op_sub o2)"
    using assms(3) unfolding reply_key_def by (metis append.assoc append_Cons append_Nil rev.simps(2) rev_append)
  then have "rev r1 = rev r2 \<and> rev (op_sub o1) = rev (op_sub o2)"
    using uuid_no_nul [OF assms(1)] uuid_no_nul [OF assms(2)] by (intro append_sep_inject [of NUL]) simp_all
  then show ?thesis by simp
qed

text \<open>A stored reply is never replaced.\<close>

lemma reply_kept_step:
  assumes "hs_replies s k = Some r"
  shows "hs_replies (hitl_step w p x s) k = Some r"
proof (cases x)
  case (Decide oper hid body)
  obtain res t where d: "decide w p oper hid body s = (res, t)" by fastforce
  then have "hs_replies t k = Some r"
  proof (cases rule: decide_cases)
    case (fresh b rep)
    then have "k \<noteq> reply_key oper (snd (snd b))" using assms by auto
    with decide_new_effects [OF fresh(5)] assms show ?thesis by simp
  qed (use assms in simp_all)
  with d Decide show ?thesis by (simp add: hitl_step_def)
qed (use assms read_steps_frame in \<open>simp_all add: hitl_step_def\<close>)

lemma reply_kept_run: "hs_replies s k = Some r \<Longrightarrow> hs_replies (hitl_run w p xs s) k = Some r"
  by (induction xs arbitrary: s) (simp_all add: reply_kept_step)

text \<open>
  A decision is idempotent for its author. Once a request of an operator was answered with a
  status below 500, every later request of the same operator with the same client request id,
  after any other requests, is answered with that same reply (or refused when the replay cannot be
  audited), leaves the final decisions alone and calls neither Aegis nor the motor.
\<close>

theorem replay_is_idempotent:
  assumes "decide w p oper hid body s = (Inr rep, t)" "fst rep < 500"
    and "parse_body body = Inr (d1, r1, rid)" "parse_body body' = Inr (d2, r2, rid)" "re_hold_id hid'"
    and "decide w p oper hid' body' (hitl_run w p xs t) = (res, u)"
  shows "(if hw_audit w (hs_calls (hitl_run w p xs t)) then res = Inr rep else isl res)
     \<and> hs_finals u = hs_finals (hitl_run w p xs t)
     \<and> (\<exists>es. hs_effects u = hs_effects (hitl_run w p xs t) @ es \<and> list_all is_audit es)"
proof -
  have "hs_replies t (reply_key oper rid) = Some rep"
    using assms(1)
  proof (cases rule: decide_cases)
    case (replay b r)
    then have "b = (d1, r1, rid)" "r = rep" using assms(3) by (auto split: if_splits)
    then show ?thesis using replay by simp
  next
    case (fresh b r)
    then have b: "b = (d1, r1, rid)" "r = rep" using assms(3) by auto
    show ?thesis using decide_new_effects [OF fresh(5)] assms(2) b by simp
  qed simp
  then have kept: "hs_replies (hitl_run w p xs t) (reply_key oper rid) = Some rep"
    by (rule reply_kept_run)
  from assms(6) show ?thesis
  proof (cases rule: decide_cases)
    case (malformed e)
    then show ?thesis using assms(4,5) by simp
  next
    case (replay b r)
    then have "b = (d2, r2, rid)" using assms(4) by simp
    then have "r = rep" using replay(2) kept by simp
    then show ?thesis using replay by simp
  next
    case (fresh b r)
    then have "b = (d2, r2, rid)" using assms(4) by simp
    then show ?thesis using fresh(3) kept by simp
  qed
qed

text \<open>
  Two operators never share a stored reply: the keys of two well-formed requests are equal only
  if the operator and the client request id are.
\<close>

theorem replies_are_per_operator:
  assumes "parse_body b1 = Inr (d1, r1, rid1)" "parse_body b2 = Inr (d2, r2, rid2)"
    and "reply_key o1 rid1 = reply_key o2 rid2"
  shows "op_sub o1 = op_sub o2 \<and> rid1 = rid2"
  using reply_key_inject [OF _ _ assms(3)] parse_body_Inr [OF assms(1)] parse_body_Inr [OF assms(2)] by simp

section \<open>Authentication\<close>

lemma operator_of_claims_Inr:
  assumes "operator_of_claims str_of claims = Inr oper"
  shows "py_strip (op_sub oper) \<noteq> [] \<and> length (op_sub oper) \<le> 128 \<and> op_role oper \<in> {''approver'', ''viewer''}
     \<and> ''mfa'' \<in> set (op_amr oper) \<and> jget claims ''sub'' = JvStr (op_sub oper)
     \<and> jget claims ''role'' = JvStr (op_role oper)"
proof -
  from assms obtain sub where sub: "jget claims ''sub'' = JvStr sub"
    by (auto simp: operator_of_claims_def split: jv.splits)
  with assms obtain role where role: "jget claims ''role'' = JvStr role"
    by (auto simp: operator_of_claims_def split: jv.splits if_splits)
  with assms sub obtain amr where amr: "jget claims ''amr'' = JvArr amr"
    by (auto simp: operator_of_claims_def split: jv.splits if_splits)
  from assms sub role amr show ?thesis
    by (auto simp: operator_of_claims_def image_iff split: if_splits intro!: bexI [of _ "JvStr ''mfa''"])
qed

text \<open>
  A request changes nothing unless it carries a token the JWT library accepted for this secret,
  issuer and audience (and the service token, when one is configured), naming a non-blank subject, a
  known role and multi-factor authentication; a hold is resolved only for such an operator with the
  role approver, and viewing never writes anything.
\<close>

theorem only_authenticated_operators_act:
  assumes "do_POST a decode str_of w p c s = (reply, t)" "hs_effects t \<noteq> hs_effects s \<or> hs_finals t \<noteq> hs_finals s"
  shows "\<exists>(oper :: operator) token claims. decode token (au_secret a) (au_issuer a) (au_audience a) = Inr claims
     \<and> jget claims ''sub'' = JvStr (op_sub oper) \<and> py_strip (op_sub oper) \<noteq> []
     \<and> jget claims ''role'' = JvStr (op_role oper) \<and> op_role oper \<in> {''approver'', ''viewer''}
     \<and> ''mfa'' \<in> set (op_amr oper)
     \<and> (\<forall>st. au_service_token a = Some st \<longrightarrow> header_or_empty (hc_headers c) ''X-Service-Token'' = st)
     \<and> (hs_finals t \<noteq> hs_finals s \<longrightarrow> op_role oper = ''approver'')
     \<and> hs_effects (snd (do_GET a decode str_of w p c s)) = hs_effects s"
proof -
  from assms obtain oper hid body res where o: "authenticate a decode str_of (hc_headers c) = Inr oper"
    "decide w p oper hid body s = (res, t)"
    by (auto simp: do_POST_def split: sum.splits option.splits prod.splits)
  from o(1) obtain token claims where tk: "decode token (au_secret a) (au_issuer a) (au_audience a) = Inr claims"
    "operator_of_claims str_of claims = Inr oper"
    and st: "\<forall>st. au_service_token a = Some st \<longrightarrow> header_or_empty (hc_headers c) ''X-Service-Token'' = st"
    by (auto simp: authenticate_def split: if_splits prod.splits sum.splits option.splits dest: utf8_inject)
  have final: "op_role oper = ''approver''" if "hs_finals t \<noteq> hs_finals s"
  proof -
    from decide_effects [OF o(2)] that obtain b where "decision_effects w p oper (attempt_of oper hid b) s t" by blast
    then show ?thesis using that by cases (auto dest: may_resolve_checks)
  qed
  have get: "hs_effects (snd (do_GET a decode str_of w p c s)) = hs_effects s"
    using read_steps_frame(1) [of w p _ s] read_steps_frame(4) [of w p s]
    by (auto simp: do_GET_def split: sum.splits option.splits prod.splits) (metis snd_conv)+
  show ?thesis
    by (intro exI [of _ oper] exI [of _ token] exI [of _ claims] conjI impI)
      (use operator_of_claims_Inr [OF tk(2)] tk(1) st final get in simp_all)
qed

section \<open>Production\<close>

lemma approve_needs_unscored:
  assumes "decision_effects w p oper a s t" "\<not> po_unscored_dev p"
    "ResolveCalled rq ans \<in> set (drop (length (hs_effects s)) (hs_effects t))"
  shows "\<not> rv_approve rq"
  using assms(1)
proof cases
  case (only_audit es)
  with assms(3) show ?thesis by (auto simp: list_all_iff is_audit_def)
qed (use assms(2,3) in \<open>auto simp: asked_def list_all_iff is_audit_def dest!: may_resolve_checks\<close>)

definition no_approval :: "hitl_effect \<Rightarrow> bool" where
  "no_approval e \<longleftrightarrow> (case e of ResolveCalled rq ans \<Rightarrow> \<not> rv_approve rq | RelayCalled q ans \<Rightarrow> False | Audited who ev \<Rightarrow> True)"

lemma no_approval_step:
  assumes "list_all no_approval (hs_effects s)" "\<not> po_unscored_dev p"
  shows "list_all no_approval (hs_effects (hitl_step w p x s))"
proof (cases x)
  case (Decide oper hid body)
  obtain res t where d: "decide w p oper hid body s = (res, t)" by fastforce
  have audits: "list_all no_approval es" if "list_all is_audit es" for es
    using that by (auto simp: list_all_iff is_audit_def no_approval_def)
  consider b where "decision_effects w p oper (attempt_of oper hid b) s t"
    | es where "hs_effects t = hs_effects s @ es" "list_all is_audit es"
    using decide_effects [OF d] by blast
  then have "list_all no_approval (hs_effects t)"
  proof cases
    case 1
    then show ?thesis
      by cases (use assms audits in \<open>auto simp: asked_def no_approval_def dest!: may_resolve_checks\<close>)
  qed (use assms audits in auto)
  with d Decide show ?thesis by (simp add: hitl_step_def)
qed (use assms read_steps_frame in \<open>simp_all add: hitl_step_def\<close>)

lemma no_approval_run:
  "\<not> po_unscored_dev p \<Longrightarrow> list_all no_approval (hs_effects s) \<Longrightarrow> list_all no_approval (hs_effects (hitl_run w p xs s))"
  by (induction xs arbitrary: s) (simp_all add: no_approval_step)

lemma Settings_production:
  assumes "Settings_from_env env = Inr c" "st_production c"
  shows "\<not> st_unscored_dev c \<and> st_jwt_issuer c \<noteq> None \<and> st_jwt_audience c \<noteq> None
     \<and> st_aegis_tls c \<noteq> None \<and> st_motor_tls c \<noteq> None \<and> st_motor_target c \<noteq> None"
  using assms(2) assms(1) [unfolded Settings_from_env_def Let_def rbind_eq_Inr split_beta guard_eq_Inr]
  by (elim exE conjE) (drule Inr_inject, hypsubst, simp, metis option.distinct(1))

text \<open>
  In production no hold is ever released. A production configuration refuses the development
  switch that stands in for the missing distress classifier, so over any sequence of requests
  every hold handed to Aegis is a rejection and nothing is relayed to the motor; such a
  configuration also has issuer and audience checks, mutual TLS and a motor.
\<close>

theorem production_releases_nothing:
  assumes "Settings_from_env env = Inr c" "st_production c"
  shows "list_all no_approval (hs_effects (hitl_run w (policy_of c) xs HitlService_new))
     \<and> st_jwt_issuer c \<noteq> None \<and> st_jwt_audience c \<noteq> None \<and> st_aegis_tls c \<noteq> None
     \<and> st_motor_tls c \<noteq> None \<and> st_motor_target c \<noteq> None"
  using Settings_production [OF assms] no_approval_run [of "policy_of c" HitlService_new w xs]
  by (simp add: policy_of_def HitlService_new_def)

section \<open>A concrete service\<close>

definition ex_held :: held where
  "ex_held = \<lparr>hd_hold_id = ''h1'', hd_decided_at_ns = 10, hd_expires_at_ns = 900, hd_reasons = [7],
     hd_results = [], hd_signal = \<lparr>hg_signal_id = ''sig-1'', hg_symbol = ''AAPL'', hg_created_at_ns = 5,
       hg_side = 1, hg_quantity_nanos = 20, hg_price_limit_nanos = 30, hg_spread_cost_nanos = 1,
       hg_market_impact_nanos = 1, hg_venue_fees_nanos = 1, hg_total_cost_nanos = 3, hg_omega = 1,
       hg_expected_value = 1, hg_p_success = 1 / 2, hg_p_failure = 1 / 2, hg_reward_estimate = 1,
       hg_risk_estimate = 1, hg_regime = 2, hg_regime_confidence = 1, hg_strategy_id = ''st'',
       hg_debate_summary = ''summary'', hg_valid_until_ns = 800\<rparr>\<rparr>"

definition ex_released :: resolve_result where
  "ex_released = \<lparr>rz_decision = \<lparr>dm_decision = 1, dm_signal_id = ''sig-1'', dm_order = None,
     dm_attestation = None\<rparr>, rz_reasons = []\<rparr>"

definition ex_hitl_world :: hitl_world where
  "ex_hitl_world = \<lparr>hw_audit = (\<lambda>n. n < 8), hw_list = (\<lambda>n. Inr [ex_held]),
     hw_get = (\<lambda>n hid. if hid = ''h1'' then Inr ex_held else Inl (RpcError ''NOT_FOUND'' [])),
     hw_resolve = (\<lambda>n rq. Inr ex_released),
     hw_relay = Some (\<lambda>n q. Inr \<lparr>ack_accepted = True, ack_order_id = ''sig-1'', ack_status = ''accepted'',
       ack_reject_reason = [], ack_detail = []\<rparr>),
     hw_clock = (\<lambda>n. 100), hw_names = (\<lambda>e v. None), hw_identity = ''hitl''\<rparr>"

definition ex_policy :: policy where
  "ex_policy = \<lparr>po_quantity_threshold = 1, po_notional_threshold = None,
     po_cooling_period_s = 0, po_unscored_dev = True\<rparr>"

definition ex_operator :: operator where
  "ex_operator = \<lparr>op_sub = ''ann'', op_role = ''approver'', op_amr = [''mfa'']\<rparr>"

definition ex_body :: jv where
  "ex_body = JvObj [(''decision'', JvStr ''APPROVE''), (''reason'', JvStr '' looks fine to me ''),
     (''clientRequestId'', JvStr ''00000000-0000-4000-8000-00000000000a'')]"

definition ex_decided :: "(api_error + reply) \<times> hitl_state" where
  "ex_decided = decide ex_hitl_world ex_policy ex_operator ''h1'' ex_body HitlService_new"

text \<open>Evaluation goes step by step, not under the binders of a sequence of calls.\<close>

lemmas rbind_code [code_unfold] = rbind_def

lemma decide_code [code]:
  "decide w p oper hid body s =
     (case parse_body body of Inl e \<Rightarrow> (Inl e, s)
      | Inr b \<Rightarrow> (case check_hold_id hid of Inl e \<Rightarrow> (Inl e, s)
        | Inr _ \<Rightarrow> (case hs_replies s (reply_key oper (snd (snd b))) of
            Some replay \<Rightarrow> (case audit_or_refuse w (op_sub oper) (Replayed (attempt_of oper hid b)) s of
                (Inl e, t) \<Rightarrow> (Inl e, t) | (Inr _, t) \<Rightarrow> (Inr replay, t))
          | None \<Rightarrow> (case decide_new w p oper (attempt_of oper hid b) s of (reply, t) \<Rightarrow> (Inr reply, t)))))"
  by (simp add: decide_def attempt_of_def sbind_def spure_def Let_def split: sum.split prod.split option.split)

lemma ex_body_parsed:
  "parse_body ex_body = Inr (''APPROVE'', ''looks fine to me'', ''00000000-0000-4000-8000-00000000000a'')"
  by code_simp

lemma ex_decided_facts:
  "case ex_decided of (Inr rep, t) \<Rightarrow> fst rep = 200 \<and> length (hs_effects t) = 4
     \<and> list_ex (\<lambda>e. case e of ResolveCalled rq ans \<Rightarrow> rv_approve rq | _ \<Rightarrow> False) (hs_effects t)
     \<and> hw_audit ex_hitl_world (hs_calls (hitl_run ex_hitl_world ex_policy [ListPending] t))
   | (Inl e, t) \<Rightarrow> False"
  by code_simp

lemma ex_decided_obtain:
  obtains rep t rq ans where
    "decide ex_hitl_world ex_policy ex_operator ''h1'' ex_body HitlService_new = (Inr rep, t)"
    "fst rep = 200" "ResolveCalled rq ans \<in> set (hs_effects t)"
    "hw_audit ex_hitl_world (hs_calls (hitl_run ex_hitl_world ex_policy [ListPending] t))"
proof -
  obtain r t where d: "ex_decided = (r, t)" by fastforce
  then obtain rep where r: "r = Inr rep" using ex_decided_facts unfolding d by (cases r) simp_all
  have f: "fst rep = 200 \<and> list_ex (\<lambda>e. case e of ResolveCalled rq ans \<Rightarrow> rv_approve rq | _ \<Rightarrow> False) (hs_effects t)
     \<and> hw_audit ex_hitl_world (hs_calls (hitl_run ex_hitl_world ex_policy [ListPending] t))"
    using ex_decided_facts unfolding d r by simp
  then obtain e where e: "e \<in> set (hs_effects t)" "case e of ResolveCalled rq ans \<Rightarrow> rv_approve rq | _ \<Rightarrow> False"
    by (auto simp: list_ex_iff)
  from e(2) obtain rq ans where "e = ResolveCalled rq ans" by (cases e) simp_all
  with e f d r show thesis by (intro that [of rep t rq ans]) (simp_all add: ex_decided_def)
qed


theorem replay_is_idempotent_witness:
  "\<exists>rep t. decide ex_hitl_world ex_policy ex_operator ''h1'' ex_body HitlService_new = (Inr rep, t)
     \<and> fst (decide ex_hitl_world ex_policy ex_operator ''h1'' ex_body
         (hitl_run ex_hitl_world ex_policy [ListPending] t)) = Inr rep"
proof (rule ex_decided_obtain)
  fix rep t rq ans
  assume d: "decide ex_hitl_world ex_policy ex_operator ''h1'' ex_body HitlService_new = (Inr rep, t)"
    and rep: "fst rep = 200" and au: "hw_audit ex_hitl_world (hs_calls (hitl_run ex_hitl_world ex_policy [ListPending] t))"
  have h: "re_hold_id ''h1''" by code_simp
  obtain res u where u: "decide ex_hitl_world ex_policy ex_operator ''h1'' ex_body
      (hitl_run ex_hitl_world ex_policy [ListPending] t) = (res, u)" by fastforce
  from replay_is_idempotent [OF d _ ex_body_parsed ex_body_parsed h u] rep au have "res = Inr rep" by simp
  with d u show ?thesis by (metis fst_conv)
qed

theorem replies_are_per_operator_witness:
  "op_sub ex_operator = op_sub (ex_operator\<lparr>op_role := ''viewer''\<rparr>)"
  using replies_are_per_operator [OF ex_body_parsed ex_body_parsed, of ex_operator "ex_operator\<lparr>op_role := ''viewer''\<rparr>"]
  by (simp add: reply_key_def)

definition ex_auth :: authenticator where
  "ex_auth = \<lparr>au_secret = ''k'', au_issuer = Some ''i'', au_audience = Some ''a'', au_service_token = Some ''svc''\<rparr>"

definition ex_decode :: jwt_decode where
  "ex_decode token secret issuer audience =
     (if token = ''tok'' \<and> secret = ''k'' then Inr [(''sub'', JvStr ''ann''), (''role'', JvStr ''approver''),
        (''amr'', JvArr [JvStr ''pwd'', JvStr ''mfa''])] else Inl ''InvalidSignatureError'')"

definition ex_call :: http_call where
  "ex_call = \<lparr>hc_path = ''/v1/holds/h1/decisions'', hc_status = None,
     hc_headers = [''Authorization'' \<mapsto> ''Bearer tok'', ''X-Service-Token'' \<mapsto> ''svc'',
       ''Content-Type'' \<mapsto> ''application/json; charset=utf-8'', ''Content-Length'' \<mapsto> ''99''],
     hc_body = Some ex_body\<rparr>"

theorem only_authenticated_operators_act_witness:
  "\<exists>reply t claims. do_POST ex_auth ex_decode (\<lambda>v. []) ex_hitl_world ex_policy ex_call HitlService_new = (reply, t)
     \<and> hs_effects t \<noteq> [] \<and> (\<exists>tk. ex_decode tk ''k'' (Some ''i'') (Some ''a'') = Inr claims)"
proof -
  obtain reply t where d: "do_POST ex_auth ex_decode (\<lambda>v. []) ex_hitl_world ex_policy ex_call HitlService_new
      = (reply, t)" by fastforce
  have "length (hs_effects (snd (do_POST ex_auth ex_decode (\<lambda>v. []) ex_hitl_world ex_policy ex_call HitlService_new))) = 4"
    by code_simp
  with d have e: "hs_effects t \<noteq> []" by auto
  then have "hs_effects t \<noteq> hs_effects HitlService_new \<or> hs_finals t \<noteq> hs_finals HitlService_new"
    by (simp add: HitlService_new_def)
  from only_authenticated_operators_act [OF d this] d e show ?thesis by (auto simp: ex_auth_def)
qed

definition ex_hitl_env :: env where
  "ex_hitl_env = [''HITL_JWT_SECRET'' \<mapsto> ''0123456789abcdef0123456789abcdef'', ''HITL_JWT_ISSUER'' \<mapsto> ''i'',
     ''HITL_JWT_AUDIENCE'' \<mapsto> ''a'', ''AEGIS_TARGET'' \<mapsto> ''aegis:1'', ''HITL_AEGIS_IDENTITY'' \<mapsto> ''hitl'',
     ''HITL_AEGIS_TLS_CA'' \<mapsto> ''ca'', ''HITL_AEGIS_TLS_CERT'' \<mapsto> ''c'', ''HITL_AEGIS_TLS_KEY'' \<mapsto> ''k'',
     ''MOTOR_TARGET'' \<mapsto> ''motor:1'', ''HITL_MOTOR_TLS_CA'' \<mapsto> ''ca'', ''HITL_MOTOR_TLS_CERT'' \<mapsto> ''c'',
     ''HITL_MOTOR_TLS_KEY'' \<mapsto> ''k'', ''HITL_BACKEND_LISTEN'' \<mapsto> ''[::1]:80'']"

theorem production_releases_nothing_witness:
  "\<exists>c. Settings_from_env ex_hitl_env = Inr c \<and> list_all no_approval
     (hs_effects (hitl_run ex_hitl_world (policy_of c) [Decide ex_operator ''h1'' ex_body] HitlService_new))"
proof -
  have "case Settings_from_env ex_hitl_env of Inr c \<Rightarrow> st_production c \<and> st_listen_host c = ''::1'' | Inl e \<Rightarrow> False"
    by code_simp
  then obtain c where c: "Settings_from_env ex_hitl_env = Inr c" "st_production c" by (auto split: sum.splits)
  from production_releases_nothing [OF c] c show ?thesis by blast
qed

text \<open>
  A replay whose audit record cannot be written raises out of \<open>decide\<close>, although the request has
  the right shape.
\<close>

lemma unaudited_replay_raises:
  "isl (fst (decide (ex_hitl_world\<lparr>hw_audit := (\<lambda>n. n < 6)\<rparr>) ex_policy ex_operator ''h1'' ex_body (snd ex_decided)))
   \<and> \<not> isl (parse_body ex_body) \<and> re_hold_id ''h1''"
  by code_simp

end
