(* ===== verification/Audit_Log.thy ===== *)
theory Audit_Log
  imports Json
begin

text \<open>
  The audit log (\<open>zone-c/audit-logger/afe_audit\<close>): canonical records and their hashes
  (\<open>canonical.py\<close>), events and rows (\<open>models.py\<close>), the appending logger (\<open>logger.py\<close>), the
  independent chain verifier (\<open>verifier.py\<close>) and the anchors published outside the database
  (\<open>anchor.py\<close>).

  The hash function is a parameter \<open>sha\<close> from bytes to the text of the hex digest. The table is the
  list of its rows; a database call that raises is the value \<open>Inl\<close>. The transaction of an append
  either commits, fails before the commit, or loses its connection while committing, with or without
  the row. A timezone-aware \<open>datetime\<close> is the record of its UTC fields. Payload values are those of
  JSON; Python objects that are no JSON value are refused by \<open>_normalise\<close> and not represented. The
  anchor file is the list of its lines, or absent; the expected and actual values of a break are kept
  as JSON values, of which the code keeps the printed form.
\<close>

section \<open>Canonical texts\<close>

abbreviation AuditValidationError :: "pystr \<Rightarrow> exc" where
  "AuditValidationError msg \<equiv> Exc ''AuditValidationError'' msg"

abbreviation AuditWriteError :: "pystr \<Rightarrow> exc" where
  "AuditWriteError msg \<equiv> Exc ''AuditWriteError'' msg"

definition AUDIT_GENESIS_HASH :: pystr where
  "AUDIT_GENESIS_HASH = replicate 64 (CHR ''0'')"

definition has_nul :: "pystr \<Rightarrow> bool" where
  "has_nul s \<longleftrightarrow> CHR 0x00 \<in> set s"

definition check_string :: "pystr \<Rightarrow> exc + pystr" where
  "check_string s = (if has_nul s then Inl (AuditValidationError ''string contains NUL'') else Inr s)"

lemma rmap_cong [fundef_cong]:
  "xs = ys \<Longrightarrow> (\<And>x. x \<in> set ys \<Longrightarrow> f x = g x) \<Longrightarrow> rmap f xs = rmap g ys"
proof (induction xs arbitrary: ys)
  case (Cons x xs)
  have "rmap f xs = rmap g xs" using Cons.IH [of xs] Cons.prems by auto
  then show ?case using Cons.prems by auto
qed simp

definition MAX_DEPTH :: nat where
  "MAX_DEPTH = 32"

fun normalise :: "nat \<Rightarrow> jv \<Rightarrow> exc + jv" where
  "normalise depth v =
     (if MAX_DEPTH < depth then Inl (AuditValidationError ''payload nesting depth exceeds 32'')
      else case v of
        JvInt i \<Rightarrow>
          if - (2 ^ 63) \<le> i \<and> i \<le> 2 ^ 63 - 1 then Inr v
          else Inl (AuditValidationError ''integer outside the int64 range'')
      | JvDec x \<Rightarrow> Inl (AuditValidationError ''float values are not allowed'')
      | JFloat \<Rightarrow> Inl (AuditValidationError ''float values are not allowed'')
      | JvStr s \<Rightarrow> rbind (check_string s) (\<lambda>s'. Inr (JvStr s'))
      | JvObj kvs \<Rightarrow>
          rbind (rmap (\<lambda>kv. rbind (check_string (fst kv)) (\<lambda>k.
              rbind (normalise (Suc depth) (snd kv)) (\<lambda>x. Inr (k, x)))) kvs) (\<lambda>out. Inr (JvObj out))
      | JvArr vs \<Rightarrow> rbind (rmap (\<lambda>x. normalise (Suc depth) x) vs) (\<lambda>out. Inr (JvArr out))
      | _ \<Rightarrow> Inr v)"

declare normalise.simps [simp del]

definition MAX_CANONICAL_BYTES :: int where
  "MAX_CANONICAL_BYTES = 1048576"

definition canonical_json :: "jv \<Rightarrow> exc + pystr" where
  "canonical_json v =
     rbind (normalise 0 v) (\<lambda>n. let text = dumps n in
       if MAX_CANONICAL_BYTES < int (length text)
       then Inl (AuditValidationError ''canonical form exceeds 1048576 bytes'') else Inr text)"

record moment =
  mo_year :: nat
  mo_month :: nat
  mo_day :: nat
  mo_hour :: nat
  mo_minute :: nat
  mo_second :: nat
  mo_micro :: nat

definition zero_pad :: "nat \<Rightarrow> nat \<Rightarrow> pystr" where
  "zero_pad k n = replicate (k - length (nat_str n)) (CHR ''0'') @ nat_str n"

definition format_timestamp :: "moment \<Rightarrow> pystr" where
  "format_timestamp m =
     nat_str (mo_year m) @ ''-'' @ zero_pad 2 (mo_month m) @ ''-'' @ zero_pad 2 (mo_day m) @ ''T''
     @ zero_pad 2 (mo_hour m) @ '':'' @ zero_pad 2 (mo_minute m) @ '':'' @ zero_pad 2 (mo_second m)
     @ ''.'' @ zero_pad 6 (mo_micro m) @ ''Z''"

text \<open>\<open>_HASH_RE.match\<close>: the final \<open>$\<close> also matches before one trailing line feed.\<close>

definition is_lower_hex :: "char \<Rightarrow> bool" where
  "is_lower_hex c \<longleftrightarrow> is_digit_ascii c \<or> (let n = of_char c :: int in 97 \<le> n \<and> n \<le> 102)"

definition re_hash :: "pystr \<Rightarrow> bool" where
  "re_hash s \<longleftrightarrow> list_all is_lower_hex (take 64 s) \<and> (length s = 64 \<or> (length s = 65 \<and> last s = LF))"

definition record_document :: "int \<Rightarrow> moment \<Rightarrow> pystr \<Rightarrow> pystr \<Rightarrow> jv \<Rightarrow> pystr \<Rightarrow> jv" where
  "record_document seq occurred_at event_type actor payload prev_hash =
     JvObj [(''v'', JvInt 1), (''seq'', JvInt seq), (''occurred_at'', JvStr (format_timestamp occurred_at)),
       (''event_type'', JvStr event_type), (''actor'', JvStr actor), (''payload'', payload),
       (''prev_hash'', JvStr prev_hash)]"

definition build_canonical :: "int \<Rightarrow> moment \<Rightarrow> pystr \<Rightarrow> pystr \<Rightarrow> jv \<Rightarrow> pystr \<Rightarrow> exc + pystr" where
  "build_canonical seq occurred_at event_type actor payload prev_hash =
     (if seq < 1 then Inl (AuditValidationError ''seq must be >= 1'')
      else if event_type = [] then Inl (AuditValidationError ''event_type must be non-empty'')
      else if actor = [] then Inl (AuditValidationError ''actor must be non-empty'')
      else if \<not> re_hash prev_hash
      then Inl (AuditValidationError ''prev_hash must be 64 lowercase hex characters'')
      else canonical_json (record_document seq occurred_at event_type actor payload prev_hash))"

type_synonym sha = "bytes \<Rightarrow> pystr"

definition hash_canonical :: "sha \<Rightarrow> pystr \<Rightarrow> pystr" where
  "hash_canonical sha canonical = sha (utf8 canonical)"

section \<open>Events and rows\<close>

definition check_label :: "pystr \<Rightarrow> pystr \<Rightarrow> exc + unit" where
  "check_label name v =
     (if py_strip v = [] then Inl (AuditValidationError (name @ '' must be a non-empty string''))
      else if 200 < length v then Inl (AuditValidationError (name @ '' exceeds 200 characters''))
      else if has_nul v then Inl (AuditValidationError (name @ '' contains NUL''))
      else Inr ())"

record log_event =
  ae_type :: pystr
  ae_actor :: pystr
  ae_payload :: jv

text \<open>The payload is frozen: it is what reading its canonical text gives.\<close>

definition AuditEvent_new :: "pystr \<Rightarrow> pystr \<Rightarrow> jv \<Rightarrow> exc + log_event" where
  "AuditEvent_new event_type actor payload =
     rbind (check_label ''event_type'' event_type) (\<lambda>_.
     rbind (check_label ''actor'' actor) (\<lambda>_.
     case payload of JvObj kvs \<Rightarrow>
         rbind (canonical_json payload) (\<lambda>frozen.
         case loads_text frozen of
           None \<Rightarrow> Inl (Exc ''JSONDecodeError'' [])
         | Some v \<Rightarrow> Inr \<lparr>ae_type = event_type, ae_actor = actor, ae_payload = v\<rparr>)
     | _ \<Rightarrow> Inl (AuditValidationError ''payload must be a mapping'')))"

record audit_row =
  aw_seq :: int
  aw_occurred_at :: moment
  aw_type :: pystr
  aw_actor :: pystr
  aw_payload :: jv
  aw_canonical :: pystr
  aw_prev_hash :: pystr
  aw_hash :: pystr

definition by_seq :: "audit_row list \<Rightarrow> audit_row list" where
  "by_seq rows = sort_key aw_seq rows"

definition head_of :: "audit_row list \<Rightarrow> (int \<times> pystr) option" where
  "head_of rows =
     (if rows = [] then None else Some (aw_seq (last (by_seq rows)), aw_hash (last (by_seq rows))))"

section \<open>Appending\<close>

datatype txn = Commits | FailsBefore pystr | LosesCommit bool pystr

definition append_in_txn :: "sha \<Rightarrow> moment \<Rightarrow> log_event \<Rightarrow> audit_row list \<Rightarrow> exc + audit_row" where
  "append_in_txn sha now ev rows =
     (let (seq, prev) = (case head_of rows of None \<Rightarrow> (1, AUDIT_GENESIS_HASH) | Some (sq, h) \<Rightarrow> (sq + 1, h))
      in rbind (build_canonical seq now (ae_type ev) (ae_actor ev) (ae_payload ev) prev) (\<lambda>canonical.
         Inr \<lparr>aw_seq = seq, aw_occurred_at = now, aw_type = ae_type ev, aw_actor = ae_actor ev,
              aw_payload = ae_payload ev, aw_canonical = canonical, aw_prev_hash = prev,
              aw_hash = hash_canonical sha canonical\<rparr>))"

definition append_event ::
  "sha \<Rightarrow> txn \<Rightarrow> moment \<Rightarrow> log_event \<Rightarrow> audit_row list \<Rightarrow> (exc + audit_row) \<times> audit_row list" where
  "append_event sha x now ev rows =
     (case x of
        FailsBefore e \<Rightarrow> (Inl (AuditWriteError e), rows)
      | _ \<Rightarrow>
          (case append_in_txn sha now ev rows of
             Inl e \<Rightarrow> (Inl e, rows)
           | Inr row \<Rightarrow>
               (case x of LosesCommit there e \<Rightarrow>
                    (Inl (AuditWriteError e), if there then rows @ [row] else rows)
                | _ \<Rightarrow> (Inr row, rows @ [row]))))"

definition record_event ::
  "sha \<Rightarrow> txn \<Rightarrow> moment \<Rightarrow> pystr \<Rightarrow> pystr \<Rightarrow> jv \<Rightarrow> audit_row list \<Rightarrow> (exc + audit_row) \<times> audit_row list" where
  "record_event sha x now event_type actor payload rows =
     (case AuditEvent_new event_type actor payload of
        Inl e \<Rightarrow> (Inl e, rows)
      | Inr ev \<Rightarrow> append_event sha x now ev rows)"

section \<open>Verification\<close>

text \<open>
  Python's equality of JSON values: dicts ignore order, \<open>True == 1\<close> and \<open>1.0 == 1\<close>. (A NaN is not
  equal to itself in Python; a document with one is refused either way.)
\<close>

fun cmp_form :: "jv \<Rightarrow> jv" where
  "cmp_form (JvBool b) = JvInt (if b then 1 else 0)"
| "cmp_form (JvDec x) = (if of_int \<lfloor>x\<rfloor> = x then JvInt \<lfloor>x\<rfloor> else JvDec x)"
| "cmp_form (JvArr vs) = JvArr (map cmp_form vs)"
| "cmp_form (JvObj kvs) = JvObj (sort_key fst (map (\<lambda>kv. (fst kv, cmp_form (snd kv))) kvs))"
| "cmp_form v = v"

definition py_eq :: "jv \<Rightarrow> jv \<Rightarrow> bool" where
  "py_eq a b \<longleftrightarrow> cmp_form a = cmp_form b"

definition recanonicalise :: "jv \<Rightarrow> pystr option" where
  "recanonicalise doc = (case canonical_json doc of Inl e \<Rightarrow> None | Inr t \<Rightarrow> Some t)"

fun first_mismatch :: "(pystr \<times> jv \<times> jv) list \<Rightarrow> (pystr \<times> jv option \<times> jv option) option" where
  "first_mismatch [] = None"
| "first_mismatch ((defect, a, b) # rest) =
     (if \<not> py_eq a b then Some (defect, Some a, Some b) else first_mismatch rest)"

definition row_defect ::
  "sha \<Rightarrow> audit_row \<Rightarrow> pystr \<Rightarrow> (pystr \<times> jv option \<times> jv option) option" where
  "row_defect sha row expected_prev =
     (if aw_hash row \<noteq> hash_canonical sha (aw_canonical row)
      then Some (''hash_mismatch'', Some (JvStr (hash_canonical sha (aw_canonical row))), Some (JvStr (aw_hash row)))
      else case loads_text (aw_canonical row) of
        Some (JvObj doc) \<Rightarrow>
          if aw_prev_hash row \<noteq> expected_prev
          then Some (''prev_hash_link_broken'', Some (JvStr expected_prev), Some (JvStr (aw_prev_hash row)))
          else (case first_mismatch
              [(''canonical_prev_hash_mismatch'', jget doc ''prev_hash'', JvStr (aw_prev_hash row)),
               (''seq_mismatch'', jget doc ''seq'', JvInt (aw_seq row)),
               (''event_type_mismatch'', jget doc ''event_type'', JvStr (aw_type row)),
               (''actor_mismatch'', jget doc ''actor'', JvStr (aw_actor row)),
               (''payload_mismatch'', jget doc ''payload'', aw_payload row),
               (''timestamp_mismatch'', jget doc ''occurred_at'', JvStr (format_timestamp (aw_occurred_at row)))] of
             Some d \<Rightarrow> Some d
           | None \<Rightarrow> if recanonicalise (JvObj doc) \<noteq> Some (aw_canonical row)
                     then Some (''non_canonical_serialization'', None, None) else None)
      | _ \<Rightarrow> Some (''canonical_unparseable'', None, None))"

record chain_break =
  cb_seq :: int
  cb_defect :: pystr
  cb_expected :: "jv option"
  cb_actual :: "jv option"

record verification_result =
  vr_ok :: bool
  vr_rows_checked :: nat
  vr_first_break :: "chain_break option"
  vr_head_seq :: int
  vr_head_hash :: pystr

fun walk_rows :: "sha \<Rightarrow> nat \<Rightarrow> int \<Rightarrow> pystr \<Rightarrow> audit_row list \<Rightarrow> verification_result" where
  "walk_rows sha checked p_seq p_hash [] =
     \<lparr>vr_ok = True, vr_rows_checked = checked, vr_first_break = None, vr_head_seq = p_seq, vr_head_hash = p_hash\<rparr>"
| "walk_rows sha checked p_seq p_hash (row # rows) =
     (let broken = (\<lambda>d. \<lparr>vr_ok = False, vr_rows_checked = Suc checked,
            vr_first_break = Some \<lparr>cb_seq = aw_seq row, cb_defect = fst d, cb_expected = fst (snd d), cb_actual = snd (snd d)\<rparr>,
            vr_head_seq = p_seq, vr_head_hash = p_hash\<rparr>)
      in if aw_seq row \<noteq> p_seq + 1
         then broken (''seq_gap'', Some (JvInt (p_seq + 1)), Some (JvInt (aw_seq row)))
         else case row_defect sha row p_hash of
           Some d \<Rightarrow> broken d
         | None \<Rightarrow> walk_rows sha (Suc checked) (aw_seq row) (aw_hash row) rows)"

definition predecessor :: "audit_row list \<Rightarrow> int option \<Rightarrow> int \<times> pystr" where
  "predecessor rows lo =
     (case lo of None \<Rightarrow> (0, AUDIT_GENESIS_HASH)
      | Some l \<Rightarrow> (case head_of (filter (\<lambda>r. aw_seq r < l) rows) of
           None \<Rightarrow> (0, AUDIT_GENESIS_HASH) | Some h \<Rightarrow> h))"

definition iter_rows :: "audit_row list \<Rightarrow> int option \<Rightarrow> int option \<Rightarrow> audit_row list" where
  "iter_rows rows lo hi =
     by_seq (filter (\<lambda>r. (case lo of None \<Rightarrow> True | Some l \<Rightarrow> l \<le> aw_seq r)
       \<and> (case hi of None \<Rightarrow> True | Some h \<Rightarrow> aw_seq r \<le> h)) rows)"

type_synonym db = "pystr + audit_row list"

definition verify_chain :: "sha \<Rightarrow> db \<Rightarrow> int option \<Rightarrow> int option \<Rightarrow> exc + verification_result" where
  "verify_chain sha db lo hi =
     (case db of Inl e \<Rightarrow> Inl (AuditWriteError (''cannot read audit chain: '' @ e))
      | Inr rows \<Rightarrow> (case predecessor rows lo of (p_seq, p_hash) \<Rightarrow>
          Inr (walk_rows sha 0 p_seq p_hash (iter_rows rows lo hi))))"

definition verifier_head :: "db \<Rightarrow> exc + (int \<times> pystr) option" where
  "verifier_head db =
     (case db of Inl e \<Rightarrow> Inl (AuditWriteError (''cannot read audit head: '' @ e))
      | Inr rows \<Rightarrow> Inr (head_of rows))"

section \<open>Anchors\<close>

record anchor =
  an_seq :: int
  an_hash :: pystr
  an_emitted_at :: pystr

definition hash_at :: "audit_row list \<Rightarrow> int \<Rightarrow> pystr option" where
  "hash_at rows n = map_option aw_hash (find (\<lambda>r. aw_seq r = n) rows)"

definition anchor_break :: "audit_row list \<Rightarrow> anchor \<Rightarrow> chain_break list" where
  "anchor_break rows a =
     (case hash_at rows (an_seq a) of
        None \<Rightarrow> [\<lparr>cb_seq = an_seq a, cb_defect = ''anchor_row_missing'',
                 cb_expected = Some (JvStr (an_hash a)), cb_actual = None\<rparr>]
      | Some h \<Rightarrow>
          if h \<noteq> an_hash a
          then [\<lparr>cb_seq = an_seq a, cb_defect = ''anchor_hash_mismatch'',
                 cb_expected = Some (JvStr (an_hash a)), cb_actual = Some (JvStr h)\<rparr>]
          else [])"

definition verify_anchors :: "db \<Rightarrow> anchor list \<Rightarrow> exc + chain_break list" where
  "verify_anchors db anchors =
     (case db of Inl e \<Rightarrow> Inl (AuditWriteError (''cannot verify anchors: '' @ e))
      | Inr rows \<Rightarrow> Inr (concat (map (anchor_break rows) anchors)))"

text \<open>The anchor file: its lines, each linked to the hash of the line before.\<close>

abbreviation AnchorError :: "pystr \<Rightarrow> exc" where
  "AnchorError msg \<equiv> Exc ''AnchorError'' msg"

text \<open>\<open>int(v)\<close> and \<open>str(v)\<close> of a JSON value; \<open>str_of\<close> prints what is no string.\<close>

fun int_of_jv :: "jv \<Rightarrow> int option" where
  "int_of_jv (JvInt i) = Some i"
| "int_of_jv (JvBool b) = Some (if b then 1 else 0)"
| "int_of_jv (JvDec x) = Some (if x < 0 then \<lceil>x\<rceil> else \<lfloor>x\<rfloor>)"
| "int_of_jv (JvStr s) = py_int s"
| "int_of_jv _ = None"

definition str_of_jv :: "(jv \<Rightarrow> pystr) \<Rightarrow> jv \<Rightarrow> pystr" where
  "str_of_jv str_of v = (case v of JvStr s \<Rightarrow> s | _ \<Rightarrow> str_of v)"

definition read_anchor :: "(jv \<Rightarrow> pystr) \<Rightarrow> pystr \<Rightarrow> (anchor \<times> jv) option" where
  "read_anchor str_of line =
     (case loads_text line of
        Some (JvObj doc) \<Rightarrow>
          (case (map_of doc ''seq'', map_of doc ''hash'', map_of doc ''emitted_at'', map_of doc ''prev_line'') of
             (Some q, Some h, Some e, Some p) \<Rightarrow>
               map_option (\<lambda>i. (\<lparr>an_seq = i, an_hash = str_of_jv str_of h, an_emitted_at = str_of_jv str_of e\<rparr>, p))
                 (int_of_jv q)
           | _ \<Rightarrow> None)
      | _ \<Rightarrow> None)"

fun read_lines :: "sha \<Rightarrow> (jv \<Rightarrow> pystr) \<Rightarrow> pystr \<Rightarrow> pystr list \<Rightarrow> exc + anchor list" where
  "read_lines sha str_of prev [] = Inr []"
| "read_lines sha str_of prev (line # rest) =
     (case read_anchor str_of line of
        None \<Rightarrow> Inl (AnchorError ''anchor file line is malformed'')
      | Some (a, linked) \<Rightarrow>
          if \<not> py_eq linked (JvStr prev) then Inl (AnchorError ''anchor file line breaks the line-hash chain'')
          else rbind (read_lines sha str_of (sha (utf8 line)) rest) (\<lambda>as. Inr (a # as)))"

definition read_all :: "sha \<Rightarrow> (jv \<Rightarrow> pystr) \<Rightarrow> pystr list option \<Rightarrow> exc + anchor list" where
  "read_all sha str_of file =
     (case file of None \<Rightarrow> Inr [] | Some ls \<Rightarrow> read_lines sha str_of AUDIT_GENESIS_HASH ls)"

definition last_line_hash :: "sha \<Rightarrow> (jv \<Rightarrow> pystr) \<Rightarrow> pystr list option \<Rightarrow> exc + pystr" where
  "last_line_hash sha str_of file =
     rbind (read_all sha str_of file) (\<lambda>as.
       case file of None \<Rightarrow> Inr AUDIT_GENESIS_HASH
       | Some ls \<Rightarrow> if as = [] then Inr AUDIT_GENESIS_HASH else Inr (sha (utf8 (last ls))))"

definition anchor_line :: "anchor \<Rightarrow> pystr \<Rightarrow> pystr" where
  "anchor_line a previous = dumps (JvObj [(''seq'', JvInt (an_seq a)), (''hash'', JvStr (an_hash a)),
     (''emitted_at'', JvStr (an_emitted_at a)), (''prev_line'', JvStr previous)])"

text \<open>The write and the sync of a line: both succeed, nothing is written, or the sync fails after it.\<close>

datatype line_write = LineWritten | LineRefused | LineUnsynced

definition emit_anchor ::
  "sha \<Rightarrow> (jv \<Rightarrow> pystr) \<Rightarrow> line_write \<Rightarrow> anchor \<Rightarrow> pystr list option \<Rightarrow> (exc + unit) \<times> pystr list option" where
  "emit_anchor sha str_of disk a file =
     (case last_line_hash sha str_of file of
        Inl e \<Rightarrow> (Inl e, file)
      | Inr previous \<Rightarrow>
          let extended = Some ((case file of None \<Rightarrow> [] | Some ls \<Rightarrow> ls) @ [anchor_line a previous])
          in (case disk of LineWritten \<Rightarrow> (Inr (), extended)
              | LineRefused \<Rightarrow> (Inl (AnchorError ''cannot write anchor file''), file)
              | LineUnsynced \<Rightarrow> (Inl (AnchorError ''cannot write anchor file''), extended)))"

definition publish ::
  "sha \<Rightarrow> (jv \<Rightarrow> pystr) \<Rightarrow> line_write \<Rightarrow> moment \<Rightarrow> db \<Rightarrow> pystr list option
     \<Rightarrow> (exc + anchor option) \<times> pystr list option" where
  "publish sha str_of disk now db file =
     (case verifier_head db of
        Inl e \<Rightarrow> (Inl e, file)
      | Inr None \<Rightarrow> (Inr None, file)
      | Inr (Some (sq, h)) \<Rightarrow>
          let a = \<lparr>an_seq = sq, an_hash = h, an_emitted_at = format_timestamp now\<rparr>
          in (case emit_anchor sha str_of disk a file of
                (Inl e, f) \<Rightarrow> (Inl e, f) | (Inr _, f) \<Rightarrow> (Inr (Some a), f)))"

text \<open>
  \<open>run_periodic\<close>: one entry per round begun before the stop event was seen, with what the disk, the
  clock and the database do in it.
\<close>

fun publish_rounds ::
  "sha \<Rightarrow> (jv \<Rightarrow> pystr) \<Rightarrow> int option \<Rightarrow> int \<Rightarrow> (line_write \<times> moment \<times> db) list \<Rightarrow> pystr list option
     \<Rightarrow> (exc + int) \<times> pystr list option" where
  "publish_rounds sha str_of max_iterations count [] file = (Inr count, file)"
| "publish_rounds sha str_of max_iterations count ((disk, now, db) # rounds) file =
     (case publish sha str_of disk now db file of
        (Inl e, file') \<Rightarrow> (Inl e, file')
      | (Inr _, file') \<Rightarrow>
          if (case max_iterations of None \<Rightarrow> False | Some m \<Rightarrow> m \<le> count + 1) then (Inr (count + 1), file')
          else publish_rounds sha str_of max_iterations (count + 1) rounds file')"

definition run_periodic ::
  "sha \<Rightarrow> (jv \<Rightarrow> pystr) \<Rightarrow> rat \<Rightarrow> int option \<Rightarrow> (line_write \<times> moment \<times> db) list \<Rightarrow> pystr list option
     \<Rightarrow> (exc + int) \<times> pystr list option" where
  "run_periodic sha str_of interval_s max_iterations rounds file =
     (if interval_s \<le> 0 then (Inl (Exc ''ValueError'' ''interval_s must be positive''), file)
      else publish_rounds sha str_of max_iterations 0 rounds file)"

end
