(* ===== verification/Audit_Log_Properties.thy ===== *)
theory Audit_Log_Properties
  imports Audit_Log
begin

text \<open>
  The properties of the audit log: canonical texts are read back as what was written; a table filled
  by the logger verifies, whatever transactions failed in between; and two tables that verify and
  end in the same hash tell the same story (tamper evidence), also up to a published anchor.
\<close>

section \<open>Canonical texts\<close>

text \<open>What \<open>_normalise\<close> accepts; it returns it unchanged.\<close>

fun plain :: "nat \<Rightarrow> jv \<Rightarrow> bool" where
  "plain d (JvInt i) \<longleftrightarrow> d \<le> MAX_DEPTH \<and> - (2 ^ 63) \<le> i \<and> i \<le> 2 ^ 63 - 1"
| "plain d (JvStr s) \<longleftrightarrow> d \<le> MAX_DEPTH \<and> \<not> has_nul s"
| "plain d (JvArr vs) \<longleftrightarrow> d \<le> MAX_DEPTH \<and> list_all (plain (Suc d)) vs"
| "plain d (JvObj kvs) \<longleftrightarrow> d \<le> MAX_DEPTH \<and> list_all (\<lambda>kv. \<not> has_nul (fst kv) \<and> plain (Suc d) (snd kv)) kvs"
| "plain d (JvDec x) \<longleftrightarrow> False"
| "plain d JFloat \<longleftrightarrow> False"
| "plain d v \<longleftrightarrow> d \<le> MAX_DEPTH"

lemma rmap_id_iff:
  assumes "\<And>x y. x \<in> set xs \<Longrightarrow> f x = Inr y \<longleftrightarrow> P x \<and> y = x"
  shows "rmap f xs = Inr ys \<longleftrightarrow> list_all P xs \<and> ys = xs"
  using assms
proof (induction xs arbitrary: ys)
  case (Cons x xs)
  have "rmap f xs = Inr zs \<longleftrightarrow> list_all P xs \<and> zs = xs" for zs using Cons by simp
  then show ?case using Cons.prems [of x] by (auto simp: rbind_eq_Inr)
qed auto

lemma normalise_iff: "normalise d v = Inr n \<longleftrightarrow> plain d v \<and> n = v"
proof (induction v arbitrary: d n)
  case (JvArr vs)
  have "rmap (normalise (Suc d)) vs = Inr ys \<longleftrightarrow> list_all (plain (Suc d)) vs \<and> ys = vs" for ys
    using JvArr by (intro rmap_id_iff) blast
  then show ?case by (auto simp: normalise.simps [of d] rbind_eq_Inr)
next
  case (JvObj kvs)
  have "rmap (\<lambda>kv. rbind (check_string (fst kv)) (\<lambda>k.
          rbind (normalise (Suc d) (snd kv)) (\<lambda>x. Inr (k, x)))) kvs = Inr ys
      \<longleftrightarrow> list_all (\<lambda>kv. \<not> has_nul (fst kv) \<and> plain (Suc d) (snd kv)) kvs \<and> ys = kvs" for ys
  proof (rule rmap_id_iff)
    fix kv y assume "kv \<in> set kvs"
    then have "normalise (Suc d) (snd kv) = Inr m \<longleftrightarrow> plain (Suc d) (snd kv) \<and> m = snd kv" for m
      using JvObj by (metis snds.intros prod.collapse)
    then show "rbind (check_string (fst kv)) (\<lambda>k. rbind (normalise (Suc d) (snd kv)) (\<lambda>x. Inr (k, x))) = Inr y
        \<longleftrightarrow> (\<not> has_nul (fst kv) \<and> plain (Suc d) (snd kv)) \<and> y = kv"
      by (auto simp: check_string_def rbind_eq_Inr)
  qed
  then show ?case by (auto simp: normalise.simps [of d] rbind_eq_Inr)
next
  case (JvStr s)
  then show ?case by (auto simp: normalise.simps [of d] check_string_def)
next
  case (JvInt i)
  then show ?case by (auto simp: normalise.simps [of d] split: if_splits)
next
  case (JvBool b)
  then show ?case by (auto simp: normalise.simps [of d])
next
  case JvNull
  then show ?case by (auto simp: normalise.simps [of d])
next
  case (JvDec x)
  then show ?case by (auto simp: normalise.simps [of d])
next
  case JFloat
  then show ?case by (auto simp: normalise.simps [of d])
qed

text \<open>A value whose dicts have distinct keys, as every dict has.\<close>

fun dicts_ok :: "jv \<Rightarrow> bool" where
  "dicts_ok (JvArr vs) \<longleftrightarrow> list_all dicts_ok vs"
| "dicts_ok (JvObj kvs) \<longleftrightarrow> distinct (map fst kvs) \<and> list_all (\<lambda>kv. dicts_ok (snd kv)) kvs"
| "dicts_ok v \<longleftrightarrow> True"

lemma plain_printable: "plain d v \<Longrightarrow> dicts_ok v \<Longrightarrow> printable v"
proof (induction v arbitrary: d)
  case (JvObj kvs)
  then show ?case by (auto simp: list_all_iff) (metis prod.collapse snds.intros snd_conv)
qed (auto simp: list_all_iff)

lemma plain_sort_obj: "plain d v \<Longrightarrow> plain d (sort_obj v)"
proof (induction v arbitrary: d)
  case (JvObj kvs)
  then show ?case by (auto simp: list_all_iff snds.simps)
qed (auto simp: list_all_iff)

lemma canonical_json_Inr:
  "canonical_json v = Inr t \<longleftrightarrow> plain 0 v \<and> t = dumps v \<and> int (length t) \<le> MAX_CANONICAL_BYTES"
proof -
  have "canonical_json v = Inr t \<longleftrightarrow> (\<exists>n. normalise 0 v = Inr n \<and> \<not> MAX_CANONICAL_BYTES < int (length (dumps n))
      \<and> t = dumps n)"
    by (auto simp: canonical_json_def rbind_eq_Inr Let_def split: if_splits)
  then show ?thesis by (auto simp: normalise_iff)
qed

lemma canonical_text_read_back:
  assumes "canonical_json v = Inr text" "dicts_ok v"
  shows "loads_text text = Some (sort_obj v) \<and> canonical_json (sort_obj v) = Inr text"
proof -
  have v: "plain 0 v" "text = dumps v" "int (length text) \<le> MAX_CANONICAL_BYTES"
    using assms(1) unfolding canonical_json_Inr by blast+
  then have "loads_text text = Some (sort_obj v)"
    using loads_dumps_sorted plain_printable assms(2) by blast
  moreover have "canonical_json (sort_obj v) = Inr text"
    using v plain_sort_obj [of 0 v] by (simp add: canonical_json_Inr dumps_sort_obj)
  ultimately show ?thesis by simp
qed

text \<open>
  A canonical text is read back as the value it was made from, up to the order of the keys, and
  the read value has the same canonical text again; so two payloads with one canonical text are the
  same up to the order of their keys.
\<close>

theorem canonical_text_round_trip:
  assumes "canonical_json v = Inr text" "dicts_ok v"
  shows "loads_text text = Some (sort_obj v) \<and> canonical_json (sort_obj v) = Inr text
     \<and> (\<forall>w. canonical_json w = Inr text \<and> dicts_ok w \<longrightarrow> sort_obj w = sort_obj v)"
  using canonical_text_read_back [OF assms] canonical_text_read_back by fastforce

section \<open>Chains that verify\<close>

text \<open>The walk without its bookkeeping.\<close>

fun linked :: "sha \<Rightarrow> int \<Rightarrow> pystr \<Rightarrow> audit_row list \<Rightarrow> bool" where
  "linked sha p_seq p_hash [] \<longleftrightarrow> True"
| "linked sha p_seq p_hash (row # rows) \<longleftrightarrow> aw_seq row = p_seq + 1 \<and> row_defect sha row p_hash = None
     \<and> linked sha (aw_seq row) (aw_hash row) rows"

lemma walk_rows_linked:
  "vr_ok (walk_rows sha k p_seq p_hash rows) \<longleftrightarrow> linked sha p_seq p_hash rows"
  "linked sha p_seq p_hash rows \<Longrightarrow> walk_rows sha k p_seq p_hash rows =
     \<lparr>vr_ok = True, vr_rows_checked = k + length rows, vr_first_break = None,
      vr_head_seq = (if rows = [] then p_seq else aw_seq (last rows)),
      vr_head_hash = (if rows = [] then p_hash else aw_hash (last rows))\<rparr>"
  by (induction rows arbitrary: k p_seq p_hash) (auto split: option.split)

lemma linked_append:
  "linked sha p_seq p_hash (xs @ ys) \<longleftrightarrow> linked sha p_seq p_hash xs
     \<and> linked sha (if xs = [] then p_seq else aw_seq (last xs)) (if xs = [] then p_hash else aw_hash (last xs)) ys"
  by (induction xs arbitrary: p_seq p_hash) auto

lemma linked_seqs: "linked sha p_seq p_hash rows \<Longrightarrow> map aw_seq rows = map (\<lambda>i. p_seq + 1 + int i) [0..<length rows]"
proof (induction rows arbitrary: p_seq p_hash)
  case (Cons row rows)
  then have "map aw_seq rows = map (\<lambda>i. p_seq + 2 + int i) [0..<length rows]" by fastforce
  then show ?case using Cons.prems by (simp add: map_upt_Suc comp_def algebra_simps del: upt_Suc)
qed simp

lemma linked_sorted: "linked sha p_seq p_hash rows \<Longrightarrow> by_seq rows = rows"
  unfolding by_seq_def by (rule sort_key_id_if_sorted) (simp add: linked_seqs sorted_map sorted_wrt_map)

text \<open>What a row without a defect says: its columns are those of its canonical text.\<close>

lemma cmp_form_JvStr: "cmp_form v = JvStr s \<longleftrightarrow> v = JvStr s"
  by (cases v) auto

lemma row_defect_None:
  assumes "row_defect sha row prev = None"
  shows "aw_hash row = hash_canonical sha (aw_canonical row) \<and> aw_prev_hash row = prev
     \<and> (\<exists>doc. loads_text (aw_canonical row) = Some (JvObj doc)
          \<and> jget doc ''prev_hash'' = JvStr (aw_prev_hash row) \<and> cmp_form (jget doc ''seq'') = JvInt (aw_seq row)
          \<and> jget doc ''event_type'' = JvStr (aw_type row) \<and> jget doc ''actor'' = JvStr (aw_actor row)
          \<and> py_eq (jget doc ''payload'') (aw_payload row)
          \<and> jget doc ''occurred_at'' = JvStr (format_timestamp (aw_occurred_at row))
          \<and> recanonicalise (JvObj doc) = Some (aw_canonical row))"
proof -
  from assms obtain doc where "loads_text (aw_canonical row) = Some (JvObj doc)"
    by (auto simp: row_defect_def split: if_splits option.splits jv.splits) 
  with assms show ?thesis
    by (auto simp: row_defect_def py_eq_def cmp_form_JvStr split: if_splits option.splits)
qed

text \<open>Two rows tell the same: every column agrees, the payload up to Python's equality.\<close>

definition same_row :: "audit_row \<Rightarrow> audit_row \<Rightarrow> bool" where
  "same_row a b \<longleftrightarrow> aw_seq a = aw_seq b \<and> aw_type a = aw_type b \<and> aw_actor a = aw_actor b
     \<and> aw_canonical a = aw_canonical b \<and> aw_prev_hash a = aw_prev_hash b \<and> aw_hash a = aw_hash b
     \<and> py_eq (aw_payload a) (aw_payload b)
     \<and> format_timestamp (aw_occurred_at a) = format_timestamp (aw_occurred_at b)"

lemma same_text_same_row:
  assumes "row_defect sha a p = None" "row_defect sha b q = None" "aw_canonical a = aw_canonical b"
  shows "same_row a b"
  using row_defect_None [OF assms(1)] row_defect_None [OF assms(2)] assms(3)
  by (auto simp: same_row_def py_eq_def)

text \<open>Two different canonical texts, one in each table, with the same hash.\<close>

definition collision :: "sha \<Rightarrow> audit_row list \<Rightarrow> audit_row list \<Rightarrow> bool" where
  "collision sha xs ys \<longleftrightarrow> (\<exists>x \<in> set xs. \<exists>y \<in> set ys. aw_canonical x \<noteq> aw_canonical y
     \<and> hash_canonical sha (aw_canonical x) = hash_canonical sha (aw_canonical y))"

lemma collision_mono: "set xs \<subseteq> set xs' \<Longrightarrow> set ys \<subseteq> set ys' \<Longrightarrow> collision sha xs ys \<Longrightarrow> collision sha xs' ys'"
  unfolding collision_def by blast

lemma same_head_same_chain:
  assumes "\<not> collision sha xs ys" "linked sha 0 AUDIT_GENESIS_HASH xs" "linked sha 0 AUDIT_GENESIS_HASH ys"
    and "length xs = length ys" "xs \<noteq> [] \<Longrightarrow> aw_hash (last xs) = aw_hash (last ys)"
  shows "list_all2 same_row xs ys"
  using assms
proof (induction xs arbitrary: ys rule: rev_induct)
  case (snoc x xs)
  then obtain y ys' where ys: "ys = ys' @ [y]" by (cases ys rule: rev_cases) auto
  let ?px = "if xs = [] then AUDIT_GENESIS_HASH else aw_hash (last xs)"
  let ?py = "if ys' = [] then AUDIT_GENESIS_HASH else aw_hash (last ys')"
  have dx: "row_defect sha x ?px = None" and dy: "row_defect sha y ?py = None"
    using snoc.prems(2,3) ys by (auto simp: linked_append)
  have "aw_hash x = aw_hash y" using snoc.prems(5) ys by simp
  then have "hash_canonical sha (aw_canonical x) = hash_canonical sha (aw_canonical y)"
    using row_defect_None [OF dx] row_defect_None [OF dy] by metis
  then have "aw_canonical x = aw_canonical y" using snoc.prems(1) ys by (auto simp: collision_def)
  then have same: "same_row x y" using same_text_same_row [OF dx dy] by simp
  then have "?px = ?py" using row_defect_None [OF dx] row_defect_None [OF dy] by (simp only: same_row_def)
  then have "xs \<noteq> [] \<Longrightarrow> aw_hash (last xs) = aw_hash (last ys')"
    using snoc.prems(4) ys by (cases ys') (auto split: if_splits)
  moreover have "\<not> collision sha xs ys'"
    using collision_mono [of xs "xs @ [x]" ys' ys sha] snoc.prems(1) ys by auto
  ultimately have "list_all2 same_row xs ys'"
    using snoc.IH [of ys'] snoc.prems(2-4) ys by (auto simp: linked_append)
  with same ys show ?case by (simp add: list_all2_appendI)
qed simp

lemma iter_rows_all: "iter_rows rows None None = by_seq rows"
  by (simp add: iter_rows_def)

lemma verify_chain_linked:
  assumes "verify_chain sha (Inr rows) None None = Inr v" "vr_ok v"
  shows "linked sha 0 AUDIT_GENESIS_HASH (by_seq rows) \<and> vr_rows_checked v = length rows
     \<and> (rows \<noteq> [] \<longrightarrow> vr_head_seq v = int (length rows) \<and> vr_head_hash v = aw_hash (last (by_seq rows)))"
proof -
  have v: "v = walk_rows sha 0 0 AUDIT_GENESIS_HASH (by_seq rows)"
    using assms(1) by (simp add: verify_chain_def predecessor_def iter_rows_all)
  then have l: "linked sha 0 AUDIT_GENESIS_HASH (by_seq rows)" using assms(2) walk_rows_linked(1) by metis
  have len: "length (by_seq rows) = length rows" "by_seq rows = [] \<longleftrightarrow> rows = []"
    by (auto simp: by_seq_def) (metis length_0_conv length_sort)
  have "aw_seq (last (by_seq rows)) = int (length rows)" if "rows \<noteq> []"
  proof -
    have "last (map aw_seq (by_seq rows)) = int (length rows)"
      unfolding linked_seqs [OF l] using that len by (cases "length rows") (simp_all add: last_map)
    then show ?thesis using that len by (simp add: last_map)
  qed
  then show ?thesis using l len walk_rows_linked(2) [OF l, of 0] v by simp
qed

lemma set_by_seq [simp]: "set (by_seq rows) = set rows"
  by (simp add: by_seq_def)


section \<open>Anchors\<close>

lemma linked_nth_seq: "linked sha 0 p rows \<Longrightarrow> i < length rows \<Longrightarrow> aw_seq (rows ! i) = 1 + int i"
  using arg_cong [OF linked_seqs, of sha 0 p rows "\<lambda>xs. xs ! i"] by simp

lemma matched_anchor_row:
  assumes "verify_anchors (Inr rows) [a] = Inr []"
  obtains r where "r \<in> set rows" "aw_seq r = an_seq a" "aw_hash r = an_hash a"
proof -
  from assms obtain r where "find (\<lambda>r. aw_seq r = an_seq a) rows = Some r" "aw_hash r = an_hash a"
    by (auto simp: verify_anchors_def anchor_break_def hash_at_def split: option.splits if_splits)
  then show thesis using that by (auto simp: find_Some_iff intro: nth_mem)
qed

text \<open>
  An anchor pins the past. If a verified table was published as an anchor (its head), then a
  table that verifies later and still matches the anchor begins with the very rows of the first, or
  the two exhibit a collision of the hash function: neither a truncation nor a consistent rewrite of
  the anchored part goes unnoticed.
\<close>

theorem anchor_pins_history:
  assumes "verify_chain sha (Inr old) None None = Inr v1" "vr_ok v1"
    and "head_of old = Some (an_seq a, an_hash a)"
    and "verify_chain sha (Inr rows) None None = Inr v2" "vr_ok v2" "verify_anchors (Inr rows) [a] = Inr []"
  shows "list_all2 same_row (by_seq old) (take (length old) (by_seq rows)) \<or> collision sha old rows"
proof (rule disjCI)
  assume nc: "\<not> collision sha old rows"
  note l1 = verify_chain_linked [OF assms(1,2)] and l2 = verify_chain_linked [OF assms(4,5)]
  define n where "n = length old"
  have old: "an_hash a = aw_hash (last (by_seq old))" "an_seq a = aw_seq (last (by_seq old))"
    "0 < n" "length (by_seq old) = n"
    using assms(3) by (auto simp: head_of_def n_def by_seq_def split: if_splits)
  have ne: "by_seq old \<noteq> []" using old(3,4) by auto
  have seq: "an_seq a = int n"
    using linked_nth_seq [of sha AUDIT_GENESIS_HASH "by_seq old" "n - 1"] l1 old ne by (simp add: last_conv_nth)
  obtain r where r: "r \<in> set rows" "aw_seq r = an_seq a" "aw_hash r = an_hash a"
    using matched_anchor_row [OF assms(6)] .
  then obtain i where i: "i < length (by_seq rows)" "by_seq rows ! i = r" by (metis in_set_conv_nth set_by_seq)
  then have "n = Suc i" using linked_nth_seq [of sha AUDIT_GENESIS_HASH "by_seq rows" i] l2 r(2) seq by simp
  then have tk: "length (take n (by_seq rows)) = n" "last (take n (by_seq rows)) = r"
    using i by (simp_all add: take_Suc_conv_app_nth)
  have "linked sha 0 AUDIT_GENESIS_HASH (take n (by_seq rows))"
    using l2 linked_append [of sha 0 AUDIT_GENESIS_HASH "take n (by_seq rows)" "drop n (by_seq rows)"] by simp
  moreover have "\<not> collision sha (by_seq old) (take n (by_seq rows))"
    using collision_mono [of "by_seq old" old "take n (by_seq rows)" rows sha] nc set_take_subset [of n "by_seq rows"]
    by auto
  ultimately show "list_all2 same_row (by_seq old) (take (length old) (by_seq rows))"
    using same_head_same_chain [of sha "by_seq old" "take n (by_seq rows)"] l1 tk old r(3)
    by (simp add: n_def)
qed

section \<open>A table filled by the logger\<close>

lemma sort_obj_normal: "normal v \<Longrightarrow> sort_obj v = v"
proof (induction v)
  case (JvArr vs)
  then show ?case by (simp add: list_all_iff map_idI)
next
  case (JvObj kvs)
  have "map (\<lambda>kv. (fst kv, sort_obj (snd kv))) kvs = kvs"
    using JvObj by (intro map_idI) (auto simp: list_all_iff snds.simps)
  then show ?case using JvObj.prems sort_key_sorted [of kvs] by simp
qed simp_all

lemma normal_dicts_ok: "normal v \<Longrightarrow> dicts_ok v"
proof (induction v)
  case (JvObj kvs)
  then show ?case by (auto simp: list_all_iff strict_sorted_iff snds.simps)
qed (auto simp: list_all_iff)

lemma logged_row_has_no_defect:
  assumes "build_canonical seq now ty ac pl prev = Inr canonical" "normal pl"
  shows "row_defect sha \<lparr>aw_seq = seq, aw_occurred_at = now, aw_type = ty, aw_actor = ac, aw_payload = pl,
      aw_canonical = canonical, aw_prev_hash = prev, aw_hash = hash_canonical sha canonical\<rparr> prev = None"
proof -
  let ?kvs = "[(''v'', JvInt 1), (''seq'', JvInt seq), (''occurred_at'', JvStr (format_timestamp now)),
       (''event_type'', JvStr ty), (''actor'', JvStr ac), (''payload'', pl), (''prev_hash'', JvStr prev)]"
  have d: "canonical_json (JvObj ?kvs) = Inr canonical" "dicts_ok (JvObj ?kvs)"
    using assms normal_dicts_ok [of pl]
    by (simp_all add: build_canonical_def record_document_def split: if_splits)
  have "distinct (map fst ?kvs)" by simp
  from jget_sort_obj [OF this] obtain doc where doc: "sort_obj (JvObj ?kvs) = JvObj doc"
    "\<forall>k. jget doc k = sort_obj (jget ?kvs k)" by blast
  have "loads_text canonical = Some (JvObj doc)" "canonical_json (JvObj doc) = Inr canonical"
    using canonical_text_read_back [OF d] unfolding doc(1) by simp_all
  moreover have "jget doc ''prev_hash'' = JvStr prev" "jget doc ''seq'' = JvInt seq" "jget doc ''event_type'' = JvStr ty"
    "jget doc ''actor'' = JvStr ac" "jget doc ''payload'' = pl" "jget doc ''occurred_at'' = JvStr (format_timestamp now)"
    using doc(2) sort_obj_normal [OF assms(2)] by (simp_all add: jget_def)
  ultimately show ?thesis by (simp add: row_defect_def recanonicalise_def py_eq_def)
qed

lemma AuditEvent_new_frozen:
  assumes "AuditEvent_new ty ac payload = Inr ev" "dicts_ok payload"
  shows "ae_payload ev = sort_obj payload \<and> normal (ae_payload ev) \<and> ae_type ev = ty \<and> ae_actor ev = ac"
proof -
  from assms(1) obtain frozen v where f: "canonical_json payload = Inr frozen" "loads_text frozen = Some v"
    "ev = \<lparr>ae_type = ty, ae_actor = ac, ae_payload = v\<rparr>"
    by (cases payload) (auto simp: AuditEvent_new_def rbind_eq_Inr split: option.splits)
  then have p: "plain 0 payload" by (simp add: canonical_json_Inr)
  have "v = sort_obj payload" using f(2) canonical_text_read_back [OF f(1) assms(2)] by simp
  then show ?thesis using normal_sort_obj [OF plain_printable [OF p assms(2)]] f(3) by simp
qed

lemma append_event_linked:
  assumes "linked sha 0 AUDIT_GENESIS_HASH rows" "normal (ae_payload ev)"
  shows "linked sha 0 AUDIT_GENESIS_HASH (snd (append_event sha x now ev rows))"
proof (cases "append_in_txn sha now ev rows")
  case (Inl e)
  with assms(1) show ?thesis by (auto simp: append_event_def split: txn.split)
next
  case (Inr row)
  define sq where "sq = (if rows = [] then 0 else aw_seq (last rows))"
  define prev where "prev = (if rows = [] then AUDIT_GENESIS_HASH else aw_hash (last rows))"
  have "(case head_of rows of None \<Rightarrow> (1, AUDIT_GENESIS_HASH) | Some (sq, h) \<Rightarrow> (sq + 1, h)) = (sq + 1, prev)"
    using linked_sorted [OF assms(1)] by (simp add: head_of_def sq_def prev_def)
  with Inr obtain canonical where c: "build_canonical (sq + 1) now (ae_type ev) (ae_actor ev) (ae_payload ev) prev
      = Inr canonical"
    "row = \<lparr>aw_seq = sq + 1, aw_occurred_at = now, aw_type = ae_type ev, aw_actor = ae_actor ev,
        aw_payload = ae_payload ev, aw_canonical = canonical, aw_prev_hash = prev,
        aw_hash = hash_canonical sha canonical\<rparr>"
    by (auto simp: append_in_txn_def rbind_eq_Inr)
  have "row_defect sha row prev = None"
    unfolding c(2) by (rule logged_row_has_no_defect [OF c(1) assms(2)])
  moreover have "aw_seq row = sq + 1" by (simp add: c(2))
  ultimately have "linked sha 0 AUDIT_GENESIS_HASH (rows @ [row])"
    using assms(1) by (simp add: linked_append sq_def prev_def)
  with Inr assms(1) show ?thesis by (auto simp: append_event_def split: txn.split)
qed

record log_call =
  lc_txn :: txn
  lc_now :: moment
  lc_type :: pystr
  lc_actor :: pystr
  lc_payload :: jv

fun audit_run :: "sha \<Rightarrow> log_call list \<Rightarrow> audit_row list \<Rightarrow> (exc + audit_row) list \<times> audit_row list" where
  "audit_run sha [] rows = ([], rows)"
| "audit_run sha (c # cs) rows =
     (let (r, rows') = record_event sha (lc_txn c) (lc_now c) (lc_type c) (lc_actor c) (lc_payload c) rows;
          (rs, rows'') = audit_run sha cs rows'
      in (r # rs, rows''))"

lemma record_event_linked:
  assumes "dicts_ok pl" "linked sha 0 AUDIT_GENESIS_HASH rows"
  shows "linked sha 0 AUDIT_GENESIS_HASH (snd (record_event sha x now ty ac pl rows))"
  using assms AuditEvent_new_frozen [of ty ac pl] append_event_linked
  by (auto simp: record_event_def split: sum.split)

text \<open>The call was acknowledged: its event is in the table.\<close>

definition logged :: "log_call \<Rightarrow> exc + audit_row \<Rightarrow> audit_row list \<Rightarrow> bool" where
  "logged c r rows = (case r of Inl e \<Rightarrow> True
     | Inr row \<Rightarrow> row \<in> set rows \<and> aw_type row = lc_type c \<and> aw_actor row = lc_actor c
         \<and> aw_payload row = sort_obj (lc_payload c) \<and> aw_occurred_at row = lc_now c)"

lemma logged_mono: "logged c r rows \<Longrightarrow> set rows \<subseteq> set rows' \<Longrightarrow> logged c r rows'"
  by (auto simp: logged_def split: sum.splits)

lemma append_in_txn_row:
  assumes "append_in_txn sha now ev rows = Inr row"
  shows "aw_type row = ae_type ev \<and> aw_actor row = ae_actor ev \<and> aw_payload row = ae_payload ev
     \<and> aw_occurred_at row = now"
  using assms by (auto simp: append_in_txn_def rbind_eq_Inr split: option.splits)

lemma record_event_logged:
  assumes "dicts_ok (lc_payload c)"
    and "record_event sha (lc_txn c) (lc_now c) (lc_type c) (lc_actor c) (lc_payload c) rows = (r, rows')"
  shows "logged c r rows' \<and> set rows \<subseteq> set rows'"
proof (cases "AuditEvent_new (lc_type c) (lc_actor c) (lc_payload c)")
  case (Inr ev)
  then have "append_event sha (lc_txn c) (lc_now c) ev rows = (r, rows')"
    using assms(2) by (simp add: record_event_def)
  then show ?thesis using AuditEvent_new_frozen [OF Inr assms(1)] append_in_txn_row [of sha "lc_now c" ev rows]
    by (cases "lc_txn c") (auto simp: append_event_def logged_def split: sum.splits if_splits)
qed (use assms(2) in \<open>auto simp: record_event_def logged_def\<close>)

lemma audit_run_linked:
  assumes "list_all (\<lambda>c. dicts_ok (lc_payload c)) cs" "linked sha 0 AUDIT_GENESIS_HASH rows"
    and "audit_run sha cs rows = (rs, rows')"
  shows "linked sha 0 AUDIT_GENESIS_HASH rows' \<and> list_all2 (\<lambda>c r. logged c r rows') cs rs \<and> set rows \<subseteq> set rows'"
  using assms
proof (induction cs arbitrary: rows rs)
  case (Cons c cs)
  obtain r rows1 where 1: "record_event sha (lc_txn c) (lc_now c) (lc_type c) (lc_actor c) (lc_payload c) rows
      = (r, rows1)" by fastforce
  obtain rs1 where 2: "audit_run sha cs rows1 = (rs1, rows')" "rs = r # rs1"
    using Cons.prems(3) 1 by (auto split: prod.splits)
  have d: "dicts_ok (lc_payload c)" using Cons.prems(1) by simp
  have "linked sha 0 AUDIT_GENESIS_HASH rows1"
    using record_event_linked [OF d Cons.prems(2)] 1 by (metis snd_conv)
  then have "linked sha 0 AUDIT_GENESIS_HASH rows' \<and> list_all2 (\<lambda>c r. logged c r rows') cs rs1
      \<and> set rows1 \<subseteq> set rows'"
    using Cons.IH [OF _ _ 2(1)] Cons.prems(1) by simp
  then show ?case using record_event_logged [OF d 1] logged_mono [of c r rows1 rows'] 2(2) by auto
qed simp

text \<open>
  C28: Whatever the logger writes verifies, and what it acknowledges is written. For any sequence of
  calls, with refused events, failed transactions and connections lost while committing, the table
  they leave passes the independent verification of every row, and each call that returned a row has
  its event in the table, with the payload up to the order of its keys.
\<close>

theorem logged_table_verifies:
  assumes "list_all (\<lambda>c. dicts_ok (lc_payload c)) cs" "audit_run sha cs [] = (rs, rows)"
  shows "(\<exists>v. verify_chain sha (Inr rows) None None = Inr v \<and> vr_ok v \<and> vr_first_break v = None
       \<and> vr_rows_checked v = length rows)
     \<and> list_all2 (\<lambda>c r. logged c r rows) cs rs"
proof -
  have l: "linked sha 0 AUDIT_GENESIS_HASH rows" "list_all2 (\<lambda>c r. logged c r rows) cs rs"
    using audit_run_linked [OF assms(1) _ assms(2)] by simp_all
  then show ?thesis using walk_rows_linked(2) [OF l(1), of 0] linked_sorted [OF l(1)]
    by (simp add: verify_chain_def predecessor_def iter_rows_all)
qed

section \<open>Concrete tables\<close>

definition demo_sha :: sha where
  "demo_sha bs = AUDIT_GENESIS_HASH"

definition demo_time :: moment where
  "demo_time = \<lparr>mo_year = 2026, mo_month = 1, mo_day = 2, mo_hour = 3, mo_minute = 4, mo_second = 5, mo_micro = 6\<rparr>"

definition demo_payload :: jv where
  "demo_payload = JvObj [(''x'', JvInt 1), (''note'', JvNull)]"

definition demo_call :: "txn \<Rightarrow> log_call" where
  "demo_call x = \<lparr>lc_txn = x, lc_now = demo_time, lc_type = ''hold'', lc_actor = ''desk'', lc_payload = demo_payload\<rparr>"

definition demo_calls :: "log_call list" where
  "demo_calls = [demo_call (FailsBefore ''timeout''), demo_call (LosesCommit True ''reset'')]"

definition demo_table :: "audit_row list" where
  "demo_table = snd (audit_run demo_sha [demo_call Commits] [])"

text \<open>The same table with the payload column \<open>{"x": true, ...}\<close> beside a canonical text that says 1.\<close>

definition altered_table :: "audit_row list" where
  "altered_table = map (\<lambda>r. r\<lparr>aw_payload := JvObj [(''x'', JvBool True), (''note'', JvNull)]\<rparr>) demo_table"

lemma demo_table_verifies:
  "verify_chain demo_sha (Inr demo_table) None None =
     Inr \<lparr>vr_ok = True, vr_rows_checked = 1, vr_first_break = None, vr_head_seq = 1, vr_head_hash = AUDIT_GENESIS_HASH\<rparr>"
  by code_simp

text \<open>
  The verifier compares the payload column with the canonical text by Python's equality, under which
  \<open>True == 1\<close>: a column changed from 1 to true is not reported.
\<close>

lemma payload_bool_for_int_verifies:
  "map aw_payload altered_table \<noteq> map aw_payload demo_table
   \<and> verify_chain demo_sha (Inr altered_table) None None =
     Inr \<lparr>vr_ok = True, vr_rows_checked = 1, vr_first_break = None, vr_head_seq = 1, vr_head_hash = AUDIT_GENESIS_HASH\<rparr>"
  by code_simp

theorem canonical_text_round_trip_witness:
  "loads_text (dumps demo_payload) = Some (sort_obj demo_payload) \<and> sort_obj demo_payload \<noteq> demo_payload"
proof -
  have "canonical_json demo_payload = Inr (dumps demo_payload)" "dicts_ok demo_payload" by code_simp+
  then have "loads_text (dumps demo_payload) = Some (sort_obj demo_payload)"
    using canonical_text_round_trip [of demo_payload "dumps demo_payload"] by blast
  moreover have "sort_obj demo_payload \<noteq> demo_payload" by code_simp
  ultimately show ?thesis by blast
qed

lemma demo_table_row: "length demo_table = 1 \<and> map aw_seq demo_table = [1] \<and> map aw_hash demo_table = [AUDIT_GENESIS_HASH]"
  by code_simp

lemma demo_no_collision: "\<not> collision demo_sha demo_table altered_table \<and> demo_table \<noteq> [] \<and> altered_table \<noteq> []"
proof -
  obtain r where r: "demo_table = [r]" using demo_table_row by (auto simp: length_Suc_conv)
  show ?thesis unfolding altered_table_def r by (simp add: collision_def)
qed


theorem anchor_pins_history_witness:
  "list_all2 same_row (by_seq demo_table) (take (length demo_table) (by_seq altered_table))"
proof -
  let ?a = "\<lparr>an_seq = 1, an_hash = AUDIT_GENESIS_HASH, an_emitted_at = format_timestamp demo_time\<rparr>"
  obtain r where r: "demo_table = [r]" using demo_table_row by (auto simp: length_Suc_conv)
  then have "aw_seq r = 1" "aw_hash r = AUDIT_GENESIS_HASH" using demo_table_row unfolding r by simp_all
  then have "head_of demo_table = Some (an_seq ?a, an_hash ?a)" "verify_anchors (Inr altered_table) [?a] = Inr []"
    unfolding altered_table_def r
    by (simp_all add: head_of_def by_seq_def verify_anchors_def anchor_break_def hash_at_def)
  then show ?thesis
    using anchor_pins_history [OF demo_table_verifies _ _ payload_bool_for_int_verifies [THEN conjunct2], of ?a]
      demo_no_collision by simp
qed

theorem logged_table_verifies_witness:
  "\<exists>v. verify_chain demo_sha (Inr (snd (audit_run demo_sha demo_calls []))) None None = Inr v \<and> vr_ok v
     \<and> vr_rows_checked v = 1"
proof -
  have "list_all (\<lambda>c. dicts_ok (lc_payload c)) demo_calls" "length (snd (audit_run demo_sha demo_calls [])) = 1"
    by code_simp+
  then show ?thesis
    using logged_table_verifies [of demo_calls demo_sha "fst (audit_run demo_sha demo_calls [])"
      "snd (audit_run demo_sha demo_calls [])"] by auto
qed

end
