(* ===== verification/Retention.thy ===== *)
theory Retention
  imports Audit_Log
begin

text \<open>
  Retention arithmetic (\<open>zone-c/compliance-manifest/afe_manifest/retention.py\<close>) over the part of
  Python's \<open>datetime\<close> it uses: the proleptic Gregorian calendar, ordinals with day 1 = 1 January of
  year 1, years 1 to 9999. An aware UTC \<open>datetime\<close> is its date and the microsecond of the day.
\<close>

section \<open>The calendar\<close>

definition is_leap :: "int \<Rightarrow> bool" where
  "is_leap y \<longleftrightarrow> y mod 4 = 0 \<and> (y mod 100 \<noteq> 0 \<or> y mod 400 = 0)"

definition days_before_year :: "int \<Rightarrow> int" where
  "days_before_year y = (y - 1) * 365 + (y - 1) div 4 - (y - 1) div 100 + (y - 1) div 400"

definition days_in_month :: "int \<Rightarrow> int \<Rightarrow> int" where
  "days_in_month y m = (if m = 2 then (if is_leap y then 29 else 28)
     else if m = 4 \<or> m = 6 \<or> m = 9 \<or> m = 11 then 30 else 31)"

definition days_before_month :: "int \<Rightarrow> int \<Rightarrow> int" where
  "days_before_month y m = sum_list (map (days_in_month y) [1..m - 1])"

definition ymd2ord :: "int \<Rightarrow> int \<Rightarrow> int \<Rightarrow> int" where
  "ymd2ord y m d = days_before_year y + days_before_month y m + d"

lemma div_pred: "0 < k \<Longrightarrow> (y - 1) div k = (if y mod k = 0 then y div k - 1 else y div k)" for k y :: int
proof -
  assume k: "0 < k"
  have y: "y = k * (y div k) + y mod k" "0 \<le> y mod k" "y mod k < k" using k by simp_all
  show ?thesis
  proof (cases "y mod k = 0")
    case True
    then show ?thesis using k y by (intro trans [OF int_div_pos_eq [of "y - 1" k "y div k - 1" "k - 1"]])
        (simp_all add: algebra_simps)
  next
    case False
    then show ?thesis using k y by (intro trans [OF int_div_pos_eq [of "y - 1" k "y div k" "y mod k - 1"]]) simp_all
  qed
qed

lemma leap_mods: "(y :: int) mod 400 = 0 \<Longrightarrow> y mod 100 = 0" "(y :: int) mod 100 = 0 \<Longrightarrow> y mod 4 = 0"
  using mod_mod_cancel [of 100 400 y] mod_mod_cancel [of 4 100 y] by simp_all

lemma days_before_year_Suc: "days_before_year (y + 1) = days_before_year y + (if is_leap y then 366 else 365)"
  using div_pred [of 4 y] div_pred [of 100 y] div_pred [of 400 y] leap_mods [of y]
  by (auto simp: days_before_year_def is_leap_def)

lemma days_before_year_mono: "y \<le> z \<Longrightarrow> days_before_year y \<le> days_before_year z"
proof (induction z rule: int_ge_induct)
  case (step i)
  then show ?case by (simp add: days_before_year_Suc)
qed simp

text \<open>The year and the month of an ordinal, searched upwards from a year that is not too late.\<close>

function find_year :: "int \<Rightarrow> int \<Rightarrow> int" where
  "find_year y n = (if days_before_year (y + 1) < n then find_year (y + 1) n else y)"
  by auto

termination
  by (relation "measure (\<lambda>(y, n). nat (n - days_before_year (y + 1)))")
    (auto simp: days_before_year_Suc)

declare find_year.simps [simp del]

fun find_month :: "int \<Rightarrow> int \<Rightarrow> int list \<Rightarrow> int \<times> int" where
  "find_month y d [] = (12, d)"
| "find_month y d (m # ms) =
     (if d \<le> days_in_month y m then (m, d) else find_month y (d - days_in_month y m) ms)"

definition ord2ymd :: "int \<Rightarrow> int \<times> int \<times> int" where
  "ord2ymd n = (let y = find_year ((n - 1) div 366 + 1) n in (y, find_month y (n - days_before_year y) [1..12]))"

definition valid_date :: "int \<Rightarrow> int \<Rightarrow> int \<Rightarrow> bool" where
  "valid_date y m d \<longleftrightarrow> 1 \<le> y \<and> y \<le> 9999 \<and> 1 \<le> m \<and> m \<le> 12 \<and> 1 \<le> d \<and> d \<le> days_in_month y m"

section \<open>Moments\<close>

record datetime =
  dt_year :: int
  dt_month :: int
  dt_day :: int
  dt_us :: int

definition DAY_US :: int where
  "DAY_US = 86400000000"

definition EPOCH_ORD :: int where
  "EPOCH_ORD = 719163"

definition datetime_from_ns :: "int \<Rightarrow> exc + datetime" where
  "datetime_from_ns ns =
     (let us = ns div 1000; n = EPOCH_ORD + us div DAY_US
      in if n < 1 \<or> 3652059 < n then Inl (Exc ''OverflowError'' ''date value out of range'')
         else case ord2ymd n of (y, m, d) \<Rightarrow>
           Inr \<lparr>dt_year = y, dt_month = m, dt_day = d, dt_us = us mod DAY_US\<rparr>)"

text \<open>\<open>moment.replace(...)\<close>\<close>

definition dt_replace :: "datetime \<Rightarrow> int \<Rightarrow> int \<Rightarrow> int \<Rightarrow> exc + datetime" where
  "dt_replace dt y m d =
     (if valid_date y m d then Inr (dt\<lparr>dt_year := y, dt_month := m, dt_day := d\<rparr>)
      else Inl (Exc ''ValueError'' ''day is out of range for month''))"

definition add_years :: "datetime \<Rightarrow> int \<Rightarrow> exc + datetime" where
  "add_years dt years =
     (case dt_replace dt (dt_year dt + years) (dt_month dt) (dt_day dt) of
        Inr e \<Rightarrow> Inr e
      | Inl _ \<Rightarrow> dt_replace dt (dt_year dt + years) 3 1)"

definition since_epoch_us :: "datetime \<Rightarrow> int" where
  "since_epoch_us dt = (ymd2ord (dt_year dt) (dt_month dt) (dt_day dt) - EPOCH_ORD) * DAY_US + dt_us dt"

definition RETENTION_YEARS :: int where
  "RETENTION_YEARS = 7"

definition retain_until_ns :: "int \<Rightarrow> int \<Rightarrow> exc + int" where
  "retain_until_ns created_at_ns years =
     rbind (datetime_from_ns created_at_ns) (\<lambda>start.
     rbind (add_years start years) (\<lambda>stop.
     Inr (since_epoch_us stop * 1000 + created_at_ns mod 1000)))"

definition pad :: "nat \<Rightarrow> int \<Rightarrow> pystr" where
  "pad k i = replicate (k - length (int_str i)) (CHR ''0'') @ int_str i"

definition format_ns_utc :: "int \<Rightarrow> exc + pystr" where
  "format_ns_utc ns =
     rbind (datetime_from_ns ns) (\<lambda>dt. Inr (
       int_str (dt_year dt) @ ''-'' @ pad 2 (dt_month dt) @ ''-'' @ pad 2 (dt_day dt) @ ''T''
       @ pad 2 (dt_us dt div 3600000000) @ '':'' @ pad 2 (dt_us dt div 60000000 mod 60) @ '':''
       @ pad 2 (dt_us dt div 1000000 mod 60) @ ''.'' @ pad 6 (dt_us dt mod 1000000) @ ''Z''))"

section \<open>Dates and ordinals\<close>

lemma months: "[1..12] = [1, 2, 3, 4, 5, 6, 7, 8, 9, 10, 11, 12 :: int]"
  by (simp add: upto.simps)

lemma month_cases: "1 \<le> m \<Longrightarrow> m \<le> (12 :: int) \<Longrightarrow>
    m = 1 \<or> m = 2 \<or> m = 3 \<or> m = 4 \<or> m = 5 \<or> m = 6 \<or> m = 7 \<or> m = 8 \<or> m = 9 \<or> m = 10 \<or> m = 11 \<or> m = 12"
  by presburger

lemma find_year_eq:
  "y \<le> z \<Longrightarrow> days_before_year z < n \<Longrightarrow> n \<le> days_before_year (z + 1) \<Longrightarrow> find_year y n = z"
proof (induction y n rule: find_year.induct)
  case (1 y n)
  show ?case
  proof (cases "y = z")
    case False
    then have "y + 1 \<le> z" using "1.prems" by simp
    then have "days_before_year (y + 1) < n" using days_before_year_mono [of "y + 1" z] "1.prems" by simp
    then show ?thesis using "1.IH" "1.prems" \<open>y + 1 \<le> z\<close> by (simp add: find_year.simps [of y])
  next
    case True
    then show ?thesis using "1.prems" find_year.simps [of z n] by simp
  qed
qed

lemma find_year_sound:
  "days_before_year y < n \<Longrightarrow> y \<le> find_year y n \<and> days_before_year (find_year y n) < n
     \<and> n \<le> days_before_year (find_year y n + 1)"
proof (induction y n rule: find_year.induct)
  case (1 y n)
  then show ?case by (cases "days_before_year (y + 1) < n") (auto simp: find_year.simps [of y])
qed

lemma leap_days: "0 \<le> q \<Longrightarrow> 0 \<le> q div 4 - q div 100 + q div 400 \<and> q div 4 - q div 100 + q div 400 \<le> q" for q :: int
  using zdiv_mono2 [of q 4 100] zdiv_mono2 [of q 100 400] zdiv_mono2 [of q 1 4] by auto

lemma start_year: "1 \<le> n \<Longrightarrow> days_before_year ((n - 1) div 366 + 1) < n"
proof -
  define q where "q = (n - 1) div 366"
  assume "1 \<le> n"
  then have "0 \<le> q" by (simp add: q_def pos_imp_zdiv_nonneg_iff)
  moreover have "366 * q \<le> n - 1"
    using mult_div_mod_eq [of 366 "n - 1"] pos_mod_sign [of 366 "n - 1"] unfolding q_def by linarith
  ultimately show ?thesis using leap_days [of q] unfolding q_def [symmetric] by (simp add: days_before_year_def)
qed

lemma start_year_le: "n \<le> days_before_year (z + 1) \<Longrightarrow> 1 \<le> z \<Longrightarrow> (n - 1) div 366 + 1 \<le> z"
  using leap_days [of z] zdiv_mono1 [of "n - 1" "366 * z - 1" 366] div_pred [of 366 "366 * z"]
  by (simp add: days_before_year_def)

lemma find_month_days:
  assumes "1 \<le> d" "d \<le> (if is_leap y then 366 else 365)" "find_month y d [1..12] = (m, r)"
  shows "1 \<le> m \<and> m \<le> 12 \<and> 1 \<le> r \<and> r \<le> days_in_month y m \<and> days_before_month y m + r = d"
  using assms unfolding months
  by (auto simp: days_in_month_def days_before_month_def upto.simps split: if_splits)

lemma find_month_ymd:
  assumes "1 \<le> m" "m \<le> 12" "1 \<le> d" "d \<le> days_in_month y m"
  shows "find_month y (days_before_month y m + d) [1..12] = (m, d)"
  using month_cases [OF assms(1,2)] assms(3,4) unfolding months
  by (elim disjE) (auto simp: days_in_month_def days_before_month_def upto.simps)

lemma days_before_month_bounds:
  assumes "1 \<le> m" "m \<le> 12" "1 \<le> d" "d \<le> days_in_month y m"
  shows "1 \<le> days_before_month y m + d \<and> days_before_month y m + d \<le> (if is_leap y then 366 else 365)"
  using month_cases [OF assms(1,2)] assms(3,4)
  by (elim disjE) (auto simp: days_in_month_def days_before_month_def upto.simps)

lemma last_ordinal: "days_before_year 10000 = 3652059"
  by (simp add: days_before_year_def)

lemma ord2ymd_sound:
  assumes "1 \<le> n" "n \<le> 3652059" "ord2ymd n = (y, m, d)"
  shows "valid_date y m d \<and> ymd2ord y m d = n"
proof -
  have y: "y = find_year ((n - 1) div 366 + 1) n" "find_month y (n - days_before_year y) [1..12] = (m, d)"
    using assms(3) by (auto simp: ord2ymd_def Let_def)
  have b: "(n - 1) div 366 + 1 \<le> y" "days_before_year y < n" "n \<le> days_before_year (y + 1)"
    using find_year_sound [OF start_year [OF assms(1)]] y(1) by simp_all
  have "1 \<le> y" using b(1) assms(1) pos_imp_zdiv_nonneg_iff [of 366 "n - 1"] by simp
  moreover have "y \<le> 9999"
  proof (rule ccontr)
    assume "\<not> y \<le> 9999"
    then show False using days_before_year_mono [of 10000 y] last_ordinal b(2) assms(2) by simp
  qed
  moreover have "1 \<le> m \<and> m \<le> 12 \<and> 1 \<le> d \<and> d \<le> days_in_month y m \<and> days_before_month y m + d = n - days_before_year y"
    using find_month_days [OF _ _ y(2)] b(2,3) by (simp add: days_before_year_Suc)
  ultimately show ?thesis by (simp add: valid_date_def ymd2ord_def)
qed

lemma ymd2ord_inverse:
  assumes "valid_date y m d"
  shows "ord2ymd (ymd2ord y m d) = (y, m, d) \<and> 1 \<le> ymd2ord y m d \<and> ymd2ord y m d \<le> 3652059"
proof -
  let ?n = "ymd2ord y m d"
  have v: "1 \<le> y" "y \<le> 9999" "1 \<le> m" "m \<le> 12" "1 \<le> d" "d \<le> days_in_month y m"
    using assms by (simp_all add: valid_date_def)
  have b: "days_before_year y < ?n" "?n \<le> days_before_year (y + 1)"
    using days_before_month_bounds [OF v(3-6)] by (simp_all add: ymd2ord_def days_before_year_Suc)
  have "find_year ((?n - 1) div 366 + 1) ?n = y"
    by (rule find_year_eq [OF start_year_le [OF b(2) v(1)] b])
  then have "ord2ymd ?n = (y, m, d)"
    using find_month_ymd [OF v(3-6)] by (simp add: ord2ymd_def ymd2ord_def)
  moreover have "0 \<le> days_before_year y" using days_before_year_mono [of 1 y] v(1) by (simp add: days_before_year_def)
  moreover have "days_before_year (y + 1) \<le> 3652059" using days_before_year_mono [of "y + 1" 10000] v(2) last_ordinal by simp
  ultimately show ?thesis using b by simp
qed

lemma datetime_from_ns_Inr:
  assumes "datetime_from_ns ns = Inr dt"
  shows "valid_date (dt_year dt) (dt_month dt) (dt_day dt) \<and> 0 \<le> dt_us dt \<and> dt_us dt < DAY_US
     \<and> ns = since_epoch_us dt * 1000 + ns mod 1000"
proof -
  let ?n = "EPOCH_ORD + ns div 1000 div DAY_US"
  obtain y m d where o: "ord2ymd ?n = (y, m, d)" by (metis prod_cases3)
  have n: "1 \<le> ?n" "?n \<le> 3652059" using assms by (simp_all add: datetime_from_ns_def Let_def split: if_splits)
  have dt: "dt = \<lparr>dt_year = y, dt_month = m, dt_day = d, dt_us = ns div 1000 mod DAY_US\<rparr>"
    using assms o n by (simp add: datetime_from_ns_def Let_def split: if_splits)
  have "since_epoch_us dt = ns div 1000 div DAY_US * DAY_US + ns div 1000 mod DAY_US"
    using ord2ymd_sound [OF n o] by (simp add: since_epoch_us_def dt)
  then have "since_epoch_us dt = ns div 1000" by simp
  then show ?thesis using ord2ymd_sound [OF n o] dt by (simp add: DAY_US_def)
qed

lemma datetime_from_ns_since_epoch:
  assumes "valid_date (dt_year dt) (dt_month dt) (dt_day dt)" "0 \<le> dt_us dt" "dt_us dt < DAY_US" "0 \<le> r" "r < 1000"
  shows "datetime_from_ns (since_epoch_us dt * 1000 + r) = Inr dt"
proof -
  have us: "(since_epoch_us dt * 1000 + r) div 1000 = since_epoch_us dt" using assms(4,5) by simp
  have "since_epoch_us dt div DAY_US = ymd2ord (dt_year dt) (dt_month dt) (dt_day dt) - EPOCH_ORD"
    "since_epoch_us dt mod DAY_US = dt_us dt"
    using div_mult_self3 [of DAY_US "ymd2ord (dt_year dt) (dt_month dt) (dt_day dt) - EPOCH_ORD" "dt_us dt"]
      mod_mult_self3 [of "ymd2ord (dt_year dt) (dt_month dt) (dt_day dt) - EPOCH_ORD" DAY_US "dt_us dt"] assms(2,3)
    by (simp_all add: since_epoch_us_def DAY_US_def del: div_mult_self3 mod_mult_self3)
  then show ?thesis using ymd2ord_inverse [OF assms(1)] us by (simp add: datetime_from_ns_def)
qed

section \<open>Retention\<close>

lemma days_before_year_add:
  "0 \<le> n \<Longrightarrow> days_before_year y + 365 * n + (if 0 < n \<and> is_leap y then 1 else 0) \<le> days_before_year (y + n)"
proof (induction n rule: int_ge_induct)
  case (step i)
  then show ?case using days_before_year_Suc [of "y + i"] by (auto simp: add.assoc split: if_splits)
qed simp

lemma days_before_month_year:
  "1 \<le> m \<Longrightarrow> m \<le> 12 \<Longrightarrow> days_before_month y m - (if is_leap y then 1 else 0) \<le> days_before_month z m"
  using month_cases [of m] by (auto simp: days_in_month_def days_before_month_def upto.simps)

lemma ymd2ord_later:
  assumes "0 \<le> n" "1 \<le> m" "m \<le> 12"
  shows "ymd2ord y m d + 365 * n \<le> ymd2ord (y + n) m d"
proof (cases "n = 0")
  case False
  then show ?thesis using days_before_year_add [OF assms(1), of y] days_before_month_year [OF assms(2,3), of y "y + n"]
    assms(1)
    by (auto simp: ymd2ord_def split: if_splits)
qed simp

lemma add_years_Inr:
  assumes "add_years start years = Inr stop"
  shows "valid_date (dt_year stop) (dt_month stop) (dt_day stop) \<and> dt_year stop = dt_year start + years
     \<and> dt_us stop = dt_us start
     \<and> (dt_month stop = dt_month start \<and> dt_day stop = dt_day start
        \<or> \<not> valid_date (dt_year stop) (dt_month start) (dt_day start) \<and> dt_month stop = 3 \<and> dt_day stop = 1)"
  using assms by (auto simp: add_years_def dt_replace_def split: if_splits sum.splits)

text \<open>Only 29 February has no successor in a later year.\<close>

lemma not_valid_later:
  assumes "valid_date y m d" "\<not> valid_date z m d" "1 \<le> z" "z \<le> 9999"
  shows "m = 2 \<and> d = 29 \<and> is_leap y \<and> \<not> is_leap z"
  using assms by (auto simp: valid_date_def days_in_month_def split: if_splits)

lemma add_years_later:
  assumes "valid_date (dt_year start) (dt_month start) (dt_day start)" "add_years start years = Inr stop" "0 \<le> years"
  shows "since_epoch_us start + 365 * years * DAY_US \<le> since_epoch_us stop"
proof -
  note e = add_years_Inr [OF assms(2)]
  have m: "1 \<le> dt_month start" "dt_month start \<le> 12" using assms(1) by (simp_all add: valid_date_def)
  have "ymd2ord (dt_year start) (dt_month start) (dt_day start) + 365 * years
      \<le> ymd2ord (dt_year stop) (dt_month stop) (dt_day stop)"
  proof (cases "dt_month stop = dt_month start \<and> dt_day stop = dt_day start")
    case True
    then show ?thesis using e ymd2ord_later [OF assms(3) m] by simp
  next
    case False
    then have s: "\<not> valid_date (dt_year stop) (dt_month start) (dt_day start)" "dt_month stop = 3" "dt_day stop = 1"
      using e by auto
    then have "dt_month start = 2" "dt_day start = 29" "\<not> is_leap (dt_year stop)"
      using not_valid_later [OF assms(1) s(1)] e by (auto simp: valid_date_def)
    then have "ymd2ord (dt_year stop) (dt_month start) (dt_day start) = ymd2ord (dt_year stop) 3 1"
      by (simp add: ymd2ord_def days_before_month_def days_in_month_def upto.simps)
    then show ?thesis using e s ymd2ord_later [OF assms(3) m, of "dt_year start" "dt_day start"] by simp
  qed
  then have "(ymd2ord (dt_year start) (dt_month start) (dt_day start) + 365 * years - EPOCH_ORD) * DAY_US
      \<le> (ymd2ord (dt_year stop) (dt_month stop) (dt_day stop) - EPOCH_ORD) * DAY_US"
    by (intro mult_right_mono) (simp_all add: DAY_US_def)
  then show ?thesis using e by (simp add: since_epoch_us_def algebra_simps)
qed

text \<open>
  C27: Retention is exact and never short. The end of retention is the same time of day, to the
  nanosecond, on the same calendar day the given number of years later (1 March when the start was
  29 February and that year has none), and at least 365 days per year after the start.
\<close>

theorem retention_is_never_short:
  assumes "retain_until_ns created years = Inr until" "0 \<le> years"
  shows "\<exists>start stop. datetime_from_ns created = Inr start \<and> datetime_from_ns until = Inr stop
     \<and> dt_year stop = dt_year start + years \<and> dt_us stop = dt_us start \<and> until mod 1000 = created mod 1000
     \<and> (dt_month stop = dt_month start \<and> dt_day stop = dt_day start
        \<or> dt_month start = 2 \<and> dt_day start = 29 \<and> \<not> is_leap (dt_year stop) \<and> dt_month stop = 3 \<and> dt_day stop = 1)
     \<and> created + years * 365 * DAY_US * 1000 \<le> until"
proof -
  from assms(1) obtain start stop where s: "datetime_from_ns created = Inr start" "add_years start years = Inr stop"
    "until = since_epoch_us stop * 1000 + created mod 1000"
    by (auto simp: retain_until_ns_def rbind_eq_Inr)
  note d = datetime_from_ns_Inr [OF s(1)] and e = add_years_Inr [OF s(2)]
  have "datetime_from_ns until = Inr stop"
    unfolding s(3) by (rule datetime_from_ns_since_epoch) (use d e in auto)
  moreover have "until mod 1000 = created mod 1000" by (simp add: s(3))
  moreover have "created + years * 365 * DAY_US * 1000 \<le> until"
    using add_years_later [OF _ s(2) assms(2)] d s(3) by (simp add: algebra_simps)
  moreover have "dt_month stop = dt_month start \<and> dt_day stop = dt_day start
      \<or> dt_month start = 2 \<and> dt_day start = 29 \<and> \<not> is_leap (dt_year stop) \<and> dt_month stop = 3 \<and> dt_day stop = 1"
    using e d not_valid_later [of "dt_year start" "dt_month start" "dt_day start" "dt_year stop"]
    by (auto simp: valid_date_def)
  ultimately show ?thesis using s(1) e by blast
qed

theorem retention_is_never_short_witness:
  "retain_until_ns 951782400000000123 7 = Inr 1172707200000000123
   \<and> 951782400000000123 + 7 * 365 * DAY_US * 1000 \<le> 1172707200000000123"
proof -
  have r: "retain_until_ns 951782400000000123 7 = Inr 1172707200000000123" by code_simp
  then show ?thesis using retention_is_never_short [OF r] by auto
qed

end
