(* ===== verification/Manifest.thy ===== *)
theory Manifest
  imports Retention
begin

text \<open>
  The compliance manifest (\<open>zone-c/compliance-manifest/afe_manifest\<close>): the schema-driven encoding of
  protobuf messages (\<open>canonical.py\<close>), the builder (\<open>builder.py\<close>), the verification of a document
  (\<open>verify.py\<close>) and the write-once store (\<open>store.py\<close>).

  A protobuf message is its full name and its declared fields in order, with their values; the
  descriptor of a field is folded into the value (\<open>POther\<close> is a type the encoding refuses). The hash
  function \<open>sha\<close>, the printing \<open>str_of\<close> of JSON values that are no strings and the audit sink are
  parameters. The generated stubs are taken as importable. Texts of problems and errors leave out the
  quoted values.
\<close>

section \<open>Messages and their encoding\<close>

abbreviation ManifestBuildError :: "pystr \<Rightarrow> exc" where
  "ManifestBuildError msg \<equiv> Exc ''ManifestBuildError'' msg"

abbreviation ManifestStoreError :: "pystr \<Rightarrow> exc" where
  "ManifestStoreError msg \<equiv> Exc ''ManifestStoreError'' msg"

datatype pval = PFloat dec | PEnum "(int \<times> pystr) list" int | PBytes bytes | PInt int | PBool bool
  | PStr pystr | POther | PMsg (msg_name: pystr) (msg_fields: "(pystr \<times> pfield) list")
and pfield = One pval | NoMsg | Many "pval list" | MapEntries

definition float_text :: "dec \<Rightarrow> exc + pystr" where
  "float_text v = (case v of Fin x \<Rightarrow> Inr (float_repr x)
     | _ \<Rightarrow> Inl (ManifestBuildError ''non-finite floating point value in message''))"

definition hex_text :: "bytes \<Rightarrow> pystr" where
  "hex_text b = concat (map (\<lambda>c. let n = of_char c :: int in [hex_char (n div 16), hex_char (n mod 16)]) b)"

fun scalar :: "pval \<Rightarrow> exc + jv" where
  "scalar (PFloat v) = rbind (float_text v) (\<lambda>t. Inr (JvStr t))"
| "scalar (PEnum names n) = (case map_of names n of
     None \<Rightarrow> Inl (ManifestBuildError ''unknown enum number'') | Some name \<Rightarrow> Inr (JvStr name))"
| "scalar (PBytes b) = Inr (JvStr (hex_text b))"
| "scalar (PInt i) = Inr (JvInt i)"
| "scalar (PBool b) = Inr (JvBool b)"
| "scalar (PStr s) = Inr (JvStr s)"
| "scalar _ = Inl (ManifestBuildError ''unsupported field type'')"

fun message_to_canonical :: "pval \<Rightarrow> exc + jv"
  and field_doc :: "pfield \<Rightarrow> exc + jv" where
  "message_to_canonical (PMsg name fs) =
     rbind (rmap (\<lambda>kf. rbind (field_doc (snd kf)) (\<lambda>v. Inr (fst kf, v))) fs) (\<lambda>kvs. Inr (JvObj kvs))"
| "message_to_canonical v = scalar v"
| "field_doc MapEntries = Inl (ManifestBuildError ''map field is not supported'')"
| "field_doc (Many vs) = rbind (rmap message_to_canonical vs) (\<lambda>ds. Inr (JvArr ds))"
| "field_doc NoMsg = Inr JvNull"
| "field_doc (One v) = message_to_canonical v"

fun has_nan :: "jv \<Rightarrow> bool" where
  "has_nan (JvArr vs) \<longleftrightarrow> list_ex has_nan vs"
| "has_nan (JvObj kvs) \<longleftrightarrow> list_ex (\<lambda>kv. has_nan (snd kv)) kvs"
| "has_nan v \<longleftrightarrow> v = JFloat"

definition canonical_text :: "jv \<Rightarrow> exc + pystr" where
  "canonical_text doc =
     (if has_nan doc then Inl (ManifestBuildError ''document is not canonically serialisable'') else Inr (dumps doc))"

definition digest_text :: "sha \<Rightarrow> pystr \<Rightarrow> pystr" where
  "digest_text sha text = sha (utf8 text)"

definition digest_of :: "sha \<Rightarrow> jv \<Rightarrow> exc + pystr" where
  "digest_of sha v =
     (if has_nan v then Inl (Exc ''ValueError'' ''Out of range float values are not JSON compliant'')
      else Inr (digest_text sha (dumps v)))"

section \<open>Building\<close>

definition MANIFEST_GENESIS :: pystr where
  "MANIFEST_GENESIS = replicate 64 (CHR ''0'')"

definition SCHEMA_VERSION :: int where
  "SCHEMA_VERSION = 1"

definition INPUT_SECTIONS :: "pystr list" where
  "INPUT_SECTIONS = [''snapshot'', ''signal'', ''order'', ''ptc_checks'', ''hitl_override'',
     ''cognitive_outputs'', ''model_versions'']"

record cognitive_outputs =
  cg_blue_node_thesis :: pystr
  cg_red_node_challenge :: pystr
  cg_judge_synthesis :: pystr
  cg_compression_summaries :: "pystr list"

record manifest_inputs =
  mi_snapshot :: pval
  mi_signal :: pval
  mi_order :: "pval option"
  mi_model_versions :: "(pystr \<times> pystr) list"
  mi_ptc_checks :: "pval list"
  mi_prev_manifest_hash :: pystr
  mi_hitl_override :: "pval option"
  mi_cognitive :: cognitive_outputs
  mi_mar_flag_triggered :: bool
  mi_mar_flag_reason :: pystr

text \<open>Attributes of a message; a field of another kind reads as the default of its type.\<close>

definition field_of :: "pval \<Rightarrow> pystr \<Rightarrow> pfield" where
  "field_of m k = (case m of PMsg _ fs \<Rightarrow> (case map_of fs k of Some f \<Rightarrow> f | None \<Rightarrow> NoMsg) | _ \<Rightarrow> NoMsg)"

definition str_attr :: "pval \<Rightarrow> pystr \<Rightarrow> pystr" where
  "str_attr m k = (case field_of m k of One (PStr s) \<Rightarrow> s | _ \<Rightarrow> [])"

definition bool_attr :: "pval \<Rightarrow> pystr \<Rightarrow> bool" where
  "bool_attr m k = (case field_of m k of One (PBool b) \<Rightarrow> b | _ \<Rightarrow> False)"

definition enum_attr :: "pval \<Rightarrow> pystr \<Rightarrow> int" where
  "enum_attr m k = (case field_of m k of One (PEnum _ n) \<Rightarrow> n | _ \<Rightarrow> 0)"

definition float_attr :: "pval \<Rightarrow> pystr \<Rightarrow> dec" where
  "float_attr m k = (case field_of m k of One (PFloat x) \<Rightarrow> x | _ \<Rightarrow> Fin 0)"

definition expect_msg :: "pval \<Rightarrow> pystr \<Rightarrow> pystr \<Rightarrow> exc + unit" where
  "expect_msg m full_name label =
     (case m of PMsg n _ \<Rightarrow> guard (n = full_name) (ManifestBuildError (label @ '' must be a '' @ full_name @ '' message''))
      | _ \<Rightarrow> Inl (ManifestBuildError (label @ '' must be a '' @ full_name @ '' message'')))"

definition MAX_COMPRESSION_SUMMARIES :: nat where
  "MAX_COMPRESSION_SUMMARIES = 3"

definition check_common :: "manifest_inputs \<Rightarrow> exc + unit" where
  "check_common i =
     rbind (expect_msg (mi_snapshot i) ''afe.shared.MarketSnapshot'' ''snapshot'') (\<lambda>_.
     rbind (expect_msg (mi_signal i) ''afe.shared.TradeSignal'' ''signal'') (\<lambda>_.
     rbind (case mi_order i of None \<Rightarrow> Inr ()
            | Some ord \<Rightarrow> expect_msg ord ''afe.shared.OrderRequest'' ''order'') (\<lambda>_.
     rbind (guard (re_hash (mi_prev_manifest_hash i))
       (ManifestBuildError ''prev_manifest_hash must be 64 lowercase hex chars (genesis: zeros)'')) (\<lambda>_.
     rbind (guard (mi_model_versions i \<noteq> [])
       (ManifestBuildError ''model_versions must identify at least one model/version'')) (\<lambda>_.
     rbind (guard (list_all (\<lambda>nv. py_strip (fst nv) \<noteq> [] \<and> py_strip (snd nv) \<noteq> []) (mi_model_versions i))
       (ManifestBuildError ''model_versions keys and values must be non-empty'')) (\<lambda>_.
     guard (length (cg_compression_summaries (mi_cognitive i)) \<le> MAX_COMPRESSION_SUMMARIES)
       (ManifestBuildError ''at most 3 compression summaries'')))))))"

definition HARD_BLOCK :: int where
  "HARD_BLOCK = 1"

definition SOFT_BLOCK :: int where
  "SOFT_BLOCK = 2"

fun ptc_loop :: "pval list \<Rightarrow> bool \<Rightarrow> bool \<Rightarrow> pystr list \<Rightarrow> exc + bool \<times> bool \<times> pystr list" where
  "ptc_loop [] hard soft reasons = Inr (hard, soft, reasons)"
| "ptc_loop (c # cs) hard soft reasons =
     rbind (expect_msg c ''afe.shared.PTCCheckResult'' ''ptc check'') (\<lambda>_.
     rbind (guard (py_strip (str_attr c ''check_name'') \<noteq> [])
       (ManifestBuildError ''every PTC check needs a check_name'')) (\<lambda>_.
     rbind (guard (enum_attr c ''ptc_type'' \<in> {HARD_BLOCK, SOFT_BLOCK})
       (ManifestBuildError ''PTC check has no HARD/SOFT type'')) (\<lambda>_.
     rbind (guard (is_finite (float_attr c ''threshold_value'') \<and> is_finite (float_attr c ''actual_value''))
       (ManifestBuildError ''PTC check has non-finite values'')) (\<lambda>_.
     if bool_attr c ''passed'' then ptc_loop cs hard soft reasons
     else if enum_attr c ''ptc_type'' = HARD_BLOCK then ptc_loop cs True soft reasons
     else ptc_loop cs hard True (reasons @
       [if str_attr c ''reason'' = [] then str_attr c ''check_name'' else str_attr c ''reason''])))))"

definition check_ptc :: "manifest_inputs \<Rightarrow> exc + bool \<times> bool \<times> pystr" where
  "check_ptc i =
     rbind (guard (mi_ptc_checks i \<noteq> []) (ManifestBuildError ''pre-trade-control results are required (none supplied)'')) (\<lambda>_.
     rbind (ptc_loop (mi_ptc_checks i) False False []) (\<lambda>(hard, soft, reasons).
     Inr (hard, soft, join ''; '' reasons)))"

definition check_inputs_consistency :: "manifest_inputs \<Rightarrow> bool \<Rightarrow> bool \<Rightarrow> exc + unit" where
  "check_inputs_consistency i hard soft =
     (let snap = mi_snapshot i; signal = mi_signal i; hitl = mi_hitl_override i in
     rbind (guard (str_attr snap ''symbol'' = str_attr signal ''symbol'' \<and> str_attr snap ''symbol'' \<noteq> [])
       (ManifestBuildError ''snapshot and signal must reference the same non-empty symbol'')) (\<lambda>_.
     rbind (case hitl of None \<Rightarrow> Inr ()
            | Some h \<Rightarrow>
                rbind (expect_msg h ''afe.shared.HITLOverrideRecord'' ''hitl_override'') (\<lambda>_.
                guard (str_attr h ''decision'' \<in> {''approved'', ''rejected''} \<and> py_strip (str_attr h ''operator_id'') \<noteq> [])
                  (ManifestBuildError ''HITL record needs operator_id and decision approved|rejected''))) (\<lambda>_.
     case mi_order i of None \<Rightarrow> Inr ()
     | Some ord \<Rightarrow>
        rbind (guard (str_attr ord ''signal_id'' = str_attr signal ''signal_id'' \<and> str_attr ord ''symbol'' = str_attr signal ''symbol'')
          (ManifestBuildError ''order does not belong to the signal (signal_id/symbol mismatch)'')) (\<lambda>_.
        rbind (guard (\<not> hard) (ManifestBuildError ''a hard-block PTC failed: an order must not exist for this trade'')) (\<lambda>_.
        rbind (guard (\<not> bool_attr snap ''is_stale'') (ManifestBuildError ''order was derived from a stale market snapshot'')) (\<lambda>_.
        rbind (guard (\<not> (\<exists>h \<in> set_option hitl. str_attr h ''decision'' = ''rejected''))
          (ManifestBuildError ''HITL rejected the trade: an order must not exist'')) (\<lambda>_.
        guard (soft \<longrightarrow> (\<exists>h \<in> set_option hitl. str_attr h ''decision'' = ''approved''))
          (ManifestBuildError ''soft-block PTC failed: an approved HITL record is required for an order''))))))))"

definition sub_msg :: "pval option \<Rightarrow> pfield" where
  "sub_msg m = (case m of None \<Rightarrow> NoMsg | Some v \<Rightarrow> One v)"

definition assemble_proto :: "manifest_inputs \<Rightarrow> pystr \<Rightarrow> int \<Rightarrow> bool \<Rightarrow> bool \<Rightarrow> pystr \<Rightarrow> pval" where
  "assemble_proto i manifest_id created_at_ns hard soft reason =
     (let cog = mi_cognitive i; signal = mi_signal i in
      PMsg ''afe.shared.ComplianceManifest''
       [(''manifest_id'', One (PStr manifest_id)),
        (''prev_manifest_hash'', One (PStr (mi_prev_manifest_hash i))),
        (''created_at_ns'', One (PInt created_at_ns)),
        (''snapshot'', One (mi_snapshot i)),
        (''omega'', One (PFloat (float_attr signal ''omega''))),
        (''expected_value'', One (PFloat (float_attr signal ''expected_value''))),
        (''blue_node_thesis'', One (PStr (cg_blue_node_thesis cog))),
        (''red_node_challenge'', One (PStr (cg_red_node_challenge cog))),
        (''judge_synthesis'', One (PStr (if cg_judge_synthesis cog = [] then str_attr signal ''debate_summary''
           else cg_judge_synthesis cog))),
        (''compression_summaries'', Many (map PStr (cg_compression_summaries cog))),
        (''ptc_checks'', Many (mi_ptc_checks i)),
        (''hard_block_triggered'', One (PBool hard)),
        (''soft_block_triggered'', One (PBool soft)),
        (''soft_block_reason'', One (PStr reason)),
        (''hitl_override_occurred'', One (PBool (mi_hitl_override i \<noteq> None))),
        (''hitl_override'', sub_msg (mi_hitl_override i)),
        (''signal'', One signal),
        (''order'', sub_msg (mi_order i)),
        (''post_trade'', NoMsg),
        (''mar_flag_triggered'', One (PBool (mi_mar_flag_triggered i))),
        (''mar_flag_reason'', One (PStr (mi_mar_flag_reason i)))])"

text \<open>\<open>d[k]\<close> of a JSON value.\<close>

definition jindex :: "jv \<Rightarrow> pystr \<Rightarrow> exc + jv" where
  "jindex d k = (case d of JvObj kvs \<Rightarrow> (case map_of kvs k of None \<Rightarrow> Inl (Exc ''KeyError'' k) | Some v \<Rightarrow> Inr v)
     | _ \<Rightarrow> Inl (Exc ''TypeError'' []))"

text \<open>
  \<open>dict(v)\<close>: a mapping, or a sequence of pairs. Pairs whose key is no string are taken as refused
  (\<open>TypeError\<close>); Python accepts some of them.
\<close>

fun pair_of :: "jv \<Rightarrow> exc + pystr \<times> jv" where
  "pair_of (JvArr [JvStr k, v]) = Inr (k, v)"
| "pair_of (JvArr [_, _]) = Inl (Exc ''TypeError'' [])"
| "pair_of (JvArr _) = Inl (Exc ''ValueError'' [])"
| "pair_of (JvStr [a, b]) = Inr ([a], JvStr [b])"
| "pair_of (JvStr _) = Inl (Exc ''ValueError'' [])"
| "pair_of (JvObj [(k, _), (k', _)]) = Inr (k, JvStr k')"
| "pair_of (JvObj _) = Inl (Exc ''ValueError'' [])"
| "pair_of _ = Inl (Exc ''TypeError'' [])"

fun py_dict :: "jv \<Rightarrow> exc + (pystr \<times> jv) list" where
  "py_dict (JvObj kvs) = Inr kvs"
| "py_dict (JvArr vs) = rbind (rmap pair_of vs) (\<lambda>ps. Inr (dict_of ps))"
| "py_dict (JvStr []) = Inr []"
| "py_dict (JvStr _) = Inl (Exc ''ValueError'' [])"
| "py_dict _ = Inl (Exc ''TypeError'' [])"

definition pick :: "jv \<Rightarrow> pystr list \<Rightarrow> exc + (pystr \<times> jv) list" where
  "pick d ks = rmap (\<lambda>k. rbind (jindex d k) (\<lambda>v. Inr (k, v))) ks"

definition input_sections :: "jv \<Rightarrow> jv \<Rightarrow> exc + (pystr \<times> jv) list" where
  "input_sections proto_doc model_versions =
     rbind (pick proto_doc [''snapshot'', ''signal'', ''order'', ''ptc_checks'', ''hitl_override'']) (\<lambda>plain.
     rbind (pick proto_doc [''blue_node_thesis'', ''red_node_challenge'', ''judge_synthesis'',
        ''compression_summaries'', ''omega'', ''expected_value'']) (\<lambda>cognitive.
     rbind (py_dict model_versions) (\<lambda>versions.
     Inr (plain @ [(''cognitive_outputs'', JvObj cognitive), (''model_versions'', JvObj versions)]))))"

record built_manifest =
  bm_manifest_id :: pystr
  bm_digest :: pystr
  bm_document_json :: pystr
  bm_proto :: pval

definition RETENTION_SOURCES :: "pystr list" where
  "RETENTION_SOURCES = [''agent-core/README.md'', ''agent-core/shared/proto/compliance_manifest.proto'',
     ''agent-core/docs/regulatory/eu-ai-act-limited-risk-disclosure.md'',
     ''agent-core/infrastructure/docker-compose.yml'']"

definition section_digests :: "sha \<Rightarrow> (pystr \<times> jv) list \<Rightarrow> exc + (pystr \<times> jv) list" where
  "section_digests sha sections =
     rmap (\<lambda>name. rbind (digest_of sha (jget sections name)) (\<lambda>h. Inr (name, JvStr h))) INPUT_SECTIONS"

definition envelope :: "jv \<Rightarrow> (pystr \<times> pystr) list \<Rightarrow> (pystr \<times> jv) list \<Rightarrow> int \<Rightarrow> int \<Rightarrow> int \<Rightarrow> pystr \<Rightarrow> (pystr \<times> jv) list" where
  "envelope proto_doc versions digests years created until until_text =
     [(''schema_version'', JvInt SCHEMA_VERSION), (''manifest'', proto_doc),
      (''model_versions'', JvObj (map (\<lambda>nv. (fst nv, JvStr (snd nv))) versions)),
      (''input_digests'', JvObj digests),
      (''retention'', JvObj [(''years'', JvInt years), (''created_at_ns'', JvInt created),
         (''retain_until_ns'', JvInt until), (''retain_until'', JvStr until_text),
         (''basis'', JvArr (map JvStr RETENTION_SOURCES))])]"

text \<open>Assigning \<open>created_at_ns\<close> outside the int64 range raises in the protobuf message.\<close>

definition build_manifest :: "sha \<Rightarrow> int \<Rightarrow> pystr \<Rightarrow> int \<Rightarrow> manifest_inputs \<Rightarrow> exc + built_manifest" where
  "build_manifest sha clock_ns new_id retention_years i =
     rbind (guard (RETENTION_YEARS \<le> retention_years) (ManifestBuildError ''retention_years must be >= 7'')) (\<lambda>_.
     rbind (check_common i) (\<lambda>_.
     rbind (check_ptc i) (\<lambda>(hard, soft, reason).
     rbind (check_inputs_consistency i hard soft) (\<lambda>_.
     rbind (guard (0 < clock_ns) (ManifestBuildError ''clock returned a non-positive timestamp'')) (\<lambda>_.
     rbind (guard (py_strip new_id \<noteq> []) (ManifestBuildError ''manifest_id must be non-empty'')) (\<lambda>_.
     rbind (guard (clock_ns < 2 ^ 63) (Exc ''ValueError'' ''Value out of range'')) (\<lambda>_.
     let proto = assemble_proto i new_id clock_ns hard soft reason in
     rbind (message_to_canonical proto) (\<lambda>proto_doc.
     rbind (input_sections proto_doc (JvObj (map (\<lambda>nv. (fst nv, JvStr (snd nv))) (mi_model_versions i)))) (\<lambda>sections.
     rbind (retain_until_ns clock_ns retention_years) (\<lambda>until.
     rbind (section_digests sha sections) (\<lambda>digests.
     rbind (format_ns_utc until) (\<lambda>until_text.
     let document = envelope proto_doc (mi_model_versions i) digests retention_years clock_ns until until_text in
     rbind (canonical_text (JvObj document)) (\<lambda>body.
     let digest = digest_text sha body in
     rbind (canonical_text (JvObj (document @ [(''manifest_digest'', JvStr digest)]))) (\<lambda>text.
     Inr \<lparr>bm_manifest_id = new_id, bm_digest = digest, bm_document_json = text, bm_proto = proto\<rparr>))))))))))))))"

section \<open>Verification\<close>

definition REQUIRED_KEYS :: "pystr list" where
  "REQUIRED_KEYS = [''schema_version'', ''manifest'', ''model_versions'', ''input_digests'', ''retention'', ''manifest_digest'']"

definition structure_problems :: "(pystr \<times> jv) list \<Rightarrow> pystr list" where
  "structure_problems doc =
     map (\<lambda>k. ''missing key: '' @ k) (filter (\<lambda>k. map_of doc k = None) REQUIRED_KEYS)
     @ (if py_eq (jget doc ''schema_version'') (JvInt SCHEMA_VERSION) then [] else [''unsupported schema_version''])"

text \<open>\<open>int(v)\<close>; the conversion of an infinity is taken as a \<open>ValueError\<close>, as that of NaN is.\<close>

definition jint :: "jv \<Rightarrow> exc + int" where
  "jint v = (case int_of_jv v of Some i \<Rightarrow> Inr i
     | None \<Rightarrow> Inl (Exc (case v of JvStr _ \<Rightarrow> ''ValueError'' | JFloat \<Rightarrow> ''ValueError'' | _ \<Rightarrow> ''TypeError'') []))"

definition malformed :: "exc \<Rightarrow> bool" where
  "malformed e \<longleftrightarrow> exc_name e \<in> {''KeyError'', ''TypeError'', ''ValueError''}"

text \<open>The handler of the \<open>try\<close> block: what was found so far, and that the block is malformed.\<close>

definition try_problems :: "pystr list \<Rightarrow> (exc + 'a) \<Rightarrow> ('a \<Rightarrow> exc + pystr list) \<Rightarrow> exc + pystr list" where
  "try_problems found r k =
     (case r of Inr x \<Rightarrow> k x
      | Inl e \<Rightarrow> if malformed e then Inr (found @ [''retention block is malformed'']) else Inl e)"

definition retention_problems :: "jv \<Rightarrow> jv \<Rightarrow> exc + pystr list" where
  "retention_problems ret manifest =
     try_problems [] (rbind (jindex ret ''years'') jint) (\<lambda>years.
     try_problems [] (rbind (jindex ret ''created_at_ns'') jint) (\<lambda>created.
     let p1 = (if years < RETENTION_YEARS then [''retention years below the required 7''] else []) in
     try_problems p1 (jindex manifest ''created_at_ns'') (\<lambda>c.
     let p2 = p1 @ (if py_eq (JvInt created) c then [] else [''retention.created_at_ns differs from manifest.created_at_ns'']) in
     try_problems p2 (jindex ret ''retain_until_ns'') (\<lambda>u.
     try_problems p2 (retain_until_ns created years) (\<lambda>until.
     Inr (p2 @ (if py_eq u (JvInt until) then [] else [''retention.retain_until_ns is not created_at + years'']))))))) "

definition section_problem :: "sha \<Rightarrow> jv \<Rightarrow> (pystr \<times> jv) list \<Rightarrow> pystr \<Rightarrow> exc + pystr list" where
  "section_problem sha recorded sections name =
     (case recorded of JvObj rs \<Rightarrow>
        rbind (digest_of sha (jget sections name)) (\<lambda>h.
        Inr (if py_eq (jget rs name) (JvStr h) then [] else [''input digest mismatch: '' @ name]))
      | _ \<Rightarrow> Inl (Exc ''AttributeError'' []))"

definition digest_problems :: "sha \<Rightarrow> (jv \<Rightarrow> pystr) \<Rightarrow> (pystr \<times> jv) list \<Rightarrow> exc + pystr list" where
  "digest_problems sha str_of doc =
     (case input_sections (jget doc ''manifest'') (jget doc ''model_versions'') of
        Inl e \<Rightarrow> if exc_name e \<in> {''KeyError'', ''TypeError''} then Inr [''manifest block is malformed''] else Inl e
      | Inr sections \<Rightarrow>
          rbind (rmap (section_problem sha (jget doc ''input_digests'') sections) INPUT_SECTIONS) (\<lambda>ps.
          rbind (canonical_text (JvObj (filter (\<lambda>kv. fst kv \<noteq> ''manifest_digest'') doc))) (\<lambda>body.
          Inr (concat ps
            @ (if py_eq (jget doc ''manifest_digest'') (JvStr (digest_text sha body)) then [] else [''manifest_digest mismatch''])
            @ (case jget doc ''manifest'' of JvObj m \<Rightarrow>
                 if re_hash (case map_of m ''prev_manifest_hash'' of None \<Rightarrow> [] | Some v \<Rightarrow> str_of_jv str_of v) then []
                 else [''prev_manifest_hash is not a sha256 hex string'']
               | _ \<Rightarrow> [])))))"

definition verify_document :: "sha \<Rightarrow> (jv \<Rightarrow> pystr) \<Rightarrow> (pystr \<times> jv) list \<Rightarrow> exc + pystr list" where
  "verify_document sha str_of doc =
     (if structure_problems doc \<noteq> [] then Inr (structure_problems doc)
      else rbind (digest_problems sha str_of doc) (\<lambda>ds.
           rbind (retention_problems (jget doc ''retention'') (jget doc ''manifest'')) (\<lambda>rs. Inr (ds @ rs))))"

text \<open>\<open>BuiltManifest.document\<close>\<close>

definition bm_document :: "built_manifest \<Rightarrow> exc + (pystr \<times> jv) list" where
  "bm_document m = (case loads_text (bm_document_json m) of
     None \<Rightarrow> Inl (Exc ''JSONDecodeError'' []) | Some (JvObj doc) \<Rightarrow> Inr doc | Some _ \<Rightarrow> Inl (Exc ''AttributeError'' []))"

definition verify_built :: "sha \<Rightarrow> (jv \<Rightarrow> pystr) \<Rightarrow> built_manifest \<Rightarrow> exc + pystr list" where
  "verify_built sha str_of m =
     rbind (bm_document m) (\<lambda>doc.
     rbind (verify_document sha str_of doc) (\<lambda>ps.
     rbind (canonical_text (JvObj doc)) (\<lambda>text.
     Inr (ps @ (if bm_document_json m = text then [] else [''document_json is not in canonical form''])
       @ (if py_eq (jget doc ''manifest_digest'') (JvStr (bm_digest m)) then []
          else [''digest attribute differs from manifest_digest in the document''])
       @ (case message_to_canonical (bm_proto m) of
            Inl e \<Rightarrow> [''protobuf message cannot be canonicalised'']
          | Inr d \<Rightarrow> if py_eq d (jget doc ''manifest'') then []
              else [''protobuf message differs from the manifest section of the document''])))))"

section \<open>The store\<close>

text \<open>
  The directory holds the contents of the files whose name is a number of twelve digits, by number.
  A file that cannot be read is one whose content is no JSON. Creating a file succeeds, is refused,
  or leaves a torn file behind.
\<close>

type_synonym mdir = "(int \<times> pystr) list"

datatype file_write = FileWritten | CreateRefused | WriteTorn pystr

record stored_manifest =
  sm_seq :: int
  sm_manifest_id :: pystr
  sm_digest :: pystr

definition files_of :: "mdir \<Rightarrow> (int \<times> pystr) list" where
  "files_of d = sort_key fst d"

definition read_doc :: "pystr \<Rightarrow> exc + (pystr \<times> jv) list" where
  "read_doc content = (case loads_text content of
     Some (JvObj doc) \<Rightarrow> Inr doc
   | Some _ \<Rightarrow> Inl (ManifestStoreError ''not a JSON object'')
   | None \<Rightarrow> Inl (ManifestStoreError ''cannot read manifest file''))"

definition latest_digest :: "sha \<Rightarrow> (jv \<Rightarrow> pystr) \<Rightarrow> mdir \<Rightarrow> exc + pystr" where
  "latest_digest sha str_of d =
     (if files_of d = [] then Inr MANIFEST_GENESIS
      else rbind (read_doc (snd (last (files_of d)))) (\<lambda>doc.
           rbind (verify_document sha str_of doc) (\<lambda>ps.
           if ps \<noteq> [] then Inl (ManifestStoreError ''newest stored manifest is corrupt'')
           else Inr (str_of_jv str_of (jget doc ''manifest_digest'')))))"

definition get_manifest :: "sha \<Rightarrow> (jv \<Rightarrow> pystr) \<Rightarrow> mdir \<Rightarrow> int \<Rightarrow> exc + (pystr \<times> jv) list" where
  "get_manifest sha str_of d seq =
     (case map_of d seq of None \<Rightarrow> Inl (ManifestStoreError ''no manifest at sequence'')
      | Some content \<Rightarrow>
          rbind (read_doc content) (\<lambda>doc.
          rbind (verify_document sha str_of doc) (\<lambda>ps.
          if ps \<noteq> [] then Inl (ManifestStoreError ''manifest failed verification'') else Inr doc)))"

text \<open>The value of \<open>doc["manifest"]["prev_manifest_hash"]\<close>.\<close>

definition prev_link :: "(pystr \<times> jv) list \<Rightarrow> exc + jv" where
  "prev_link doc = rbind (jindex (JvObj doc) ''manifest'') (\<lambda>m. jindex m ''prev_manifest_hash'')"

text \<open>The walk of \<open>verify_store\<close>: the first problem, if any.\<close>

fun walk_store :: "sha \<Rightarrow> (jv \<Rightarrow> pystr) \<Rightarrow> int \<Rightarrow> jv \<Rightarrow> (int \<times> pystr) list \<Rightarrow> exc + pystr option" where
  "walk_store sha str_of index previous [] = Inr None"
| "walk_store sha str_of index previous ((seq, content) # rest) =
     (if seq \<noteq> index then Inr (Some ''sequence gap'')
      else case read_doc content of
        Inl e \<Rightarrow> Inr (Some ''cannot read'')
      | Inr doc \<Rightarrow>
          rbind (verify_document sha str_of doc) (\<lambda>ps.
          if ps \<noteq> [] then Inr (Some ''problems'')
          else rbind (prev_link doc) (\<lambda>link.
               if \<not> py_eq link previous then Inr (Some ''hash chain broken'')
               else walk_store sha str_of (index + 1) (jget doc ''manifest_digest'') rest)))"

definition verify_store :: "sha \<Rightarrow> (jv \<Rightarrow> pystr) \<Rightarrow> mdir \<Rightarrow> exc + bool \<times> nat \<times> pystr list" where
  "verify_store sha str_of d =
     rbind (walk_store sha str_of 1 (JvStr MANIFEST_GENESIS) (files_of d)) (\<lambda>p.
     Inr (p = None, length (files_of d), (case p of None \<Rightarrow> [] | Some t \<Rightarrow> [t])))"

text \<open>The three times a \<open>put\<close> looks at the directory: the head, the number of files, the new file.\<close>

definition put_check :: "sha \<Rightarrow> (jv \<Rightarrow> pystr) \<Rightarrow> built_manifest \<Rightarrow> mdir \<Rightarrow> exc + unit" where
  "put_check sha str_of m d =
     rbind (verify_built sha str_of m) (\<lambda>ps.
     rbind (guard (ps = []) (ManifestStoreError ''refusing to store an invalid manifest'')) (\<lambda>_.
     rbind (latest_digest sha str_of d) (\<lambda>head.
     rbind (bm_document m) (\<lambda>doc.
     rbind (prev_link doc) (\<lambda>link.
     guard (py_eq link (JvStr head)) (ManifestStoreError ''prev_manifest_hash does not match the current chain head''))))))"

definition next_seq :: "mdir \<Rightarrow> int" where
  "next_seq d = int (length (files_of d)) + 1"

definition write_exclusive :: "file_write \<Rightarrow> int \<Rightarrow> pystr \<Rightarrow> mdir \<Rightarrow> (exc + unit) \<times> mdir" where
  "write_exclusive disk seq content d =
     (if seq \<in> fst ` set d then (Inl (ManifestStoreError ''already exists: write-once violation or concurrent writer''), d)
      else case disk of
        CreateRefused \<Rightarrow> (Inl (ManifestStoreError ''cannot create''), d)
      | WriteTorn part \<Rightarrow> (Inl (ManifestStoreError ''cannot write''), d @ [(seq, part)])
      | FileWritten \<Rightarrow> (Inr (), d @ [(seq, content @ [LF])]))"

type_synonym 'a audit_sink = "pystr \<Rightarrow> pystr \<Rightarrow> jv \<Rightarrow> 'a \<Rightarrow> (exc + unit) \<times> 'a"

record store_config =
  sc_actor :: pystr
  sc_event_type :: pystr

definition FilesystemManifestStore_new :: "pystr \<Rightarrow> pystr \<Rightarrow> exc + store_config" where
  "FilesystemManifestStore_new actor event_type =
     (if py_strip actor = [] then Inl (ManifestStoreError ''actor (identity of the writing service) is required'')
      else Inr \<lparr>sc_actor = actor, sc_event_type = event_type\<rparr>)"

definition audit_payload :: "stored_manifest \<Rightarrow> (pystr \<times> jv) list \<Rightarrow> exc + jv" where
  "audit_payload stored doc =
     rbind (prev_link doc) (\<lambda>link.
     rbind (rbind (jindex (JvObj doc) ''retention'') (\<lambda>r. jindex r ''retain_until'')) (\<lambda>until.
     Inr (JvObj [(''manifest_id'', JvStr (sm_manifest_id stored)), (''seq'', JvInt (sm_seq stored)),
       (''manifest_digest'', JvStr (sm_digest stored)), (''prev_manifest_hash'', link), (''retain_until'', until),
       (''file'', JvStr (pad 12 (sm_seq stored) @ ''.json''))])))"

definition emit_audit ::
  "store_config \<Rightarrow> 'a audit_sink \<Rightarrow> stored_manifest \<Rightarrow> (pystr \<times> jv) list \<Rightarrow> 'a \<Rightarrow> (exc + unit) \<times> 'a" where
  "emit_audit c sink stored doc a =
     (case audit_payload stored doc of Inl e \<Rightarrow> (Inl e, a)
      | Inr payload \<Rightarrow>
          (case sink (sc_event_type c) (sc_actor c) payload a of
             (Inl e, a') \<Rightarrow> (Inl (Exc ''ManifestAuditError'' ''written but NOT audited''), a')
           | (Inr u, a') \<Rightarrow> (Inr u, a')))"

definition put_write ::
  "store_config \<Rightarrow> 'a audit_sink \<Rightarrow> file_write \<Rightarrow> built_manifest \<Rightarrow> int \<Rightarrow> mdir \<Rightarrow> 'a
     \<Rightarrow> (exc + stored_manifest) \<times> mdir \<times> 'a" where
  "put_write c sink disk m seq d a =
     (case write_exclusive disk seq (bm_document_json m) d of
        (Inl e, d') \<Rightarrow> (Inl e, d', a)
      | (Inr _, d') \<Rightarrow>
          let stored = \<lparr>sm_seq = seq, sm_manifest_id = bm_manifest_id m, sm_digest = bm_digest m\<rparr> in
          (case bm_document m of Inl e \<Rightarrow> (Inl e, d', a)
           | Inr doc \<Rightarrow>
               (case emit_audit c sink stored doc a of
                  (Inl e, a') \<Rightarrow> (Inl e, d', a') | (Inr _, a') \<Rightarrow> (Inr stored, d', a'))))"

definition put ::
  "sha \<Rightarrow> (jv \<Rightarrow> pystr) \<Rightarrow> store_config \<Rightarrow> 'a audit_sink \<Rightarrow> file_write \<Rightarrow> built_manifest \<Rightarrow> mdir \<Rightarrow> 'a
     \<Rightarrow> (exc + stored_manifest) \<times> mdir \<times> 'a" where
  "put sha str_of c sink disk m d a =
     (case put_check sha str_of m d of
        Inl e \<Rightarrow> (Inl e, d, a)
      | Inr _ \<Rightarrow> put_write c sink disk m (next_seq d) d a)"

definition reaudit ::
  "sha \<Rightarrow> (jv \<Rightarrow> pystr) \<Rightarrow> store_config \<Rightarrow> 'a audit_sink \<Rightarrow> int \<Rightarrow> mdir \<Rightarrow> 'a \<Rightarrow> (exc + unit) \<times> 'a" where
  "reaudit sha str_of c sink seq d a =
     (case rbind (get_manifest sha str_of d seq) (\<lambda>doc.
             rbind (rbind (jindex (JvObj doc) ''manifest'') (\<lambda>m. jindex m ''manifest_id'')) (\<lambda>mid. Inr (doc, mid))) of
        Inl e \<Rightarrow> (Inl e, a)
      | Inr (doc, mid) \<Rightarrow>
          emit_audit c sink \<lparr>sm_seq = seq, sm_manifest_id = str_of_jv str_of mid,
            sm_digest = str_of_jv str_of (jget doc ''manifest_digest'')\<rparr> doc a)"

text \<open>(An identifier that is no string would be audited as it is; here in its printed form.)\<close>

end
