(* ===== verification/Manifest_Properties.thy ===== *)
theory Manifest_Properties
  imports Manifest Audit_Log_Properties
begin

text \<open>
  The properties of the compliance manifest: a built manifest verifies; a manifest with an order
  exists only for a trade whose controls allow it; and the store stays a chain.
\<close>

section \<open>Encoded messages\<close>

text \<open>Field names are distinct, as in every descriptor.\<close>

fun wf_msg :: "pval \<Rightarrow> bool" and wf_field :: "pfield \<Rightarrow> bool" where
  "wf_msg (PMsg n fs) \<longleftrightarrow> distinct (map fst fs) \<and> list_all (\<lambda>kf. wf_field (snd kf)) fs"
| "wf_msg v \<longleftrightarrow> True"
| "wf_field (One v) \<longleftrightarrow> wf_msg v"
| "wf_field (Many vs) \<longleftrightarrow> list_all wf_msg vs"
| "wf_field f \<longleftrightarrow> True"

lemma rmap_list_all:
  assumes "rmap f xs = Inr ys" "\<And>x y. x \<in> set xs \<Longrightarrow> f x = Inr y \<Longrightarrow> P y"
  shows "list_all P ys"
  using assms
proof (induction xs arbitrary: ys)
  case (Cons x xs)
  then obtain y zs where "f x = Inr y" "rmap f xs = Inr zs" "ys = y # zs" by (auto simp: rbind_eq_Inr)
  moreover have "list_all P zs" using Cons.IH [of zs] Cons.prems(2) calculation(2) by auto
  ultimately show ?case using Cons.prems(2) [of x y] by simp
qed simp

lemma rmap_keys:
  "rmap (\<lambda>kf. rbind (g (snd kf)) (\<lambda>v. Inr (fst kf, v))) fs = Inr kvs \<Longrightarrow> map fst kvs = map fst fs"
  by (induction fs arbitrary: kvs) (auto simp: rbind_eq_Inr)

lemma scalar_printable: "scalar v = Inr d \<Longrightarrow> printable d"
  by (cases v) (auto simp: rbind_eq_Inr float_text_def split: dec.splits option.splits)

lemma message_printable:
  "message_to_canonical v = Inr d \<Longrightarrow> wf_msg v \<Longrightarrow> printable d"
  "field_doc f = Inr d \<Longrightarrow> wf_field f \<Longrightarrow> printable d"
proof (induction v and f arbitrary: d and d rule: message_to_canonical_field_doc.induct)
  case (1 n fs)
  from "1.prems"(1) obtain kvs where kvs: "rmap (\<lambda>kf. rbind (field_doc (snd kf)) (\<lambda>v. Inr (fst kf, v))) fs = Inr kvs"
    "d = JvObj kvs" by (auto simp: rbind_eq_Inr)
  have "list_all (\<lambda>kv. printable (snd kv)) kvs"
    by (rule rmap_list_all [OF kvs(1)]) (use 1 in \<open>auto simp: rbind_eq_Inr list_all_iff\<close>)
  then show ?case using kvs rmap_keys [OF kvs(1)] "1.prems"(2) by simp
next
  case (4 vs)
  from "4.prems"(1) obtain ds where ds: "rmap message_to_canonical vs = Inr ds" "d = JvArr ds"
    by (auto simp: rbind_eq_Inr)
  have "list_all printable ds"
    by (rule rmap_list_all [OF ds(1)]) (use 4 in \<open>auto simp: list_all_iff\<close>)
  then show ?case using ds by simp
qed (auto simp: rbind_eq_Inr split: option.splits)

section \<open>Reading a document back\<close>

lemma printable_no_nan: "printable v \<Longrightarrow> \<not> has_nan v"
proof (induction v)
  case (JvObj kvs)
  then show ?case by (auto simp: list_all_iff list_ex_iff snds.simps)
qed (auto simp: list_all_iff list_ex_iff)

lemma printable_sort_obj: "printable v \<Longrightarrow> printable (sort_obj v)"
proof (induction v)
  case (JvObj kvs)
  let ?m = "map (\<lambda>kv. (fst kv, sort_obj (snd kv))) kvs"
  have "distinct (map fst (sort_key fst ?m))"
    using JvObj.prems normal_sort_obj [of "JvObj kvs"] by (simp add: strict_sorted_iff)
  then show ?case using JvObj by (auto simp: list_all_iff snds.simps)
qed (auto simp: list_all_iff)

lemma cmp_form_sort_obj: "cmp_form (sort_obj v) = cmp_form v"
proof (induction v)
  case (JvObj kvs)
  have eq: "map (\<lambda>kv. (fst kv, cmp_form (sort_obj (snd kv)))) kvs = map (\<lambda>kv. (fst kv, cmp_form (snd kv))) kvs"
    using JvObj by (auto simp: snds.simps)
  show ?case
    unfolding sort_obj.simps cmp_form.simps sort_key_map_values [symmetric]
    by (simp add: comp_def eq sort_key_id_if_sorted)
qed (simp_all add: comp_def cong: map_cong)

lemma py_eq_sort_obj [simp]: "py_eq v (sort_obj v)" "py_eq v v"
  by (simp_all add: py_eq_def cmp_form_sort_obj)

lemma digest_of_sort_obj: "printable v \<Longrightarrow> digest_of sha (sort_obj v) = digest_of sha v"
  using printable_no_nan [OF printable_sort_obj] printable_no_nan
  by (simp add: digest_of_def dumps_sort_obj)

lemma dumps_map_sort: "dumps (JvObj (map (\<lambda>kv. (fst kv, sort_obj (snd kv))) kvs)) = dumps (JvObj kvs)"
  by (simp add: comp_def dumps_sort_obj)

lemma jindex_sort_obj:
  assumes "printable d"
  shows "jindex (sort_obj d) k = (case jindex d k of Inl e \<Rightarrow> Inl e | Inr v \<Rightarrow> Inr (sort_obj v))"
proof (cases d)
  case (JvObj kvs)
  from map_of_sort_obj [of kvs] assms JvObj obtain kvs' where "sort_obj d = JvObj kvs'"
    "\<forall>k. map_of kvs' k = map_option sort_obj (map_of kvs k)" by auto
  then show ?thesis using JvObj by (simp add: jindex_def split: option.split)
qed (simp_all add: jindex_def)

lemma pick_sort_obj:
  assumes "printable d"
  shows "pick (sort_obj d) ks =
    (case pick d ks of Inl e \<Rightarrow> Inl e | Inr kvs \<Rightarrow> Inr (map (\<lambda>kv. (fst kv, sort_obj (snd kv))) kvs))"
  by (induction ks) (auto simp: pick_def jindex_sort_obj [OF assms] rbind_def split: sum.splits)

section \<open>A built manifest verifies\<close>

text \<open>The sections of the sorted document have the digests of the sections.\<close>

lemma pick_keys: "pick d ks = Inr kvs \<Longrightarrow> map fst kvs = ks"
  unfolding pick_def by (induction ks arbitrary: kvs) (auto simp: rbind_eq_Inr)

lemma jindex_printable: "jindex d k = Inr v \<Longrightarrow> printable d \<Longrightarrow> printable v"
  by (cases d) (auto simp: jindex_def list_all_iff dest!: map_of_SomeD split: option.splits)

lemma pick_printable: "pick d ks = Inr kvs \<Longrightarrow> printable d \<Longrightarrow> list_all (\<lambda>kv. printable (snd kv)) kvs"
  unfolding pick_def by (erule rmap_list_all) (auto simp: rbind_eq_Inr dest: jindex_printable)

lemma map_of_map_sort: "map_of (map (\<lambda>kv. (fst kv, sort_obj (snd kv))) kvs) k = map_option sort_obj (map_of kvs k)"
  by (induction kvs) auto

definition same_digests :: "(pystr \<times> jv) list \<Rightarrow> (pystr \<times> jv) list \<Rightarrow> bool" where
  "same_digests xs ys \<longleftrightarrow> (\<forall>sha k. digest_of sha (jget xs k) = digest_of sha (jget ys k))"

lemma input_sections_sorted:
  assumes "input_sections pd (JvObj mv) = Inr ss" "printable pd" "printable (JvObj mv)"
  shows "\<exists>ss'. input_sections (sort_obj pd) (sort_obj (JvObj mv)) = Inr ss' \<and> same_digests ss' ss
     \<and> list_all (\<lambda>kv. printable (snd kv)) ss"
proof -
  let ?sorted = "map (\<lambda>kv. (fst kv, sort_obj (snd kv)))"
  let ?plain = "[''snapshot'', ''signal'', ''order'', ''ptc_checks'', ''hitl_override'']"
  let ?cog = "[''blue_node_thesis'', ''red_node_challenge'', ''judge_synthesis'', ''compression_summaries'', ''omega'',
    ''expected_value'']"
  from assms(1) obtain pl cog where p: "pick pd ?plain = Inr pl" "pick pd ?cog = Inr cog"
    and ss: "ss = pl @ [(''cognitive_outputs'', JvObj cog), (''model_versions'', JvObj mv)]"
    by (auto simp: input_sections_def rbind_eq_Inr)
  obtain mv' where mv': "sort_obj (JvObj mv) = JvObj mv'" by simp
  let ?ss' = "?sorted pl @ [(''cognitive_outputs'', JvObj (?sorted cog)), (''model_versions'', JvObj mv')]"
  have "input_sections (sort_obj pd) (sort_obj (JvObj mv)) = Inr ?ss'"
    using p unfolding mv' by (simp add: input_sections_def pick_sort_obj [OF assms(2)])
  moreover have pr: "list_all (\<lambda>kv. printable (snd kv)) ss"
    using pick_printable [OF p(1) assms(2)] pick_printable [OF p(2) assms(2)] assms(3)
      arg_cong [OF pick_keys [OF p(2)], of distinct] by (simp add: ss)
  moreover have "digest_of sha (jget ?ss' k) = digest_of sha (jget ss k)" for sha k
  proof (cases "map_of pl k")
    case (Some v)
    then have "printable v" using pr map_of_SomeD [OF Some] by (auto simp: ss list_all_iff)
    then show ?thesis using Some by (simp add: jget_def ss map_add_def map_of_map_sort digest_of_sort_obj)
  next
    case None
    have "digest_of sha (JvObj (?sorted cog)) = digest_of sha (JvObj cog)"
      using printable_no_nan [of "JvObj cog"] printable_no_nan [of "sort_obj (JvObj cog)"] printable_sort_obj [of "JvObj cog"] pr
      unfolding digest_of_def dumps_map_sort by (auto simp: ss list_ex_iff)
    moreover have "digest_of sha (JvObj mv') = digest_of sha (JvObj mv)"
      using digest_of_sort_obj [OF assms(3)] mv' by simp
    ultimately show ?thesis using None by (simp add: jget_def ss map_add_def map_of_map_sort)
  qed
  ultimately show ?thesis unfolding same_digests_def by blast
qed

lemma section_digests_lookup:
  "rmap (\<lambda>name. rbind (digest_of sha (jget ss name)) (\<lambda>h. Inr (name, JvStr h))) names = Inr ds \<Longrightarrow> name \<in> set names \<Longrightarrow>
     \<exists>h. digest_of sha (jget ss name) = Inr h \<and> map_of ds name = Some (JvStr h)"
  by (induction names arbitrary: ds) (auto simp: rbind_eq_Inr)

lemma section_digests_printable:
  "section_digests sha ss = Inr ds \<Longrightarrow> map fst ds = INPUT_SECTIONS \<and> list_all (\<lambda>kv. printable (snd kv)) ds"
proof -
  have "rmap (\<lambda>name. rbind (digest_of sha (jget ss name)) (\<lambda>h. Inr (name, JvStr h))) names = Inr ds \<Longrightarrow>
      map fst ds = names \<and> list_all (\<lambda>kv. printable (snd kv)) ds" for names
    by (induction names arbitrary: ds) (auto simp: rbind_eq_Inr)
  then show "section_digests sha ss = Inr ds \<Longrightarrow> ?thesis" by (simp add: section_digests_def)
qed

lemma rmap_const: "(\<And>x. x \<in> set xs \<Longrightarrow> f x = Inr c) \<Longrightarrow> rmap f xs = Inr (map (\<lambda>_. c) xs)"
  by (induction xs) auto

lemma section_problems_none:
  assumes "section_digests sha ss = Inr ds" "same_digests ss' ss" "\<forall>k. map_of rs k = map_option sort_obj (map_of ds k)"
  shows "rmap (section_problem sha (JvObj rs) ss') INPUT_SECTIONS = Inr (map (\<lambda>_. []) INPUT_SECTIONS)"
proof (rule rmap_const)
  fix name assume "name \<in> set INPUT_SECTIONS"
  with assms(1) obtain h where "digest_of sha (jget ss name) = Inr h" "map_of ds name = Some (JvStr h)"
    using section_digests_lookup [of sha ss INPUT_SECTIONS ds name] by (auto simp: section_digests_def)
  then show "section_problem sha (JvObj rs) ss' name = Inr []"
    using assms(2,3) by (simp add: section_problem_def same_digests_def jget_def)
qed

text \<open>The document without its digest, read back and sorted.\<close>

lemma filter_sorted_digest:
  assumes "''manifest_digest'' \<notin> fst ` set env"
    and "sort_obj (JvObj (env @ [(''manifest_digest'', v)])) = JvObj doc"
  shows "JvObj (filter (\<lambda>kv. fst kv \<noteq> ''manifest_digest'') doc) = sort_obj (JvObj env)"
proof -
  have "filter (\<lambda>kv. fst kv \<noteq> ''manifest_digest'') (map (\<lambda>kv. (fst kv, sort_obj (snd kv))) env)
      = map (\<lambda>kv. (fst kv, sort_obj (snd kv))) env"
    using assms(1) by (fastforce simp: filter_id_conv image_iff)
  then show ?thesis using assms(2) by (auto simp: filter_sort)
qed

text \<open>What a manifest document says, as the store and the verification read it.\<close>


definition states :: "(pystr \<times> jv) list \<Rightarrow> pystr \<Rightarrow> pystr \<Rightarrow> bool" where
  "states doc prev digest \<longleftrightarrow> prev_link doc = Inr (JvStr prev) \<and> map_of doc ''manifest_digest'' = Some (JvStr digest)
     \<and> (\<exists>ut. rbind (jindex (JvObj doc) ''retention'') (\<lambda>r. jindex r ''retain_until'') = Inr (JvStr ut))"

lemma retention_problems_none:
  assumes "map_of rkvs ''years'' = Some (JvInt years)" "map_of rkvs ''created_at_ns'' = Some (JvInt created)"
    "map_of rkvs ''retain_until_ns'' = Some (JvInt until)" "retain_until_ns created years = Inr until"
    "map_of mkvs ''created_at_ns'' = Some (JvInt created)" "RETENTION_YEARS \<le> years"
  shows "retention_problems (JvObj rkvs) (JvObj mkvs) = Inr []"
  using assms by (simp add: retention_problems_def try_problems_def jindex_def jint_def)

definition wf_inputs :: "manifest_inputs \<Rightarrow> bool" where
  "wf_inputs i \<longleftrightarrow> wf_msg (mi_snapshot i) \<and> wf_msg (mi_signal i) \<and> (\<forall>m \<in> set_option (mi_order i). wf_msg m)
     \<and> (\<forall>m \<in> set_option (mi_hitl_override i). wf_msg m) \<and> list_all wf_msg (mi_ptc_checks i)
     \<and> distinct (map fst (mi_model_versions i))"

lemma assembled_names: "distinct (map fst (msg_fields (assemble_proto i mid c hard soft reason)))"
proof -
  have "map fst (msg_fields (assemble_proto i mid c hard soft reason)) =
    [''manifest_id'', ''prev_manifest_hash'', ''created_at_ns'', ''snapshot'', ''omega'', ''expected_value'',
     ''blue_node_thesis'', ''red_node_challenge'', ''judge_synthesis'', ''compression_summaries'', ''ptc_checks'',
     ''hard_block_triggered'', ''soft_block_triggered'', ''soft_block_reason'', ''hitl_override_occurred'',
     ''hitl_override'', ''signal'', ''order'', ''post_trade'', ''mar_flag_triggered'', ''mar_flag_reason'']"
    by (simp add: assemble_proto_def Let_def)
  then show ?thesis by simp
qed

lemma assemble_proto_wf: "wf_inputs i \<Longrightarrow> wf_msg (assemble_proto i mid c hard soft reason)"
proof -
  assume i: "wf_inputs i"
  obtain n fs where m: "assemble_proto i mid c hard soft reason = PMsg n fs" by (simp add: assemble_proto_def Let_def)
  have "wf_field (sub_msg (mi_order i))" "wf_field (sub_msg (mi_hitl_override i))"
    using i by (auto simp: wf_inputs_def sub_msg_def split: option.splits)
  then have "list_all (\<lambda>kf. wf_field (snd kf)) (msg_fields (assemble_proto i mid c hard soft reason))"
    using i by (simp add: assemble_proto_def Let_def wf_inputs_def list_all_iff)
  then show ?thesis using assembled_names [of i mid c hard soft reason] unfolding m by simp
qed

lemma message_field:
  assumes "message_to_canonical (PMsg n fs) = Inr d" "map_of fs k = Some f" "field_doc f = Inr v"
  shows "\<exists>kvs. d = JvObj kvs \<and> map_of kvs k = Some v"
proof -
  from assms(1) obtain kvs where d: "d = JvObj kvs"
    and r: "rmap (\<lambda>kf. rbind (field_doc (snd kf)) (\<lambda>v. Inr (fst kf, v))) fs = Inr kvs"
    by (auto simp: rbind_eq_Inr)
  have "map_of kvs k = Some v" using r assms(2) by (induction fs arbitrary: kvs) (auto simp: rbind_eq_Inr assms(3) split: if_splits)
  then show ?thesis using d by simp
qed

lemma assembled_doc:
  assumes "message_to_canonical (assemble_proto i mid c hard soft reason) = Inr pd"
  shows "\<exists>mkvs. pd = JvObj mkvs \<and> map_of mkvs ''prev_manifest_hash'' = Some (JvStr (mi_prev_manifest_hash i))
     \<and> map_of mkvs ''created_at_ns'' = Some (JvInt c) \<and> map_of mkvs ''manifest_id'' = Some (JvStr mid)"
proof -
  obtain n fs where m: "assemble_proto i mid c hard soft reason = PMsg n fs"
    and f: "map_of fs ''prev_manifest_hash'' = Some (One (PStr (mi_prev_manifest_hash i)))"
      "map_of fs ''created_at_ns'' = Some (One (PInt c))" "map_of fs ''manifest_id'' = Some (One (PStr mid))"
    by (simp add: assemble_proto_def Let_def)
  show ?thesis using message_field [OF assms [unfolded m] f(1)] message_field [OF assms [unfolded m] f(2)]
      message_field [OF assms [unfolded m] f(3)] by auto
qed

text \<open>The parts a built manifest is made of.\<close>

lemma build_manifest_Inr:
  assumes "build_manifest sha now mid years i = Inr m"
  obtains hard soft reason pd ss until ds ut where
    "check_common i = Inr ()" "check_ptc i = Inr (hard, soft, reason)" "check_inputs_consistency i hard soft = Inr ()"
    "RETENTION_YEARS \<le> years" "bm_proto m = assemble_proto i mid now hard soft reason"
    "message_to_canonical (bm_proto m) = Inr pd"
    "input_sections pd (JvObj (map (\<lambda>nv. (fst nv, JvStr (snd nv))) (mi_model_versions i))) = Inr ss"
    "retain_until_ns now years = Inr until" "section_digests sha ss = Inr ds"
    "bm_digest m = digest_text sha (dumps (JvObj (envelope pd (mi_model_versions i) ds years now until ut)))"
    "bm_document_json m = dumps (JvObj (envelope pd (mi_model_versions i) ds years now until ut
       @ [(''manifest_digest'', JvStr (bm_digest m))]))"
    "bm_manifest_id m = mid"
  using assms unfolding build_manifest_def
  by (auto simp: rbind_eq_Inr Let_def canonical_text_def split: prod.splits if_splits)

lemma envelope_printable:
  assumes "printable pd" "section_digests sha ss = Inr ds" "distinct (map fst versions)"
  shows "printable (JvObj (envelope pd versions ds years now until ut @ [(''manifest_digest'', JvStr h)]))"
proof -
  have "distinct INPUT_SECTIONS" by (simp add: INPUT_SECTIONS_def)
  then have "printable (JvObj ds)" using section_digests_printable [OF assms(2)] by simp
  moreover have "printable (JvObj (map (\<lambda>nv. (fst nv, JvStr (snd nv))) versions))"
    using assms(3) by (auto simp: comp_def list_all_iff)
  ultimately show ?thesis using assms(1) by (simp add: envelope_def RETENTION_SOURCES_def)
qed

abbreviation versions_doc :: "(pystr \<times> pystr) list \<Rightarrow> (pystr \<times> jv) list" where
  "versions_doc versions \<equiv> map (\<lambda>nv. (fst nv, JvStr (snd nv))) versions"

abbreviation retention_doc :: "int \<Rightarrow> int \<Rightarrow> int \<Rightarrow> pystr \<Rightarrow> (pystr \<times> jv) list" where
  "retention_doc years now until ut \<equiv> [(''years'', JvInt years), (''created_at_ns'', JvInt now),
     (''retain_until_ns'', JvInt until), (''retain_until'', JvStr ut), (''basis'', JvArr (map JvStr RETENTION_SOURCES))]"

lemma envelope_lookup:
  "map_of (envelope pd versions ds years now until ut @ x) ''schema_version'' = Some (JvInt SCHEMA_VERSION)"
  "map_of (envelope pd versions ds years now until ut @ x) ''manifest'' = Some pd"
  "map_of (envelope pd versions ds years now until ut @ x) ''model_versions'' = Some (JvObj (versions_doc versions))"
  "map_of (envelope pd versions ds years now until ut @ x) ''input_digests'' = Some (JvObj ds)"
  "map_of (envelope pd versions ds years now until ut @ x) ''retention'' = Some (JvObj (retention_doc years now until ut))"
  "map_of (envelope pd versions ds years now until ut @ [(''manifest_digest'', v)]) ''manifest_digest'' = Some v"
  "''manifest_digest'' \<notin> fst ` set (envelope pd versions ds years now until ut)"
  by (simp_all add: envelope_def)

lemma body_text:
  assumes "printable (JvObj env)" "''manifest_digest'' \<notin> fst ` set env"
    and "sort_obj (JvObj (env @ [(''manifest_digest'', v)])) = JvObj doc"
  shows "canonical_text (JvObj (filter (\<lambda>kv. fst kv \<noteq> ''manifest_digest'') doc)) = Inr (dumps (JvObj env))"
  using printable_no_nan [OF printable_sort_obj [OF assms(1)]] dumps_sort_obj [of "JvObj env"]
  unfolding filter_sorted_digest [OF assms(2,3)] by (simp only: canonical_text_def if_False)

text \<open>The digests of a document are recomputed from what was read back.\<close>

lemma digest_problems_none:
  assumes pd: "printable (JvObj mkvs)" "map_of mkvs ''prev_manifest_hash'' = Some (JvStr prev)" "re_hash prev"
    and ss: "input_sections (JvObj mkvs) (JvObj (versions_doc versions)) = Inr ss" "distinct (map fst versions)"
    and ds: "section_digests sha ss = Inr ds"
    and env: "env = envelope (JvObj mkvs) versions ds years now until ut"
    and doc: "sort_obj (JvObj (env @ [(''manifest_digest'', JvStr (digest_text sha (dumps (JvObj env))))])) = JvObj doc"
      "\<forall>k. map_of doc k = map_option sort_obj (map_of (env @ [(''manifest_digest'', JvStr (digest_text sha (dumps (JvObj env))))]) k)"
  shows "digest_problems sha str_of doc = Inr []"
proof -
  have p: "printable (JvObj env)"
    using envelope_printable [OF pd(1) ds ss(2), of years now until ut] by (simp add: env)
  have mv: "printable (JvObj (versions_doc versions))" using ss(2) by (auto simp: comp_def list_all_iff)
  from input_sections_sorted [OF ss(1) pd(1) mv] obtain ss' where
    ss': "input_sections (sort_obj (JvObj mkvs)) (sort_obj (JvObj (versions_doc versions))) = Inr ss'" "same_digests ss' ss"
    by blast
  have "distinct (map fst ds)" using section_digests_printable [OF ds] by (simp add: INPUT_SECTIONS_def)
  from map_of_sort_obj [OF this] obtain rs where rs: "sort_obj (JvObj ds) = JvObj rs"
    "\<forall>k. map_of rs k = map_option sort_obj (map_of ds k)" by blast
  from map_of_sort_obj [of mkvs] pd(1) obtain ms where ms: "sort_obj (JvObj mkvs) = JvObj ms"
    "\<forall>k. map_of ms k = map_option sort_obj (map_of mkvs k)" by auto
  have g: "jget doc ''manifest'' = JvObj ms" "jget doc ''model_versions'' = sort_obj (JvObj (versions_doc versions))"
    "jget doc ''input_digests'' = JvObj rs" "jget doc ''manifest_digest'' = JvStr (digest_text sha (dumps (JvObj env)))"
    using rs(1) ms(1) unfolding jget_def doc(2) [rule_format] env
    by (simp_all add: envelope_lookup del: sort_obj.simps(2) map_of_append dumps.simps)
  have none: "concat (map (\<lambda>_. []) INPUT_SECTIONS) = []" by simp
  show ?thesis
    using ss'(1) section_problems_none [OF ds ss'(2) rs(2)] body_text [OF p _ doc(1)] envelope_lookup(7) ms(2) pd(2,3) none
    unfolding digest_problems_def g ms(1) env
    by (simp add: str_of_jv_def del: sort_obj.simps(2) map_of_append dumps.simps)
qed

lemma envelope_verifies:
  assumes pd: "printable (JvObj mkvs)" "map_of mkvs ''prev_manifest_hash'' = Some (JvStr prev)" "re_hash prev"
      "map_of mkvs ''created_at_ns'' = Some (JvInt now)"
    and ss: "input_sections (JvObj mkvs) (JvObj (versions_doc versions)) = Inr ss" "distinct (map fst versions)"
    and ds: "section_digests sha ss = Inr ds"
    and ret: "retain_until_ns now years = Inr until" "RETENTION_YEARS \<le> years"
    and env: "env = envelope (JvObj mkvs) versions ds years now until ut" "h = digest_text sha (dumps (JvObj env))"
  shows "\<exists>doc. sort_obj (JvObj (env @ [(''manifest_digest'', JvStr h)])) = JvObj doc
     \<and> verify_document sha str_of doc = Inr [] \<and> states doc prev h \<and> py_eq (JvObj mkvs) (jget doc ''manifest'')"
proof -
  let ?D = "env @ [(''manifest_digest'', JvStr h)]"
  have "printable (JvObj ?D)" unfolding env(1) by (rule envelope_printable [OF pd(1) ds ss(2)])
  then have "distinct (map fst ?D)" by simp
  from map_of_sort_obj [OF this] obtain doc where doc: "sort_obj (JvObj ?D) = JvObj doc"
    "\<forall>k. map_of doc k = map_option sort_obj (map_of ?D k)" by blast
  from map_of_sort_obj [of mkvs] pd(1) obtain ms where ms: "sort_obj (JvObj mkvs) = JvObj ms"
    "\<forall>k. map_of ms k = map_option sort_obj (map_of mkvs k)" by auto
  have "distinct (map fst (retention_doc years now until ut))" by simp
  from map_of_sort_obj [OF this] obtain rk where rk: "sort_obj (JvObj (retention_doc years now until ut)) = JvObj rk"
    "\<forall>k. map_of rk k = map_option sort_obj (map_of (retention_doc years now until ut) k)" by blast
  have look: "map_of doc ''schema_version'' = Some (JvInt SCHEMA_VERSION)" "map_of doc ''manifest'' = Some (JvObj ms)"
    "map_of doc ''model_versions'' \<noteq> None" "map_of doc ''input_digests'' \<noteq> None"
    "map_of doc ''retention'' = Some (JvObj rk)" "map_of doc ''manifest_digest'' = Some (JvStr h)"
    unfolding doc(2) [rule_format] env(1)
    by (simp_all add: envelope_lookup ms(1) rk(1) del: sort_obj.simps(2) map_of_append dumps.simps)
  have "structure_problems doc = []"
    using look by (simp add: structure_problems_def REQUIRED_KEYS_def jget_def)
  moreover have "digest_problems sha str_of doc = Inr []"
    by (rule digest_problems_none [OF pd(1-3) ss ds env(1)]) (use doc env(2) in simp_all)
  moreover have "retention_problems (jget doc ''retention'') (jget doc ''manifest'') = Inr []"
    using look retention_problems_none [of rk years now until ms] rk(2) ms(2) pd(4) ret by (simp add: jget_def)
  ultimately have "verify_document sha str_of doc = Inr []" by (simp add: verify_document_def)
  moreover have "states doc prev h"
    using look ms(2) rk(2) pd(2) by (simp add: states_def prev_link_def jindex_def)
  moreover have "py_eq (JvObj mkvs) (jget doc ''manifest'')"
    using look(2) py_eq_sort_obj(1) [of "JvObj mkvs"] unfolding ms(1) by (simp add: jget_def)
  ultimately show ?thesis using doc(1) by blast
qed

lemma check_common_hash: "check_common i = Inr () \<Longrightarrow> re_hash (mi_prev_manifest_hash i)"
  by (auto simp: check_common_def rbind_eq_Inr)

lemma built_manifest_document:
  assumes "build_manifest sha now mid years i = Inr m" "wf_inputs i"
  shows "\<exists>doc. bm_document m = Inr doc \<and> read_doc (bm_document_json m @ [LF]) = Inr doc
     \<and> verify_document sha str_of doc = Inr [] \<and> verify_built sha str_of m = Inr []
     \<and> states doc (mi_prev_manifest_hash i) (bm_digest m)"
proof -
  obtain hard soft reason pd ss until ds ut where f:
    "check_common i = Inr ()" "check_ptc i = Inr (hard, soft, reason)" "check_inputs_consistency i hard soft = Inr ()"
    "RETENTION_YEARS \<le> years" "bm_proto m = assemble_proto i mid now hard soft reason"
    "message_to_canonical (bm_proto m) = Inr pd"
    "input_sections pd (JvObj (versions_doc (mi_model_versions i))) = Inr ss"
    "retain_until_ns now years = Inr until" "section_digests sha ss = Inr ds"
    "bm_digest m = digest_text sha (dumps (JvObj (envelope pd (mi_model_versions i) ds years now until ut)))"
    "bm_document_json m = dumps (JvObj (envelope pd (mi_model_versions i) ds years now until ut
       @ [(''manifest_digest'', JvStr (bm_digest m))]))"
    "bm_manifest_id m = mid"
    by (rule build_manifest_Inr [OF assms(1)])
  obtain mkvs where mkvs: "pd = JvObj mkvs" "map_of mkvs ''prev_manifest_hash'' = Some (JvStr (mi_prev_manifest_hash i))"
    "map_of mkvs ''created_at_ns'' = Some (JvInt now)"
    using assembled_doc f(5,6) by metis
  have pd: "printable (JvObj mkvs)"
    using message_printable(1) [OF f(6)] f(5) assemble_proto_wf [OF assms(2)] mkvs(1) by simp
  have wf: "distinct (map fst (mi_model_versions i))" using assms(2) by (simp add: wf_inputs_def)
  let ?D = "envelope pd (mi_model_versions i) ds years now until ut @ [(''manifest_digest'', JvStr (bm_digest m))]"
  from envelope_verifies [OF pd mkvs(2) check_common_hash [OF f(1)] mkvs(3) f(7) [unfolded mkvs(1)] wf f(9,8,4) refl refl, where str_of = str_of and ut = ut]
  obtain doc where doc: "sort_obj (JvObj ?D) = JvObj doc" "verify_document sha str_of doc = Inr []"
    "states doc (mi_prev_manifest_hash i) (bm_digest m)" "py_eq pd (jget doc ''manifest'')"
    unfolding f(10) mkvs(1) by blast
  have D: "printable (JvObj ?D)" unfolding mkvs(1) by (rule envelope_printable [OF pd f(9) wf])
  have "bm_document m = Inr doc" "read_doc (bm_document_json m @ [LF]) = Inr doc"
    using loads_dumps_sorted [OF D] loads_dumps_line [OF D] unfolding bm_document_def read_doc_def f(11) doc(1) by simp_all
  moreover have "canonical_text (JvObj doc) = Inr (bm_document_json m)"
    using printable_no_nan [OF printable_sort_obj [OF D]] dumps_sort_obj [of "JvObj ?D"]
    unfolding canonical_text_def f(11) doc(1) by simp
  moreover have "jget doc ''manifest_digest'' = JvStr (bm_digest m)" using doc(3) by (simp add: states_def jget_def)
  ultimately show ?thesis using doc f(6) by (auto simp: verify_built_def)
qed

text \<open>
  C25: A manifest that was built verifies: every input digest, the manifest digest, the retention
  arithmetic, the canonical form of its text and the agreement with its protobuf message hold, and
  the document carries the previous digest it was built with.
\<close>

theorem built_manifest_verifies:
  assumes "build_manifest sha now mid years i = Inr m" "wf_inputs i"
  shows "verify_built sha str_of m = Inr []
     \<and> (\<exists>doc. bm_document m = Inr doc \<and> prev_link doc = Inr (JvStr (mi_prev_manifest_hash i))
          \<and> map_of doc ''manifest_digest'' = Some (JvStr (bm_digest m)))"
  using built_manifest_document [OF assms, of str_of] by (auto simp: states_def)

text \<open>Nothing else can go wrong: with these checks passed, a manifest is built.\<close>

lemma section_digests_total:
  assumes "list_all (\<lambda>kv. printable (snd kv)) ss"
  shows "\<exists>ds. section_digests sha ss = Inr ds"
proof -
  have "digest_of sha (jget ss k) = Inr (digest_text sha (dumps (jget ss k)))" for k
  proof (cases "map_of ss k")
    case (Some v)
    then have "printable v" using assms map_of_SomeD [OF Some] by (auto simp: list_all_iff)
    then show ?thesis using Some printable_no_nan [of v] by (simp add: digest_of_def jget_def)
  qed (simp add: digest_of_def jget_def)
  then have "rmap (\<lambda>name. rbind (digest_of sha (jget ss name)) (\<lambda>h. Inr (name, JvStr h))) ns
      = Inr (map (\<lambda>name. (name, JvStr (digest_text sha (dumps (jget ss name))))) ns)" for ns
    by (induction ns) simp_all
  then show ?thesis by (simp add: section_digests_def)
qed

lemma build_manifest_returns:
  assumes "check_common i = Inr ()" "check_ptc i = Inr (hard, soft, reason)" "check_inputs_consistency i hard soft = Inr ()"
    and "RETENTION_YEARS \<le> years" "0 < now" "now < 2 ^ 63" "py_strip mid \<noteq> []" "wf_inputs i"
    and "message_to_canonical (assemble_proto i mid now hard soft reason) = Inr pd"
    and "input_sections pd (JvObj (versions_doc (mi_model_versions i))) = Inr ss"
    and "retain_until_ns now years = Inr until" "format_ns_utc until = Inr ut"
  shows "\<exists>m. build_manifest sha now mid years i = Inr m"
proof -
  have pd: "printable pd" using message_printable(1) [OF assms(9)] assemble_proto_wf [OF assms(8)] by simp
  have wf: "distinct (map fst (mi_model_versions i))" using assms(8) by (simp add: wf_inputs_def)
  have "printable (JvObj (versions_doc (mi_model_versions i)))" using wf by (auto simp: comp_def list_all_iff)
  then obtain ds where ds: "section_digests sha ss = Inr ds"
    using input_sections_sorted [OF assms(10) pd] section_digests_total by blast
  let ?env = "envelope pd (mi_model_versions i) ds years now until ut"
  have "\<not> has_nan (JvObj (?env @ [(''manifest_digest'', JvStr h)]))" for h
    by (rule printable_no_nan [OF envelope_printable [OF pd ds wf]])
  moreover then have "\<not> has_nan (JvObj ?env)" by simp
  ultimately show ?thesis using assms ds
    by (simp add: build_manifest_def guard_def canonical_text_def Let_def del: dumps.simps has_nan.simps)
qed

section \<open>Controls\<close>

definition failed_check :: "pval \<Rightarrow> int \<Rightarrow> bool" where
  "failed_check c ty \<longleftrightarrow> \<not> bool_attr c ''passed'' \<and> enum_attr c ''ptc_type'' = ty"

lemma ptc_loop_Inr:
  "ptc_loop cs hard soft reasons = Inr (h, s, rs) \<Longrightarrow>
     (h \<longleftrightarrow> hard \<or> (\<exists>c \<in> set cs. failed_check c HARD_BLOCK)) \<and> (s \<longleftrightarrow> soft \<or> (\<exists>c \<in> set cs. failed_check c SOFT_BLOCK))"
proof (induction cs arbitrary: hard soft reasons)
  case (Cons c cs)
  have "HARD_BLOCK \<noteq> SOFT_BLOCK" by (simp add: HARD_BLOCK_def SOFT_BLOCK_def)
  with Cons.prems show ?case
    by (auto simp: rbind_eq_Inr failed_check_def split: if_splits dest!: Cons.IH)
qed auto

text \<open>
  C26: No manifest for an order the controls forbid. If a manifest with an order was built, then there
  is at least one control result, no hard control failed, the snapshot was not stale, the order
  belongs to the signal and the snapshot, no operator rejected the trade, and if a soft control
  failed an operator approved it.
\<close>

theorem manifest_order_is_permitted:
  assumes "build_manifest sha now mid years i = Inr m" "mi_order i = Some ord"
  shows "mi_ptc_checks i \<noteq> [] \<and> (\<forall>c \<in> set (mi_ptc_checks i). \<not> failed_check c HARD_BLOCK)
     \<and> \<not> bool_attr (mi_snapshot i) ''is_stale''
     \<and> str_attr ord ''signal_id'' = str_attr (mi_signal i) ''signal_id''
     \<and> str_attr ord ''symbol'' = str_attr (mi_snapshot i) ''symbol'' \<and> str_attr ord ''symbol'' \<noteq> []
     \<and> (\<forall>h \<in> set_option (mi_hitl_override i). str_attr h ''decision'' = ''approved'' \<and> py_strip (str_attr h ''operator_id'') \<noteq> [])
     \<and> ((\<exists>c \<in> set (mi_ptc_checks i). failed_check c SOFT_BLOCK) \<longrightarrow> mi_hitl_override i \<noteq> None)"
proof -
  from build_manifest_Inr [OF assms(1)] obtain hard soft reason where
    f: "check_ptc i = Inr (hard, soft, reason)" "check_inputs_consistency i hard soft = Inr ()" by metis
  from f(1) have c: "mi_ptc_checks i \<noteq> []" "hard \<longleftrightarrow> (\<exists>c \<in> set (mi_ptc_checks i). failed_check c HARD_BLOCK)"
    "soft \<longleftrightarrow> (\<exists>c \<in> set (mi_ptc_checks i). failed_check c SOFT_BLOCK)"
    by (auto simp: check_ptc_def rbind_eq_Inr dest: ptc_loop_Inr)
  show ?thesis
    using f(2) assms(2) c unfolding check_inputs_consistency_def
    by (cases "mi_hitl_override i") (auto simp: rbind_eq_Inr Let_def)
qed

section \<open>The store\<close>

text \<open>
  A chain of files from number \<open>k\<close> on: each verifies and links to the digest before it; \<open>final\<close> is the
  last digest.
\<close>

fun chain :: "sha \<Rightarrow> (jv \<Rightarrow> pystr) \<Rightarrow> int \<Rightarrow> pystr \<Rightarrow> mdir \<Rightarrow> pystr \<Rightarrow> bool" where
  "chain sha str_of k prev [] final \<longleftrightarrow> final = prev"
| "chain sha str_of k prev ((seq, content) # rest) final \<longleftrightarrow> seq = k
     \<and> (\<exists>doc dg. read_doc content = Inr doc \<and> verify_document sha str_of doc = Inr [] \<and> states doc prev dg
          \<and> chain sha str_of (k + 1) dg rest final)"

lemma chain_snoc:
  "chain sha str_of k prev (fs @ [(seq, content)]) final \<longleftrightarrow> (\<exists>mid. chain sha str_of k prev fs mid \<and> seq = k + int (length fs)
     \<and> (\<exists>doc. read_doc content = Inr doc \<and> verify_document sha str_of doc = Inr [] \<and> states doc mid final))"
proof (induction fs arbitrary: k prev)
  case (Cons f fs)
  then show ?case by (cases f) (fastforce simp: algebra_simps)
qed auto

lemma chain_seqs: "chain sha str_of k prev fs final \<Longrightarrow> map fst fs = map (\<lambda>j. k + int j) [0..<length fs]"
proof (induction fs arbitrary: k prev)
  case (Cons f fs)
  then obtain dg where "fst f = k" "chain sha str_of (k + 1) dg fs final" by (cases f) auto
  moreover have "map fst fs = map (\<lambda>j. k + 1 + int j) [0..<length fs]" using Cons.IH calculation(2) by blast
  ultimately show ?case by (simp add: map_upt_Suc comp_def algebra_simps del: upt_Suc)
qed simp

lemma chain_walks: "chain sha str_of k prev fs final \<Longrightarrow> walk_store sha str_of k (JvStr prev) fs = Inr None"
proof (induction fs arbitrary: k prev)
  case (Cons f fs)
  then show ?case by (cases f) (auto simp: states_def jget_def)
qed simp

lemma seqs_sorted: "map fst fs = map (\<lambda>j. k + int j) [0..<length fs] \<Longrightarrow> files_of fs = fs"
  unfolding files_of_def by (rule sort_key_id_if_sorted) (simp add: sorted_map sorted_wrt_map)

lemmas chain_files = seqs_sorted [OF chain_seqs]

lemma chain_verifies:
  "chain sha str_of 1 MANIFEST_GENESIS fs final \<Longrightarrow> verify_store sha str_of fs = Inr (True, length fs, [])"
  using chain_walks [of sha str_of 1 MANIFEST_GENESIS fs final] by (simp add: verify_store_def chain_files)

lemma chain_latest:
  assumes "chain sha str_of 1 MANIFEST_GENESIS fs final"
  shows "latest_digest sha str_of fs = Inr final"
proof (cases fs rule: rev_cases)
  case (snoc gs f)
  obtain seq content where f: "f = (seq, content)" by fastforce
  obtain doc mid where "read_doc content = Inr doc" "verify_document sha str_of doc = Inr []" "states doc mid final"
    using assms snoc f by (auto simp: chain_snoc)
  moreover have "files_of fs = fs" using assms by (rule chain_files)
  ultimately show ?thesis using snoc f by (simp add: latest_digest_def states_def jget_def str_of_jv_def)
qed (use assms in \<open>simp add: latest_digest_def files_of_def\<close>)

lemma chain_next: "chain sha str_of 1 MANIFEST_GENESIS fs final \<Longrightarrow>
    next_seq fs = int (length fs) + 1 \<and> int (length fs) + 1 \<notin> fst ` set fs"
proof -
  assume c: "chain sha str_of 1 MANIFEST_GENESIS fs final"
  have "fst ` set fs = set (map (\<lambda>j. 1 + int j) [0..<length fs])"
    using arg_cong [OF chain_seqs [OF c], of set] by simp
  then show ?thesis using chain_files [OF c] by (auto simp: next_seq_def)
qed

text \<open>A torn file at the end of the chain.\<close>

definition torn :: "sha \<Rightarrow> (jv \<Rightarrow> pystr) \<Rightarrow> mdir \<Rightarrow> bool" where
  "torn sha str_of d \<longleftrightarrow> (\<exists>good final t. chain sha str_of 1 MANIFEST_GENESIS good final
     \<and> d = good @ [(int (length good) + 1, t)] \<and> loads_text t = None)"

lemma torn_latest:
  assumes "torn sha str_of d"
  shows "\<exists>e. latest_digest sha str_of d = Inl e"
proof -
  from assms obtain good final t where g: "chain sha str_of 1 MANIFEST_GENESIS good final"
    "d = good @ [(int (length good) + 1, t)]" "loads_text t = None" by (auto simp: torn_def)
  have "map fst d = map (\<lambda>j. 1 + int j) [0..<length d]" using chain_seqs [OF g(1)] by (simp add: g(2))
  then have "files_of d = d" by (rule seqs_sorted)
  then show ?thesis using g by (simp add: latest_digest_def read_doc_def)
qed

lemma torn_refuses:
  assumes "torn sha str_of d"
  shows "\<exists>e. put sha str_of c sink disk m d a = (Inl e, d, a)"
proof -
  obtain e where e: "latest_digest sha str_of d = Inl e" using torn_latest [OF assms] by blast
  have "\<exists>e. put_check sha str_of m d = Inl e"
  proof (cases "put_check sha str_of m d")
    case (Inr u)
    then show ?thesis using e by (auto simp: put_check_def rbind_eq_Inr)
  qed simp
  then show ?thesis by (auto simp: put_def)
qed

text \<open>What a put of a built manifest does to a chain.\<close>

lemma put_chain:
  assumes c: "chain sha str_of 1 MANIFEST_GENESIS d final"
    and b: "build_manifest sha now mid years i = Inr m" "wf_inputs i"
    and t: "\<And>t. disk = WriteTorn t \<Longrightarrow> loads_text t = None"
    and p: "put sha str_of cfg sink disk m d a = (r, d', a')"
  shows "(\<exists>e. r = Inl e) \<and> d' = d \<or> (\<exists>e. r = Inl e) \<and> torn sha str_of d'
     \<or> chain sha str_of 1 MANIFEST_GENESIS d' (bm_digest m) \<and> d' = d @ [(int (length d) + 1, bm_document_json m @ [LF])]
        \<and> (\<forall>st. r = Inr st \<longrightarrow> st = \<lparr>sm_seq = int (length d) + 1, sm_manifest_id = bm_manifest_id m, sm_digest = bm_digest m\<rparr>)"
proof (cases "put_check sha str_of m d")
  case (Inl e)
  then show ?thesis using p by (auto simp: put_def)
next
  case (Inr u)
  obtain doc where doc: "bm_document m = Inr doc" "read_doc (bm_document_json m @ [LF]) = Inr doc"
    "verify_document sha str_of doc = Inr []" "states doc (mi_prev_manifest_hash i) (bm_digest m)"
    using built_manifest_document [OF b, of str_of] by blast
  have "mi_prev_manifest_hash i = final"
    using Inr chain_latest [OF c] doc(1,4) by (auto simp: put_check_def rbind_eq_Inr states_def py_eq_def)
  then have ch: "chain sha str_of 1 MANIFEST_GENESIS (d @ [(int (length d) + 1, bm_document_json m @ [LF])]) (bm_digest m)"
    using c doc by (auto simp: chain_snoc)
  have w: "put_write cfg sink disk m (int (length d) + 1) d a = (r, d', a')"
    using p Inr chain_next [OF c] by (simp add: put_def)
  have n: "int (length d) + 1 \<notin> fst ` set d" using chain_next [OF c] by simp
  show ?thesis
  proof (cases disk)
    case (WriteTorn part)
    then show ?thesis using w n t c by (auto simp: put_write_def write_exclusive_def torn_def)
  qed (use w n ch doc(1) in \<open>auto simp: put_write_def write_exclusive_def Let_def split: prod.splits sum.splits\<close>)
qed

record put_call =
  pc_now :: int
  pc_id :: pystr
  pc_years :: int
  pc_inputs :: manifest_inputs
  pc_disk :: file_write

text \<open>Building and storing one manifest after the other.\<close>

fun store_run ::
  "sha \<Rightarrow> (jv \<Rightarrow> pystr) \<Rightarrow> store_config \<Rightarrow> 'a audit_sink \<Rightarrow> put_call list \<Rightarrow> mdir \<Rightarrow> 'a
     \<Rightarrow> (exc + stored_manifest) list \<times> mdir \<times> 'a" where
  "store_run sha str_of cfg sink [] d a = ([], d, a)"
| "store_run sha str_of cfg sink (p # ps) d a =
     (case build_manifest sha (pc_now p) (pc_id p) (pc_years p) (pc_inputs p) of
        Inl e \<Rightarrow> (case store_run sha str_of cfg sink ps d a of (rs, s) \<Rightarrow> (Inl e # rs, s))
      | Inr m \<Rightarrow>
          (case put sha str_of cfg sink (pc_disk p) m d a of (r, d', a') \<Rightarrow>
             (case store_run sha str_of cfg sink ps d' a' of (rs, s) \<Rightarrow> (r # rs, s))))"

definition call_ok :: "put_call \<Rightarrow> bool" where
  "call_ok p \<longleftrightarrow> wf_inputs (pc_inputs p) \<and> (case pc_disk p of WriteTorn t \<Rightarrow> loads_text t = None | _ \<Rightarrow> True)"

definition stored_ok :: "sha \<Rightarrow> (jv \<Rightarrow> pystr) \<Rightarrow> mdir \<Rightarrow> exc + stored_manifest \<Rightarrow> bool" where
  "stored_ok sha str_of d r = (case r of Inl e \<Rightarrow> True
     | Inr st \<Rightarrow> (\<exists>doc. get_manifest sha str_of d (sm_seq st) = Inr doc \<and> map_of doc ''manifest_digest'' = Some (JvStr (sm_digest st))))"

lemma get_manifest_append: "get_manifest sha str_of d seq = Inr doc \<Longrightarrow> get_manifest sha str_of (d @ x) seq = Inr doc"
  by (auto simp: get_manifest_def map_add_def split: option.splits)

lemma stored_ok_append: "stored_ok sha str_of d r \<Longrightarrow> stored_ok sha str_of (d @ x) r"
  using get_manifest_append by (fastforce simp: stored_ok_def split: sum.splits)

lemma put_extends: "put sha str_of cfg sink disk m d a = (r, d', a') \<Longrightarrow> \<exists>x. d' = d @ x"
  by (auto simp: put_def put_write_def write_exclusive_def Let_def split: sum.splits if_splits file_write.splits prod.splits)

definition store_inv :: "sha \<Rightarrow> (jv \<Rightarrow> pystr) \<Rightarrow> mdir \<Rightarrow> bool" where
  "store_inv sha str_of d \<longleftrightarrow> (\<exists>final. chain sha str_of 1 MANIFEST_GENESIS d final) \<or> torn sha str_of d"

lemma put_store_inv:
  assumes "store_inv sha str_of d" "build_manifest sha (pc_now p) (pc_id p) (pc_years p) (pc_inputs p) = Inr m" "call_ok p"
    and "put sha str_of cfg sink (pc_disk p) m d a = (r, d', a')"
  shows "store_inv sha str_of d' \<and> stored_ok sha str_of d' r"
proof (cases "torn sha str_of d")
  case True
  then show ?thesis using torn_refuses [OF True, of cfg sink "pc_disk p" m a] assms(1,4) by (auto simp: stored_ok_def)
next
  case False
  then obtain final where c: "chain sha str_of 1 MANIFEST_GENESIS d final" using assms(1) by (auto simp: store_inv_def)
  have wf: "wf_inputs (pc_inputs p)" "\<And>t. pc_disk p = WriteTorn t \<Longrightarrow> loads_text t = None"
    using assms(3) by (auto simp: call_ok_def)
  from put_chain [OF c assms(2) wf assms(4)] consider (refused) "\<exists>e. r = Inl e" "d' = d"
    | (lost) "\<exists>e. r = Inl e" "torn sha str_of d'"
    | (kept) "chain sha str_of 1 MANIFEST_GENESIS d' (bm_digest m)" "d' = d @ [(int (length d) + 1, bm_document_json m @ [LF])]"
       "\<forall>st. r = Inr st \<longrightarrow> st = \<lparr>sm_seq = int (length d) + 1, sm_manifest_id = bm_manifest_id m, sm_digest = bm_digest m\<rparr>"
    by blast
  then show ?thesis
  proof cases
    case kept
    obtain doc where doc: "read_doc (bm_document_json m @ [LF]) = Inr doc" "verify_document sha str_of doc = Inr []"
      "states doc (mi_prev_manifest_hash (pc_inputs p)) (bm_digest m)"
      using built_manifest_document [OF assms(2) wf(1), of str_of] by blast
    have "map_of d (int (length d) + 1) = None" using chain_next [OF c] by (simp add: map_of_eq_None_iff)
    then have "map_of d' (int (length d) + 1) = Some (bm_document_json m @ [LF])" by (simp add: kept(2) map_add_def)
    then have "get_manifest sha str_of d' (int (length d) + 1) = Inr doc" using doc by (simp add: get_manifest_def)
    then show ?thesis using kept(1,3) doc(3) by (auto simp: store_inv_def stored_ok_def states_def split: sum.splits)
  qed (use assms(1) in \<open>auto simp: store_inv_def stored_ok_def\<close>)
qed

lemma store_run_inv:
  assumes "list_all call_ok ps" "store_inv sha str_of d" "store_run sha str_of cfg sink ps d a = (rs, d', a')"
  shows "store_inv sha str_of d' \<and> (\<exists>x. d' = d @ x) \<and> list_all (stored_ok sha str_of d') rs"
  using assms
proof (induction ps arbitrary: d a rs)
  case (Cons p ps)
  show ?case
  proof (cases "build_manifest sha (pc_now p) (pc_id p) (pc_years p) (pc_inputs p)")
    case (Inl e)
    then obtain rs' where "store_run sha str_of cfg sink ps d a = (rs', d', a')" "rs = Inl e # rs'"
      using Cons.prems(3) by (auto split: prod.splits)
    then show ?thesis using Cons.IH [of d a rs'] Cons.prems by (simp add: stored_ok_def)
  next
    case (Inr m)
    obtain r d1 a1 where put: "put sha str_of cfg sink (pc_disk p) m d a = (r, d1, a1)" by (metis prod_cases3)
    then obtain rs' where run: "store_run sha str_of cfg sink ps d1 a1 = (rs', d', a')" "rs = r # rs'"
      using Cons.prems(3) Inr by (auto split: prod.splits)
    have 1: "store_inv sha str_of d1" "stored_ok sha str_of d1 r"
      using put_store_inv [OF Cons.prems(2) Inr _ put] Cons.prems(1) by simp_all
    have 2: "store_inv sha str_of d' \<and> (\<exists>x. d' = d1 @ x) \<and> list_all (stored_ok sha str_of d') rs'"
      using Cons.IH [OF _ 1(1) run(1)] Cons.prems(1) by simp
    obtain x y where "d' = d1 @ x" "d1 = d @ y" using 2 put_extends [OF put] by blast
    then show ?thesis using 2 stored_ok_append [OF 1(2), of x] run(2) by simp
  qed
qed simp


section \<open>Two writers at once\<close>

text \<open>The first manifest of an empty store, with a sink that always records.\<close>

abbreviation always_recorded :: "'a audit_sink" where
  "always_recorded \<equiv> \<lambda>ty ac pl a. (Inr (), a)"

lemma emit_always: "states doc prev dg \<Longrightarrow> emit_audit cfg always_recorded st doc a = (Inr (), a)"
  by (auto simp: audit_payload_def states_def rbind_eq_Inr emit_audit_def)

lemma genesis_document:
  assumes "build_manifest sha now mid years i = Inr m" "wf_inputs i" "mi_prev_manifest_hash i = MANIFEST_GENESIS"
  obtains doc where "bm_document m = Inr doc" "read_doc (bm_document_json m @ [LF]) = Inr doc"
    "verify_document sha str_of doc = Inr []" "prev_link doc = Inr (JvStr MANIFEST_GENESIS)"
    "jget doc ''manifest_digest'' = JvStr (bm_digest m)" "put_check sha str_of m [] = Inr ()"
    "states doc MANIFEST_GENESIS (bm_digest m)"
proof -
  obtain doc where d: "bm_document m = Inr doc" "read_doc (bm_document_json m @ [LF]) = Inr doc"
    "verify_document sha str_of doc = Inr []" "verify_built sha str_of m = Inr []" "states doc MANIFEST_GENESIS (bm_digest m)"
    using built_manifest_document [OF assms(1,2), of str_of] assms(3) by auto
  have link: "prev_link doc = Inr (JvStr MANIFEST_GENESIS)" "jget doc ''manifest_digest'' = JvStr (bm_digest m)"
    using d(5) by (auto simp: states_def jget_def)
  have "put_check sha str_of m [] = Inr ()"
    using d link by (simp add: put_check_def latest_digest_def files_of_def guard_def)
  then show thesis using that d link by blast
qed

lemma first_put:
  assumes "build_manifest sha now mid years i = Inr m" "wf_inputs i" "mi_prev_manifest_hash i = MANIFEST_GENESIS"
  shows "put sha str_of cfg always_recorded FileWritten m [] a = (Inr \<lparr>sm_seq = 1, sm_manifest_id = bm_manifest_id m,
      sm_digest = bm_digest m\<rparr>, [(1, bm_document_json m @ [LF])], a)"
  by (rule genesis_document [OF assms, where str_of = str_of])
    (simp add: put_def put_write_def write_exclusive_def next_seq_def files_of_def emit_always)

text \<open>
  The chain is not kept when a second process stores a manifest between the moment the first has read
  the head and the moment it counts the files: both succeed, and the store no longer verifies.
\<close>

lemma racing_puts_fork_the_chain:
  assumes b1: "build_manifest sha now1 id1 y1 i1 = Inr m1" "wf_inputs i1" "mi_prev_manifest_hash i1 = MANIFEST_GENESIS"
    and b2: "build_manifest sha now2 id2 y2 i2 = Inr m2" "wf_inputs i2" "mi_prev_manifest_hash i2 = MANIFEST_GENESIS"
    and ne: "bm_digest m2 \<noteq> MANIFEST_GENESIS"
  shows "put_check sha str_of m1 [] = Inr ()
     \<and> (\<exists>r2 d a2. put sha str_of cfg always_recorded FileWritten m2 [] a = (Inr r2, d, a2)
        \<and> (\<exists>r1 d' a1. put_write cfg always_recorded FileWritten m1 (next_seq d) d a2 = (Inr r1, d', a1)
           \<and> verify_store sha str_of d' = Inr (False, 2, [''hash chain broken''])))"
proof -
  obtain doc1 where d1: "bm_document m1 = Inr doc1" "read_doc (bm_document_json m1 @ [LF]) = Inr doc1"
    "verify_document sha str_of doc1 = Inr []" "prev_link doc1 = Inr (JvStr MANIFEST_GENESIS)"
    "jget doc1 ''manifest_digest'' = JvStr (bm_digest m1)" "put_check sha str_of m1 [] = Inr ()"
    "states doc1 MANIFEST_GENESIS (bm_digest m1)"
    by (rule genesis_document [OF b1, where str_of = str_of])
  obtain doc2 where d2: "bm_document m2 = Inr doc2" "read_doc (bm_document_json m2 @ [LF]) = Inr doc2"
    "verify_document sha str_of doc2 = Inr []" "prev_link doc2 = Inr (JvStr MANIFEST_GENESIS)"
    "jget doc2 ''manifest_digest'' = JvStr (bm_digest m2)"
    by (rule genesis_document [OF b2, where str_of = str_of])
  have "\<not> py_eq (JvStr MANIFEST_GENESIS) (JvStr (bm_digest m2))" using ne by (simp add: py_eq_def)
  then have "verify_store sha str_of [(1, bm_document_json m2 @ [LF]), (2, bm_document_json m1 @ [LF])]
      = Inr (False, 2, [''hash chain broken''])"
    using d1 d2 by (simp add: verify_store_def files_of_def)
  moreover have "next_seq [(1, bm_document_json m2 @ [LF])] = 2" by (simp add: next_seq_def files_of_def)
  moreover have "put_write cfg always_recorded FileWritten m1 2 [(1, bm_document_json m2 @ [LF])] a = (Inr \<lparr>sm_seq = 2,
      sm_manifest_id = bm_manifest_id m1, sm_digest = bm_digest m1\<rparr>,
      [(1, bm_document_json m2 @ [LF]), (2, bm_document_json m1 @ [LF])], a)"
    using d1(1) by (simp add: put_write_def write_exclusive_def emit_always [OF d1(7)])
  ultimately show ?thesis using d1(6) first_put [OF b2, of str_of cfg a] by auto
qed

section \<open>The store over the audit log\<close>

text \<open>
  What the store relies on (\<open>audit.py\<close>): a sink that returns has durably recorded the event, and
  nothing that was recorded is lost.
\<close>

locale audit_trail =
  fixes sink :: "'a audit_sink" and events :: "'a \<Rightarrow> (pystr \<times> pystr \<times> jv) set"
  assumes acknowledged: "dicts_ok pl \<Longrightarrow> sink ty ac pl a = (Inr (), a') \<Longrightarrow> (ty, ac, sort_obj pl) \<in> events a'"
    and kept: "sink ty ac pl a = (r, a') \<Longrightarrow> events a \<subseteq> events a'"
begin

lemma emit_audit_events:
  assumes "emit_audit c sink st doc a = (Inr (), a')" "states doc prev dg"
  shows "\<exists>ut. (sc_event_type c, sc_actor c, sort_obj (JvObj [(''manifest_id'', JvStr (sm_manifest_id st)),
     (''seq'', JvInt (sm_seq st)), (''manifest_digest'', JvStr (sm_digest st)), (''prev_manifest_hash'', JvStr prev),
     (''retain_until'', JvStr ut), (''file'', JvStr (pad 12 (sm_seq st) @ ''.json''))])) \<in> events a'"
proof -
  from assms(2) obtain ut where "prev_link doc = Inr (JvStr prev)"
    "rbind (jindex (JvObj doc) ''retention'') (\<lambda>r. jindex r ''retain_until'') = Inr (JvStr ut)"
    by (auto simp: states_def)
  then have "audit_payload st doc = Inr (JvObj [(''manifest_id'', JvStr (sm_manifest_id st)), (''seq'', JvInt (sm_seq st)),
     (''manifest_digest'', JvStr (sm_digest st)), (''prev_manifest_hash'', JvStr prev), (''retain_until'', JvStr ut),
     (''file'', JvStr (pad 12 (sm_seq st) @ ''.json''))])" (is "_ = Inr ?pl")
    by (simp add: audit_payload_def)
  then have "sink (sc_event_type c) (sc_actor c) ?pl a = (Inr (), a')"
    using assms(1) by (auto simp: emit_audit_def split: prod.splits sum.splits)
  from acknowledged [OF _ this] show ?thesis by (intro exI [of _ ut]) simp
qed

lemma emit_audit_kept: "emit_audit c sink st doc a = (r, a') \<Longrightarrow> events a \<subseteq> events a'"
  using kept by (auto simp: emit_audit_def split: prod.splits sum.splits)

end

text \<open>The audit logger as a sink, for what the database does during the call.\<close>

definition logger_sink :: "sha \<Rightarrow> txn \<Rightarrow> moment \<Rightarrow> audit_row list audit_sink" where
  "logger_sink sha x now ty ac pl rows =
     (case record_event sha x now ty ac pl rows of (Inl e, rows') \<Rightarrow> (Inl e, rows') | (Inr _, rows') \<Rightarrow> (Inr (), rows'))"

definition row_events :: "audit_row list \<Rightarrow> (pystr \<times> pystr \<times> jv) set" where
  "row_events rows = (\<lambda>r. (aw_type r, aw_actor r, aw_payload r)) ` set rows"

lemma logger_sink_record:
  assumes "logger_sink sha x now ty ac pl rows = (r, rows')"
  obtains r' where "record_event sha x now ty ac pl rows = (r', rows')" "r = Inr () \<longrightarrow> (\<exists>row. r' = Inr row)"
  using assms by (auto simp: logger_sink_def split: prod.splits sum.splits)

lemma record_event_extends: "record_event sha x now ty ac pl rows = (r, rows') \<Longrightarrow> set rows \<subseteq> set rows'"
  by (auto simp: record_event_def append_event_def split: sum.splits txn.splits if_splits)

lemma record_event_row:
  assumes "record_event sha x now ty ac pl rows = (Inr row, rows')" "dicts_ok pl"
  shows "row \<in> set rows' \<and> aw_type row = ty \<and> aw_actor row = ac \<and> aw_payload row = sort_obj pl"
  using record_event_logged [of "\<lparr>lc_txn = x, lc_now = now, lc_type = ty, lc_actor = ac, lc_payload = pl\<rparr>" sha rows "Inr row" rows'] assms
  by (simp add: logged_def)

interpretation logger: audit_trail "logger_sink sha x now" row_events for sha x now
proof
  fix pl ty ac a a'
  assume d: "dicts_ok pl" and s: "logger_sink sha x now ty ac pl a = (Inr (), a')"
  from logger_sink_record [OF s] obtain row where "record_event sha x now ty ac pl a = (Inr row, a')" by blast
  from record_event_row [OF this d] show "(ty, ac, sort_obj pl) \<in> row_events a'" by (force simp: row_events_def)
next
  fix ty ac pl a r a'
  assume s: "logger_sink sha x now ty ac pl a = (r, a')"
  from logger_sink_record [OF s] obtain r' where "record_event sha x now ty ac pl a = (r', a')" by blast
  from record_event_extends [OF this] show "row_events a \<subseteq> row_events a'" by (auto simp: row_events_def)
qed

lemma logger_sink_linked:
  assumes "linked sha 0 AUDIT_GENESIS_HASH rows" "dicts_ok pl" "logger_sink sha x now ty ac pl rows = (r, rows')"
  shows "linked sha 0 AUDIT_GENESIS_HASH rows'"
  using logger_sink_record [OF assms(3)] record_event_linked [OF assms(2,1), of x now ty ac] by (metis snd_conv)

section \<open>A concrete manifest\<close>

definition demo_inputs :: "manifest_inputs" where
  "demo_inputs =
     \<lparr>mi_snapshot = PMsg ''afe.shared.MarketSnapshot'' [(''symbol'', One (PStr ''AAPL'')), (''is_stale'', One (PBool False))],
      mi_signal = PMsg ''afe.shared.TradeSignal'' [(''signal_id'', One (PStr ''s1'')), (''symbol'', One (PStr ''AAPL'')),
        (''omega'', One (PFloat (Fin (1 / 2))))],
      mi_order = Some (PMsg ''afe.shared.OrderRequest'' [(''signal_id'', One (PStr ''s1'')), (''symbol'', One (PStr ''AAPL''))]),
      mi_model_versions = [(''judge'', ''v1'')],
      mi_ptc_checks = [PMsg ''afe.shared.PTCCheckResult'' [(''check_name'', One (PStr ''cap'')),
        (''ptc_type'', One (PEnum [(1, ''HARD_BLOCK''), (2, ''SOFT_BLOCK'')] 2)), (''passed'', One (PBool False)),
        (''threshold_value'', One (PFloat (Fin 1))), (''actual_value'', One (PFloat (Fin 0)))]],
      mi_prev_manifest_hash = MANIFEST_GENESIS,
      mi_hitl_override = Some (PMsg ''afe.shared.HITLOverrideRecord'' [(''operator_id'', One (PStr ''op'')),
        (''decision'', One (PStr ''approved''))]),
      mi_cognitive = \<lparr>cg_blue_node_thesis = ''up'', cg_red_node_challenge = [], cg_judge_synthesis = [],
        cg_compression_summaries = []\<rparr>,
      mi_mar_flag_triggered = False, mi_mar_flag_reason = []\<rparr>"

lemma not_isl_iff: "\<not> isl x \<longleftrightarrow> (\<exists>y. x = Inr y)"
  by (cases x) auto

lemma demo_built: "\<exists>m. build_manifest sha 1000000 ''id-1'' 7 demo_inputs = Inr m" "wf_inputs demo_inputs"
proof -
  have c: "check_common demo_inputs = Inr ()" "check_ptc demo_inputs = Inr (False, True, ''cap'')"
    "check_inputs_consistency demo_inputs False True = Inr ()" "RETENTION_YEARS \<le> 7" "py_strip ''id-1'' \<noteq> []"
    by code_simp+
  show w: "wf_inputs demo_inputs" by (simp add: wf_inputs_def demo_inputs_def)
  have "\<not> isl (retain_until_ns 1000000 7)" "\<not> isl (rbind (retain_until_ns 1000000 7) format_ns_utc)"
    "\<not> isl (message_to_canonical (assemble_proto demo_inputs ''id-1'' 1000000 False True ''cap''))"
    "\<not> isl (rbind (message_to_canonical (assemble_proto demo_inputs ''id-1'' 1000000 False True ''cap''))
       (\<lambda>pd. input_sections pd (JvObj (versions_doc (mi_model_versions demo_inputs)))))"
    by code_simp+
  then obtain until ut pd ss where "retain_until_ns 1000000 7 = Inr until" "format_ns_utc until = Inr ut"
    "message_to_canonical (assemble_proto demo_inputs ''id-1'' 1000000 False True ''cap'') = Inr pd"
    "input_sections pd (JvObj (versions_doc (mi_model_versions demo_inputs))) = Inr ss"
    unfolding not_isl_iff rbind_eq_Inr by auto
  then show "\<exists>m. build_manifest sha 1000000 ''id-1'' 7 demo_inputs = Inr m"
    using build_manifest_returns [OF c(1-4) _ _ c(5) w, of 1000000] by simp
qed

theorem built_manifest_verifies_witness:
  "\<exists>m. build_manifest demo_sha 1000000 ''id-1'' 7 demo_inputs = Inr m \<and> verify_built demo_sha (\<lambda>_. []) m = Inr []"
  using demo_built built_manifest_verifies [of demo_sha 1000000 "''id-1''" 7 demo_inputs] by blast

theorem manifest_order_is_permitted_witness:
  "\<not> bool_attr (mi_snapshot demo_inputs) ''is_stale'' \<and> (\<exists>c \<in> set (mi_ptc_checks demo_inputs). failed_check c SOFT_BLOCK)
   \<and> mi_hitl_override demo_inputs \<noteq> None"
proof -
  obtain m where m: "build_manifest demo_sha 1000000 ''id-1'' 7 demo_inputs = Inr m" using demo_built by blast
  obtain ord where ord: "mi_order demo_inputs = Some ord" by (simp add: demo_inputs_def)
  have "\<exists>c \<in> set (mi_ptc_checks demo_inputs). failed_check c SOFT_BLOCK" by code_simp
  then show ?thesis using manifest_order_is_permitted [OF m ord] by blast
qed


end
