(* ===== verification/Manifest_Writer.thy ===== *)
theory Manifest_Writer
  imports Manifest_Properties
begin

text \<open>
  The motor's manifest writer (\<open>execution_motor/compliance.py\<close>: \<open>AfeManifestWriter\<close> and the mapping of
  Aegis control results), over the manifest builder and store, and what one write leaves behind.

  Of the decision and the context the fields that are read are modelled. \<open>names\<close> are the names of the
  Aegis reason codes; \<open>env\<close> is what the clock, the identifier factory and the disk answer.
\<close>

section \<open>Control results\<close>

definition decimal_to_float :: "pystr \<Rightarrow> dec" where
  "decimal_to_float text =
     (case parse_decimal text of
        Some (Fin x) \<Rightarrow> (case to_float x of Fin y \<Rightarrow> Fin y | _ \<Rightarrow> Fin 0)
      | _ \<Rightarrow> Fin 0)"

text \<open>\<open>repr\<close> of a string.\<close>

definition repr_char :: "char \<Rightarrow> char \<Rightarrow> pystr" where
  "repr_char quote c =
     (let n = of_char c :: int
      in if c = quote \<or> c = CHR 0x5C then [CHR 0x5C, c]
         else if n = 10 then [CHR 0x5C, CHR ''n'']
         else if n = 13 then [CHR 0x5C, CHR ''r'']
         else if n = 9 then [CHR 0x5C, CHR ''t'']
         else if n < 32 \<or> 127 \<le> n \<and> n \<le> 160 \<or> n = 173
         then [CHR 0x5C, CHR ''x'', hex_char (n div 16), hex_char (n mod 16)]
         else [c])"

definition py_repr :: "pystr \<Rightarrow> pystr" where
  "py_repr s =
     (let quote = (if CHR 0x27 \<in> set s \<and> CHR 0x22 \<notin> set s then CHR 0x22 else CHR 0x27)
      in quote # concat (map (repr_char quote) s) @ [quote])"

record control_result =
  ctl_control_id :: pystr
  ctl_is_hard :: bool
  ctl_passed :: bool
  ctl_reason :: int
  ctl_threshold :: pystr
  ctl_observed :: pystr
  ctl_detail :: pystr

definition PTC_TYPES :: "(int \<times> pystr) list" where
  "PTC_TYPES = [(0, ''PTC_UNKNOWN''), (1, ''HARD_BLOCK''), (2, ''SOFT_BLOCK'')]"

definition ptc_check_of :: "(int \<times> pystr) list \<Rightarrow> control_result \<Rightarrow> pval" where
  "ptc_check_of names r =
     PMsg ''afe.shared.PTCCheckResult''
       [(''check_name'', One (PStr (ctl_control_id r))),
        (''ptc_type'', One (PEnum PTC_TYPES (if ctl_is_hard r then HARD_BLOCK else SOFT_BLOCK))),
        (''passed'', One (PBool (ctl_passed r))),
        (''reason'', One (PStr (
           (case map_of names (ctl_reason r) of Some n \<Rightarrow> n | None \<Rightarrow> int_str (ctl_reason r))
           @ ''; threshold='' @ py_repr (ctl_threshold r) @ ''; observed='' @ py_repr (ctl_observed r)
           @ (if ctl_detail r = [] then [] else ''; '' @ ctl_detail r)))),
        (''threshold_value'', One (PFloat (decimal_to_float (ctl_threshold r)))),
        (''actual_value'', One (PFloat (decimal_to_float (ctl_observed r))))]"

definition ptc_checks_from_decision :: "(int \<times> pystr) list \<Rightarrow> control_result list \<Rightarrow> pval list" where
  "ptc_checks_from_decision names results = map (ptc_check_of names) results"

section \<open>Writing\<close>

record aegis_decision =
  ad_results :: "control_result list"
  ad_order :: pval
  ad_aegis_version :: pystr
  ad_limits_config_sha256 :: pystr

record execution_context =
  ec_snapshot :: pval
  ec_signal :: pval
  ec_model_versions :: "(pystr \<times> pystr) list"
  ec_cognitive :: cognitive_outputs
  ec_hitl_override :: "pval option"

record writer_env =
  we_now :: int
  we_id :: pystr
  we_disk :: file_write

text \<open>\<open>versions.setdefault(k, v)\<close>, if \<open>v\<close> is non-empty.\<close>

definition set_default :: "pystr \<Rightarrow> pystr \<Rightarrow> (pystr \<times> pystr) list \<Rightarrow> (pystr \<times> pystr) list" where
  "set_default k v vs = (if v = [] \<or> k \<in> fst ` set vs then vs else vs @ [(k, v)])"

definition writer_inputs :: "(int \<times> pystr) list \<Rightarrow> aegis_decision \<Rightarrow> execution_context \<Rightarrow> pystr \<Rightarrow> manifest_inputs" where
  "writer_inputs names dec ctx head =
     \<lparr>mi_snapshot = ec_snapshot ctx, mi_signal = ec_signal ctx, mi_order = Some (ad_order dec),
      mi_model_versions = set_default ''aegis-limits-sha256'' (ad_limits_config_sha256 dec)
        (set_default ''aegis'' (ad_aegis_version dec) (ec_model_versions ctx)),
      mi_ptc_checks = ptc_checks_from_decision names (ad_results dec), mi_prev_manifest_hash = head,
      mi_hitl_override = ec_hitl_override ctx, mi_cognitive = ec_cognitive ctx,
      mi_mar_flag_triggered = False, mi_mar_flag_reason = []\<rparr>"

definition write_manifest ::
  "sha \<Rightarrow> (jv \<Rightarrow> pystr) \<Rightarrow> store_config \<Rightarrow> 'a audit_sink \<Rightarrow> (int \<times> pystr) list \<Rightarrow> writer_env \<Rightarrow> aegis_decision
     \<Rightarrow> execution_context \<Rightarrow> mdir \<times> 'a \<Rightarrow> (exc + pystr) \<times> mdir \<times> 'a" where
  "write_manifest sha str_of cfg sink names env dec ctx s =
     (case s of (d, a) \<Rightarrow>
      case latest_digest sha str_of d of
        Inl e \<Rightarrow> (Inl e, d, a)
      | Inr head \<Rightarrow>
          (case build_manifest sha (we_now env) (we_id env) RETENTION_YEARS (writer_inputs names dec ctx head) of
             Inl e \<Rightarrow> (Inl e, d, a)
           | Inr m \<Rightarrow>
               (case put sha str_of cfg sink (we_disk env) m d a of
                  (Inl e, s') \<Rightarrow> (Inl e, s') | (Inr _, s') \<Rightarrow> (Inr (bm_digest m), s'))))"

section \<open>What a write leaves\<close>

definition wf_write :: "aegis_decision \<Rightarrow> execution_context \<Rightarrow> bool" where
  "wf_write dec ctx \<longleftrightarrow> wf_msg (ec_snapshot ctx) \<and> wf_msg (ec_signal ctx) \<and> wf_msg (ad_order dec)
     \<and> (\<forall>m \<in> set_option (ec_hitl_override ctx). wf_msg m) \<and> distinct (map fst (ec_model_versions ctx))"

lemma set_default_distinct: "distinct (map fst vs) \<Longrightarrow> distinct (map fst (set_default k v vs))"
  by (auto simp: set_default_def)

lemma writer_inputs_wf: "wf_write dec ctx \<Longrightarrow> wf_inputs (writer_inputs names dec ctx head)"
  by (auto simp: wf_write_def wf_inputs_def writer_inputs_def set_default_distinct ptc_checks_from_decision_def
      ptc_check_of_def list_all_iff)

lemma put_success:
  assumes "put sha str_of cfg sink disk m d a = (Inr st, d', a')" "bm_document m = Inr doc"
  shows "put_check sha str_of m d = Inr ()
     \<and> st = \<lparr>sm_seq = next_seq d, sm_manifest_id = bm_manifest_id m, sm_digest = bm_digest m\<rparr>
     \<and> d' = d @ [(next_seq d, bm_document_json m @ [LF])] \<and> emit_audit cfg sink st doc a = (Inr (), a')"
  using assms
  by (auto simp: put_def put_write_def write_exclusive_def Let_def split: sum.splits prod.splits if_splits file_write.splits)

text \<open>The manifest number \<open>seq\<close> with this digest is in the store and its record in the audit table.\<close>

definition on_record :: "sha \<Rightarrow> (jv \<Rightarrow> pystr) \<Rightarrow> store_config \<Rightarrow> mdir \<Rightarrow> audit_row list \<Rightarrow> int \<Rightarrow> pystr \<Rightarrow> bool" where
  "on_record sha str_of cfg d rows seq digest \<longleftrightarrow> (\<exists>doc row pl. get_manifest sha str_of d seq = Inr doc
     \<and> map_of doc ''manifest_digest'' = Some (JvStr digest) \<and> row \<in> set rows
     \<and> aw_type row = sc_event_type cfg \<and> aw_actor row = sc_actor cfg \<and> aw_payload row = sort_obj (JvObj pl)
     \<and> map_of pl ''seq'' = Some (JvInt seq) \<and> map_of pl ''manifest_digest'' = Some (JvStr digest))"

lemma on_record_mono:
  "on_record sha str_of cfg d rows seq digest \<Longrightarrow> set rows \<subseteq> set rows' \<Longrightarrow> on_record sha str_of cfg (d @ x) rows' seq digest"
  unfolding on_record_def using get_manifest_append by blast

lemma row_events_set: "(ty, ac, pl) \<in> row_events rows \<longleftrightarrow> (\<exists>row \<in> set rows. aw_type row = ty \<and> aw_actor row = ac \<and> aw_payload row = pl)"
  by (auto simp: row_events_def)

lemma logger_emit:
  assumes "emit_audit c (logger_sink sha x now) st doc rows = (r, rows')" "states doc prev dg" "linked sha 0 AUDIT_GENESIS_HASH rows"
  shows "linked sha 0 AUDIT_GENESIS_HASH rows' \<and> set rows \<subseteq> set rows'"
proof -
  from assms(2) obtain ut where "prev_link doc = Inr (JvStr prev)"
    "rbind (jindex (JvObj doc) ''retention'') (\<lambda>r. jindex r ''retain_until'') = Inr (JvStr ut)"
    by (auto simp: states_def)
  then obtain pl where pl: "audit_payload st doc = Inr pl" "dicts_ok pl" by (simp add: audit_payload_def)
  obtain r' where l: "logger_sink sha x now (sc_event_type c) (sc_actor c) pl rows = (r', rows')"
    using assms(1) pl(1) by (auto simp: emit_audit_def split: prod.splits sum.splits)
  have "set rows \<subseteq> set rows'"
    using logger_sink_record [OF l] record_event_extends by metis
  then show ?thesis using logger_sink_linked [OF assms(3) pl(2) l] by simp
qed

definition env_ok :: "writer_env \<Rightarrow> bool" where
  "env_ok env = (case we_disk env of WriteTorn t \<Rightarrow> loads_text t = None | _ \<Rightarrow> True)"

text \<open>What a put over the logger does to the table.\<close>

lemma put_logger:
  assumes "put sha str_of cfg (logger_sink sha x now) disk m d rows = (r, d', rows')" "bm_document m = Inr doc"
    and "states doc prev (bm_digest m)" "linked sha 0 AUDIT_GENESIS_HASH rows"
  shows "linked sha 0 AUDIT_GENESIS_HASH rows' \<and> set rows \<subseteq> set rows'"
proof -
  have "rows' = rows \<or> (\<exists>st r'. emit_audit cfg (logger_sink sha x now) st doc rows = (r', rows'))"
    using assms(1,2)
    by (auto simp: put_def put_write_def Let_def split: sum.splits prod.splits)
  then show ?thesis using logger_emit [OF _ assms(3,4)] assms(4) by blast
qed

lemma write_manifest_cases:
  assumes "write_manifest sha str_of cfg sink names env dec ctx (d, a) = (r, d', a')"
  obtains (refused) e where "r = Inl e" "d' = d" "a' = a"
  | (put) head m r' where "latest_digest sha str_of d = Inr head"
      "build_manifest sha (we_now env) (we_id env) RETENTION_YEARS (writer_inputs names dec ctx head) = Inr m"
      "put sha str_of cfg sink (we_disk env) m d a = (r', d', a')"
      "r = (case r' of Inl e \<Rightarrow> Inl e | Inr _ \<Rightarrow> Inr (bm_digest m))"
proof (cases "latest_digest sha str_of d")
  case (Inl e)
  then show thesis using assms refused [of e] by (simp add: write_manifest_def)
next
  case (Inr head)
  show thesis
  proof (cases "build_manifest sha (we_now env) (we_id env) RETENTION_YEARS (writer_inputs names dec ctx head)")
    case (Inl e)
    then show thesis using assms Inr refused [of e] by (simp add: write_manifest_def)
  next
    case b: (Inr m)
    obtain r' where p: "put sha str_of cfg sink (we_disk env) m d a = (r', d', a')"
      "r = (case r' of Inl e \<Rightarrow> Inl e | Inr _ \<Rightarrow> Inr (bm_digest m))"
      using assms Inr b by (auto simp: write_manifest_def split: prod.splits sum.splits)
    show thesis by (rule put [OF Inr b p])
  qed
qed

lemma write_manifest_step:
  assumes "write_manifest sha str_of cfg (logger_sink sha x now) names env dec ctx (d, rows) = (r, d', rows')"
    and "wf_write dec ctx" "env_ok env" "store_inv sha str_of d" "linked sha 0 AUDIT_GENESIS_HASH rows"
  shows "store_inv sha str_of d' \<and> linked sha 0 AUDIT_GENESIS_HASH rows' \<and> (\<exists>y. d' = d @ y) \<and> set rows \<subseteq> set rows'
     \<and> (\<forall>digest. r = Inr digest \<longrightarrow> length d' = length d + 1 \<and> on_record sha str_of cfg d' rows' (int (length d) + 1) digest)"
  using assms(1)
proof (cases rule: write_manifest_cases)
  case (put head m r')
  let ?i = "writer_inputs names dec ctx head"
  let ?p = "\<lparr>pc_now = we_now env, pc_id = we_id env, pc_years = RETENTION_YEARS, pc_inputs = ?i, pc_disk = we_disk env\<rparr>"
  have wf: "wf_inputs ?i" by (rule writer_inputs_wf [OF assms(2)])
  obtain doc where doc: "bm_document m = Inr doc" "states doc (mi_prev_manifest_hash ?i) (bm_digest m)"
    using built_manifest_document [OF put(2) wf] by blast
  have "call_ok ?p" using wf assms(3) by (simp add: call_ok_def env_ok_def)
  then have s: "store_inv sha str_of d'" "stored_ok sha str_of d' r'"
    using put_store_inv [OF assms(4), of ?p m cfg "logger_sink sha x now" rows r' d' rows'] put(2,3) by simp_all
  have l: "linked sha 0 AUDIT_GENESIS_HASH rows'" "set rows \<subseteq> set rows'"
    using put_logger [OF put(3) doc assms(5)] by simp_all
  have "length d' = length d + 1 \<and> on_record sha str_of cfg d' rows' (int (length d) + 1) digest" if "r = Inr digest" for digest
  proof -
    from that put(4) obtain st where r': "r' = Inr st" and dg: "digest = bm_digest m" by (auto split: sum.splits)
    from put_success [OF put(3) [unfolded r'] doc(1)] have st: "sm_digest st = digest"
      "d' = d @ [(next_seq d, bm_document_json m @ [LF])]" "sm_seq st = int (length d) + 1"
      "emit_audit cfg (logger_sink sha x now) st doc rows = (Inr (), rows')" by (auto simp: dg next_seq_def files_of_def)
    obtain d1 where d1: "get_manifest sha str_of d' (sm_seq st) = Inr d1" "map_of d1 ''manifest_digest'' = Some (JvStr digest)"
      using s(2) r' st(1) by (auto simp: stored_ok_def)
    from logger.emit_audit_events [OF st(4) doc(2)] obtain row pl where "row \<in> set rows'"
      "aw_type row = sc_event_type cfg" "aw_actor row = sc_actor cfg" "aw_payload row = sort_obj (JvObj pl)"
      "map_of pl ''seq'' = Some (JvInt (sm_seq st))" "map_of pl ''manifest_digest'' = Some (JvStr digest)"
      unfolding row_events_set using st(1) by fastforce
    then show ?thesis unfolding on_record_def using d1 st(2,3) by auto
  qed
  then show ?thesis using s(1) l put_extends [OF put(3)] by blast
qed (use assms(4,5) in auto)

record write_call =
  wc_env :: writer_env
  wc_decision :: aegis_decision
  wc_context :: execution_context
  wc_txn :: txn
  wc_at :: moment

fun write_run ::
  "sha \<Rightarrow> (jv \<Rightarrow> pystr) \<Rightarrow> store_config \<Rightarrow> (int \<times> pystr) list \<Rightarrow> write_call list \<Rightarrow> mdir \<times> audit_row list
     \<Rightarrow> (exc + pystr) list \<times> mdir \<times> audit_row list" where
  "write_run sha str_of cfg names [] s = ([], s)"
| "write_run sha str_of cfg names (c # cs) s =
     (case write_manifest sha str_of cfg (logger_sink sha (wc_txn c) (wc_at c)) names (wc_env c) (wc_decision c) (wc_context c) s of
        (r, s') \<Rightarrow> (case write_run sha str_of cfg names cs s' of (rs, s'') \<Rightarrow> (r # rs, s'')))"

definition wf_call :: "write_call \<Rightarrow> bool" where
  "wf_call c \<longleftrightarrow> wf_write (wc_decision c) (wc_context c) \<and> env_ok (wc_env c)"

lemma write_run_inv:
  assumes "list_all wf_call cs" "store_inv sha str_of d" "linked sha 0 AUDIT_GENESIS_HASH rows"
    and "write_run sha str_of cfg names cs (d, rows) = (rs, d', rows')"
  shows "store_inv sha str_of d' \<and> linked sha 0 AUDIT_GENESIS_HASH rows' \<and> (\<exists>y. d' = d @ y) \<and> set rows \<subseteq> set rows'
     \<and> (\<forall>digest. Inr digest \<in> set rs \<longrightarrow> (\<exists>seq. on_record sha str_of cfg d' rows' seq digest))"
  using assms
proof (induction cs arbitrary: d rows rs)
  case (Cons c cs)
  obtain r d1 rows1 where w: "write_manifest sha str_of cfg (logger_sink sha (wc_txn c) (wc_at c)) names (wc_env c)
      (wc_decision c) (wc_context c) (d, rows) = (r, d1, rows1)" by (metis prod_cases3)
  then obtain rs' where run: "write_run sha str_of cfg names cs (d1, rows1) = (rs', d', rows')" "rs = r # rs'"
    using Cons.prems(4) by (auto split: prod.splits)
  have c: "wf_write (wc_decision c) (wc_context c)" "env_ok (wc_env c)" "list_all wf_call cs"
    using Cons.prems(1) by (simp add: wf_call_def, simp add: wf_call_def, simp)
  note 1 = write_manifest_step [OF w c(1,2) Cons.prems(2,3)]
  have 2: "store_inv sha str_of d' \<and> linked sha 0 AUDIT_GENESIS_HASH rows' \<and> (\<exists>y. d' = d1 @ y) \<and> set rows1 \<subseteq> set rows'
     \<and> (\<forall>digest. Inr digest \<in> set rs' \<longrightarrow> (\<exists>seq. on_record sha str_of cfg d' rows' seq digest))"
    using Cons.IH [OF c(3) _ _ run(1)] 1 by blast
  obtain y z where "d1 = d @ y" "d' = d1 @ z" using 1 2 by blast
  then show ?case using 1 2 on_record_mono [of sha str_of cfg d1 rows1 _ _ rows' z] run(2) by fastforce
qed auto

lemma linked_verifies:
  "linked sha 0 AUDIT_GENESIS_HASH rows \<Longrightarrow> \<exists>v. verify_chain sha (Inr rows) None None = Inr v \<and> vr_ok v"
  using walk_rows_linked(2) [of sha 0 AUDIT_GENESIS_HASH rows 0] linked_sorted [of sha 0 AUDIT_GENESIS_HASH rows]
  by (simp add: verify_chain_def predecessor_def iter_rows_all)

lemma store_inv_verifies:
  "store_inv sha str_of d \<Longrightarrow> verify_store sha str_of d = Inr (True, length d, [])
     \<or> (\<exists>good f. d = good @ [f] \<and> verify_store sha str_of good = Inr (True, length good, []))"
  using chain_verifies unfolding store_inv_def torn_def by blast

text \<open>
  Manifests the motor wrote are stored, chained and audited. Over any sequence of writes, with
  refused inputs, refused and torn files and failing audit transactions: the audit table verifies;
  the store verifies, or it verifies up to one torn file at its end; and every digest the writer
  returned belongs to a manifest that can be read from the store and verifies, and to an audit record
  that names its number and its digest.
\<close>

theorem written_manifests_are_on_record:
  assumes "list_all wf_call cs" "write_run sha str_of cfg names cs ([], []) = (rs, d, rows)"
  shows "(\<exists>v. verify_chain sha (Inr rows) None None = Inr v \<and> vr_ok v)
     \<and> (verify_store sha str_of d = Inr (True, length d, [])
        \<or> (\<exists>good f. d = good @ [f] \<and> verify_store sha str_of good = Inr (True, length good, [])))
     \<and> (\<forall>digest. Inr digest \<in> set rs \<longrightarrow> (\<exists>seq. on_record sha str_of cfg d rows seq digest))"
proof -
  have "store_inv sha str_of []" by (auto simp: store_inv_def)
  from write_run_inv [OF assms(1) this _ assms(2)] have i: "store_inv sha str_of d" "linked sha 0 AUDIT_GENESIS_HASH rows"
    "\<forall>digest. Inr digest \<in> set rs \<longrightarrow> (\<exists>seq. on_record sha str_of cfg d rows seq digest)" by simp_all
  then show ?thesis using linked_verifies store_inv_verifies by blast
qed

definition demo_write :: write_call where
  "demo_write =
     \<lparr>wc_env = \<lparr>we_now = 1000000, we_id = ''id-1'', we_disk = WriteTorn ''{''\<rparr>,
      wc_decision = \<lparr>ad_results = [\<lparr>ctl_control_id = ''cap'', ctl_is_hard = True, ctl_passed = True, ctl_reason = 1,
          ctl_threshold = ''10'', ctl_observed = ''5'', ctl_detail = []\<rparr>],
        ad_order = the (mi_order demo_inputs), ad_aegis_version = ''1.0'', ad_limits_config_sha256 = []\<rparr>,
      wc_context = \<lparr>ec_snapshot = mi_snapshot demo_inputs, ec_signal = mi_signal demo_inputs, ec_model_versions = [(''judge'', ''v1'')],
        ec_cognitive = mi_cognitive demo_inputs, ec_hitl_override = None\<rparr>,
      wc_txn = Commits, wc_at = demo_time\<rparr>"

theorem written_manifests_are_on_record_witness:
  "\<exists>rs d rows. write_run demo_sha (\<lambda>_. []) \<lparr>sc_actor = ''motor'', sc_event_type = ''manifest.stored''\<rparr> []
       [demo_write\<lparr>wc_env := \<lparr>we_now = 1000000, we_id = ''id-1'', we_disk = FileWritten\<rparr>\<rparr>, demo_write] ([], []) = (rs, d, rows)
     \<and> (\<exists>v. verify_chain demo_sha (Inr rows) None None = Inr v \<and> vr_ok v)"
proof -
  let ?cs = "[demo_write\<lparr>wc_env := \<lparr>we_now = 1000000, we_id = ''id-1'', we_disk = FileWritten\<rparr>\<rparr>, demo_write]"
  obtain rs d rows where r: "write_run demo_sha (\<lambda>_. []) \<lparr>sc_actor = ''motor'', sc_event_type = ''manifest.stored''\<rparr> []
      ?cs ([], []) = (rs, d, rows)" by (metis prod_cases3)
  have "loads_text ''{'' = None" by code_simp
  then have "list_all wf_call ?cs"
    by (simp add: wf_call_def wf_write_def env_ok_def demo_write_def demo_inputs_def)
  from written_manifests_are_on_record [OF this r] r show ?thesis by blast
qed

end
