(* ===== verification/Order_Record.thy ===== *)
theory Order_Record
  imports Service_Properties Manifest_Writer
begin

text \<open>
  The order path composed with the manifest store and the audit log: the execution service whose
  release check is the motor's manifest writer, over its lifetime. Every order that reached a broker
  has its own manifest in the store and its own record in the audit table.
\<close>

section \<open>What an execution does to the records\<close>

lemma submit_manifest: "ms_manifest (snd (submit w ord v n rc ref s)) = ms_manifest s"
  by (auto simp: submit_def ms_is_halted_polled ms_clock_eq from_broker_def Let_def
      split: sum.split submit_result.split)

lemma claim_manifest: "ms_manifest (snd (claim_and_reserve w ord n rc ref s)) = ms_manifest s"
  by (simp add: claim_and_reserve_def Let_def split: prod.split sum.split bool.split)

lemma release_manifest:
  "ms_manifest (snd (release_stage w ord v n rc ref (Some f) s)) = snd (f (ms_manifest s))"
  by (auto simp: release_stage_def split: prod.splits option.splits)

lemma dispatched_manifest:
  "ms_manifest (dispatched w ord v n rc ref (Some f) s) \<in> {ms_manifest s, snd (f (ms_manifest s))}
   \<and> (ms_sent (dispatched w ord v n rc ref (Some f) s) \<noteq> ms_sent s \<longrightarrow>
        ms_manifest (dispatched w ord v n rc ref (Some f) s) = snd (f (ms_manifest s)))"
proof -
  obtain c s1 where c: "claim_and_reserve w ord n rc ref s = (c, s1)" by force
  have s1: "ms_manifest s1 = ms_manifest s" "ms_sent s1 = ms_sent s"
    using claim_manifest [of w ord n rc ref s] claim_and_reserve_sent [of w ord n rc ref s] c by simp_all
  obtain r s2 where r: "release_stage w ord v n rc ref (Some f) s1 = (r, s2)" by force
  have "ms_manifest s2 = snd (f (ms_manifest s))" using release_manifest [of w ord v n rc ref f s1] r s1(1) by simp
  then show ?thesis using c r s1 submit_manifest [of w ord v n rc ref s2]
    by (auto simp: dispatched_def split: stage.splits)
qed

lemma run_manifest:
  fixes s0 :: "'m motor_state" and m w a ref rc f
  defines "t \<equiv> snd (run m w a ref rc (Some f) s0)"
  shows "ms_manifest t \<in> {ms_manifest s0, snd (f (ms_manifest s0))}
     \<and> (ms_sent t \<noteq> ms_sent s0 \<longrightarrow> ms_manifest t = snd (f (ms_manifest s0)))"
proof -
  obtain p s where p: "precheck m w a ref rc s0 = (p, s)" by force
  have s: "core s = core s0" using precheck_core [of m w a ref rc s0] p by simp
  show ?thesis
  proof (cases "\<exists>n d v. p = Continue n \<and> routed m w (ao_order a) rc (ms_reads s) = Inr d \<and> rd_venue d = Some v")
    case True
    then obtain n d v where "p = Continue n" "routed m w (ao_order a) rc (ms_reads s) = Inr d" "rd_venue d = Some v"
      by blast
    then have "t = dispatched w (ao_order a) v n rc ref (Some f) s"
      using run_dispatched [of m w a ref rc s0 n s d v "Some f"] p by (simp add: t_def)
    then show ?thesis using dispatched_manifest [of w "ao_order a" v n rc ref f s] core_eqD [OF s] by simp
  next
    case False
    then have "core t = core s0" using run_not_dispatched [OF p] s by (simp add: t_def)
    then show ?thesis using core_eqD [of t s0] by auto
  qed
qed

lemma execute_manifest:
  fixes s :: "'m motor_state" and m w a ref f
  defines "t \<equiv> snd (execute m w a ref (Some f) s)"
  shows "ms_manifest t \<in> {ms_manifest s, snd (f (ms_manifest s))}
     \<and> (ms_sent t \<noteq> ms_sent s \<longrightarrow> ms_manifest t = snd (f (ms_manifest s)))"
  using run_manifest [of m w a ref "w_clock w (ms_reads s)" f "s\<lparr>ms_reads := Suc (ms_reads s)\<rparr>"]
    core_eqD [OF core_execute [of m w a ref "Some f" s]] unfolding t_def by simp

section \<open>The service over its lifetime\<close>

type_synonym record_state = "mdir \<times> audit_row list"

text \<open>
  A running service: requests and bare decisions, with any motor configuration, environment and
  strategy gate, and a manifest gate that is the writer over the store and the audit log. The views
  give the parts of a decision and its context that the writer reads.
\<close>

inductive traded ::
  "sha \<Rightarrow> (jv \<Rightarrow> pystr) \<Rightarrow> store_config \<Rightarrow> (int \<times> pystr) list \<Rightarrow> (decision_msg \<Rightarrow> aegis_decision)
     \<Rightarrow> (context_msg \<Rightarrow> execution_context) \<Rightarrow> record_state motor_state \<Rightarrow> bool"
  for sha str_of cfg names dview cview where
  start: "ms_manifest s = ([], []) \<Longrightarrow> ms_sent s = [] \<Longrightarrow> traded sha str_of cfg names dview cview s"
| request: "traded sha str_of cfg names dview cview s \<Longrightarrow>
     cg_manifest g = Some (\<lambda>d cx. write_manifest sha str_of cfg (logger_sink sha x now) names env (dview d) (cview cx)) \<Longrightarrow>
     (\<forall>d cx. wf_write (dview d) (cview cx)) \<Longrightarrow> env_ok env \<Longrightarrow>
     handle_request m w rq rnow g ref rep s = (res, t, reps) \<Longrightarrow> traded sha str_of cfg names dview cview t"
| decision: "traded sha str_of cfg names dview cview s \<Longrightarrow> cg_manifest g \<noteq> None \<Longrightarrow>
     handle_decision m w d rnow ref rep g s = (res, t, reps) \<Longrightarrow> traded sha str_of cfg names dview cview t"

text \<open>Each order that was sent has a number of its own, under which its manifest is on record.\<close>

definition orders_recorded :: "sha \<Rightarrow> (jv \<Rightarrow> pystr) \<Rightarrow> store_config \<Rightarrow> mdir \<Rightarrow> audit_row list \<Rightarrow> nat \<Rightarrow> bool" where
  "orders_recorded sha str_of cfg d rows n \<longleftrightarrow> (\<exists>seqs. length seqs = n \<and> distinct seqs
     \<and> (\<forall>q \<in> set seqs. q \<le> int (length d) \<and> (\<exists>digest. on_record sha str_of cfg d rows q digest)))"

definition record_inv :: "sha \<Rightarrow> (jv \<Rightarrow> pystr) \<Rightarrow> store_config \<Rightarrow> record_state motor_state \<Rightarrow> bool" where
  "record_inv sha str_of cfg s \<longleftrightarrow> (case ms_manifest s of (d, rows) \<Rightarrow> store_inv sha str_of d
     \<and> linked sha 0 AUDIT_GENESIS_HASH rows \<and> orders_recorded sha str_of cfg d rows (length (ms_sent s)))"

lemma orders_recorded_more:
  assumes "orders_recorded sha str_of cfg d rows n" "d' = d @ y" "set rows \<subseteq> set rows'"
  shows "orders_recorded sha str_of cfg d' rows' n"
proof -
  from assms(1) obtain seqs where q: "length seqs = n" "distinct seqs"
    "\<forall>q \<in> set seqs. q \<le> int (length d) \<and> (\<exists>digest. on_record sha str_of cfg d rows q digest)"
    by (auto simp: orders_recorded_def)
  have "q \<le> int (length d') \<and> (\<exists>digest. on_record sha str_of cfg d' rows' q digest)" if "q \<in> set seqs" for q
    using q(3) that on_record_mono [OF _ assms(3), of sha str_of cfg d q _ y] assms(2) by fastforce
  then show ?thesis using q(1,2) unfolding orders_recorded_def by blast
qed

lemma orders_recorded_Suc:
  assumes "orders_recorded sha str_of cfg d rows n" "d' = d @ y" "set rows \<subseteq> set rows'"
    and "length d' = length d + 1" "on_record sha str_of cfg d' rows' (int (length d) + 1) digest"
  shows "orders_recorded sha str_of cfg d' rows' (n + 1)"
proof -
  from assms(1) obtain seqs where q: "length seqs = n" "distinct seqs"
    "\<forall>q \<in> set seqs. q \<le> int (length d) \<and> (\<exists>digest. on_record sha str_of cfg d rows q digest)"
    by (auto simp: orders_recorded_def)
  have "int (length d) + 1 \<notin> set seqs" using q(3) by force
  moreover have "\<exists>digest. on_record sha str_of cfg d' rows' p digest" if "p \<in> set seqs" for p
    using q(3) that on_record_mono [OF _ assms(3), of sha str_of cfg d p _ y] assms(2) by blast
  ultimately show ?thesis using q assms(4,5) unfolding orders_recorded_def
    by (intro exI [of _ "seqs @ [int (length d) + 1]"]) force
qed

lemma write_record_inv:
  assumes "record_inv sha str_of cfg s" "ms_manifest s = (d, rows)" "ms_manifest t = (d', rows')"
    and "write_manifest sha str_of cfg (logger_sink sha x now) names env dec ctx (d, rows) = (r, d', rows')"
    and "wf_write dec ctx" "env_ok env"
    and "ms_sent t = ms_sent s \<or> (\<exists>o1 digest. ms_sent t = ms_sent s @ [o1] \<and> r = Inr digest)"
  shows "record_inv sha str_of cfg t"
proof -
  have i: "store_inv sha str_of d" "linked sha 0 AUDIT_GENESIS_HASH rows"
    "orders_recorded sha str_of cfg d rows (length (ms_sent s))"
    using assms(1,2) by (simp_all add: record_inv_def)
  note w = write_manifest_step [OF assms(4-6) i(1,2)]
  then obtain y where y: "d' = d @ y" "set rows \<subseteq> set rows'" by blast
  have "orders_recorded sha str_of cfg d' rows' (length (ms_sent t))"
    using assms(7) orders_recorded_more [OF i(3) y] orders_recorded_Suc [OF i(3) y] w by auto
  then show ?thesis using w assms(3) by (simp add: record_inv_def)
qed

lemma request_record_inv:
  assumes "record_inv sha str_of cfg s" "handle_request m w rq rnow g ref rep s = (res, t, reps)"
    and "cg_manifest g = Some (\<lambda>d cx. write_manifest sha str_of cfg (logger_sink sha x now) names env (dview d) (cview cx))"
    and "\<forall>d cx. wf_write (dview d) (cview cx)" "env_ok env"
  shows "record_inv sha str_of cfg t"
  using assms(2)
proof (cases rule: handle_request_cases)
  case (ran ao cx)
  let ?d = "rq_decision rq"
  let ?wr = "\<lambda>mst. write_manifest sha str_of cfg (logger_sink sha x now) names env (dview ?d) (cview cx) mst"
  define f where "f = (\<lambda>mst. case ?wr mst of
      (Inl e, mst') \<Rightarrow> (Some (''manifest not stored: '' @ short_exc e), mst') | (Inr digest, mst') \<Rightarrow> (None, mst'))"
  have f: "gates_release_check g ?d cx = Some f" using assms(3) by (simp add: gates_release_check_def f_def)
  have f': "snd (f mst) = snd (?wr mst)" "fst (f mst) = None \<Longrightarrow> \<exists>digest. fst (?wr mst) = Inr digest" for mst
    by (auto simp: f_def split: prod.splits sum.splits)
  have e: "execute m w ao ref (Some f) s = (res, t)" using execute_and_report_eq [OF ran(5)] f by simp
  have m: "ms_manifest t \<in> {ms_manifest s, snd (?wr (ms_manifest s))}"
    "ms_sent t \<noteq> ms_sent s \<Longrightarrow> ms_manifest t = snd (?wr (ms_manifest s))"
    using execute_manifest [of m w ao ref f s] e f'(1) by simp_all
  obtain d rows where s: "ms_manifest s = (d, rows)" by force
  obtain r d' rows' where w: "?wr (d, rows) = (r, d', rows')" by (metis prod_cases3)
  show ?thesis
  proof (cases "ms_manifest t = (d', rows')")
    case True
    have "ms_sent t = ms_sent s \<or> (\<exists>o1 digest. ms_sent t = ms_sent s @ [o1] \<and> r = Inr digest)"
    proof (cases "ms_sent t = ms_sent s")
      case False
      have "release_ok (Some f) (ms_manifest s)" using execute_sent_release [OF e False] .
      then have "\<exists>digest. r = Inr digest" using f'(2) [of "(d, rows)"] s w by (simp add: release_ok_def)
      moreover have "\<exists>o1. ms_sent t = ms_sent s @ [o1]"
        using execute_outcome [of s m w ao ref "Some f"] e False by auto
      ultimately show ?thesis by blast
    qed simp
    then show ?thesis using write_record_inv [OF assms(1) s True w _ assms(5)] assms(4) by blast
  next
    case False
    then have "ms_manifest t = ms_manifest s" "ms_sent t = ms_sent s" using m s w by auto
    then show ?thesis using assms(1) by (simp add: record_inv_def)
  qed
qed (use assms(1) in simp)

lemma traded_record_inv: "traded sha str_of cfg names dview cview s \<Longrightarrow> record_inv sha str_of cfg s"
proof (induction rule: traded.induct)
  case (start s)
  then show ?case by (auto simp: record_inv_def store_inv_def orders_recorded_def)
next
  case (request s g x now env m w rq rnow ref rep res t reps)
  show ?case by (rule request_record_inv [OF request.IH request.hyps(5,2-4)])
next
  case (decision s g m w d rnow ref rep res t reps)
  from decision.hyps(3) show ?case
    by (cases rule: handle_decision_cases) (use decision.hyps(2) decision.IH in \<open>auto simp: requires_context_def\<close>)
qed


section \<open>An order on record\<close>

definition record_config :: store_config where
  "record_config = \<lparr>sc_actor = ''motor'', sc_event_type = ''manifest.stored''\<rparr>"

definition record_gates :: "record_state compliance_gates" where
  "record_gates = \<lparr>cg_manifest = Some (\<lambda>d cx. write_manifest demo_sha (\<lambda>_. []) record_config (logger_sink demo_sha Commits demo_time)
       [] \<lparr>we_now = 1000000, we_id = ''id-1'', we_disk = FileWritten\<rparr> (wc_decision demo_write) (wc_context demo_write)),
     cg_strategy_gate = None\<rparr>"

definition record_start :: "record_state motor_state" where
  "record_start = \<lparr>ms_kill = ms_kill ex_state, ms_idem = ms_idem ex_state, ms_ledger = ms_ledger ex_state,
     ms_reads = 0, ms_polls = 0, ms_sent = [], ms_manifest = ([], [])\<rparr>"

definition record_handled :: "record_state handled" where
  "record_handled = handle_request ex_service_motor ex_service_world ex_request 5 record_gates None True record_start"


end
