(* ===== verification/Debate.thy ===== *)
theory Debate
  imports Json
begin

text \<open>
  The debate of the cognitive core (\<open>zone-a/cognitive-core\<close>): the state models with their validators
  (\<open>models.py\<close>), strict parsing of model replies (\<open>parsing.py\<close>), position sizing (\<open>sizing.py\<close>), the
  Blue, Red, Judge and Compression nodes and the guarded run of the graph (\<open>graph.py\<close>), and the
  conversion of a finished debate into a trade signal (\<open>signals.py\<close>).

  A \<^emph>\<open>debate world\<close> answers for everything outside: the monotonic clock, each awaited model call (an
  exception, a text, or something that is no text, as a function of the state the prompt is rendered
  from), and whether the graph as a whole ran within its deadline. Pydantic's JSON reader is the
  parameter \<open>reader\<close>; the validation of the value it returns is written out field by field.
  Floats are rationals rounded by \<open>fl\<close>. Cancellation of the task is not modelled.
\<close>

text \<open>\<open>s[:n]\<close> for \<open>n\<close> not negative, computed over \<open>int\<close>.\<close>

definition py_prefix :: "int \<Rightarrow> 'a list \<Rightarrow> 'a list" where
  "py_prefix n s = take (nat n) s"

lemma py_prefix_code [code]:
  "py_prefix n [] = []" "py_prefix n (x # xs) = (if n \<le> 0 then [] else x # py_prefix (n - 1) xs)"
  by (simp_all add: py_prefix_def take_Cons' nat_diff_distrib)

lemma length_py_prefix: "0 \<le> n \<Longrightarrow> int (length (py_prefix n s)) \<le> n"
  by (simp add: py_prefix_def)

section \<open>Models\<close>

datatype signal_side = SIDE_UNKNOWN | SIG_BUY | SIG_SELL | SIG_SELL_SHORT

datatype signal_status = SIGNAL_PENDING | SIGNAL_APPROVED | SIGNAL_REJECTED_HARD_BLOCK
  | SIGNAL_SOFT_BLOCK_PENDING | SIGNAL_ABSTAIN | SIGNAL_EXPIRED

datatype regime_label = REGIME_UNKNOWN | TRENDING_BULL | TRENDING_BEAR | HIGH_VOL_CHOP | LOW_VOL_CHOP | CRISIS

fun signal_side_value :: "signal_side \<Rightarrow> pystr" where
  "signal_side_value SIDE_UNKNOWN = ''SIDE_UNKNOWN''"
| "signal_side_value SIG_BUY = ''BUY''"
| "signal_side_value SIG_SELL = ''SELL''"
| "signal_side_value SIG_SELL_SHORT = ''SELL_SHORT''"

fun signal_status_value :: "signal_status \<Rightarrow> pystr" where
  "signal_status_value SIGNAL_PENDING = ''SIGNAL_PENDING''"
| "signal_status_value SIGNAL_APPROVED = ''SIGNAL_APPROVED''"
| "signal_status_value SIGNAL_REJECTED_HARD_BLOCK = ''SIGNAL_REJECTED_HARD_BLOCK''"
| "signal_status_value SIGNAL_SOFT_BLOCK_PENDING = ''SIGNAL_SOFT_BLOCK_PENDING''"
| "signal_status_value SIGNAL_ABSTAIN = ''SIGNAL_ABSTAIN''"
| "signal_status_value SIGNAL_EXPIRED = ''SIGNAL_EXPIRED''"

fun regime_value :: "regime_label \<Rightarrow> pystr" where
  "regime_value REGIME_UNKNOWN = ''REGIME_UNKNOWN''"
| "regime_value TRENDING_BULL = ''TRENDING_BULL''"
| "regime_value TRENDING_BEAR = ''TRENDING_BEAR''"
| "regime_value HIGH_VOL_CHOP = ''HIGH_VOL_CHOP''"
| "regime_value LOW_VOL_CHOP = ''LOW_VOL_CHOP''"
| "regime_value CRISIS = ''CRISIS''"

definition ACTIONABLE_STATUSES :: "signal_status set" where
  "ACTIONABLE_STATUSES = {SIGNAL_PENDING, SIGNAL_APPROVED, SIGNAL_SOFT_BLOCK_PENDING}"

definition MAX_SUMMARY_TOKENS :: int where
  "MAX_SUMMARY_TOKENS = 200"

definition CHARS_PER_TOKEN :: int where
  "CHARS_PER_TOKEN = 4"

definition PROB_SUM_TOLERANCE :: rat where
  "PROB_SUM_TOLERANCE = fl (1 / 1000000)"

definition truncate_summary :: "pystr \<Rightarrow> int \<Rightarrow> pystr" where
  "truncate_summary s max_tokens = py_prefix (max_tokens * CHARS_PER_TOKEN) s"

record market_context =
  mk_symbol :: pystr
  mk_mid_price :: rat
  mk_z_score :: rat
  mk_mad_score :: rat
  mk_ofi :: rat
  mk_realized_vol :: rat
  mk_adv_30d :: rat

definition MarketContext_new :: "market_context \<Rightarrow> exc + market_context" where
  "MarketContext_new m =
     rbind (guard (mk_symbol m \<noteq> [] \<and> int (length (mk_symbol m)) \<le> 32 \<and> 0 < mk_mid_price m
       \<and> - 1 \<le> mk_ofi m \<and> mk_ofi m \<le> 1 \<and> 0 \<le> mk_realized_vol m \<and> 0 \<le> mk_adv_30d m) ValidationError) (\<lambda>_. Inr m)"

record blue_thesis =
  bt_side :: signal_side
  bt_rationale :: pystr
  bt_key_factors :: "pystr list"
  bt_forced :: bool

record red_challenge =
  rc_counter_factors :: "pystr list"
  rc_failure_patterns :: "pystr list"
  rc_forced :: bool

record judge_verdict =
  jd_side :: signal_side
  jd_omega :: rat
  jd_p_success :: rat
  jd_p_failure :: rat
  jd_reward :: rat
  jd_risk :: rat
  jd_defaulted :: bool

definition unit_float :: "rat \<Rightarrow> bool" where
  "unit_float x \<longleftrightarrow> 0 \<le> x \<and> x \<le> 1"

definition probabilities_sum_to_one :: "rat \<Rightarrow> rat \<Rightarrow> bool" where
  "probabilities_sum_to_one p q \<longleftrightarrow> \<not> PROB_SUM_TOLERANCE < \<bar>fl (fl (p + q) - 1)\<bar>"

definition JudgeVerdict_ok :: "judge_verdict \<Rightarrow> bool" where
  "JudgeVerdict_ok v \<longleftrightarrow> unit_float (jd_omega v) \<and> unit_float (jd_p_success v) \<and> unit_float (jd_p_failure v)
     \<and> 0 \<le> jd_reward v \<and> 0 \<le> jd_risk v \<and> probabilities_sum_to_one (jd_p_success v) (jd_p_failure v)"

definition expected_value :: "judge_verdict \<Rightarrow> rat" where
  "expected_value v = fl (fl (jd_p_success v * jd_reward v) - fl (jd_p_failure v * jd_risk v))"

definition default_abstain :: judge_verdict where
  "default_abstain = \<lparr>jd_side = SIDE_UNKNOWN, jd_omega = 0, jd_p_success = 0, jd_p_failure = 1, jd_reward = 0,
     jd_risk = 0, jd_defaulted = True\<rparr>"

record trade_signal =
  ts_signal_id :: pystr
  ts_symbol :: pystr
  ts_created_at_ns :: int
  ts_side :: signal_side
  ts_quantity :: dec
  ts_omega :: rat
  ts_expected_value :: rat
  ts_p_success :: rat
  ts_p_failure :: rat
  ts_reward_estimate :: rat
  ts_risk_estimate :: rat
  ts_spread_cost :: rat
  ts_market_impact :: rat
  ts_venue_fees :: rat
  ts_total_cost :: rat
  ts_regime :: regime_label
  ts_regime_confidence :: rat
  ts_debate_summary :: pystr
  ts_price_limit :: rat
  ts_valid_until_ns :: int
  ts_status :: signal_status

text \<open>Field constraints first, then the invariants of the model validator.\<close>

definition signal_fields_ok :: "trade_signal \<Rightarrow> bool" where
  "signal_fields_ok t \<longleftrightarrow> ts_signal_id t \<noteq> [] \<and> ts_symbol t \<noteq> [] \<and> int (length (ts_symbol t)) \<le> 32
     \<and> 0 \<le> ts_created_at_ns t \<and> (case ts_quantity t of Fin q \<Rightarrow> 0 \<le> q | _ \<Rightarrow> False)
     \<and> unit_float (ts_omega t) \<and> unit_float (ts_p_success t) \<and> unit_float (ts_p_failure t)
     \<and> 0 \<le> ts_reward_estimate t \<and> 0 \<le> ts_risk_estimate t \<and> 0 \<le> ts_spread_cost t \<and> 0 \<le> ts_market_impact t
     \<and> 0 \<le> ts_venue_fees t \<and> 0 \<le> ts_total_cost t \<and> unit_float (ts_regime_confidence t) \<and> 0 \<le> ts_price_limit t
     \<and> 0 \<le> ts_valid_until_ns t"

definition positive_quantity :: "dec \<Rightarrow> bool" where
  "positive_quantity q \<longleftrightarrow> (case q of Fin x \<Rightarrow> 0 < x | _ \<Rightarrow> False)"

definition signal_invariants :: "trade_signal \<Rightarrow> bool" where
  "signal_invariants t \<longleftrightarrow> probabilities_sum_to_one (ts_p_success t) (ts_p_failure t)
     \<and> (ts_status t \<in> ACTIONABLE_STATUSES \<longrightarrow>
          ts_side t \<noteq> SIDE_UNKNOWN \<and> positive_quantity (ts_quantity t) \<and> ts_created_at_ns t < ts_valid_until_ns t)
     \<and> (ts_status t = SIGNAL_ABSTAIN \<longrightarrow> ts_side t = SIDE_UNKNOWN \<and> ts_quantity t = Fin 0)"

definition TradeSignal_new :: "trade_signal \<Rightarrow> exc + trade_signal" where
  "TradeSignal_new t =
     (let u = t\<lparr>ts_debate_summary := truncate_summary (ts_debate_summary t) MAX_SUMMARY_TOKENS\<rparr>
      in rbind (guard (signal_fields_ok u \<and> signal_invariants u) ValidationError) (\<lambda>_. Inr u))"

datatype precedent_status = NoneConfigured | RecallOk | Unavailable

record debate_state =
  ds_context :: market_context
  ds_regime :: regime_label
  ds_regime_confidence :: rat
  ds_precedents :: "pystr list"
  ds_precedents_status :: precedent_status
  ds_started_at :: "rat option"
  ds_blue :: "blue_thesis option"
  ds_red :: "red_challenge option"
  ds_judge :: "judge_verdict option"
  ds_summary :: "pystr option"

section \<open>Parsing model replies\<close>

abbreviation ModelOutputError :: "pystr \<Rightarrow> exc" where
  "ModelOutputError \<equiv> Exc ''ModelOutputError''"

definition MAX_RAW_CHARS :: int where
  "MAX_RAW_CHARS = 100000"

definition FENCE :: pystr where
  "FENCE = replicate 3 (CHR 0x60)"

text \<open>
  The body of one fence around the whole text: the opening fence with an optional language tag up to
  a line feed, and the closing fence at the end. The line break before the closing fence is stripped
  with the rest of the surrounding white space.
\<close>

definition fence_body :: "pystr \<Rightarrow> pystr option" where
  "fence_body s =
     (case strip_prefix FENCE s of None \<Rightarrow> None
      | Some r \<Rightarrow>
          let tagged = (case strip_prefix ''json'' r of Some t \<Rightarrow> t
                        | None \<Rightarrow> (case strip_prefix ''JSON'' r of Some t \<Rightarrow> t | None \<Rightarrow> r));
              blank = dropWhile (\<lambda>c. c = CHR '' '' \<or> c = CHR 0x09) tagged;
              line = (if blank \<noteq> [] \<and> hd blank = CHR 0x0D then tl blank else blank)
          in if line \<noteq> [] \<and> hd line = LF \<and> 3 \<le> length (tl line) \<and> drop (length (tl line) - 3) (tl line) = FENCE
             then Some (take (length (tl line) - 3) (tl line)) else None)"

definition strip_json_fence :: "pystr \<Rightarrow> pystr" where
  "strip_json_fence raw =
     (let s = py_strip raw in case fence_body s of Some b \<Rightarrow> py_strip b | None \<Rightarrow> s)"

definition parse_json_model :: "(pystr \<Rightarrow> jv option) \<Rightarrow> (jv \<Rightarrow> 'a option) \<Rightarrow> pystr \<Rightarrow> exc + 'a" where
  "parse_json_model reader model raw =
     (if MAX_RAW_CHARS < int (length raw) then Inl (ModelOutputError ''model reply exceeds the maximum accepted size'')
      else case reader (strip_json_fence raw) of None \<Rightarrow> Inl (ModelOutputError ''validation failed'')
        | Some v \<Rightarrow> (case model v of None \<Rightarrow> Inl (ModelOutputError ''validation failed'') | Some m \<Rightarrow> Inr m))"

text \<open>Strict fields: no coercion, and no field the model does not have.\<close>

fun jv_str :: "int \<Rightarrow> jv \<Rightarrow> pystr option" where
  "jv_str n (JvStr s) = (if int (length s) \<le> n then Some s else None)"
| "jv_str n _ = None"

fun jv_bool :: "jv \<Rightarrow> bool option" where
  "jv_bool (JvBool b) = Some b"
| "jv_bool _ = None"

fun jv_float :: "jv \<Rightarrow> rat option" where
  "jv_float (JvInt i) = (case to_float (of_int i) of Fin x \<Rightarrow> Some x | _ \<Rightarrow> None)"
| "jv_float (JvDec x) = Some x"
| "jv_float _ = None"

fun jv_side :: "jv \<Rightarrow> signal_side option" where
  "jv_side (JvStr s) = List.find (\<lambda>d. signal_side_value d = s) [SIDE_UNKNOWN, SIG_BUY, SIG_SELL, SIG_SELL_SHORT]"
| "jv_side _ = None"

fun all_some :: "'a option list \<Rightarrow> 'a list option" where
  "all_some [] = Some []"
| "all_some (x # xs) = Option.bind x (\<lambda>y. map_option (\<lambda>ys. y # ys) (all_some xs))"

fun jv_factors :: "jv \<Rightarrow> pystr list option" where
  "jv_factors (JvArr vs) = (if int (length vs) \<le> 25 then all_some (map (jv_str 500) vs) else None)"
| "jv_factors _ = None"

definition jfield :: "(jv \<Rightarrow> 'a option) \<Rightarrow> 'a option \<Rightarrow> (pystr \<times> jv) list \<Rightarrow> pystr \<Rightarrow> 'a option" where
  "jfield conv dflt kvs k = (case map_of kvs k of None \<Rightarrow> dflt | Some v \<Rightarrow> conv v)"

definition no_extra :: "pystr list \<Rightarrow> (pystr \<times> jv) list \<Rightarrow> bool" where
  "no_extra names kvs \<longleftrightarrow> list_all (\<lambda>kv. fst kv \<in> set names) kvs"

fun BlueThesis_json :: "jv \<Rightarrow> blue_thesis option" where
  "BlueThesis_json (JvObj kvs) =
     (if \<not> no_extra [''side'', ''rationale'', ''key_factors'', ''forced_completion''] kvs then None
      else Option.bind (jfield jv_side None kvs ''side'') (\<lambda>s.
           Option.bind (jfield (jv_str 4000) None kvs ''rationale'') (\<lambda>r.
           Option.bind (jfield jv_factors (Some []) kvs ''key_factors'') (\<lambda>fs.
           Option.bind (jfield jv_bool (Some False) kvs ''forced_completion'') (\<lambda>b.
           Some \<lparr>bt_side = s, bt_rationale = r, bt_key_factors = fs, bt_forced = b\<rparr>)))))"
| "BlueThesis_json _ = None"

fun RedChallenge_json :: "jv \<Rightarrow> red_challenge option" where
  "RedChallenge_json (JvObj kvs) =
     (if \<not> no_extra [''counter_factors'', ''failure_patterns'', ''forced_completion''] kvs then None
      else Option.bind (jfield jv_factors (Some []) kvs ''counter_factors'') (\<lambda>cs.
           Option.bind (jfield jv_factors (Some []) kvs ''failure_patterns'') (\<lambda>ps.
           Option.bind (jfield jv_bool (Some False) kvs ''forced_completion'') (\<lambda>b.
           Some \<lparr>rc_counter_factors = cs, rc_failure_patterns = ps, rc_forced = b\<rparr>))))"
| "RedChallenge_json _ = None"

fun JudgeVerdict_json :: "jv \<Rightarrow> judge_verdict option" where
  "JudgeVerdict_json (JvObj kvs) =
     (if \<not> no_extra [''side'', ''omega'', ''p_success'', ''p_failure'', ''reward_estimate'', ''risk_estimate'',
          ''defaulted_abstain''] kvs then None
      else Option.bind (jfield jv_side None kvs ''side'') (\<lambda>s.
           Option.bind (jfield jv_float None kvs ''omega'') (\<lambda>om.
           Option.bind (jfield jv_float None kvs ''p_success'') (\<lambda>ps.
           Option.bind (jfield jv_float None kvs ''p_failure'') (\<lambda>pf.
           Option.bind (jfield jv_float None kvs ''reward_estimate'') (\<lambda>rw.
           Option.bind (jfield jv_float None kvs ''risk_estimate'') (\<lambda>rk.
           Option.bind (jfield jv_bool (Some False) kvs ''defaulted_abstain'') (\<lambda>b.
             let v = \<lparr>jd_side = s, jd_omega = om, jd_p_success = ps, jd_p_failure = pf, jd_reward = rw, jd_risk = rk,
                   jd_defaulted = b\<rparr>
             in if JudgeVerdict_ok v then Some v else None))))))))"
| "JudgeVerdict_json _ = None"

section \<open>Settings\<close>

record cognitive_settings =
  cs_blue_model :: pystr
  cs_red_model :: pystr
  cs_judge_model :: pystr
  cs_compression_model :: pystr
  cs_reflector_model :: pystr
  cs_bedrock_region :: "pystr option"
  cs_bedrock_endpoint_url :: "pystr option"
  cs_blue_latency_budget_s :: rat
  cs_red_latency_budget_s :: rat
  cs_judge_latency_budget_s :: rat
  cs_compression_latency_budget_s :: rat
  cs_overall_deadline_s :: rat
  cs_reflector_timeout_s :: rat
  cs_blue_red_max_tokens :: int
  cs_judge_max_tokens :: int
  cs_compression_max_tokens :: int
  cs_reflector_max_tokens :: int
  cs_omega_threshold :: rat
  cs_signal_ttl_ms :: int

definition model_id_ok :: "pystr \<Rightarrow> bool" where
  "model_id_ok m \<longleftrightarrow> m \<noteq> [] \<and> int (length m) \<le> 256"

definition positive_seconds :: "rat \<Rightarrow> bool" where
  "positive_seconds x \<longleftrightarrow> 0 < x \<and> x \<le> 30"

definition token_budget_ok :: "int \<Rightarrow> bool" where
  "token_budget_ok n \<longleftrightarrow> 0 < n \<and> n \<le> 8192"

definition budgets_within_spec :: "cognitive_settings \<Rightarrow> bool" where
  "budgets_within_spec c \<longleftrightarrow>
     \<not> fl (3 / 2 + fl (1 / 10 ^ 9)) < fl (cs_blue_latency_budget_s c + cs_red_latency_budget_s c)
     \<and> (\<forall>u \<in> set_option (cs_bedrock_endpoint_url c). take 8 u = ''https://'')"

definition CognitiveSettings_new :: "cognitive_settings \<Rightarrow> exc + cognitive_settings" where
  "CognitiveSettings_new c =
     rbind (guard
       (list_all model_id_ok [cs_blue_model c, cs_red_model c, cs_judge_model c, cs_compression_model c, cs_reflector_model c]
        \<and> list_all positive_seconds [cs_blue_latency_budget_s c, cs_red_latency_budget_s c, cs_judge_latency_budget_s c,
             cs_compression_latency_budget_s c, cs_reflector_timeout_s c]
        \<and> 0 < cs_overall_deadline_s c \<and> cs_overall_deadline_s c \<le> fl (22 / 10)
        \<and> list_all token_budget_ok [cs_blue_red_max_tokens c, cs_judge_max_tokens c, cs_reflector_max_tokens c]
        \<and> 0 < cs_compression_max_tokens c \<and> cs_compression_max_tokens c \<le> 200
        \<and> 1 / 2 \<le> cs_omega_threshold c \<and> cs_omega_threshold c \<le> 1
        \<and> 0 < cs_signal_ttl_ms c \<and> cs_signal_ttl_ms c \<le> 60000 \<and> budgets_within_spec c)
       ValidationError) (\<lambda>_. Inr c)"

section \<open>Position sizing\<close>

record vol_scaled_sizer =
  vs_equity_usd :: rat
  vs_risk_per_trade :: rat
  vs_max_order_notional_usd :: rat

definition MAX_RISK_PER_TRADE :: rat where
  "MAX_RISK_PER_TRADE = 5 / 100"

definition VolScaledSizer_new :: "dec \<Rightarrow> dec \<Rightarrow> dec \<Rightarrow> exc + vol_scaled_sizer" where
  "VolScaledSizer_new equity risk cap =
     (case (equity, risk, cap) of
        (Fin e, Fin r, Fin c) \<Rightarrow>
          rbind (guard (0 < e) (Exc ''ValueError'' ''equity_usd must be a positive finite amount'')) (\<lambda>_.
          rbind (guard (0 < r \<and> r \<le> MAX_RISK_PER_TRADE) (Exc ''ValueError'' ''risk_per_trade must be in (0, 0.05]'')) (\<lambda>_.
          rbind (guard (0 < c) (Exc ''ValueError'' ''max_order_notional_usd must be a positive finite amount'')) (\<lambda>_.
          Inr \<lparr>vs_equity_usd = e, vs_risk_per_trade = r, vs_max_order_notional_usd = c\<rparr>)))
      | _ \<Rightarrow> Inl (Exc ''ValueError'' ''amounts must be finite''))"

text \<open>\<open>Decimal(repr(value))\<close>: the value of the shortest decimal that reads back as the double.\<close>

definition repr_decimal :: "rat \<Rightarrow> rat" where
  "repr_decimal x =
     (if x = 0 then 0
      else let c = shortest 16 1 \<bar>x\<bar>; y = of_int (fst c) * pow10 (snd c) in if x < 0 then - y else y)"

definition shares :: "vol_scaled_sizer \<Rightarrow> rat \<Rightarrow> rat \<Rightarrow> rat \<Rightarrow> int" where
  "shares s price realized_vol omega =
     (let p = repr_decimal price; vol = repr_decimal realized_vol; conf = repr_decimal omega in
      if p \<le> 0 \<or> vol \<le> 0 \<or> \<not> (0 < conf \<and> conf \<le> 1) then 0
      else let budget = dmul (dmul (vs_equity_usd s) (vs_risk_per_trade s)) conf;
               by_risk = \<lfloor>ddiv budget (dmul p vol)\<rfloor>;
               by_cap = \<lfloor>ddiv (vs_max_order_notional_usd s) p\<rfloor>
           in max 0 (min by_risk by_cap))"

definition size_order :: "vol_scaled_sizer \<Rightarrow> rat \<Rightarrow> rat \<Rightarrow> rat \<Rightarrow> exc + dec" where
  "size_order s price realized_vol omega =
     (case to_float (of_int (shares s price realized_vol omega)) of
        Fin q \<Rightarrow> Inr (Fin q) | _ \<Rightarrow> Inl (Exc ''OverflowError'' ''int too large to convert to float''))"

section \<open>Signals\<close>

definition NO_SUMMARY :: pystr where
  "NO_SUMMARY = ''no debate summary available''"

definition abstain_reasons :: "debate_state \<Rightarrow> judge_verdict \<Rightarrow> cognitive_settings \<Rightarrow> dec \<Rightarrow> pystr list" where
  "abstain_reasons st v cfg quantity =
     (case (ds_blue st, ds_red st) of
        (Some b, Some r) \<Rightarrow> (if bt_forced b \<or> rc_forced r then [''upstream_forced_completion''] else [])
      | _ \<Rightarrow> [''missing_upstream_node''])
     @ (if jd_defaulted v then [''judge_defaulted_abstain''] else [])
     @ (if jd_omega v < cs_omega_threshold cfg then [''omega_below_threshold''] else [])
     @ (if jd_side v = SIDE_UNKNOWN then [''side_unknown''] else [])
     @ (if \<not> positive_quantity quantity then [''quantity_not_positive''] else [])
     @ (if expected_value v \<le> 0 then [''non_positive_expected_value''] else [])"

definition build_signal ::
  "debate_state \<Rightarrow> judge_verdict \<Rightarrow> cognitive_settings \<Rightarrow> bool \<Rightarrow> dec \<Rightarrow> pystr \<Rightarrow> int \<Rightarrow> exc + trade_signal" where
  "build_signal st v cfg actionable quantity sid now_ns =
     TradeSignal_new
       \<lparr>ts_signal_id = sid, ts_symbol = mk_symbol (ds_context st), ts_created_at_ns = now_ns,
        ts_side = (if actionable then jd_side v else SIDE_UNKNOWN),
        ts_quantity = (if actionable then quantity else Fin 0), ts_omega = jd_omega v,
        ts_expected_value = expected_value v, ts_p_success = jd_p_success v, ts_p_failure = jd_p_failure v,
        ts_reward_estimate = jd_reward v, ts_risk_estimate = jd_risk v, ts_spread_cost = 0, ts_market_impact = 0,
        ts_venue_fees = 0, ts_total_cost = 0, ts_regime = ds_regime st,
        ts_regime_confidence = ds_regime_confidence st,
        ts_debate_summary = truncate_summary
          (case ds_summary st of None \<Rightarrow> NO_SUMMARY | Some s \<Rightarrow> if s = [] then NO_SUMMARY else s)
          (cs_compression_max_tokens cfg),
        ts_price_limit = 0, ts_valid_until_ns = now_ns + cs_signal_ttl_ms cfg * NS_PER_MS,
        ts_status = (if actionable then SIGNAL_PENDING else SIGNAL_ABSTAIN)\<rparr>"

definition to_trade_signal ::
  "debate_state \<Rightarrow> cognitive_settings \<Rightarrow> dec \<Rightarrow> pystr \<Rightarrow> int \<Rightarrow> exc + trade_signal" where
  "to_trade_signal st cfg quantity sid now_ns =
     (case ds_judge st of
        None \<Rightarrow> build_signal st default_abstain cfg False (Fin 0) sid now_ns
      | Some v \<Rightarrow> build_signal st v cfg (abstain_reasons st v cfg quantity = []) quantity sid now_ns)"

definition abstain_signal :: "debate_state \<Rightarrow> cognitive_settings \<Rightarrow> pystr \<Rightarrow> pystr \<Rightarrow> int \<Rightarrow> exc + trade_signal" where
  "abstain_signal st cfg summary sid now_ns =
     build_signal (st\<lparr>ds_summary := Some summary\<rparr>) default_abstain cfg False (Fin 0) sid now_ns"

section \<open>Untrusted text in prompts\<close>

text \<open>
  A match of \<open><\s*/?\s*untrusted_output\<close> (case ignored) at the start of the text, as the rest after it.
\<close>

definition delimiter_match :: "pystr \<Rightarrow> pystr option" where
  "delimiter_match s =
     (if s = [] \<or> hd s \<noteq> CHR ''<'' then None
      else let r = dropWhile py_isspace (tl s);
               u = dropWhile py_isspace (if r \<noteq> [] \<and> hd r = CHR ''/'' then tl r else r)
           in if py_lower (take 16 u) = ''untrusted_output'' then Some (drop 16 u) else None)"

lemma delimiter_match_shorter:
  assumes "delimiter_match s = Some r"
  shows "length r < length s"
proof -
  define u where "u = dropWhile py_isspace (tl s)"
  have u: "length u \<le> length (tl s)" by (simp only: u_def length_dropWhile_le)
  have s: "s \<noteq> []" using assms by (auto simp: delimiter_match_def)
  define x where "x = dropWhile py_isspace (if u \<noteq> [] \<and> hd u = CHR ''/'' then tl u else u)"
  have "length x \<le> length u" unfolding x_def
    by (rule le_trans [OF length_dropWhile_le]) auto
  moreover have "r = drop 16 x" using assms by (auto simp: x_def u_def delimiter_match_def Let_def split: if_splits)
  ultimately show ?thesis using u s by (cases s) auto
qed

function remove_delimiters :: "pystr \<Rightarrow> pystr" where
  "remove_delimiters s =
     (case s of [] \<Rightarrow> []
      | c # cs \<Rightarrow> (case delimiter_match s of Some r \<Rightarrow> ''[delimiter-removed'' @ remove_delimiters r
                   | None \<Rightarrow> c # remove_delimiters cs))"
  by pat_completeness auto
termination
  by (relation "measure length") (auto dest: delimiter_match_shorter)

declare remove_delimiters.simps [simp del]

definition wrap_untrusted :: "pystr \<Rightarrow> pystr \<Rightarrow> pystr" where
  "wrap_untrusted source s =
     ''<untrusted_output source='' @ [CHR 0x22] @ source @ [CHR 0x22, CHR ''>'', LF] @ remove_delimiters s
     @ [LF] @ ''</untrusted_output>''"

definition precedent_section :: "precedent_status \<Rightarrow> pystr list \<Rightarrow> pystr" where
  "precedent_section st precedents =
     (case st of
        Unavailable \<Rightarrow> [LF, LF] @ ''Precedent memory: UNAVAILABLE (lookup failed). Do NOT assume there is ''
          @ ''no precedent; treat this as missing information and lower confidence accordingly.''
      | NoneConfigured \<Rightarrow> []
      | RecallOk \<Rightarrow>
          if precedents = [] then [LF, LF] @ ''Precedent memory: lookup succeeded, no similar past debates found.''
          else [LF, LF] @ ''Similar past debates and post-trade reflections (most similar first):'' @ [LF]
            @ wrap_untrusted ''memory'' (join [LF] (map (\<lambda>p. ''- '' @ p) precedents)))"

section \<open>The debate graph\<close>

datatype node = Blue | Red | Judge | Compression

datatype llm_reply = ReplyText pystr | ReplyOther pystr

record debate_world =
  dw_start :: rat
  dw_now :: "node \<Rightarrow> rat"
  dw_reply :: "node \<Rightarrow> debate_state \<Rightarrow> int \<Rightarrow> rat \<Rightarrow> exc + llm_reply"
  dw_graph_error :: "exc option"
  dw_signal_id :: pystr
  dw_now_ns :: int

definition remaining_s :: "cognitive_settings \<Rightarrow> debate_world \<Rightarrow> node \<Rightarrow> debate_state \<Rightarrow> rat" where
  "remaining_s cfg w nd st =
     (case ds_started_at st of None \<Rightarrow> cs_overall_deadline_s cfg
      | Some t \<Rightarrow> fl (fl (t + cs_overall_deadline_s cfg) - dw_now w nd))"

definition call_client ::
  "cognitive_settings \<Rightarrow> debate_world \<Rightarrow> node \<Rightarrow> int \<Rightarrow> rat \<Rightarrow> debate_state \<Rightarrow> exc + pystr" where
  "call_client cfg w nd max_tokens budget st =
     (let timeout = min budget (remaining_s cfg w nd st) in
      if timeout \<le> 0 then Inl (Exc ''TimeoutError'' ''overall debate deadline exhausted'')
      else case dw_reply w nd st max_tokens timeout of
        Inl e \<Rightarrow> Inl e
      | Inr (ReplyOther ty) \<Rightarrow> Inl (ModelOutputError (''client returned '' @ ty @ '', expected str''))
      | Inr (ReplyText t) \<Rightarrow> Inr t)"

definition ask ::
  "(pystr \<Rightarrow> jv option) \<Rightarrow> (jv \<Rightarrow> 'a option) \<Rightarrow> cognitive_settings \<Rightarrow> debate_world \<Rightarrow> node \<Rightarrow> int \<Rightarrow> rat \<Rightarrow> debate_state
     \<Rightarrow> exc + 'a" where
  "ask reader model cfg w nd max_tokens budget st =
     rbind (call_client cfg w nd max_tokens budget st) (parse_json_model reader model)"

definition blue_unusable :: "blue_thesis option \<Rightarrow> bool" where
  "blue_unusable b \<longleftrightarrow> (case b of None \<Rightarrow> True | Some t \<Rightarrow> bt_forced t \<or> bt_side t = SIDE_UNKNOWN)"

definition blue_step :: "(pystr \<Rightarrow> jv option) \<Rightarrow> cognitive_settings \<Rightarrow> debate_world \<Rightarrow> debate_state \<Rightarrow> debate_state" where
  "blue_step reader cfg w st =
     (let started = (case ds_started_at st of Some t \<Rightarrow> t | None \<Rightarrow> dw_start w);
          timed = st\<lparr>ds_started_at := Some started\<rparr>;
          thesis = (case ask reader BlueThesis_json cfg w Blue (cs_blue_red_max_tokens cfg) (cs_blue_latency_budget_s cfg) timed of
             Inr t \<Rightarrow> t
           | Inl e \<Rightarrow> \<lparr>bt_side = SIDE_UNKNOWN,
               bt_rationale = ''blue_node failed ('' @ exc_name e @ '') - forced completion'',
               bt_key_factors = [], bt_forced = True\<rparr>)
      in st\<lparr>ds_started_at := Some started, ds_blue := Some thesis\<rparr>)"

definition red_step :: "(pystr \<Rightarrow> jv option) \<Rightarrow> cognitive_settings \<Rightarrow> debate_world \<Rightarrow> debate_state \<Rightarrow> debate_state" where
  "red_step reader cfg w st =
     (if blue_unusable (ds_blue st)
      then st\<lparr>ds_red := Some \<lparr>rc_counter_factors = [],
             rc_failure_patterns = [''red_node skipped: no usable Blue thesis''], rc_forced = True\<rparr>\<rparr>
      else st\<lparr>ds_red := Some
        (case ask reader RedChallenge_json cfg w Red (cs_blue_red_max_tokens cfg) (cs_red_latency_budget_s cfg) st of
           Inr c \<Rightarrow> c
         | Inl e \<Rightarrow> \<lparr>rc_counter_factors = [],
             rc_failure_patterns = [''red_node failed ('' @ exc_name e @ '') - forced completion''], rc_forced = True\<rparr>)\<rparr>)"

definition cap_degraded :: "judge_verdict \<Rightarrow> cognitive_settings \<Rightarrow> judge_verdict" where
  "cap_degraded v cfg =
     (let cap = fl (cs_omega_threshold cfg * (1 / 2)) in if jd_omega v \<le> cap then v else v\<lparr>jd_omega := cap\<rparr>)"

definition judge_step :: "(pystr \<Rightarrow> jv option) \<Rightarrow> cognitive_settings \<Rightarrow> debate_world \<Rightarrow> debate_state \<Rightarrow> debate_state" where
  "judge_step reader cfg w st =
     (case (ds_blue st, ds_red st) of
        (Some b, Some r) \<Rightarrow>
          if blue_unusable (Some b) then st\<lparr>ds_judge := Some default_abstain\<rparr>
          else st\<lparr>ds_judge := Some
            (case ask reader JudgeVerdict_json cfg w Judge (cs_judge_max_tokens cfg) (cs_judge_latency_budget_s cfg) st of
               Inr v \<Rightarrow> if rc_forced r then cap_degraded v cfg else v
             | Inl e \<Rightarrow> default_abstain)\<rparr>
      | _ \<Rightarrow> st\<lparr>ds_judge := Some default_abstain\<rparr>)"

text \<open>\<open>str.strip(chars)\<close>.\<close>

definition strip_chars :: "pystr \<Rightarrow> pystr \<Rightarrow> pystr" where
  "strip_chars cs s = rev (dropWhile (\<lambda>c. c \<in> set cs) (rev (dropWhile (\<lambda>c. c \<in> set cs) s)))"

definition fallback_summary :: "debate_state \<Rightarrow> cognitive_settings \<Rightarrow> pystr" where
  "fallback_summary st cfg =
     (let rationale = (case ds_blue st of Some b \<Rightarrow> py_prefix 200 (bt_rationale b) | None \<Rightarrow> []);
          counters = (case ds_red st of Some r \<Rightarrow> py_prefix 200 (join ''; '' (rc_counter_factors r)) | None \<Rightarrow> []);
          s = strip_chars '' |'' (rationale @ '' | '' @ counters)
      in truncate_summary (if s = [] then NO_SUMMARY else s) (cs_compression_max_tokens cfg))"

definition compression_step :: "cognitive_settings \<Rightarrow> debate_world \<Rightarrow> debate_state \<Rightarrow> debate_state" where
  "compression_step cfg w st =
     (if ds_blue st = None \<or> ds_red st = None \<or> ds_judge st = None
      then st\<lparr>ds_summary := Some (fallback_summary st cfg)\<rparr>
      else st\<lparr>ds_summary := Some
        (case call_client cfg w Compression (cs_compression_max_tokens cfg) (cs_compression_latency_budget_s cfg) st of
           Inr s \<Rightarrow> if py_strip s = [] then fallback_summary st cfg
             else truncate_summary (py_strip s) (cs_compression_max_tokens cfg)
         | Inl e \<Rightarrow> fallback_summary st cfg)\<rparr>)"

text \<open>The edges of the graph: Blue, Red, Judge, Compression.\<close>

definition debate_graph :: "(pystr \<Rightarrow> jv option) \<Rightarrow> cognitive_settings \<Rightarrow> debate_world \<Rightarrow> debate_state \<Rightarrow> debate_state" where
  "debate_graph reader cfg w st =
     compression_step cfg w (judge_step reader cfg w (red_step reader cfg w (blue_step reader cfg w st)))"

definition sized_quantity :: "vol_scaled_sizer \<Rightarrow> debate_state \<Rightarrow> dec" where
  "sized_quantity s st =
     (case ds_judge st of None \<Rightarrow> Fin 0
      | Some v \<Rightarrow> (case size_order s (mk_mid_price (ds_context st)) (mk_realized_vol (ds_context st)) (jd_omega v) of
            Inr q \<Rightarrow> q | Inl e \<Rightarrow> Fin 0))"

definition run_debate_with_state ::
  "(pystr \<Rightarrow> jv option) \<Rightarrow> cognitive_settings \<Rightarrow> dec \<Rightarrow> vol_scaled_sizer option \<Rightarrow> debate_world \<Rightarrow> debate_state
     \<Rightarrow> exc + trade_signal \<times> debate_state option" where
  "run_debate_with_state reader cfg quantity sizer w st =
     (case dw_graph_error w of
        Some e \<Rightarrow> rbind (abstain_signal st cfg (''debate aborted ('' @ exc_name e @ '') - abstain'')
            (dw_signal_id w) (dw_now_ns w)) (\<lambda>sig. Inr (sig, None))
      | None \<Rightarrow>
          let fin = debate_graph reader cfg w st;
              q = (case sizer of Some s \<Rightarrow> sized_quantity s fin | None \<Rightarrow> quantity)
          in rbind (to_trade_signal fin cfg q (dw_signal_id w) (dw_now_ns w)) (\<lambda>sig. Inr (sig, Some fin)))"

end
