(* ===== verification/Cognitive.thy ===== *)
theory Cognitive
  imports Debate Service
begin

text \<open>
  The runner of the cognitive core (\<open>zone-a/cognitive-core\<close>): parsing of market snapshots
  (\<open>context.py\<close>), the halt gate (\<open>halt.py\<close>), precedent recall and debate records (\<open>memory.py\<close>), the
  wire form of a signal (\<open>proto_mapping.py\<close>), the sinks towards Aegis and the execution motor
  (\<open>sinks.py\<close>) and the handling of one message and of the bounded queue (\<open>service.py\<close>).

  What leaves the process is a log of effects. A \<^emph>\<open>runner world\<close> answers, for one message, for the
  clocks, the halt file, the memory, the debate, Aegis, the motor and the record writer. Generated
  protobuf modules are parameters: the numbers of enum names, and the name of a decision number.
\<close>

section \<open>Market snapshots\<close>

abbreviation ContextError :: "pystr \<Rightarrow> exc" where
  "ContextError \<equiv> Exc ''ContextError''"

datatype raw_message = RawStr pystr | RawBytes bytes

record debate_input =
  di_context :: market_context
  di_regime :: regime_label
  di_regime_confidence :: rat
  di_ingestion_ts_ns :: int

definition NS_PER_S :: int where
  "NS_PER_S = 1000000000"

definition MAX_MESSAGE_BYTES :: int where
  "MAX_MESSAGE_BYTES = 64 * 1024"

definition FUTURE_TOLERANCE_NS :: int where
  "FUTURE_TOLERANCE_NS = NS_PER_S"

text \<open>\<open>bytes.decode("utf-8")\<close> into the characters of the model.\<close>

fun utf8_decode :: "bytes \<Rightarrow> pystr option" where
  "utf8_decode [] = Some []"
| "utf8_decode (c # cs) =
     (let n = of_char c :: int in
      if n < 128 then map_option ((#) c) (utf8_decode cs)
      else case cs of [] \<Rightarrow> None
        | d # ds \<Rightarrow>
            let k = of_char d :: int in
            if (n = 194 \<or> n = 195) \<and> 128 \<le> k \<and> k < 192
            then map_option ((#) (char_of ((n - 192) * 64 + (k - 128)))) (utf8_decode ds) else None)"

definition decode_message :: "raw_message \<Rightarrow> exc + (pystr \<times> jv) list" where
  "decode_message raw =
     rbind (case raw of
          RawBytes b \<Rightarrow> if MAX_MESSAGE_BYTES < int (length b) then Inl (ContextError ''message too large'')
            else (case utf8_decode b of None \<Rightarrow> Inl (ContextError ''message is not valid UTF-8'') | Some s \<Rightarrow> Inr s)
        | RawStr s \<Rightarrow> if MAX_MESSAGE_BYTES < int (length s) then Inl (ContextError ''message is not a bounded string'')
            else Inr s) (\<lambda>s.
     case loads_text s of
       Some (JvObj kvs) \<Rightarrow> Inr kvs
     | Some _ \<Rightarrow> Inl (ContextError ''message is not a JSON object'')
     | None \<Rightarrow> Inl (ContextError ''message is not valid JSON''))"

definition number_field :: "(pystr \<times> jv) list \<Rightarrow> pystr \<Rightarrow> exc + rat" where
  "number_field kvs k =
     (case jget kvs k of
        JvInt i \<Rightarrow> (case to_float (of_int i) of Fin x \<Rightarrow> Inr x
            | _ \<Rightarrow> Inl (Exc ''OverflowError'' ''int too large to convert to float''))
      | JvDec x \<Rightarrow> Inr x
      | JFloat \<Rightarrow> Inl (ContextError (k @ '' is not finite''))
      | _ \<Rightarrow> Inl (ContextError (k @ '' missing or not a number'')))"

definition flag_field :: "(pystr \<times> jv) list \<Rightarrow> pystr \<Rightarrow> exc + bool" where
  "flag_field kvs k =
     (case jget kvs k of JvBool b \<Rightarrow> Inr b | _ \<Rightarrow> Inl (ContextError (k @ '' missing or not a boolean'')))"

definition regime_of_value :: "jv \<Rightarrow> regime_label option" where
  "regime_of_value v = (case v of
     JvStr s \<Rightarrow> List.find (\<lambda>r. regime_value r = s)
       [REGIME_UNKNOWN, TRENDING_BULL, TRENDING_BEAR, HIGH_VOL_CHOP, LOW_VOL_CHOP, CRISIS]
   | _ \<Rightarrow> None)"

definition parse_snapshot :: "raw_message \<Rightarrow> int \<Rightarrow> rat \<Rightarrow> exc + debate_input" where
  "parse_snapshot raw now_ns max_age_s =
     rbind (decode_message raw) (\<lambda>kvs.
     rbind (flag_field kvs ''is_stale'') (\<lambda>stale.
     rbind (guard (\<not> stale) (ContextError ''snapshot flagged stale by sensory-array'')) (\<lambda>_.
     rbind (flag_field kvs ''warmup'') (\<lambda>warmup.
     rbind (guard (\<not> warmup) (ContextError ''snapshot is still in warm-up'')) (\<lambda>_.
     rbind (case jget kvs ''ingestion_ts_ns'' of
              JvInt i \<Rightarrow> if 0 < i then Inr i else Inl (ContextError ''ingestion_ts_ns missing or invalid'')
            | _ \<Rightarrow> Inl (ContextError ''ingestion_ts_ns missing or invalid'')) (\<lambda>ingestion.
     rbind (guard (\<not> fl (max_age_s * of_int NS_PER_S) < of_int (now_ns - ingestion)) (ContextError ''snapshot is too old'')) (\<lambda>_.
     rbind (guard (\<not> now_ns - ingestion < - FUTURE_TOLERANCE_NS) (ContextError ''snapshot timestamp is in the future'')) (\<lambda>_.
     rbind (case regime_of_value (jget kvs ''regime_label'') of
              None \<Rightarrow> Inl (ContextError ''unknown regime_label'') | Some r \<Rightarrow> Inr r) (\<lambda>regime.
     rbind (guard (regime \<noteq> REGIME_UNKNOWN) (ContextError ''regime is REGIME_UNKNOWN'')) (\<lambda>_.
     rbind (number_field kvs ''regime_confidence'') (\<lambda>conf.
     rbind (guard (unit_float conf) (ContextError ''regime_confidence outside [0, 1]'')) (\<lambda>_.
     rbind (number_field kvs ''mid_price'') (\<lambda>mid.
     rbind (number_field kvs ''z_score'') (\<lambda>z.
     rbind (number_field kvs ''mad_score'') (\<lambda>mad.
     rbind (number_field kvs ''order_flow_imbalance'') (\<lambda>ofi.
     rbind (number_field kvs ''realized_volatility'') (\<lambda>vol.
     rbind (number_field kvs ''adv_30d'') (\<lambda>adv.
     rbind (case jget kvs ''symbol'' of
              JvStr s \<Rightarrow> MarketContext_new \<lparr>mk_symbol = s, mk_mid_price = mid, mk_z_score = z, mk_mad_score = mad,
                 mk_ofi = ofi, mk_realized_vol = vol, mk_adv_30d = adv\<rparr>
            | _ \<Rightarrow> Inl ValidationError) (\<lambda>m.
     Inr \<lparr>di_context = m, di_regime = regime, di_regime_confidence = conf, di_ingestion_ts_ns = ingestion\<rparr>)))))))))))))))))))"

text \<open>The validation error of the market context is turned into a \<open>ContextError\<close>.\<close>

definition parse_snapshot_checked :: "raw_message \<Rightarrow> int \<Rightarrow> rat \<Rightarrow> exc + debate_input" where
  "parse_snapshot_checked raw now_ns max_age_s =
     (case parse_snapshot raw now_ns max_age_s of
        Inl e \<Rightarrow> Inl (if e = ValidationError then ContextError ''market context invalid'' else e) | Inr d \<Rightarrow> Inr d)"

section \<open>The halt gate\<close>

record halt_gate =
  hg_env :: env
  hg_file :: "pystr option"

record halt_status =
  ht_halted :: bool
  ht_reason :: pystr

definition RUNNING :: halt_status where
  "RUNNING = \<lparr>ht_halted = False, ht_reason = []\<rparr>"

definition HaltGate_new :: "env \<Rightarrow> halt_gate" where
  "HaltGate_new env =
     (let raw = env_get env ''COGNITIVE_HALT_FILE'' []
      in \<lparr>hg_env = env, hg_file = (if py_strip raw = [] then None else Some raw)\<rparr>)"

definition check_env :: "halt_gate \<Rightarrow> halt_status option" where
  "check_env g =
     (case hg_env g ''COGNITIVE_HALT'' of None \<Rightarrow> None
      | Some raw \<Rightarrow>
          let v = py_lower (py_strip raw) in
          if v \<in> {[], ''0'', ''false'', ''no'', ''off''} then None
          else if v \<in> {''1'', ''true'', ''yes'', ''on''} then Some \<lparr>ht_halted = True, ht_reason = ''COGNITIVE_HALT is set''\<rparr>
          else Some \<lparr>ht_halted = True, ht_reason = ''COGNITIVE_HALT is not a boolean (fail closed)''\<rparr>)"

text \<open>\<open>present\<close> is what asking the file system gives: an \<open>OSError\<close>, or whether the file exists.\<close>

definition check_file :: "halt_gate \<Rightarrow> (exc + bool) \<Rightarrow> halt_status option" where
  "check_file g present =
     (case hg_file g of None \<Rightarrow> None
      | Some f \<Rightarrow>
          (case present of
             Inl e \<Rightarrow> Some \<lparr>ht_halted = True, ht_reason = ''cannot inspect halt file ('' @ exc_name e @ '')''\<rparr>
           | Inr True \<Rightarrow> Some \<lparr>ht_halted = True, ht_reason = ''halt file '' @ f @ '' exists''\<rparr>
           | Inr False \<Rightarrow> None))"

definition halt_check :: "halt_gate \<Rightarrow> (exc + bool) \<Rightarrow> halt_status" where
  "halt_check g present =
     (case check_env g of Some st \<Rightarrow> st
      | None \<Rightarrow> (case check_file g present of Some st \<Rightarrow> st | None \<Rightarrow> RUNNING))"

section \<open>Memory\<close>

record precedent =
  pr_text :: pystr
  pr_outcome :: pystr
  pr_regime :: pystr
  pr_symbol :: pystr
  pr_distance :: rat

record recall_result =
  rr_status :: precedent_status
  rr_precedents :: "pystr list"

definition MAX_PRECEDENTS :: int where
  "MAX_PRECEDENTS = 5"

definition MAX_PRECEDENT_CHARS :: int where
  "MAX_PRECEDENT_CHARS = 400"

definition build_recall_query :: "market_context \<Rightarrow> regime_label \<Rightarrow> pystr" where
  "build_recall_query m regime =
     (let flow = (if fl (2 / 10) < mk_ofi m then ''buy_pressure'' else if mk_ofi m < - fl (2 / 10) then ''sell_pressure''
                  else ''flat_flow'');
          stretch = (if 3 / 2 < mk_z_score m then ''stretched_up'' else if mk_z_score m < - (3 / 2) then ''stretched_down''
                  else ''in_range'')
      in mk_symbol m @ '' '' @ regime_value regime @ '' '' @ flow @ '' '' @ stretch)"

text \<open>\<open>str.split()\<close> and \<open>format(x, ".2f")\<close>.\<close>

function py_split :: "pystr \<Rightarrow> pystr list" where
  "py_split s =
     (let t = dropWhile py_isspace s in
      if t = [] then [] else takeWhile (\<lambda>c. \<not> py_isspace c) t # py_split (dropWhile (\<lambda>c. \<not> py_isspace c) t))"
  by pat_completeness auto
termination
proof (relation "measure length")
  fix s t :: pystr
  assume t: "t = dropWhile py_isspace s" "t \<noteq> []"
  then have "\<not> py_isspace (hd t)" using hd_dropWhile by blast
  then have "length (dropWhile (\<lambda>c. \<not> py_isspace c) t) < length t"
    using t(2) length_dropWhile_le [of "\<lambda>c. \<not> py_isspace c" "tl t"] by (cases t) (auto simp: less_Suc_eq_le)
  moreover have "length t \<le> length s" unfolding t(1) by (rule length_dropWhile_le)
  ultimately show "(dropWhile (\<lambda>c. \<not> py_isspace c) t, s) \<in> measure length" by simp
qed simp

declare py_split.simps [simp del]

definition format_2f :: "rat \<Rightarrow> pystr" where
  "format_2f x =
     (let c = round_half_even (\<bar>x\<bar> * 100); ds = int_str (c mod 100)
      in (if x < 0 then ''-'' else []) @ int_str (c div 100) @ ''.'' @ (if length ds < 2 then ''0'' else []) @ ds)"

definition one_line :: "precedent \<Rightarrow> pystr" where
  "one_line p =
     py_prefix MAX_PRECEDENT_CHARS (''['' @ pr_outcome p @ ''] regime='' @ pr_regime p @ '' symbol='' @ pr_symbol p
       @ '' distance='' @ format_2f (pr_distance p) @ '': '' @ join '' '' (py_split (pr_text p)))"

text \<open>\<open>found\<close> is the awaited answer of the provider; without a provider it is not asked.\<close>

definition recall_precedents :: "(exc + precedent list) option \<Rightarrow> recall_result" where
  "recall_precedents found =
     (case found of
        None \<Rightarrow> \<lparr>rr_status = NoneConfigured, rr_precedents = []\<rparr>
      | Some (Inl e) \<Rightarrow> \<lparr>rr_status = Unavailable, rr_precedents = []\<rparr>
      | Some (Inr ps) \<Rightarrow> \<lparr>rr_status = RecallOk, rr_precedents = map one_line (py_prefix MAX_PRECEDENTS ps)\<rparr>)"

definition apply_recall :: "debate_state \<Rightarrow> recall_result \<Rightarrow> debate_state" where
  "apply_recall st r = st\<lparr>ds_precedents := rr_precedents r, ds_precedents_status := rr_status r\<rparr>"

definition is_recordable :: "debate_state option \<Rightarrow> bool" where
  "is_recordable st \<longleftrightarrow>
     (case st of None \<Rightarrow> False
      | Some s \<Rightarrow>
          (case (ds_blue s, ds_red s, ds_judge s) of
             (Some b, Some r, Some v) \<Rightarrow> \<not> jd_defaulted v \<and> \<not> (bt_forced b \<or> rc_forced r)
           | _ \<Rightarrow> False))"

record debate_record =
  dr_signal_id :: pystr
  dr_symbol :: pystr
  dr_regime :: pystr
  dr_ts_ms :: int
  dr_outcome :: pystr
  dr_text :: pystr

definition debate_record_args :: "trade_signal \<Rightarrow> debate_record" where
  "debate_record_args t =
     \<lparr>dr_signal_id = ts_signal_id t, dr_symbol = ts_symbol t, dr_regime = regime_value (ts_regime t),
      dr_ts_ms = ts_created_at_ns t div NS_PER_MS,
      dr_outcome = (if ts_status t = SIGNAL_ABSTAIN then ''abstain'' else ''pending''),
      dr_text = signal_side_value (ts_side t) @ '' omega='' @ format_2f (ts_omega t) @ '': '' @ ts_debate_summary t\<rparr>"

section \<open>The wire form of a signal\<close>

datatype fval = FStr pystr | FInt int | FNum dec

record signal_proto =
  sp_scalars :: "(pystr \<times> fval) list"
  sp_nanos :: "(pystr \<times> int) list"
  sp_strategy_id :: pystr
  sp_enums :: "(pystr \<times> int) list"

definition scalar_fields :: "trade_signal \<Rightarrow> (pystr \<times> fval) list" where
  "scalar_fields t =
     [(''signal_id'', FStr (ts_signal_id t)), (''symbol'', FStr (ts_symbol t)), (''created_at_ns'', FInt (ts_created_at_ns t)),
      (''quantity'', FNum (ts_quantity t)), (''omega'', FNum (Fin (ts_omega t))),
      (''expected_value'', FNum (Fin (ts_expected_value t))), (''p_success'', FNum (Fin (ts_p_success t))),
      (''p_failure'', FNum (Fin (ts_p_failure t))), (''reward_estimate'', FNum (Fin (ts_reward_estimate t))),
      (''risk_estimate'', FNum (Fin (ts_risk_estimate t))), (''estimated_spread_cost'', FNum (Fin (ts_spread_cost t))),
      (''estimated_market_impact'', FNum (Fin (ts_market_impact t))), (''estimated_venue_fees'', FNum (Fin (ts_venue_fees t))),
      (''estimated_total_cost'', FNum (Fin (ts_total_cost t))), (''regime_confidence'', FNum (Fin (ts_regime_confidence t))),
      (''debate_summary'', FStr (ts_debate_summary t)), (''price_limit'', FNum (Fin (ts_price_limit t))),
      (''valid_until_ns'', FInt (ts_valid_until_ns t))]"

definition INT64_MAX :: int where
  "INT64_MAX = 2 ^ 63 - 1"

definition signal_to_nanos :: "dec \<Rightarrow> exc + int" where
  "signal_to_nanos v =
     (case v of
        Fin x \<Rightarrow> let n = round_half_even (dmul (repr_decimal x) (10 ^ 9))
          in rbind (guard (0 \<le> n \<and> n \<le> INT64_MAX) (Exc ''ValueError'' ''does not fit a non-negative int64 in 1e-9 units''))
               (\<lambda>_. Inr n)
      | Infinity s \<Rightarrow> Inl (Exc ''OverflowError'' ''cannot convert Infinity to integer'')
      | NaN \<Rightarrow> Inl (Exc ''ValueError'' ''cannot convert NaN to integer''))"

definition nanos_fields :: "trade_signal \<Rightarrow> (pystr \<times> dec) list" where
  "nanos_fields t =
     [(''quantity_nanos'', ts_quantity t), (''price_limit_nanos'', Fin (ts_price_limit t)),
      (''estimated_total_cost_nanos'', Fin (ts_total_cost t)), (''estimated_spread_cost_nanos'', Fin (ts_spread_cost t)),
      (''estimated_market_impact_nanos'', Fin (ts_market_impact t)), (''estimated_venue_fees_nanos'', Fin (ts_venue_fees t))]"

type_synonym enum_table = "pystr \<Rightarrow> (pystr \<times> int) list"

definition enum_number :: "enum_table \<Rightarrow> pystr \<Rightarrow> pystr \<Rightarrow> exc + int" where
  "enum_number tab fld name =
     (case map_of (tab fld) name of None \<Rightarrow> Inl (Exc ''ValueError'' (fld @ '': not defined in the proto enum''))
      | Some n \<Rightarrow> Inr n)"

definition to_proto :: "enum_table \<Rightarrow> trade_signal \<Rightarrow> pystr \<Rightarrow> exc + signal_proto" where
  "to_proto tab t strategy_id =
     rbind (guard (ts_created_at_ns t \<le> INT64_MAX \<and> ts_valid_until_ns t \<le> INT64_MAX) (Exc ''ValueError'' ''Value out of range'')) (\<lambda>_.
     rbind (rmap (\<lambda>(k, v). rbind (signal_to_nanos v) (\<lambda>n. Inr (k, n))) (nanos_fields t)) (\<lambda>ns.
     rbind (rmap (\<lambda>(k, name). rbind (enum_number tab k name) (\<lambda>n. Inr (k, n)))
        [(''side'', signal_side_value (ts_side t)), (''status'', signal_status_value (ts_status t)),
         (''regime'', regime_value (ts_regime t))]) (\<lambda>es.
     Inr \<lparr>sp_scalars = scalar_fields t, sp_nanos = ns, sp_strategy_id = strategy_id, sp_enums = es\<rparr>)))"

section \<open>Sinks\<close>

abbreviation SinkError :: "pystr \<Rightarrow> exc" where
  "SinkError \<equiv> Exc ''SinkError''"

record sink_receipt =
  sr_accepted :: bool
  sr_detail :: pystr

record decision_context =
  dc_symbol :: pystr
  dc_ingestion_ts_ns :: int
  dc_mid_price :: rat
  dc_z_score :: rat
  dc_mad_score :: rat
  dc_order_flow_imbalance :: rat
  dc_realized_volatility :: rat
  dc_adv_30d :: rat
  dc_regime :: pystr
  dc_blue_node_thesis :: pystr
  dc_red_node_challenge :: pystr
  dc_judge_synthesis :: pystr
  dc_model_versions :: "(pystr \<times> pystr) list"

text \<open>The request \<open>build_execute_request\<close> makes: the decision, the snapshot and texts, and the signal as sent to Aegis.\<close>

record execute_request =
  er_decision :: decision_msg
  er_signal :: signal_proto
  er_context :: decision_context
  er_regime :: int

definition build_execute_request ::
  "enum_table \<Rightarrow> decision_msg \<Rightarrow> signal_proto \<Rightarrow> decision_context \<Rightarrow> exc + execute_request" where
  "build_execute_request tab d m cx =
     rbind (enum_number tab ''regime'' (dc_regime cx)) (\<lambda>r.
     Inr \<lparr>er_decision = d, er_signal = m, er_context = cx, er_regime = r\<rparr>)"

datatype signal_effect = SubmitSignal signal_proto | ExecuteWithContext execute_request | ExecutePlain decision_msg
  | WriteDebate debate_record

record sink_world =
  kw_aegis :: "signal_proto \<Rightarrow> exc + decision_msg"
  kw_motor :: "signal_effect \<Rightarrow> exc + execute_ack"

definition decision_status_name :: "(int \<Rightarrow> pystr option) \<Rightarrow> decision_msg \<Rightarrow> pystr" where
  "decision_status_name names d = (case names (dm_decision d) of None \<Rightarrow> [] | Some n \<Rightarrow> n)"

definition describe_decision :: "(int \<Rightarrow> pystr option) \<Rightarrow> decision_msg \<Rightarrow> pystr" where
  "describe_decision names d = (case names (dm_decision d) of None \<Rightarrow> ''decision unreadable'' | Some n \<Rightarrow> n)"

definition decision_is_approved_with_attestation :: "(int \<Rightarrow> pystr option) \<Rightarrow> decision_msg \<Rightarrow> bool" where
  "decision_is_approved_with_attestation names d \<longleftrightarrow>
     decision_status_name names d = ''DECISION_APPROVED'' \<and> dm_attestation d \<noteq> None"

definition wrap_sink_error :: "pystr \<Rightarrow> exc \<Rightarrow> exc" where
  "wrap_sink_error what e = SinkError (what @ exc_name e @ '': '' @ exc_str e)"

definition submit_to_aegis ::
  "enum_table \<Rightarrow> pystr \<Rightarrow> sink_world \<Rightarrow> trade_signal \<Rightarrow> (exc + signal_proto \<times> decision_msg) \<times> signal_effect list" where
  "submit_to_aegis tab strategy kw t =
     (case to_proto tab t strategy of
        Inl e \<Rightarrow> (Inl (wrap_sink_error ''SubmitSignal failed: '' e), [])
      | Inr m \<Rightarrow>
          (case kw_aegis kw m of
             Inl e \<Rightarrow> (Inl (wrap_sink_error ''SubmitSignal failed: '' e), [SubmitSignal m])
           | Inr d \<Rightarrow> (Inr (m, d), [SubmitSignal m])))"

definition AegisGrpcSink_send ::
  "enum_table \<Rightarrow> (int \<Rightarrow> pystr option) \<Rightarrow> pystr \<Rightarrow> sink_world \<Rightarrow> trade_signal \<Rightarrow> (exc + sink_receipt) \<times> signal_effect list" where
  "AegisGrpcSink_send tab names strategy kw t =
     (case submit_to_aegis tab strategy kw t of
        (Inl e, fx) \<Rightarrow> (Inl e, fx)
      | (Inr (m, d), fx) \<Rightarrow> (Inr \<lparr>sr_accepted = True, sr_detail = describe_decision names d\<rparr>, fx))"

definition MotorGrpcSink_send ::
  "enum_table \<Rightarrow> bool \<Rightarrow> sink_world \<Rightarrow> decision_msg \<Rightarrow> signal_proto \<Rightarrow> decision_context option
     \<Rightarrow> (exc + sink_receipt) \<times> signal_effect list" where
  "MotorGrpcSink_send tab has_builder kw d m cx =
     (case (case cx of
              Some c \<Rightarrow> if has_builder
                then (case build_execute_request tab d m c of Inl e \<Rightarrow> Inl e | Inr r \<Rightarrow> Inr (ExecuteWithContext r))
                else Inr (ExecutePlain d)
            | None \<Rightarrow> Inr (ExecutePlain d)) of
        Inl e \<Rightarrow> (Inl (wrap_sink_error ''Execute failed: '' e), [])
      | Inr call \<Rightarrow>
          (case kw_motor kw call of
             Inl e \<Rightarrow> (Inl (wrap_sink_error ''Execute failed: '' e), [call])
           | Inr ack \<Rightarrow> (Inr \<lparr>sr_accepted = True, sr_detail = ack_detail ack\<rparr>, [call])))"

definition AegisRelaySink_send ::
  "enum_table \<Rightarrow> (int \<Rightarrow> pystr option) \<Rightarrow> pystr \<Rightarrow> bool \<Rightarrow> sink_world \<Rightarrow> trade_signal \<Rightarrow> decision_context option
     \<Rightarrow> (exc + sink_receipt) \<times> signal_effect list" where
  "AegisRelaySink_send tab names strategy has_builder kw t cx =
     (case submit_to_aegis tab strategy kw t of
        (Inl e, fx) \<Rightarrow> (Inl e, fx)
      | (Inr (m, d), fx) \<Rightarrow>
          let receipt = \<lparr>sr_accepted = True, sr_detail = describe_decision names d\<rparr> in
          if \<not> decision_is_approved_with_attestation names d then (Inr receipt, fx)
          else (case MotorGrpcSink_send tab has_builder kw d m cx of
                  (Inl e, fx') \<Rightarrow> (Inl (SinkError (''motor relay failed after aegis approval: '' @ exc_str e)), fx @ fx')
                | (Inr _, fx') \<Rightarrow> (Inr receipt, fx @ fx')))"

datatype signal_sink = LogSink | AegisGrpcSink pystr | AegisRelaySink pystr bool

definition sink_send ::
  "enum_table \<Rightarrow> (int \<Rightarrow> pystr option) \<Rightarrow> signal_sink \<Rightarrow> sink_world \<Rightarrow> trade_signal \<Rightarrow> decision_context option
     \<Rightarrow> (exc + sink_receipt) \<times> signal_effect list" where
  "sink_send tab names sink kw t cx =
     (case sink of
        LogSink \<Rightarrow> (Inr \<lparr>sr_accepted = False, sr_detail = ''dry-run: not sent''\<rparr>, [])
      | AegisGrpcSink strategy \<Rightarrow> AegisGrpcSink_send tab names strategy kw t
      | AegisRelaySink strategy has_builder \<Rightarrow> AegisRelaySink_send tab names strategy has_builder kw t cx)"

section \<open>The runner\<close>

record runner_settings =
  rn_order_quantity :: dec
  rn_min_debate_interval_s :: rat
  rn_max_context_age_s :: rat
  rn_symbols :: "pystr list"
  rn_emit_abstain :: bool
  rn_memory_required :: bool
  rn_sizer :: "vol_scaled_sizer option"

record runner =
  ru_settings :: runner_settings
  ru_cognitive :: cognitive_settings
  ru_reader :: "pystr \<Rightarrow> jv option"
  ru_sink :: signal_sink
  ru_halt :: halt_gate
  ru_enums :: enum_table
  ru_names :: "int \<Rightarrow> pystr option"
  ru_has_writer :: bool

record runner_state =
  rs_last_debate :: "(pystr \<times> rat) list"
  rs_was_halted :: bool
  rs_counters :: "(pystr \<times> int) list"
  rs_effects :: "signal_effect list"

record runner_world =
  rw_present_before :: "exc + bool"
  rw_present_after :: "exc + bool"
  rw_clock_ns :: int
  rw_monotonic :: rat
  rw_recall :: "(exc + precedent list) option"
  rw_debate :: debate_world
  rw_sink :: sink_world

datatype cycle_outcome = HALTED | DROPPED_INVALID | SKIPPED_SYMBOL | SKIPPED_COOLDOWN | SKIPPED_MEMORY
  | ABSTAINED | EMITTED | SINK_FAILED | CYCLE_ERROR

fun outcome_value :: "cycle_outcome \<Rightarrow> pystr" where
  "outcome_value HALTED = ''halted''"
| "outcome_value DROPPED_INVALID = ''dropped_invalid''"
| "outcome_value SKIPPED_SYMBOL = ''skipped_symbol''"
| "outcome_value SKIPPED_COOLDOWN = ''skipped_cooldown''"
| "outcome_value SKIPPED_MEMORY = ''skipped_memory_unavailable''"
| "outcome_value ABSTAINED = ''abstained''"
| "outcome_value EMITTED = ''emitted''"
| "outcome_value SINK_FAILED = ''sink_failed''"
| "outcome_value CYCLE_ERROR = ''error''"

definition MAX_TRACKED_SYMBOLS :: int where
  "MAX_TRACKED_SYMBOLS = 10000"

definition QUEUE_SIZE :: int where
  "QUEUE_SIZE = 64"

definition add_effects :: "signal_effect list \<Rightarrow> runner_state \<Rightarrow> runner_state" where
  "add_effects fx s = s\<lparr>rs_effects := rs_effects s @ fx\<rparr>"

definition count_outcome :: "pystr \<Rightarrow> runner_state \<Rightarrow> runner_state" where
  "count_outcome name s =
     s\<lparr>rs_counters := AList.update name ((case map_of (rs_counters s) name of None \<Rightarrow> 0 | Some n \<Rightarrow> n) + 1) (rs_counters s)\<rparr>"

definition runner_halted :: "runner \<Rightarrow> (exc + bool) \<Rightarrow> runner_state \<Rightarrow> bool \<times> runner_state" where
  "runner_halted ru present s =
     (let st = halt_check (ru_halt ru) present in (ht_halted st, s\<lparr>rs_was_halted := ht_halted st\<rparr>))"

definition cooldown_elapsed :: "runner \<Rightarrow> rat \<Rightarrow> pystr \<Rightarrow> runner_state \<Rightarrow> bool \<times> runner_state" where
  "cooldown_elapsed ru now symbol s =
     (if (\<exists>last \<in> set_option (map_of (rs_last_debate s) symbol).
            fl (now - last) < rn_min_debate_interval_s (ru_settings ru)) then (False, s)
      else let kept = (if MAX_TRACKED_SYMBOLS \<le> int (length (rs_last_debate s)) then [] else rs_last_debate s)
           in (True, s\<lparr>rs_last_debate := AList.update symbol now kept\<rparr>))"

definition initial_state :: "runner \<Rightarrow> debate_input \<Rightarrow> (exc + precedent list) option \<Rightarrow> debate_state option" where
  "initial_state ru di found =
     (let r = recall_precedents found in
      if rr_status r = Unavailable \<and> rn_memory_required (ru_settings ru) then None
      else Some (apply_recall
        \<lparr>ds_context = di_context di, ds_regime = di_regime di, ds_regime_confidence = di_regime_confidence di,
         ds_precedents = [], ds_precedents_status = NoneConfigured, ds_started_at = None, ds_blue = None, ds_red = None,
         ds_judge = None, ds_summary = None\<rparr> r))"

definition decision_context_of :: "debate_input \<Rightarrow> debate_state option \<Rightarrow> cognitive_settings \<Rightarrow> decision_context" where
  "decision_context_of di final cfg =
     (let m = di_context di;
          blue = (case Option.bind final ds_blue of None \<Rightarrow> []
            | Some b \<Rightarrow> signal_side_value (bt_side b) @ '': '' @ bt_rationale b
                @ (if bt_key_factors b = [] then [] else '' | factors: '' @ join ''; '' (bt_key_factors b))
                @ (if bt_forced b then '' | FORCED'' else []));
          red = (case Option.bind final ds_red of None \<Rightarrow> []
            | Some r \<Rightarrow> ''counter: '' @ join ''; '' (rc_counter_factors r) @ '' | failure patterns: ''
                @ join ''; '' (rc_failure_patterns r) @ (if rc_forced r then '' | FORCED'' else []))
      in \<lparr>dc_symbol = mk_symbol m, dc_ingestion_ts_ns = di_ingestion_ts_ns di, dc_mid_price = mk_mid_price m,
          dc_z_score = mk_z_score m, dc_mad_score = mk_mad_score m, dc_order_flow_imbalance = mk_ofi m,
          dc_realized_volatility = mk_realized_vol m, dc_adv_30d = mk_adv_30d m, dc_regime = regime_value (di_regime di),
          dc_blue_node_thesis = blue, dc_red_node_challenge = red,
          dc_judge_synthesis = (case Option.bind final ds_summary of None \<Rightarrow> [] | Some s \<Rightarrow> s),
          dc_model_versions = [(''cognitive-core/blue'', cs_blue_model cfg), (''cognitive-core/red'', cs_red_model cfg),
            (''cognitive-core/judge'', cs_judge_model cfg), (''cognitive-core/compression'', cs_compression_model cfg)]\<rparr>)"

text \<open>A record that cannot be written is only logged, so the writer's answer does not matter here.\<close>

definition deliver_signal ::
  "runner \<Rightarrow> sink_world \<Rightarrow> trade_signal \<Rightarrow> bool \<Rightarrow> decision_context \<Rightarrow> runner_state \<Rightarrow> (exc + cycle_outcome) \<times> runner_state" where
  "deliver_signal ru kw t recordable cx s =
     (let actionable = (ts_status t \<noteq> SIGNAL_ABSTAIN);
          done_as = (if actionable then EMITTED else ABSTAINED);
          record_fx = (if recordable \<and> ru_has_writer ru then [WriteDebate (debate_record_args t)] else [])
      in if actionable \<or> rn_emit_abstain (ru_settings ru)
         then (case sink_send (ru_enums ru) (ru_names ru) (ru_sink ru) kw t (Some cx) of
                 (Inl e, fx) \<Rightarrow> (if exc_name e = ''SinkError'' then Inr SINK_FAILED else Inl e, add_effects fx s)
               | (Inr r, fx) \<Rightarrow> (Inr done_as, add_effects (fx @ record_fx) s))
         else (Inr done_as, add_effects record_fx s))"

definition handle_snapshot ::
  "runner \<Rightarrow> runner_world \<Rightarrow> raw_message \<Rightarrow> runner_state \<Rightarrow> (exc + cycle_outcome) \<times> runner_state" where
  "handle_snapshot ru w raw s =
     (case runner_halted ru (rw_present_before w) s of (halted, s1) \<Rightarrow>
      if halted then (Inr HALTED, s1)
      else case parse_snapshot_checked raw (rw_clock_ns w) (rn_max_context_age_s (ru_settings ru)) of
        Inl e \<Rightarrow> (if exc_name e = ''ContextError'' then Inr DROPPED_INVALID else Inl e, s1)
      | Inr di \<Rightarrow>
         let symbol = mk_symbol (di_context di); allowed = rn_symbols (ru_settings ru) in
         if allowed \<noteq> [] \<and> symbol \<notin> set allowed then (Inr SKIPPED_SYMBOL, s1)
         else case cooldown_elapsed ru (rw_monotonic w) symbol s1 of
           (False, s2) \<Rightarrow> (Inr SKIPPED_COOLDOWN, s2)
         | (True, s2) \<Rightarrow>
            (case initial_state ru di (rw_recall w) of
               None \<Rightarrow> (Inr SKIPPED_MEMORY, s2)
             | Some st \<Rightarrow>
                (case run_debate_with_state (ru_reader ru) (ru_cognitive ru) (rn_order_quantity (ru_settings ru))
                        (rn_sizer (ru_settings ru)) (rw_debate w) st of
                   Inl e \<Rightarrow> (Inl e, s2)
                 | Inr (t, final) \<Rightarrow>
                    (case runner_halted ru (rw_present_after w) s2 of (halted2, s3) \<Rightarrow>
                     if halted2 then (Inr HALTED, s3)
                     else deliver_signal ru (rw_sink w) t (is_recordable final)
                            (decision_context_of di final (ru_cognitive ru)) s3))))"

definition handle_message :: "runner \<Rightarrow> runner_world \<Rightarrow> raw_message \<Rightarrow> runner_state \<Rightarrow> cycle_outcome \<times> runner_state" where
  "handle_message ru w raw s =
     (case handle_snapshot ru w raw s of (r, s') \<Rightarrow>
      let out = (case r of Inl e \<Rightarrow> CYCLE_ERROR | Inr c \<Rightarrow> c) in (out, count_outcome (outcome_value out) s'))"

text \<open>
  The queue between the source and the loop: the pump drops the oldest message when it is full, the
  loop takes the oldest one and handles it.
\<close>

record run_state =
  ro_queue :: "raw_message list"
  ro_runner :: runner_state

definition pump :: "raw_message \<Rightarrow> run_state \<Rightarrow> run_state" where
  "pump raw r =
     (if QUEUE_SIZE \<le> int (length (ro_queue r))
      then r\<lparr>ro_queue := tl (ro_queue r) @ [raw], ro_runner := count_outcome ''queue_dropped'' (ro_runner r)\<rparr>
      else r\<lparr>ro_queue := ro_queue r @ [raw]\<rparr>)"

definition run_once :: "runner \<Rightarrow> runner_world \<Rightarrow> run_state \<Rightarrow> run_state" where
  "run_once ru w r =
     (case ro_queue r of [] \<Rightarrow> r
      | raw # rest \<Rightarrow> r\<lparr>ro_queue := rest, ro_runner := snd (handle_message ru w raw (ro_runner r))\<rparr>)"

datatype run_step = Arrive raw_message | Handle runner_world

fun run_steps :: "runner \<Rightarrow> run_step list \<Rightarrow> run_state \<Rightarrow> run_state" where
  "run_steps ru [] r = r"
| "run_steps ru (Arrive raw # steps) r = run_steps ru steps (pump raw r)"
| "run_steps ru (Handle w # steps) r = run_steps ru steps (run_once ru w r)"

end
