(* ===== verification/Debate_Properties.thy ===== *)
theory Debate_Properties
  imports Debate
begin

text \<open>
  Results about the debate: it always ends in a well-formed signal, an actionable one is earned by
  three undegraded model answers, order sizes stay within the risk budget and the notional cap, and
  text quoted into a prompt cannot close its own block.
\<close>

section \<open>A debate ends in a signal\<close>

definition state_ok :: "debate_state \<Rightarrow> bool" where
  "state_ok st \<longleftrightarrow> MarketContext_new (ds_context st) = Inr (ds_context st) \<and> unit_float (ds_regime_confidence st)"

lemma state_okD: "state_ok st \<Longrightarrow> mk_symbol (ds_context st) \<noteq> [] \<and> int (length (mk_symbol (ds_context st))) \<le> 32
    \<and> unit_float (ds_regime_confidence st)"
  by (auto simp: state_ok_def MarketContext_new_def rbind_eq_Inr)

lemma settings_okD:
  assumes "CognitiveSettings_new cfg = Inr c"
  shows "c = cfg \<and> 1 / 2 \<le> cs_omega_threshold cfg \<and> cs_omega_threshold cfg \<le> 1 \<and> 0 < cs_signal_ttl_ms cfg
     \<and> 0 < cs_compression_max_tokens cfg \<and> cs_compression_max_tokens cfg \<le> 200"
  using assms by (auto simp: CognitiveSettings_new_def rbind_eq_Inr)

lemma fl_small:
  "probabilities_sum_to_one 0 1"
proof -
  have "fl 1 = 1" by code_simp
  moreover have "0 \<le> PROB_SUM_TOLERANCE" by (simp add: PROB_SUM_TOLERANCE_def fl_nonneg)
  ultimately show ?thesis by (simp add: probabilities_sum_to_one_def)
qed

lemma default_abstain_ok: "JudgeVerdict_ok default_abstain"
  using fl_small by (simp add: JudgeVerdict_ok_def default_abstain_def unit_float_def)

lemma build_signal_returns:
  assumes "CognitiveSettings_new cfg = Inr cfg" "state_ok st" "JudgeVerdict_ok v" "sid \<noteq> []" "0 \<le> now"
    and "actionable \<longrightarrow> jd_side v \<noteq> SIDE_UNKNOWN \<and> positive_quantity q"
  shows "\<exists>sig. build_signal st v cfg actionable q sid now = Inr sig
     \<and> ts_signal_id sig = sid \<and> ts_symbol sig = mk_symbol (ds_context st)
     \<and> ts_status sig = (if actionable then SIGNAL_PENDING else SIGNAL_ABSTAIN)
     \<and> ts_side sig = (if actionable then jd_side v else SIDE_UNKNOWN)
     \<and> ts_quantity sig = (if actionable then q else Fin 0)
     \<and> ts_omega sig = jd_omega v \<and> ts_expected_value sig = expected_value v
     \<and> ts_created_at_ns sig = now \<and> now < ts_valid_until_ns sig
     \<and> int (length (ts_debate_summary sig)) \<le> 4 * cs_compression_max_tokens cfg"
proof -
  have q: "actionable \<Longrightarrow> \<exists>x. q = Fin x \<and> 0 < x" using assms(6) by (auto simp: positive_quantity_def split: dec.splits)
  show ?thesis using settings_okD [OF assms(1)] state_okD [OF assms(2)] assms(3-6) q
    by (cases actionable) (auto simp: build_signal_def TradeSignal_new_def Let_def signal_fields_ok_def signal_invariants_def
        JudgeVerdict_ok_def ACTIONABLE_STATUSES_def NS_PER_MS_def truncate_summary_def py_prefix_def CHARS_PER_TOKEN_def
        positive_quantity_def unit_float_def MAX_SUMMARY_TOKENS_def guard_def)
qed

lemma JudgeVerdict_json_ok: "JudgeVerdict_json j = Some v \<Longrightarrow> JudgeVerdict_ok v"
  by (cases j rule: JudgeVerdict_json.cases) (auto simp: Let_def bind_eq_Some_conv split: if_splits)

lemma ask_Inr: "ask reader model cfg w nd n b st = Inr x \<Longrightarrow> \<exists>j. model j = Some x"
  by (auto simp: ask_def parse_json_model_def rbind_eq_Inr split: if_splits option.splits)

lemma cap_degraded_ok: "JudgeVerdict_ok v \<Longrightarrow> 0 \<le> cs_omega_threshold cfg \<Longrightarrow> JudgeVerdict_ok (cap_degraded v cfg)"
  by (auto simp: JudgeVerdict_ok_def cap_degraded_def Let_def unit_float_def fl_nonneg)

lemma step_frames [simp]:
  "ds_context (blue_step reader cfg w st) = ds_context st" "ds_regime_confidence (blue_step reader cfg w st) = ds_regime_confidence st"
  "ds_context (red_step reader cfg w st) = ds_context st" "ds_regime_confidence (red_step reader cfg w st) = ds_regime_confidence st"
  "ds_context (judge_step reader cfg w st) = ds_context st" "ds_regime_confidence (judge_step reader cfg w st) = ds_regime_confidence st"
  "ds_context (compression_step cfg w st) = ds_context st" "ds_regime_confidence (compression_step cfg w st) = ds_regime_confidence st"
  "ds_blue (red_step reader cfg w st) = ds_blue st" "ds_blue (judge_step reader cfg w st) = ds_blue st"
  "ds_red (judge_step reader cfg w st) = ds_red st" "ds_blue (compression_step cfg w st) = ds_blue st"
  "ds_red (compression_step cfg w st) = ds_red st" "ds_judge (compression_step cfg w st) = ds_judge st"
  by (auto simp: blue_step_def red_step_def judge_step_def compression_step_def Let_def split: option.splits)

lemma state_ok_graph: "state_ok st \<Longrightarrow> state_ok (debate_graph reader cfg w st)"
  by (simp add: state_ok_def debate_graph_def)

text \<open>The three answers a node needs to count.\<close>

definition blue_answer where
  "blue_answer reader cfg w st = ask reader BlueThesis_json cfg w Blue (cs_blue_red_max_tokens cfg) (cs_blue_latency_budget_s cfg)
     (st\<lparr>ds_started_at := Some (case ds_started_at st of Some t \<Rightarrow> t | None \<Rightarrow> dw_start w)\<rparr>)"

definition red_answer where
  "red_answer reader cfg w st = ask reader RedChallenge_json cfg w Red (cs_blue_red_max_tokens cfg) (cs_red_latency_budget_s cfg)
     (blue_step reader cfg w st)"

definition judge_answer where
  "judge_answer reader cfg w st = ask reader JudgeVerdict_json cfg w Judge (cs_judge_max_tokens cfg)
     (cs_judge_latency_budget_s cfg) (red_step reader cfg w (blue_step reader cfg w st))"

lemma blue_answered:
  assumes "ds_blue (debate_graph reader cfg w st) = Some b" "\<not> bt_forced b"
  shows "blue_answer reader cfg w st = Inr b"
  using assms by (auto simp: debate_graph_def blue_answer_def blue_step_def Let_def split: sum.splits)

lemma red_answered:
  assumes "ds_red (debate_graph reader cfg w st) = Some r" "\<not> rc_forced r"
  shows "red_answer reader cfg w st = Inr r \<and> \<not> blue_unusable (ds_blue (debate_graph reader cfg w st))"
  using assms by (auto simp: debate_graph_def red_answer_def red_step_def Let_def split: sum.splits if_splits)

lemma judge_answered:
  assumes "ds_judge (debate_graph reader cfg w st) = Some v" "\<not> jd_defaulted v"
    and "ds_red (debate_graph reader cfg w st) = Some r" "\<not> rc_forced r"
  shows "judge_answer reader cfg w st = Inr v"
  using assms by (auto simp: debate_graph_def judge_answer_def judge_step_def default_abstain_def
      split: sum.splits if_splits option.splits)

lemma graph_verdict:
  assumes "0 \<le> cs_omega_threshold cfg"
  shows "\<exists>v. ds_judge (debate_graph reader cfg w st) = Some v \<and> JudgeVerdict_ok v"
proof -
  let ?s = "red_step reader cfg w (blue_step reader cfg w st)"
  have v: "JudgeVerdict_ok v" if "ask reader JudgeVerdict_json cfg w nd n b s = Inr v" for nd n b s v
    using ask_Inr [OF that] JudgeVerdict_json_ok by blast
  have "\<exists>v. ds_judge (judge_step reader cfg w ?s) = Some v \<and> JudgeVerdict_ok v"
    using v cap_degraded_ok [OF _ assms] default_abstain_ok by (auto simp: judge_step_def split: option.split sum.split)
  then show ?thesis by (simp add: debate_graph_def)
qed

lemma no_reasons:
  assumes "abstain_reasons st v cfg q = []"
  shows "\<exists>b r. ds_blue st = Some b \<and> ds_red st = Some r \<and> \<not> bt_forced b \<and> \<not> rc_forced r \<and> \<not> jd_defaulted v
     \<and> cs_omega_threshold cfg \<le> jd_omega v \<and> jd_side v \<noteq> SIDE_UNKNOWN \<and> positive_quantity q \<and> 0 < expected_value v"
  using assms by (auto simp: abstain_reasons_def not_less not_le split: option.splits if_splits)

definition quantity_used :: "dec \<Rightarrow> vol_scaled_sizer option \<Rightarrow> debate_state \<Rightarrow> dec" where
  "quantity_used quantity sizer fin = (case sizer of Some s \<Rightarrow> sized_quantity s fin | None \<Rightarrow> quantity)"

lemma debate_outcome:
  assumes "CognitiveSettings_new cfg = Inr cfg" "state_ok st" "dw_signal_id w \<noteq> []" "0 \<le> dw_now_ns w"
  shows "\<exists>sig fin. run_debate_with_state reader cfg quantity sizer w st = Inr (sig, fin)
     \<and> int (length (ts_debate_summary sig)) \<le> 4 * cs_compression_max_tokens cfg \<and> ts_symbol sig = mk_symbol (ds_context st)
     \<and> (ts_status sig = SIGNAL_ABSTAIN \<and> ts_side sig = SIDE_UNKNOWN \<and> ts_quantity sig = Fin 0
        \<or> ts_status sig = SIGNAL_PENDING \<and> ts_created_at_ns sig < ts_valid_until_ns sig
          \<and> (\<exists>f b r v. fin = Some f \<and> blue_answer reader cfg w st = Inr b \<and> red_answer reader cfg w st = Inr r
               \<and> judge_answer reader cfg w st = Inr v \<and> \<not> bt_forced b \<and> bt_side b \<noteq> SIDE_UNKNOWN \<and> \<not> rc_forced r
               \<and> \<not> jd_defaulted v \<and> 1 / 2 \<le> cs_omega_threshold cfg \<and> cs_omega_threshold cfg \<le> jd_omega v
               \<and> jd_side v \<noteq> SIDE_UNKNOWN \<and> 0 < expected_value v \<and> positive_quantity (quantity_used quantity sizer f)
               \<and> ts_side sig = jd_side v \<and> ts_omega sig = jd_omega v \<and> ts_expected_value sig = expected_value v
               \<and> ts_quantity sig = quantity_used quantity sizer f))"
proof (cases "dw_graph_error w")
  case (Some e)
  let ?s = "Some (''debate aborted ('' @ exc_name e @ '') - abstain'')"
  have "state_ok (st\<lparr>ds_summary := ?s\<rparr>)" using assms(2) by (simp add: state_ok_def)
  from build_signal_returns [OF assms(1) this default_abstain_ok assms(3,4), of False "Fin 0"] obtain sig where
    "build_signal (st\<lparr>ds_summary := ?s\<rparr>) default_abstain cfg False (Fin 0) (dw_signal_id w) (dw_now_ns w) = Inr sig"
    "ts_symbol sig = mk_symbol (ds_context st)" "ts_status sig = SIGNAL_ABSTAIN" "ts_side sig = SIDE_UNKNOWN"
    "ts_quantity sig = Fin 0" "int (length (ts_debate_summary sig)) \<le> 4 * cs_compression_max_tokens cfg" by auto
  then show ?thesis using Some by (simp add: run_debate_with_state_def abstain_signal_def)
next
  case None
  let ?f = "debate_graph reader cfg w st"
  let ?q = "quantity_used quantity sizer ?f"
  note c = settings_okD [OF assms(1)]
  obtain v where v: "ds_judge ?f = Some v" "JudgeVerdict_ok v" using graph_verdict [of cfg] c by fastforce
  let ?a = "abstain_reasons ?f v cfg ?q = []"
  have run: "run_debate_with_state reader cfg quantity sizer w st
      = rbind (build_signal ?f v cfg ?a ?q (dw_signal_id w) (dw_now_ns w)) (\<lambda>sig. Inr (sig, Some ?f))"
    using None v(1) by (simp add: run_debate_with_state_def to_trade_signal_def Let_def quantity_used_def)
  have "?a \<longrightarrow> jd_side v \<noteq> SIDE_UNKNOWN \<and> positive_quantity ?q" using no_reasons by blast
  from build_signal_returns [OF assms(1) state_ok_graph [OF assms(2)] v(2) assms(3,4) this] obtain sig where
    sig: "build_signal ?f v cfg ?a ?q (dw_signal_id w) (dw_now_ns w) = Inr sig" "ts_symbol sig = mk_symbol (ds_context ?f)"
      "ts_status sig = (if ?a then SIGNAL_PENDING else SIGNAL_ABSTAIN)" "ts_side sig = (if ?a then jd_side v else SIDE_UNKNOWN)"
      "ts_quantity sig = (if ?a then ?q else Fin 0)" "ts_omega sig = jd_omega v" "ts_expected_value sig = expected_value v"
      "ts_created_at_ns sig = dw_now_ns w" "dw_now_ns w < ts_valid_until_ns sig"
      "int (length (ts_debate_summary sig)) \<le> 4 * cs_compression_max_tokens cfg"
    by blast
  have ctx: "ds_context ?f = ds_context st" by (simp add: debate_graph_def)
  show ?thesis
  proof (cases ?a)
    case False
    then show ?thesis using run sig ctx by simp
  next
    case True
    from no_reasons [OF True] obtain b r where
      br: "ds_blue ?f = Some b" "ds_red ?f = Some r" "\<not> bt_forced b" "\<not> rc_forced r" "\<not> jd_defaulted v"
        "cs_omega_threshold cfg \<le> jd_omega v" "jd_side v \<noteq> SIDE_UNKNOWN" "positive_quantity ?q" "0 < expected_value v" by blast
    have "bt_side b \<noteq> SIDE_UNKNOWN" using red_answered [OF br(2,4)] br(1) by (simp add: blue_unusable_def)
    then show ?thesis using run sig ctx True br c v(1) blue_answered [OF br(1,3)] red_answered [OF br(2,4)]
        judge_answered [OF v(1) br(5,2,4)] by auto
  qed
qed

lemma debate_returned:
  assumes "run_debate_with_state reader cfg quantity sizer w st = Inr (sig, fin)"
  shows "dw_signal_id w \<noteq> [] \<and> 0 \<le> dw_now_ns w"
proof -
  have "sid \<noteq> [] \<and> 0 \<le> now" if "build_signal s v cfg a q sid now = Inr x" for s v a q sid now x
    using that by (simp add: build_signal_def TradeSignal_new_def Let_def rbind_eq_Inr signal_fields_ok_def)
  moreover have "\<exists>s v a q. build_signal s v cfg a q (dw_signal_id w) (dw_now_ns w) = Inr sig" using assms
    by (auto simp: run_debate_with_state_def abstain_signal_def to_trade_signal_def Let_def rbind_eq_Inr split: option.splits)
  ultimately show ?thesis by blast
qed

text \<open>
  C6: A debate always ends in a signal, and an actionable one is earned. Whatever the models answer,
  however late, malformed or failing, the run of a debate returns a signal and raises nothing. The
  signal abstains (no side, quantity zero), unless Blue, Red and Judge each answered in time with a
  valid reply that marks nothing as degraded, Blue has a side, the Judge's confidence reaches the
  threshold of at least one half, its side is known, its expected value and the quantity are
  positive; then the signal carries exactly that side, confidence, value and quantity, expires after
  it was created, and its summary is within the token cap.
\<close>

theorem actionable_signal_is_earned:
  assumes "CognitiveSettings_new cfg = Inr cfg" "state_ok st" "dw_signal_id w \<noteq> []" "0 \<le> dw_now_ns w"
  shows "\<exists>sig fin. run_debate_with_state reader cfg quantity sizer w st = Inr (sig, fin)
     \<and> int (length (ts_debate_summary sig)) \<le> 4 * cs_compression_max_tokens cfg \<and> ts_symbol sig = mk_symbol (ds_context st)
     \<and> (ts_status sig = SIGNAL_ABSTAIN \<and> ts_side sig = SIDE_UNKNOWN \<and> ts_quantity sig = Fin 0
        \<or> ts_status sig = SIGNAL_PENDING \<and> ts_created_at_ns sig < ts_valid_until_ns sig
          \<and> (\<exists>f b r v. fin = Some f \<and> blue_answer reader cfg w st = Inr b \<and> red_answer reader cfg w st = Inr r
               \<and> judge_answer reader cfg w st = Inr v \<and> \<not> bt_forced b \<and> bt_side b \<noteq> SIDE_UNKNOWN \<and> \<not> rc_forced r
               \<and> \<not> jd_defaulted v \<and> 1 / 2 \<le> cs_omega_threshold cfg \<and> cs_omega_threshold cfg \<le> jd_omega v
               \<and> jd_side v \<noteq> SIDE_UNKNOWN \<and> 0 < expected_value v \<and> positive_quantity (quantity_used quantity sizer f)
               \<and> ts_side sig = jd_side v \<and> ts_omega sig = jd_omega v \<and> ts_expected_value sig = expected_value v
               \<and> ts_quantity sig = quantity_used quantity sizer f))"
  by (rule debate_outcome [OF assms])

definition demo_settings :: cognitive_settings where
  "demo_settings = \<lparr>cs_blue_model = ''m'', cs_red_model = ''m'', cs_judge_model = ''s'', cs_compression_model = ''h'',
     cs_reflector_model = ''h'', cs_bedrock_region = None, cs_bedrock_endpoint_url = None,
     cs_blue_latency_budget_s = 3 / 4, cs_red_latency_budget_s = 3 / 4, cs_judge_latency_budget_s = 1 / 2,
     cs_compression_latency_budget_s = 1 / 8, cs_overall_deadline_s = 2, cs_reflector_timeout_s = 5,
     cs_blue_red_max_tokens = 4096, cs_judge_max_tokens = 2048, cs_compression_max_tokens = 200,
     cs_reflector_max_tokens = 1024, cs_omega_threshold = 1 / 2, cs_signal_ttl_ms = 2000\<rparr>"

definition demo_state :: debate_state where
  "demo_state = \<lparr>ds_context = \<lparr>mk_symbol = ''AAPL'', mk_mid_price = 150, mk_z_score = 0, mk_mad_score = 0, mk_ofi = 0,
       mk_realized_vol = 1 / 4, mk_adv_30d = 1000\<rparr>, ds_regime = TRENDING_BULL, ds_regime_confidence = 1 / 2,
     ds_precedents = [], ds_precedents_status = NoneConfigured, ds_started_at = None, ds_blue = None, ds_red = None,
     ds_judge = None, ds_summary = None\<rparr>"

text \<open>A reader that knows three texts.\<close>

definition demo_reader :: "pystr \<Rightarrow> jv option" where
  "demo_reader = map_of
     [(''blue'', JvObj [(''side'', JvStr ''BUY''), (''rationale'', JvStr ''r'')]),
      (''red'', JvObj [(''counter_factors'', JvArr [JvStr ''c''])]),
      (''judge'', JvObj [(''side'', JvStr ''BUY''), (''omega'', JvInt 1), (''p_success'', JvInt 1),
         (''p_failure'', JvInt 0), (''reward_estimate'', JvInt 120), (''risk_estimate'', JvInt 40)])]"

fun demo_answer :: "node \<Rightarrow> pystr" where
  "demo_answer Blue = ''blue''"
| "demo_answer Red = ''red''"
| "demo_answer Judge = ''judge''"
| "demo_answer Compression = ''fine''"

definition demo_debate :: debate_world where
  "demo_debate = \<lparr>dw_start = 0, dw_now = (\<lambda>_. 1 / 4), dw_reply = (\<lambda>nd _ _ _. Inr (ReplyText (demo_answer nd))),
     dw_graph_error = None, dw_signal_id = ''id-1'', dw_now_ns = 1000\<rparr>"

lemma demo_ok: "CognitiveSettings_new demo_settings = Inr demo_settings" "state_ok demo_state"
proof -
  show "CognitiveSettings_new demo_settings = Inr demo_settings" by code_simp
  show "state_ok demo_state" unfolding state_ok_def by code_simp
qed

theorem actionable_signal_is_earned_witness:
  "\<exists>sig f v. run_debate_with_state demo_reader demo_settings (Fin 10) None demo_debate demo_state = Inr (sig, Some f)
     \<and> ts_status sig = SIGNAL_PENDING \<and> judge_answer demo_reader demo_settings demo_debate demo_state = Inr v
     \<and> 0 < expected_value v \<and> ts_quantity sig = Fin 10"
proof -
  have w: "dw_signal_id demo_debate \<noteq> []" "0 \<le> dw_now_ns demo_debate" by (simp_all add: demo_debate_def)
  have "case run_debate_with_state demo_reader demo_settings (Fin 10) None demo_debate demo_state of
      Inl e \<Rightarrow> False | Inr (sig, f) \<Rightarrow> ts_status sig = SIGNAL_PENDING" by code_simp
  then show ?thesis
    using actionable_signal_is_earned [OF demo_ok w, of demo_reader "Fin 10" None] by (auto simp: quantity_used_def)
qed

section \<open>Order sizes\<close>

lemma rnd_upper: "0 \<le> x \<Longrightarrow> rnd x \<le> x * (1 + 5 * pow10 (- 28))"
  using rnd_error [of x] by (simp add: algebra_simps abs_le_iff)

lemma rnd_lower: "0 \<le> x \<Longrightarrow> x * (1 - 5 * pow10 (- 28)) \<le> rnd x"
  using rnd_error [of x] by (simp add: algebra_simps abs_le_iff)

text \<open>A quotient of positive decimals, rounded down to a whole number, overshoots by less than \<open>10 ^ (- 27)\<close>.\<close>

lemma floor_quotient:
  assumes "0 \<le> a" "0 < b"
  shows "of_int \<lfloor>ddiv a b\<rfloor> * b \<le> a * (1 + 5 * pow10 (- 28))"
proof -
  have "of_int \<lfloor>ddiv a b\<rfloor> \<le> a / b * (1 + 5 * pow10 (- 28))"
    using rnd_upper [of "a / b"] assms of_int_floor_le [of "ddiv a b"] by (simp add: ddiv_def) linarith
  then show ?thesis using assms by (simp add: field_simps)
qed

lemma VolScaledSizer_ok:
  assumes "VolScaledSizer_new (Fin e) (Fin r) (Fin c) = Inr s"
  shows "vs_equity_usd s = e \<and> vs_risk_per_trade s = r \<and> vs_max_order_notional_usd s = c
     \<and> 0 < e \<and> 0 < r \<and> r \<le> 5 / 100 \<and> 0 < c"
  using assms by (auto simp: VolScaledSizer_new_def rbind_eq_Inr MAX_RISK_PER_TRADE_def)

lemma budget_bound:
  assumes "0 \<le> e" "0 \<le> r" "0 \<le> o1"
  shows "0 \<le> dmul (dmul e r) o1 \<and> dmul (dmul e r) o1 \<le> e * r * o1 * (1 + 5 * pow10 (- 28)) ^ 2"
proof -
  let ?u = "5 * pow10 (- 28)"
  have er: "0 \<le> dmul e r" "dmul e r \<le> e * r * (1 + ?u)"
    using rnd_upper [of "e * r"] rnd_mono [of 0 "e * r"] assms by (simp_all add: dmul_def)
  have "dmul (dmul e r) o1 \<le> dmul e r * o1 * (1 + ?u)"
    using rnd_upper [of "dmul e r * o1"] er assms by (simp add: dmul_def)
  also have "\<dots> \<le> e * r * (1 + ?u) * o1 * (1 + ?u)"
    using er(2) assms by (intro mult_right_mono) (simp_all add: pow10_def)
  finally show ?thesis using rnd_mono [of 0 "dmul e r * o1"] er(1) assms by (simp add: dmul_def power2_eq_square algebra_simps)
qed

lemma by_risk_bound:
  assumes "0 \<le> e" "0 \<le> r" "0 \<le> o1" "0 < p" "0 < v"
  shows "of_int \<lfloor>ddiv (dmul (dmul e r) o1) (dmul p v)\<rfloor> * (p * v) \<le> e * r * o1 * (1 + pow10 (- 26))"
proof -
  let ?u = "5 * pow10 (- 28)" and ?n = "\<lfloor>ddiv (dmul (dmul e r) o1) (dmul p v)\<rfloor>" and ?x = "e * r * o1"
  note b = budget_bound [OF assms(1-3)]
  have pv: "0 < dmul p v" "p * v * (1 - ?u) \<le> dmul p v"
    using assms rnd_pos [of "p * v"] rnd_lower [of "p * v"] by (simp_all add: dmul_def)
  have n: "0 \<le> ?n" using b pv(1) rnd_mono [of 0 "dmul (dmul e r) o1 / dmul p v"] by (simp add: ddiv_def)
  have "of_int ?n * (p * v * (1 - ?u)) \<le> of_int ?n * dmul p v" using pv(2) n by (intro mult_left_mono) simp_all
  also have "\<dots> \<le> dmul (dmul e r) o1 * (1 + ?u)" using floor_quotient [of "dmul (dmul e r) o1" "dmul p v"] b pv(1) by simp
  also have "\<dots> \<le> ?x * (1 + ?u) ^ 2 * (1 + ?u)" using b by (intro mult_right_mono) (simp_all add: pow10_def)
  also have "\<dots> \<le> ?x * ((1 + pow10 (- 26)) * (1 - ?u))"
  proof -
    have "(1 + ?u) ^ 2 * (1 + ?u) \<le> (1 + pow10 (- 26)) * (1 - ?u)" by (simp add: pow10_def power2_eq_square)
    then show ?thesis using assms by (simp add: mult.assoc mult_left_mono)
  qed
  finally have "(of_int ?n * (p * v)) * (1 - ?u) \<le> (?x * (1 + pow10 (- 26))) * (1 - ?u)" by (simp add: mult_ac)
  then show ?thesis by (rule mult_right_le_imp_le) (simp add: pow10_def)
qed

text \<open>
  C8: A sized order respects the risk budget and the notional cap. For every price, volatility and
  confidence the vol-scaled sizer answers a whole number of shares that is never negative; its
  notional is at most the configured cap and the loss of a one-sigma move at most the equity times
  the risk fraction times the confidence, both up to the rounding of the decimal arithmetic.
\<close>

theorem sized_order_is_bounded:
  fixes price vol omega
  assumes "VolScaledSizer_new (Fin e) (Fin r) (Fin c) = Inr s"
  defines "n \<equiv> shares s price vol omega"
  shows "0 \<le> n \<and> (0 < n \<longrightarrow> 0 < repr_decimal price \<and> 0 < repr_decimal vol \<and> 0 < repr_decimal omega \<and> repr_decimal omega \<le> 1)
     \<and> of_int n * repr_decimal price \<le> c * (1 + pow10 (- 27))
     \<and> of_int n * (repr_decimal price * repr_decimal vol) \<le> e * r * max 0 (repr_decimal omega) * (1 + pow10 (- 26))"
proof -
  let ?p = "repr_decimal price" and ?v = "repr_decimal vol" and ?o = "repr_decimal omega"
  note s = VolScaledSizer_ok [OF assms(1)]
  show ?thesis
  proof (cases "?p \<le> 0 \<or> ?v \<le> 0 \<or> \<not> (0 < ?o \<and> ?o \<le> 1)")
    case True
    then have "n = 0" by (auto simp: n_def shares_def Let_def)
    then show ?thesis using s by (simp add: pow10_def)
  next
    case False
    then have pos: "0 < ?p" "0 < ?v" "0 < ?o" "?o \<le> 1" by auto
    let ?r = "\<lfloor>ddiv (dmul (dmul e r) ?o) (dmul ?p ?v)\<rfloor>" and ?c = "\<lfloor>ddiv c ?p\<rfloor>"
    have n: "n = max 0 (min ?r ?c)" using False s by (auto simp: n_def shares_def Let_def)
    have "of_int ?c * ?p \<le> c * (1 + 5 * pow10 (- 28))" by (rule floor_quotient) (use s pos in auto)
    also have "\<dots> \<le> c * (1 + pow10 (- 27))" using s by (simp add: pow10_def)
    finally have cap: "of_int ?c * ?p \<le> c * (1 + pow10 (- 27))" .
    have risk: "of_int ?r * (?p * ?v) \<le> e * r * ?o * (1 + pow10 (- 26))" using by_risk_bound [of e r ?o ?p ?v] s pos by simp
    have "m = 0 \<or> m \<le> a \<and> m \<le> b" if "m = max 0 (min a b)" for m a b :: int using that by auto
    from this [OF n] have le: "n = 0 \<or> n \<le> ?r \<and> n \<le> ?c" .
    have "of_int n * ?p \<le> c * (1 + pow10 (- 27))"
    proof (cases "n = 0")
      case False
      then have "of_int n * ?p \<le> of_int ?c * ?p" using le pos by (intro mult_right_mono) auto
      then show ?thesis using cap by linarith
    qed (use s in \<open>simp add: pow10_def\<close>)
    moreover have "of_int n * (?p * ?v) \<le> e * r * max 0 ?o * (1 + pow10 (- 26))"
    proof (cases "n = 0")
      case False
      then have "of_int n * (?p * ?v) \<le> of_int ?r * (?p * ?v)" using le pos by (intro mult_right_mono) auto
      also note risk
      also have "e * r * ?o = e * r * max 0 ?o" using pos by simp
      finally show ?thesis .
    qed (use s in \<open>simp add: pow10_def\<close>)
    ultimately show ?thesis using n pos by simp
  qed
qed

theorem sized_order_is_bounded_witness:
  "\<exists>s. VolScaledSizer_new (Fin 100000) (Fin (1 / 100)) (Fin 5000) = Inr s \<and> shares s (150 :: rat) (1 / 4) (3 / 4) = 20
     \<and> 20 * (150 :: rat) \<le> 5000 * (1 + pow10 (- 27))"
proof -
  define s where "s = \<lparr>vs_equity_usd = 100000, vs_risk_per_trade = 1 / 100, vs_max_order_notional_usd = 5000\<rparr>"
  have s: "VolScaledSizer_new (Fin 100000) (Fin (1 / 100)) (Fin 5000) = Inr s" unfolding s_def by code_simp
  have n: "shares s 150 (1 / 4) (3 / 4) = 20" unfolding s_def by code_simp
  have p: "repr_decimal 150 = 150" by code_simp
  show ?thesis using sized_order_is_bounded [OF s, of 150 "1 / 4" "3 / 4"] s n p by auto
qed

section \<open>Quoted text\<close>

lemma remove_delimiters_simps [simp]:
  "remove_delimiters [] = []"
  "delimiter_match (c # cs) = None \<Longrightarrow> remove_delimiters (c # cs) = c # remove_delimiters cs"
  "delimiter_match (c # cs) = Some r \<Longrightarrow> remove_delimiters (c # cs) = ''[delimiter-removed'' @ remove_delimiters r"
  by (simp_all add: remove_delimiters.simps [of "[]"] remove_delimiters.simps [of "c # cs"])

lemma delimiter_match_head: "delimiter_match (c # s) = Some r \<Longrightarrow> c = CHR ''<''"
  by (auto simp: delimiter_match_def split: if_splits)

definition delimiter_name :: "pystr \<Rightarrow> bool" where
  "delimiter_name u \<longleftrightarrow> py_lower (take 16 u) = ''untrusted_output''"

definition after_slash :: "pystr \<Rightarrow> pystr" where
  "after_slash r = dropWhile py_isspace (if r \<noteq> [] \<and> hd r = CHR ''/'' then tl r else r)"

lemma delimiter_match_name:
  "delimiter_match (CHR ''<'' # s) = None \<longleftrightarrow> \<not> delimiter_name (after_slash (dropWhile py_isspace s))"
  by (simp add: delimiter_match_def delimiter_name_def after_slash_def Let_def)

text \<open>A character that ends a match: a bracket or a line feed.\<close>

definition breaker :: "char \<Rightarrow> bool" where
  "breaker c \<longleftrightarrow> c \<in> {CHR ''<'', CHR ''['', LF}"

lemma delimiter_name_cut:
  assumes "breaker c" "delimiter_name (p @ c # z)"
  shows "delimiter_name (p @ q)"
proof -
  have low: "py_lower_char c = c" using assms(1) by (auto simp: breaker_def py_lower_char_def)
  have "16 \<le> length p"
  proof (rule ccontr)
    assume "\<not> 16 \<le> length p"
    then have "c \<in> set (py_lower (take 16 (p @ c # z)))" using low by (auto simp: py_lower_def take_Cons')
    then have "c \<in> set ''untrusted_output''" using assms(2) by (simp only: delimiter_name_def)
    then show False using assms(1) by (auto simp: breaker_def)
  qed
  then show ?thesis using assms(2) by (simp add: delimiter_name_def)
qed

lemma dropWhile_cases:
  "(list_all P p \<and> dropWhile P (p @ z) = dropWhile P z) \<or> dropWhile P p \<noteq> [] \<and> (\<forall>z. dropWhile P (p @ z) = dropWhile P p @ z)"
  by (cases "list_all P p") (auto simp: list_all_iff dropWhile_append1 dropWhile_append2)

definition bracketed :: "pystr \<Rightarrow> bool" where
  "bracketed z \<longleftrightarrow> z \<noteq> [] \<and> breaker (hd z)
     \<and> (\<exists>b \<in> {CHR ''<'', CHR ''[''}. \<exists>y. dropWhile py_isspace z = b # y)"

lemma bracket_no_name: "b \<in> {CHR ''<'', CHR ''[''} \<Longrightarrow> \<not> delimiter_name (b # y)"
  by (auto simp: delimiter_name_def py_lower_def py_lower_char_def take_Cons')

lemma spaces_bracketed: "bracketed z \<Longrightarrow> \<not> delimiter_name (dropWhile py_isspace z)"
  using bracket_no_name unfolding bracketed_def by metis

lemma delimiter_cut:
  assumes z: "bracketed z" and none: "delimiter_match (CHR ''<'' # p @ q) = None"
  shows "delimiter_match (CHR ''<'' # p @ z) = None"
proof -
  let ?d = "dropWhile py_isspace"
  obtain c y where c: "z = c # y" "breaker c" using z by (cases z) (auto simp: bracketed_def)
  have slash: "after_slash (?d z) = ?d z" "\<not> delimiter_name (?d z)"
    using z spaces_bracketed [OF z] by (auto simp: bracketed_def after_slash_def py_isspace_def)
  from dropWhile_cases [of py_isspace p z] have "\<not> delimiter_name (after_slash (?d (p @ z)))"
  proof (elim disjE conjE)
    assume "?d (p @ z) = ?d z"
    then show ?thesis using slash by simp
  next
    assume p: "?d p \<noteq> []" "\<forall>z. ?d (p @ z) = ?d p @ z"
    define t where "t = (if hd (?d p) = CHR ''/'' then tl (?d p) else ?d p)"
    have a: "after_slash (?d (p @ x)) = ?d (t @ x)" for x using p by (auto simp: after_slash_def t_def)
    from dropWhile_cases [of py_isspace t z] show ?thesis
    proof (elim disjE conjE)
      assume "?d (t @ z) = ?d z"
      then show ?thesis using slash(2) a by simp
    next
      assume "\<forall>x. ?d (t @ x) = ?d t @ x"
      then show ?thesis using a none delimiter_name_cut [OF c(2), of "?d t" y q] c(1) by (auto simp: delimiter_match_name)
    qed
  qed
  then show ?thesis by (simp add: delimiter_match_name)
qed

lemma remove_delimiters_plain:
  "CHR ''<'' \<notin> set p \<Longrightarrow> remove_delimiters (p @ q) = p @ remove_delimiters q"
proof (induction p)
  case (Cons c p)
  then have "delimiter_match (c # p @ q) = None" using delimiter_match_head [of c "p @ q"] by (cases "delimiter_match (c # p @ q)") auto
  then show ?case using Cons by simp
qed simp

lemma remove_delimiters_head:
  assumes "q = [] \<or> hd q = CHR ''<''"
  shows "bracketed (remove_delimiters q @ LF # CHR ''<'' # y)"
proof (cases q)
  case Nil
  then show ?thesis by (simp add: bracketed_def breaker_def py_isspace_def)
next
  case (Cons c cs)
  then show ?thesis using assms by (cases "delimiter_match q")
      (simp_all add: bracketed_def breaker_def py_isspace_def)
qed

lemma no_delimiter_inside:
  "n < length (remove_delimiters s) \<Longrightarrow> delimiter_match (drop n (remove_delimiters s @ LF # CHR ''<'' # y)) = None"
proof (induction s arbitrary: n rule: remove_delimiters.induct)
  case (1 s)
  let ?t = "LF # CHR ''<'' # y"
  have free: "delimiter_match (drop n (p @ x)) = None" if "n < length p" "CHR ''<'' \<notin> set p" for n p x
  proof -
    have "drop n (p @ x) = p ! n # drop (Suc n) p @ x" using that(1) by (simp add: Cons_nth_drop_Suc [symmetric])
    moreover have "p ! n \<noteq> CHR ''<''" using that by (metis nth_mem)
    ultimately show ?thesis using delimiter_match_head by (cases "delimiter_match (drop n (p @ x))") auto
  qed
  show ?case
  proof (cases s)
    case Nil
    then show ?thesis using "1.prems" by simp
  next
    case (Cons c cs)
    show ?thesis
    proof (cases "delimiter_match s")
      case (Some r)
      define m where "m = ''[delimiter-removed''"
      have e: "remove_delimiters s = m @ remove_delimiters r" "CHR ''<'' \<notin> set m" using Some Cons by (simp_all add: m_def)
      show ?thesis
      proof (cases "n < length m")
        case True
        then show ?thesis using free [of n m "remove_delimiters r @ ?t"] e by simp
      next
        case False
        then show ?thesis using "1.IH"(2) [OF Cons Some, of "n - length m"] "1.prems" e by simp
      qed
    next
      case None
      have e: "remove_delimiters s = c # remove_delimiters cs" using None Cons by simp
      show ?thesis
      proof (cases n)
        case (Suc k)
        then show ?thesis using "1.IH"(1) [OF Cons None, of k] "1.prems" e by simp
      next
        case 0
        define p q where "p = takeWhile (\<lambda>c. c \<noteq> CHR ''<'') cs" and "q = dropWhile (\<lambda>c. c \<noteq> CHR ''<'') cs"
        have pq: "cs = p @ q" "CHR ''<'' \<notin> set p" "q = [] \<or> hd q = CHR ''<''"
          using hd_dropWhile [of "\<lambda>c. c \<noteq> CHR ''<''" cs] by (auto simp: p_def q_def dest: set_takeWhileD)
        show ?thesis
        proof (cases "c = CHR ''<''")
          case True
          then show ?thesis using delimiter_cut [OF remove_delimiters_head [OF pq(3)], of p q] None Cons 0 e pq
            by (simp add: remove_delimiters_plain)
        next
          case False
          then show ?thesis using delimiter_match_head 0 e by (cases "delimiter_match (c # remove_delimiters cs @ ?t)") auto
        qed
      qed
    qed
  qed
qed

text \<open>
  Quoted text cannot close its block. Between the opening tag the wrapper writes and its closing
  tag, no delimiter starts, in any spelling the filter knows (white space, slash, upper or lower
  case): the closing tag of the block is the wrapper's own, whatever a model or the memory put into
  the text.
\<close>

theorem untrusted_text_stays_inside:
  "\<exists>body. wrap_untrusted source s
       = ''<untrusted_output source='' @ [CHR 0x22] @ source @ [CHR 0x22, CHR ''>'', LF] @ body @ LF # ''</untrusted_output>''
     \<and> list_all (\<lambda>n. delimiter_match (drop n (body @ LF # ''</untrusted_output>'')) = None) [0..<length body]
     \<and> (CHR ''<'' \<in> set s \<or> body = s)"
proof -
  have "remove_delimiters s = s" if "CHR ''<'' \<notin> set s"
    using remove_delimiters_plain [OF that, of "[]"] by simp
  then show ?thesis using no_delimiter_inside [of _ s "''/untrusted_output>''"]
    by (intro exI [of _ "remove_delimiters s"]) (auto simp: wrap_untrusted_def list_all_iff)
qed

end
