(* ===== verification/Cognitive_Properties.thy ===== *)
theory Cognitive_Properties
  imports Cognitive Debate_Properties Service_Properties "HOL-Library.Sublist"
begin

text \<open>
  Results about the runner: what must hold for a signal to leave it, how often a symbol is debated,
  what its queue keeps, and, with the execution motor attached, which debates an order at a broker
  comes from. The locale \<open>signal_sink_contract\<close> is what the runner relies on in a sink, interpreted on
  the sinks of \<open>sinks.py\<close>.
\<close>

section \<open>The contract of a sink\<close>

fun is_record :: "signal_effect \<Rightarrow> bool" where
  "is_record (WriteDebate _) = True"
| "is_record _ = False"

definition outgoing :: "signal_effect list \<Rightarrow> signal_effect list" where
  "outgoing fx = filter (\<lambda>e. \<not> is_record e) fx"

text \<open>The call an approved decision causes: with the signal as sent and the context, or the bare decision.\<close>

definition motor_call :: "decision_msg \<Rightarrow> signal_proto \<Rightarrow> decision_context option \<Rightarrow> signal_effect \<Rightarrow> bool" where
  "motor_call d m cx call \<longleftrightarrow> call = ExecutePlain d
     \<or> (\<exists>r. call = ExecuteWithContext r \<and> er_decision r = d \<and> er_signal r = m \<and> cx = Some (er_context r))"

locale signal_sink_contract =
  fixes send :: "sink_world \<Rightarrow> trade_signal \<Rightarrow> decision_context option \<Rightarrow> (exc + sink_receipt) \<times> signal_effect list"
    and sent_as :: "trade_signal \<Rightarrow> signal_proto \<Rightarrow> bool"
    and approved :: "decision_msg \<Rightarrow> bool"
  assumes shape: "send kw t cx = (r, fx) \<Longrightarrow> fx = [] \<or> (\<exists>m. sent_as t m
      \<and> (fx = [SubmitSignal m] \<or> (\<exists>d call. kw_aegis kw m = Inr d \<and> approved d \<and> motor_call d m cx call
            \<and> fx = [SubmitSignal m, call])))"
    and sink_errors: "send kw t cx = (Inl e, fx) \<Longrightarrow> exc_name e = ''SinkError''"
begin

lemma send_outgoing: "send kw t cx = (r, fx) \<Longrightarrow> outgoing fx = fx"
  using shape [of kw t cx r fx] by (auto simp: outgoing_def motor_call_def)

lemma motor_only_approved:
  assumes "send kw t cx = (r, fx)" "call \<in> set fx" "\<forall>m. call \<noteq> SubmitSignal m"
  shows "\<exists>m d. sent_as t m \<and> kw_aegis kw m = Inr d \<and> approved d \<and> motor_call d m cx call \<and> fx = [SubmitSignal m, call]"
  using shape [OF assms(1)] assms(2,3) by auto

end

lemma submit_to_aegis_shape:
  assumes "submit_to_aegis tab strategy kw t = (r, fx)"
  shows "(fx = [] \<and> isl r) \<or> (\<exists>m. to_proto tab t strategy = Inr m \<and> fx = [SubmitSignal m]
     \<and> ((\<exists>e. r = Inl e) \<or> (\<exists>d. kw_aegis kw m = Inr d \<and> r = Inr (m, d))))"
    and "r = Inl e \<Longrightarrow> exc_name e = ''SinkError''"
  using assms by (auto simp: submit_to_aegis_def wrap_sink_error_def split: sum.splits)

lemma MotorGrpcSink_shape:
  assumes "MotorGrpcSink_send tab b kw d m cx = (r, fx)"
  shows "fx = [] \<or> (\<exists>call. fx = [call] \<and> motor_call d m cx call)" "r = Inl e \<Longrightarrow> exc_name e = ''SinkError''"
  using assms by (auto simp: MotorGrpcSink_send_def motor_call_def build_execute_request_def wrap_sink_error_def rbind_def
      split: sum.splits option.splits if_splits)

fun strategy_of_sink :: "signal_sink \<Rightarrow> pystr" where
  "strategy_of_sink LogSink = []"
| "strategy_of_sink (AegisGrpcSink s) = s"
| "strategy_of_sink (AegisRelaySink s b) = s"

interpretation sinks: signal_sink_contract "sink_send tab names sink"
  "\<lambda>t m. to_proto tab t (strategy_of_sink sink) = Inr m" "decision_is_approved_with_attestation names" for tab names sink
proof
  fix kw t cx r fx
  assume s: "sink_send tab names sink kw t cx = (r, fx)"
  show "fx = [] \<or> (\<exists>m. to_proto tab t (strategy_of_sink sink) = Inr m
      \<and> (fx = [SubmitSignal m] \<or> (\<exists>d call. kw_aegis kw m = Inr d \<and> decision_is_approved_with_attestation names d
            \<and> motor_call d m cx call \<and> fx = [SubmitSignal m, call])))"
  proof (cases sink)
    case LogSink
    then show ?thesis using s by (simp add: sink_send_def)
  next
    case (AegisGrpcSink strategy)
    then show ?thesis using s submit_to_aegis_shape(1) [of tab strategy kw t]
      by (fastforce simp: sink_send_def AegisGrpcSink_send_def split: prod.splits sum.splits)
  next
    case (AegisRelaySink strategy b)
    obtain r1 fx1 where a: "submit_to_aegis tab strategy kw t = (r1, fx1)" by force
    show ?thesis
    proof (cases "\<exists>m d. r1 = Inr (m, d) \<and> decision_is_approved_with_attestation names d")
      case True
      then obtain m d where r1: "r1 = Inr (m, d)" "decision_is_approved_with_attestation names d" by blast
      obtain r2 fx2 where b: "MotorGrpcSink_send tab b kw d m cx = (r2, fx2)" by force
      have "fx = fx1 @ fx2" using s AegisRelaySink a b r1
        by (auto simp: sink_send_def AegisRelaySink_send_def Let_def split: sum.splits)
      then show ?thesis using submit_to_aegis_shape(1) [OF a] MotorGrpcSink_shape(1) [OF b] r1 AegisRelaySink by auto
    next
      case False
      then have "fx = fx1" using s AegisRelaySink a
        by (auto simp: sink_send_def AegisRelaySink_send_def Let_def split: sum.splits prod.splits if_splits)
      then show ?thesis using submit_to_aegis_shape(1) [OF a] AegisRelaySink by auto
    qed
  qed
next
  fix kw t cx e fx
  assume "sink_send tab names sink kw t cx = (Inl e, fx)"
  then show "exc_name e = ''SinkError''" using submit_to_aegis_shape(2)
    by (cases sink) (fastforce simp: sink_send_def AegisGrpcSink_send_def AegisRelaySink_send_def Let_def
        split: prod.splits sum.splits if_splits)+
qed

section \<open>One message\<close>

lemma count_frame [simp]:
  "rs_effects (count_outcome n s) = rs_effects s" "rs_last_debate (count_outcome n s) = rs_last_debate s"
  by (simp_all add: count_outcome_def)

lemma flag_field_Inr [simp]: "flag_field kvs k = Inr b \<longleftrightarrow> jget kvs k = JvBool b"
  by (cases "jget kvs k") (simp_all add: flag_field_def)

lemma positive_int_case [simp]:
  "(case v of JvInt i \<Rightarrow> if 0 < i then Inr i else Inl e | _ \<Rightarrow> Inl e) = Inr x \<longleftrightarrow> v = JvInt x \<and> 0 < x"
  by (cases v) auto

lemma symbol_case [simp]:
  "(case v of JvStr s \<Rightarrow> f s | _ \<Rightarrow> Inl e) = Inr x \<longleftrightarrow> (\<exists>s. v = JvStr s \<and> f s = Inr x)"
  by (cases v) auto

lemma regime_case [simp]: "(case r of None \<Rightarrow> Inl e | Some x \<Rightarrow> Inr x) = Inr y \<longleftrightarrow> r = Some y"
  by (cases r) auto

lemma parse_snapshot_Inr:
  assumes "parse_snapshot_checked raw now age = Inr di"
  shows "MarketContext_new (di_context di) = Inr (di_context di) \<and> unit_float (di_regime_confidence di)
     \<and> di_regime di \<noteq> REGIME_UNKNOWN \<and> 0 < di_ingestion_ts_ns di
     \<and> of_int (now - di_ingestion_ts_ns di) \<le> fl (age * of_int NS_PER_S) \<and> - FUTURE_TOLERANCE_NS \<le> now - di_ingestion_ts_ns di
     \<and> (\<exists>kvs. decode_message raw = Inr kvs \<and> jget kvs ''is_stale'' = JvBool False \<and> jget kvs ''warmup'' = JvBool False
          \<and> jget kvs ''ingestion_ts_ns'' = JvInt (di_ingestion_ts_ns di) \<and> jget kvs ''symbol'' = JvStr (mk_symbol (di_context di)))"
proof -
  have p: "parse_snapshot raw now age = Inr di" using assms by (auto simp: parse_snapshot_checked_def split: sum.splits)
  then show ?thesis unfolding parse_snapshot_def rbind_eq_Inr
    by (auto simp: not_less MarketContext_new_def rbind_eq_Inr)
qed

text \<open>The message claims the cooldown of its symbol: everything before the debate let it pass.\<close>

definition claims :: "runner \<Rightarrow> runner_world \<Rightarrow> raw_message \<Rightarrow> runner_state \<Rightarrow> debate_input option" where
  "claims ru w raw s =
     (if ht_halted (halt_check (ru_halt ru) (rw_present_before w)) then None
      else case parse_snapshot_checked raw (rw_clock_ns w) (rn_max_context_age_s (ru_settings ru)) of
        Inl e \<Rightarrow> None
      | Inr di \<Rightarrow>
         if rn_symbols (ru_settings ru) \<noteq> [] \<and> mk_symbol (di_context di) \<notin> set (rn_symbols (ru_settings ru)) then None
         else if fst (cooldown_elapsed ru (rw_monotonic w) (mk_symbol (di_context di)) s) then Some di else None)"

lemma claims_Some:
  assumes "claims ru w raw s = Some di"
  shows "\<not> ht_halted (halt_check (ru_halt ru) (rw_present_before w))
     \<and> parse_snapshot_checked raw (rw_clock_ns w) (rn_max_context_age_s (ru_settings ru)) = Inr di
     \<and> (rn_symbols (ru_settings ru) = [] \<or> mk_symbol (di_context di) \<in> set (rn_symbols (ru_settings ru)))
     \<and> (\<forall>last \<in> set_option (map_of (rs_last_debate s) (mk_symbol (di_context di))).
          rn_min_debate_interval_s (ru_settings ru) \<le> fl (rw_monotonic w - last))"
  using assms by (auto simp: claims_def cooldown_elapsed_def not_less Let_def split: if_splits sum.splits)

lemma cooldown_frame:
  "rs_effects (snd (cooldown_elapsed ru now sy s)) = rs_effects s"
  "fst (cooldown_elapsed ru now sy (s\<lparr>rs_was_halted := b\<rparr>)) = fst (cooldown_elapsed ru now sy s)"
  "\<not> fst (cooldown_elapsed ru now sy s) \<Longrightarrow> snd (cooldown_elapsed ru now sy s) = s"
  by (auto simp: cooldown_elapsed_def Let_def)

text \<open>What a message leaves behind, in terms of its claim.\<close>

definition ready_state :: "runner \<Rightarrow> runner_world \<Rightarrow> debate_input \<Rightarrow> debate_state option" where
  "ready_state ru w di = initial_state ru di (rw_recall w)"

abbreviation debate_of :: "runner \<Rightarrow> runner_world \<Rightarrow> debate_state \<Rightarrow> exc + trade_signal \<times> debate_state option" where
  "debate_of ru w st \<equiv> run_debate_with_state (ru_reader ru) (ru_cognitive ru) (rn_order_quantity (ru_settings ru))
     (rn_sizer (ru_settings ru)) (rw_debate w) st"

lemma deliver_effects:
  assumes "deliver_signal ru kw t recordable cx s = (r, s')"
  obtains fx where "rs_effects s' = rs_effects s @ fx" "rs_last_debate s' = rs_last_debate s"
    "outgoing fx = [] \<or> ((ts_status t \<noteq> SIGNAL_ABSTAIN \<or> rn_emit_abstain (ru_settings ru))
       \<and> (\<exists>r. sink_send (ru_enums ru) (ru_names ru) (ru_sink ru) kw t (Some cx) = (r, outgoing fx)))"
proof -
  obtain r0 fx0 where k: "sink_send (ru_enums ru) (ru_names ru) (ru_sink ru) kw t (Some cx) = (r0, fx0)" by force
  have o: "outgoing fx0 = fx0" by (rule sinks.send_outgoing [OF k])
  define rec where "rec = (if recordable \<and> ru_has_writer ru then [WriteDebate (debate_record_args t)] else [])"
  have rec: "outgoing rec = []" "outgoing (fx0 @ rec) = fx0" using o by (simp_all add: rec_def outgoing_def)
  let ?go = "ts_status t \<noteq> SIGNAL_ABSTAIN \<or> rn_emit_abstain (ru_settings ru)"
  define fx where "fx = (if ?go then (case r0 of Inl e \<Rightarrow> fx0 | Inr x \<Rightarrow> fx0 @ rec) else rec)"
  have "rs_effects s' = rs_effects s @ fx" "rs_last_debate s' = rs_last_debate s"
    using assms k by (auto simp: deliver_signal_def Let_def add_effects_def fx_def rec_def split: sum.splits if_splits)
  moreover have "outgoing fx = [] \<or> (?go \<and> (\<exists>r. sink_send (ru_enums ru) (ru_names ru) (ru_sink ru) kw t (Some cx) = (r, outgoing fx)))"
    using k rec o by (auto simp: fx_def split: sum.split)
  ultimately show ?thesis by (rule that)
qed

lemma handle_message_cases:
  assumes "handle_message ru w raw s = (out, s')"
  obtains (quiet) "claims ru w raw s = None" "rs_effects s' = rs_effects s" "rs_last_debate s' = rs_last_debate s"
  | (claimed) di s1 fx where "claims ru w raw s = Some di"
      "s1 = snd (cooldown_elapsed ru (rw_monotonic w) (mk_symbol (di_context di)) (s\<lparr>rs_was_halted := False\<rparr>))"
      "rs_last_debate s' = rs_last_debate s1" "rs_effects s' = rs_effects s @ fx"
      "outgoing fx = [] \<or> (\<exists>st t final r. ready_state ru w di = Some st \<and> debate_of ru w st = Inr (t, final)
          \<and> \<not> ht_halted (halt_check (ru_halt ru) (rw_present_after w))
          \<and> (ts_status t \<noteq> SIGNAL_ABSTAIN \<or> rn_emit_abstain (ru_settings ru))
          \<and> sink_send (ru_enums ru) (ru_names ru) (ru_sink ru) (rw_sink w) t
              (Some (decision_context_of di final (ru_cognitive ru))) = (r, outgoing fx))"
proof (cases "claims ru w raw s")
  case None
  let ?s = "s\<lparr>rs_was_halted := ht_halted (halt_check (ru_halt ru) (rw_present_before w))\<rparr>"
  have "rs_effects s' = rs_effects s \<and> rs_last_debate s' = rs_last_debate s"
    using assms None cooldown_frame(2,3) [where s = s]
    by (auto simp: handle_message_def handle_snapshot_def claims_def runner_halted_def Let_def cooldown_elapsed_def
        split: prod.splits if_splits sum.splits bool.splits)
  then show ?thesis using quiet None by blast
next
  case (Some di)
  note c = claims_Some [OF Some]
  define s1 where "s1 = snd (cooldown_elapsed ru (rw_monotonic w) (mk_symbol (di_context di)) (s\<lparr>rs_was_halted := False\<rparr>))"
  have go: "cooldown_elapsed ru (rw_monotonic w) (mk_symbol (di_context di)) (s\<lparr>rs_was_halted := False\<rparr>) = (True, s1)"
    using Some cooldown_frame(2) [where s = s and b = False]
    by (auto simp: s1_def claims_def prod_eq_iff split: if_splits sum.splits)
  have s1: "rs_effects s1 = rs_effects s" using cooldown_frame(1) [of ru "rw_monotonic w"] by (simp add: s1_def)
  let ?body = "\<lambda>st t final. (case runner_halted ru (rw_present_after w) s1 of (halted2, s3) \<Rightarrow>
      if halted2 then (Inr HALTED, s3)
      else deliver_signal ru (rw_sink w) t (is_recordable final) (decision_context_of di final (ru_cognitive ru)) s3)"
  have h: "handle_snapshot ru w raw s = (case ready_state ru w di of None \<Rightarrow> (Inr SKIPPED_MEMORY, s1)
      | Some st \<Rightarrow> (case debate_of ru w st of Inl e \<Rightarrow> (Inl e, s1) | Inr (t, final) \<Rightarrow> ?body st t final))"
    using c go by (auto simp: handle_snapshot_def runner_halted_def Let_def ready_state_def)
  have e: "rs_effects s' = rs_effects (snd (handle_snapshot ru w raw s))" "rs_last_debate s' = rs_last_debate (snd (handle_snapshot ru w raw s))"
    using assms by (auto simp: handle_message_def Let_def split: prod.splits)
  show ?thesis
  proof (cases "\<exists>st t final. ready_state ru w di = Some st \<and> debate_of ru w st = Inr (t, final)
      \<and> \<not> ht_halted (halt_check (ru_halt ru) (rw_present_after w))")
    case True
    then obtain st t final where d: "ready_state ru w di = Some st" "debate_of ru w st = Inr (t, final)"
      "\<not> ht_halted (halt_check (ru_halt ru) (rw_present_after w))" by blast
    define s3 where "s3 = s1\<lparr>rs_was_halted := False\<rparr>"
    obtain r s4 where k: "deliver_signal ru (rw_sink w) t (is_recordable final)
        (decision_context_of di final (ru_cognitive ru)) s3 = (r, s4)" by force
    have s4: "rs_effects s' = rs_effects s4" "rs_last_debate s' = rs_last_debate s4"
      using e h d k by (simp_all add: runner_halted_def Let_def s3_def)
    from deliver_effects [OF k] obtain fx where "rs_effects s4 = rs_effects s3 @ fx" "rs_last_debate s4 = rs_last_debate s3"
      "outgoing fx = [] \<or> ((ts_status t \<noteq> SIGNAL_ABSTAIN \<or> rn_emit_abstain (ru_settings ru))
       \<and> (\<exists>r. sink_send (ru_enums ru) (ru_names ru) (ru_sink ru) (rw_sink w) t
           (Some (decision_context_of di final (ru_cognitive ru))) = (r, outgoing fx)))" .
    then show ?thesis using claimed [OF Some s1_def, of fx] s4 s1 d by (simp add: s3_def)
  next
    case False
    then have "rs_effects s' = rs_effects s1" "rs_last_debate s' = rs_last_debate s1"
      using e h by (auto simp: runner_halted_def Let_def split: option.splits sum.splits prod.splits if_splits)
    then show ?thesis using claimed [OF Some s1_def, of "[]"] s1 by (simp add: outgoing_def)
  qed
qed

lemma message_outgoing:
  assumes "handle_message ru w raw s = (out, s')"
  shows "\<exists>fx. rs_effects s' = rs_effects s @ fx \<and> (outgoing fx = [] \<or>
     (\<exists>di st t final m cx. \<not> ht_halted (halt_check (ru_halt ru) (rw_present_before w))
        \<and> \<not> ht_halted (halt_check (ru_halt ru) (rw_present_after w))
        \<and> parse_snapshot_checked raw (rw_clock_ns w) (rn_max_context_age_s (ru_settings ru)) = Inr di
        \<and> of_int (rw_clock_ns w - di_ingestion_ts_ns di) \<le> fl (rn_max_context_age_s (ru_settings ru) * of_int NS_PER_S)
        \<and> (rn_symbols (ru_settings ru) = [] \<or> mk_symbol (di_context di) \<in> set (rn_symbols (ru_settings ru)))
        \<and> list_all (\<lambda>last. rn_min_debate_interval_s (ru_settings ru) \<le> fl (rw_monotonic w - last))
             (case map_of (rs_last_debate s) (mk_symbol (di_context di)) of None \<Rightarrow> [] | Some a \<Rightarrow> [a])
        \<and> initial_state ru di (rw_recall w) = Some st \<and> debate_of ru w st = Inr (t, final)
        \<and> (ts_status t \<noteq> SIGNAL_ABSTAIN \<or> rn_emit_abstain (ru_settings ru))
        \<and> cx = decision_context_of di final (ru_cognitive ru)
        \<and> to_proto (ru_enums ru) t (strategy_of_sink (ru_sink ru)) = Inr m
        \<and> (outgoing fx = [SubmitSignal m]
           \<or> (\<exists>d call. kw_aegis (rw_sink w) m = Inr d \<and> decision_is_approved_with_attestation (ru_names ru) d
                \<and> motor_call d m (Some cx) call \<and> outgoing fx = [SubmitSignal m, call]))))"
  using assms
proof (cases rule: handle_message_cases)
  case quiet
  then show ?thesis by (intro exI [of _ "[]"]) (simp add: outgoing_def)
next
  case (claimed di s1 fx)
  note c = claims_Some [OF claimed(1)]
  show ?thesis
  proof (cases "outgoing fx = []")
    case True
    then show ?thesis using claimed(4) by blast
  next
    case False
    with claimed(5) obtain st t final r where d: "initial_state ru di (rw_recall w) = Some st" "debate_of ru w st = Inr (t, final)"
      "\<not> ht_halted (halt_check (ru_halt ru) (rw_present_after w))" "ts_status t \<noteq> SIGNAL_ABSTAIN \<or> rn_emit_abstain (ru_settings ru)"
      "sink_send (ru_enums ru) (ru_names ru) (ru_sink ru) (rw_sink w) t (Some (decision_context_of di final (ru_cognitive ru)))
         = (r, outgoing fx)"
      unfolding ready_state_def by blast
    from sinks.shape [OF d(5)] False obtain m where m: "to_proto (ru_enums ru) t (strategy_of_sink (ru_sink ru)) = Inr m"
      "outgoing fx = [SubmitSignal m] \<or> (\<exists>d call. kw_aegis (rw_sink w) m = Inr d
          \<and> decision_is_approved_with_attestation (ru_names ru) d
          \<and> motor_call d m (Some (decision_context_of di final (ru_cognitive ru))) call \<and> outgoing fx = [SubmitSignal m, call])"
      by blast
    have p: "of_int (rw_clock_ns w - di_ingestion_ts_ns di) \<le> fl (rn_max_context_age_s (ru_settings ru) * of_int NS_PER_S)"
      using parse_snapshot_Inr c by blast
    have l: "list_all (\<lambda>last. rn_min_debate_interval_s (ru_settings ru) \<le> fl (rw_monotonic w - last))
        (case map_of (rs_last_debate s) (mk_symbol (di_context di)) of None \<Rightarrow> [] | Some a \<Rightarrow> [a])"
      using c by (auto split: option.split)
    show ?thesis
      by (rule exI [of _ fx], rule conjI [OF claimed(4)], rule disjI2, rule exI [of _ di], rule exI [of _ st], rule exI [of _ t],
          rule exI [of _ final], rule exI [of _ m], rule exI [of _ "decision_context_of di final (ru_cognitive ru)"])
        (use c d m p l in blast)
  qed
qed

text \<open>
  C7: What it takes for a signal to leave the runner. A message adds at most one submission to Aegis
  and at most one call to the motor after it. A submission happens only if the halt gate was open
  before the debate and again after it, the snapshot was a valid, fresh message of an allowed symbol
  whose cooldown had elapsed, and the debate over it ended in the very signal that is submitted,
  which abstains only if the settings ask to emit abstentions. The motor is called only with a
  decision that Aegis gave on that message, approved it and attested, together with the signal and
  the context of the debate.
\<close>

theorem signal_leaves_only_guarded:
  assumes "handle_message ru w raw s = (out, s')"
  shows "\<exists>fx. rs_effects s' = rs_effects s @ fx \<and> (outgoing fx = [] \<or>
     (\<exists>di st t final m cx. \<not> ht_halted (halt_check (ru_halt ru) (rw_present_before w))
        \<and> \<not> ht_halted (halt_check (ru_halt ru) (rw_present_after w))
        \<and> parse_snapshot_checked raw (rw_clock_ns w) (rn_max_context_age_s (ru_settings ru)) = Inr di
        \<and> of_int (rw_clock_ns w - di_ingestion_ts_ns di) \<le> fl (rn_max_context_age_s (ru_settings ru) * of_int NS_PER_S)
        \<and> (rn_symbols (ru_settings ru) = [] \<or> mk_symbol (di_context di) \<in> set (rn_symbols (ru_settings ru)))
        \<and> list_all (\<lambda>last. rn_min_debate_interval_s (ru_settings ru) \<le> fl (rw_monotonic w - last))
             (case map_of (rs_last_debate s) (mk_symbol (di_context di)) of None \<Rightarrow> [] | Some a \<Rightarrow> [a])
        \<and> initial_state ru di (rw_recall w) = Some st \<and> debate_of ru w st = Inr (t, final)
        \<and> (ts_status t \<noteq> SIGNAL_ABSTAIN \<or> rn_emit_abstain (ru_settings ru))
        \<and> cx = decision_context_of di final (ru_cognitive ru)
        \<and> to_proto (ru_enums ru) t (strategy_of_sink (ru_sink ru)) = Inr m
        \<and> (outgoing fx = [SubmitSignal m]
           \<or> (\<exists>d call. kw_aegis (rw_sink w) m = Inr d \<and> decision_is_approved_with_attestation (ru_names ru) d
                \<and> motor_call d m (Some cx) call \<and> outgoing fx = [SubmitSignal m, call]))))"
  using message_outgoing [OF assms] .

section \<open>The cooldown over many messages\<close>

fun run_messages :: "runner \<Rightarrow> (runner_world \<times> raw_message) list \<Rightarrow> runner_state \<Rightarrow> runner_state" where
  "run_messages ru [] s = s"
| "run_messages ru ((w, raw) # ms) s = run_messages ru ms (snd (handle_message ru w raw s))"

text \<open>The times at which a symbol was taken into debate.\<close>

fun debate_times :: "runner \<Rightarrow> (runner_world \<times> raw_message) list \<Rightarrow> runner_state \<Rightarrow> pystr \<Rightarrow> rat list" where
  "debate_times ru [] s sy = []"
| "debate_times ru ((w, raw) # ms) s sy =
     (case claims ru w raw s of None \<Rightarrow> []
      | Some di \<Rightarrow> if mk_symbol (di_context di) = sy then [rw_monotonic w] else [])
     @ debate_times ru ms (snd (handle_message ru w raw s)) sy"

definition tracked_ok :: "runner \<Rightarrow> runner_state \<Rightarrow> bool" where
  "tracked_ok ru s \<longleftrightarrow> distinct (map fst (rs_last_debate s)) \<and> fst ` set (rs_last_debate s) \<subseteq> set (rn_symbols (ru_settings ru))"

lemma tracked_length:
  assumes "tracked_ok ru s"
  shows "length (rs_last_debate s) \<le> length (rn_symbols (ru_settings ru))"
proof -
  have "length (rs_last_debate s) = card (fst ` set (rs_last_debate s))"
    using assms distinct_card [of "map fst (rs_last_debate s)"] by (simp add: tracked_ok_def)
  also have "\<dots> \<le> card (set (rn_symbols (ru_settings ru)))" using assms by (intro card_mono) (simp_all add: tracked_ok_def)
  also have "\<dots> \<le> length (rn_symbols (ru_settings ru))" by (rule card_length)
  finally show ?thesis .
qed

lemma tracked_step:
  assumes "tracked_ok ru s" "rn_symbols (ru_settings ru) \<noteq> []" "int (length (rn_symbols (ru_settings ru))) < MAX_TRACKED_SYMBOLS"
  shows "tracked_ok ru (snd (handle_message ru w raw s))
     \<and> rs_last_debate (snd (handle_message ru w raw s)) = (case claims ru w raw s of None \<Rightarrow> rs_last_debate s
         | Some di \<Rightarrow> AList.update (mk_symbol (di_context di)) (rw_monotonic w) (rs_last_debate s))"
proof -
  obtain out s' where h: "handle_message ru w raw s = (out, s')" by force
  from h show ?thesis
  proof (cases rule: handle_message_cases)
    case quiet
    then show ?thesis using h assms(1) by (simp add: tracked_ok_def)
  next
    case (claimed di s1 fx)
    have "\<not> MAX_TRACKED_SYMBOLS \<le> int (length (rs_last_debate s))" using tracked_length [OF assms(1)] assms(3) by linarith
    then have l: "rs_last_debate s' = AList.update (mk_symbol (di_context di)) (rw_monotonic w) (rs_last_debate s)"
      using claimed(1-3) claims_Some [OF claimed(1)] by (auto simp: cooldown_elapsed_def Let_def not_less)
    moreover have "mk_symbol (di_context di) \<in> set (rn_symbols (ru_settings ru))" using claims_Some [OF claimed(1)] assms(2) by blast
    moreover have "fst ` set (AList.update k v al) = insert k (fst ` set al)" for k :: pystr and v :: rat and al
      by (simp add: dom_update)
    ultimately show ?thesis using h claimed(1) assms(1) by (simp add: tracked_ok_def distinct_update)
  qed
qed

lemma spaced_from:
  assumes "tracked_ok ru s" "rn_symbols (ru_settings ru) \<noteq> []" "int (length (rn_symbols (ru_settings ru))) < MAX_TRACKED_SYMBOLS"
  shows "successively (\<lambda>a b. rn_min_debate_interval_s (ru_settings ru) \<le> fl (b - a))
     ((case map_of (rs_last_debate s) sy of None \<Rightarrow> [] | Some a \<Rightarrow> [a]) @ debate_times ru ms s sy)"
  using assms(1)
proof (induction ms arbitrary: s)
  case Nil
  then show ?case by (simp split: option.split)
next
  case (Cons wr ms)
  obtain w raw where wr: "wr = (w, raw)" by force
  let ?t = "snd (handle_message ru w raw s)"
  note st = tracked_step [OF Cons.prems assms(2,3), of w raw]
  note ih = Cons.IH [of ?t]
  show ?case
  proof (cases "claims ru w raw s")
    case None
    then show ?thesis using ih st wr by simp
  next
    case (Some di)
    have u: "map_of (rs_last_debate ?t) sy = (if mk_symbol (di_context di) = sy then Some (rw_monotonic w)
        else map_of (rs_last_debate s) sy)" using st Some by (simp add: update_conv')
    show ?thesis
    proof (cases "mk_symbol (di_context di) = sy")
      case True
      have "rn_min_debate_interval_s (ru_settings ru) \<le> fl (rw_monotonic w - a)" if "map_of (rs_last_debate s) sy = Some a" for a
        using claims_Some [OF Some] that True by simp
      then show ?thesis using ih st wr Some u True by (auto split: option.split)
    next
      case False
      then show ?thesis using ih st wr Some u by simp
    qed
  qed
qed

text \<open>
  C9: Debates of a symbol keep their distance. With an allowlist smaller than the table of tracked
  symbols, any two successive debates of the same symbol are at least the configured interval apart
  on the monotonic clock, over any sequence of messages and whatever fails in between; a failed or
  discarded debate counts too.
\<close>

theorem debates_keep_their_distance:
  assumes "rn_symbols (ru_settings ru) \<noteq> []" "int (length (rn_symbols (ru_settings ru))) < MAX_TRACKED_SYMBOLS"
    and "rs_last_debate s = []"
  shows "successively (\<lambda>a b. rn_min_debate_interval_s (ru_settings ru) \<le> fl (b - a)) (debate_times ru ms s sy)"
  using spaced_from [OF _ assms(1,2), of s sy ms] assms(3) by (simp add: tracked_ok_def)

section \<open>The queue\<close>

fun arrivals :: "run_step list \<Rightarrow> raw_message list" where
  "arrivals [] = []"
| "arrivals (Arrive raw # steps) = raw # arrivals steps"
| "arrivals (Handle w # steps) = arrivals steps"

lemma suffix_tl: "suffix (xs :: 'a list) (tl ys @ zs) \<Longrightarrow> suffix xs (ys @ zs)"
  by (cases ys) (auto intro: suffix_ConsI)

text \<open>
  The queue never grows beyond its bound and only ever drops its oldest messages: what waits is a
  suffix of what arrived, in order, whatever is pumped and handled in between.
\<close>

theorem queue_is_bounded_suffix:
  assumes "int (length (ro_queue r)) \<le> QUEUE_SIZE"
  shows "int (length (ro_queue (run_steps ru steps r))) \<le> QUEUE_SIZE
     \<and> suffix (ro_queue (run_steps ru steps r)) (ro_queue r @ arrivals steps)"
  using assms
proof (induction ru steps r rule: run_steps.induct)
  case (2 ru raw steps r)
  have q: "int (length (ro_queue (pump raw r))) \<le> QUEUE_SIZE"
    using "2.prems" by (auto simp: pump_def QUEUE_SIZE_def)
  have "suffix (ro_queue (run_steps ru steps (pump raw r))) (ro_queue (pump raw r) @ arrivals steps)" using "2.IH" q by blast
  then show ?case using "2.IH" q suffix_tl [of _ "ro_queue r" "raw # arrivals steps"] by (auto simp: pump_def split: if_splits)
next
  case (3 ru w steps r)
  then show ?case using suffix_tl [of _ "ro_queue r" "arrivals steps"] by (auto simp: run_once_def split: list.splits)
qed simp

section \<open>A message that becomes an order\<close>

definition demo_snapshot :: jv where
  "demo_snapshot = JvObj [(''is_stale'', JvBool False), (''warmup'', JvBool False), (''ingestion_ts_ns'', JvInt 900),
     (''regime_label'', JvStr ''CRISIS''), (''regime_confidence'', JvInt 1), (''mid_price'', JvInt 150), (''z_score'', JvInt 0),
     (''mad_score'', JvInt 0), (''order_flow_imbalance'', JvInt 0), (''realized_volatility'', JvInt 1), (''adv_30d'', JvInt 1000),
     (''symbol'', JvStr ''AAPL'')]"

definition demo_raw :: raw_message where
  "demo_raw = RawStr (dumps demo_snapshot)"

definition demo_enums :: enum_table where
  "demo_enums fld = (if fld = ''side'' then [(''SIDE_UNKNOWN'', 0), (''BUY'', 1), (''SELL'', 2), (''SELL_SHORT'', 3)]
     else if fld = ''status'' then [(''SIGNAL_PENDING'', 1), (''SIGNAL_ABSTAIN'', 5)] else [(''CRISIS'', 5)])"

definition demo_runner :: runner where
  "demo_runner = \<lparr>ru_settings = \<lparr>rn_order_quantity = Fin 10, rn_min_debate_interval_s = 60, rn_max_context_age_s = 5,
       rn_symbols = [''AAPL''], rn_emit_abstain = False, rn_memory_required = True, rn_sizer = None\<rparr>,
     ru_cognitive = demo_settings, ru_reader = demo_reader, ru_sink = AegisRelaySink ''st'' True,
     ru_halt = HaltGate_new Map.empty, ru_enums = demo_enums,
     ru_names = (\<lambda>n. if n = 1 then Some ''DECISION_APPROVED'' else None), ru_has_writer = False\<rparr>"

definition demo_world :: runner_world where
  "demo_world = \<lparr>rw_present_before = Inr False, rw_present_after = Inr False, rw_clock_ns = 1000, rw_monotonic = 100,
     rw_recall = None, rw_debate = demo_debate\<lparr>dw_signal_id := ''s1''\<rparr>,
     rw_sink = \<lparr>kw_aegis = (\<lambda>m. Inr ex_decision_msg), kw_motor = (\<lambda>call. Inl (Exc ''TimeoutError'' []))\<rparr>\<rparr>"

definition demo_start :: runner_state where
  "demo_start = \<lparr>rs_last_debate = [], rs_was_halted = False, rs_counters = [], rs_effects = []\<rparr>"

definition demo_handled :: runner_state where
  "demo_handled = snd (handle_message demo_runner demo_world demo_raw demo_start)"

lemma demo_calls:
  "case rs_effects demo_handled of [SubmitSignal m, ExecuteWithContext r] \<Rightarrow>
       er_decision r = ex_decision_msg \<and> er_signal r = m \<and> dc_symbol (er_context r) = ''AAPL''
       \<and> map_of (sp_scalars m) ''signal_id'' = Some (FStr ''s1'') \<and> map_of (sp_scalars m) ''symbol'' = Some (FStr ''AAPL'')
       \<and> sp_strategy_id m = ''st''
   | _ \<Rightarrow> False"
  by code_simp

lemma two_calls:
  "(case fx of [SubmitSignal m, ExecuteWithContext r] \<Rightarrow> P m r | _ \<Rightarrow> False)
     \<longleftrightarrow> (\<exists>m r. fx = [SubmitSignal m, ExecuteWithContext r] \<and> P m r)"
proof (cases fx)
  case (Cons a fx1)
  then show ?thesis by (cases a; cases fx1; cases "hd fx1"; cases "tl fx1") auto
qed simp

lemma demo_called:
  obtains m r where "rs_effects demo_handled = [SubmitSignal m, ExecuteWithContext r]" "er_decision r = ex_decision_msg"
    "er_signal r = m" "dc_symbol (er_context r) = ''AAPL''" "map_of (sp_scalars m) ''signal_id'' = Some (FStr ''s1'')"
    "map_of (sp_scalars m) ''symbol'' = Some (FStr ''AAPL'')" "sp_strategy_id m = ''st''"
  using demo_calls unfolding two_calls by blast

lemma demo_message: "handle_message demo_runner demo_world demo_raw demo_start
    = (fst (handle_message demo_runner demo_world demo_raw demo_start), demo_handled)"
  by (simp add: demo_handled_def)

theorem signal_leaves_only_guarded_witness:
  "\<exists>di m call. parse_snapshot_checked demo_raw 1000 5 = Inr di \<and> rs_effects demo_handled = [SubmitSignal m, call]
     \<and> motor_call ex_decision_msg m (Some (er_context (case call of ExecuteWithContext r \<Rightarrow> r))) call"
proof -
  obtain m r where e: "rs_effects demo_handled = [SubmitSignal m, ExecuteWithContext r]" by (rule demo_called)
  from signal_leaves_only_guarded [OF demo_message] obtain di m' call d cx where
    "parse_snapshot_checked demo_raw (rw_clock_ns demo_world) (rn_max_context_age_s (ru_settings demo_runner)) = Inr di"
    "kw_aegis (rw_sink demo_world) m' = Inr d" "motor_call d m' (Some cx) call" "[SubmitSignal m, ExecuteWithContext r] = [SubmitSignal m', call]"
    using e by (auto simp: demo_start_def outgoing_def)
  then show ?thesis using e by (auto simp: demo_world_def demo_runner_def motor_call_def)
qed

theorem debates_keep_their_distance_witness:
  "successively (\<lambda>a b. 60 \<le> fl (b - a)) (debate_times demo_runner
     [(demo_world, demo_raw), (demo_world\<lparr>rw_monotonic := 130\<rparr>, demo_raw), (demo_world\<lparr>rw_monotonic := 200\<rparr>, demo_raw)]
     demo_start ''AAPL'')"
proof -
  have "rn_symbols (ru_settings demo_runner) \<noteq> []" "int (length (rn_symbols (ru_settings demo_runner))) < MAX_TRACKED_SYMBOLS"
    "rs_last_debate demo_start = []" by (simp_all add: demo_runner_def demo_start_def MAX_TRACKED_SYMBOLS_def)
  moreover have "rn_min_debate_interval_s (ru_settings demo_runner) = 60" by (simp add: demo_runner_def)
  ultimately show ?thesis using debates_keep_their_distance [of demo_runner demo_start] by metis
qed

theorem queue_is_bounded_suffix_witness:
  "suffix (ro_queue (run_steps demo_runner [Arrive demo_raw, Handle demo_world, Arrive demo_raw] \<lparr>ro_queue = [], ro_runner = demo_start\<rparr>))
     [demo_raw, demo_raw]"
  using queue_is_bounded_suffix [of "\<lparr>ro_queue = [], ro_runner = demo_start\<rparr>" demo_runner
      "[Arrive demo_raw, Handle demo_world, Arrive demo_raw]"] by (simp add: QUEUE_SIZE_def)

end
