(* ===== verification/Relay.thy ===== *)
theory Relay
  imports Cognitive_Properties
begin

text \<open>
  From a debate to a broker: the runner of the cognitive core with its relay sink, and the execution
  motor behind it. Aegis stands between the two: its answer is part of the runner's world.
\<close>

section \<open>The request as the motor reads it\<close>

definition proto_text :: "signal_proto \<Rightarrow> pystr \<Rightarrow> pystr" where
  "proto_text m k = (case map_of (sp_scalars m) k of Some (FStr s) \<Rightarrow> s | _ \<Rightarrow> [])"

definition request_view :: "execute_request \<Rightarrow> request_msg" where
  "request_view r =
     \<lparr>rq_decision = er_decision r,
      rq_context = Some
        \<lparr>cx_signal = Some \<lparr>sg_signal_id = proto_text (er_signal r) ''signal_id'', sg_symbol = proto_text (er_signal r) ''symbol'',
           sg_strategy_id = sp_strategy_id (er_signal r)\<rparr>,
         cx_snapshot_symbol = Some (dc_symbol (er_context r))\<rparr>\<rparr>"

lemma to_proto_text:
  assumes "to_proto tab t strategy = Inr m"
  shows "proto_text m ''signal_id'' = ts_signal_id t" "proto_text m ''symbol'' = ts_symbol t" "sp_strategy_id m = strategy"
  using assms by (auto simp: to_proto_def rbind_eq_Inr proto_text_def scalar_fields_def)

section \<open>What the motor sends for a request\<close>

lemma attested_of_order:
  assumes "attested_of m d now = Inr (Inr ao)"
  shows "o_signal_id (ao_order ao) = msg_order_signal d \<and> o_symbol (ao_order ao) = msg_order_symbol d"
proof -
  from assms obtain om am where "dm_order d = Some om" "dm_attestation d = Some am"
    "attested_order_from_proto (m_sha m) om am (mc_allow_short_selling (m_config m)) = Inr ao"
    by (auto simp: attested_of_def rbind_eq_Inr split: if_splits option.splits sum.splits)
  then show ?thesis using build_order_Inr(3,4) [OF attested_order_from_proto_Inr(1)]
    by (auto simp: msg_order_signal_def msg_order_symbol_def)
qed

lemma handle_request_sent:
  assumes "handle_request m w rq now g ref rep s = (res, t, reps)" "ms_sent t \<noteq> ms_sent s"
    and "rq_context rq = Some cx" "cx_signal cx = Some sg"
  shows "\<exists>v q. ms_sent t = ms_sent s @ [(v, q)] \<and> q_client_order_id q = sg_signal_id sg \<and> q_symbol q = sg_symbol sg"
  using assms(1)
proof (cases rule: handle_request_cases)
  case (ran ao cx')
  have "execute m w ao ref (gates_release_check g (rq_decision rq) cx') s = (res, t)"
    using execute_and_report_eq [OF ran(5)] by simp
  then obtain v n where t: "ms_sent t = ms_sent s @ [(v, request_of (ao_order ao))]"
    "submission_gate m w ao (w_clock w (ms_reads s)) (gates_release_check g (rq_decision rq) cx') (snd (ms_clock w s)) v n"
    using execute_outcome [of s m w ao ref "gates_release_check g (rq_decision rq) cx'"] assms(2) by auto
  have "sg_signal_id sg = msg_order_signal (rq_decision rq)" "sg_symbol sg = msg_order_symbol (rq_decision rq)"
    using ran(2,3) assms(3,4) by (auto simp: bind_context_def split: option.splits if_splits)
  then show ?thesis using t submission_gate_ids [OF t(2)] attested_of_order [OF ran(1)] by (simp add: request_of_def)
qed (use assms(2) in simp)

lemma context_rpc_sent:
  assumes "ExecuteWithContext_rpc m w (request_view r) rep g s = (ack, t, reps)" "ms_sent t \<noteq> ms_sent s"
  shows "\<exists>v q. ms_sent t = ms_sent s @ [(v, q)] \<and> q_client_order_id q = proto_text (er_signal r) ''signal_id''
     \<and> q_symbol q = proto_text (er_signal r) ''symbol''"
proof -
  obtain now s1 where c: "ms_clock w s = (now, s1)" by force
  then have s1: "ms_sent s1 = ms_sent s" by (auto simp: ms_clock_def)
  obtain res t' reps' where h: "handle_request m w (request_view r) now g None rep s1 = (res, t', reps')" by (metis prod_cases3)
  then have "t' = t" using assms(1) c by (auto simp: ExecuteWithContext_rpc_def map_fst3_def split: sum.splits)
  moreover obtain cx sg where c: "rq_context (request_view r) = Some cx" "cx_signal cx = Some sg"
    "sg_signal_id sg = proto_text (er_signal r) ''signal_id''" "sg_symbol sg = proto_text (er_signal r) ''symbol''"
    by (simp add: request_view_def)
  ultimately show ?thesis using handle_request_sent [OF h _ c(1,2)] assms(2) s1 c(3,4) by simp
qed

lemma plain_rpc_sent:
  assumes "Execute_rpc m w d rep g s = (ack, t, reps)" "requires_context g"
  shows "ms_sent t = ms_sent s"
proof -
  obtain now s1 where c: "ms_clock w s = (now, s1)" by force
  then have s1: "ms_sent s1 = ms_sent s" by (auto simp: ms_clock_def)
  then show ?thesis using assms c
    by (auto simp: Execute_rpc_def handle_decision_def map_fst3_def split: sum.splits)
qed

section \<open>Runner and motor together\<close>

text \<open>
  The runner handles messages; a call it makes to the motor may arrive or be lost, and its answer may
  be lost on the way back. The motor's configuration and environment may differ from call to call.
\<close>

inductive relayed :: "runner \<Rightarrow> 'm compliance_gates \<Rightarrow> runner_state \<Rightarrow> 'm motor_state \<Rightarrow> bool" for ru g where
  start: "rs_effects s = [] \<Longrightarrow> ms_sent mst = [] \<Longrightarrow> relayed ru g s mst"
| message: "relayed ru g s mst \<Longrightarrow> handle_message ru w raw s = (out, s') \<Longrightarrow> relayed ru g s' mst"
| executed: "relayed ru g s mst \<Longrightarrow> handle_message ru w raw s = (out, s') \<Longrightarrow> rs_effects s' = rs_effects s @ fx \<Longrightarrow>
     ExecuteWithContext r \<in> set fx \<Longrightarrow> ExecuteWithContext_rpc m mw (request_view r) rep g mst = (ack, mst', reps) \<Longrightarrow>
     relayed ru g s' mst'"
| plain: "relayed ru g s mst \<Longrightarrow> handle_message ru w raw s = (out, s') \<Longrightarrow> rs_effects s' = rs_effects s @ fx \<Longrightarrow>
     ExecutePlain d \<in> set fx \<Longrightarrow> Execute_rpc m mw d rep g mst = (ack, mst', reps) \<Longrightarrow> relayed ru g s' mst'"

text \<open>A signal some debate of this runner ended in, over a valid snapshot, that does not abstain.\<close>

definition debated :: "runner \<Rightarrow> trade_signal \<Rightarrow> bool" where
  "debated ru t \<longleftrightarrow> (\<exists>w st final. state_ok st \<and> debate_of ru w st = Inr (t, final) \<and> ts_status t \<noteq> SIGNAL_ABSTAIN)"

definition submitted :: "runner \<Rightarrow> runner_state \<Rightarrow> trade_signal \<Rightarrow> bool" where
  "submitted ru s t \<longleftrightarrow>
     (\<exists>m. to_proto (ru_enums ru) t (strategy_of_sink (ru_sink ru)) = Inr m \<and> SubmitSignal m \<in> set (rs_effects s))"

definition backed_order :: "runner \<Rightarrow> runner_state \<Rightarrow> broker_order_request \<Rightarrow> bool" where
  "backed_order ru s q \<longleftrightarrow> (\<exists>t. debated ru t \<and> submitted ru s t \<and> q_client_order_id q = ts_signal_id t \<and> q_symbol q = ts_symbol t)"

lemma initial_state_ok:
  assumes "parse_snapshot_checked raw now age = Inr di" "initial_state ru di found = Some st"
  shows "state_ok st"
  using parse_snapshot_Inr [OF assms(1)] assms(2)
  by (auto simp: initial_state_def apply_recall_def state_ok_def Let_def split: if_splits)

lemma message_grows: "handle_message ru w raw s = (out, s') \<Longrightarrow> \<exists>fx. rs_effects s' = rs_effects s @ fx"
  using message_outgoing by blast

lemma backed_order_mono:
  "backed_order ru s q \<Longrightarrow> set (rs_effects s) \<subseteq> set (rs_effects s') \<Longrightarrow> backed_order ru s' q"
  by (auto simp: backed_order_def submitted_def)

lemma context_call_backed:
  assumes "handle_message ru w raw s = (out, s')" "rs_effects s' = rs_effects s @ fx" "ExecuteWithContext r \<in> set fx"
    and "\<not> rn_emit_abstain (ru_settings ru)" "q_client_order_id q = proto_text (er_signal r) ''signal_id''"
    and "q_symbol q = proto_text (er_signal r) ''symbol''"
  shows "backed_order ru s' q"
proof -
  from message_outgoing [OF assms(1)] assms(2) have fx: "outgoing fx = [] \<or>
     (\<exists>di st t final m. parse_snapshot_checked raw (rw_clock_ns w) (rn_max_context_age_s (ru_settings ru)) = Inr di
        \<and> initial_state ru di (rw_recall w) = Some st \<and> debate_of ru w st = Inr (t, final)
        \<and> (ts_status t \<noteq> SIGNAL_ABSTAIN \<or> rn_emit_abstain (ru_settings ru))
        \<and> to_proto (ru_enums ru) t (strategy_of_sink (ru_sink ru)) = Inr m
        \<and> (outgoing fx = [SubmitSignal m] \<or> (\<exists>d call cx. motor_call d m cx call \<and> outgoing fx = [SubmitSignal m, call])))"
    by auto
  have r: "ExecuteWithContext r \<in> set (outgoing fx)" using assms(3) by (simp add: outgoing_def)
  with fx obtain di st t final m d call cx where
    p: "parse_snapshot_checked raw (rw_clock_ns w) (rn_max_context_age_s (ru_settings ru)) = Inr di"
      "initial_state ru di (rw_recall w) = Some st" "debate_of ru w st = Inr (t, final)" "ts_status t \<noteq> SIGNAL_ABSTAIN"
      "to_proto (ru_enums ru) t (strategy_of_sink (ru_sink ru)) = Inr m" "motor_call d m cx call"
      "outgoing fx = [SubmitSignal m, call]" using assms(4) by auto
  have m: "er_signal r = m" using p(6,7) r by (auto simp: motor_call_def)
  have "SubmitSignal m \<in> set (outgoing fx)" using p(7) by simp
  then have "SubmitSignal m \<in> set fx" by (simp add: outgoing_def)
  then have "submitted ru s' t" using p(5) assms(2) by (auto simp: submitted_def)
  moreover have "debated ru t" using p(3,4) initial_state_ok [OF p(1,2)] unfolding debated_def by blast
  ultimately show ?thesis using to_proto_text [OF p(5)] m assms(5,6) by (auto simp: backed_order_def)
qed

lemma relayed_inv:
  assumes "relayed ru g s mst" "requires_context g" "\<not> rn_emit_abstain (ru_settings ru)"
  shows "\<forall>x \<in> set (ms_sent mst). backed_order ru s (snd x)"
  using assms(1)
proof (induction rule: relayed.induct)
  case (message s mst w raw out s')
  then show ?case using message_grows [OF message.hyps(2)] backed_order_mono [of ru s _ s'] by fastforce
next
  case (executed s mst w raw out s' fx r m mw rep ack mst' reps)
  have old: "\<forall>x \<in> set (ms_sent mst). backed_order ru s' (snd x)"
    using executed.IH executed.hyps(3) backed_order_mono [of ru s _ s'] by simp
  show ?case
  proof (cases "ms_sent mst' = ms_sent mst")
    case False
    from context_rpc_sent [OF executed.hyps(5) False] obtain v q where "ms_sent mst' = ms_sent mst @ [(v, q)]"
      "q_client_order_id q = proto_text (er_signal r) ''signal_id''" "q_symbol q = proto_text (er_signal r) ''symbol''" by blast
    then show ?thesis using old context_call_backed [OF executed.hyps(2-4) assms(3)] by auto
  qed (use old in simp)
next
  case (plain s mst w raw out s' fx d m mw rep ack mst' reps)
  then show ?case using plain_rpc_sent [OF plain.hyps(5) assms(2)] backed_order_mono [of ru s _ s'] by simp
qed simp

lemma debated_earned:
  assumes "debated ru t" "CognitiveSettings_new (ru_cognitive ru) = Inr (ru_cognitive ru)"
  shows "\<exists>dw st b r v. state_ok st \<and> ts_symbol t = mk_symbol (ds_context st)
     \<and> blue_answer (ru_reader ru) (ru_cognitive ru) dw st = Inr b
     \<and> red_answer (ru_reader ru) (ru_cognitive ru) dw st = Inr r
     \<and> judge_answer (ru_reader ru) (ru_cognitive ru) dw st = Inr v
     \<and> \<not> bt_forced b \<and> bt_side b \<noteq> SIDE_UNKNOWN \<and> \<not> rc_forced r \<and> \<not> jd_defaulted v
     \<and> 1 / 2 \<le> jd_omega v \<and> cs_omega_threshold (ru_cognitive ru) \<le> jd_omega v \<and> 0 < expected_value v
     \<and> ts_side t = jd_side v \<and> jd_side v \<noteq> SIDE_UNKNOWN \<and> positive_quantity (ts_quantity t)"
proof -
  from assms(1) obtain w st final where d: "state_ok st" "debate_of ru w st = Inr (t, final)" "ts_status t \<noteq> SIGNAL_ABSTAIN"
    by (auto simp: debated_def)
  note r = debate_returned [OF d(2)]
  let ?q = "quantity_used (rn_order_quantity (ru_settings ru)) (rn_sizer (ru_settings ru))"
  from debate_outcome [OF assms(2) d(1), of "rw_debate w" "ru_reader ru" "rn_order_quantity (ru_settings ru)"
      "rn_sizer (ru_settings ru)"] r d(2,3) obtain f b rd v where
    "ts_symbol t = mk_symbol (ds_context st)" "blue_answer (ru_reader ru) (ru_cognitive ru) (rw_debate w) st = Inr b"
    "red_answer (ru_reader ru) (ru_cognitive ru) (rw_debate w) st = Inr rd"
    "judge_answer (ru_reader ru) (ru_cognitive ru) (rw_debate w) st = Inr v"
    "\<not> bt_forced b" "bt_side b \<noteq> SIDE_UNKNOWN" "\<not> rc_forced rd" "\<not> jd_defaulted v"
    "1 / 2 \<le> cs_omega_threshold (ru_cognitive ru)" "cs_omega_threshold (ru_cognitive ru) \<le> jd_omega v" "jd_side v \<noteq> SIDE_UNKNOWN"
    "0 < expected_value v" "positive_quantity (?q f)" "ts_side t = jd_side v" "ts_quantity t = ?q f" by auto
  moreover from this have "1 / 2 \<le> jd_omega v" by linarith
  ultimately show ?thesis using d(1)
    by (intro exI [of _ "rw_debate w"] exI [of _ st] exI [of _ b] exI [of _ rd] exI [of _ v]) simp
qed


definition demo_motor :: "unit motor_state" where
  "demo_motor = fst (snd (ExecuteWithContext_rpc ex_service_motor ex_service_world ex_request True ex_gates ex_state))"

lemma demo_motor_sent: "ms_sent demo_motor \<noteq> []"
  unfolding demo_motor_def by code_simp

lemma demo_relayed: "relayed demo_runner ex_gates demo_handled demo_motor"
proof -
  obtain m r where e: "rs_effects demo_handled = [SubmitSignal m, ExecuteWithContext r]" "er_decision r = ex_decision_msg"
    "er_signal r = m" "dc_symbol (er_context r) = ''AAPL''" "map_of (sp_scalars m) ''signal_id'' = Some (FStr ''s1'')"
    "map_of (sp_scalars m) ''symbol'' = Some (FStr ''AAPL'')" "sp_strategy_id m = ''st''" by (rule demo_called)
  then have rq: "request_view r = ex_request"
    by (simp add: request_view_def proto_text_def ex_request_def ex_context_def)
  obtain ack t reps where "ExecuteWithContext_rpc ex_service_motor ex_service_world ex_request True ex_gates ex_state = (ack, t, reps)"
    by (metis prod_cases3)
  then have x: "ExecuteWithContext_rpc ex_service_motor ex_service_world (request_view r) True ex_gates ex_state = (ack, demo_motor, reps)"
    by (simp add: demo_motor_def rq)
  have "relayed demo_runner ex_gates demo_start ex_state" by (rule relayed.start) (simp_all add: demo_start_def ex_state_def)
  then show ?thesis
    by (rule relayed.executed [OF _ demo_message _ _ x, of "[SubmitSignal m, ExecuteWithContext r]"]) (simp_all add: e(1) demo_start_def)
qed


end
