(* ===== verification/Cognitive_Config.thy ===== *)
theory Cognitive_Config
  imports Cognitive
begin

text \<open>
  How the cognitive core reads its environment: the debate settings (\<open>config.py\<close>), the runner settings
  (\<open>runner_config.py\<close>) and the TLS files of the channels to Aegis and the motor (\<open>sinks.py\<close>). Every
  invalid value is a \<open>ConfigError\<close>; the texts of the errors are shortened.
\<close>

section \<open>Debate settings\<close>

datatype setting = SText pystr | SOpt "pystr option" | SFloat rat | SInt int

definition text_setting :: "pystr \<Rightarrow> exc + setting" where
  "text_setting raw = Inr (SText (py_strip raw))"

definition optional_text_setting :: "pystr \<Rightarrow> exc + setting" where
  "optional_text_setting raw = (let s = py_strip raw in Inr (SOpt (if s = [] then None else Some s)))"

definition finite_float_setting :: "pystr \<Rightarrow> exc + setting" where
  "finite_float_setting raw =
     (case py_float raw of Some (Fin x) \<Rightarrow> Inr (SFloat x) | _ \<Rightarrow> Inl (Exc ''ValueError'' ''must be finite''))"

definition int_setting :: "pystr \<Rightarrow> exc + setting" where
  "int_setting raw = (case py_int raw of Some i \<Rightarrow> Inr (SInt i) | None \<Rightarrow> Inl (Exc ''ValueError'' ''invalid literal for int()''))"

definition MISTRAL_LARGE_ID :: pystr where
  "MISTRAL_LARGE_ID = ''mistral.mistral-large-2407-v1:0''"

definition SONNET_ID :: pystr where
  "SONNET_ID = ''anthropic.claude-sonnet-4-6''"

definition HAIKU_ID :: pystr where
  "HAIKU_ID = ''anthropic.claude-haiku-4-5-20251001-v1:0''"

text \<open>\<open>_SPEC\<close>: field, variable, parser, default.\<close>

definition SETTINGS_SPEC :: "(pystr \<times> pystr \<times> (pystr \<Rightarrow> exc + setting) \<times> pystr option) list" where
  "SETTINGS_SPEC =
     [(''blue_model'', ''COGNITIVE_BLUE_MODEL'', text_setting, Some MISTRAL_LARGE_ID),
      (''red_model'', ''COGNITIVE_RED_MODEL'', text_setting, Some MISTRAL_LARGE_ID),
      (''judge_model'', ''COGNITIVE_JUDGE_MODEL'', text_setting, Some SONNET_ID),
      (''compression_model'', ''COGNITIVE_COMPRESSION_MODEL'', text_setting, Some HAIKU_ID),
      (''reflector_model'', ''COGNITIVE_REFLECTOR_MODEL'', text_setting, Some HAIKU_ID),
      (''bedrock_region'', ''COGNITIVE_BEDROCK_REGION'', optional_text_setting, None),
      (''bedrock_endpoint_url'', ''COGNITIVE_BEDROCK_ENDPOINT_URL'', optional_text_setting, None),
      (''blue_latency_budget_s'', ''COGNITIVE_BLUE_LATENCY_BUDGET_S'', finite_float_setting, Some ''0.75''),
      (''red_latency_budget_s'', ''COGNITIVE_RED_LATENCY_BUDGET_S'', finite_float_setting, Some ''0.75''),
      (''judge_latency_budget_s'', ''COGNITIVE_JUDGE_LATENCY_BUDGET_S'', finite_float_setting, Some ''0.5''),
      (''compression_latency_budget_s'', ''COGNITIVE_COMPRESSION_LATENCY_BUDGET_S'', finite_float_setting, Some ''0.2''),
      (''overall_deadline_s'', ''COGNITIVE_OVERALL_DEADLINE_S'', finite_float_setting, Some ''2.2''),
      (''reflector_timeout_s'', ''COGNITIVE_REFLECTOR_TIMEOUT_S'', finite_float_setting, Some ''5.0''),
      (''blue_red_max_tokens'', ''COGNITIVE_BLUE_RED_MAX_TOKENS'', int_setting, Some ''4096''),
      (''judge_max_tokens'', ''COGNITIVE_JUDGE_MAX_TOKENS'', int_setting, Some ''2048''),
      (''compression_max_tokens'', ''COGNITIVE_COMPRESSION_MAX_TOKENS'', int_setting, Some ''200''),
      (''reflector_max_tokens'', ''COGNITIVE_REFLECTOR_MAX_TOKENS'', int_setting, Some ''1024''),
      (''omega_threshold'', ''COGNITIVE_OMEGA_THRESHOLD'', finite_float_setting, Some ''0.55''),
      (''signal_ttl_ms'', ''COGNITIVE_SIGNAL_TTL_MS'', int_setting, Some ''2000'')]"

definition read_setting ::
  "env \<Rightarrow> pystr \<times> pystr \<times> (pystr \<Rightarrow> exc + setting) \<times> pystr option \<Rightarrow> exc + (pystr \<times> setting)" where
  "read_setting env spec =
     (case spec of (fld, var, parse, dflt) \<Rightarrow>
      case (case env var of Some v \<Rightarrow> Some v | None \<Rightarrow> dflt) of
        None \<Rightarrow> Inr (fld, SOpt None)
      | Some raw \<Rightarrow> (case parse raw of Inl e \<Rightarrow> Inl (ConfigError (var @ '' is not valid: '' @ exc_str e))
          | Inr v \<Rightarrow> Inr (fld, v)))"

fun s_text :: "setting option \<Rightarrow> pystr" where
  "s_text (Some (SText s)) = s" | "s_text _ = []"

fun s_opt :: "setting option \<Rightarrow> pystr option" where
  "s_opt (Some (SOpt s)) = s" | "s_opt _ = None"

fun s_float :: "setting option \<Rightarrow> rat" where
  "s_float (Some (SFloat x)) = x" | "s_float _ = 0"

fun s_int :: "setting option \<Rightarrow> int" where
  "s_int (Some (SInt i)) = i" | "s_int _ = 0"

definition settings_of :: "(pystr \<rightharpoonup> setting) \<Rightarrow> cognitive_settings" where
  "settings_of v =
     \<lparr>cs_blue_model = s_text (v ''blue_model''), cs_red_model = s_text (v ''red_model''),
      cs_judge_model = s_text (v ''judge_model''), cs_compression_model = s_text (v ''compression_model''),
      cs_reflector_model = s_text (v ''reflector_model''), cs_bedrock_region = s_opt (v ''bedrock_region''),
      cs_bedrock_endpoint_url = s_opt (v ''bedrock_endpoint_url''),
      cs_blue_latency_budget_s = s_float (v ''blue_latency_budget_s''),
      cs_red_latency_budget_s = s_float (v ''red_latency_budget_s''),
      cs_judge_latency_budget_s = s_float (v ''judge_latency_budget_s''),
      cs_compression_latency_budget_s = s_float (v ''compression_latency_budget_s''),
      cs_overall_deadline_s = s_float (v ''overall_deadline_s''), cs_reflector_timeout_s = s_float (v ''reflector_timeout_s''),
      cs_blue_red_max_tokens = s_int (v ''blue_red_max_tokens''), cs_judge_max_tokens = s_int (v ''judge_max_tokens''),
      cs_compression_max_tokens = s_int (v ''compression_max_tokens''),
      cs_reflector_max_tokens = s_int (v ''reflector_max_tokens''), cs_omega_threshold = s_float (v ''omega_threshold''),
      cs_signal_ttl_ms = s_int (v ''signal_ttl_ms'')\<rparr>"

definition load_settings :: "env \<Rightarrow> exc + cognitive_settings" where
  "load_settings env =
     rbind (rmap (read_setting env) SETTINGS_SPEC) (\<lambda>vs.
     case CognitiveSettings_new (settings_of (map_of vs)) of
       Inl e \<Rightarrow> Inl (ConfigError ''invalid cognitive-core settings'') | Inr c \<Rightarrow> Inr c)"

section \<open>Runner settings\<close>

definition read_env :: "env \<Rightarrow> pystr \<Rightarrow> pystr \<Rightarrow> (pystr \<Rightarrow> exc + 'a) \<Rightarrow> exc + 'a" where
  "read_env env name dflt parse =
     (case parse (py_strip (env_get env name dflt)) of
        Inl e \<Rightarrow> Inl (ConfigError (name @ '' is invalid: '' @ exc_str e)) | Inr v \<Rightarrow> Inr v)"

definition parse_bool :: "pystr \<Rightarrow> exc + bool" where
  "parse_bool raw =
     (let s = py_lower raw in
      if s \<in> {''1'', ''true'', ''yes'', ''on''} then Inr True
      else if s \<in> {''0'', ''false'', ''no'', ''off''} then Inr False
      else Inl (Exc ''ValueError'' ''must be one of true/false/1/0/yes/no/on/off''))"

definition parse_int_in :: "int \<Rightarrow> int \<Rightarrow> pystr \<Rightarrow> exc + int" where
  "parse_int_in low high raw =
     (case py_int raw of None \<Rightarrow> Inl (Exc ''ValueError'' ''invalid literal for int()'')
      | Some i \<Rightarrow> if low \<le> i \<and> i \<le> high then Inr i else Inl (Exc ''ValueError'' ''out of range''))"

definition parse_float_in :: "rat \<Rightarrow> rat \<Rightarrow> pystr \<Rightarrow> exc + rat" where
  "parse_float_in low high raw =
     (case py_float raw of
        Some (Fin x) \<Rightarrow> if low \<le> x \<and> x \<le> high then Inr x else Inl (Exc ''ValueError'' ''must be a finite number in range'')
      | _ \<Rightarrow> Inl (Exc ''ValueError'' ''must be a finite number in range''))"

definition host_char :: "char \<Rightarrow> bool" where
  "host_char c \<longleftrightarrow> is_alnum_ascii c \<or> c = CHR ''.'' \<or> c = CHR ''-''"

definition parse_host :: "pystr \<Rightarrow> exc + pystr" where
  "parse_host raw =
     (if raw \<noteq> [] \<and> list_all host_char raw \<and> is_alnum_ascii (hd raw) \<and> is_alnum_ascii (last raw) \<and> int (length raw) \<le> 253
      then Inr raw else Inl (Exc ''ValueError'' ''must be a bare hostname or IPv4 address''))"

definition parse_text :: "pystr \<Rightarrow> exc + pystr" where
  "parse_text raw = (if raw = [] then Inl (Exc ''ValueError'' ''must not be empty'') else Inr raw)"

text \<open>\<open>raw.split(",")\<close>\<close>

fun split_commas :: "pystr \<Rightarrow> pystr \<Rightarrow> pystr list" where
  "split_commas acc [] = [acc]"
| "split_commas acc (c # cs) = (if c = CHR '','' then acc # split_commas [] cs else split_commas (acc @ [c]) cs)"

definition symbol_ok :: "pystr \<Rightarrow> bool" where
  "symbol_ok s \<longleftrightarrow> s \<noteq> [] \<and> int (length s) \<le> 32
     \<and> list_all (\<lambda>c. is_upper_ascii c \<or> is_digit_ascii c \<or> c = CHR ''.'' \<or> c = CHR ''-'') s"

definition parse_symbols :: "pystr \<Rightarrow> exc + pystr list" where
  "parse_symbols raw =
     (let items = filter (\<lambda>s. s \<noteq> []) (map py_strip (split_commas [] raw))
      in if list_all symbol_ok items then Inr (remdups items) else Inl (Exc ''ValueError'' ''not a valid symbol''))"

datatype sink_kind = SinkGrpc | SinkLog

definition parse_sink :: "pystr \<Rightarrow> exc + sink_kind" where
  "parse_sink raw =
     (if raw = ''grpc'' then Inr SinkGrpc else if raw = ''log'' then Inr SinkLog
      else Inl (Exc ''ValueError'' ''must be grpc or log''))"

definition redis_url_of :: "env \<Rightarrow> exc + pystr" where
  "redis_url_of env =
     (let url = py_strip (env_get env ''REDIS_URL'' []) in
      if url \<noteq> []
      then if take 8 url = ''redis://'' \<or> take 9 url = ''rediss://'' then Inr url
           else Inl (ConfigError ''REDIS_URL must start with redis:// or rediss://'')
      else rbind (read_env env ''REDIS_HOST'' ''localhost'' parse_host) (\<lambda>host.
           rbind (read_env env ''REDIS_PORT'' ''6379'' (parse_int_in 1 65535)) (\<lambda>port.
           Inr (''redis://'' @ host @ '':'' @ int_str port))))"

definition SIZER_VARS :: "pystr list" where
  "SIZER_VARS = [''COGNITIVE_SIZER_EQUITY_USD'', ''COGNITIVE_SIZER_RISK_PER_TRADE'', ''COGNITIVE_SIZER_MAX_ORDER_NOTIONAL_USD'']"

definition required_decimal :: "env \<Rightarrow> pystr \<Rightarrow> exc + dec" where
  "required_decimal env name =
     (let raw = py_strip (env_get env name []) in
      if raw = [] then Inl (ConfigError (''COGNITIVE_SIZER=vol_scaled requires '' @ name @ '' (no default)''))
      else case parse_decimal raw of
        None \<Rightarrow> Inl (ConfigError (name @ '' is not a decimal number''))
      | Some d \<Rightarrow> if is_finite d then Inr d else Inl (ConfigError (name @ '' must be finite'')))"

definition sizer_of_env :: "env \<Rightarrow> exc + vol_scaled_sizer option" where
  "sizer_of_env env =
     (let raw = py_lower (py_strip (env_get env ''COGNITIVE_SIZER'' ''fixed'')); kind = (if raw = [] then ''fixed'' else raw) in
      if kind = ''fixed''
      then if list_all (\<lambda>n. py_strip (env_get env n []) = []) SIZER_VARS then Inr None
           else Inl (ConfigError ''set but COGNITIVE_SIZER is fixed: set vol_scaled'')
      else if kind \<noteq> ''vol_scaled'' then Inl (ConfigError ''COGNITIVE_SIZER must be fixed or vol_scaled'')
      else rbind (required_decimal env ''COGNITIVE_SIZER_EQUITY_USD'') (\<lambda>e.
           rbind (required_decimal env ''COGNITIVE_SIZER_RISK_PER_TRADE'') (\<lambda>r.
           rbind (required_decimal env ''COGNITIVE_SIZER_MAX_ORDER_NOTIONAL_USD'') (\<lambda>c.
           case VolScaledSizer_new e r c of
             Inl x \<Rightarrow> Inl (ConfigError (''vol_scaled sizer: '' @ exc_str x)) | Inr s \<Rightarrow> Inr (Some s)))))"

record service_settings =
  sv_runner :: runner_settings
  sv_health_host :: pystr
  sv_health_port :: int
  sv_strategy_id :: pystr
  sv_sink :: sink_kind
  sv_memory_enabled :: bool
  sv_memory_top_k :: int
  sv_memory_timeout_s :: rat
  sv_heartbeat_interval_s :: rat
  sv_redis_url :: pystr
  sv_snapshot_channel :: pystr
  sv_aegis_host :: pystr
  sv_aegis_port :: int
  sv_aegis_timeout_s :: rat
  sv_motor_target :: pystr
  sv_motor_timeout_s :: rat
  sv_proto_dir :: "pystr option"

definition max_beat_age_s :: "service_settings \<Rightarrow> rat" where
  "max_beat_age_s c = max 30 (fl (10 * sv_heartbeat_interval_s c))"

definition in_production :: "env \<Rightarrow> bool" where
  "in_production env \<longleftrightarrow> py_lower (py_strip (env_get env ''ENVIRONMENT'' [])) = ''production''"

definition RunnerSettings_from_env :: "env \<Rightarrow> exc + service_settings" where
  "RunnerSettings_from_env env =
     (let proto = py_strip (env_get env ''AFE_PROTO_DIR'' []) in
      rbind (read_env env ''COGNITIVE_ORDER_QUANTITY'' ''0'' (parse_float_in 0 (10 ^ 9))) (\<lambda>quantity.
      rbind (sizer_of_env env) (\<lambda>sizer.
      rbind (guard (\<not> (in_production env \<and> sizer = None \<and> quantity \<le> 0))
        (ConfigError ''ENVIRONMENT=production requires COGNITIVE_ORDER_QUANTITY to be set to a positive value'')) (\<lambda>_.
      rbind (read_env env ''COGNITIVE_HEALTH_HOST'' ''127.0.0.1'' parse_host) (\<lambda>health_host.
      rbind (read_env env ''COGNITIVE_HEALTH_PORT'' ''8080'' (parse_int_in 0 65535)) (\<lambda>health_port.
      rbind (read_env env ''COGNITIVE_STRATEGY_ID'' ''AFE-STRATEGY-001'' parse_text) (\<lambda>strategy.
      rbind (read_env env ''COGNITIVE_MIN_DEBATE_INTERVAL_S'' ''60'' (parse_float_in 0 86400)) (\<lambda>interval.
      rbind (read_env env ''COGNITIVE_MAX_CONTEXT_AGE_S'' ''5'' (parse_float_in (fl (1 / 1000)) 3600)) (\<lambda>age.
      rbind (read_env env ''COGNITIVE_SYMBOLS'' [] parse_symbols) (\<lambda>symbols.
      rbind (read_env env ''COGNITIVE_EMIT_ABSTAIN'' ''false'' parse_bool) (\<lambda>emit.
      rbind (read_env env ''COGNITIVE_SINK'' ''grpc'' parse_sink) (\<lambda>sink.
      rbind (read_env env ''COGNITIVE_MEMORY_ENABLED'' ''false'' parse_bool) (\<lambda>memory.
      rbind (read_env env ''COGNITIVE_MEMORY_REQUIRED'' ''true'' parse_bool) (\<lambda>required.
      rbind (read_env env ''COGNITIVE_MEMORY_TOP_K'' ''3'' (parse_int_in 1 5)) (\<lambda>top_k.
      rbind (read_env env ''COGNITIVE_MEMORY_TIMEOUT_S'' ''0.3'' (parse_float_in (fl (1 / 100)) 2)) (\<lambda>memory_timeout.
      rbind (read_env env ''COGNITIVE_HEARTBEAT_INTERVAL_S'' ''1.0'' (parse_float_in (fl (5 / 100)) 60)) (\<lambda>heartbeat.
      rbind (redis_url_of env) (\<lambda>redis.
      rbind (read_env env ''SNAPSHOT_CHANNEL'' ''sensory:snapshots'' parse_text) (\<lambda>channel.
      rbind (read_env env ''ZONE_B_GRPC_HOST'' ''aegis'' parse_host) (\<lambda>aegis_host.
      rbind (read_env env ''ZONE_B_GRPC_PORT'' ''50051'' (parse_int_in 1 65535)) (\<lambda>aegis_port.
      rbind (read_env env ''COGNITIVE_AEGIS_TIMEOUT_S'' ''1.0'' (parse_float_in (fl (5 / 100)) 30)) (\<lambda>aegis_timeout.
      rbind (read_env env ''MOTOR_TARGET'' ''execution-motor:50052'' parse_text) (\<lambda>motor.
      rbind (read_env env ''COGNITIVE_MOTOR_TIMEOUT_S'' ''1.0'' (parse_float_in (fl (5 / 100)) 30)) (\<lambda>motor_timeout.
      Inr \<lparr>sv_runner = \<lparr>rn_order_quantity = Fin quantity, rn_min_debate_interval_s = interval, rn_max_context_age_s = age,
             rn_symbols = symbols, rn_emit_abstain = emit, rn_memory_required = required, rn_sizer = sizer\<rparr>,
           sv_health_host = health_host, sv_health_port = health_port, sv_strategy_id = strategy, sv_sink = sink,
           sv_memory_enabled = memory, sv_memory_top_k = top_k, sv_memory_timeout_s = memory_timeout,
           sv_heartbeat_interval_s = heartbeat, sv_redis_url = redis, sv_snapshot_channel = channel,
           sv_aegis_host = aegis_host, sv_aegis_port = aegis_port, sv_aegis_timeout_s = aegis_timeout,
           sv_motor_target = motor, sv_motor_timeout_s = motor_timeout,
           sv_proto_dir = (if proto = [] then None else Some proto)\<rparr>))))))))))))))))))))))))"

section \<open>Channels\<close>

record channel_tls =
  ct_ca :: "pystr option"
  ct_cert :: "pystr option"
  ct_key :: "pystr option"

definition tls_from_env :: "pystr \<Rightarrow> env \<Rightarrow> exc + channel_tls option" where
  "tls_from_env prefix env =
     (let path = (\<lambda>sfx. let v = py_strip (env_get env (prefix @ sfx) []) in if v = [] then None else Some v);
          ca = path ''_CA''; cert = path ''_CERT''; key = path ''_KEY'' in
      if (cert = None) \<noteq> (key = None) then Inl (ConfigError ''certificate and key must be set together'')
      else if in_production env \<and> ca = None then Inl (ConfigError ''ENVIRONMENT=production refuses an insecure channel'')
      else if ca = None \<and> cert = None then Inr None
      else Inr (Some \<lparr>ct_ca = ca, ct_cert = cert, ct_key = key\<rparr>))"

definition aegis_tls_from_env :: "env \<Rightarrow> exc + channel_tls option" where
  "aegis_tls_from_env env = tls_from_env ''AEGIS_CLIENT_TLS'' env"

definition motor_tls_from_env :: "env \<Rightarrow> exc + channel_tls option" where
  "motor_tls_from_env env = tls_from_env ''MOTOR_CLIENT_TLS'' env"

text \<open>
  What the process finds at start: whether the generated Aegis and motor modules can be imported, which
  PEM files can be read, and whether the vector memory package can be opened.
\<close>

record process_world =
  pw_protos :: bool
  pw_motor_protos :: bool
  pw_readable :: "pystr \<Rightarrow> bool"
  pw_memory :: bool

definition read_pem :: "process_world \<Rightarrow> pystr option \<Rightarrow> exc + unit" where
  "read_pem w path =
     (case path of None \<Rightarrow> Inr ()
      | Some p \<Rightarrow> guard (pw_readable w p) (ConfigError ''is not readable''))"

text \<open>The value tells whether the channel is a TLS channel (\<open>grpc.aio.secure_channel\<close>).\<close>

definition open_channel :: "process_world \<Rightarrow> channel_tls option \<Rightarrow> exc + bool" where
  "open_channel w tls =
     (case tls of None \<Rightarrow> Inr False
      | Some t \<Rightarrow> rbind (read_pem w (ct_ca t)) (\<lambda>_. rbind (read_pem w (ct_cert t)) (\<lambda>_.
          rbind (read_pem w (ct_key t)) (\<lambda>_. Inr True))))"

definition open_aegis_channel :: "process_world \<Rightarrow> env \<Rightarrow> exc + bool" where
  "open_aegis_channel w env = rbind (aegis_tls_from_env env) (open_channel w)"

definition open_motor_channel :: "process_world \<Rightarrow> env \<Rightarrow> exc + bool" where
  "open_motor_channel w env = rbind (motor_tls_from_env env) (open_channel w)"

text \<open>The sink with the channels it holds: to Aegis, and to the motor when there is one.\<close>

definition build_motor_sink :: "process_world \<Rightarrow> env \<Rightarrow> exc + bool option" where
  "build_motor_sink w env =
     (if pw_motor_protos w then rbind (open_motor_channel w env) (\<lambda>secure. Inr (Some secure)) else Inr None)"

definition build_sink :: "process_world \<Rightarrow> env \<Rightarrow> service_settings \<Rightarrow> exc + (signal_sink \<times> bool list)" where
  "build_sink w env c =
     (if sv_sink c = SinkLog then Inr (LogSink, [])
      else rbind (guard (pw_protos w) (Exc ''ImportError'' ''trade_signal_pb2'')) (\<lambda>_.
           rbind (open_aegis_channel w env) (\<lambda>aegis.
           rbind (build_motor_sink w env) (\<lambda>motor.
           case motor of None \<Rightarrow> Inr (AegisGrpcSink (sv_strategy_id c), [aegis])
           | Some m \<Rightarrow> Inr (AegisRelaySink (sv_strategy_id c) True, [aegis, m])))))"

definition build_memory :: "process_world \<Rightarrow> service_settings \<Rightarrow> exc + bool" where
  "build_memory w c =
     (if \<not> sv_memory_enabled c then Inr False
      else if pw_memory w then Inr True else Inl (Exc ''ImportError'' ''afe_vector_memory''))"

text \<open>The start of \<open>amain\<close>: any failure ends the process with exit code 2 before a debate can run.\<close>

record started_core =
  st_service :: service_settings
  st_cognitive :: cognitive_settings
  st_sink :: signal_sink
  st_channels :: "bool list"
  st_memory :: bool

definition start_core :: "process_world \<Rightarrow> env \<Rightarrow> exc + started_core" where
  "start_core w env =
     rbind (RunnerSettings_from_env env) (\<lambda>c.
     rbind (load_settings env) (\<lambda>cognitive.
     rbind (build_sink w env c) (\<lambda>(sink, channels).
     rbind (build_memory w c) (\<lambda>memory.
     Inr \<lparr>st_service = c, st_cognitive = cognitive, st_sink = sink, st_channels = channels, st_memory = memory\<rparr>))))"

definition EXIT_OK :: int where "EXIT_OK = 0"

definition EXIT_SOURCE :: int where "EXIT_SOURCE = 1"

definition EXIT_CONFIG :: int where "EXIT_CONFIG = 2"

definition serve_exit :: "bool \<Rightarrow> bool \<Rightarrow> int" where
  "serve_exit source_failed stop_set =
     (if source_failed then EXIT_SOURCE else if \<not> stop_set then EXIT_SOURCE else EXIT_OK)"

definition amain_exit :: "process_world \<Rightarrow> env \<Rightarrow> bool \<Rightarrow> bool \<Rightarrow> int" where
  "amain_exit w env source_failed stop_set =
     (case start_core w env of Inl _ \<Rightarrow> EXIT_CONFIG | Inr _ \<Rightarrow> serve_exit source_failed stop_set)"

section \<open>What a started core is like\<close>

lemma read_env_Inr: "read_env env n d p = Inr x \<Longrightarrow> \<exists>raw. p raw = Inr x"
  by (auto simp: read_env_def split: sum.splits)

lemma read_env_float:
  assumes "read_env env n d (parse_float_in lo hi) = Inr x"
  shows "lo \<le> x \<and> x \<le> hi"
proof -
  obtain raw where "parse_float_in lo hi raw = Inr x" using read_env_Inr [OF assms] by auto
  then show ?thesis by (auto simp: parse_float_in_def split: option.splits dec.splits if_splits)
qed

lemma CognitiveSettings_new_same: "CognitiveSettings_new x = Inr c \<Longrightarrow> c = x"
  unfolding CognitiveSettings_new_def rbind_eq_Inr by blast

lemma load_settings_ok: "load_settings env = Inr c \<Longrightarrow> CognitiveSettings_new c = Inr c"
  unfolding load_settings_def rbind_eq_Inr using CognitiveSettings_new_same by (force split: sum.splits)

lemma sum_case_map_eq_Inr:
  "(case m of Inl x \<Rightarrow> Inl (f x) | Inr s \<Rightarrow> Inr (g s)) = Inr y \<longleftrightarrow> (\<exists>s. m = Inr s \<and> y = g s)"
  by (cases m) auto

lemma VolScaledSizer_new_ok:
  assumes "VolScaledSizer_new e r c = Inr s"
  shows "0 < vs_equity_usd s \<and> 0 < vs_risk_per_trade s \<and> vs_risk_per_trade s \<le> MAX_RISK_PER_TRADE
    \<and> 0 < vs_max_order_notional_usd s"
  using assms by (cases e; cases r; cases c) (auto simp: VolScaledSizer_new_def rbind_eq_Inr)

lemma sizer_of_env_ok:
  assumes "sizer_of_env env = Inr (Some s)"
  shows "0 < vs_equity_usd s \<and> 0 < vs_risk_per_trade s \<and> vs_risk_per_trade s \<le> MAX_RISK_PER_TRADE
    \<and> 0 < vs_max_order_notional_usd s"
proof -
  obtain e r c where "VolScaledSizer_new e r c = Inr s"
    using assms unfolding sizer_of_env_def Let_def
    by (auto simp: rbind_eq_Inr sum_case_map_eq_Inr split: if_splits)
  then show ?thesis by (rule VolScaledSizer_new_ok)
qed

lemma runner_settings_Inr:
  assumes "RunnerSettings_from_env env = Inr c"
  shows "\<exists>q. rn_order_quantity (sv_runner c) = Fin q \<and> 0 \<le> q \<and> sizer_of_env env = Inr (rn_sizer (sv_runner c))
     \<and> (in_production env \<longrightarrow> rn_sizer (sv_runner c) \<noteq> None \<or> 0 < q)"
  using assms unfolding RunnerSettings_from_env_def Let_def rbind_eq_Inr
  by (elim exE conjE) (auto dest: read_env_float)

lemma production_tls:
  assumes "tls_from_env p env = Inr t" and "in_production env"
  shows "\<exists>tls ca. t = Some tls \<and> ct_ca tls = Some ca \<and> ca \<noteq> [] \<and> ca = py_strip (env_get env (p @ ''_CA'') [])"
  using assms by (auto simp: tls_from_env_def Let_def split: if_splits)

lemma production_channel:
  assumes "rbind (tls_from_env p env) (open_channel w) = Inr secure" and "in_production env"
  shows "secure \<and> py_strip (env_get env (p @ ''_CA'') []) \<noteq> [] \<and> pw_readable w (py_strip (env_get env (p @ ''_CA'') []))"
  using assms by (auto simp: rbind_eq_Inr open_channel_def read_pem_def dest!: production_tls)

lemmas production_channels =
  production_channel [of "''AEGIS_CLIENT_TLS''", folded aegis_tls_from_env_def open_aegis_channel_def]
  production_channel [of "''MOTOR_CLIENT_TLS''", folded motor_tls_from_env_def open_motor_channel_def]

lemma production_sink_is_secure:
  assumes "build_sink w env c = Inr (sink, channels)" and "in_production env"
  shows "list_all id channels \<and> length channels = (case sink of LogSink \<Rightarrow> 0 | AegisGrpcSink _ \<Rightarrow> 1 | AegisRelaySink _ _ \<Rightarrow> 2)"
proof -
  consider "sink = LogSink" "channels = []"
    | a where "open_aegis_channel w env = Inr a" "sink = AegisGrpcSink (sv_strategy_id c)" "channels = [a]"
    | a m where "open_aegis_channel w env = Inr a" "open_motor_channel w env = Inr m"
        "sink = AegisRelaySink (sv_strategy_id c) True" "channels = [a, m]"
    using assms(1) unfolding build_sink_def build_motor_sink_def
    by (auto simp: rbind_eq_Inr split: if_splits option.splits)
  then show ?thesis by cases (auto dest!: production_channels [OF _ assms(2)])
qed

text \<open>
  C10: A cognitive core that started with \<open>ENVIRONMENT=production\<close> can size an order (a positive
  fixed quantity or the volatility-scaled sizer with positive equity and cap and a risk per trade of at most
  5%), asks the judge for at least the specified confidence floor within the 2.2 s deadline, and every channel that carries
  its signals (to Aegis, and to the motor when signals are relayed) is a TLS channel.
\<close>

theorem production_core_is_configured_safely:
  assumes "start_core w env = Inr st" and "in_production env"
  shows "(\<exists>q. rn_order_quantity (sv_runner (st_service st)) = Fin q \<and> 0 \<le> q
           \<and> (0 < q \<or> rn_sizer (sv_runner (st_service st)) \<noteq> None))
     \<and> (\<forall>s. rn_sizer (sv_runner (st_service st)) = Some s \<longrightarrow>
           0 < vs_equity_usd s \<and> 0 < vs_risk_per_trade s \<and> vs_risk_per_trade s \<le> 5 / 100
           \<and> 0 < vs_max_order_notional_usd s)
     \<and> 1 / 2 \<le> cs_omega_threshold (st_cognitive st) \<and> cs_omega_threshold (st_cognitive st) \<le> 1
     \<and> 0 < cs_overall_deadline_s (st_cognitive st) \<and> cs_overall_deadline_s (st_cognitive st) \<le> fl (22 / 10)
     \<and> list_all id (st_channels st)
     \<and> length (st_channels st) = (case st_sink st of LogSink \<Rightarrow> 0 | AegisGrpcSink _ \<Rightarrow> 1 | AegisRelaySink _ _ \<Rightarrow> 2)"
proof -
  obtain c cog sink channels mem where
    c: "RunnerSettings_from_env env = Inr c" and cog: "load_settings env = Inr cog"
    and sink: "build_sink w env c = Inr (sink, channels)"
    and st: "st = \<lparr>st_service = c, st_cognitive = cog, st_sink = sink, st_channels = channels, st_memory = mem\<rparr>"
    using assms(1) by (auto simp: start_core_def rbind_eq_Inr)
  have q: "\<exists>q. rn_order_quantity (sv_runner c) = Fin q \<and> 0 \<le> q \<and> (0 < q \<or> rn_sizer (sv_runner c) \<noteq> None)"
    using runner_settings_Inr [OF c] assms(2) by blast
  have sz: "0 < vs_equity_usd s \<and> 0 < vs_risk_per_trade s \<and> vs_risk_per_trade s \<le> 5 / 100
       \<and> 0 < vs_max_order_notional_usd s" if "rn_sizer (sv_runner c) = Some s" for s
    using runner_settings_Inr [OF c] sizer_of_env_ok [of env s] that by (auto simp: MAX_RISK_PER_TRADE_def)
  have cg: "1 / 2 \<le> cs_omega_threshold cog \<and> cs_omega_threshold cog \<le> 1
      \<and> 0 < cs_overall_deadline_s cog \<and> cs_overall_deadline_s cog \<le> fl (22 / 10)"
    using load_settings_ok [OF cog] unfolding CognitiveSettings_new_def rbind_eq_Inr guard_eq_Inr by blast
  show ?thesis using q sz cg production_sink_is_secure [OF sink assms(2)] by (simp add: st)
qed

definition production_env :: env where
  "production_env = map_of [(''ENVIRONMENT'', ''Production''), (''COGNITIVE_SIZER'', ''vol_scaled''),
     (''COGNITIVE_SIZER_EQUITY_USD'', ''1e5''), (''COGNITIVE_SIZER_RISK_PER_TRADE'', ''0.01''),
     (''COGNITIVE_SIZER_MAX_ORDER_NOTIONAL_USD'', ''2e4''), (''AEGIS_CLIENT_TLS_CA'', ''/tls/ca.pem''),
     (''MOTOR_CLIENT_TLS_CA'', ''/tls/ca.pem''), (''REDIS_URL'', ''redis://cache''),
     (''ZONE_B_GRPC_PORT'', ''443''), (''COGNITIVE_HEALTH_PORT'', ''80'')]"

definition production_world :: process_world where
  "production_world = \<lparr>pw_protos = True, pw_motor_protos = True, pw_readable = (\<lambda>_. True), pw_memory = False\<rparr>"

lemma isl_rbind: "isl (rbind m k) \<longleftrightarrow> isl m \<or> isl (k (projr m))"
  by (cases m) auto

lemma production_env_sizer: "\<not> isl (sizer_of_env production_env)" "projr (sizer_of_env production_env) \<noteq> None"
  unfolding sizer_of_env_def required_decimal_def Let_def by code_simp+

lemma production_env_sized:
  "\<not> isl (guard (\<not> (p \<and> projr (sizer_of_env production_env) = None \<and> q)) e)"
  by (simp add: guard_def production_env_sizer)

lemma production_env_redis: "\<not> isl (redis_url_of production_env)"
  unfolding redis_url_of_def Let_def by code_simp

lemma production_env_service: "\<not> isl (RunnerSettings_from_env production_env)"
  unfolding RunnerSettings_from_env_def Let_def isl_rbind de_Morgan_disj
  by (intro conjI; (rule production_env_redis production_env_sizer(1) production_env_sized | code_simp))

lemma production_env_sink: "\<not> isl (build_sink production_world production_env c)"
proof -
  have "\<not> isl (open_aegis_channel production_world production_env)"
    "\<not> isl (open_motor_channel production_world production_env)"
    "pw_protos production_world"
    by code_simp+
  then show ?thesis by (auto simp: build_sink_def build_motor_sink_def isl_rbind guard_def split: option.split)
qed

lemma production_env_memory:
  "RunnerSettings_from_env production_env = Inr c \<Longrightarrow> \<not> isl (build_memory production_world c)"
proof -
  assume "RunnerSettings_from_env production_env = Inr c"
  moreover have "read_env production_env ''COGNITIVE_MEMORY_ENABLED'' ''false'' parse_bool = Inr False" by code_simp
  ultimately have "\<not> sv_memory_enabled c"
    unfolding RunnerSettings_from_env_def Let_def rbind_eq_Inr by (elim exE conjE) auto
  then show ?thesis by (simp add: build_memory_def)
qed

lemma production_env_starts: "\<not> isl (start_core production_world production_env)"
proof -
  have "\<not> isl (load_settings production_env)" by code_simp
  moreover obtain c where "RunnerSettings_from_env production_env = Inr c"
    using production_env_service by (cases "RunnerSettings_from_env production_env") auto
  ultimately show ?thesis
    using production_env_sink [of c] production_env_memory [of c]
    by (auto simp: start_core_def isl_rbind split: prod.splits)
qed

lemma production_env_is_production: "in_production production_env"
  by code_simp

theorem production_core_is_configured_safely_witness:
  "\<exists>st. start_core production_world production_env = Inr st \<and> in_production production_env
     \<and> list_all id (st_channels st) \<and> 1 / 2 \<le> cs_omega_threshold (st_cognitive st)"
proof -
  obtain st where st: "start_core production_world production_env = Inr st"
    using production_env_starts by (cases "start_core production_world production_env") auto
  show ?thesis
    using production_core_is_configured_safely [OF st production_env_is_production] st production_env_is_production by blast
qed

text \<open>The guard is needed: in production the placeholder quantity of 0 with the fixed sizer is refused.\<close>

lemma production_needs_a_size:
  assumes "in_production env" and "sizer_of_env env = Inr None"
    and "read_env env ''COGNITIVE_ORDER_QUANTITY'' ''0'' (parse_float_in 0 (10 ^ 9)) = Inr 0"
  shows "amain_exit w env f s = EXIT_CONFIG"
  using assms by (simp add: amain_exit_def start_core_def RunnerSettings_from_env_def guard_def)

end
