(* ===== verification/Refdata.thy ===== *)
theory Refdata
  imports Json
begin

text \<open>
  The reference data bridge (\<open>zone-b/refdata-bridge\<close>): \<open>mapping.py\<close>, \<open>batch.py\<close>, the client of
  \<open>aegis_client.py\<close>, the message handlers and the push cycle of \<open>service.py\<close>, \<open>config.py\<close>. Between the two
  halves of a push, which awaits Aegis, further messages are handled. The Redis connection, the health
  endpoint and the wiring of the process are not modelled; logging is left out.
\<close>

section \<open>Mapping\<close>

abbreviation MappingError :: "pystr \<Rightarrow> exc" where
  "MappingError \<equiv> Exc ''MappingError''"

definition symbol_pattern :: "pystr \<Rightarrow> bool" where
  "symbol_pattern s \<longleftrightarrow> s \<noteq> [] \<and> length s \<le> 10
     \<and> list_all (\<lambda>c. is_upper_ascii c \<or> c = CHR ''.'' \<or> c = CHR ''-'') s"

definition KNOWN_REGIME_LABELS :: "pystr list" where
  "KNOWN_REGIME_LABELS =
     [''REGIME_UNKNOWN'', ''TRENDING_BULL'', ''TRENDING_BEAR'', ''HIGH_VOL_CHOP'', ''LOW_VOL_CHOP'', ''CRISIS'']"

text \<open>
  \<open>isinstance(v, int)\<close> holds of a Boolean too. \<open>math.isfinite\<close> converts an integer to a float and
  raises when it is too large. The text of a Boolean is not a decimal.
\<close>

definition price_nanos :: "jv \<Rightarrow> pystr \<Rightarrow> exc + int" where
  "price_nanos v name =
     (let nanos = (\<lambda>d. if d < 0 then Inl (MappingError (name @ '' must not be negative''))
                       else Inr (round_half_even (dmul d (10 ^ 9)))) in
      case v of
        JvInt i \<Rightarrow> (case to_float (of_int i) of Fin _ \<Rightarrow> nanos (of_int i)
            | _ \<Rightarrow> Inl (Exc ''OverflowError'' ''int too large to convert to float''))
      | JvDec x \<Rightarrow> nanos (shortest_decimal x)
      | JvBool b \<Rightarrow> Inl (MappingError (name @ '' is not a valid decimal''))
      | _ \<Rightarrow> Inl (MappingError (name @ '' is not a finite number'')))"

record ref_snapshot =
  rf_symbol :: pystr
  rf_mid_price_nanos :: int
  rf_adv_30d_nanos :: int
  rf_as_of_ns :: int
  rf_is_stale :: bool

record regime_data =
  rd_symbol :: pystr
  rd_label :: pystr
  rd_confidence :: rat
  rd_timestamp_ns :: int
  rd_state_index :: int

definition valid_symbol :: "jv \<Rightarrow> exc + pystr" where
  "valid_symbol v =
     (case v of JvStr s \<Rightarrow> if symbol_pattern s then Inr s else Inl (MappingError ''invalid or missing symbol'')
      | _ \<Rightarrow> Inl (MappingError ''invalid or missing symbol''))"

definition positive_stamp :: "jv \<Rightarrow> pystr \<Rightarrow> exc + int" where
  "positive_stamp v name =
     (case v of
        JvInt i \<Rightarrow> if i \<le> 0 then Inl (MappingError (''invalid or missing '' @ name)) else Inr i
      | JvBool b \<Rightarrow> if b then Inr 1 else Inl (MappingError (''invalid or missing '' @ name))
      | _ \<Rightarrow> Inl (MappingError (''invalid or missing '' @ name)))"

text \<open>\<open>bool(v)\<close>\<close>

fun jv_truthy :: "jv \<Rightarrow> bool" where
  "jv_truthy JvNull = False"
| "jv_truthy (JvBool b) = b"
| "jv_truthy (JvInt i) = (i \<noteq> 0)"
| "jv_truthy (JvDec x) = (x \<noteq> 0)"
| "jv_truthy JFloat = True"
| "jv_truthy (JvStr s) = (s \<noteq> [])"
| "jv_truthy (JvArr vs) = (vs \<noteq> [])"
| "jv_truthy (JvObj kvs) = (kvs \<noteq> [])"

definition map_snapshot :: "(pystr \<times> jv) list \<Rightarrow> int \<Rightarrow> int \<Rightarrow> exc + ref_snapshot" where
  "map_snapshot payload now_ns stale_after_ns =
     rbind (valid_symbol (jget payload ''symbol'')) (\<lambda>symbol.
     rbind (positive_stamp (jget payload ''ingestion_ts_ns'') ''ingestion_ts_ns'') (\<lambda>as_of_ns.
     let mid_price = jget payload ''mid_price''; adv_30d = jget payload ''adv_30d'' in
     rbind (guard (mid_price \<noteq> JvNull \<and> adv_30d \<noteq> JvNull) (MappingError ''snapshot missing mid_price or adv_30d'')) (\<lambda>_.
     rbind (price_nanos mid_price ''mid_price'') (\<lambda>mid_nanos.
     rbind (price_nanos adv_30d ''adv_30d'') (\<lambda>adv_nanos.
     rbind (guard (0 < mid_nanos \<and> 0 < adv_nanos) (MappingError ''mid_price and adv_30d must be strictly positive'')) (\<lambda>_.
     let source_stale = (case map_of payload ''is_stale'' of None \<Rightarrow> False | Some v \<Rightarrow> jv_truthy v);
         warmup = (case map_of payload ''warmup'' of None \<Rightarrow> True | Some v \<Rightarrow> jv_truthy v);
         age_ns = now_ns - as_of_ns;
         clock_stale = (age_ns < 0 \<or> stale_after_ns < age_ns) in
     Inr \<lparr>rf_symbol = symbol, rf_mid_price_nanos = mid_nanos, rf_adv_30d_nanos = adv_nanos, rf_as_of_ns = as_of_ns,
          rf_is_stale = (source_stale \<or> warmup \<or> clock_stale)\<rparr>))))))"

definition finite_unit :: "jv \<Rightarrow> exc + rat" where
  "finite_unit v =
     (let in_unit = (\<lambda>x. if 0 \<le> x \<and> x \<le> 1 then Inr x else Inl (MappingError ''confidence outside [0, 1]'')) in
      case v of
        JvInt i \<Rightarrow> (case to_float (of_int i) of Fin _ \<Rightarrow> in_unit (of_int i)
            | _ \<Rightarrow> Inl (Exc ''OverflowError'' ''int too large to convert to float''))
      | JvDec x \<Rightarrow> in_unit x
      | JvBool b \<Rightarrow> Inr (if b then 1 else 0)
      | _ \<Rightarrow> Inl (MappingError ''confidence is not a finite number''))"

definition map_regime :: "(pystr \<times> jv) list \<Rightarrow> exc + regime_data" where
  "map_regime payload =
     rbind (valid_symbol (jget payload ''symbol'')) (\<lambda>symbol.
     rbind (case jget payload ''label'' of
              JvStr s \<Rightarrow> if s \<in> set KNOWN_REGIME_LABELS then Inr s else Inl (MappingError ''unknown or missing regime label'')
            | _ \<Rightarrow> Inl (MappingError ''unknown or missing regime label'')) (\<lambda>label.
     rbind (finite_unit (jget payload ''confidence'')) (\<lambda>confidence.
     rbind (positive_stamp (jget payload ''ts_ns'') ''ts_ns'') (\<lambda>ts_ns.
     Inr \<lparr>rd_symbol = symbol, rd_label = label, rd_confidence = confidence, rd_timestamp_ns = ts_ns, rd_state_index = 0\<rparr>))))"

section \<open>Batches\<close>

record pending_batch =
  pb_snapshots :: "ref_snapshot list"
  pb_regimes :: "regime_data list"

definition batch_empty :: "pending_batch \<Rightarrow> bool" where
  "batch_empty b \<longleftrightarrow> pb_snapshots b = [] \<and> pb_regimes b = []"

record batch_state =
  rb_latest :: "(pystr \<times> ref_snapshot) list"
  rb_pushed_as_of :: "(pystr \<times> int) list"
  rb_latest_regimes :: "(pystr \<times> regime_data) list"
  rb_pushed_regime_ts :: "(pystr \<times> int) list"

definition BatchState_new :: batch_state where
  "BatchState_new = \<lparr>rb_latest = [], rb_pushed_as_of = [], rb_latest_regimes = [], rb_pushed_regime_ts = []\<rparr>"

definition record_snapshot :: "ref_snapshot \<Rightarrow> batch_state \<Rightarrow> batch_state" where
  "record_snapshot d s =
     (if (case map_of (rb_latest s) (rf_symbol d) of None \<Rightarrow> False | Some c \<Rightarrow> rf_as_of_ns d < rf_as_of_ns c) then s
      else s\<lparr>rb_latest := AList.update (rf_symbol d) d (rb_latest s)\<rparr>)"

definition record_regime :: "regime_data \<Rightarrow> batch_state \<Rightarrow> batch_state" where
  "record_regime d s =
     (if (case map_of (rb_latest_regimes s) (rd_symbol d) of None \<Rightarrow> False | Some c \<Rightarrow> rd_timestamp_ns d < rd_timestamp_ns c) then s
      else s\<lparr>rb_latest_regimes := AList.update (rd_symbol d) d (rb_latest_regimes s)\<rparr>)"

definition mark_or_0 :: "(pystr \<times> int) list \<Rightarrow> pystr \<Rightarrow> int" where
  "mark_or_0 m k = (case map_of m k of None \<Rightarrow> 0 | Some t \<Rightarrow> t)"

definition due_snapshots :: "batch_state \<Rightarrow> ref_snapshot list" where
  "due_snapshots s =
     sort_key rf_as_of_ns (map snd (filter (\<lambda>(k, d). mark_or_0 (rb_pushed_as_of s) k < rf_as_of_ns d) (rb_latest s)))"

definition due_regimes :: "batch_state \<Rightarrow> regime_data list" where
  "due_regimes s =
     sort_key rd_timestamp_ns (map snd (filter (\<lambda>(k, d). mark_or_0 (rb_pushed_regime_ts s) k < rd_timestamp_ns d) (rb_latest_regimes s)))"

definition build_batch :: "nat \<Rightarrow> nat option \<Rightarrow> batch_state \<Rightarrow> pending_batch" where
  "build_batch max_snapshots max_regimes s =
     \<lparr>pb_snapshots = take max_snapshots (due_snapshots s),
      pb_regimes = take (case max_regimes of None \<Rightarrow> max_snapshots | Some n \<Rightarrow> n) (due_regimes s)\<rparr>"

definition mark_snapshot :: "pystr \<Rightarrow> batch_state \<Rightarrow> batch_state" where
  "mark_snapshot symbol s =
     (case map_of (rb_latest s) symbol of None \<Rightarrow> s
      | Some d \<Rightarrow> s\<lparr>rb_pushed_as_of := AList.update symbol (rf_as_of_ns d) (rb_pushed_as_of s)\<rparr>)"

definition mark_regime :: "regime_data \<Rightarrow> batch_state \<Rightarrow> batch_state" where
  "mark_regime r s =
     s\<lparr>rb_pushed_regime_ts :=
         AList.update (rd_symbol r) (max (mark_or_0 (rb_pushed_regime_ts s) (rd_symbol r)) (rd_timestamp_ns r)) (rb_pushed_regime_ts s)\<rparr>"

definition mark_applied :: "pystr list \<Rightarrow> regime_data list \<Rightarrow> batch_state \<Rightarrow> batch_state" where
  "mark_applied symbols regimes s = fold mark_regime regimes (fold mark_snapshot symbols s)"

section \<open>The client\<close>

text \<open>The fields of a message are 64-bit integers; protobuf refuses a value beyond them.\<close>

definition int64_ok :: "int \<Rightarrow> bool" where
  "int64_ok i \<longleftrightarrow> - (2 ^ 63) \<le> i \<and> i < 2 ^ 63"

definition build_request :: "pending_batch \<Rightarrow> exc + pending_batch" where
  "build_request b =
     (if list_all (\<lambda>d. int64_ok (rf_mid_price_nanos d) \<and> int64_ok (rf_adv_30d_nanos d) \<and> int64_ok (rf_as_of_ns d)) (pb_snapshots b)
         \<and> list_all (\<lambda>r. int64_ok (rd_timestamp_ns r)) (pb_regimes b)
      then Inr b else Inl (Exc ''ValueError'' ''Value out of range''))"

record push_response =
  pr_rejected :: "(pystr \<times> pystr) list"
  pr_applied_symbol_regimes :: int

record push_result =
  pu_applied_symbols :: "pystr list"
  pu_applied_regimes :: "regime_data list"
  pu_rejected :: "(pystr \<times> pystr) list"

definition REGIME_KEY_PREFIX :: pystr where
  "REGIME_KEY_PREFIX = ''regime:''"

definition parse_response :: "push_response \<Rightarrow> pending_batch \<Rightarrow> push_result" where
  "parse_response resp b =
     (let rejected_keys = map fst (pr_rejected resp);
          symbols = filter (\<lambda>k. k \<notin> set rejected_keys) (map rf_symbol (pb_snapshots b));
          regimes = filter (\<lambda>r. REGIME_KEY_PREFIX @ rd_symbol r \<notin> set rejected_keys) (pb_regimes b) in
      \<lparr>pu_applied_symbols = symbols,
       pu_applied_regimes = (if int (length regimes) \<noteq> pr_applied_symbol_regimes resp then [] else regimes),
       pu_rejected = pr_rejected resp\<rparr>)"

section \<open>The service\<close>

text \<open>A message: what the handler raises, if anything, and the new state.\<close>

definition on_snapshot_message :: "int \<Rightarrow> int \<Rightarrow> pystr \<Rightarrow> batch_state \<Rightarrow> exc option \<times> batch_state" where
  "on_snapshot_message now_ns stale_after_ns raw s =
     (case loads_text raw of
        None \<Rightarrow> (None, s)
      | Some (JvObj payload) \<Rightarrow>
          (case map_snapshot payload now_ns stale_after_ns of
             Inl e \<Rightarrow> if exc_name e = ''MappingError'' then (None, s) else (Some e, s)
           | Inr d \<Rightarrow> (None, record_snapshot d s))
      | Some _ \<Rightarrow> (Some (Exc ''AttributeError'' ''object has no attribute get''), s))"

definition on_regime_message :: "pystr \<Rightarrow> batch_state \<Rightarrow> exc option \<times> batch_state" where
  "on_regime_message raw s =
     (case loads_text raw of
        None \<Rightarrow> (None, s)
      | Some (JvObj payload) \<Rightarrow>
          (case map_regime payload of
             Inl e \<Rightarrow> if exc_name e = ''MappingError'' then (None, s) else (Some e, s)
           | Inr d \<Rightarrow> (None, record_regime d s))
      | Some _ \<Rightarrow> (Some (Exc ''AttributeError'' ''object has no attribute get''), s))"

text \<open>The first half of \<open>_push_once\<close>, up to the call it awaits: nothing to send, an exception, or the request sent.\<close>

definition push_begin :: "nat \<Rightarrow> batch_state \<Rightarrow> exc + pending_batch option" where
  "push_begin max_snapshots s =
     (let b = build_batch max_snapshots None s in
      if batch_empty b then Inr None else rbind (build_request b) (\<lambda>req. Inr (Some req)))"

text \<open>The second half: a transport failure changes nothing.\<close>

definition push_end :: "pending_batch \<Rightarrow> exc + push_response \<Rightarrow> batch_state \<Rightarrow> batch_state" where
  "push_end b answer s =
     (case answer of
        Inl _ \<Rightarrow> s
      | Inr resp \<Rightarrow> let r = parse_response resp b in mark_applied (pu_applied_symbols r) (pu_applied_regimes r) s)"

section \<open>Configuration\<close>

record refdata_settings =
  rc_redis_url :: pystr
  rc_snapshot_channel :: pystr
  rc_regime_channel :: pystr
  rc_aegis_target :: pystr
  rc_proto_dir :: "pystr option"
  rc_tls_ca :: "pystr option"
  rc_tls_cert :: "pystr option"
  rc_tls_key :: "pystr option"
  rc_environment :: pystr
  rc_batch_interval_s :: rat
  rc_max_batch_snapshots :: int
  rc_snapshot_stale_after_s :: rat
  rc_regime_stale_after_s :: rat
  rc_aegis_rpc_timeout_s :: rat
  rc_health_host :: pystr
  rc_health_port :: int
  rc_heartbeat_path :: pystr

definition setting_text :: "env \<Rightarrow> pystr \<Rightarrow> pystr \<Rightarrow> exc + pystr" where
  "setting_text env name dflt =
     (let v = py_strip (case env name of None \<Rightarrow> dflt | Some x \<Rightarrow> x) in
      if v = [] then Inl (ConfigError (name @ '' must not be empty'')) else Inr v)"

definition setting_path :: "env \<Rightarrow> pystr \<Rightarrow> pystr option" where
  "setting_path env name =
     (let v = py_strip (case env name of None \<Rightarrow> [] | Some x \<Rightarrow> x) in if v = [] then None else Some v)"

definition setting_int :: "env \<Rightarrow> pystr \<Rightarrow> int \<Rightarrow> int \<Rightarrow> int \<Rightarrow> exc + int" where
  "setting_int env name dflt low high =
     (case (case env name of None \<Rightarrow> Some dflt | Some raw \<Rightarrow> py_int (py_strip raw)) of
        None \<Rightarrow> Inl (ConfigError (name @ '' must be an integer''))
      | Some v \<Rightarrow> if low \<le> v \<and> v \<le> high then Inr v else Inl (ConfigError (name @ '' outside its range'')))"

definition setting_float :: "env \<Rightarrow> pystr \<Rightarrow> rat \<Rightarrow> rat \<Rightarrow> rat \<Rightarrow> exc + rat" where
  "setting_float env name dflt low high =
     (case (case env name of None \<Rightarrow> Some (Fin (fl dflt)) | Some raw \<Rightarrow> py_float (py_strip raw)) of
        None \<Rightarrow> Inl (ConfigError (name @ '' must be a number''))
      | Some (Fin v) \<Rightarrow> if fl low \<le> v \<and> v \<le> fl high then Inr v else Inl (ConfigError (name @ '' outside its range''))
      | Some _ \<Rightarrow> Inl (ConfigError (name @ '' outside its range'')))"

definition tls_paths :: "env \<Rightarrow> exc + (pystr option \<times> pystr option \<times> pystr option)" where
  "tls_paths env =
     (let ca = setting_path env ''REFDATA_CLIENT_TLS_CA''; cert = setting_path env ''REFDATA_CLIENT_TLS_CERT'';
          key = setting_path env ''REFDATA_CLIENT_TLS_KEY'' in
      if (cert = None) \<noteq> (key = None) then Inl (ConfigError ''certificate and key must be set together'')
      else Inr (ca, cert, key))"

definition RefdataSettings_from_env :: "env \<Rightarrow> exc + refdata_settings" where
  "RefdataSettings_from_env env =
     rbind (tls_paths env) (\<lambda>(ca, cert, key).
     rbind (setting_text env ''ENVIRONMENT'' ''production'') (\<lambda>raw_env.
     let environment = py_lower raw_env in
     rbind (guard (environment \<in> {''production'', ''staging'', ''development'', ''test''}) (ConfigError ''ENVIRONMENT must be known'')) (\<lambda>_.
     rbind (guard (\<not> (environment = ''production'' \<and> ca = None)) (ConfigError ''production refuses an insecure Aegis channel'')) (\<lambda>_.
     rbind (setting_text env ''REDIS_URL'' ''redis://localhost:6379'') (\<lambda>redis_url.
     rbind (setting_text env ''SNAPSHOT_CHANNEL'' ''sensory:snapshots'') (\<lambda>snapshot_channel.
     rbind (setting_text env ''REGIME_CHANNEL'' ''regime:labels'') (\<lambda>regime_channel.
     rbind (setting_text env ''AEGIS_TARGET'' ''localhost:50051'') (\<lambda>target.
     rbind (setting_float env ''BATCH_INTERVAL_S'' 1 (5 / 100) 300) (\<lambda>interval.
     rbind (setting_int env ''MAX_BATCH_SNAPSHOTS'' 64 1 512) (\<lambda>max_batch.
     rbind (setting_float env ''SNAPSHOT_STALE_AFTER_S'' 2 (1 / 100) 3600) (\<lambda>snap_stale.
     rbind (setting_float env ''REGIME_STALE_AFTER_S'' 30 (1 / 100) 3600) (\<lambda>regime_stale.
     rbind (setting_float env ''AEGIS_RPC_TIMEOUT_S'' 2 (1 / 10) 60) (\<lambda>timeout.
     rbind (setting_text env ''HEALTH_HOST'' ''0.0.0.0'') (\<lambda>host.
     rbind (setting_int env ''HEALTH_PORT'' 8080 1 65535) (\<lambda>port.
     rbind (setting_text env ''HEARTBEAT_PATH'' ''/tmp/refdata-bridge.heartbeat'') (\<lambda>heartbeat.
     rbind (setting_text env ''LOG_LEVEL'' ''info'') (\<lambda>_.
     Inr \<lparr>rc_redis_url = redis_url, rc_snapshot_channel = snapshot_channel, rc_regime_channel = regime_channel,
          rc_aegis_target = target, rc_proto_dir = setting_path env ''AFE_PROTO_DIR'', rc_tls_ca = ca, rc_tls_cert = cert,
          rc_tls_key = key, rc_environment = environment, rc_batch_interval_s = interval, rc_max_batch_snapshots = max_batch,
          rc_snapshot_stale_after_s = snap_stale, rc_regime_stale_after_s = regime_stale, rc_aegis_rpc_timeout_s = timeout,
          rc_health_host = host, rc_health_port = port, rc_heartbeat_path = heartbeat\<rparr>)))))))))))))))))"

text \<open>Whether the channel to Aegis is plaintext.\<close>

definition channel_insecure :: "refdata_settings \<Rightarrow> bool" where
  "channel_insecure c \<longleftrightarrow> rc_tls_ca c = None \<and> rc_tls_cert c = None"

end
