(* ===== verification/Refdata_Properties.thy ===== *)
theory Refdata_Properties
  imports Refdata
begin

text \<open>
  The bridge as a step relation: messages arrive while a push awaits Aegis. A regime label stays due
  until Aegis acknowledged one at least as new; a snapshot that is passed on as fresh was fresh when it
  was received; and where the code falls short of its contract.
\<close>

section \<open>Steps\<close>

record bridge =
  bg_state :: batch_state
  bg_flight :: "pending_batch option"

definition regimes_read :: "pystr \<Rightarrow> regime_data list" where
  "regimes_read raw =
     (case loads_text raw of
        Some (JvObj payload) \<Rightarrow> (case map_regime payload of Inl _ \<Rightarrow> [] | Inr d \<Rightarrow> [d]) | _ \<Rightarrow> [])"

text \<open>
  The labels of a request that an answer of Aegis acknowledges: those it does not reject, provided it
  counts as many.
\<close>

definition not_rejected :: "push_response \<Rightarrow> regime_data \<Rightarrow> bool" where
  "not_rejected resp r \<longleftrightarrow> (\<forall>kr \<in> set (pr_rejected resp). fst kr \<noteq> ''regime:'' @ rd_symbol r)"

fun acknowledged :: "pending_batch \<Rightarrow> exc + push_response \<Rightarrow> regime_data list" where
  "acknowledged b (Inl _) = []"
| "acknowledged b (Inr resp) =
     (let kept = filter (not_rejected resp) (pb_regimes b) in if int (length kept) = pr_applied_symbol_regimes resp then kept else [])"

lemma acknowledged_applied: "acknowledged b (Inr resp) = pu_applied_regimes (parse_response resp b)"
proof -
  have "not_rejected resp = (\<lambda>r. REGIME_KEY_PREFIX @ rd_symbol r \<notin> set (map fst (pr_rejected resp)))"
    by (intro ext) (force simp: not_rejected_def REGIME_KEY_PREFIX_def)
  then show ?thesis by (simp add: parse_response_def Let_def)
qed

text \<open>The bridge, the regime labels received and the ones acknowledged, in order.\<close>

inductive bridge_run :: "int \<Rightarrow> nat \<Rightarrow> bridge \<Rightarrow> regime_data list \<Rightarrow> regime_data list \<Rightarrow> bool" for stale_after max_batch where
  start: "bridge_run stale_after max_batch \<lparr>bg_state = BatchState_new, bg_flight = None\<rparr> [] []"
| snapshot: "bridge_run stale_after max_batch b received acked \<Longrightarrow>
    on_snapshot_message now stale_after raw (bg_state b) = (e, s) \<Longrightarrow>
    bridge_run stale_after max_batch (b\<lparr>bg_state := s\<rparr>) received acked"
| regime: "bridge_run stale_after max_batch b received acked \<Longrightarrow> on_regime_message raw (bg_state b) = (e, s) \<Longrightarrow>
    bridge_run stale_after max_batch (b\<lparr>bg_state := s\<rparr>) (received @ regimes_read raw) acked"
| send: "bridge_run stale_after max_batch b received acked \<Longrightarrow> bg_flight b = None \<Longrightarrow>
    push_begin max_batch (bg_state b) = Inr (Some req) \<Longrightarrow>
    bridge_run stale_after max_batch (b\<lparr>bg_flight := Some req\<rparr>) received acked"
| answer: "bridge_run stale_after max_batch b received acked \<Longrightarrow> bg_flight b = Some req \<Longrightarrow>
    bridge_run stale_after max_batch \<lparr>bg_state = push_end req answer (bg_state b), bg_flight = None\<rparr>
      received (acked @ acknowledged req answer)"

section \<open>Regime labels\<close>

definition acked_mark :: "regime_data list \<Rightarrow> pystr \<Rightarrow> int" where
  "acked_mark acked k = fold max (map rd_timestamp_ns (filter (\<lambda>r. rd_symbol r = k) acked)) 0"

definition latest_ok :: "batch_state \<Rightarrow> regime_data list \<Rightarrow> bool" where
  "latest_ok s received \<longleftrightarrow> distinct (map fst (rb_latest_regimes s))
     \<and> (\<forall>k r. map_of (rb_latest_regimes s) k = Some r \<longrightarrow>
          r \<in> set received \<and> rd_symbol r = k \<and> (\<forall>x \<in> set received. rd_symbol x = k \<longrightarrow> rd_timestamp_ns x \<le> rd_timestamp_ns r))
     \<and> (\<forall>x \<in> set received. 0 < rd_timestamp_ns x \<and> (\<exists>y. map_of (rb_latest_regimes s) (rd_symbol x) = Some y))"

definition bridge_inv :: "bridge \<Rightarrow> regime_data list \<Rightarrow> regime_data list \<Rightarrow> bool" where
  "bridge_inv b received acked \<longleftrightarrow> latest_ok (bg_state b) received
     \<and> (\<forall>k. mark_or_0 (rb_pushed_regime_ts (bg_state b)) k = acked_mark acked k)
     \<and> set acked \<subseteq> set received
     \<and> (\<forall>req. bg_flight b = Some req \<longrightarrow> set (pb_regimes req) \<subseteq> set received)"

lemma acked_mark_append:
  "acked_mark (acked @ [r]) k = (if rd_symbol r = k then max (acked_mark acked k) (rd_timestamp_ns r) else acked_mark acked k)"
  by (simp add: acked_mark_def max.commute)

lemma fold_max_less: "fold max xs m < t \<longleftrightarrow> m < t \<and> (\<forall>x \<in> set xs. x < t)" for m t :: int
  by (induction xs arbitrary: m) auto

lemma acked_mark_less:
  "acked_mark acked k < t \<longleftrightarrow> 0 < t \<and> (\<forall>a \<in> set acked. rd_symbol a = k \<longrightarrow> rd_timestamp_ns a < t)"
  by (auto simp: acked_mark_def fold_max_less)

lemma due_regimes_iff:
  assumes "distinct (map fst (rb_latest_regimes s))"
  shows "r \<in> set (due_regimes s) \<longleftrightarrow>
    (\<exists>k. map_of (rb_latest_regimes s) k = Some r \<and> mark_or_0 (rb_pushed_regime_ts s) k < rd_timestamp_ns r)"
  using assms by (auto simp: due_regimes_def image_iff)

lemma mark_regime_mark:
  "mark_or_0 (rb_pushed_regime_ts (mark_regime r s)) k =
     (if rd_symbol r = k then max (mark_or_0 (rb_pushed_regime_ts s) k) (rd_timestamp_ns r) else mark_or_0 (rb_pushed_regime_ts s) k)"
  by (simp add: mark_regime_def mark_or_0_def AList.update_conv')

lemma mark_regimes_fold:
  assumes "\<forall>k. mark_or_0 (rb_pushed_regime_ts s) k = acked_mark acked k"
  shows "\<forall>k. mark_or_0 (rb_pushed_regime_ts (fold mark_regime rs s)) k = acked_mark (acked @ rs) k"
  using assms
proof (induction rs arbitrary: s acked)
  case (Cons r rs)
  have "\<forall>k. mark_or_0 (rb_pushed_regime_ts (mark_regime r s)) k = acked_mark (acked @ [r]) k"
    using Cons.prems by (simp add: mark_regime_mark acked_mark_append)
  from Cons.IH [OF this] show ?case by simp
qed simp

lemma mark_keeps_latest [simp]:
  "rb_latest_regimes (fold mark_regime rs s) = rb_latest_regimes s"
  "rb_latest_regimes (fold mark_snapshot ks s) = rb_latest_regimes s"
  "rb_pushed_regime_ts (fold mark_snapshot ks s) = rb_pushed_regime_ts s"
proof -
  show "rb_latest_regimes (fold mark_regime rs s) = rb_latest_regimes s"
    by (induction rs arbitrary: s) (simp_all add: mark_regime_def)
  show "rb_latest_regimes (fold mark_snapshot ks s) = rb_latest_regimes s"
    by (induction ks arbitrary: s) (simp_all add: mark_snapshot_def split: option.splits)
  show "rb_pushed_regime_ts (fold mark_snapshot ks s) = rb_pushed_regime_ts s"
    by (induction ks arbitrary: s) (simp_all add: mark_snapshot_def split: option.splits)
qed

lemma map_regime_positive: "map_regime payload = Inr r \<Longrightarrow> 0 < rd_timestamp_ns r"
  by (auto simp: map_regime_def positive_stamp_def rbind_eq_Inr split: jv.splits if_splits)

lemma latest_ok_cong: "rb_latest_regimes s = rb_latest_regimes s' \<Longrightarrow> latest_ok s = latest_ok s'"
  by (rule ext) (simp only: latest_ok_def)

lemma record_regime_ok:
  assumes "latest_ok s received" "0 < rd_timestamp_ns d"
  shows "latest_ok (record_regime d s) (received @ [d])"
proof (cases "case map_of (rb_latest_regimes s) (rd_symbol d) of None \<Rightarrow> False | Some c \<Rightarrow> rd_timestamp_ns d < rd_timestamp_ns c")
  case True
  then obtain c where c: "map_of (rb_latest_regimes s) (rd_symbol d) = Some c" "rd_timestamp_ns d < rd_timestamp_ns c"
    by (auto split: option.splits)
  have "record_regime d s = s" using True by (simp add: record_regime_def)
  then show ?thesis using assms c unfolding latest_ok_def by (auto simp del: map_of_eq_Some_iff)
next
  case False
  then have le: "map_of (rb_latest_regimes s) (rd_symbol d) = Some c \<Longrightarrow> rd_timestamp_ns c \<le> rd_timestamp_ns d" for c by simp
  have eq: "record_regime d s = s\<lparr>rb_latest_regimes := AList.update (rd_symbol d) d (rb_latest_regimes s)\<rparr>"
    using False by (simp add: record_regime_def)
  have newest: "rd_timestamp_ns x \<le> rd_timestamp_ns d" if x: "x \<in> set received" "rd_symbol x = rd_symbol d" for x
  proof -
    obtain c where c: "map_of (rb_latest_regimes s) (rd_symbol d) = Some c" using assms(1) x(1) unfolding latest_ok_def x(2) [symmetric] by blast
    then have "rd_timestamp_ns x \<le> rd_timestamp_ns c" using assms(1) x unfolding latest_ok_def by blast
    then show ?thesis using le [OF c] by simp
  qed
  have "distinct (map fst (AList.update (rd_symbol d) d (rb_latest_regimes s)))"
    using assms(1) by (simp add: latest_ok_def AList.distinct_update)
  then show ?thesis using assms newest unfolding latest_ok_def eq by (auto simp: AList.update_conv' simp del: map_of_eq_Some_iff)
qed

lemma record_snapshot_regimes [simp]:
  "rb_latest_regimes (record_snapshot d s) = rb_latest_regimes s" "rb_pushed_regime_ts (record_snapshot d s) = rb_pushed_regime_ts s"
  by (simp_all add: record_snapshot_def)

lemma record_regime_mark [simp]: "rb_pushed_regime_ts (record_regime d s) = rb_pushed_regime_ts s"
  by (simp add: record_regime_def)

lemma on_snapshot_regimes:
  "on_snapshot_message now stale raw s = (e, s') \<Longrightarrow>
   rb_latest_regimes s' = rb_latest_regimes s \<and> rb_pushed_regime_ts s' = rb_pushed_regime_ts s"
  by (auto simp: on_snapshot_message_def split: option.splits jv.splits sum.splits if_splits)

lemma on_regime_cases:
  assumes "on_regime_message raw s = (e, s')"
  obtains (ignored) "s' = s" "regimes_read raw = []"
  | (recorded) d where "s' = record_regime d s" "regimes_read raw = [d]" "0 < rd_timestamp_ns d"
  using assms that map_regime_positive
  by (auto simp: on_regime_message_def regimes_read_def split: option.splits jv.splits sum.splits if_splits)

lemma bridge_run_inv: "bridge_run stale_after max_batch b received acked \<Longrightarrow> bridge_inv b received acked"
proof (induction rule: bridge_run.induct)
  case start
  show ?case by (simp add: bridge_inv_def BatchState_new_def latest_ok_def acked_mark_def mark_or_0_def)
next
  case (snapshot b received acked now raw e s)
  then show ?case using on_snapshot_regimes [OF snapshot(2)] latest_ok_cong [of s "bg_state b"] by (simp add: bridge_inv_def)
next
  case (regime b received acked raw e s)
  from regime(2) show ?case
  proof (cases rule: on_regime_cases)
    case ignored
    then show ?thesis using regime(3) by simp
  next
    case (recorded d)
    then show ?thesis using regime(3) record_regime_ok [of "bg_state b" received d] by (auto simp: bridge_inv_def)
  qed
next
  case (send b received acked req)
  have ok: "latest_ok (bg_state b) received" using send(4) by (simp add: bridge_inv_def)
  have "set (pb_regimes req) \<subseteq> set (due_regimes (bg_state b))"
    using send(3) set_take_subset by (fastforce simp: push_begin_def build_batch_def build_request_def Let_def split: if_splits)
  also have "\<dots> \<subseteq> set received" using ok due_regimes_iff [of "bg_state b"] unfolding latest_ok_def by blast
  finally show ?case using send(4) by (simp add: bridge_inv_def)
next
  case (answer b received acked req answer)
  have sub: "set (acknowledged req answer) \<subseteq> set (pb_regimes req)"
    by (cases answer) (auto simp: Let_def)
  have "\<forall>k. mark_or_0 (rb_pushed_regime_ts (push_end req answer (bg_state b))) k = acked_mark (acked @ acknowledged req answer) k"
  proof (cases answer)
    case (Inl e)
    then show ?thesis using answer(3) by (simp add: push_end_def bridge_inv_def)
  next
    case (Inr resp)
    let ?r = "parse_response resp req"
    have "\<forall>k. mark_or_0 (rb_pushed_regime_ts (fold mark_snapshot (pu_applied_symbols ?r) (bg_state b))) k = acked_mark acked k"
      using answer(3) by (simp add: bridge_inv_def)
    from mark_regimes_fold [OF this] Inr show ?thesis by (simp add: push_end_def mark_applied_def acknowledged_applied Let_def del: acknowledged.simps)
  qed
  moreover have "rb_latest_regimes (push_end req answer (bg_state b)) = rb_latest_regimes (bg_state b)"
    by (simp add: push_end_def mark_applied_def Let_def split: sum.splits)
  then have "latest_ok (push_end req answer (bg_state b)) = latest_ok (bg_state b)" by (rule latest_ok_cong)
  ultimately show ?case using answer(2,3) sub by (auto simp: bridge_inv_def)
qed


section \<open>Snapshots\<close>

lemma positive_stamp_Inr: "positive_stamp v name = Inr i \<Longrightarrow> 0 < i"
  by (auto simp: positive_stamp_def split: jv.splits if_splits)

lemma map_snapshot_Inr:
  assumes "map_snapshot payload now stale_after = Inr d"
  shows "jget payload ''symbol'' = JvStr (rf_symbol d) \<and> symbol_pattern (rf_symbol d)
    \<and> 0 < rf_mid_price_nanos d \<and> 0 < rf_adv_30d_nanos d \<and> 0 < rf_as_of_ns d
    \<and> price_nanos (jget payload ''mid_price'') ''mid_price'' = Inr (rf_mid_price_nanos d)
    \<and> (rf_is_stale d \<longleftrightarrow> (case map_of payload ''is_stale'' of None \<Rightarrow> False | Some v \<Rightarrow> jv_truthy v)
         \<or> (case map_of payload ''warmup'' of None \<Rightarrow> True | Some v \<Rightarrow> jv_truthy v)
         \<or> now - rf_as_of_ns d < 0 \<or> stale_after < now - rf_as_of_ns d)"
proof -
  obtain symbol as_of mid adv where p: "valid_symbol (jget payload ''symbol'') = Inr symbol"
    "positive_stamp (jget payload ''ingestion_ts_ns'') ''ingestion_ts_ns'' = Inr as_of"
    "price_nanos (jget payload ''mid_price'') ''mid_price'' = Inr mid" "0 < mid" "0 < adv"
    and d: "d = \<lparr>rf_symbol = symbol, rf_mid_price_nanos = mid, rf_adv_30d_nanos = adv, rf_as_of_ns = as_of,
      rf_is_stale = ((case map_of payload ''is_stale'' of None \<Rightarrow> False | Some v \<Rightarrow> jv_truthy v)
         \<or> (case map_of payload ''warmup'' of None \<Rightarrow> True | Some v \<Rightarrow> jv_truthy v)
         \<or> now - as_of < 0 \<or> stale_after < now - as_of)\<rparr>"
    using assms unfolding map_snapshot_def Let_def rbind_eq_Inr by auto
  have "jget payload ''symbol'' = JvStr symbol" "symbol_pattern symbol"
    using p(1) by (auto simp: valid_symbol_def split: jv.splits if_splits)
  then show ?thesis using p positive_stamp_Inr [OF p(2)] unfolding d by simp
qed

lemma record_snapshot_new:
  "x \<in> set (map snd (rb_latest (record_snapshot d s))) \<Longrightarrow> x \<in> set (map snd (rb_latest s)) \<or> x = d"
proof -
  have u: "v \<in> snd ` set (AList.update k d xs) \<Longrightarrow> v \<in> snd ` set xs \<or> v = d" for v k and xs :: "(pystr \<times> ref_snapshot) list"
    by (induction xs) (auto split: if_splits)
  assume "x \<in> set (map snd (rb_latest (record_snapshot d s)))"
  then show ?thesis using u [of x "rf_symbol d" "rb_latest s"] by (auto simp: record_snapshot_def split: if_splits)
qed

text \<open>
  A snapshot is never guessed to be fresh. What a message adds to the snapshots of the bridge comes
  from a JSON object with a valid symbol and positive prices; and it is marked as not stale only if the
  source did not flag it stale, said explicitly that it is out of its warm-up, and its timestamp is neither in
  the future nor older than allowed by the bridge's own clock when the message is handled.
\<close>

theorem snapshot_is_never_guessed_fresh:
  assumes "on_snapshot_message now stale_after raw s = (e, s')"
    and "d \<in> set (map snd (rb_latest s'))" "d \<notin> set (map snd (rb_latest s))"
  shows "\<exists>payload. loads_text raw = Some (JvObj payload) \<and> jget payload ''symbol'' = JvStr (rf_symbol d) \<and> symbol_pattern (rf_symbol d)
    \<and> price_nanos (jget payload ''mid_price'') ''mid_price'' = Inr (rf_mid_price_nanos d)
    \<and> 0 < rf_mid_price_nanos d \<and> 0 < rf_adv_30d_nanos d \<and> 0 < rf_as_of_ns d
    \<and> (rf_is_stale d \<or> ((case map_of payload ''is_stale'' of None \<Rightarrow> True | Some v \<Rightarrow> \<not> jv_truthy v)
         \<and> (\<exists>v. map_of payload ''warmup'' = Some v \<and> \<not> jv_truthy v)
         \<and> rf_as_of_ns d \<le> now \<and> now - rf_as_of_ns d \<le> stale_after))"
proof -
  obtain payload d1 where p: "loads_text raw = Some (JvObj payload)" "map_snapshot payload now stale_after = Inr d1" "s' = record_snapshot d1 s"
    using assms by (auto simp: on_snapshot_message_def split: option.splits jv.splits sum.splits if_splits)
  have d1: "d1 = d" using record_snapshot_new [of d d1 s] assms(2,3) p(3) by blast
  show ?thesis using p(1) map_snapshot_Inr [OF p(2) [unfolded d1]] by (auto split: option.splits)
qed

section \<open>Where the code falls short\<close>

definition demo_snapshot :: "int \<Rightarrow> int \<Rightarrow> ref_snapshot" where
  "demo_snapshot t p = \<lparr>rf_symbol = ''AAA'', rf_mid_price_nanos = p, rf_adv_30d_nanos = 1, rf_as_of_ns = t, rf_is_stale = False\<rparr>"

text \<open>
  A snapshot that arrives while a push of the same symbol awaits Aegis is marked as pushed when the
  answer comes, and is never sent: the mark is taken from the latest snapshot, not from the one sent.
\<close>

lemma newer_snapshot_is_never_pushed:
  "push_begin 64 (record_snapshot (demo_snapshot 1 100) BatchState_new)
     = Inr (Some \<lparr>pb_snapshots = [demo_snapshot 1 100], pb_regimes = []\<rparr>)
   \<and> due_snapshots (push_end \<lparr>pb_snapshots = [demo_snapshot 1 100], pb_regimes = []\<rparr>
        (Inr \<lparr>pr_rejected = [], pr_applied_symbol_regimes = 0\<rparr>)
        (record_snapshot (demo_snapshot 2 200) (record_snapshot (demo_snapshot 1 100) BatchState_new))) = []"
  by code_simp

text \<open>A volume beyond 64-bit nanos is accepted by the mapping, and ends the push loop with an exception.\<close>

lemma large_volume_ends_the_push_loop:
  "case map_snapshot [(''symbol'', JvStr ''AAA''), (''ingestion_ts_ns'', JvInt 1), (''mid_price'', JvInt 1), (''adv_30d'', JvInt 10000000000)] 2 10 of
     Inl _ \<Rightarrow> False | Inr d \<Rightarrow> push_begin 64 (record_snapshot d BatchState_new) = Inl (Exc ''ValueError'' ''Value out of range'')"
  by code_simp

text \<open>A message that is JSON but not an object is not dropped: its handler raises.\<close>

lemma array_message_raises:
  "on_snapshot_message now stale_after ''[]'' s = (Some (Exc ''AttributeError'' ''object has no attribute get''), s)"
proof -
  have "loads_text ''[]'' = Some (JvArr [])" by code_simp
  then show ?thesis by (simp add: on_snapshot_message_def)
qed

text \<open>Production never opens a plaintext channel.\<close>

lemma production_channel_is_secure:
  "RefdataSettings_from_env env = Inr c \<Longrightarrow> rc_environment c = ''production'' \<Longrightarrow> \<not> channel_insecure c"
  by (auto simp: RefdataSettings_from_env_def Let_def rbind_eq_Inr channel_insecure_def guard_def split: if_splits)

section \<open>Witnesses\<close>

definition demo_regime :: regime_data where
  "demo_regime = \<lparr>rd_symbol = ''AAA'', rd_label = ''CRISIS'', rd_confidence = 1, rd_timestamp_ns = 5, rd_state_index = 0\<rparr>"

definition demo_regime_text :: pystr where
  "demo_regime_text = dumps (JvObj [(''confidence'', JvInt 1), (''label'', JvStr ''CRISIS''), (''symbol'', JvStr ''AAA''), (''ts_ns'', JvInt 5)])"

lemma demo_regime_read: "regimes_read demo_regime_text = [demo_regime]"
  by code_simp


definition demo_snapshot_text :: pystr where
  "demo_snapshot_text = dumps (JvObj [(''adv_30d'', JvInt 7), (''ingestion_ts_ns'', JvInt 5), (''mid_price'', JvInt 3),
     (''symbol'', JvStr ''AAA''), (''warmup'', JvBool False)])"

lemma demo_snapshot_value:
  "on_snapshot_message 8 10 demo_snapshot_text BatchState_new
     = (None, BatchState_new\<lparr>rb_latest := [(''AAA'', (demo_snapshot 5 3000000000)\<lparr>rf_adv_30d_nanos := 7000000000\<rparr>)]\<rparr>)"
  by code_simp

theorem snapshot_is_never_guessed_fresh_witness:
  "\<exists>payload. loads_text demo_snapshot_text = Some (JvObj payload) \<and> (\<exists>v. map_of payload ''warmup'' = Some v \<and> \<not> jv_truthy v)"
  using snapshot_is_never_guessed_fresh [OF demo_snapshot_value, of "(demo_snapshot 5 3000000000)\<lparr>rf_adv_30d_nanos := 7000000000\<rparr>"]
  by (auto simp: BatchState_new_def demo_snapshot_def)

end
