(* ===== verification/Bt_Models.thy ===== *)
theory Bt_Models
  imports Json
begin

text \<open>
  The value types of the backtester (\<open>backtesting/models.py\<close>): regimes, bars, order intents, fills,
  round trips and rejections. A \<open>Decimal\<close> that passed validation is a rational, a \<open>float\<close> a rational
  that is a double; the texts of the errors are shortened.
\<close>

abbreviation DataValidationError :: "pystr \<Rightarrow> exc" where
  "DataValidationError \<equiv> Exc ''DataValidationError''"

abbreviation LookaheadError :: "pystr \<Rightarrow> exc" where
  "LookaheadError \<equiv> Exc ''LookaheadError''"

abbreviation AccountingInvariantError :: "pystr \<Rightarrow> exc" where
  "AccountingInvariantError \<equiv> Exc ''AccountingInvariantError''"

section \<open>Regimes\<close>

datatype bt_regime = R_UNKNOWN | R_TRENDING_BULL | R_TRENDING_BEAR | R_HIGH_VOL_CHOP | R_LOW_VOL_CHOP | R_CRISIS

definition REGIME_NAMES :: "(pystr \<times> int \<times> bt_regime) list" where
  "REGIME_NAMES =
     [(''REGIME_UNKNOWN'', 0, R_UNKNOWN), (''TRENDING_BULL'', 1, R_TRENDING_BULL), (''TRENDING_BEAR'', 2, R_TRENDING_BEAR),
      (''HIGH_VOL_CHOP'', 3, R_HIGH_VOL_CHOP), (''LOW_VOL_CHOP'', 4, R_LOW_VOL_CHOP), (''CRISIS'', 5, R_CRISIS)]"

fun regime_number :: "bt_regime \<Rightarrow> int" where
  "regime_number R_UNKNOWN = 0"
| "regime_number R_TRENDING_BULL = 1"
| "regime_number R_TRENDING_BEAR = 2"
| "regime_number R_HIGH_VOL_CHOP = 3"
| "regime_number R_LOW_VOL_CHOP = 4"
| "regime_number R_CRISIS = 5"

definition regime_of_number :: "int \<Rightarrow> bt_regime option" where
  "regime_of_number n = map_of (map snd REGIME_NAMES) n"

definition HMM_STATES :: "bt_regime list" where
  "HMM_STATES = [R_TRENDING_BULL, R_TRENDING_BEAR, R_HIGH_VOL_CHOP, R_LOW_VOL_CHOP, R_CRISIS]"

text \<open>
  What a label may be: an enum member, nothing, a Boolean, an integer, or any other object by its text.
  \<open>str.upper\<close> matters on the letters of the names only. \<open>str.isdigit\<close> is also true of the superscripts
  one, two and three, which \<open>int\<close> refuses.
\<close>

datatype label_value = RvEnum bt_regime | RvNone | RvBool bool | RvInt int | RvText pystr

definition py_upper_ascii :: "pystr \<Rightarrow> pystr" where
  "py_upper_ascii = map (\<lambda>c. if is_lower_ascii c then char_of (code_point c - 32) else c)"

definition py_isdigit :: "pystr \<Rightarrow> bool" where
  "py_isdigit s \<longleftrightarrow> s \<noteq> [] \<and> list_all (\<lambda>c. is_digit_ascii c \<or> code_point c \<in> {0xB2, 0xB3, 0xB9}) s"

definition parse_regime_number :: "int \<Rightarrow> exc + bt_regime" where
  "parse_regime_number n =
     (case regime_of_number n of Some r \<Rightarrow> Inr r | None \<Rightarrow> Inl (DataValidationError ''invalid regime number''))"

fun parse_regime_label :: "label_value \<Rightarrow> exc + bt_regime" where
  "parse_regime_label (RvEnum r) = Inr r"
| "parse_regime_label RvNone = Inr R_UNKNOWN"
| "parse_regime_label (RvBool b) = Inl (DataValidationError ''invalid regime label'')"
| "parse_regime_label (RvInt n) = parse_regime_number n"
| "parse_regime_label (RvText raw) =
     (let s = py_upper_ascii (py_strip raw) in
      if s = [] then Inr R_UNKNOWN
      else if py_isdigit s
      then (case py_int s of None \<Rightarrow> Inl (Exc ''ValueError'' ''invalid literal for int()'') | Some n \<Rightarrow> parse_regime_number n)
      else case map_of REGIME_NAMES s of Some (_, r) \<Rightarrow> Inr r | None \<Rightarrow> Inl (DataValidationError ''unknown regime label''))"

section \<open>Market and orders\<close>

datatype bt_side = BT_BUY | BT_SELL | BT_SELL_SHORT

record bar =
  b_symbol :: pystr
  b_ts :: int
  b_open :: rat
  b_high :: rat
  b_low :: rat
  b_close :: rat
  b_volume :: rat
  b_regime :: bt_regime

text \<open>A limit price is checked to be positive, which an infinite one is.\<close>

record order_intent =
  oi_symbol :: pystr
  oi_side :: bt_side
  oi_quantity :: rat
  oi_omega :: "rat option"
  oi_price_limit :: "dec option"
  oi_valid_for_ns :: "int option"
  oi_tag :: pystr

definition OrderIntent_new ::
  "pystr \<Rightarrow> bt_side \<Rightarrow> dec \<Rightarrow> dec option \<Rightarrow> dec option \<Rightarrow> int option \<Rightarrow> pystr \<Rightarrow> exc + order_intent" where
  "OrderIntent_new symbol side quantity omega limit valid_for tag =
     rbind (case quantity of Fin q \<Rightarrow> if q \<le> 0 then Inl (ConfigError ''order quantity must be positive'') else Inr q
            | _ \<Rightarrow> Inl (ConfigError ''order quantity must be positive'')) (\<lambda>q.
     rbind (case omega of None \<Rightarrow> Inr None
            | Some (Fin x) \<Rightarrow> if 0 \<le> x \<and> x \<le> 1 then Inr (Some x) else Inl (ConfigError ''omega must be within [0, 1]'')
            | Some _ \<Rightarrow> Inl (ConfigError ''omega must be within [0, 1]'')) (\<lambda>om.
     rbind (case limit of None \<Rightarrow> Inr ()
            | Some (Fin x) \<Rightarrow> guard (0 < x) (ConfigError ''price_limit must be positive when given'')
            | Some (Infinity neg) \<Rightarrow> guard (\<not> neg) (ConfigError ''price_limit must be positive when given'')
            | Some NaN \<Rightarrow> Inl (Exc ''InvalidOperation'' [])) (\<lambda>_.
     rbind (case valid_for of None \<Rightarrow> Inr () | Some n \<Rightarrow> guard (0 < n) (ConfigError ''valid_for_ns must be positive when given'')) (\<lambda>_.
     Inr \<lparr>oi_symbol = symbol, oi_side = side, oi_quantity = q, oi_omega = om, oi_price_limit = limit,
          oi_valid_for_ns = valid_for, oi_tag = tag\<rparr>))))"

text \<open>\<open>OrderIntent.of\<close> with a whole number or a \<open>Decimal\<close>.\<close>

definition OrderIntent_of :: "pystr \<Rightarrow> bt_side \<Rightarrow> rat \<Rightarrow> exc + order_intent" where
  "OrderIntent_of symbol side q = OrderIntent_new symbol side (Fin q) None None None []"

record bt_fill =
  bf_order_id :: int
  bf_symbol :: pystr
  bf_side :: bt_side
  bf_quantity :: rat
  bf_price :: rat
  bf_reference_price :: rat
  bf_fee :: rat
  bf_ts :: int
  bf_signal_ts :: int
  bf_regime :: bt_regime
  bf_tag :: pystr

definition signed_quantity :: "bt_fill \<Rightarrow> rat" where
  "signed_quantity f = (if bf_side f = BT_BUY then bf_quantity f else dneg (bf_quantity f))"

definition fill_notional :: "bt_fill \<Rightarrow> rat" where
  "fill_notional f = dmul (bf_quantity f) (bf_price f)"

definition slippage_cost :: "bt_fill \<Rightarrow> rat" where
  "slippage_cost f = dmul (dsub (bf_price f) (bf_reference_price f)) (signed_quantity f)"

record closed_trade =
  ct_symbol :: pystr
  ct_direction :: pystr
  ct_entry_ts :: int
  ct_exit_ts :: int
  ct_quantity :: rat
  ct_avg_entry :: rat
  ct_avg_exit :: rat
  ct_gross_pnl :: rat
  ct_fees :: rat
  ct_regime :: bt_regime

definition net_pnl :: "closed_trade \<Rightarrow> rat" where
  "net_pnl t = dsub (ct_gross_pnl t) (ct_fees t)"

definition return_fraction :: "closed_trade \<Rightarrow> rat" where
  "return_fraction t =
     (let notional = dmul (ct_quantity t) (ct_avg_entry t) in if notional = 0 then 0 else fl (ddiv (net_pnl t) notional))"

definition holding_ns :: "closed_trade \<Rightarrow> int" where
  "holding_ns t = ct_exit_ts t - ct_entry_ts t"

record bt_rejection =
  rj_order_id :: int
  rj_symbol :: pystr
  rj_ts :: int
  rj_reason :: pystr
  rj_quantity :: rat

section \<open>Facts\<close>

lemma regime_of_number_number [simp]: "regime_of_number (regime_number r) = Some r"
  by (cases r) (simp_all add: regime_of_number_def REGIME_NAMES_def)

lemma parse_regime_number_label [simp]: "parse_regime_label (RvInt (regime_number r)) = Inr r"
  by (simp add: parse_regime_number_def)

lemma OrderIntent_new_Inr:
  assumes "OrderIntent_new symbol side quantity omega limit valid_for tag = Inr i"
  shows "quantity = Fin (oi_quantity i) \<and> 0 < oi_quantity i \<and> oi_symbol i = symbol \<and> oi_side i = side
     \<and> oi_price_limit i = limit \<and> oi_valid_for_ns i = valid_for"
  using assms by (cases quantity) (auto simp: OrderIntent_new_def rbind_eq_Inr split: if_splits)

end
