(* ===== verification/Bt_Data.thy ===== *)
theory Bt_Data
  imports Bt_Models
begin

text \<open>
  Market data and the point-in-time feed (\<open>backtesting/data.py\<close>, \<open>backtesting/feed.py\<close>): validated
  columns per symbol, their merged timeline, and the views a strategy reads, which stop at a cursor.
  Reading files and data frames (pandas) is not modelled; timestamps are 64-bit and regimes 8-bit
  integers as their columns hold them.
\<close>

section \<open>Series\<close>

record symbol_series =
  ss_symbol :: pystr
  ss_ts :: "int list"
  ss_open :: "rat list"
  ss_high :: "rat list"
  ss_low :: "rat list"
  ss_close :: "rat list"
  ss_volume :: "rat list"
  ss_regime :: "int list"

fun finite_column :: "dec list \<Rightarrow> rat list option" where
  "finite_column [] = Some []"
| "finite_column (Fin x # xs) = map_option ((#) x) (finite_column xs)"
| "finite_column (_ # xs) = None"

definition series_checks :: "symbol_series \<Rightarrow> exc + unit" where
  "series_checks s =
     rbind (guard (list_all (\<lambda>x. 0 < x) (ss_open s @ ss_high s @ ss_low s @ ss_close s))
       (DataValidationError ''prices must be finite and positive'')) (\<lambda>_.
     rbind (guard (list_all (\<lambda>x. 0 \<le> x) (ss_volume s)) (DataValidationError ''volume must be finite and >= 0'')) (\<lambda>_.
     rbind (guard (list_all2 (\<lambda>h oc. max (fst oc) (snd oc) \<le> h) (ss_high s) (zip (ss_open s) (ss_close s))
              \<and> list_all2 (\<lambda>l oc. l \<le> min (fst oc) (snd oc)) (ss_low s) (zip (ss_open s) (ss_close s)))
       (DataValidationError ''OHLC bounds violated (high/low)'')) (\<lambda>_.
     rbind (guard (successively (<) (ss_ts s)) (DataValidationError ''timestamps must be strictly increasing (no duplicates)'')) (\<lambda>_.
     guard (list_all (\<lambda>r. 0 \<le> r \<and> r \<le> 5) (ss_regime s)) (DataValidationError ''regime value out of range'')))))"

text \<open>\<open>SymbolSeries.create\<close>: without regimes every bar has regime 0.\<close>

definition SymbolSeries_create ::
  "pystr \<Rightarrow> int list \<Rightarrow> dec list \<Rightarrow> dec list \<Rightarrow> dec list \<Rightarrow> dec list \<Rightarrow> dec list \<Rightarrow> int list option \<Rightarrow> exc + symbol_series" where
  "SymbolSeries_create symbol ts opn high low close volume regime =
     (let n = length ts; regimes = (case regime of None \<Rightarrow> replicate n 0 | Some r \<Rightarrow> r) in
      rbind (guard (list_all (\<lambda>c. length c = n) [opn, high, low, close, volume] \<and> length regimes = n)
        (DataValidationError ''column length mismatch'')) (\<lambda>_.
      rbind (guard (n \<noteq> 0) (DataValidationError ''empty series'')) (\<lambda>_.
      case (finite_column opn, finite_column high, finite_column low, finite_column close) of
        (Some po, Some ph, Some pl, Some pc) \<Rightarrow>
          (case finite_column volume of
             None \<Rightarrow> rbind (guard (list_all (\<lambda>x. 0 < x) (po @ ph @ pl @ pc)) (DataValidationError ''prices must be finite and positive''))
                       (\<lambda>_. Inl (DataValidationError ''volume must be finite and >= 0''))
           | Some v \<Rightarrow>
              let s = \<lparr>ss_symbol = symbol, ss_ts = ts, ss_open = po, ss_high = ph, ss_low = pl, ss_close = pc,
                       ss_volume = v, ss_regime = regimes\<rparr>
              in rbind (series_checks s) (\<lambda>_. Inr s))
      | _ \<Rightarrow> Inl (DataValidationError ''prices must be finite and positive''))))"

definition series_len :: "symbol_series \<Rightarrow> nat" where
  "series_len s = length (ss_ts s)"

definition series_bar :: "symbol_series \<Rightarrow> nat \<Rightarrow> bar" where
  "series_bar s i =
     \<lparr>b_symbol = ss_symbol s, b_ts = ss_ts s ! i, b_open = ss_open s ! i, b_high = ss_high s ! i, b_low = ss_low s ! i,
      b_close = ss_close s ! i, b_volume = ss_volume s ! i, b_regime = the (regime_of_number (ss_regime s ! i))\<rparr>"

text \<open>\<open>numpy.searchsorted\<close> on a sorted column, from the left and from the right.\<close>

definition searchsorted_left :: "int list \<Rightarrow> int \<Rightarrow> nat" where
  "searchsorted_left ts t = length (takeWhile (\<lambda>x. x < t) ts)"

definition searchsorted_right :: "int list \<Rightarrow> int \<Rightarrow> nat" where
  "searchsorted_right ts t = length (takeWhile (\<lambda>x. x \<le> t) ts)"

definition column_slice :: "nat \<Rightarrow> nat \<Rightarrow> 'a list \<Rightarrow> 'a list" where
  "column_slice lo hi xs = drop lo (take hi xs)"

definition series_slice_time :: "symbol_series \<Rightarrow> int \<Rightarrow> int \<Rightarrow> exc + symbol_series option" where
  "series_slice_time s start_ns end_ns =
     (let lo = searchsorted_left (ss_ts s) start_ns; hi = searchsorted_right (ss_ts s) end_ns;
          cut = (\<lambda>c. map Fin (column_slice lo hi c)) in
      if hi \<le> lo then Inr None
      else rbind (SymbolSeries_create (ss_symbol s) (column_slice lo hi (ss_ts s)) (cut (ss_open s)) (cut (ss_high s))
              (cut (ss_low s)) (cut (ss_close s)) (cut (ss_volume s)) (Some (column_slice lo hi (ss_regime s))))
           (\<lambda>r. Inr (Some r)))"

section \<open>Market data\<close>

record market_data =
  md_series :: "symbol_series list"
  md_timeline :: "int list"

definition MarketData_new :: "symbol_series list \<Rightarrow> exc + market_data" where
  "MarketData_new series =
     rbind (guard (distinct (map ss_symbol series)) (DataValidationError ''duplicate symbol'')) (\<lambda>_.
     rbind (guard (series \<noteq> []) (DataValidationError ''market data has no symbols'')) (\<lambda>_.
     let by_symbol = sort_key ss_symbol series
     in Inr \<lparr>md_series = by_symbol, md_timeline = sort (remdups (concat (map ss_ts by_symbol)))\<rparr>))"

definition md_symbols :: "market_data \<Rightarrow> pystr list" where
  "md_symbols d = map ss_symbol (md_series d)"

definition md_slice_time :: "market_data \<Rightarrow> int \<Rightarrow> int \<Rightarrow> exc + market_data" where
  "md_slice_time d start_ns end_ns =
     rbind (rmap (\<lambda>s. series_slice_time s start_ns end_ns) (md_series d)) (\<lambda>parts.
     let kept = List.map_filter id parts in
     if kept = [] then Inl (DataValidationError ''no data'') else MarketData_new kept)"

text \<open>The as-of join of a regime series, label times in any order.\<close>

definition asof_label :: "(int \<times> bt_regime) list \<Rightarrow> int \<Rightarrow> int" where
  "asof_label sorted_labels t =
     (let pos = searchsorted_right (map fst sorted_labels) t
      in if pos = 0 then 0 else regime_number (snd (sorted_labels ! (pos - 1))))"

definition with_regimes :: "market_data \<Rightarrow> int list \<Rightarrow> label_value list \<Rightarrow> exc + market_data" where
  "with_regimes d label_ts labels =
     rbind (guard (length label_ts = length labels) (DataValidationError ''regime timestamps and labels differ in length'')) (\<lambda>_.
     rbind (guard (labels \<noteq> []) (DataValidationError ''empty regime series'')) (\<lambda>_.
     rbind (rmap (\<lambda>(t, v). rbind (parse_regime_label v) (\<lambda>r. Inr (t, r))) (sort_key fst (zip label_ts labels))) (\<lambda>sorted_labels.
     rbind (rmap (\<lambda>s. SymbolSeries_create (ss_symbol s) (ss_ts s) (map Fin (ss_open s)) (map Fin (ss_high s))
              (map Fin (ss_low s)) (map Fin (ss_close s)) (map Fin (ss_volume s))
              (Some (map (asof_label sorted_labels) (ss_ts s)))) (md_series d)) MarketData_new)))"

definition MarketData_from_bars :: "bar list \<Rightarrow> exc + market_data" where
  "MarketData_from_bars bars =
     rbind (rmap (\<lambda>symbol.
        let items = sort_key b_ts (filter (\<lambda>b. b_symbol b = symbol) bars) in
        SymbolSeries_create symbol (map b_ts items) (map (Fin \<circ> b_open) items) (map (Fin \<circ> b_high) items)
          (map (Fin \<circ> b_low) items) (map (Fin \<circ> b_close) items) (map (Fin \<circ> b_volume) items)
          (Some (map (regime_number \<circ> b_regime) items)))
        (rev (remdups (rev (map b_symbol bars))))) MarketData_new"

section \<open>Views\<close>

record symbol_history =
  sh_series :: symbol_series
  sh_end :: nat
  sh_now :: int

definition history_get :: "symbol_history \<Rightarrow> int \<Rightarrow> exc + bar" where
  "history_get h i =
     (if int (sh_end h) \<le> i \<or> i < - int (sh_end h) then Inl (LookaheadError ''index is beyond the visible bars'')
      else Inr (series_bar (sh_series h) (nat (if 0 \<le> i then i else int (sh_end h) + i))))"

text \<open>\<open>slice.indices\<close> and \<open>range\<close>.\<close>

definition clamp_index :: "int \<Rightarrow> bool \<Rightarrow> int \<Rightarrow> int" where
  "clamp_index n back i =
     (let lower = (if back then - 1 else 0); upper = (if back then n - 1 else n) in
      if i < 0 then max (i + n) lower else min i upper)"

definition slice_indices :: "nat \<Rightarrow> int option \<Rightarrow> int option \<Rightarrow> int \<Rightarrow> int list" where
  "slice_indices len start stop step =
     (let n = int len; back = (step < 0);
          a = (case start of None \<Rightarrow> if back then n - 1 else 0 | Some i \<Rightarrow> clamp_index n back i);
          b = (case stop of None \<Rightarrow> if back then - 1 else n | Some i \<Rightarrow> clamp_index n back i);
          count = (if back then (if b < a then (a - b - 1) div (- step) + 1 else 0)
                   else (if a < b then (b - a - 1) div step + 1 else 0))
      in map (\<lambda>k. a + int k * step) [0..<nat count])"

definition history_slice :: "symbol_history \<Rightarrow> int option \<Rightarrow> int option \<Rightarrow> int option \<Rightarrow> exc + bar list" where
  "history_slice h start stop step =
     (if (case stop of None \<Rightarrow> False | Some i \<Rightarrow> int (sh_end h) < i)
      then Inl (LookaheadError ''slice stop is beyond the visible bars'')
      else if step = Some 0 then Inl (Exc ''ValueError'' ''slice step cannot be zero'')
      else Inr (map (\<lambda>i. series_bar (sh_series h) (nat i))
             (slice_indices (sh_end h) start stop (case step of None \<Rightarrow> 1 | Some k \<Rightarrow> k))))"

definition history_latest :: "symbol_history \<Rightarrow> bar option" where
  "history_latest h = (if sh_end h = 0 then None else Some (series_bar (sh_series h) (sh_end h - 1)))"

definition history_at :: "symbol_history \<Rightarrow> int \<Rightarrow> exc + bar option" where
  "history_at h t =
     (if sh_now h < t then Inl (LookaheadError ''requested time is after now'')
      else let idx = searchsorted_left (take (sh_end h) (ss_ts (sh_series h))) t
           in Inr (if idx < sh_end h \<and> ss_ts (sh_series h) ! idx = t then Some (series_bar (sh_series h) idx) else None))"

definition history_tail :: "symbol_history \<Rightarrow> (symbol_series \<Rightarrow> 'a list) \<Rightarrow> nat option \<Rightarrow> 'a list" where
  "history_tail h column n =
     (let start = (case n of None \<Rightarrow> 0 | Some k \<Rightarrow> sh_end h - k) in column_slice start (sh_end h) (column (sh_series h)))"

abbreviation history_closes :: "symbol_history \<Rightarrow> nat option \<Rightarrow> rat list" where
  "history_closes h \<equiv> history_tail h ss_close"

record market_view =
  mv_now :: int
  mv_histories :: "symbol_history list"

definition view_history :: "market_view \<Rightarrow> pystr \<Rightarrow> exc + symbol_history" where
  "view_history v symbol =
     (case List.find (\<lambda>h. ss_symbol (sh_series h) = symbol) (mv_histories v) of
        None \<Rightarrow> Inl (DataValidationError ''unknown symbol'') | Some h \<Rightarrow> Inr h)"

definition view_latest :: "market_view \<Rightarrow> pystr \<Rightarrow> exc + bar option" where
  "view_latest v symbol = rbind (view_history v symbol) (\<lambda>h. Inr (history_latest h))"

section \<open>The feed\<close>

record feed_event =
  fe_ts :: int
  fe_new_bars :: "(pystr \<times> bar) list"
  fe_view :: market_view

text \<open>The cursors of the symbols are a list beside the list of series.\<close>

definition at_cursor :: "int \<Rightarrow> symbol_series \<Rightarrow> nat \<Rightarrow> bool" where
  "at_cursor t s i \<longleftrightarrow> i < series_len s \<and> ss_ts s ! i = t"

definition advance :: "int \<Rightarrow> symbol_series \<Rightarrow> nat \<Rightarrow> nat" where
  "advance t s i = (if at_cursor t s i then i + 1 else i)"

definition feed_event_at :: "symbol_series list \<Rightarrow> nat list \<Rightarrow> int \<Rightarrow> feed_event" where
  "feed_event_at series cursor t =
     \<lparr>fe_ts = t,
      fe_new_bars = map (\<lambda>(s, i). (ss_symbol s, series_bar s i)) (filter (\<lambda>(s, i). at_cursor t s i) (zip series cursor)),
      fe_view = \<lparr>mv_now = t, mv_histories = map2 (\<lambda>s i. \<lparr>sh_series = s, sh_end = advance t s i, sh_now = t\<rparr>) series cursor\<rparr>\<rparr>"

fun feed_from :: "symbol_series list \<Rightarrow> nat list \<Rightarrow> int list \<Rightarrow> feed_event list" where
  "feed_from series cursor [] = []"
| "feed_from series cursor (t # ts) = feed_event_at series cursor t # feed_from series (map2 (advance t) series cursor) ts"

definition feed_events :: "market_data \<Rightarrow> feed_event list" where
  "feed_events d = feed_from (md_series d) (replicate (length (md_series d)) 0) (md_timeline d)"

end
