(* ===== verification/Bt_Portfolio.thy ===== *)
theory Bt_Portfolio
  imports Bt_Models
begin

text \<open>
  Portfolio accounting (\<open>backtesting/portfolio.py\<close>) in \<open>Decimal\<close> arithmetic: cash, positions by symbol in
  the order of the dictionary, realised gains, fees, traded value; what a fill does to them, and the
  two identities the engine checks after every event.
\<close>

section \<open>State\<close>

definition dabs :: "rat \<Rightarrow> rat" where
  "dabs x = rnd \<bar>x\<bar>"

definition EQUITY_TOLERANCE :: rat where
  "EQUITY_TOLERANCE = 1 / 10 ^ 9"

record bt_position =
  bp_symbol :: pystr
  bp_quantity :: rat
  bp_avg_cost :: rat
  bp_opened_ts :: int
  bp_regime :: bt_regime
  bp_entry_qty :: rat
  bp_entry_notional :: rat
  bp_exit_qty :: rat
  bp_exit_notional :: rat
  bp_realised_gross :: rat
  bp_fees :: rat

record portfolio =
  pf_initial_cash :: rat
  pf_cash :: rat
  pf_positions :: "(pystr \<times> bt_position) list"
  pf_realised_pnl :: rat
  pf_fees_paid :: rat
  pf_signed_notional :: rat
  pf_traded_notional :: rat

record portfolio_snapshot =
  ps_ts :: int
  ps_cash :: rat
  ps_equity :: rat
  ps_realised_pnl :: rat
  ps_unrealised_pnl :: rat
  ps_fees_paid :: rat
  ps_gross_exposure :: rat
  ps_positions :: "(pystr \<times> bt_position) list"

definition snapshot_quantity :: "portfolio_snapshot \<Rightarrow> pystr \<Rightarrow> rat" where
  "snapshot_quantity s symbol = (case map_of (ps_positions s) symbol of None \<Rightarrow> 0 | Some p \<Rightarrow> bp_quantity p)"

section \<open>Applying a fill\<close>

definition open_position :: "bt_fill \<Rightarrow> rat \<Rightarrow> rat \<Rightarrow> bt_position" where
  "open_position f qty fee =
     \<lparr>bp_symbol = bf_symbol f, bp_quantity = (if 0 < signed_quantity f then qty else dneg qty), bp_avg_cost = bf_price f,
      bp_opened_ts = bf_ts f, bp_regime = bf_regime f, bp_entry_qty = qty, bp_entry_notional = dmul qty (bf_price f),
      bp_exit_qty = 0, bp_exit_notional = 0, bp_realised_gross = 0, bp_fees = fee\<rparr>"

definition trade_from :: "bt_position \<Rightarrow> pystr \<Rightarrow> int \<Rightarrow> exc + closed_trade" where
  "trade_from p direction exit_ts =
     rbind (dquot (bp_entry_notional p) (bp_entry_qty p)) (\<lambda>entry.
     rbind (dquot (bp_exit_notional p) (bp_exit_qty p)) (\<lambda>exit_price.
     Inr \<lparr>ct_symbol = bp_symbol p, ct_direction = direction, ct_entry_ts = bp_opened_ts p, ct_exit_ts = exit_ts,
          ct_quantity = bp_entry_qty p, ct_avg_entry = entry, ct_avg_exit = exit_price,
          ct_gross_pnl = bp_realised_gross p, ct_fees = bp_fees p, ct_regime = bp_regime p\<rparr>))"

definition Portfolio_new :: "rat \<Rightarrow> exc + portfolio" where
  "Portfolio_new initial_cash =
     (if initial_cash \<le> 0 then Inl (AccountingInvariantError ''initial cash must be positive'')
      else Inr \<lparr>pf_initial_cash = initial_cash, pf_cash = initial_cash, pf_positions = [], pf_realised_pnl = 0,
                pf_fees_paid = 0, pf_signed_notional = 0, pf_traded_notional = 0\<rparr>)"

definition increase :: "bt_position option \<Rightarrow> bt_fill \<Rightarrow> exc + bt_position" where
  "increase pos f =
     (case pos of
        None \<Rightarrow> Inr (open_position f (bf_quantity f) (bf_fee f))
      | Some p \<Rightarrow>
          let new_abs = dadd (dabs (bp_quantity p)) (bf_quantity f) in
          rbind (dquot (dadd (dmul (dabs (bp_quantity p)) (bp_avg_cost p)) (dmul (bf_quantity f) (bf_price f))) new_abs) (\<lambda>avg.
          Inr (p\<lparr>bp_quantity := dadd (bp_quantity p) (signed_quantity f), bp_avg_cost := avg,
                 bp_entry_qty := dadd (bp_entry_qty p) (bf_quantity f),
                 bp_entry_notional := dadd (bp_entry_notional p) (dmul (bf_quantity f) (bf_price f)),
                 bp_fees := dadd (bp_fees p) (bf_fee f)\<rparr>)))"

definition reduce :: "bt_position \<Rightarrow> bt_fill \<Rightarrow> exc + (bt_position option \<times> rat \<times> closed_trade list)" where
  "reduce p f =
     (let long = (0 < bp_quantity p);
          close_qty = min (bf_quantity f) (dabs (bp_quantity p));
          realised = dmul (dmul close_qty (dsub (bf_price f) (bp_avg_cost p))) (if long then 1 else - 1) in
      rbind (dquot (dmul (bf_fee f) close_qty) (bf_quantity f)) (\<lambda>fee_close.
      let updated = p\<lparr>bp_quantity := dadd (bp_quantity p) (signed_quantity f),
                      bp_exit_qty := dadd (bp_exit_qty p) close_qty,
                      bp_exit_notional := dadd (bp_exit_notional p) (dmul close_qty (bf_price f)),
                      bp_realised_gross := dadd (bp_realised_gross p) realised,
                      bp_fees := dadd (bp_fees p) fee_close\<rparr> in
      if close_qty < dabs (bp_quantity p) then Inr (Some updated, realised, [])
      else rbind (trade_from updated (if long then ''LONG'' else ''SHORT'') (bf_ts f)) (\<lambda>trade.
           let leftover = dsub (bf_quantity f) close_qty in
           if leftover = 0 then Inr (None, realised, [trade])
           else Inr (Some (open_position f leftover (dsub (bf_fee f) fee_close)), realised, [trade]))))"

definition apply_fill :: "portfolio \<Rightarrow> bt_fill \<Rightarrow> exc + (portfolio \<times> closed_trade list)" where
  "apply_fill pf f =
     (let q = signed_quantity f; pos = map_of (pf_positions pf) (bf_symbol f);
          grows = (case pos of None \<Rightarrow> True | Some p \<Rightarrow> (0 < bp_quantity p) = (0 < q)) in
      rbind (if grows then rbind (increase pos f) (\<lambda>p. Inr (AList.update (bf_symbol f) p (pf_positions pf), 0, []))
             else rbind (reduce (the pos) f) (\<lambda>(new_pos, realised, closed).
                  Inr (case new_pos of None \<Rightarrow> AList.delete (bf_symbol f) (pf_positions pf)
                       | Some p \<Rightarrow> AList.update (bf_symbol f) p (pf_positions pf), realised, closed)))
        (\<lambda>(positions, realised, closed).
      Inr (pf\<lparr>pf_cash := dsub (dsub (pf_cash pf) (dmul q (bf_price f))) (bf_fee f),
              pf_positions := positions,
              pf_realised_pnl := dadd (pf_realised_pnl pf) realised,
              pf_fees_paid := dadd (pf_fees_paid pf) (bf_fee f),
              pf_signed_notional := dadd (pf_signed_notional pf) (dmul q (bf_price f)),
              pf_traded_notional := dadd (pf_traded_notional pf) (fill_notional f)\<rparr>, closed)))"

section \<open>Valuation and the checks\<close>

definition mark_of :: "(pystr \<times> rat) list \<Rightarrow> pystr \<times> bt_position \<Rightarrow> rat" where
  "mark_of marks sp = (case map_of marks (fst sp) of Some m \<Rightarrow> m | None \<Rightarrow> bp_avg_cost (snd sp))"

definition unrealised_pnl :: "portfolio \<Rightarrow> (pystr \<times> rat) list \<Rightarrow> rat" where
  "unrealised_pnl pf marks =
     dsum (map (\<lambda>sp. dmul (bp_quantity (snd sp)) (dsub (mark_of marks sp) (bp_avg_cost (snd sp)))) (pf_positions pf))"

definition gross_exposure :: "portfolio \<Rightarrow> (pystr \<times> rat) list \<Rightarrow> rat" where
  "gross_exposure pf marks = dsum (map (\<lambda>sp. dmul (dabs (bp_quantity (snd sp))) (mark_of marks sp)) (pf_positions pf))"

definition portfolio_equity :: "portfolio \<Rightarrow> (pystr \<times> rat) list \<Rightarrow> rat" where
  "portfolio_equity pf marks =
     dadd (pf_cash pf) (dsum (map (\<lambda>sp. dmul (bp_quantity (snd sp)) (mark_of marks sp)) (pf_positions pf)))"

definition check_invariants :: "portfolio \<Rightarrow> (pystr \<times> rat) list \<Rightarrow> exc + unit" where
  "check_invariants pf marks =
     rbind (guard (pf_cash pf = dsub (dsub (pf_initial_cash pf) (pf_signed_notional pf)) (pf_fees_paid pf))
       (AccountingInvariantError ''cash conservation violated'')) (\<lambda>_.
     guard (\<not> EQUITY_TOLERANCE < dabs (dsub (portfolio_equity pf marks)
         (dsub (dadd (dadd (pf_initial_cash pf) (pf_realised_pnl pf)) (unrealised_pnl pf marks)) (pf_fees_paid pf))))
       (AccountingInvariantError ''equity identity violated''))"

definition portfolio_snapshot_at :: "portfolio \<Rightarrow> int \<Rightarrow> (pystr \<times> rat) list \<Rightarrow> portfolio_snapshot" where
  "portfolio_snapshot_at pf ts marks =
     \<lparr>ps_ts = ts, ps_cash = pf_cash pf, ps_equity = portfolio_equity pf marks, ps_realised_pnl = pf_realised_pnl pf,
      ps_unrealised_pnl = unrealised_pnl pf marks, ps_fees_paid = pf_fees_paid pf,
      ps_gross_exposure = gross_exposure pf marks, ps_positions = pf_positions pf\<rparr>"

end
