(* ===== verification/Bt_Execution.thy ===== *)
theory Bt_Execution
  imports Bt_Portfolio
begin

text \<open>
  Execution simulation (\<open>backtesting/execution.py\<close>): costs, slippage, fills capped by participation,
  price collar and limits. Volatility over a price history is numpy's (\<open>np.std(np.diff(np.log(closes)))\<close>)
  and a parameter. Floats are doubles; results beyond their range are not modelled.
\<close>

section \<open>Square roots\<close>

text \<open>
  \<open>math.sqrt\<close> is correctly rounded. The integer square root of the argument, scaled so that it has more
  than 54 bits, and one further bit that tells whether it is exact decide the rounding.
\<close>

fun isqrt :: "int \<Rightarrow> int" where
  "isqrt n = (if n \<le> 0 then 0 else let r = 2 * isqrt (n div 4) in if (r + 1) * (r + 1) \<le> n then r + 1 else r)"

declare isqrt.simps [simp del]

definition py_sqrt :: "rat \<Rightarrow> rat" where
  "py_sqrt x =
     (if x \<le> 0 then 0
      else let k = 55 - binary_exponent x div 2; y = x * pow2 (2 * k); s = isqrt \<lfloor>y\<rfloor>
           in if of_int (s * s) = y then fl (of_int s / pow2 k) else fl ((of_int (2 * s) + 1) / pow2 (k + 1)))"

section \<open>Configuration\<close>

definition BPS :: rat where
  "BPS = fl (1 / 10000)"

datatype impact_model = IMPACT_NONE | IMPACT_LINEAR | IMPACT_SQRT

datatype fill_price = FP_OPEN | FP_CLOSE

record cost_model =
  cm_commission_per_share :: rat
  cm_commission_rate :: rat
  cm_min_commission :: rat
  cm_half_spread_bps :: rat
  cm_impact_model :: impact_model
  cm_impact_coefficient :: rat
  cm_vol_lookback :: int

definition nonneg_float :: "dec \<Rightarrow> pystr \<Rightarrow> exc + rat" where
  "nonneg_float x msg = (case x of Fin v \<Rightarrow> if v < 0 then Inl (ConfigError msg) else Inr v | _ \<Rightarrow> Inl (ConfigError msg))"

definition CostModel_new :: "rat \<Rightarrow> rat \<Rightarrow> rat \<Rightarrow> dec \<Rightarrow> impact_model \<Rightarrow> dec \<Rightarrow> int \<Rightarrow> exc + cost_model" where
  "CostModel_new per_share rate minimum half_spread impact coefficient lookback =
     rbind (guard (0 \<le> min (min per_share rate) minimum) (ConfigError ''commissions must be non-negative'')) (\<lambda>_.
     rbind (nonneg_float half_spread ''half_spread_bps must be finite and non-negative'') (\<lambda>hs.
     rbind (nonneg_float coefficient ''impact_coefficient must be finite and non-negative'') (\<lambda>co.
     rbind (guard (2 \<le> lookback) (ConfigError ''vol_lookback must be >= 2'')) (\<lambda>_.
     Inr \<lparr>cm_commission_per_share = per_share, cm_commission_rate = rate, cm_min_commission = minimum,
          cm_half_spread_bps = hs, cm_impact_model = impact, cm_impact_coefficient = co, cm_vol_lookback = lookback\<rparr>))))"

text \<open>A collar that is not a number passes the check \<open>collar_bps <= 0\<close>, and no deviation exceeds it.\<close>

record execution_config =
  ex_latency_ns :: int
  ex_latency_jitter_ns :: int
  ex_participation_cap :: rat
  ex_collar_bps :: "dec option"
  ex_fill_price :: fill_price
  ex_default_ttl_ns :: "int option"
  ex_allow_short :: bool
  ex_enforce_cash :: bool
  ex_omega_threshold :: "rat option"

fun collar_positive :: "dec \<Rightarrow> bool" where
  "collar_positive (Fin x) \<longleftrightarrow> 0 < x"
| "collar_positive (Infinity neg) \<longleftrightarrow> \<not> neg"
| "collar_positive NaN \<longleftrightarrow> True"

definition ExecutionConfig_new :: "execution_config \<Rightarrow> exc + execution_config" where
  "ExecutionConfig_new c =
     rbind (guard (0 \<le> ex_latency_ns c \<and> 0 \<le> ex_latency_jitter_ns c) (ConfigError ''latency must be non-negative'')) (\<lambda>_.
     rbind (guard (0 < ex_participation_cap c \<and> ex_participation_cap c \<le> 1) (ConfigError ''participation_cap must be in (0, 1]'')) (\<lambda>_.
     rbind (guard (case ex_collar_bps c of None \<Rightarrow> True | Some x \<Rightarrow> collar_positive x)
       (ConfigError ''collar_bps must be positive when given'')) (\<lambda>_.
     rbind (guard (case ex_default_ttl_ns c of None \<Rightarrow> True | Some n \<Rightarrow> 0 < n)
       (ConfigError ''default_ttl_ns must be positive when given'')) (\<lambda>_.
     rbind (guard (case ex_omega_threshold c of None \<Rightarrow> True | Some x \<Rightarrow> 0 \<le> x \<and> x \<le> 1)
       (ConfigError ''omega_threshold must be within [0, 1]'')) (\<lambda>_. Inr c)))))"

section \<open>Orders\<close>

record pending_order =
  po_order_id :: int
  po_intent :: order_intent
  po_created_ts :: int
  po_eligible_ts :: int
  po_expires_ts :: "int option"
  po_decision_price :: rat
  po_remaining :: rat
  po_regime :: bt_regime

record fill_attempt =
  fa_fill :: "bt_fill option"
  fa_order :: "pending_order option"
  fa_rejection :: "bt_rejection option"

text \<open>\<open>Decimal(f"{value:.6f}")\<close>\<close>

definition to_decimal_6 :: "rat \<Rightarrow> rat" where
  "to_decimal_6 x = of_int (round_half_even (x * 10 ^ 6)) / 10 ^ 6"

definition reference_price :: "bar \<Rightarrow> fill_price \<Rightarrow> rat" where
  "reference_price b mode = (if mode = FP_OPEN then b_open b else b_close b)"

definition bar_sigma :: "(rat list \<Rightarrow> rat) \<Rightarrow> rat list \<Rightarrow> bar \<Rightarrow> rat" where
  "bar_sigma np_std closes b = (if 3 \<le> length closes then np_std closes else fl (fl (b_high b - b_low b) / b_close b))"

definition slippage_fraction :: "cost_model \<Rightarrow> rat \<Rightarrow> rat \<Rightarrow> rat \<Rightarrow> rat" where
  "slippage_fraction c quantity volume sigma =
     (let frac = fl (cm_half_spread_bps c * BPS); participation = (if 0 < volume then fl (quantity / volume) else 0) in
      case cm_impact_model c of
        IMPACT_NONE \<Rightarrow> frac
      | IMPACT_LINEAR \<Rightarrow> fl (frac + fl (cm_impact_coefficient c * participation))
      | IMPACT_SQRT \<Rightarrow> fl (frac + fl (fl (cm_impact_coefficient c * sigma) * py_sqrt participation)))"

definition commission :: "cost_model \<Rightarrow> rat \<Rightarrow> rat \<Rightarrow> rat" where
  "commission c quantity notional =
     max (dadd (dmul quantity (cm_commission_per_share c)) (dmul notional (cm_commission_rate c))) (cm_min_commission c)"

definition reject_order :: "pending_order \<Rightarrow> int \<Rightarrow> pystr \<Rightarrow> fill_attempt" where
  "reject_order o1 ts reason =
     \<lparr>fa_fill = None, fa_order = None,
      fa_rejection = Some \<lparr>rj_order_id = po_order_id o1, rj_symbol = oi_symbol (po_intent o1), rj_ts = ts, rj_reason = reason,
        rj_quantity = po_remaining o1\<rparr>\<rparr>"

definition validate_side :: "pending_order \<Rightarrow> rat \<Rightarrow> execution_config \<Rightarrow> int \<Rightarrow> rat \<times> fill_attempt option" where
  "validate_side o1 position cfg ts =
     (case oi_side (po_intent o1) of
        BT_SELL \<Rightarrow> if position \<le> 0 then (po_remaining o1, Some (reject_order o1 ts ''no_long_position''))
                   else (min (po_remaining o1) position, None)
      | BT_SELL_SHORT \<Rightarrow>
          if \<not> ex_allow_short cfg then (po_remaining o1, Some (reject_order o1 ts ''shorting_disabled''))
          else if 0 < position then (po_remaining o1, Some (reject_order o1 ts ''short_while_long''))
          else (po_remaining o1, None)
      | BT_BUY \<Rightarrow> (po_remaining o1, None))"

fun dec_le_limit :: "rat \<Rightarrow> dec \<Rightarrow> bool" where
  "dec_le_limit x (Fin y) \<longleftrightarrow> x \<le> y"
| "dec_le_limit x (Infinity neg) \<longleftrightarrow> \<not> neg"
| "dec_le_limit x NaN \<longleftrightarrow> False"

fun dec_ge_limit :: "rat \<Rightarrow> dec \<Rightarrow> bool" where
  "dec_ge_limit x (Fin y) \<longleftrightarrow> y \<le> x"
| "dec_ge_limit x (Infinity neg) \<longleftrightarrow> neg"
| "dec_ge_limit x NaN \<longleftrightarrow> False"

definition limit_ok :: "order_intent \<Rightarrow> rat \<Rightarrow> bool" where
  "limit_ok i price =
     (case oi_price_limit i of None \<Rightarrow> True
      | Some l \<Rightarrow> if oi_side i = BT_BUY then dec_le_limit price l else dec_ge_limit price l)"

definition collar_violated :: "execution_config \<Rightarrow> rat \<Rightarrow> rat \<Rightarrow> bool" where
  "collar_violated cfg ref decision_price =
     (case ex_collar_bps cfg of Some (Fin bps) \<Rightarrow> fl (bps * BPS) < \<bar>fl (fl (ref / decision_price) - 1)\<bar> | _ \<Rightarrow> False)"

definition attempt_fill ::
  "(rat list \<Rightarrow> rat) \<Rightarrow> pending_order \<Rightarrow> bar \<Rightarrow> rat list \<Rightarrow> rat \<Rightarrow> rat \<Rightarrow> rat \<Rightarrow> cost_model \<Rightarrow> execution_config \<Rightarrow> fill_attempt" where
  "attempt_fill np_std o1 b closes capacity_left position cash cost cfg =
     (case validate_side o1 position cfg (b_ts b) of
        (_, Some terminal) \<Rightarrow> terminal
      | (max_qty, None) \<Rightarrow>
         let i = po_intent o1; ref = reference_price b (ex_fill_price cfg); qty = min max_qty capacity_left;
             wait = \<lparr>fa_fill = None, fa_order = Some o1, fa_rejection = None\<rparr> in
         if collar_violated cfg ref (po_decision_price o1) then reject_order o1 (b_ts b) ''price_collar''
         else if qty \<le> 0 then wait
         else let sign = (if oi_side i = BT_BUY then 1 else - 1);
                  slip = slippage_fraction cost (fl qty) (b_volume b) (bar_sigma np_std closes b);
                  price = to_decimal_6 (max (fl (ref * fl (1 + sign * slip))) (fl (1 / 10 ^ 6))) in
           if \<not> limit_ok i price then wait
           else let notional = dmul qty price; fee = commission cost qty notional in
             if ex_enforce_cash cfg \<and> oi_side i = BT_BUY \<and> 0 \<le> position \<and> cash < dadd notional fee
             then reject_order o1 (b_ts b) ''insufficient_cash''
             else let left = dsub (po_remaining o1) qty in
               \<lparr>fa_fill = Some \<lparr>bf_order_id = po_order_id o1, bf_symbol = oi_symbol i, bf_side = oi_side i, bf_quantity = qty,
                  bf_price = price, bf_reference_price = to_decimal_6 ref, bf_fee = fee, bf_ts = b_ts b,
                  bf_signal_ts = po_created_ts o1, bf_regime = po_regime o1, bf_tag = oi_tag i\<rparr>,
                fa_order = (if 0 < left then Some (o1\<lparr>po_remaining := left\<rparr>) else None), fa_rejection = None\<rparr>)"

section \<open>Facts\<close>

lemma isqrt_correct: "0 \<le> n \<Longrightarrow> 0 \<le> isqrt n \<and> isqrt n * isqrt n \<le> n \<and> n < (isqrt n + 1) * (isqrt n + 1)"
proof (induction n rule: isqrt.induct)
  case (1 n)
  show ?case
  proof (cases "n \<le> 0")
    case True
    then show ?thesis using 1 isqrt.simps [of n] by simp
  next
    case False
    define r where "r = isqrt (n div 4)"
    have r: "0 \<le> r" "r * r \<le> n div 4" "n div 4 < (r + 1) * (r + 1)"
      using 1(1) False by (simp_all add: r_def)
    have lo: "(2 * r) * (2 * r) \<le> n" using r(2) by simp
    have "4 * (n div 4) + 4 \<le> 4 * ((r + 1) * (r + 1))" using r(3) by simp
    then have hi: "n < (2 * r + 2) * (2 * r + 2)" by (simp add: algebra_simps) 
    have eq: "isqrt n = (if (2 * r + 1) * (2 * r + 1) \<le> n then 2 * r + 1 else 2 * r)"
      using False by (subst isqrt.simps) (simp add: r_def Let_def)
    show ?thesis
    proof (cases "(2 * r + 1) * (2 * r + 1) \<le> n")
      case True
      then show ?thesis using eq r hi by (simp add: algebra_simps)
    next
      case False
      then show ?thesis using eq r lo by simp
    qed
  qed
qed

end
