(* ===== verification/Bt_Engine.thy ===== *)
theory Bt_Engine
  imports Bt_Data Bt_Execution
begin

text \<open>
  The event-driven engine (\<open>backtesting/engine.py\<close>) and the reference strategies
  (\<open>backtesting/strategies.py\<close>). A strategy is a function of its own state, the view and the portfolio
  snapshot; the seeded generator of latency jitter is numpy's, given by the sequence of its draws. The
  metrics computed from the finished curve are not modelled.
\<close>

section \<open>State\<close>

type_synonym 's strategy = "'s \<Rightarrow> market_view \<Rightarrow> portfolio_snapshot \<Rightarrow> exc + (order_intent list \<times> 's)"

record backtest_config =
  bc_initial_cash :: rat
  bc_cost :: cost_model
  bc_execution :: execution_config
  bc_trading_start :: "int option"
  bc_regime_symbol :: "pystr option"
  bc_check_invariants :: bool

definition BacktestConfig_new :: "backtest_config \<Rightarrow> exc + backtest_config" where
  "BacktestConfig_new c = (if bc_initial_cash c \<le> 0 then Inl (ConfigError ''initial_cash must be positive'') else Inr c)"

record curve_point =
  cp_ts :: int
  cp_equity :: rat
  cp_gross :: rat
  cp_regime :: int

record 's run_state_bt =
  bs_portfolio :: portfolio
  bs_marks :: "(pystr \<times> rat) list"
  bs_pending :: "pending_order list"
  bs_fills :: "bt_fill list"
  bs_trades :: "closed_trade list"
  bs_rejections :: "bt_rejection list"
  bs_abstained :: "order_intent list"
  bs_next_order_id :: int
  bs_draws :: nat
  bs_curve :: "curve_point list"
  bs_strategy :: 's

text \<open>numpy as the engine sees it: the volatility of a price history, and the draws of the generator.\<close>

record numpy_world =
  np_std_log :: "rat list \<Rightarrow> rat"
  np_draw :: "nat \<Rightarrow> int \<Rightarrow> int"

section \<open>One event\<close>

definition event_regime :: "feed_event \<Rightarrow> pystr option \<Rightarrow> int" where
  "event_regime ev regime_symbol =
     (case regime_symbol of
        Some s \<Rightarrow> (case map_of (fe_new_bars ev) s of Some b \<Rightarrow> regime_number (b_regime b) | None \<Rightarrow> 0)
      | None \<Rightarrow> (case fe_new_bars ev of [] \<Rightarrow> 0
          | nb # nbs \<Rightarrow> (case map_of (fe_new_bars ev) (fold (\<lambda>x m. min m (fst x)) nbs (fst nb)) of
              Some b \<Rightarrow> regime_number (b_regime b) | None \<Rightarrow> 0)))"

definition update_marks :: "(pystr \<times> bar) list \<Rightarrow> (pystr \<times> rat) list \<Rightarrow> (pystr \<times> rat) list" where
  "update_marks new_bars marks = fold (\<lambda>(s, b). AList.update s (to_decimal_6 (b_close b))) new_bars marks"

definition expired :: "feed_event \<Rightarrow> pending_order \<Rightarrow> bool" where
  "expired ev o1 \<longleftrightarrow> (case po_expires_ts o1 of None \<Rightarrow> False | Some t \<Rightarrow> t < fe_ts ev)"

definition bar_capacity :: "bar \<Rightarrow> execution_config \<Rightarrow> rat" where
  "bar_capacity b ex = of_int \<lfloor>fl (b_volume b * ex_participation_cap ex)\<rfloor>"

text \<open>One order of the loop in \<open>_process_pending\<close>: the capacities left, and what stays open.\<close>

definition process_order ::
  "numpy_world \<Rightarrow> feed_event \<Rightarrow> backtest_config \<Rightarrow> pending_order \<Rightarrow>
   (pystr \<times> rat) list \<times> pending_order list \<times> 's run_state_bt \<Rightarrow> exc + (pystr \<times> rat) list \<times> pending_order list \<times> 's run_state_bt" where
  "process_order np ev cfg o1 acc =
     (case acc of (capacity, still_open, st) \<Rightarrow>
      let sym = oi_symbol (po_intent o1) in
      if expired ev o1
      then Inr (capacity, still_open, st\<lparr>bs_rejections := bs_rejections st @
             [\<lparr>rj_order_id = po_order_id o1, rj_symbol = sym, rj_ts = fe_ts ev, rj_reason = ''expired'', rj_quantity = po_remaining o1\<rparr>]\<rparr>)
      else case map_of (fe_new_bars ev) sym of
        None \<Rightarrow> Inr (capacity, still_open @ [o1], st)
      | Some b \<Rightarrow>
         if fe_ts ev \<le> po_created_ts o1 \<or> fe_ts ev < po_eligible_ts o1 then Inr (capacity, still_open @ [o1], st)
         else
          let cap1 = (case map_of capacity sym of Some _ \<Rightarrow> capacity
                      | None \<Rightarrow> AList.update sym (bar_capacity b (bc_execution cfg)) capacity);
              left = the (map_of cap1 sym);
              position = (case map_of (pf_positions (bs_portfolio st)) sym of Some p \<Rightarrow> bp_quantity p | None \<Rightarrow> 0) in
          rbind (view_history (fe_view ev) sym) (\<lambda>h.
          let attempt = attempt_fill (np_std_log np) o1 b (history_closes h (Some (nat (cm_vol_lookback (bc_cost cfg) + 1))))
                 left position (pf_cash (bs_portfolio st)) (bc_cost cfg) (bc_execution cfg);
              st1 = (case fa_rejection attempt of None \<Rightarrow> st | Some r \<Rightarrow> st\<lparr>bs_rejections := bs_rejections st @ [r]\<rparr>);
              open1 = (case fa_order attempt of None \<Rightarrow> still_open | Some o2 \<Rightarrow> still_open @ [o2]) in
          case fa_fill attempt of
            None \<Rightarrow> Inr (cap1, open1, st1)
          | Some f \<Rightarrow>
              rbind (apply_fill (bs_portfolio st1) f) (\<lambda>(pf, closed).
              Inr (AList.update sym (dsub left (bf_quantity f)) cap1, open1,
                   st1\<lparr>bs_portfolio := pf, bs_fills := bs_fills st1 @ [f], bs_trades := bs_trades st1 @ closed\<rparr>))))"

fun process_orders ::
  "numpy_world \<Rightarrow> feed_event \<Rightarrow> backtest_config \<Rightarrow> pending_order list \<Rightarrow>
   (pystr \<times> rat) list \<times> pending_order list \<times> 's run_state_bt \<Rightarrow> exc + (pystr \<times> rat) list \<times> pending_order list \<times> 's run_state_bt" where
  "process_orders np ev cfg [] acc = Inr acc"
| "process_orders np ev cfg (o1 # os) acc = rbind (process_order np ev cfg o1 acc) (process_orders np ev cfg os)"

definition process_pending :: "numpy_world \<Rightarrow> feed_event \<Rightarrow> backtest_config \<Rightarrow> 's run_state_bt \<Rightarrow> exc + 's run_state_bt" where
  "process_pending np ev cfg st =
     rbind (process_orders np ev cfg (bs_pending st) ([], [], st)) (\<lambda>(_, still_open, st').
     Inr (st'\<lparr>bs_pending := still_open\<rparr>))"

definition abstains :: "execution_config \<Rightarrow> order_intent \<Rightarrow> bool" where
  "abstains ex i =
     (case (ex_omega_threshold ex, oi_omega i) of (Some t, Some om) \<Rightarrow> om < t | _ \<Rightarrow> False)"

definition enqueue_one ::
  "numpy_world \<Rightarrow> feed_event \<Rightarrow> backtest_config \<Rightarrow> order_intent \<Rightarrow> 's run_state_bt \<Rightarrow> exc + 's run_state_bt" where
  "enqueue_one np ev cfg i st =
     (let ex = bc_execution cfg in
      rbind (view_latest (fe_view ev) (oi_symbol i)) (\<lambda>latest.
      if abstains ex i then Inr (st\<lparr>bs_abstained := bs_abstained st @ [i]\<rparr>)
      else let oid = bs_next_order_id st; st1 = st\<lparr>bs_next_order_id := oid + 1\<rparr> in
        case latest of
          None \<Rightarrow> Inr (st1\<lparr>bs_rejections := bs_rejections st1 @
              [\<lparr>rj_order_id = oid, rj_symbol = oi_symbol i, rj_ts = fe_ts ev, rj_reason = ''no_market_data'', rj_quantity = oi_quantity i\<rparr>]\<rparr>)
        | Some b \<Rightarrow>
            let draws = (ex_latency_jitter_ns ex \<noteq> 0);
                jitter = (if draws then np_draw np (bs_draws st1) (ex_latency_jitter_ns ex) else 0);
                ttl = (case oi_valid_for_ns i of Some n \<Rightarrow> Some n | None \<Rightarrow> ex_default_ttl_ns ex)
            in Inr (st1\<lparr>bs_draws := bs_draws st1 + (if draws then 1 else 0),
                        bs_pending := bs_pending st1 @
                          [\<lparr>po_order_id = oid, po_intent = i, po_created_ts = fe_ts ev,
                            po_eligible_ts = fe_ts ev + ex_latency_ns ex + jitter,
                            po_expires_ts = map_option (\<lambda>n. fe_ts ev + n) ttl, po_decision_price = b_close b,
                            po_remaining = oi_quantity i, po_regime = b_regime b\<rparr>]\<rparr>)))"

fun enqueue :: "numpy_world \<Rightarrow> feed_event \<Rightarrow> backtest_config \<Rightarrow> order_intent list \<Rightarrow> 's run_state_bt \<Rightarrow> exc + 's run_state_bt" where
  "enqueue np ev cfg [] st = Inr st"
| "enqueue np ev cfg (i # is) st = rbind (enqueue_one np ev cfg i st) (enqueue np ev cfg is)"

definition trading_at :: "backtest_config \<Rightarrow> feed_event \<Rightarrow> bool" where
  "trading_at cfg ev \<longleftrightarrow> (case bc_trading_start cfg of None \<Rightarrow> True | Some t \<Rightarrow> t \<le> fe_ts ev)"

definition run_event ::
  "numpy_world \<Rightarrow> backtest_config \<Rightarrow> 's strategy \<Rightarrow> feed_event \<Rightarrow> 's run_state_bt \<Rightarrow> exc + 's run_state_bt" where
  "run_event np cfg strategy ev st0 =
     (let st = st0\<lparr>bs_marks := update_marks (fe_new_bars ev) (bs_marks st0)\<rparr> in
      if \<not> trading_at cfg ev then Inr st
      else rbind (process_pending np ev cfg st) (\<lambda>st1.
           rbind (if bc_check_invariants cfg then check_invariants (bs_portfolio st1) (bs_marks st1) else Inr ()) (\<lambda>_.
           let pf = bs_portfolio st1; marks = bs_marks st1;
               st2 = st1\<lparr>bs_curve := bs_curve st1 @
                 [\<lparr>cp_ts = fe_ts ev, cp_equity = fl (portfolio_equity pf marks), cp_gross = fl (gross_exposure pf marks),
                   cp_regime = event_regime ev (bc_regime_symbol cfg)\<rparr>]\<rparr> in
           rbind (strategy (bs_strategy st2) (fe_view ev) (portfolio_snapshot_at pf (fe_ts ev) marks)) (\<lambda>(intents, s).
           enqueue np ev cfg intents (st2\<lparr>bs_strategy := s\<rparr>)))))"

section \<open>A run\<close>

fun run_events ::
  "numpy_world \<Rightarrow> backtest_config \<Rightarrow> 's strategy \<Rightarrow> feed_event list \<Rightarrow> 's run_state_bt \<Rightarrow> exc + 's run_state_bt" where
  "run_events np cfg strategy [] st = Inr st"
| "run_events np cfg strategy (ev # evs) st = rbind (run_event np cfg strategy ev st) (run_events np cfg strategy evs)"

definition run_start :: "backtest_config \<Rightarrow> 's \<Rightarrow> exc + 's run_state_bt" where
  "run_start cfg s =
     rbind (Portfolio_new (bc_initial_cash cfg)) (\<lambda>pf.
     Inr \<lparr>bs_portfolio = pf, bs_marks = [], bs_pending = [], bs_fills = [], bs_trades = [], bs_rejections = [],
          bs_abstained = [], bs_next_order_id = 1, bs_draws = 0, bs_curve = [], bs_strategy = s\<rparr>)"

definition run_backtest :: "numpy_world \<Rightarrow> market_data \<Rightarrow> 's strategy \<Rightarrow> 's \<Rightarrow> backtest_config \<Rightarrow> exc + 's run_state_bt" where
  "run_backtest np d strategy s cfg = rbind (run_start cfg s) (run_events np cfg strategy (feed_events d))"

section \<open>Reference strategies\<close>

text \<open>\<open>int(Decimal(str(fraction)) * equity / Decimal(str(close)))\<close>\<close>

definition trunc_int :: "rat \<Rightarrow> int" where
  "trunc_int x = (if x < 0 then - \<lfloor>- x\<rfloor> else \<lfloor>x\<rfloor>)"

definition affordable :: "rat \<Rightarrow> portfolio_snapshot \<Rightarrow> bar \<Rightarrow> int" where
  "affordable fraction port b = trunc_int (ddiv (dmul (shortest_decimal fraction) (ps_equity port)) (shortest_decimal (b_close b)))"

definition buy_all :: "pystr \<Rightarrow> rat \<Rightarrow> portfolio_snapshot \<Rightarrow> bar \<Rightarrow> exc + order_intent list" where
  "buy_all symbol fraction port b =
     (let qty = affordable fraction port b in
      if 0 < qty then rbind (OrderIntent_of symbol BT_BUY (of_int qty)) (\<lambda>i. Inr [i]) else Inr [])"

definition buy_and_hold_inner :: "pystr \<Rightarrow> rat \<Rightarrow> market_view \<Rightarrow> portfolio_snapshot \<Rightarrow> exc + order_intent list" where
  "buy_and_hold_inner symbol fraction v port =
     rbind (view_latest v symbol) (\<lambda>latest.
     case latest of None \<Rightarrow> Inr []
     | Some b \<Rightarrow> if snapshot_quantity port symbol \<noteq> 0 then Inr [] else buy_all symbol fraction port b)"

text \<open>The state of \<open>_once_only\<close> is whether orders were given.\<close>

definition once_only :: "(market_view \<Rightarrow> portfolio_snapshot \<Rightarrow> exc + order_intent list) \<Rightarrow> bool strategy" where
  "once_only inner done v port =
     (if done then Inr ([], done) else rbind (inner v port) (\<lambda>intents. Inr (intents, intents \<noteq> [])))"

definition buy_and_hold :: "pystr \<Rightarrow> rat \<Rightarrow> bool strategy" where
  "buy_and_hold symbol fraction = once_only (buy_and_hold_inner symbol fraction)"

definition sma_crossover_new :: "int \<Rightarrow> int \<Rightarrow> exc + unit" where
  "sma_crossover_new fast slow = guard (0 < fast \<and> fast < slow) (Exc ''ValueError'' ''require 0 < fast < slow'')"

text \<open>The mean of a column is numpy's and a parameter; a validated pair of windows is positive.\<close>

definition sma_decision :: "(rat list \<Rightarrow> rat) \<Rightarrow> pystr \<Rightarrow> nat \<Rightarrow> nat \<Rightarrow> rat \<Rightarrow> portfolio_snapshot \<Rightarrow> symbol_history \<Rightarrow> exc + order_intent list" where
  "sma_decision np_mean symbol fast slow fraction port h =
     (case history_latest h of
        None \<Rightarrow> Inr []
      | Some b \<Rightarrow>
         if sh_end h < slow then Inr []
         else let closes = history_closes h (Some slow);
                  bullish = (np_mean closes < np_mean (drop (length closes - fast) closes));
                  held = snapshot_quantity port symbol in
           if bullish \<and> held = 0 then buy_all symbol fraction port b
           else if \<not> bullish \<and> 0 < held then rbind (OrderIntent_of symbol BT_SELL held) (\<lambda>i. Inr [i])
           else Inr [])"

definition sma_crossover :: "(rat list \<Rightarrow> rat) \<Rightarrow> pystr \<Rightarrow> nat \<Rightarrow> nat \<Rightarrow> rat \<Rightarrow> unit strategy" where
  "sma_crossover np_mean symbol fast slow fraction u v port =
     rbind (view_history v symbol) (\<lambda>h. rbind (sma_decision np_mean symbol fast slow fraction port h) (\<lambda>intents. Inr (intents, u)))"

end
