(* ===== verification/Bt_Causality.thy ===== *)
theory Bt_Causality
  imports Bt_Engine
begin

text \<open>
  No look-ahead: a run up to an instant depends on the market only through the bars stamped at or
  before it. Two runs are compared, over data that agree up to that instant.
\<close>

section \<open>Histories that show the same\<close>

definition series_eq :: "nat \<Rightarrow> symbol_series \<Rightarrow> symbol_series \<Rightarrow> bool" where
  "series_eq n s s' \<longleftrightarrow> ss_symbol s = ss_symbol s' \<and> take n (ss_ts s) = take n (ss_ts s')
     \<and> take n (ss_open s) = take n (ss_open s') \<and> take n (ss_high s) = take n (ss_high s')
     \<and> take n (ss_low s) = take n (ss_low s') \<and> take n (ss_close s) = take n (ss_close s')
     \<and> take n (ss_volume s) = take n (ss_volume s') \<and> take n (ss_regime s) = take n (ss_regime s')"

definition history_eq :: "symbol_history \<Rightarrow> symbol_history \<Rightarrow> bool" where
  "history_eq h h' \<longleftrightarrow> sh_end h = sh_end h' \<and> sh_now h = sh_now h' \<and> series_eq (sh_end h) (sh_series h) (sh_series h')"

definition view_eq :: "market_view \<Rightarrow> market_view \<Rightarrow> bool" where
  "view_eq v v' \<longleftrightarrow> mv_now v = mv_now v' \<and> list_all2 history_eq (mv_histories v) (mv_histories v')"

definition event_eq :: "feed_event \<Rightarrow> feed_event \<Rightarrow> bool" where
  "event_eq ev ev' \<longleftrightarrow> fe_ts ev = fe_ts ev' \<and> fe_new_bars ev = fe_new_bars ev' \<and> view_eq (fe_view ev) (fe_view ev')"

lemma take_eq_nth: "take n xs = take n ys \<Longrightarrow> i < n \<Longrightarrow> xs ! i = ys ! i"
  by (metis nth_take)

lemma take_eq_le: "take n xs = take n ys \<Longrightarrow> m \<le> n \<Longrightarrow> take m xs = take m ys"
  by (metis min.absorb1 take_take)

lemma series_eq_le: "series_eq n s s' \<Longrightarrow> m \<le> n \<Longrightarrow> series_eq m s s'"
  unfolding series_eq_def by (elim conjE, intro conjI; (assumption | rule take_eq_le))

lemma series_nth_eq:
  assumes "series_eq n s s'" "i < n"
  shows "ss_symbol s = ss_symbol s'" "ss_ts s ! i = ss_ts s' ! i" "ss_open s ! i = ss_open s' ! i"
    "ss_high s ! i = ss_high s' ! i" "ss_low s ! i = ss_low s' ! i" "ss_close s ! i = ss_close s' ! i"
    "ss_volume s ! i = ss_volume s' ! i" "ss_regime s ! i = ss_regime s' ! i"
  using assms take_eq_nth unfolding series_eq_def by metis+

lemma series_bar_eq: "series_eq n s s' \<Longrightarrow> i < n \<Longrightarrow> series_bar s i = series_bar s' i"
  unfolding series_bar_def by (simp only: series_nth_eq)

text \<open>What each accessor of a history returns or raises is determined by what is visible.\<close>

lemma history_get_eq: "history_eq h h' \<Longrightarrow> history_get h i = history_get h' i"
  by (auto simp: history_eq_def history_get_def intro!: series_bar_eq)

lemma le_div_mult: "0 < m \<Longrightarrow> k \<le> x div m \<Longrightarrow> k * m \<le> x" for k m x :: int
proof -
  assume m: "0 < m" and k: "k \<le> x div m"
  have "k * m \<le> x div m * m" using m k by (intro mult_right_mono) simp_all
  also have "\<dots> = x - x mod m" by (simp add: minus_mod_eq_div_mult)
  also have "\<dots> \<le> x" using m by simp
  finally show ?thesis .
qed

lemma slice_indices_bounds:
  assumes "i \<in> set (slice_indices n start stop step)" "step \<noteq> 0"
  shows "0 \<le> i \<and> i < int n"
proof -
  define down where "down = (step < 0)"
  define a where "a = (case start of None \<Rightarrow> if down then int n - 1 else 0 | Some i \<Rightarrow> clamp_index (int n) down i)"
  define b where "b = (case stop of None \<Rightarrow> if down then - 1 else int n | Some i \<Rightarrow> clamp_index (int n) down i)"
  define count where "count = (if down then (if b < a then (a - b - 1) div (- step) + 1 else 0)
                   else (if a < b then (b - a - 1) div step + 1 else 0))"
  have "slice_indices n start stop step = map (\<lambda>k. a + int k * step) [0..<nat count]"
    unfolding slice_indices_def Let_def count_def a_def b_def down_def ..
  then have "i \<in> (\<lambda>k. a + int k * step) ` {0..<nat count}" using assms(1) by simp
  then obtain k where k: "i = a + int k * step" "k \<in> {0..<nat count}" by (rule imageE)
  then have "int k < count" by auto
  note k = k(1) this
  have ab: "down \<Longrightarrow> a \<le> int n - 1" "\<not> down \<Longrightarrow> 0 \<le> a" "down \<Longrightarrow> - 1 \<le> b" "\<not> down \<Longrightarrow> b \<le> int n"
    by (auto simp: a_def b_def clamp_index_def Let_def split: option.splits)
  show ?thesis
  proof (cases down)
    case True
    then have neg: "0 < - step" by (simp add: down_def)
    have "b < a" "int k \<le> (a - b - 1) div (- step)" using k(2) True by (auto simp: count_def split: if_splits)
    then have "int k * (- step) \<le> a - b - 1" by (intro le_div_mult neg)
    moreover have "0 \<le> int k * (- step)" using neg by (intro mult_nonneg_nonneg) simp_all
    ultimately show ?thesis using k(1) ab(1) [OF True] ab(3) [OF True] by simp
  next
    case False
    then have pos: "0 < step" using assms(2) by (simp add: down_def)
    have "a < b" "int k \<le> (b - a - 1) div step" using k(2) False by (auto simp: count_def split: if_splits)
    then have "int k * step \<le> b - a - 1" by (intro le_div_mult pos)
    moreover have "0 \<le> int k * step" using pos by simp
    ultimately show ?thesis using k(1) ab(2) [OF False] ab(4) [OF False] by simp
  qed
qed

lemma history_slice_eq: "history_eq h h' \<Longrightarrow> history_slice h start stop step = history_slice h' start stop step"
  unfolding history_eq_def history_slice_def
  by (auto split: option.splits intro!: series_bar_eq dest!: slice_indices_bounds)

lemma history_latest_eq: "history_eq h h' \<Longrightarrow> history_latest h = history_latest h'"
  by (auto simp: history_eq_def history_latest_def intro!: series_bar_eq)

lemma history_at_eq: "history_eq h h' \<Longrightarrow> history_at h t = history_at h' t"
proof -
  assume h: "history_eq h h'"
  let ?idx = "\<lambda>h. searchsorted_left (take (sh_end h) (ss_ts (sh_series h))) t"
  have e: "sh_end h = sh_end h'" "sh_now h = sh_now h'" "?idx h = ?idx h'" and s: "series_eq (sh_end h) (sh_series h) (sh_series h')"
    using h by (auto simp: history_eq_def series_eq_def)
  have "?idx h' < sh_end h \<Longrightarrow> ss_ts (sh_series h) ! ?idx h' = ss_ts (sh_series h') ! ?idx h'
      \<and> series_bar (sh_series h) (?idx h') = series_bar (sh_series h') (?idx h')"
    using series_nth_eq(2) [OF s] series_bar_eq [OF s] by blast
  then show ?thesis unfolding history_at_def e(2) Let_def e(3) using e(1) by auto
qed

lemma history_closes_eq: "history_eq h h' \<Longrightarrow> history_closes h n = history_closes h' n"
  by (clarsimp simp: history_eq_def history_tail_def column_slice_def series_eq_def split: option.split)

lemma history_len_eq: "history_eq h h' \<Longrightarrow> sh_end h = sh_end h'"
  by (simp add: history_eq_def)

lemma find_list_all2:
  assumes "list_all2 R xs ys" "\<And>x y. R x y \<Longrightarrow> P x = Q y"
  shows "rel_option R (List.find P xs) (List.find Q ys)"
  using assms(1) by induction (auto simp: assms(2))

lemma view_history_eq:
  assumes "view_eq v v'"
  shows "rel_sum (=) history_eq (view_history v symbol) (view_history v' symbol)"
proof -
  have "rel_option history_eq (List.find (\<lambda>h. ss_symbol (sh_series h) = symbol) (mv_histories v))
      (List.find (\<lambda>h. ss_symbol (sh_series h) = symbol) (mv_histories v'))"
    by (rule find_list_all2) (use assms in \<open>auto simp: view_eq_def history_eq_def series_eq_def\<close>)
  then show ?thesis by (auto simp: view_history_def elim!: option.rel_cases)
qed

text \<open>The continuation of a look-up in the view.\<close>

lemma rbind_history_eq:
  assumes "view_eq v v'" "\<And>h h'. history_eq h h' \<Longrightarrow> k h = k' h'"
  shows "rbind (view_history v symbol) k = rbind (view_history v' symbol) k'"
  using view_history_eq [OF assms(1), of symbol] assms(2) by (auto elim!: rel_sum.cases)

lemma view_latest_eq: "view_eq v v' \<Longrightarrow> view_latest v symbol = view_latest v' symbol"
  unfolding view_latest_def by (rule rbind_history_eq) (auto dest: history_latest_eq)

section \<open>Causal strategies\<close>

text \<open>
  A strategy that reads the view through its accessors cannot tell two views apart that show the same.
  (Python cannot stop one from reaching into private attributes; the module says so.)
\<close>

definition causal :: "'s strategy \<Rightarrow> bool" where
  "causal strategy \<longleftrightarrow> (\<forall>s v v' port. view_eq v v' \<longrightarrow> strategy s v port = strategy s v' port)"

lemma causal_buy_and_hold: "causal (buy_and_hold symbol fraction)"
  unfolding causal_def
proof (intro allI impI)
  fix s v v' port assume v: "view_eq v v'"
  show "buy_and_hold symbol fraction s v port = buy_and_hold symbol fraction s v' port"
    by (simp add: buy_and_hold_def once_only_def buy_and_hold_inner_def view_latest_eq [OF v])
qed

lemma sma_decision_eq:
  "history_eq h h' \<Longrightarrow> sma_decision np_mean symbol fast slow fraction port h = sma_decision np_mean symbol fast slow fraction port h'"
  unfolding sma_decision_def by (simp only: history_latest_eq history_closes_eq history_len_eq)

lemma causal_sma_crossover: "causal (sma_crossover np_mean symbol fast slow fraction)"
  unfolding causal_def
proof (intro allI impI)
  fix u v v' port assume v: "view_eq v v'"
  show "sma_crossover np_mean symbol fast slow fraction u v port = sma_crossover np_mean symbol fast slow fraction u v' port"
    unfolding sma_crossover_def
    by (rule rbind_history_eq [OF v]) (simp only: sma_decision_eq)
qed

section \<open>The engine on events that show the same\<close>

lemma rbind_ext: "(\<And>x. k x = k' x) \<Longrightarrow> rbind m k = rbind m k'"
  by (cases m) simp_all

lemma process_order_eq:
  assumes "event_eq ev ev'"
  shows "process_order np ev cfg o1 acc = process_order np ev' cfg o1 acc"
proof -
  have ts: "fe_ts ev = fe_ts ev'" and nb: "fe_new_bars ev = fe_new_bars ev'" and v: "view_eq (fe_view ev) (fe_view ev')"
    using assms by (auto simp: event_eq_def)
  show ?thesis
    unfolding process_order_def expired_def ts nb
    by (cases acc) (auto simp: Let_def split: option.split intro!: rbind_history_eq [OF v] simp: history_closes_eq)
qed

lemma process_orders_eq:
  "event_eq ev ev' \<Longrightarrow> process_orders np ev cfg os acc = process_orders np ev' cfg os acc"
proof (induction os arbitrary: acc)
  case (Cons o1 os)
  show ?case by (simp add: process_order_eq [OF Cons.prems]) (rule rbind_ext, rule Cons.IH [OF Cons.prems])
qed simp

lemma process_pending_eq: "event_eq ev ev' \<Longrightarrow> process_pending np ev cfg st = process_pending np ev' cfg st"
  by (simp add: process_pending_def process_orders_eq)

lemma enqueue_eq: "event_eq ev ev' \<Longrightarrow> enqueue np ev cfg is st = enqueue np ev' cfg is st"
proof (induction "is" arbitrary: st)
  case (Cons i "is")
  have "enqueue_one np ev cfg i st = enqueue_one np ev' cfg i st"
  proof -
    have t: "fe_ts ev = fe_ts ev'" and v: "view_eq (fe_view ev) (fe_view ev')"
      using Cons.prems by (simp_all add: event_eq_def)
    show ?thesis unfolding enqueue_one_def t view_latest_eq [OF v] ..
  qed
  then show ?case by simp (rule rbind_ext, rule Cons.IH [OF Cons.prems])
qed simp

lemma run_event_eq:
  assumes "event_eq ev ev'" "causal strategy"
  shows "run_event np cfg strategy ev st = run_event np cfg strategy ev' st"
proof -
  have s: "strategy s (fe_view ev) port = strategy s (fe_view ev') port" for s port
    using assms by (simp add: causal_def event_eq_def)
  have e: "fe_ts ev = fe_ts ev'" "fe_new_bars ev = fe_new_bars ev'" using assms(1) by (simp_all add: event_eq_def)
  show ?thesis
    unfolding run_event_def trading_at_def event_regime_def e s process_pending_eq [OF assms(1)] enqueue_eq [OF assms(1)] ..
qed

lemma run_events_eq:
  assumes "list_all2 event_eq evs evs'" "causal strategy"
  shows "run_events np cfg strategy evs st = run_events np cfg strategy evs' st"
  using assms(1)
proof (induction arbitrary: st)
  case (Cons ev evs ev' evs')
  show ?case by (simp add: run_event_eq [OF Cons.hyps(1) assms(2)]) (rule rbind_ext, rule Cons.IH)
qed simp

lemma run_events_append:
  "run_events np cfg strategy (evs @ evs') st = rbind (run_events np cfg strategy evs st) (run_events np cfg strategy evs')"
proof (induction evs arbitrary: st)
  case (Cons ev evs)
  then show ?case by (cases "run_event np cfg strategy ev st") simp_all
qed simp

section \<open>The feed of data that agree up to an instant\<close>

definition series_agree :: "int \<Rightarrow> symbol_series \<Rightarrow> symbol_series \<Rightarrow> bool" where
  "series_agree t s s' \<longleftrightarrow>
     searchsorted_right (ss_ts s) t = searchsorted_right (ss_ts s') t \<and> series_eq (searchsorted_right (ss_ts s) t) s s'"

definition data_agree :: "int \<Rightarrow> market_data \<Rightarrow> market_data \<Rightarrow> bool" where
  "data_agree t d d' \<longleftrightarrow> list_all2 (series_agree t) (md_series d) (md_series d')"

definition series_valid :: "symbol_series \<Rightarrow> bool" where
  "series_valid s \<longleftrightarrow> series_checks s = Inr ()"

definition data_valid :: "market_data \<Rightarrow> bool" where
  "data_valid d \<longleftrightarrow> list_all series_valid (md_series d) \<and> md_timeline d = sort (remdups (concat (map ss_ts (md_series d))))"

lemma SymbolSeries_create_valid: "SymbolSeries_create sy ts op hi lo cl vo re = Inr s \<Longrightarrow> series_valid s"
  by (auto simp: SymbolSeries_create_def Let_def rbind_eq_Inr series_valid_def split: option.splits)

lemma MarketData_new_valid:
  assumes "MarketData_new series = Inr d" "list_all series_valid series"
  shows "data_valid d"
  using assms by (auto simp: MarketData_new_def rbind_eq_Inr data_valid_def list_all_iff Let_def)

lemma MarketData_from_bars_valid: "MarketData_from_bars bars = Inr d \<Longrightarrow> data_valid d"
  unfolding MarketData_from_bars_def rbind_eq_Inr Let_def rmap_Inr
  by (elim exE conjE, rule MarketData_new_valid)
    (auto simp: list_all_iff dest!: list_all2_mem2 intro: SymbolSeries_create_valid)

lemma series_valid_sorted: "series_valid s \<Longrightarrow> sorted (ss_ts s)"
  by (auto simp: series_valid_def series_checks_def rbind_eq_Inr successively_conv_sorted_wrt strict_sorted_imp_sorted)

lemma at_cursor_agree:
  assumes "series_agree u s s'" "i \<le> searchsorted_right (ss_ts s) u" "t \<le> u"
  shows "at_cursor t s i = at_cursor t s' i" "at_cursor t s i \<Longrightarrow> i < searchsorted_right (ss_ts s) u"
proof -
  define n where "n = searchsorted_right (ss_ts s) u"
  have n: "n = length (takeWhile (\<lambda>x. x \<le> u) (ss_ts s))" "n = length (takeWhile (\<lambda>x. x \<le> u) (ss_ts s'))"
    using assms(1) by (simp_all add: n_def series_agree_def searchsorted_right_def)
  have lt: "i < n" if "i < length xs" "xs ! i = t" "n = length (takeWhile (\<lambda>x. x \<le> u) xs)" for xs :: "int list"
  proof (rule ccontr)
    assume "\<not> i < n"
    then have i: "i = n" using assms(2) by (simp add: n_def)
    then have "\<not> xs ! n \<le> u" using that nth_length_takeWhile [of "\<lambda>x. x \<le> u" xs] by simp
    then show False using that(2) i assms(3) by simp
  qed
  have len: "n \<le> length (ss_ts s)" "n \<le> length (ss_ts s')" using n by (metis length_takeWhile_le)+
  have nth: "ss_ts s ! i = ss_ts s' ! i" if "i < n"
    using assms(1) that by (auto simp: series_agree_def series_eq_def n_def dest: take_eq_nth)
  show "at_cursor t s i \<Longrightarrow> i < searchsorted_right (ss_ts s) u"
    using lt [of "ss_ts s"] n by (auto simp: at_cursor_def series_len_def n_def)
  show "at_cursor t s i = at_cursor t s' i"
    using lt [of "ss_ts s"] lt [of "ss_ts s'"] n nth len by (auto simp: at_cursor_def series_len_def)
qed

lemma feed_event_agree:
  assumes "list_all2 (series_agree u) series series'" "t \<le> u" "length cursor = length series"
    and "list_all2 (\<lambda>s i. i \<le> searchsorted_right (ss_ts s) u) series cursor"
  shows "event_eq (feed_event_at series cursor t) (feed_event_at series' cursor t)
    \<and> map2 (advance t) series cursor = map2 (advance t) series' cursor
    \<and> list_all2 (\<lambda>s i. i \<le> searchsorted_right (ss_ts s) u) series (map2 (advance t) series cursor)"
  using assms(1,3,4)
proof (induction arbitrary: cursor)
  case Nil
  then show ?case by (simp add: event_eq_def feed_event_at_def view_eq_def)
next
  case (Cons s series s' series')
  then obtain i cur where cur: "cursor = i # cur" by (cases cursor) auto
  have i: "i \<le> searchsorted_right (ss_ts s) u" using Cons.prems cur by simp
  note ac = at_cursor_agree [OF Cons.hyps(1) i assms(2)]
  have ih: "event_eq (feed_event_at series cur t) (feed_event_at series' cur t)"
    "map2 (advance t) series cur = map2 (advance t) series' cur"
    "list_all2 (\<lambda>s i. i \<le> searchsorted_right (ss_ts s) u) series (map2 (advance t) series cur)"
    using Cons.IH [of cur] Cons.prems cur by auto
  have adv: "advance t s i = advance t s' i" "advance t s i \<le> searchsorted_right (ss_ts s) u"
    using ac i by (auto simp: advance_def)
  have se: "series_eq (searchsorted_right (ss_ts s) u) s s'" using Cons.hyps(1) unfolding series_agree_def by blast
  have b: "at_cursor t s i \<Longrightarrow> series_bar s i = series_bar s' i" using ac series_bar_eq [OF se] by blast
  have "series_eq (advance t s i) s s'" by (rule series_eq_le [OF se adv(2)])
  then show ?case using ih adv b ac(1) se
    by (auto simp: cur event_eq_def feed_event_at_def view_eq_def history_eq_def series_eq_def)
qed

lemma feed_from_agree:
  assumes "list_all2 (series_agree u) series series'" "list_all (\<lambda>t. t \<le> u) ts" "length cursor = length series"
    and "list_all2 (\<lambda>s i. i \<le> searchsorted_right (ss_ts s) u) series cursor"
  shows "list_all2 event_eq (feed_from series cursor ts) (feed_from series' cursor ts)"
  using assms(2-4)
proof (induction ts arbitrary: cursor)
  case (Cons t ts)
  then have "t \<le> u" by simp
  note st = feed_event_agree [OF assms(1) this Cons.prems(2,3)]
  have ts: "list_all (\<lambda>t. t \<le> u) ts" and len: "length (map2 (advance t) series cursor) = length series"
    using Cons.prems(1,2) by simp_all
  have "list_all2 event_eq (feed_from series (map2 (advance t) series cursor) ts)
      (feed_from series' (map2 (advance t) series cursor) ts)"
    by (rule Cons.IH [OF ts len]) (use st in blast)
  then show ?case using st by (simp only: feed_from.simps list.rel_inject)
qed simp

lemma feed_from_takeWhile:
  "takeWhile (\<lambda>ev. fe_ts ev \<le> u) (feed_from series cursor ts) = feed_from series cursor (takeWhile (\<lambda>t. t \<le> u) ts)"
  by (induction ts arbitrary: cursor) (auto simp: feed_event_at_def)

lemma takeWhile_sorted_filter: "sorted xs \<Longrightarrow> takeWhile (\<lambda>t. t \<le> (u :: int)) xs = filter (\<lambda>t. t \<le> u) xs"
proof (induction xs)
  case (Cons a xs)
  show ?case
  proof (cases "a \<le> u")
    case False
    then have "filter (\<lambda>t. t \<le> u) xs = []" using Cons.prems by (fastforce simp: filter_empty_conv)
    then show ?thesis using False by simp
  qed (use Cons in simp)
qed simp

lemma agree_filter:
  assumes "series_agree u s s'" "series_valid s" "series_valid s'"
  shows "filter (\<lambda>t. t \<le> u) (ss_ts s) = filter (\<lambda>t. t \<le> u) (ss_ts s')"
proof -
  have tw: "takeWhile (\<lambda>t. t \<le> u) xs = take (searchsorted_right xs u) xs" for xs
    unfolding searchsorted_right_def by (rule takeWhile_eq_take)
  have "takeWhile (\<lambda>t. t \<le> u) (ss_ts s) = takeWhile (\<lambda>t. t \<le> u) (ss_ts s')"
    using assms(1) tw [of "ss_ts s"] tw [of "ss_ts s'"] unfolding series_agree_def series_eq_def by metis
  then show ?thesis using assms(2,3) by (simp add: takeWhile_sorted_filter series_valid_sorted)
qed

lemma timeline_agree:
  assumes "data_valid d" "data_valid d'" "data_agree u d d'"
  shows "takeWhile (\<lambda>t. t \<le> u) (md_timeline d) = takeWhile (\<lambda>t. t \<le> u) (md_timeline d')"
proof -
  have "concat (map (filter (\<lambda>t. t \<le> u) \<circ> ss_ts) (md_series d)) = concat (map (filter (\<lambda>t. t \<le> u) \<circ> ss_ts) (md_series d'))"
  proof -
    have "list_all2 (\<lambda>s s'. filter (\<lambda>t. t \<le> u) (ss_ts s) = filter (\<lambda>t. t \<le> u) (ss_ts s')) (md_series d) (md_series d')"
      using assms unfolding data_agree_def data_valid_def
      by (auto simp: list_all2_conv_all_nth list_all_length intro!: agree_filter)
    then have "map (filter (\<lambda>t. t \<le> u) \<circ> ss_ts) (md_series d) = map (filter (\<lambda>t. t \<le> u) \<circ> ss_ts) (md_series d')"
      by (auto simp: list_all2_conv_all_nth intro: nth_equalityI)
    then show ?thesis by simp
  qed
  then have "filter (\<lambda>t. t \<le> u) (concat (map ss_ts (md_series d))) = filter (\<lambda>t. t \<le> u) (concat (map ss_ts (md_series d')))"
    by (simp add: filter_concat)
  then have "filter (\<lambda>t. t \<le> u) (md_timeline d) = filter (\<lambda>t. t \<le> u) (md_timeline d')"
    using assms(1,2) by (simp add: data_valid_def filter_sort remdups_filter [symmetric])
  moreover have "sorted (md_timeline d)" "sorted (md_timeline d')" using assms(1,2) by (simp_all add: data_valid_def)
  ultimately show ?thesis by (simp add: takeWhile_sorted_filter)
qed

section \<open>No look-ahead\<close>

definition run_until :: "int \<Rightarrow> numpy_world \<Rightarrow> market_data \<Rightarrow> 's strategy \<Rightarrow> 's \<Rightarrow> backtest_config \<Rightarrow> exc + 's run_state_bt" where
  "run_until u np d strategy s cfg =
     rbind (run_start cfg s) (run_events np cfg strategy (takeWhile (\<lambda>ev. fe_ts ev \<le> u) (feed_events d)))"

lemma run_backtest_split:
  "run_backtest np d strategy s cfg =
     rbind (run_until u np d strategy s cfg) (run_events np cfg strategy (dropWhile (\<lambda>ev. fe_ts ev \<le> u) (feed_events d)))"
proof -
  let ?p = "\<lambda>ev. fe_ts ev \<le> u"
  have "feed_events d = takeWhile ?p (feed_events d) @ dropWhile ?p (feed_events d)" by simp
  then have "run_events np cfg strategy (feed_events d) st =
      rbind (run_events np cfg strategy (takeWhile ?p (feed_events d)) st) (run_events np cfg strategy (dropWhile ?p (feed_events d)))" for st
    by (metis run_events_append)
  then show ?thesis by (cases "run_start cfg s") (simp_all add: run_backtest_def run_until_def)
qed


text \<open>Two markets of one symbol that part after the second bar.\<close>

definition demo_bar :: "int \<Rightarrow> rat \<Rightarrow> bar" where
  "demo_bar t p = \<lparr>b_symbol = ''AAA'', b_ts = t, b_open = p, b_high = p + 1, b_low = p - 1, b_close = p, b_volume = 1000,
     b_regime = R_TRENDING_BULL\<rparr>"

definition demo_series :: "(int \<times> rat) list \<Rightarrow> symbol_series" where
  "demo_series rows = \<lparr>ss_symbol = ''AAA'', ss_ts = map fst rows, ss_open = map snd rows, ss_high = map (\<lambda>r. snd r + 1) rows,
     ss_low = map (\<lambda>r. snd r - 1) rows, ss_close = map snd rows, ss_volume = map (\<lambda>r. 1000) rows, ss_regime = map (\<lambda>r. 1) rows\<rparr>"

definition demo_data :: "(int \<times> rat) list \<Rightarrow> market_data" where
  "demo_data rows = \<lparr>md_series = [demo_series rows], md_timeline = map fst rows\<rparr>"

definition demo_config :: backtest_config where
  "demo_config = \<lparr>bc_initial_cash = 100000, bc_cost = \<lparr>cm_commission_per_share = 0, cm_commission_rate = 1 / 2000,
       cm_min_commission = 1, cm_half_spread_bps = 0, cm_impact_model = IMPACT_NONE, cm_impact_coefficient = 0, cm_vol_lookback = 20\<rparr>,
     bc_execution = \<lparr>ex_latency_ns = 0, ex_latency_jitter_ns = 0, ex_participation_cap = 1, ex_collar_bps = None,
       ex_fill_price = FP_CLOSE, ex_default_ttl_ns = None, ex_allow_short = False, ex_enforce_cash = True, ex_omega_threshold = None\<rparr>,
     bc_trading_start = None, bc_regime_symbol = None, bc_check_invariants = True\<rparr>"

definition demo_numpy :: numpy_world where
  "demo_numpy = \<lparr>np_std_log = (\<lambda>_. 0), np_draw = (\<lambda>_ _. 0)\<rparr>"

lemma demo_from_bars:
  "MarketData_from_bars (map (\<lambda>(t, p). demo_bar t p) [(2, 110), (1, 100)]) = Inr (demo_data [(1, 100), (2, 110)])"
  by code_simp


end
