(* ===== verification/Bt_Orders.thy ===== *)
theory Bt_Orders
  imports Bt_Engine
begin

text \<open>
  One pass of the engine over its open orders: quantities subtracted exactly, what an attempt at a fill
  can do, the invariant of the positions under fills, the order book (the orders placed, the part of each
  that is still open, the fills), and that the loop of \<open>_process_pending\<close> keeps them.
\<close>

section \<open>Quantities on a grid\<close>

text \<open>
  Decimal subtraction rounds at 28 digits. A quantity that is a multiple of \<open>10 ^ (- g)\<close> and small
  enough to leave room for \<open>g\<close> decimals is subtracted exactly.
\<close>

definition fits :: "nat \<Rightarrow> rat \<Rightarrow> bool" where
  "fits g q \<longleftrightarrow> on_grid g q \<and> \<bar>q\<bar> * 10 ^ g \<le> 10 ^ 28"

lemma fits_exact: "fits g q \<Longrightarrow> rnd q = q"
  unfolding fits_def using rnd_on_grid by blast

lemma on_grid_diff: "on_grid g a \<Longrightarrow> on_grid g b \<Longrightarrow> on_grid g (a - b)"
  unfolding on_grid_iff by (metis left_diff_distrib of_int_diff)

lemma on_grid_add: "on_grid g a \<Longrightarrow> on_grid g b \<Longrightarrow> on_grid g (a + b)"
  unfolding on_grid_iff by (metis distrib_right of_int_add)

lemma on_grid_uminus: "on_grid g a \<Longrightarrow> on_grid g (- a)"
  unfolding on_grid_iff by (metis mult_minus_left of_int_minus)

lemma on_grid_min: "on_grid g a \<Longrightarrow> on_grid g b \<Longrightarrow> on_grid g (min a b)"
  by (simp add: min_def)

lemma on_grid_of_int [simp]: "on_grid g (of_int i)"
  unfolding on_grid_iff by (metis of_int_mult of_int_numeral of_int_power)

lemma on_grid_0 [simp]: "on_grid g 0"
  using on_grid_of_int [of g 0] by simp

lemma fits_le: "fits g b \<Longrightarrow> on_grid g a \<Longrightarrow> \<bar>a\<bar> \<le> \<bar>b\<bar> \<Longrightarrow> fits g a"
proof -
  assume b: "fits g b" and a: "on_grid g a" "\<bar>a\<bar> \<le> \<bar>b\<bar>"
  have "\<bar>a\<bar> * 10 ^ g \<le> \<bar>b\<bar> * 10 ^ g" using a(2) by (simp add: mult_right_mono)
  then show ?thesis using a b unfolding fits_def by linarith
qed

lemma on_grid_rnd: "on_grid g x \<Longrightarrow> on_grid g (rnd x)"
proof (cases "\<bar>x\<bar> * 10 ^ g \<le> 10 ^ 28")
  case False
  assume "on_grid g x"
  then have x: "x \<noteq> 0" using False by auto
  define e where "e = adjusted x - 27"
  have "pow10 (28 - int g) < \<bar>x\<bar>"
  proof -
    have "10 ^ 28 < \<bar>x\<bar> * 10 ^ g" using False by simp
    then have "10 ^ 28 / 10 ^ g < \<bar>x\<bar>" by (simp add: divide_less_eq)
    then show ?thesis using pow10_nat [of 28] pow10_nat [of g] pow10_diff [of 28 "int g"] by simp
  qed
  also have "\<bar>x\<bar> < pow10 (adjusted x + 1)" using adjusted_bounds [OF x] by auto
  finally have "- int g < e + 1 + int g - int g" by (simp add: e_def)
  then have e: "0 \<le> e + int g" by simp
  have "rnd x * 10 ^ g = of_int (round_half_even (x / pow10 e)) * (pow10 e * pow10 (int g))"
    using x by (simp add: rnd_def Let_def e_def pow10_nat)
  also have "pow10 e * pow10 (int g) = of_int (10 ^ nat (e + int g))"
    using e pow10_add [of e "int g"] by (simp add: pow10_def)
  finally show ?thesis unfolding on_grid_iff by (metis of_int_mult)
qed (simp add: rnd_on_grid)

lemma fits_dsub:
  assumes "fits g a" "on_grid g b" "0 \<le> b" "b \<le> a"
  shows "dsub a b = a - b" "fits g (a - b)"
proof -
  show "fits g (a - b)" using assms by (intro fits_le [OF assms(1)] on_grid_diff) (auto simp: fits_def)
  then show "dsub a b = a - b" by (simp add: dsub_def fits_exact)
qed

section \<open>One attempt\<close>

lemma validate_side_None:
  assumes "validate_side o1 position cfg ts = (max_qty, None)"
  shows "max_qty \<le> po_remaining o1 \<and> (max_qty = po_remaining o1 \<or> max_qty = position)
    \<and> (oi_side (po_intent o1) = BT_SELL \<longrightarrow> 0 < position \<and> max_qty \<le> position)
    \<and> (oi_side (po_intent o1) = BT_SELL_SHORT \<longrightarrow> ex_allow_short cfg \<and> position \<le> 0)"
  using assms by (auto simp: validate_side_def min_def split: bt_side.splits if_splits)

definition filled_attempt :: "pending_order \<Rightarrow> bar \<Rightarrow> rat \<Rightarrow> fill_attempt \<Rightarrow> bool" where
  "filled_attempt o1 b qty a \<longleftrightarrow>
     (\<exists>price ref fee. limit_ok (po_intent o1) price \<and> 0 < qty
       \<and> a = \<lparr>fa_fill = Some \<lparr>bf_order_id = po_order_id o1, bf_symbol = oi_symbol (po_intent o1), bf_side = oi_side (po_intent o1),
              bf_quantity = qty, bf_price = price, bf_reference_price = ref, bf_fee = fee, bf_ts = b_ts b,
              bf_signal_ts = po_created_ts o1, bf_regime = po_regime o1, bf_tag = oi_tag (po_intent o1)\<rparr>,
            fa_order = (if 0 < dsub (po_remaining o1) qty then Some (o1\<lparr>po_remaining := dsub (po_remaining o1) qty\<rparr>) else None),
            fa_rejection = None\<rparr>)"

lemma validate_side_Some:
  "validate_side o1 position cfg ts = (max_qty, Some t) \<Longrightarrow> \<exists>reason. t = reject_order o1 ts reason"
  by (auto simp: validate_side_def split: bt_side.splits if_splits)

text \<open>An attempt rejects the order, leaves it waiting, or fills it.\<close>

lemma attempt_fill_cases:
  obtains (rejected) reason where "attempt_fill np_std o1 b closes left position cash cost cfg = reject_order o1 (b_ts b) reason"
  | (waits) "attempt_fill np_std o1 b closes left position cash cost cfg = \<lparr>fa_fill = None, fa_order = Some o1, fa_rejection = None\<rparr>"
  | (fills) max_qty where "validate_side o1 position cfg (b_ts b) = (max_qty, None)"
      "filled_attempt o1 b (min max_qty left) (attempt_fill np_std o1 b closes left position cash cost cfg)"
proof -
  obtain max_qty t where v: "validate_side o1 position cfg (b_ts b) = (max_qty, t)" by fastforce
  show thesis
  proof (cases t)
    case (Some u)
    then show thesis using rejected v validate_side_Some [of o1 position cfg "b_ts b" max_qty u] by (auto simp: attempt_fill_def)
  next
    case None
    define i ref qty where "i = po_intent o1" and "ref = reference_price b (ex_fill_price cfg)" and "qty = min max_qty left"
    define price where "price = to_decimal_6 (max (fl (ref * fl (1 + (if oi_side i = BT_BUY then 1 else - 1) *
      slippage_fraction cost (fl qty) (b_volume b) (bar_sigma np_std closes b)))) (fl (1 / 10 ^ 6)))"
    define fee where "fee = commission cost qty (dmul qty price)"
    define rest where "rest = dsub (po_remaining o1) qty"
    have eq: "attempt_fill np_std o1 b closes left position cash cost cfg =
      (if collar_violated cfg ref (po_decision_price o1) then reject_order o1 (b_ts b) ''price_collar''
       else if qty \<le> 0 then \<lparr>fa_fill = None, fa_order = Some o1, fa_rejection = None\<rparr>
       else if \<not> limit_ok i price then \<lparr>fa_fill = None, fa_order = Some o1, fa_rejection = None\<rparr>
       else if ex_enforce_cash cfg \<and> oi_side i = BT_BUY \<and> 0 \<le> position \<and> cash < dadd (dmul qty price) fee
       then reject_order o1 (b_ts b) ''insufficient_cash''
       else \<lparr>fa_fill = Some \<lparr>bf_order_id = po_order_id o1, bf_symbol = oi_symbol i, bf_side = oi_side i, bf_quantity = qty,
                  bf_price = price, bf_reference_price = to_decimal_6 ref, bf_fee = fee, bf_ts = b_ts b,
                  bf_signal_ts = po_created_ts o1, bf_regime = po_regime o1, bf_tag = oi_tag i\<rparr>,
             fa_order = (if 0 < rest then Some (o1\<lparr>po_remaining := rest\<rparr>) else None), fa_rejection = None\<rparr>)"
      unfolding attempt_fill_def v None prod.case option.case Let_def i_def ref_def qty_def price_def fee_def rest_def ..
    show thesis
    proof (cases "fa_fill (attempt_fill np_std o1 b closes left position cash cost cfg) = None")
      case True
      then show thesis using rejected waits unfolding eq by (auto split: if_splits)
    next
      case False
      then have c: "\<not> collar_violated cfg ref (po_decision_price o1)" "\<not> qty \<le> 0" "limit_ok i price"
        "\<not> (ex_enforce_cash cfg \<and> oi_side i = BT_BUY \<and> 0 \<le> position \<and> cash < dadd (dmul qty price) fee)"
        unfolding eq by (auto simp: reject_order_def split: if_splits)
      then have "filled_attempt o1 b qty (attempt_fill np_std o1 b closes left position cash cost cfg)"
        unfolding filled_attempt_def eq i_def rest_def by auto
      then show thesis using fills [of max_qty] v None by (simp add: qty_def)
    qed
  qed
qed

section \<open>Positions\<close>

definition position_ok :: "nat \<Rightarrow> bool \<Rightarrow> bt_position \<Rightarrow> bool" where
  "position_ok g short p \<longleftrightarrow> on_grid g (bp_quantity p) \<and> rnd (bp_quantity p) = bp_quantity p \<and> bp_quantity p \<noteq> 0
     \<and> (short \<or> 0 < bp_quantity p) \<and> 0 < bp_entry_qty p \<and> 0 \<le> bp_exit_qty p"

definition positions_ok :: "nat \<Rightarrow> bool \<Rightarrow> portfolio \<Rightarrow> bool" where
  "positions_ok g short pf \<longleftrightarrow> (\<forall>sp \<in> set (pf_positions pf). position_ok g short (snd sp))"

definition position_of :: "portfolio \<Rightarrow> pystr \<Rightarrow> rat" where
  "position_of pf symbol = (case map_of (pf_positions pf) symbol of Some p \<Rightarrow> bp_quantity p | None \<Rightarrow> 0)"

text \<open>What the engine guarantees of a fill: its side suits the position.\<close>

definition fill_suits :: "nat \<Rightarrow> bool \<Rightarrow> rat \<Rightarrow> bt_fill \<Rightarrow> bool" where
  "fill_suits g short position f \<longleftrightarrow> fits g (bf_quantity f) \<and> 0 < bf_quantity f
     \<and> (bf_side f = BT_SELL \<longrightarrow> 0 < position \<and> bf_quantity f \<le> position)
     \<and> (bf_side f = BT_SELL_SHORT \<longrightarrow> short \<and> position \<le> 0)"

lemma set_alist_update: "sp \<in> set (AList.update k v xs) \<Longrightarrow> sp \<in> set xs \<or> sp = (k, v)"
  by (induction xs) (auto split: if_splits)

lemma set_alist_delete: "sp \<in> set (AList.delete k xs) \<Longrightarrow> sp \<in> set xs"
  by (simp add: AList.delete_eq)

lemma rnd_neg: "x < 0 \<Longrightarrow> rnd x < 0"
  using rnd_pos [of "- x"] rnd_uminus [of x] by simp

lemma fits_dneg: "fits g q \<Longrightarrow> dneg q = - q"
  by (simp add: dneg_def rnd_uminus fits_exact)

lemma open_position_ok:
  assumes "fits g r" "0 < r" "0 < signed_quantity f \<or> short"
  shows "position_ok g short (open_position f r fee)"
proof -
  have "on_grid g r" "rnd r = r" "dneg r = - r" using assms(1) by (auto simp: fits_exact fits_dneg) (simp add: fits_def)
  then show ?thesis using assms(2,3) by (auto simp: open_position_def position_ok_def rnd_uminus on_grid_uminus)
qed

lemma increase_ok:
  assumes "fill_suits g short (case pos of Some p \<Rightarrow> bp_quantity p | None \<Rightarrow> 0) f"
    and "\<And>p. pos = Some p \<Longrightarrow> position_ok g short p \<and> (0 < bp_quantity p) = (0 < signed_quantity f)"
  shows "\<exists>p'. increase pos f = Inr p' \<and> position_ok g short p'"
proof -
  have q: "fits g (bf_quantity f)" "0 < bf_quantity f" "on_grid g (bf_quantity f)" "rnd (bf_quantity f) = bf_quantity f"
    using assms(1) by (auto simp: fill_suits_def fits_def fits_exact)
  have sq: "signed_quantity f = (if bf_side f = BT_BUY then bf_quantity f else - bf_quantity f)"
    by (simp add: signed_quantity_def fits_dneg [OF q(1)])
  show ?thesis
  proof (cases pos)
    case None
    then have "bf_side f = BT_BUY \<or> short" using assms(1) by (cases "bf_side f") (auto simp: fill_suits_def)
    then show ?thesis using open_position_ok [OF q(1,2)] q(2) sq None by (auto simp: increase_def)
  next
    case (Some p)
    have p: "position_ok g short p" "(0 < bp_quantity p) = (0 < signed_quantity f)" using assms(2) Some by auto
    let ?n = "dadd (dabs (bp_quantity p)) (bf_quantity f)"
    have "0 < \<bar>bp_quantity p\<bar> + bf_quantity f" using q by simp
    then have n: "?n \<noteq> 0" using q rnd_pos [of "dabs (bp_quantity p) + bf_quantity f"] dec28.nonneg [of "\<bar>bp_quantity p\<bar>"]
      by (fastforce simp: dadd_def dabs_def)
    have "bp_quantity p + signed_quantity f \<noteq> 0 \<and> (short \<or> 0 < bp_quantity p + signed_quantity f)"
      using p q(2) sq by (cases "0 < bp_quantity p") (auto simp: position_ok_def split: if_splits)
    then have "rnd (bp_quantity p + signed_quantity f) \<noteq> 0 \<and> (short \<or> 0 < rnd (bp_quantity p + signed_quantity f))"
      using rnd_pos rnd_neg by (metis linorder_neqE_linordered_idom less_irrefl)
    moreover have "on_grid g (rnd (bp_quantity p + signed_quantity f))"
      using p q(3) sq by (auto simp: position_ok_def intro!: on_grid_rnd on_grid_add on_grid_diff)
    moreover have "0 < rnd (bp_entry_qty p + bf_quantity f)"
      using p q(2) by (auto simp: position_ok_def intro!: rnd_pos)
    ultimately show ?thesis using Some n p by (auto simp: increase_def Let_def position_ok_def dadd_def)
  qed
qed

lemma reduce_ok:
  assumes "fill_suits g short (bp_quantity p) f" "position_ok g short p" "(0 < bp_quantity p) \<noteq> (0 < signed_quantity f)"
  shows "\<exists>np r tr. reduce p f = Inr (np, r, tr) \<and> (\<forall>p'. np = Some p' \<longrightarrow> position_ok g short p')"
proof -
  have q: "fits g (bf_quantity f)" "0 < bf_quantity f" "on_grid g (bf_quantity f)"
    using assms(1) by (auto simp: fill_suits_def fits_def)
  have sq: "signed_quantity f = (if bf_side f = BT_BUY then bf_quantity f else - bf_quantity f)"
    by (simp add: signed_quantity_def fits_dneg [OF q(1)])
  have p: "on_grid g (bp_quantity p)" "rnd (bp_quantity p) = bp_quantity p" "bp_quantity p \<noteq> 0" "0 \<le> bp_exit_qty p"
    "short \<or> 0 < bp_quantity p" "0 < bp_entry_qty p" using assms(2) by (auto simp: position_ok_def)
  have ab: "dabs (bp_quantity p) = \<bar>bp_quantity p\<bar>" using p(2) by (auto simp: dabs_def abs_if rnd_uminus)
  define close_qty where "close_qty = min (bf_quantity f) \<bar>bp_quantity p\<bar>"
  have c: "0 < close_qty" "on_grid g close_qty"
    using q p by (auto simp: close_qty_def abs_if intro!: on_grid_min on_grid_uminus)
  have ex: "0 < dadd (bp_exit_qty p) close_qty" using p(4) c(1) by (simp add: dadd_def rnd_pos)
  have tr: "\<exists>t. trade_from (p\<lparr>bp_quantity := a, bp_exit_qty := dadd (bp_exit_qty p) close_qty, bp_exit_notional := b,
      bp_realised_gross := r, bp_fees := z\<rparr>) d ts = Inr t" for a b r z d ts
    using p(6) ex by (simp add: trade_from_def)
  have part: "position_ok g short (p\<lparr>bp_quantity := dadd (bp_quantity p) (signed_quantity f), bp_exit_qty := dadd (bp_exit_qty p) close_qty,
      bp_exit_notional := b, bp_realised_gross := r, bp_fees := z\<rparr>)" if "close_qty < \<bar>bp_quantity p\<bar>" for b r z
  proof -
    have "bf_quantity f < \<bar>bp_quantity p\<bar>" using that by (simp add: close_qty_def min_def split: if_splits)
    then have s: "bp_quantity p + signed_quantity f \<noteq> 0 \<and> (0 < bp_quantity p + signed_quantity f) = (0 < bp_quantity p)"
      using assms(3) sq q(2) by (auto simp: abs_if split: if_splits)
    then have "rnd (bp_quantity p + signed_quantity f) \<noteq> 0 \<and> (0 < rnd (bp_quantity p + signed_quantity f)) = (0 < bp_quantity p)"
      using rnd_pos rnd_neg by (metis linorder_neqE_linordered_idom less_asym)
    moreover have "on_grid g (rnd (bp_quantity p + signed_quantity f))"
      using p q(3) sq by (auto intro!: on_grid_rnd on_grid_add on_grid_diff)
    ultimately show ?thesis using p ex by (simp add: position_ok_def dadd_def)
  qed
  have left: "dsub (bf_quantity f) close_qty = bf_quantity f - close_qty" "fits g (bf_quantity f - close_qty)"
    using fits_dsub [OF q(1) c(2)] c(1) by (auto simp: close_qty_def)
  have flip: "position_ok g short (open_position f (bf_quantity f - close_qty) fee)" if "bf_quantity f - close_qty \<noteq> 0" for fee
  proof -
    have d: "0 < bf_quantity f - close_qty" "\<bar>bp_quantity p\<bar> < bf_quantity f" using that by (auto simp: close_qty_def min_def split: if_splits)
    then have "bf_side f = BT_BUY \<or> short"
      using assms(1) by (cases "bf_side f") (auto simp: fill_suits_def)
    then show ?thesis using open_position_ok [OF left(2) d(1)] sq q(2) by auto
  qed
  obtain fc where fc: "dquot (dmul (bf_fee f) close_qty) (bf_quantity f) = Inr fc" using q(2) by simp
  define realised where "realised = dmul (dmul close_qty (dsub (bf_price f) (bp_avg_cost p))) (if 0 < bp_quantity p then 1 else - 1)"
  define updated where "updated = p\<lparr>bp_quantity := dadd (bp_quantity p) (signed_quantity f), bp_exit_qty := dadd (bp_exit_qty p) close_qty,
    bp_exit_notional := dadd (bp_exit_notional p) (dmul close_qty (bf_price f)),
    bp_realised_gross := dadd (bp_realised_gross p) realised, bp_fees := dadd (bp_fees p) fc\<rparr>"
  obtain t where t: "trade_from updated (if 0 < bp_quantity p then ''LONG'' else ''SHORT'') (bf_ts f) = Inr t"
    using tr unfolding updated_def by blast
  have eq: "reduce p f = (if close_qty < \<bar>bp_quantity p\<bar> then Inr (Some updated, realised, [])
      else if bf_quantity f - close_qty = 0 then Inr (None, realised, [t])
      else Inr (Some (open_position f (bf_quantity f - close_qty) (dsub (bf_fee f) fc)), realised, [t]))"
    unfolding reduce_def ab close_qty_def [symmetric] Let_def fc rbind_simps left realised_def [symmetric] updated_def [symmetric] t ..
  show ?thesis unfolding eq using part [folded updated_def] flip by (simp add: updated_def part)
qed

lemma apply_fill_ok:
  assumes "positions_ok g short pf" "fill_suits g short (position_of pf (bf_symbol f)) f"
  shows "\<exists>pf' closed. apply_fill pf f = Inr (pf', closed) \<and> positions_ok g short pf'"
proof -
  let ?pos = "map_of (pf_positions pf) (bf_symbol f)"
  have p: "position_ok g short p" if "?pos = Some p" for p
    using assms(1) map_of_SomeD [OF that] by (auto simp: positions_ok_def)
  show ?thesis
  proof (cases "case ?pos of None \<Rightarrow> True | Some p \<Rightarrow> (0 < bp_quantity p) = (0 < signed_quantity f)")
    case True
    obtain p' where "increase ?pos f = Inr p'" "position_ok g short p'"
      using increase_ok [of g short ?pos f] assms(2) p True by (auto simp: position_of_def split: option.splits)
    then show ?thesis using True assms(1)
      by (auto simp: apply_fill_def Let_def positions_ok_def dest!: set_alist_update)
  next
    case False
    then obtain p1 where p1: "?pos = Some p1" "(0 < bp_quantity p1) \<noteq> (0 < signed_quantity f)" by (auto split: option.splits)
    obtain np r tr where "reduce p1 f = Inr (np, r, tr)" "\<forall>p'. np = Some p' \<longrightarrow> position_ok g short p'"
      using reduce_ok [of g short p1 f] assms(2) p [OF p1(1)] p1 by (auto simp: position_of_def)
    then show ?thesis using p1 assms(1)
      by (auto simp: apply_fill_def Let_def positions_ok_def dest!: set_alist_update set_alist_delete split: option.splits)
  qed
qed

section \<open>The order book\<close>

definition intent_fits :: "nat \<Rightarrow> order_intent \<Rightarrow> bool" where
  "intent_fits g i \<longleftrightarrow> fits g (oi_quantity i) \<and> 0 < oi_quantity i"

definition filled :: "int \<Rightarrow> bt_fill list \<Rightarrow> rat" where
  "filled k fs = sum_list (map bf_quantity (filter (\<lambda>f. bf_order_id f = k) fs))"

text \<open>A fill of an order: after its latency, within its lifetime and its limit.\<close>

definition fill_follows :: "execution_config \<Rightarrow> pending_order \<Rightarrow> bt_fill \<Rightarrow> bool" where
  "fill_follows ex o1 f \<longleftrightarrow> bf_order_id f = po_order_id o1 \<and> bf_symbol f = oi_symbol (po_intent o1)
     \<and> bf_side f = oi_side (po_intent o1) \<and> bf_signal_ts f = po_created_ts o1
     \<and> po_created_ts o1 < bf_ts f \<and> po_created_ts o1 + ex_latency_ns ex \<le> bf_ts f
     \<and> (case po_expires_ts o1 of None \<Rightarrow> True | Some t \<Rightarrow> bf_ts f \<le> t)
     \<and> 0 < bf_quantity f \<and> limit_ok (po_intent o1) (bf_price f)"

text \<open>
  The orders placed so far, the orders open, the fills: an open order is a placed one of which the
  filled and the remaining part add up to the quantity of its intent.
\<close>

definition open_part :: "nat \<Rightarrow> pending_order list \<Rightarrow> bt_fill list \<Rightarrow> pending_order \<Rightarrow> bool" where
  "open_part g orders fs p \<longleftrightarrow> (\<exists>o1 \<in> set orders. p = o1\<lparr>po_remaining := po_remaining p\<rparr>) \<and> 0 < po_remaining p
     \<and> on_grid g (po_remaining p) \<and> filled (po_order_id p) fs + po_remaining p = oi_quantity (po_intent p)"

definition order_placed :: "nat \<Rightarrow> execution_config \<Rightarrow> bt_fill list \<Rightarrow> pending_order \<Rightarrow> bool" where
  "order_placed g ex fs o1 \<longleftrightarrow> intent_fits g (po_intent o1) \<and> po_created_ts o1 + ex_latency_ns ex \<le> po_eligible_ts o1
     \<and> filled (po_order_id o1) fs \<le> oi_quantity (po_intent o1)"

definition book_ok :: "nat \<Rightarrow> execution_config \<Rightarrow> pending_order list \<Rightarrow> pending_order list \<Rightarrow> bt_fill list \<Rightarrow> bool" where
  "book_ok g ex orders pend fs \<longleftrightarrow> distinct (map po_order_id orders) \<and> distinct (map po_order_id pend)
     \<and> (\<forall>p \<in> set pend. open_part g orders fs p) \<and> (\<forall>o1 \<in> set orders. order_placed g ex fs o1)
     \<and> (\<forall>f \<in> set fs. \<exists>o1 \<in> set orders. fill_follows ex o1 f)"

lemma book_ok_origin:
  assumes "book_ok g ex orders pend fs" "p \<in> set pend"
  obtains o1 where "o1 \<in> set orders" "po_order_id o1 = po_order_id p"
proof -
  have "open_part g orders fs p" using assms by (simp add: book_ok_def)
  then obtain o1 where o1: "o1 \<in> set orders" "p = o1\<lparr>po_remaining := po_remaining p\<rparr>" unfolding open_part_def by fast
  have "po_order_id o1 = po_order_id p" by (subst o1(2)) simp
  with o1(1) show thesis by (rule that)
qed

lemma filled_append [simp]: "filled k (fs @ [f]) = filled k fs + (if bf_order_id f = k then bf_quantity f else 0)"
  by (simp add: filled_def)

lemma filled_Nil [simp]: "filled k [] = 0"
  by (simp add: filled_def)

lemma open_part_fits:
  assumes "book_ok g ex orders pend fs" "p \<in> set pend"
  shows "fits g (po_remaining p)" "0 < po_remaining p" "po_created_ts p + ex_latency_ns ex \<le> po_eligible_ts p"
proof -
  obtain o1 where o1: "o1 \<in> set orders" "p = o1\<lparr>po_remaining := po_remaining p\<rparr>" "0 < po_remaining p" "on_grid g (po_remaining p)"
    "filled (po_order_id p) fs + po_remaining p = oi_quantity (po_intent p)"
    using assms by (auto simp: book_ok_def open_part_def)
  have i: "po_intent p = po_intent o1" "po_created_ts p = po_created_ts o1" "po_eligible_ts p = po_eligible_ts o1"
    by (subst o1(2), simp)+
  have pl: "order_placed g ex fs o1" using assms(1) o1(1) by (simp add: book_ok_def)
  have "0 \<le> filled (po_order_id p) fs"
    unfolding filled_def using assms(1)
    by (intro sum_list_nonneg) (auto simp: book_ok_def fill_follows_def intro: less_imp_le)
  then have "po_remaining p \<le> oi_quantity (po_intent p)" using o1(5) by simp
  then show "fits g (po_remaining p)"
    using fits_le [of g "oi_quantity (po_intent o1)" "po_remaining p"] o1(3,4) pl i by (auto simp: order_placed_def intent_fits_def)
  show "0 < po_remaining p" "po_created_ts p + ex_latency_ns ex \<le> po_eligible_ts p"
    using o1(3) pl i by (simp_all add: order_placed_def)
qed

lemma book_ok_subset:
  assumes "book_ok g ex orders pend fs" "set pend' \<subseteq> set pend" "distinct (map po_order_id pend')"
  shows "book_ok g ex orders pend' fs"
  using assms by (auto simp: book_ok_def)

text \<open>One fill of one open order.\<close>

lemma book_ok_fill:
  assumes "book_ok g ex orders (pre @ p # post) fs" "fill_follows ex p f"
    and "bf_quantity f \<le> po_remaining p" "on_grid g (bf_quantity f)"
  defines "rest \<equiv> dsub (po_remaining p) (bf_quantity f)"
  shows "book_ok g ex orders (pre @ (if 0 < rest then [p\<lparr>po_remaining := rest\<rparr>] else []) @ post) (fs @ [f])"
proof -
  have p: "p \<in> set (pre @ p # post)" by simp
  note fp = open_part_fits [OF assms(1) p]
  obtain o1 where o1: "o1 \<in> set orders" "p = o1\<lparr>po_remaining := po_remaining p\<rparr>"
    and fl: "filled (po_order_id p) fs + po_remaining p = oi_quantity (po_intent p)"
    using assms(1) by (auto simp: book_ok_def open_part_def)
  have i: "po_intent p = po_intent o1" "po_order_id p = po_order_id o1" by (subst o1(2), simp)+
  have ff: "fill_follows ex o1 f" using assms(2) by (subst (asm) o1(2)) (simp add: fill_follows_def)
  have id: "bf_order_id f = po_order_id p" and q: "0 < bf_quantity f" using assms(2) by (auto simp: fill_follows_def)
  have rest: "rest = po_remaining p - bf_quantity f" "on_grid g rest"
    using fits_dsub [OF fp(1) assms(4) _ assms(3)] q by (auto simp: rest_def fits_def)
  have others: "po_order_id p' \<noteq> po_order_id p" if "p' \<in> set (pre @ post)" for p'
    using assms(1) that by (auto simp: book_ok_def) (metis imageI)+
  have pend: "open_part g orders (fs @ [f]) p'" if "p' \<in> set (pre @ (if 0 < rest then [p\<lparr>po_remaining := rest\<rparr>] else []) @ post)" for p'
  proof (cases "p' \<in> set (pre @ post)")
    case True
    then have "open_part g orders fs p'" using assms(1) by (auto simp: book_ok_def)
    then show ?thesis using others [OF True] id by (simp add: open_part_def)
  next
    case False
    then have p': "p' = p\<lparr>po_remaining := rest\<rparr>" "0 < rest" using that by (auto split: if_splits)
    have "p' = o1\<lparr>po_remaining := po_remaining p'\<rparr>" unfolding p'(1) by (subst o1(2)) simp
    then show ?thesis using o1(1) rest p' fl id i by (auto simp: open_part_def)
  qed
  have placed: "order_placed g ex (fs @ [f]) o2" if "o2 \<in> set orders" for o2
  proof (cases "po_order_id o2 = po_order_id p")
    case True
    then have "o2 = o1" using assms(1) that o1(1) i by (auto simp: book_ok_def distinct_map inj_on_def)
    then show ?thesis using assms(1,3) o1(1) fl i id by (auto simp: book_ok_def order_placed_def)
  next
    case False
    then show ?thesis using assms(1) that id by (auto simp: book_ok_def order_placed_def)
  qed
  have d: "distinct (map po_order_id (pre @ (if 0 < rest then [p\<lparr>po_remaining := rest\<rparr>] else []) @ post))"
    using assms(1) by (auto simp: book_ok_def)
  show ?thesis using assms(1) pend placed d ff o1(1) by (auto simp: book_ok_def)
qed

section \<open>The loop over the open orders\<close>

definition event_wf :: "feed_event \<Rightarrow> bool" where
  "event_wf ev \<longleftrightarrow> (\<forall>nb \<in> set (fe_new_bars ev). b_ts (snd nb) = fe_ts ev)"

definition loop_inv ::
  "nat \<Rightarrow> backtest_config \<Rightarrow> pending_order list \<Rightarrow> (pystr \<times> rat) list \<times> pending_order list \<times> 's run_state_bt \<Rightarrow> pending_order list \<Rightarrow> bool" where
  "loop_inv g cfg orders acc rest =
     (case acc of (capacity, still_open, st) \<Rightarrow>
        book_ok g (bc_execution cfg) orders (still_open @ rest) (bs_fills st)
        \<and> positions_ok g (ex_allow_short (bc_execution cfg)) (bs_portfolio st) \<and> (\<forall>c \<in> ran (map_of capacity). on_grid g c))"

lemma attempt_suits:
  assumes "book_ok g ex orders (pre @ o1 # post) fs" "event_wf ev" "map_of (fe_new_bars ev) symbol = Some b"
    and "\<not> expired ev o1" "\<not> (fe_ts ev \<le> po_created_ts o1 \<or> fe_ts ev < po_eligible_ts o1)"
    and "on_grid g left" "on_grid g position"
    and "validate_side o1 position ex (b_ts b) = (max_qty, None)" "filled_attempt o1 b (min max_qty left) a" "fa_fill a = Some f"
  shows "fill_follows ex o1 f \<and> fill_suits g (ex_allow_short ex) position f \<and> bf_quantity f \<le> po_remaining o1
    \<and> bf_quantity f \<le> left \<and> on_grid g (bf_quantity f) \<and> fa_rejection a = None
    \<and> fa_order a = (if 0 < dsub (po_remaining o1) (bf_quantity f)
        then Some (o1\<lparr>po_remaining := dsub (po_remaining o1) (bf_quantity f)\<rparr>) else None)"
proof -
  have ts: "b_ts b = fe_ts ev" using assms(2) map_of_SomeD [OF assms(3)] by (auto simp: event_wf_def)
  have o1: "o1 \<in> set (pre @ o1 # post)" by simp
  note fp = open_part_fits [OF assms(1) o1]
  note v = validate_side_None [OF assms(8)]
  have gr: "on_grid g (po_remaining o1)" using fp(1) by (simp add: fits_def)
  then have mg: "on_grid g (min max_qty left)" using v assms(6,7) by (auto intro!: on_grid_min)
  have f: "bf_quantity f = min max_qty left" "0 < bf_quantity f" "bf_order_id f = po_order_id o1" "bf_symbol f = oi_symbol (po_intent o1)"
    "bf_side f = oi_side (po_intent o1)" "bf_signal_ts f = po_created_ts o1" "bf_ts f = b_ts b" "limit_ok (po_intent o1) (bf_price f)"
    "fa_rejection a = None" "fa_order a = (if 0 < dsub (po_remaining o1) (bf_quantity f)
        then Some (o1\<lparr>po_remaining := dsub (po_remaining o1) (bf_quantity f)\<rparr>) else None)"
    using assms(9,10) by (auto simp: filled_attempt_def)
  have le: "bf_quantity f \<le> po_remaining o1" "bf_quantity f \<le> left" using f(1) v by auto
  have fit: "fits g (bf_quantity f)" using fits_le [OF fp(1)] mg f(1,2) le by auto
  have "fill_follows ex o1 f"
    using f ts assms(4,5) fp(3) by (auto simp: fill_follows_def expired_def split: option.splits)
  moreover have "fill_suits g (ex_allow_short ex) position f"
    using f(1,2,5) fit v by (auto simp: fill_suits_def)
  ultimately show ?thesis using le mg f by simp
qed

text \<open>Processing an order either leaves the portfolio alone, or fills the order from what the bar has left.\<close>

lemma process_order_cases:
  assumes "process_order np ev cfg o1 (capacity, still_open, st) = Inr acc'" "symbol = oi_symbol (po_intent o1)"
  obtains (skip) ks cap' rj where "acc' = (cap', still_open @ ks, st\<lparr>bs_rejections := rj\<rparr>)" "ks = [] \<or> ks = [o1]"
      "cap' = capacity \<or> (\<exists>b. map_of (fe_new_bars ev) symbol = Some b \<and> map_of capacity symbol = None
         \<and> map_of cap' = (map_of capacity)(symbol \<mapsto> bar_capacity b (bc_execution cfg)))"
  | (fill) b left max_qty a f pf' closed cap' where "\<not> expired ev o1" "map_of (fe_new_bars ev) symbol = Some b"
      "\<not> (fe_ts ev \<le> po_created_ts o1 \<or> fe_ts ev < po_eligible_ts o1)"
      "left = (case map_of capacity symbol of Some c \<Rightarrow> c | None \<Rightarrow> bar_capacity b (bc_execution cfg))"
      "validate_side o1 (position_of (bs_portfolio st) symbol) (bc_execution cfg) (b_ts b) = (max_qty, None)"
      "filled_attempt o1 b (min max_qty left) a" "fa_fill a = Some f" "apply_fill (bs_portfolio st) f = Inr (pf', closed)"
      "map_of cap' = (map_of capacity)(symbol \<mapsto> dsub left (bf_quantity f))"
      "acc' = (cap', still_open @ (case fa_order a of None \<Rightarrow> [] | Some o2 \<Rightarrow> [o2]),
         st\<lparr>bs_portfolio := pf', bs_fills := bs_fills st @ [f], bs_trades := bs_trades st @ closed\<rparr>)"
proof (cases "expired ev o1")
  case True
  then show thesis using assms(1) skip [of capacity "[]"] by (auto simp: process_order_def)
next
  case ne: False
  show thesis
  proof (cases "\<exists>b. map_of (fe_new_bars ev) symbol = Some b \<and> \<not> (fe_ts ev \<le> po_created_ts o1 \<or> fe_ts ev < po_eligible_ts o1)")
    case False
    then have "acc' = (capacity, still_open @ [o1], st\<lparr>bs_rejections := bs_rejections st\<rparr>)"
      using assms ne by (cases "map_of (fe_new_bars ev) symbol") (simp_all add: process_order_def Let_def)
    then show thesis by (rule skip) simp_all
  next
    case True
    then obtain b where b: "map_of (fe_new_bars ev) symbol = Some b"
      and el: "\<not> (fe_ts ev \<le> po_created_ts o1 \<or> fe_ts ev < po_eligible_ts o1)" by blast
    define cap1 where "cap1 = (case map_of capacity symbol of Some _ \<Rightarrow> capacity
        | None \<Rightarrow> AList.update symbol (bar_capacity b (bc_execution cfg)) capacity)"
    define left where "left = the (map_of cap1 symbol)"
    have left: "left = (case map_of capacity symbol of Some c \<Rightarrow> c | None \<Rightarrow> bar_capacity b (bc_execution cfg))"
      by (simp add: left_def cap1_def AList.update_conv' split: option.splits)
    have cap1: "cap1 = capacity \<or> (\<exists>b. map_of (fe_new_bars ev) symbol = Some b \<and> map_of capacity symbol = None
         \<and> map_of cap1 = (map_of capacity)(symbol \<mapsto> bar_capacity b (bc_execution cfg)))"
      using b by (auto simp: cap1_def AList.update_conv' split: option.splits)
    have upd: "map_of (AList.update symbol x cap1) = (map_of capacity)(symbol \<mapsto> x)" for x
      by (auto simp: cap1_def AList.update_conv' split: option.splits)
    obtain h where h: "view_history (fe_view ev) symbol = Inr h"
      using assms ne b el by (auto simp: process_order_def Let_def rbind_eq_Inr)
    define a where "a = attempt_fill (np_std_log np) o1 b (history_closes h (Some (nat (cm_vol_lookback (bc_cost cfg) + 1))))
        left (position_of (bs_portfolio st) symbol) (pf_cash (bs_portfolio st)) (bc_cost cfg) (bc_execution cfg)"
    define st1 where "st1 = (case fa_rejection a of None \<Rightarrow> st | Some r \<Rightarrow> st\<lparr>bs_rejections := bs_rejections st @ [r]\<rparr>)"
    define open1 where "open1 = (case fa_order a of None \<Rightarrow> still_open | Some o2 \<Rightarrow> still_open @ [o2])"
    have step: "(case fa_fill a of None \<Rightarrow> Inr (cap1, open1, st1)
        | Some f \<Rightarrow> rbind (apply_fill (bs_portfolio st1) f) (\<lambda>(pf, closed). Inr (AList.update symbol (dsub left (bf_quantity f)) cap1, open1,
             st1\<lparr>bs_portfolio := pf, bs_fills := bs_fills st1 @ [f], bs_trades := bs_trades st1 @ closed\<rparr>)))
        = Inr acc'"
      using assms(1) ne b el h unfolding process_order_def prod.case Let_def assms(2) [symmetric] a_def left_def cap1_def
        position_of_def st1_def open1_def by simp
    show thesis
    proof (cases rule: attempt_fill_cases [of "np_std_log np" o1 b "history_closes h (Some (nat (cm_vol_lookback (bc_cost cfg) + 1)))"
          left "position_of (bs_portfolio st) symbol" "pf_cash (bs_portfolio st)" "bc_cost cfg" "bc_execution cfg"])
      case (rejected reason)
      then have "a = reject_order o1 (b_ts b) reason" by (simp add: a_def)
      then show thesis using step skip [of cap1 "[]"] cap1 by (auto simp: reject_order_def st1_def open1_def)
    next
      case waits
      then have "a = \<lparr>fa_fill = None, fa_order = Some o1, fa_rejection = None\<rparr>" by (simp add: a_def)
      then have "acc' = (cap1, still_open @ [o1], st\<lparr>bs_rejections := bs_rejections st\<rparr>)" using step by (simp add: st1_def open1_def)
      then show thesis by (rule skip) (use cap1 in simp_all)
    next
      case (fills max_qty)
      note fills = fills [folded a_def]
      obtain f where f: "fa_fill a = Some f" "fa_rejection a = None" using fills(2) by (auto simp: filled_attempt_def)
      then obtain pf' closed where af: "apply_fill (bs_portfolio st) f = Inr (pf', closed)"
          "acc' = (AList.update symbol (dsub left (bf_quantity f)) cap1, open1,
             st\<lparr>bs_portfolio := pf', bs_fills := bs_fills st @ [f], bs_trades := bs_trades st @ closed\<rparr>)"
        using step by (auto simp: st1_def rbind_eq_Inr)
      show thesis
        by (rule fill [OF ne b el left fills f(1) af(1) upd]) (use af(2) in \<open>simp add: open1_def split: option.splits\<close>)
    qed
  qed
qed

text \<open>In the loop, the fill of an attempt suits the order and the position, and is within what the bar has left.\<close>

lemma process_order_suits:
  assumes "loop_inv g cfg orders (capacity, still_open, st) (o1 # rest)" "event_wf ev"
    and "\<not> expired ev o1" "map_of (fe_new_bars ev) (oi_symbol (po_intent o1)) = Some b"
    and "\<not> (fe_ts ev \<le> po_created_ts o1 \<or> fe_ts ev < po_eligible_ts o1)"
    and "left = (case map_of capacity (oi_symbol (po_intent o1)) of Some c \<Rightarrow> c | None \<Rightarrow> bar_capacity b (bc_execution cfg))"
    and "validate_side o1 (position_of (bs_portfolio st) (oi_symbol (po_intent o1))) (bc_execution cfg) (b_ts b) = (max_qty, None)"
    and "filled_attempt o1 b (min max_qty left) a" "fa_fill a = Some f"
  shows "(fill_follows (bc_execution cfg) o1 f
    \<and> fill_suits g (ex_allow_short (bc_execution cfg)) (position_of (bs_portfolio st) (oi_symbol (po_intent o1))) f
    \<and> bf_quantity f \<le> po_remaining o1 \<and> bf_quantity f \<le> left \<and> on_grid g (bf_quantity f) \<and> fa_rejection a = None
    \<and> fa_order a = (if 0 < dsub (po_remaining o1) (bf_quantity f)
        then Some (o1\<lparr>po_remaining := dsub (po_remaining o1) (bf_quantity f)\<rparr>) else None)) \<and> on_grid g left"
proof -
  have book: "book_ok g (bc_execution cfg) orders (still_open @ o1 # rest) (bs_fills st)"
    and pos: "positions_ok g (ex_allow_short (bc_execution cfg)) (bs_portfolio st)" and cap: "\<forall>c \<in> ran (map_of capacity). on_grid g c"
    using assms(1) by (auto simp: loop_inv_def)
  have leftg: "on_grid g left" using assms(6) cap by (auto simp: ran_def bar_capacity_def split: option.splits)
  have posg: "on_grid g (position_of (bs_portfolio st) (oi_symbol (po_intent o1)))"
    using pos map_of_SomeD by (fastforce simp: position_of_def positions_ok_def position_ok_def split: option.splits)
  show ?thesis using attempt_suits [OF book assms(2,4,3,5) leftg posg assms(7-9)] leftg by (rule conjI)
qed

lemma process_order_inv:
  assumes "loop_inv g cfg orders acc (o1 # rest)" "event_wf ev" "process_order np ev cfg o1 acc = Inr acc'"
  shows "loop_inv g cfg orders acc' rest"
proof -
  obtain capacity still_open st where acc: "acc = (capacity, still_open, st)" by (cases acc)
  have book: "book_ok g (bc_execution cfg) orders (still_open @ o1 # rest) (bs_fills st)"
    and pos: "positions_ok g (ex_allow_short (bc_execution cfg)) (bs_portfolio st)" and cap: "\<forall>c \<in> ran (map_of capacity). on_grid g c"
    using assms(1) by (auto simp: loop_inv_def acc)
  have bars: "on_grid g (bar_capacity b ex)" for b ex by (simp add: bar_capacity_def)
  have st3: "process_order np ev cfg o1 (capacity, still_open, st) = Inr acc'" using assms(3) by (simp add: acc)
  have symbol: "oi_symbol (po_intent o1) = oi_symbol (po_intent o1)" ..
  from st3 symbol show ?thesis
  proof (cases rule: process_order_cases)
    case (skip ks cap' rj)
    have "book_ok g (bc_execution cfg) orders (still_open @ ks @ rest) (bs_fills st)"
      by (rule book_ok_subset [OF book]) (use skip(2) book in \<open>auto simp: book_ok_def image_iff\<close>)
    moreover have "\<forall>c \<in> ran (map_of cap'). on_grid g c" using skip(3) cap bars by (fastforce simp: ran_def split: if_splits)
    ultimately show ?thesis using skip(1) pos by (simp add: loop_inv_def)
  next
    case (fill b left max_qty a f pf' closed cap')
    note s = process_order_suits [OF assms(1) [unfolded acc] assms(2) fill(1-7)]
    have "positions_ok g (ex_allow_short (bc_execution cfg)) pf'"
      using apply_fill_ok [OF pos, of f] s fill(8) by (auto simp: fill_follows_def)
    moreover have "book_ok g (bc_execution cfg) orders
        (still_open @ (if 0 < dsub (po_remaining o1) (bf_quantity f) then [o1\<lparr>po_remaining := dsub (po_remaining o1) (bf_quantity f)\<rparr>] else []) @ rest)
        (bs_fills st @ [f])"
      by (rule book_ok_fill [OF book]) (use s in auto)
    moreover have "on_grid g (dsub left (bf_quantity f))" using s by (auto simp: dsub_def intro!: on_grid_rnd on_grid_diff)
    then have "\<forall>c \<in> ran (map_of cap'). on_grid g c" using fill(9) cap by (auto simp: ran_def split: if_splits)
    moreover have "(case fa_order a of None \<Rightarrow> [] | Some o2 \<Rightarrow> [o2]) = (if 0 < dsub (po_remaining o1) (bf_quantity f)
        then [o1\<lparr>po_remaining := dsub (po_remaining o1) (bf_quantity f)\<rparr>] else [])" using s by simp
    ultimately show ?thesis unfolding fill(10) loop_inv_def prod.case append_assoc by simp
  qed
qed

lemma process_orders_inv:
  "loop_inv g cfg orders acc os \<Longrightarrow> event_wf ev \<Longrightarrow> process_orders np ev cfg os acc = Inr acc' \<Longrightarrow> loop_inv g cfg orders acc' []"
proof (induction os arbitrary: acc)
  case (Cons o1 os)
  then obtain acc1 where "process_order np ev cfg o1 acc = Inr acc1" "process_orders np ev cfg os acc1 = Inr acc'"
    by (auto simp: rbind_eq_Inr)
  then show ?case using Cons process_order_inv by blast
qed simp

lemma process_order_next:
  "process_order np ev cfg o1 (c, so, st) = Inr (c', so', st') \<Longrightarrow> bs_next_order_id st' = bs_next_order_id st"
  by (erule process_order_cases [OF _ refl]) auto

lemma process_orders_next:
  "process_orders np ev cfg os (c, so, st) = Inr (c', so', st') \<Longrightarrow> bs_next_order_id st' = bs_next_order_id st"
proof (induction os arbitrary: c so st)
  case (Cons o1 os)
  then obtain c1 so1 st1 where "process_order np ev cfg o1 (c, so, st) = Inr (c1, so1, st1)"
      "process_orders np ev cfg os (c1, so1, st1) = Inr (c', so', st')"
    by (auto simp: rbind_eq_Inr)
  then show ?case using Cons.IH process_order_next by metis
qed simp

end
