(* ===== verification/Bt_Runs.thy ===== *)
theory Bt_Runs
  imports Bt_Causality Bt_Orders
begin

text \<open>
  Runs of the backtest engine: every fill follows an order the strategy placed, after its latency and
  within its lifetime and limit; an order is never overfilled; a long-only run never holds a short
  position; no bar is filled beyond the participation cap.
\<close>

section \<open>Runs\<close>

definition state_inv :: "nat \<Rightarrow> backtest_config \<Rightarrow> pending_order list \<Rightarrow> 's run_state_bt \<Rightarrow> bool" where
  "state_inv g cfg orders st \<longleftrightarrow>
     book_ok g (bc_execution cfg) orders (bs_pending st) (bs_fills st)
     \<and> positions_ok g (ex_allow_short (bc_execution cfg)) (bs_portfolio st)
     \<and> (\<forall>o1 \<in> set orders. po_order_id o1 < bs_next_order_id st)"

text \<open>The orders an event added: those in the queue with the identifiers it handed out.\<close>

definition newly_placed :: "'s run_state_bt \<Rightarrow> 's run_state_bt \<Rightarrow> pending_order list" where
  "newly_placed st st' = filter (\<lambda>p. bs_next_order_id st \<le> po_order_id p) (bs_pending st')"

definition draws_in_range :: "numpy_world \<Rightarrow> bool" where
  "draws_in_range np \<longleftrightarrow> (\<forall>k j. 0 \<le> np_draw np k j)"

definition orders_fit :: "nat \<Rightarrow> 's strategy \<Rightarrow> bool" where
  "orders_fit g strategy \<longleftrightarrow>
     (\<forall>s v port intents s'. strategy s v port = Inr (intents, s') \<longrightarrow> list_all (intent_fits g) intents)"

inductive bt_run :: "numpy_world \<Rightarrow> backtest_config \<Rightarrow> 's strategy \<Rightarrow> 's run_state_bt \<Rightarrow> pending_order list \<Rightarrow> bool"
  for np cfg strategy where
  start: "run_start cfg s = Inr st \<Longrightarrow> bt_run np cfg strategy st []"
| event: "bt_run np cfg strategy st orders \<Longrightarrow> event_wf ev \<Longrightarrow> run_event np cfg strategy ev st = Inr st' \<Longrightarrow>
    bt_run np cfg strategy st' (orders @ newly_placed st st')"

lemma process_pending_inv:
  assumes "state_inv g cfg orders st" "event_wf ev" "process_pending np ev cfg st = Inr st'"
  shows "state_inv g cfg orders st' \<and> bs_next_order_id st' = bs_next_order_id st"
proof -
  obtain c so st1 where p: "process_orders np ev cfg (bs_pending st) ([], [], st) = Inr (c, so, st1)" "st' = st1\<lparr>bs_pending := so\<rparr>"
    using assms(3) by (auto simp: process_pending_def rbind_eq_Inr)
  have "loop_inv g cfg orders ([], [], st) (bs_pending st)" using assms(1) by (simp add: loop_inv_def state_inv_def)
  from process_orders_inv [OF this assms(2) p(1)] process_orders_next [OF p(1)] p(2) assms(1)
  show ?thesis by (simp add: loop_inv_def state_inv_def)
qed

lemma enqueue_one_inv:
  assumes "state_inv g cfg orders st" "intent_fits g i" "draws_in_range np" "enqueue_one np ev cfg i st = Inr st'"
  shows "\<exists>new. state_inv g cfg (orders @ new) st' \<and> bs_pending st' = bs_pending st @ new
    \<and> (\<forall>p \<in> set new. bs_next_order_id st \<le> po_order_id p) \<and> bs_next_order_id st \<le> bs_next_order_id st'"
proof -
  have st: "book_ok g (bc_execution cfg) orders (bs_pending st) (bs_fills st)" "\<forall>o1 \<in> set orders. po_order_id o1 < bs_next_order_id st"
    using assms(1) by (auto simp: state_inv_def)
  consider "st' = st\<lparr>bs_abstained := bs_abstained st @ [i]\<rparr>"
    | r where "st' = st\<lparr>bs_next_order_id := bs_next_order_id st + 1, bs_rejections := bs_rejections st @ [r]\<rparr>"
    | p dr where "st' = st\<lparr>bs_next_order_id := bs_next_order_id st + 1, bs_draws := dr, bs_pending := bs_pending st @ [p]\<rparr>"
        "po_order_id p = bs_next_order_id st" "po_intent p = i" "po_remaining p = oi_quantity i"
        "po_created_ts p + ex_latency_ns (bc_execution cfg) \<le> po_eligible_ts p"
  proof -
    let ?ex = "bc_execution cfg"
    obtain latest where l: "view_latest (fe_view ev) (oi_symbol i) = Inr latest"
      using assms(4) by (auto simp: enqueue_one_def Let_def rbind_eq_Inr)
    define jitter where "jitter = (if ex_latency_jitter_ns ?ex \<noteq> 0 then np_draw np (bs_draws st) (ex_latency_jitter_ns ?ex) else 0)"
    have j: "0 \<le> jitter" using assms(3) by (simp add: jitter_def draws_in_range_def)
    show thesis
    proof (cases "abstains ?ex i")
      case True
      then show thesis using that(1) assms(4) l by (simp add: enqueue_one_def)
    next
      case na: False
      show thesis
      proof (cases latest)
        case None
        then have "st' = st\<lparr>bs_next_order_id := bs_next_order_id st + 1, bs_rejections := bs_rejections st @
            [\<lparr>rj_order_id = bs_next_order_id st, rj_symbol = oi_symbol i, rj_ts = fe_ts ev, rj_reason = ''no_market_data'',
              rj_quantity = oi_quantity i\<rparr>]\<rparr>"
          using assms(4) l na by (simp add: enqueue_one_def Let_def)
        then show thesis by (rule that(2))
      next
        case (Some b)
        define p where "p = \<lparr>po_order_id = bs_next_order_id st, po_intent = i, po_created_ts = fe_ts ev,
          po_eligible_ts = fe_ts ev + ex_latency_ns ?ex + jitter,
          po_expires_ts = map_option (\<lambda>n. fe_ts ev + n) (case oi_valid_for_ns i of Some n \<Rightarrow> Some n | None \<Rightarrow> ex_default_ttl_ns ?ex),
          po_decision_price = b_close b, po_remaining = oi_quantity i, po_regime = b_regime b\<rparr>"
        have "st' = st\<lparr>bs_next_order_id := bs_next_order_id st + 1,
            bs_draws := bs_draws st + (if ex_latency_jitter_ns ?ex \<noteq> 0 then 1 else 0), bs_pending := bs_pending st @ [p]\<rparr>"
          using assms(4) l na Some by (cases "ex_latency_jitter_ns ?ex = 0") (auto simp: enqueue_one_def Let_def p_def jitter_def)
        then show thesis by (rule that(3)) (use j in \<open>simp_all add: p_def\<close>)
      qed
    qed
  qed
  then show ?thesis
  proof cases
    case 1
    then show ?thesis using assms(1) by (intro exI [of _ "[]"]) (simp add: state_inv_def)
  next
    case 2
    then show ?thesis using assms(1) by (intro exI [of _ "[]"]) (auto simp: state_inv_def)
  next
    case (3 p dr)
    have nofill: "filled (po_order_id p) (bs_fills st) = 0"
    proof -
      have "bf_order_id f < bs_next_order_id st" if "f \<in> set (bs_fills st)" for f
        using that st by (auto simp: book_ok_def fill_follows_def)
      then have "filter (\<lambda>f. bf_order_id f = po_order_id p) (bs_fills st) = []" using 3(2) by (fastforce simp: filter_empty_conv)
      then show ?thesis by (simp add: filled_def)
    qed
    have ids: "po_order_id p' < bs_next_order_id st" if "p' \<in> set (bs_pending st)" for p'
      using book_ok_origin [OF st(1) that] st(2) by metis
    have old: "open_part g (orders @ [p]) (bs_fills st) p'" if "p' \<in> set (bs_pending st)" for p'
      using st(1) that by (auto simp: book_ok_def open_part_def)
    have "open_part g (orders @ [p]) (bs_fills st) p"
      using 3 assms(2) nofill by (auto simp: open_part_def intent_fits_def fits_def)
    then have "book_ok g (bc_execution cfg) (orders @ [p]) (bs_pending st @ [p]) (bs_fills st)"
      using st 3 ids old assms(2) nofill
      by (fastforce simp: book_ok_def order_placed_def intent_fits_def)
    then show ?thesis using 3 assms(1) by (intro exI [of _ "[p]"]) (auto simp: state_inv_def)
  qed
qed

lemma enqueue_inv:
  assumes "state_inv g cfg orders st" "list_all (intent_fits g) is" "draws_in_range np" "enqueue np ev cfg is st = Inr st'"
  shows "\<exists>new. state_inv g cfg (orders @ new) st' \<and> bs_pending st' = bs_pending st @ new
    \<and> (\<forall>p \<in> set new. bs_next_order_id st \<le> po_order_id p) \<and> bs_next_order_id st \<le> bs_next_order_id st'"
  using assms(1,2,4)
proof (induction "is" arbitrary: st orders)
  case Nil
  then show ?case by (intro exI [of _ "[]"]) simp
next
  case (Cons i "is")
  then obtain st1 where s1: "enqueue_one np ev cfg i st = Inr st1" "enqueue np ev cfg is st1 = Inr st'" by (auto simp: rbind_eq_Inr)
  obtain new1 where n1: "state_inv g cfg (orders @ new1) st1" "bs_pending st1 = bs_pending st @ new1"
      "\<forall>p \<in> set new1. bs_next_order_id st \<le> po_order_id p" "bs_next_order_id st \<le> bs_next_order_id st1"
    using enqueue_one_inv [OF Cons.prems(1) _ assms(3) s1(1)] Cons.prems(2) by auto
  obtain new2 where "state_inv g cfg ((orders @ new1) @ new2) st'" "bs_pending st' = bs_pending st1 @ new2"
      "\<forall>p \<in> set new2. bs_next_order_id st1 \<le> po_order_id p" "bs_next_order_id st1 \<le> bs_next_order_id st'"
    using Cons.IH [OF n1(1) _ s1(2)] Cons.prems(2) by auto
  then show ?case using n1 by (intro exI [of _ "new1 @ new2"]) auto
qed

lemma state_inv_pending_ids:
  assumes "state_inv g cfg orders st" "p \<in> set (bs_pending st)"
  shows "po_order_id p < bs_next_order_id st"
  using assms by (metis state_inv_def book_ok_origin)

lemma run_event_inv:
  assumes "state_inv g cfg orders st" "event_wf ev" "orders_fit g strategy" "draws_in_range np"
    and "run_event np cfg strategy ev st = Inr st'"
  shows "state_inv g cfg (orders @ newly_placed st st') st'"
proof -
  define st0 where "st0 = st\<lparr>bs_marks := update_marks (fe_new_bars ev) (bs_marks st)\<rparr>"
  have inv0: "state_inv g cfg orders st0" using assms(1) by (simp add: st0_def state_inv_def)
  have none: "filter (\<lambda>p. bs_next_order_id st \<le> po_order_id p) (bs_pending s) = []"
    if "state_inv g cfg orders s" "bs_next_order_id s = bs_next_order_id st" for s :: "'a run_state_bt"
    using state_inv_pending_ids [OF that(1)] that(2) by (fastforce simp: filter_empty_conv)
  show ?thesis
  proof (cases "trading_at cfg ev")
    case False
    then have "st' = st0" using assms(5) by (simp add: run_event_def st0_def)
    then show ?thesis using inv0 none [of st0] by (simp add: newly_placed_def st0_def)
  next
    case True
    then obtain st1 intents s pt where r: "process_pending np ev cfg st0 = Inr st1"
        "strategy (bs_strategy st1) (fe_view ev) (portfolio_snapshot_at (bs_portfolio st1) (fe_ts ev) (bs_marks st1)) = Inr (intents, s)"
        "enqueue np ev cfg intents (st1\<lparr>bs_curve := bs_curve st1 @ [pt], bs_strategy := s\<rparr>) = Inr st'"
      using assms(5) by (auto simp: run_event_def Let_def rbind_eq_Inr st0_def)
    have inv1: "state_inv g cfg orders st1" "bs_next_order_id st1 = bs_next_order_id st"
      using process_pending_inv [OF inv0 assms(2) r(1)] by (simp_all add: st0_def)
    have "list_all (intent_fits g) intents" using assms(3) r(2) unfolding orders_fit_def by blast
    moreover have "state_inv g cfg orders (st1\<lparr>bs_curve := bs_curve st1 @ [pt], bs_strategy := s\<rparr>)" using inv1(1) by (simp add: state_inv_def)
    ultimately obtain new where new: "state_inv g cfg (orders @ new) st'" "bs_pending st' = bs_pending st1 @ new"
        "\<forall>p \<in> set new. bs_next_order_id st1 \<le> po_order_id p"
      using enqueue_inv [OF _ _ assms(4) r(3)] by fastforce
    have "filter (\<lambda>p. bs_next_order_id st \<le> po_order_id p) new = new" using new(3) inv1(2) by (simp add: filter_id_conv)
    then have "newly_placed st st' = new" using new(2) none [OF inv1] by (simp add: newly_placed_def)
    then show ?thesis using new(1) by simp
  qed
qed

lemma bt_run_inv:
  assumes "bt_run np cfg strategy st orders" "orders_fit g strategy" "draws_in_range np"
  shows "state_inv g cfg orders st"
  using assms(1)
proof induction
  case (start s st)
  then show ?case
    by (auto simp: run_start_def rbind_eq_Inr Portfolio_new_def state_inv_def book_ok_def positions_ok_def split: if_splits)
next
  case (event st orders ev st')
  then show ?case using run_event_inv assms(2,3) by blast
qed

text \<open>A backtest is such a run.\<close>

lemma feed_from_wf: "list_all event_wf (feed_from series cursor ts)"
  by (induction ts arbitrary: cursor) (auto simp: event_wf_def feed_event_at_def at_cursor_def series_bar_def)

lemma run_events_reach:
  "bt_run np cfg strategy st orders \<Longrightarrow> list_all event_wf evs \<Longrightarrow> run_events np cfg strategy evs st = Inr st' \<Longrightarrow>
   \<exists>orders'. bt_run np cfg strategy st' (orders @ orders')"
proof (induction evs arbitrary: st orders)
  case Nil
  then show ?case by (intro exI [of _ "[]"]) simp
next
  case (Cons ev evs)
  then obtain st1 where "run_event np cfg strategy ev st = Inr st1" "run_events np cfg strategy evs st1 = Inr st'"
    by (auto simp: rbind_eq_Inr)
  then show ?case using Cons bt_run.event [of np cfg strategy st orders ev st1] by fastforce
qed

lemma run_backtest_reach:
  assumes "run_backtest np d strategy s cfg = Inr st"
  shows "\<exists>orders. bt_run np cfg strategy st orders"
proof -
  obtain st0 where st0: "run_start cfg s = Inr st0" "run_events np cfg strategy (feed_events d) st0 = Inr st"
    using assms by (auto simp: run_backtest_def rbind_eq_Inr)
  show ?thesis using run_events_reach [OF bt_run.start [OF st0(1)] _ st0(2)] feed_from_wf by (auto simp: feed_events_def)
qed



section \<open>The participation cap\<close>

definition traded_in :: "pystr \<Rightarrow> bt_fill list \<Rightarrow> rat" where
  "traded_in s fs = sum_list (map bf_quantity (filter (\<lambda>f. bf_symbol f = s) fs))"

lemma traded_in_append [simp]: "traded_in s (fs @ [f]) = traded_in s fs + (if bf_symbol f = s then bf_quantity f else 0)"
  by (simp add: traded_in_def)

lemma traded_in_Nil [simp]: "traded_in s [] = 0"
  by (simp add: traded_in_def)

text \<open>What a bar has left and what was traded on it add up to its capacity.\<close>

definition share_ok :: "feed_event \<Rightarrow> execution_config \<Rightarrow> bt_fill list \<Rightarrow> (pystr \<rightharpoonup> rat) \<Rightarrow> pystr \<Rightarrow> bool" where
  "share_ok ev ex new capacity s \<longleftrightarrow>
     0 \<le> traded_in s new \<and>
     (case capacity s of
        None \<Rightarrow> traded_in s new = 0
      | Some c \<Rightarrow> \<exists>b. map_of (fe_new_bars ev) s = Some b \<and> traded_in s new + c = bar_capacity b ex \<and> (traded_in s new = 0 \<or> 0 \<le> c))"

definition cap_inv :: "feed_event \<Rightarrow> execution_config \<Rightarrow> bt_fill list \<Rightarrow> (pystr \<times> rat) list \<times> pending_order list \<times> 's run_state_bt \<Rightarrow> bool" where
  "cap_inv ev ex fs0 acc =
     (case acc of (capacity, _, st) \<Rightarrow> \<exists>new. bs_fills st = fs0 @ new \<and> (\<forall>s. share_ok ev ex new (map_of capacity) s))"

definition capacities_fit :: "nat \<Rightarrow> execution_config \<Rightarrow> feed_event \<Rightarrow> bool" where
  "capacities_fit g ex ev \<longleftrightarrow> (\<forall>nb \<in> set (fe_new_bars ev). fits g (bar_capacity (snd nb) ex))"

lemma share_ok_open:
  "share_ok ev ex new capacity s' \<Longrightarrow> capacity s = None \<Longrightarrow> map_of (fe_new_bars ev) s = Some b \<Longrightarrow>
   share_ok ev ex new (capacity(s \<mapsto> bar_capacity b ex)) s'"
  by (auto simp: share_ok_def)

lemma share_ok_fill:
  assumes "\<And>s. share_ok ev ex new capacity s" "map_of (fe_new_bars ev) (bf_symbol f) = Some b" "fits g (bar_capacity b ex)"
    and "left = (case capacity (bf_symbol f) of Some c \<Rightarrow> c | None \<Rightarrow> bar_capacity b ex)"
    and "0 < bf_quantity f" "bf_quantity f \<le> left" "on_grid g (bf_quantity f)" "on_grid g left"
  shows "share_ok ev ex (new @ [f]) (capacity(bf_symbol f \<mapsto> dsub left (bf_quantity f))) s"
proof -
  let ?s = "bf_symbol f"
  have sum: "traded_in ?s new + left = bar_capacity b ex" "0 \<le> traded_in ?s new"
    using assms(1) [of ?s] assms(2,4) by (auto simp: share_ok_def split: option.splits)
  have "fits g left" using fits_le [OF assms(3,8)] sum assms(5,6) by simp
  then have "dsub left (bf_quantity f) = left - bf_quantity f" using fits_dsub assms(5-7) by simp
  then show ?thesis using assms(1) [of s] assms(2,5,6) sum by (cases "s = ?s") (auto simp: share_ok_def split: option.splits)
qed

lemma process_order_share:
  assumes "loop_inv g cfg orders acc (o1 # rest)" "event_wf ev" "capacities_fit g (bc_execution cfg) ev"
    and "cap_inv ev (bc_execution cfg) fs0 acc" "process_order np ev cfg o1 acc = Inr acc'"
  shows "cap_inv ev (bc_execution cfg) fs0 acc'"
proof -
  let ?ex = "bc_execution cfg" and ?s = "oi_symbol (po_intent o1)"
  obtain capacity still_open st where acc: "acc = (capacity, still_open, st)" by (cases acc)
  obtain new where new: "bs_fills st = fs0 @ new" "\<And>s. share_ok ev ?ex new (map_of capacity) s"
    using assms(4) by (auto simp: cap_inv_def acc)
  have step: "process_order np ev cfg o1 (capacity, still_open, st) = Inr acc'" using assms(5) by (simp add: acc)
  have symbol: "?s = ?s" ..
  from step symbol show ?thesis
  proof (cases rule: process_order_cases)
    case (skip ks cap' rj)
    then have "share_ok ev ?ex new (map_of cap') s" for s using new(2) share_ok_open by metis
    then show ?thesis using skip(1) new(1) by (auto simp: cap_inv_def)
  next
    case (fill b left max_qty a f pf' closed cap')
    note s = process_order_suits [OF assms(1) [unfolded acc] assms(2) fill(1-7)]
    have "share_ok ev ?ex (new @ [f]) ((map_of capacity)(bf_symbol f \<mapsto> dsub left (bf_quantity f))) t" for t
    proof (rule share_ok_fill [OF new(2)])
      show "fits g (bar_capacity b ?ex)" using assms(3) map_of_SomeD [OF fill(2)] by (auto simp: capacities_fit_def)
    qed (use s fill(2,4) in \<open>auto simp: fill_follows_def\<close>)
    moreover have "bf_symbol f = ?s" using s by (simp add: fill_follows_def)
    ultimately show ?thesis using fill(9,10) new(1) by (auto simp: cap_inv_def)
  qed
qed

lemma process_orders_share:
  "loop_inv g cfg orders acc os \<Longrightarrow> event_wf ev \<Longrightarrow> capacities_fit g (bc_execution cfg) ev \<Longrightarrow>
   cap_inv ev (bc_execution cfg) fs0 acc \<Longrightarrow> process_orders np ev cfg os acc = Inr acc' \<Longrightarrow> cap_inv ev (bc_execution cfg) fs0 acc'"
proof (induction os arbitrary: acc)
  case (Cons o1 os)
  then obtain acc1 where "process_order np ev cfg o1 acc = Inr acc1" "process_orders np ev cfg os acc1 = Inr acc'"
    by (auto simp: rbind_eq_Inr)
  then show ?case using Cons process_order_inv process_order_share by metis
qed simp

lemma enqueue_one_fills: "enqueue_one np ev cfg i st = Inr st' \<Longrightarrow> bs_fills st' = bs_fills st"
  by (auto simp: enqueue_one_def Let_def rbind_eq_Inr split: option.splits if_splits)

lemma enqueue_fills: "enqueue np ev cfg is st = Inr st' \<Longrightarrow> bs_fills st' = bs_fills st"
  by (induction "is" arbitrary: st) (auto simp: rbind_eq_Inr dest: enqueue_one_fills)

lemma run_event_fills:
  assumes "run_event np cfg strategy ev st = Inr st'"
  shows "bs_fills st' = bs_fills st
    \<or> (\<exists>st0 st1. process_pending np ev cfg st0 = Inr st1 \<and> bs_fills st' = bs_fills st1
          \<and> st0 = st\<lparr>bs_marks := update_marks (fe_new_bars ev) (bs_marks st)\<rparr>)"
  using assms by (auto simp: run_event_def Let_def rbind_eq_Inr dest!: enqueue_fills split: if_splits)


section \<open>A run\<close>

text \<open>A strategy that orders ten shares at every event, on two bars of one symbol: the first order is filled at the second bar.\<close>

definition demo_intent :: order_intent where
  "demo_intent = \<lparr>oi_symbol = ''AAA'', oi_side = BT_BUY, oi_quantity = 10, oi_omega = None, oi_price_limit = Some (Fin 200),
     oi_valid_for_ns = None, oi_tag = []\<rparr>"

definition demo_order :: pending_order where
  "demo_order = \<lparr>po_order_id = 1, po_intent = demo_intent, po_created_ts = 1, po_eligible_ts = 1, po_expires_ts = None,
     po_decision_price = 100, po_remaining = 10, po_regime = R_TRENDING_BULL\<rparr>"

definition demo_fill :: bt_fill where
  "demo_fill = \<lparr>bf_order_id = 1, bf_symbol = ''AAA'', bf_side = BT_BUY, bf_quantity = 10, bf_price = 110, bf_reference_price = 110,
     bf_fee = 1, bf_ts = 2, bf_signal_ts = 1, bf_regime = R_TRENDING_BULL, bf_tag = []\<rparr>"

definition demo_buyer :: "unit strategy" where
  "demo_buyer u v port = Inr ([demo_intent], u)"

definition demo_event :: "int \<Rightarrow> feed_event" where
  "demo_event t = hd (filter (\<lambda>ev. fe_ts ev = t) (feed_events (demo_data [(1, 100), (2, 110)])))"

definition demo_portfolio :: portfolio where
  "demo_portfolio = \<lparr>pf_initial_cash = 100000, pf_cash = 100000, pf_positions = [], pf_realised_pnl = 0, pf_fees_paid = 0,
     pf_signed_notional = 0, pf_traded_notional = 0\<rparr>"

definition demo_portfolio_filled :: portfolio where
  "demo_portfolio_filled = \<lparr>pf_initial_cash = 100000, pf_cash = 98899, pf_positions = [(''AAA'', \<lparr>bp_symbol = ''AAA'', bp_quantity = 10,
     bp_avg_cost = 110, bp_opened_ts = 2, bp_regime = R_TRENDING_BULL, bp_entry_qty = 10, bp_entry_notional = 1100, bp_exit_qty = 0,
     bp_exit_notional = 0, bp_realised_gross = 0, bp_fees = 1\<rparr>)], pf_realised_pnl = 0, pf_fees_paid = 1,
     pf_signed_notional = 1100, pf_traded_notional = 1100\<rparr>"

definition demo_state_0 :: "unit run_state_bt" where
  "demo_state_0 = \<lparr>bs_portfolio = demo_portfolio, bs_marks = [], bs_pending = [], bs_fills = [], bs_trades = [], bs_rejections = [],
     bs_abstained = [], bs_next_order_id = 1, bs_draws = 0, bs_curve = [], bs_strategy = ()\<rparr>"

definition demo_state_1 :: "unit run_state_bt" where
  "demo_state_1 = \<lparr>bs_portfolio = demo_portfolio, bs_marks = [(''AAA'', 100)], bs_pending = [demo_order], bs_fills = [], bs_trades = [],
     bs_rejections = [], bs_abstained = [], bs_next_order_id = 2, bs_draws = 0,
     bs_curve = [\<lparr>cp_ts = 1, cp_equity = 100000, cp_gross = 0, cp_regime = 1\<rparr>], bs_strategy = ()\<rparr>"

lemma demo_start: "run_start demo_config () = Inr demo_state_0"
  by (simp add: run_start_def demo_config_def Portfolio_new_def demo_state_0_def demo_portfolio_def)

lemma demo_floats: "fl 100000 = 100000" "fl 0 = 0" "to_decimal_6 100 = 100" "to_decimal_6 110 = 110"
  by code_simp+

lemma demo_decimals: "dadd 100000 0 = 100000" "dsub 100000 0 = 100000" "dsub 0 0 = 0" "dadd 0 0 = 0" "dabs 0 = 0" "dsub 100000 100000 = 0"
  by code_simp+

lemma demo_event_1: "demo_event 1 = \<lparr>fe_ts = 1, fe_new_bars = [(''AAA'', demo_bar 1 100)],
    fe_view = \<lparr>mv_now = 1, mv_histories = [\<lparr>sh_series = demo_series [(1, 100), (2, 110)], sh_end = 1, sh_now = 1\<rparr>]\<rparr>\<rparr>"
  by (simp add: demo_event_def feed_events_def demo_data_def feed_event_at_def at_cursor_def demo_series_def series_bar_def
    series_len_def demo_bar_def advance_def regime_of_number_def REGIME_NAMES_def)

lemma demo_event_2: "demo_event 2 = \<lparr>fe_ts = 2, fe_new_bars = [(''AAA'', demo_bar 2 110)],
    fe_view = \<lparr>mv_now = 2, mv_histories = [\<lparr>sh_series = demo_series [(1, 100), (2, 110)], sh_end = 2, sh_now = 2\<rparr>]\<rparr>\<rparr>"
  by (simp add: demo_event_def feed_events_def demo_data_def feed_event_at_def at_cursor_def demo_series_def series_bar_def
    series_len_def demo_bar_def advance_def regime_of_number_def REGIME_NAMES_def)

lemma demo_step_1: "run_event demo_numpy demo_config demo_buyer (demo_event 1) demo_state_0 = Inr demo_state_1"
  by (simp add: demo_event_1 run_event_def demo_state_0_def demo_state_1_def demo_config_def update_marks_def demo_bar_def
    demo_floats demo_decimals trading_at_def process_pending_def check_invariants_def guard_def demo_portfolio_def
    portfolio_equity_def unrealised_pnl_def gross_exposure_def demo_buyer_def enqueue_one_def Let_def view_latest_def
    view_history_def history_latest_def abstains_def demo_intent_def demo_order_def event_regime_def demo_series_def
    series_bar_def EQUITY_TOLERANCE_def regime_of_number_def REGIME_NAMES_def)

lemma demo_capacity: "bar_capacity (demo_bar 2 110) (bc_execution demo_config) = 1000"
  by code_simp

lemma demo_attempt: "attempt_fill (\<lambda>_. 0) demo_order (demo_bar 2 110) [100, 110] 1000 0 100000 (bc_cost demo_config) (bc_execution demo_config) =
  \<lparr>fa_fill = Some demo_fill, fa_order = None, fa_rejection = None\<rparr>"
  by code_simp

lemma demo_closes: "history_closes \<lparr>sh_series = demo_series [(1, 100), (2, 110)], sh_end = 2, sh_now = 2\<rparr>
    (Some (nat (cm_vol_lookback (bc_cost demo_config) + 1))) = [100, 110]"
  by code_simp

lemma demo_apply: "apply_fill demo_portfolio demo_fill = Inr (demo_portfolio_filled, [])"
  by code_simp

lemma demo_invariants: "check_invariants demo_portfolio_filled [(''AAA'', 110)] = Inr ()"
  by code_simp

lemma demo_pending: "process_pending demo_numpy (demo_event 2) demo_config (demo_state_1\<lparr>bs_marks := [(''AAA'', 110)]\<rparr>)
   = Inr (demo_state_1\<lparr>bs_marks := [(''AAA'', 110)], bs_portfolio := demo_portfolio_filled, bs_fills := [demo_fill], bs_pending := []\<rparr>)"
  using demo_capacity demo_attempt demo_closes demo_apply
  by (simp add: process_pending_def demo_state_1_def process_order_def Let_def demo_event_2 expired_def demo_order_def demo_intent_def
    demo_bar_def view_history_def demo_series_def demo_portfolio_def demo_numpy_def demo_fill_def demo_decimals)

lemma demo_step_2:
  obtains st where "run_event demo_numpy demo_config demo_buyer (demo_event 2) demo_state_1 = Inr st" "bs_fills st = [demo_fill]"
    "bs_portfolio st = demo_portfolio_filled"
  using demo_pending demo_invariants
  by (simp add: run_event_def demo_event_2 trading_at_def demo_config_def update_marks_def demo_state_1_def demo_bar_def demo_buyer_def
    enqueue_one_def Let_def view_latest_def view_history_def history_latest_def abstains_def demo_intent_def demo_series_def demo_floats)

lemma fits_int: "\<bar>i\<bar> \<le> 10 ^ 28 \<Longrightarrow> fits 0 (of_int i)"
  unfolding fits_def by (simp del: of_int_abs add: of_int_abs [symmetric])

lemma demo_bar_ts [simp]: "b_ts (demo_bar t p) = t"
  by (simp add: demo_bar_def)

lemma demo_hypotheses:
  "orders_fit 0 demo_buyer" "draws_in_range demo_numpy" "event_wf (demo_event 1)" "event_wf (demo_event 2)"
  "capacities_fit 0 (bc_execution demo_config) (demo_event 2)"
  using fits_int [of 10] fits_int [of 1000]
  by (auto simp: orders_fit_def demo_buyer_def demo_intent_def intent_fits_def draws_in_range_def demo_numpy_def event_wf_def
    demo_event_1 demo_event_2 capacities_fit_def demo_capacity)

lemma demo_run_1: "bt_run demo_numpy demo_config demo_buyer demo_state_1 (newly_placed demo_state_0 demo_state_1)"
  using bt_run.event [OF bt_run.start [OF demo_start] demo_hypotheses(3) demo_step_1] by simp

lemma demo_run_2:
  obtains st orders where "bt_run demo_numpy demo_config demo_buyer st orders" "bs_fills st = [demo_fill]" "bs_portfolio st = demo_portfolio_filled"
  using bt_run.event [OF demo_run_1 demo_hypotheses(4)] demo_step_2 by metis




end
