(* ===== verification/Bt_Metrics.thy ===== *)
theory Bt_Metrics
  imports Bt_Engine
begin

text \<open>
  Performance metrics and their breakdown by regime (\<open>backtesting/metrics.py\<close>,
  \<open>backtesting/regime_analysis.py\<close>), and the end of a backtest, which computes them
  (\<open>_finish\<close> in \<open>backtesting/engine.py\<close>). The mean and the sample deviation of an array are numpy's and
  parameters; so is the power of two floats, which may overflow. Elementwise arithmetic rounds each
  operation to a double.
\<close>

section \<open>Metrics\<close>

record numpy_stats =
  ns_mean :: "rat list \<Rightarrow> rat"
  ns_std :: "rat list \<Rightarrow> rat"
  ns_pow :: "rat \<Rightarrow> rat \<Rightarrow> exc + rat"

record metrics_config =
  mc_periods_per_year :: rat
  mc_risk_free_rate :: rat

definition MetricsConfig_new :: "dec \<Rightarrow> dec \<Rightarrow> exc + metrics_config" where
  "MetricsConfig_new periods rate =
     (case periods of
        Fin p \<Rightarrow> if p \<le> 0 then Inl (ConfigError ''periods_per_year must be positive and finite'')
          else (case rate of Fin r \<Rightarrow> Inr \<lparr>mc_periods_per_year = p, mc_risk_free_rate = r\<rparr>
                | _ \<Rightarrow> Inl (ConfigError ''risk_free_rate must be finite''))
      | _ \<Rightarrow> Inl (ConfigError ''periods_per_year must be positive and finite''))"

record bt_metrics =
  bm_n_periods :: nat
  bm_total_return :: rat
  bm_annualised_return :: rat
  bm_annualised_volatility :: "rat option"
  bm_sharpe :: "rat option"
  bm_sortino :: "rat option"
  bm_calmar :: "rat option"
  bm_max_drawdown :: rat
  bm_max_drawdown_duration_periods :: int
  bm_max_drawdown_duration_ns :: int
  bm_n_trades :: nat
  bm_hit_rate :: "rat option"
  bm_profit_factor :: "rat option"
  bm_turnover :: rat
  bm_exposure :: rat
  bm_avg_gross_exposure :: rat

definition period_returns :: "rat list \<Rightarrow> rat list" where
  "period_returns equity = map2 (\<lambda>a b. fl (fl (b - a) / a)) equity (tl equity)"

text \<open>\<open>np.maximum.accumulate\<close> and \<open>np.max\<close>\<close>

fun accumulate_max :: "rat \<Rightarrow> rat list \<Rightarrow> rat list" where
  "accumulate_max m [] = []"
| "accumulate_max m (x # xs) = max m x # accumulate_max (max m x) xs"

definition running_peak :: "rat list \<Rightarrow> rat list" where
  "running_peak xs = (case xs of [] \<Rightarrow> [] | x # _ \<Rightarrow> accumulate_max x xs)"

fun np_max :: "rat list \<Rightarrow> exc + rat" where
  "np_max [] = Inl (Exc ''ValueError'' ''zero-size array to reduction operation maximum'')"
| "np_max (x # xs) = Inr (fold max xs x)"

fun every_second :: "'a list \<Rightarrow> 'a list" where
  "every_second [] = []"
| "every_second [x] = [x]"
| "every_second (x # y # xs) = x # every_second xs"

definition run_edges :: "bool list \<Rightarrow> nat list" where
  "run_edges flags =
     (let padded = False # flags @ [False] in filter (\<lambda>i. padded ! i \<noteq> padded ! (i + 1)) [0 ..< length padded - 1])"

definition longer_stretch :: "rat list \<Rightarrow> int list \<Rightarrow> nat \<times> nat \<Rightarrow> int \<times> int \<Rightarrow> int \<times> int" where
  "longer_stretch equity ts se best =
     (case se of (s, e) \<Rightarrow>
      let peak_idx = int s - 1; recover_idx = min (int e) (int (length equity) - 1); periods = recover_idx - peak_idx in
      if fst best < periods then (periods, ts ! nat recover_idx - ts ! nat peak_idx) else best)"

definition max_drawdown :: "rat list \<Rightarrow> int list \<Rightarrow> exc + (rat \<times> int \<times> int)" where
  "max_drawdown equity ts =
     (let peak = running_peak equity in
      rbind (np_max (map2 (\<lambda>p e. fl (fl (p - e) / p)) peak equity)) (\<lambda>dd.
      let underwater = map2 (\<lambda>e p. e < p) equity peak in
      if \<not> list_ex id underwater then Inr (dd, 0, 0)
      else let edges = run_edges underwater
           in Inr (dd, fold (longer_stretch equity ts) (zip (every_second edges) (every_second (drop 1 edges))) (0, 0))))"

definition ratio_stats :: "numpy_stats \<Rightarrow> rat list \<Rightarrow> metrics_config \<Rightarrow> rat option \<times> rat option \<times> rat option" where
  "ratio_stats ns returns cfg =
     (if length returns < 2 then (None, None, None)
      else let ann = py_sqrt (mc_periods_per_year cfg);
               excess = map (\<lambda>r. fl (r - fl (mc_risk_free_rate cfg / mc_periods_per_year cfg))) returns;
               std = ns_std ns returns;
               downside = py_sqrt (ns_mean ns (map (\<lambda>x. fl (min x 0 * min x 0)) excess)) in
        (Some (fl (std * ann)),
         if std = 0 then None else Some (fl (fl (ns_mean ns excess / std) * ann)),
         if downside = 0 then None else Some (fl (fl (ns_mean ns excess / downside) * ann))))"

definition trade_stats :: "closed_trade list \<Rightarrow> rat option \<times> rat option" where
  "trade_stats trades =
     (if trades = [] then (None, None)
      else let nets = map net_pnl trades;
               wins = dsum (filter (\<lambda>n. 0 < n) nets);
               losses = dneg (dsum (filter (\<lambda>n. n < 0) nets)) in
        (Some (fl (of_nat (length (filter (\<lambda>n. 0 < n) nets)) / of_nat (length nets))),
         if losses = 0 then None else Some (fl (ddiv wins losses))))"

definition compute_metrics ::
  "numpy_stats \<Rightarrow> int list \<Rightarrow> rat list \<Rightarrow> rat list \<Rightarrow> closed_trade list \<Rightarrow> rat \<Rightarrow> metrics_config \<Rightarrow> exc + bt_metrics" where
  "compute_metrics ns ts equity gross trades traded_notional cfg =
     rbind (guard (2 \<le> length equity) (ConfigError ''need at least two equity points to compute metrics'')) (\<lambda>_.
     rbind (guard (list_all (\<lambda>e. 0 < e) equity) (ConfigError ''equity must be finite and strictly positive'')) (\<lambda>_.
     let returns = period_returns equity; n = length returns;
         total = fl (fl (last equity / hd equity) - 1) in
     rbind (ns_pow ns (fl (1 + total)) (fl (mc_periods_per_year cfg / of_nat n))) (\<lambda>power.
     let ann_ret = fl (power - 1); (vol, sharpe, sortino) = ratio_stats ns returns cfg in
     rbind (max_drawdown equity ts) (\<lambda>(dd, dd_periods, dd_ns).
     let (hit, pf) = trade_stats trades; mean_eq = ns_mean ns equity in
     Inr \<lparr>bm_n_periods = n, bm_total_return = total, bm_annualised_return = ann_ret, bm_annualised_volatility = vol,
          bm_sharpe = sharpe, bm_sortino = sortino, bm_calmar = (if dd = 0 then None else Some (fl (ann_ret / dd))),
          bm_max_drawdown = dd, bm_max_drawdown_duration_periods = dd_periods, bm_max_drawdown_duration_ns = dd_ns,
          bm_n_trades = length trades, bm_hit_rate = hit, bm_profit_factor = pf,
          bm_turnover = fl (fl traded_notional / mean_eq),
          bm_exposure = ns_mean ns (map (\<lambda>g. if 0 < g then 1 else 0) gross),
          bm_avg_gross_exposure = ns_mean ns (map2 (\<lambda>g e. fl (g / e)) gross equity)\<rparr>))))"

text \<open>The result of a backtest: its final state and the metrics of its curve.\<close>

definition finish_backtest :: "numpy_stats \<Rightarrow> metrics_config \<Rightarrow> 's run_state_bt \<Rightarrow> exc + ('s run_state_bt \<times> bt_metrics)" where
  "finish_backtest ns cfg st =
     rbind (compute_metrics ns (map cp_ts (bs_curve st)) (map cp_equity (bs_curve st)) (map cp_gross (bs_curve st)) (bs_trades st)
        (pf_traded_notional (bs_portfolio st)) cfg) (\<lambda>m. Inr (st, m))"

definition backtest_result ::
  "numpy_world \<Rightarrow> numpy_stats \<Rightarrow> metrics_config \<Rightarrow> market_data \<Rightarrow> 's strategy \<Rightarrow> 's \<Rightarrow> backtest_config \<Rightarrow> exc + ('s run_state_bt \<times> bt_metrics)" where
  "backtest_result np ns cfg d strategy s bt = rbind (run_backtest np d strategy s bt) (finish_backtest ns cfg)"

section \<open>Breakdown by regime\<close>

record regime_stats =
  rs_regime :: pystr
  rs_n_periods :: nat
  rs_n_trades :: nat
  rs_mean_return :: "rat option"
  rs_total_return :: "rat option"
  rs_annualised_volatility :: "rat option"
  rs_sharpe :: "rat option"
  rs_sortino :: "rat option"
  rs_max_drawdown :: "rat option"
  rs_hit_rate :: "rat option"
  rs_profit_factor :: "rat option"
  rs_insufficient_evidence :: bool

definition trade_ratios :: "closed_trade list \<Rightarrow> rat option \<times> rat option" where
  "trade_ratios trades =
     (if trades = [] then (None, None)
      else let nets = map net_pnl trades;
               wins = dsum (filter (\<lambda>n. 0 < n) nets);
               losses = dneg (dsum (filter (\<lambda>n. n < 0) nets)) in
        (Some (fl (of_nat (length (filter (\<lambda>n. 0 < n) nets)) / of_nat (length nets))),
         if losses = 0 then None else Some (fl (ddiv wins losses))))"

fun cumprod_from :: "rat \<Rightarrow> rat list \<Rightarrow> rat list" where
  "cumprod_from acc [] = []"
| "cumprod_from acc (x # xs) = fl (acc * x) # cumprod_from (fl (acc * x)) xs"

definition summarise_returns ::
  "numpy_stats \<Rightarrow> pystr \<Rightarrow> rat list \<Rightarrow> closed_trade list \<Rightarrow> metrics_config \<Rightarrow> int \<Rightarrow> exc + regime_stats" where
  "summarise_returns ns name returns trades cfg min_periods =
     (let n = length returns; (hit, pf) = trade_ratios trades in
      if n = 0
      then Inr \<lparr>rs_regime = name, rs_n_periods = 0, rs_n_trades = length trades, rs_mean_return = None, rs_total_return = None,
                rs_annualised_volatility = None, rs_sharpe = None, rs_sortino = None, rs_max_drawdown = None,
                rs_hit_rate = hit, rs_profit_factor = pf, rs_insufficient_evidence = True\<rparr>
      else let equity = 1 # cumprod_from 1 (map (\<lambda>r. fl (1 + r)) returns) in
        rbind (max_drawdown equity (map int [0 ..< length equity])) (\<lambda>(dd, _, _).
        let (vol, sharpe, sortino) = ratio_stats ns returns cfg in
        Inr \<lparr>rs_regime = name, rs_n_periods = n, rs_n_trades = length trades, rs_mean_return = Some (ns_mean ns returns),
             rs_total_return = Some (fl (last equity - 1)), rs_annualised_volatility = vol, rs_sharpe = sharpe,
             rs_sortino = sortino, rs_max_drawdown = Some dd, rs_hit_rate = hit, rs_profit_factor = pf,
             rs_insufficient_evidence = (int n < min_periods)\<rparr>))"

definition regime_name :: "bt_regime \<Rightarrow> pystr" where
  "regime_name r = fst (hd (filter (\<lambda>e. snd (snd e) = r) REGIME_NAMES))"

definition label_of_number :: "int \<Rightarrow> exc + bt_regime" where
  "label_of_number n =
     (case regime_of_number n of Some r \<Rightarrow> Inr r | None \<Rightarrow> Inl (Exc ''ValueError'' ''not a valid RegimeLabel''))"

definition regime_breakdown ::
  "numpy_stats \<Rightarrow> rat list \<Rightarrow> int list \<Rightarrow> closed_trade list \<Rightarrow> metrics_config \<Rightarrow> int \<Rightarrow> exc + (pystr \<times> regime_stats) list" where
  "regime_breakdown ns returns regimes trades cfg min_periods =
     rbind (guard (length returns = length regimes) (Exc ''ValueError'' ''returns and regimes must be aligned'')) (\<lambda>_.
     rbind (rmap label_of_number (remdups (sort regimes))) (\<lambda>present.
     let labels = HMM_STATES @ (if R_UNKNOWN \<in> set present then [R_UNKNOWN] else []) in
     rmap (\<lambda>label.
       rbind (summarise_returns ns (regime_name label)
                (map fst (filter (\<lambda>rg. snd rg = regime_number label) (zip returns regimes)))
                (filter (\<lambda>t. ct_regime t = label) trades) cfg min_periods) (\<lambda>stats.
       Inr (regime_name label, stats))) labels))"

section \<open>Facts\<close>

lemma list_all2_mem1: "list_all2 P xs ys \<Longrightarrow> x \<in> set xs \<Longrightarrow> \<exists>y \<in> set ys. P x y"
  by (induction rule: list_all2_induct) auto

lemma max_drawdown_total: "equity \<noteq> [] \<Longrightarrow> \<exists>r. max_drawdown equity ts = Inr r"
  by (cases equity) (auto simp: max_drawdown_def running_peak_def Let_def)

lemma summarise_returns_Inr:
  "\<exists>st. summarise_returns ns name returns trades cfg min_periods = Inr st \<and> rs_n_periods st = length returns
     \<and> rs_n_trades st = length trades \<and> rs_insufficient_evidence st = (returns = [] \<or> int (length returns) < min_periods)"
proof (cases "returns = []")
  case True
  then show ?thesis by (simp add: summarise_returns_def split: prod.splits)
next
  case False
  let ?eq = "1 # cumprod_from 1 (map (\<lambda>r. fl (1 + r)) returns)"
  obtain dd a b where "max_drawdown ?eq (map int [0 ..< length ?eq]) = Inr (dd, a, b)"
    using max_drawdown_total [of ?eq "map int [0 ..< length ?eq]"] by auto
  then show ?thesis using False by (simp add: summarise_returns_def Let_def split: prod.splits)
qed

definition periods_of :: "bt_regime \<Rightarrow> int list \<Rightarrow> nat" where
  "periods_of label regimes = length (filter (\<lambda>r. r = regime_number label) regimes)"

lemma periods_of_returns:
  "length returns = length regimes \<Longrightarrow>
   length (map fst (filter (\<lambda>rg. snd rg = regime_number label) (zip returns regimes))) = periods_of label regimes"
  by (induction returns regimes rule: list_induct2) (simp_all add: periods_of_def)

lemma periods_partition:
  assumes "\<And>r. r \<in> set regimes \<Longrightarrow> (\<Sum>l\<leftarrow>labels. if r = regime_number l then 1 else 0) = (1 :: nat)"
  shows "(\<Sum>l\<leftarrow>labels. periods_of l regimes) = length regimes"
  using assms
proof (induction regimes)
  case Nil
  then show ?case by (simp add: periods_of_def)
next
  case (Cons r rs)
  have "(\<Sum>l\<leftarrow>labels. periods_of l (r # rs)) = (\<Sum>l\<leftarrow>labels. (if r = regime_number l then 1 else 0) + periods_of l rs)"
    by (rule arg_cong [of _ _ sum_list]) (simp add: periods_of_def)
  also have "\<dots> = 1 + (\<Sum>l\<leftarrow>labels. periods_of l rs)" using Cons.prems [of r] by (simp add: sum_list_addf)
  finally show ?case using Cons by simp
qed

lemma regime_of_number_range: "regime_of_number n = Some r \<Longrightarrow> n = regime_number r"
  by (cases r) (auto simp: regime_of_number_def REGIME_NAMES_def split: if_splits)

lemma label_of_number_total: "0 \<le> n \<Longrightarrow> n \<le> 5 \<Longrightarrow> \<exists>r. label_of_number n = Inr r"
proof -
  assume "0 \<le> n" "n \<le> 5"
  then have "n \<in> {0, 1, 2, 3, 4, 5}" by auto
  then show ?thesis by (auto simp: label_of_number_def regime_of_number_def REGIME_NAMES_def)
qed

definition reported_labels :: "int list \<Rightarrow> bt_regime list" where
  "reported_labels regimes = HMM_STATES @ (if 0 \<in> set regimes then [R_UNKNOWN] else [])"

lemma reported_once:
  "0 \<le> r \<Longrightarrow> r \<le> 5 \<Longrightarrow> r \<in> set regimes \<Longrightarrow> (\<Sum>l\<leftarrow>reported_labels regimes. if r = regime_number l then 1 else 0) = (1 :: nat)"
proof -
  assume r: "0 \<le> r" "r \<le> 5" "r \<in> set regimes"
  then have "r \<in> {0, 1, 2, 3, 4, 5}" by auto
  then show ?thesis using r(3) by (auto simp: reported_labels_def HMM_STATES_def)
qed

text \<open>
  The breakdown by regime is complete. For aligned arrays of returns and valid regime labels it
  always returns; each of the five states of the detector is reported, and the unknown regime exactly
  when a period has it; the entry of a label counts the periods with that label and the trades entered
  under it, and is marked as insufficient evidence exactly when it has fewer periods than required; the
  periods of all entries add up to all periods.
\<close>

theorem regime_breakdown_is_complete:
  assumes "length returns = length regimes" "\<forall>r \<in> set regimes. 0 \<le> r \<and> r \<le> 5" "1 \<le> min_periods"
  shows "\<exists>out. regime_breakdown ns returns regimes trades cfg min_periods = Inr out
    \<and> map fst out = map regime_name (HMM_STATES @ (if 0 \<in> set regimes then [R_UNKNOWN] else []))
    \<and> list_all2 (\<lambda>label e. rs_n_periods (snd e) = length (filter (\<lambda>r. r = regime_number label) regimes)
         \<and> rs_n_trades (snd e) = length (filter (\<lambda>t. ct_regime t = label) trades)
         \<and> rs_insufficient_evidence (snd e) = (int (rs_n_periods (snd e)) < min_periods))
       (HMM_STATES @ (if 0 \<in> set regimes then [R_UNKNOWN] else [])) out
    \<and> sum_list (map (\<lambda>e. rs_n_periods (snd e)) out) = length returns"
proof -
  let ?labels = "reported_labels regimes"
  define entry where "entry = (\<lambda>label. rbind (summarise_returns ns (regime_name label)
      (map fst (filter (\<lambda>rg. snd rg = regime_number label) (zip returns regimes)))
      (filter (\<lambda>t. ct_regime t = label) trades) cfg min_periods) (\<lambda>stats. Inr (regime_name label, stats)))"
  obtain present where present: "rmap label_of_number (remdups (sort regimes)) = Inr present"
    using rmap_total [of "remdups (sort regimes)" label_of_number] assms(2) label_of_number_total by auto
  have "R_UNKNOWN \<in> set present \<longleftrightarrow> 0 \<in> set regimes"
  proof -
    have l: "list_all2 (\<lambda>n r. label_of_number n = Inr r) (remdups (sort regimes)) present" using present by (simp add: rmap_Inr)
    have n: "label_of_number n = Inr r \<Longrightarrow> n = regime_number r" for n r
      by (auto simp: label_of_number_def split: option.splits dest: regime_of_number_range)
    have z: "label_of_number 0 = Inr r \<Longrightarrow> r = R_UNKNOWN" for r using n [of 0 r] by (cases r) auto
    show ?thesis
    proof
      assume "R_UNKNOWN \<in> set present"
      then obtain m where "m \<in> set regimes" "label_of_number m = Inr R_UNKNOWN" using l by (auto dest: list_all2_mem2)
      then show "0 \<in> set regimes" using n [of m R_UNKNOWN] by simp
    next
      assume "0 \<in> set regimes"
      then obtain r where "r \<in> set present" "label_of_number 0 = Inr r" using l by (auto dest: list_all2_mem1)
      then show "R_UNKNOWN \<in> set present" using z by blast
    qed
  qed
  then have eq: "regime_breakdown ns returns regimes trades cfg min_periods = rmap entry ?labels"
    using assms(1) present by (simp add: regime_breakdown_def guard_def entry_def reported_labels_def)
  have e: "\<exists>x. entry l = Inr x \<and> fst x = regime_name l \<and> rs_n_periods (snd x) = periods_of l regimes
      \<and> rs_n_trades (snd x) = length (filter (\<lambda>t. ct_regime t = l) trades)
      \<and> rs_insufficient_evidence (snd x) = (int (periods_of l regimes) < min_periods)" for l
  proof -
    note p = periods_of_returns [OF assms(1), of l]
    show ?thesis
      using summarise_returns_Inr [of ns "regime_name l" "map fst (filter (\<lambda>rg. snd rg = regime_number l) (zip returns regimes))"
          "filter (\<lambda>t. ct_regime t = l) trades" cfg min_periods] assms(3) p
      unfolding entry_def by (cases "periods_of l regimes = 0") auto
  qed
  obtain out where out: "rmap entry ?labels = Inr out" using rmap_total [of ?labels entry] e by blast
  then have all: "list_all2 (\<lambda>l x. fst x = regime_name l \<and> rs_n_periods (snd x) = periods_of l regimes
      \<and> rs_n_trades (snd x) = length (filter (\<lambda>t. ct_regime t = l) trades)
      \<and> rs_insufficient_evidence (snd x) = (int (periods_of l regimes) < min_periods)) ?labels out"
    unfolding rmap_Inr by (rule list.rel_mono_strong) (metis e sum.inject(2))
  have names: "map fst out = map regime_name ?labels" and counts: "map (\<lambda>x. rs_n_periods (snd x)) out = map (\<lambda>l. periods_of l regimes) ?labels"
    using all by (auto simp: list_all2_conv_all_nth intro: nth_equalityI)
  have "sum_list (map (\<lambda>x. rs_n_periods (snd x)) out) = length regimes"
    unfolding counts using assms(2) by (intro periods_partition reported_once) auto
  moreover have "list_all2 (\<lambda>label x. rs_n_periods (snd x) = length (filter (\<lambda>r. r = regime_number label) regimes)
         \<and> rs_n_trades (snd x) = length (filter (\<lambda>t. ct_regime t = label) trades)
         \<and> rs_insufficient_evidence (snd x) = (int (rs_n_periods (snd x)) < min_periods)) ?labels out"
    using all by (rule list.rel_mono_strong) (simp add: periods_of_def)
  ultimately show ?thesis using eq out names assms(1) by (simp add: reported_labels_def)
qed

definition demo_stats :: numpy_stats where
  "demo_stats = \<lparr>ns_mean = (\<lambda>_. 0), ns_std = (\<lambda>_. 0), ns_pow = (\<lambda>_ _. Inr 1)\<rparr>"

theorem regime_breakdown_is_complete_witness:
  "\<exists>out. regime_breakdown demo_stats [1 / 2, 0, 0] [1, 0, 1] [] \<lparr>mc_periods_per_year = 252, mc_risk_free_rate = 0\<rparr> 2 = Inr out
     \<and> sum_list (map (\<lambda>e. rs_n_periods (snd e)) out) = 3"
  using regime_breakdown_is_complete [of "[1 / 2, 0, 0]" "[1, 0, 1]" 2 demo_stats "[]" "\<lparr>mc_periods_per_year = 252, mc_risk_free_rate = 0\<rparr>"]
  by auto

end
