(* ===== verification/Bt_Walk_Forward.thy ===== *)
theory Bt_Walk_Forward
  imports Bt_Causality Bt_Metrics
begin

text \<open>
  Walk-forward analysis (\<open>backtesting/wfa.py\<close>): the windows, the search over the parameter grid on a
  training slice, the run of the winner on the test slice. The loop that builds the windows has no bound
  of its own and is a partial function; it is shown to return. The statistics over all windows
  (\<open>_aggregate\<close>) are not modelled.
\<close>

section \<open>Windows\<close>

abbreviation LeakageError :: "pystr \<Rightarrow> exc" where
  "LeakageError \<equiv> Exc ''LeakageError''"

definition OBJECTIVES :: "pystr list" where
  "OBJECTIVES = [''sharpe'', ''sortino'', ''calmar'', ''total_return'']"

datatype window_mode = WM_ROLLING | WM_ANCHORED

record window_spec =
  ws_index :: int
  ws_train_start :: int
  ws_train_end :: int
  ws_test_start :: int
  ws_test_end :: int

record wfa_config =
  wc_train_size :: int
  wc_test_size :: int
  wc_step :: "int option"
  wc_mode :: window_mode
  wc_embargo :: int
  wc_purge :: int
  wc_warmup_bars :: int
  wc_objective :: pystr
  wc_min_regime_periods :: int

definition WfaConfig_new :: "wfa_config \<Rightarrow> exc + wfa_config" where
  "WfaConfig_new c =
     (if wc_objective c \<notin> set OBJECTIVES then Inl (ConfigError ''unknown objective'')
      else if wc_warmup_bars c < 0 \<or> wc_min_regime_periods c < 1
      then Inl (ConfigError ''warmup_bars must be >= 0 and min_regime_periods >= 1'')
      else Inr c)"

text \<open>The loop of \<open>generate_splits\<close>; without result when it never ends.\<close>

partial_function (option) split_loop ::
  "int \<Rightarrow> int \<Rightarrow> int \<Rightarrow> int \<Rightarrow> window_mode \<Rightarrow> int \<Rightarrow> int \<Rightarrow> int \<Rightarrow> window_spec list \<Rightarrow> window_spec list option" where
  "split_loop n train_size test_size step mode embargo purge k specs =
     (let a = (if mode = WM_ROLLING then k * step else 0);
          b = (if mode = WM_ROLLING then a + train_size else train_size + k * step);
          test_start = b + embargo in
      if n < test_start + test_size then Some specs
      else split_loop n train_size test_size step mode embargo purge (k + 1)
             (specs @ [\<lparr>ws_index = k, ws_train_start = a, ws_train_end = b - purge, ws_test_start = test_start,
                        ws_test_end = test_start + test_size\<rparr>]))"

declare split_loop.simps [code]

definition generate_splits ::
  "int \<Rightarrow> int \<Rightarrow> int \<Rightarrow> int option \<Rightarrow> window_mode \<Rightarrow> int \<Rightarrow> int \<Rightarrow> (exc + window_spec list) option" where
  "generate_splits n train_size test_size step_arg mode embargo purge =
     (let step = (case step_arg of None \<Rightarrow> test_size | Some s \<Rightarrow> s) in
      if min embargo purge < 0 then Some (Inl (ConfigError ''embargo and purge must be non-negative''))
      else if train_size - purge < 3 \<or> test_size < 2
      then Some (Inl (ConfigError ''need train_size - purge >= 3 and test_size >= 2''))
      else if step < test_size
      then Some (Inl (ConfigError ''step must be >= test_size so out-of-sample windows do not overlap''))
      else map_option (\<lambda>specs. if specs = [] then Inl (ConfigError ''too few samples for a single window'') else Inr specs)
             (split_loop n train_size test_size step mode embargo purge 0 []))"

fun check_gaps :: "int \<Rightarrow> int \<Rightarrow> window_spec list \<Rightarrow> exc + unit" where
  "check_gaps purge embargo [] = Inr ()"
| "check_gaps purge embargo (s # ss) =
     (if ws_test_start s < ws_train_end s \<or> ws_train_end s \<le> ws_train_start s
      then Inl (LeakageError ''training range overlaps or follows test range'')
      else if ws_test_start s - ws_train_end s < purge + embargo then Inl (LeakageError ''gap < purge+embargo'')
      else check_gaps purge embargo ss)"

fun check_overlaps :: "window_spec list \<Rightarrow> exc + unit" where
  "check_overlaps (s # t # ss) =
     (if ws_test_start t < ws_test_end s then Inl (LeakageError ''test ranges overlap'') else check_overlaps (t # ss))"
| "check_overlaps _ = Inr ()"

definition assert_no_leakage :: "window_spec list \<Rightarrow> int \<Rightarrow> int \<Rightarrow> exc + unit" where
  "assert_no_leakage splits purge embargo = rbind (check_gaps purge embargo splits) (\<lambda>_. check_overlaps splits)"

section \<open>Fitting and evaluating\<close>

type_synonym param_set = "(pystr \<times> rat) list"

text \<open>A factory makes a fresh strategy, with its state, from parameters it may refuse.\<close>

type_synonym 's strategy_factory = "param_set \<Rightarrow> exc + ('s strategy \<times> 's)"

text \<open>The score of a run, where a metric that is undefined scores below every number.\<close>

definition metric_score :: "bt_metrics \<Rightarrow> pystr \<Rightarrow> rat option" where
  "metric_score m objective =
     (if objective = ''total_return'' then Some (bm_total_return m)
      else if objective = ''sharpe'' then bm_sharpe m
      else if objective = ''sortino'' then bm_sortino m
      else bm_calmar m)"

fun score_gt :: "rat option \<Rightarrow> rat option \<Rightarrow> bool" where
  "score_gt None _ \<longleftrightarrow> False"
| "score_gt (Some x) None \<longleftrightarrow> True"
| "score_gt (Some x) (Some y) \<longleftrightarrow> y < x"

definition expand_grid :: "(pystr \<times> rat list) list \<Rightarrow> exc + param_set list" where
  "expand_grid grid =
     (let keys = sort (map fst grid) in
      if list_ex (\<lambda>k. the (map_of grid k) = []) keys then Inl (ConfigError ''every param_grid entry needs at least one value'')
      else Inr (map (zip keys) (product_lists (map (\<lambda>k. the (map_of grid k)) keys))))"

text \<open>Indexing a timeline as Python does, from its end when the index is negative.\<close>

definition timeline_at :: "market_data \<Rightarrow> int \<Rightarrow> exc + int" where
  "timeline_at d i =
     (let n = int (length (md_timeline d)) in
      if - n \<le> i \<and> i < n then Inr (md_timeline d ! nat (if i < 0 then i + n else i))
      else Inl (Exc ''IndexError'' ''index is out of bounds''))"

record wfa_world =
  ww_numpy :: numpy_world
  ww_stats :: numpy_stats

definition run_params ::
  "wfa_world \<Rightarrow> metrics_config \<Rightarrow> market_data \<Rightarrow> 's strategy_factory \<Rightarrow> param_set \<Rightarrow> backtest_config \<Rightarrow> exc + ('s run_state_bt \<times> bt_metrics)" where
  "run_params w mc d factory params bt =
     rbind (factory params) (\<lambda>(strategy, s). backtest_result (ww_numpy w) (ww_stats w) mc d strategy s bt)"

type_synonym 's best_run = "rat option \<times> param_set \<times> 's run_state_bt \<times> bt_metrics"

fun search_grid ::
  "(param_set \<Rightarrow> exc + ('s run_state_bt \<times> bt_metrics)) \<Rightarrow> pystr \<Rightarrow> param_set list \<Rightarrow> 's best_run option \<Rightarrow> exc + 's best_run option" where
  "search_grid run objective [] best = Inr best"
| "search_grid run objective (params # combos) best =
     rbind (run params) (\<lambda>res.
     let score = metric_score (snd res) objective in
     search_grid run objective combos
       (if (case best of None \<Rightarrow> True | Some b \<Rightarrow> score_gt score (fst b)) then Some (score, params, res) else best))"

definition fit_window ::
  "wfa_world \<Rightarrow> metrics_config \<Rightarrow> market_data \<Rightarrow> 's strategy_factory \<Rightarrow> param_set list \<Rightarrow> window_spec \<Rightarrow> wfa_config \<Rightarrow> backtest_config \<Rightarrow>
   exc + (param_set \<times> 's run_state_bt \<times> bt_metrics)" where
  "fit_window w mc d factory combos spec cfg bt =
     rbind (timeline_at d (ws_train_start spec)) (\<lambda>lo.
     rbind (timeline_at d (ws_train_end spec - 1)) (\<lambda>hi.
     rbind (md_slice_time d lo hi) (\<lambda>train.
     rbind (search_grid (\<lambda>params. run_params w mc train factory params bt) (wc_objective cfg) combos None) (\<lambda>best.
     case best of None \<Rightarrow> Inl (Exc ''AssertionError'' []) | Some (_, params, res) \<Rightarrow> Inr (params, res)))))"

definition evaluate_window ::
  "wfa_world \<Rightarrow> metrics_config \<Rightarrow> market_data \<Rightarrow> 's strategy_factory \<Rightarrow> param_set \<Rightarrow> window_spec \<Rightarrow> wfa_config \<Rightarrow> backtest_config \<Rightarrow>
   exc + ('s run_state_bt \<times> bt_metrics)" where
  "evaluate_window w mc d factory params spec cfg bt =
     rbind (timeline_at d (max 0 (ws_test_start spec - wc_warmup_bars cfg))) (\<lambda>lo.
     rbind (timeline_at d (ws_test_end spec - 1)) (\<lambda>hi.
     rbind (md_slice_time d lo hi) (\<lambda>test.
     rbind (timeline_at d (ws_test_start spec)) (\<lambda>start.
     rbind (BacktestConfig_new (bt\<lparr>bc_trading_start := Some start\<rparr>)) (\<lambda>test_bt.
     run_params w mc test factory params test_bt)))))"

record 's window_result =
  wr_spec :: window_spec
  wr_best_params :: param_set
  wr_train_metrics :: bt_metrics
  wr_test_metrics :: bt_metrics
  wr_test_returns :: "rat list"
  wr_test_regimes :: "int list"
  wr_test_run :: "'s run_state_bt"
  wr_regimes :: "(pystr \<times> regime_stats) list"

definition run_window ::
  "wfa_world \<Rightarrow> metrics_config \<Rightarrow> market_data \<Rightarrow> 's strategy_factory \<Rightarrow> param_set list \<Rightarrow> wfa_config \<Rightarrow> backtest_config \<Rightarrow> window_spec \<Rightarrow>
   exc + 's window_result" where
  "run_window w mc d factory combos cfg bt spec =
     rbind (fit_window w mc d factory combos spec cfg bt) (\<lambda>(params, train_run, train_metrics).
     rbind (evaluate_window w mc d factory params spec cfg bt) (\<lambda>(test_run, test_metrics).
     let rets = period_returns (map cp_equity (bs_curve test_run)); regs = butlast (map cp_regime (bs_curve test_run)) in
     rbind (regime_breakdown (ww_stats w) rets regs (bs_trades test_run) mc (wc_min_regime_periods cfg)) (\<lambda>regimes.
     Inr \<lparr>wr_spec = spec, wr_best_params = params, wr_train_metrics = train_metrics, wr_test_metrics = test_metrics,
          wr_test_returns = rets, wr_test_regimes = regs, wr_test_run = test_run, wr_regimes = regimes\<rparr>)))"

text \<open>\<open>run_walk_forward\<close> up to the aggregate statistics.\<close>

definition walk_forward_windows ::
  "wfa_world \<Rightarrow> metrics_config \<Rightarrow> market_data \<Rightarrow> 's strategy_factory \<Rightarrow> (pystr \<times> rat list) list \<Rightarrow> wfa_config \<Rightarrow> backtest_config \<Rightarrow>
   (exc + 's window_result list) option" where
  "walk_forward_windows w mc d factory param_grid cfg bt =
     (case expand_grid param_grid of
        Inl e \<Rightarrow> Some (Inl e)
      | Inr combos \<Rightarrow>
          map_option (\<lambda>r. rbind r (\<lambda>specs.
              rbind (assert_no_leakage specs (wc_purge cfg) (wc_embargo cfg)) (\<lambda>_.
              rmap (run_window w mc d factory combos cfg bt) specs)))
            (generate_splits (int (length (md_timeline d))) (wc_train_size cfg) (wc_test_size cfg) (wc_step cfg) (wc_mode cfg)
               (wc_embargo cfg) (wc_purge cfg)))"

section \<open>The windows do not leak\<close>

definition window_at :: "int \<Rightarrow> int \<Rightarrow> int \<Rightarrow> window_mode \<Rightarrow> int \<Rightarrow> int \<Rightarrow> int \<Rightarrow> window_spec" where
  "window_at train_size test_size step mode embargo purge k =
     \<lparr>ws_index = k, ws_train_start = (if mode = WM_ROLLING then k * step else 0), ws_train_end = k * step + train_size - purge,
      ws_test_start = k * step + train_size + embargo, ws_test_end = k * step + train_size + embargo + test_size\<rparr>"

definition n_windows :: "int \<Rightarrow> int \<Rightarrow> int \<Rightarrow> nat" where
  "n_windows n base step = (if n < base then 0 else nat ((n - base) div step) + 1)"

lemma n_windows_le:
  assumes "0 < step"
  shows "n_windows n base step \<le> k \<longleftrightarrow> n < int k * step + base"
proof (cases "n < base")
  case True
  then show ?thesis using assms by (simp add: n_windows_def) (smt (verit) mult_nonneg_nonneg of_nat_0_le_iff)
next
  case False
  have "n_windows n base step \<le> k \<longleftrightarrow> (n - base) div step < int k"
    using False pos_imp_zdiv_nonneg_iff [OF assms, of "n - base"] by (simp add: n_windows_def Suc_le_eq nat_less_iff)
  also have "\<dots> \<longleftrightarrow> n - base < int k * step"
    using le_div_mult [OF assms, of "int k" "n - base"] zdiv_mono1 [of "int k * step" "n - base" step] assms by force
  finally show ?thesis by linarith
qed

lemma split_loop_from:
  assumes "0 < step"
  shows "split_loop n train_size test_size step mode embargo purge (int k) specs =
    Some (specs @ map (\<lambda>i. window_at train_size test_size step mode embargo purge (int i))
      [k ..< n_windows n (train_size + embargo + test_size) step])"
proof (induction "n_windows n (train_size + embargo + test_size) step - k" arbitrary: k specs)
  case 0
  then have "n < int k * step + (train_size + embargo + test_size)" using n_windows_le [OF assms] by simp
  then show ?case using 0 by (subst split_loop.simps) (auto simp: Let_def algebra_simps)
next
  case (Suc m)
  then have lt: "k < n_windows n (train_size + embargo + test_size) step" by simp
  then have "\<not> n < int k * step + (train_size + embargo + test_size)" using n_windows_le [OF assms] by (metis not_le)
  moreover have "[k ..< n_windows n (train_size + embargo + test_size) step] = k # [Suc k ..< n_windows n (train_size + embargo + test_size) step]"
    using lt by (rule upt_conv_Cons)
  moreover have "m = n_windows n (train_size + embargo + test_size) step - Suc k" using Suc(2) by simp
  note Suc(1) [OF this]
  ultimately show ?case
    by (subst split_loop.simps) (auto simp: Let_def window_at_def algebra_simps)
qed

lemma check_gaps_ok:
  "list_all (\<lambda>s. ws_train_end s \<le> ws_test_start s \<and> ws_train_start s < ws_train_end s \<and> purge + embargo \<le> ws_test_start s - ws_train_end s) ss
   \<Longrightarrow> check_gaps purge embargo ss = Inr ()"
  by (induction ss) auto

lemma check_overlaps_ok: "successively (\<lambda>s t. ws_test_end s \<le> ws_test_start t) ss \<Longrightarrow> check_overlaps ss = Inr ()"
  by (induction ss rule: check_overlaps.induct) auto

text \<open>What \<open>generate_splits\<close> returns.\<close>

definition splits_refused :: "int \<Rightarrow> int \<Rightarrow> int \<Rightarrow> int \<Rightarrow> int \<Rightarrow> int \<Rightarrow> bool" where
  "splits_refused n train_size test_size step embargo purge \<longleftrightarrow>
     embargo < 0 \<or> purge < 0 \<or> train_size - purge < 3 \<or> test_size < 2 \<or> step < test_size \<or> n < train_size + embargo + test_size"

lemma generate_splits_value:
  assumes "step = (case step_arg of None \<Rightarrow> test_size | Some s \<Rightarrow> s)"
  shows "if splits_refused n train_size test_size step embargo purge
    then \<exists>msg. generate_splits n train_size test_size step_arg mode embargo purge = Some (Inl (ConfigError msg))
    else generate_splits n train_size test_size step_arg mode embargo purge =
      Some (Inr (map (\<lambda>i. window_at train_size test_size step mode embargo purge (int i))
        [0 ..< n_windows n (train_size + embargo + test_size) step]))"
proof (cases "embargo < 0 \<or> purge < 0 \<or> train_size - purge < 3 \<or> test_size < 2 \<or> step < test_size")
  case True
  then have "splits_refused n train_size test_size step embargo purge" by (auto simp: splits_refused_def)
  moreover have "\<exists>msg. generate_splits n train_size test_size step_arg mode embargo purge = Some (Inl (ConfigError msg))"
    using True unfolding generate_splits_def assms [symmetric] Let_def by (simp add: min_less_iff_disj) blast
  ultimately show ?thesis by simp
next
  case False
  then have "0 < step" by linarith
  from split_loop_from [OF this, of n train_size test_size mode embargo purge 0 "[]"] False
  show ?thesis unfolding generate_splits_def assms [symmetric] Let_def
    by (auto simp: splits_refused_def min_def n_windows_def)
qed

lemma generated_spec:
  assumes "generate_splits n train_size test_size step_arg mode embargo purge = Some (Inr specs)" "spec \<in> set specs"
  shows "0 \<le> ws_train_start spec \<and> ws_train_start spec + 3 \<le> ws_train_end spec \<and> ws_train_end spec \<le> ws_test_start spec
    \<and> ws_test_start spec < ws_test_end spec \<and> ws_test_end spec \<le> n"
proof -
  define step where "step = (case step_arg of None \<Rightarrow> test_size | Some s \<Rightarrow> s)"
  let ?N = "n_windows n (train_size + embargo + test_size) step"
  have r: "\<not> splits_refused n train_size test_size step embargo purge"
    and specs: "specs = map (\<lambda>i. window_at train_size test_size step mode embargo purge (int i)) [0 ..< ?N]"
    using generate_splits_value [OF step_def, of n train_size embargo purge mode] assms(1) by (auto split: if_splits)
  obtain i where i: "i < ?N" "spec = window_at train_size test_size step mode embargo purge (int i)" using assms(2) specs by auto
  have step: "0 < step" using r by (auto simp: splits_refused_def)
  define m where "m = int i * step"
  have "0 \<le> m" "m + (train_size + embargo + test_size) \<le> n"
    using i(1) n_windows_le [OF step, of n "train_size + embargo + test_size" i] step by (auto simp: m_def)
  then show ?thesis using r unfolding splits_refused_def i(2) window_at_def m_def [symmetric] by auto
qed

text \<open>
  C38: The windows of a walk-forward analysis are built, and never leak. The loop always ends. The windows
  are refused only for sizes the code rules out or too few samples. Otherwise each window lies within the
  timeline, its training range is not empty and ends exactly purge + embargo samples before its test range,
  the test ranges of different windows are disjoint and in order, one more window would not fit, and the
  code's own leakage check accepts the windows.
\<close>

theorem splits_are_built_without_leakage:
  assumes "step = (case step_arg of None \<Rightarrow> test_size | Some s \<Rightarrow> s)"
  shows "\<exists>r. generate_splits n train_size test_size step_arg mode embargo purge = Some r
    \<and> ((\<exists>msg. r = Inl (ConfigError msg)) \<and> splits_refused n train_size test_size step embargo purge
       \<or> (\<exists>specs. r = Inr specs \<and> \<not> splits_refused n train_size test_size step embargo purge \<and> specs \<noteq> []
          \<and> assert_no_leakage specs purge embargo = Inr ()
          \<and> list_all (\<lambda>s. 0 \<le> ws_train_start s \<and> ws_train_start s + 3 \<le> ws_train_end s
               \<and> ws_test_start s = ws_train_end s + purge + embargo \<and> ws_test_end s = ws_test_start s + test_size \<and> ws_test_end s \<le> n) specs
          \<and> sorted_wrt (\<lambda>s t. ws_test_end s \<le> ws_test_start t) specs
          \<and> n < ws_test_end (last specs) + step))"
proof (cases "splits_refused n train_size test_size step embargo purge")
  case True
  then show ?thesis using generate_splits_value [OF assms, of n train_size embargo purge mode] by auto
next
  case False
  let ?N = "n_windows n (train_size + embargo + test_size) step"
  let ?w = "\<lambda>i. window_at train_size test_size step mode embargo purge (int i)"
  let ?specs = "map ?w [0 ..< ?N]"
  have c: "0 \<le> embargo" "0 \<le> purge" "3 \<le> train_size - purge" "2 \<le> test_size" "test_size \<le> step" "train_size + embargo + test_size \<le> n"
    using False by (auto simp: splits_refused_def)
  then have step: "0 < step" by linarith
  have N: "0 < ?N" using c(6) by (simp add: n_windows_def)
  have k: "0 \<le> int i * step \<and> int i * step + (train_size + embargo + test_size) \<le> n" if "i < ?N" for i
  proof -
    have "\<not> ?N \<le> i" using that by simp
    then show ?thesis unfolding n_windows_le [OF step] using step by (auto simp: not_less)
  qed
  define P :: "window_spec \<Rightarrow> bool" where "P = (\<lambda>s. 0 \<le> ws_train_start s \<and> ws_train_start s + 3 \<le> ws_train_end s
      \<and> ws_test_start s = ws_train_end s + purge + embargo \<and> ws_test_end s = ws_test_start s + test_size \<and> ws_test_end s \<le> n)"
  have P: "P (?w i)" if "i < ?N" for i
  proof -
    define m where "m = int i * step"
    have "0 \<le> m" "m + (train_size + embargo + test_size) \<le> n" using k [OF that] by (simp_all add: m_def)
    then show ?thesis using c unfolding P_def window_at_def m_def [symmetric] by auto
  qed
  then have all: "list_all P ?specs" by (simp add: list_all_iff)
  have srt: "sorted_wrt (\<lambda>s t. ws_test_end s \<le> ws_test_start t) ?specs"
  proof (rule sorted_wrt_mono_rel [where P = "\<lambda>s t. ws_index s < ws_index t \<and> s = window_at train_size test_size step mode embargo purge (ws_index s)
        \<and> t = window_at train_size test_size step mode embargo purge (ws_index t)", rotated])
    show "sorted_wrt (\<lambda>s t. ws_index s < ws_index t \<and> s = window_at train_size test_size step mode embargo purge (ws_index s)
        \<and> t = window_at train_size test_size step mode embargo purge (ws_index t)) ?specs"
      unfolding sorted_wrt_map by (rule sorted_wrt_mono_rel [OF _ sorted_wrt_upt]) (simp add: window_at_def)
  next
    fix s t assume st: "ws_index s < ws_index t \<and> s = window_at train_size test_size step mode embargo purge (ws_index s)
        \<and> t = window_at train_size test_size step mode embargo purge (ws_index t)"
    have "(ws_index s + 1) * step \<le> ws_index t * step" using st step by (intro mult_right_mono) auto
    moreover have "ws_test_end s = ws_index s * step + train_size + embargo + test_size"
      "ws_test_start t = ws_index t * step + train_size + embargo"
      using st by (metis window_at_def window_spec.select_convs(5), metis window_at_def window_spec.select_convs(4))
    ultimately show "ws_test_end s \<le> ws_test_start t" using c(5) by (simp add: algebra_simps)
  qed
  have "check_gaps purge embargo ?specs = Inr ()"
    by (rule check_gaps_ok, rule list.pred_mono_strong [OF all]) (use c in \<open>auto simp: P_def\<close>)
  moreover have "check_overlaps ?specs = Inr ()"
    by (rule check_overlaps_ok) (use srt successively_if_sorted_wrt in blast)
  ultimately have "assert_no_leakage ?specs purge embargo = Inr ()" by (simp add: assert_no_leakage_def)
  moreover have "n < ws_test_end (last ?specs) + step"
  proof -
    have "last ?specs = ?w (?N - 1)" using N by (simp add: last_map)
    moreover have "n < int ?N * step + (train_size + embargo + test_size)" using n_windows_le [OF step, of n _ ?N] by blast
    moreover have "int (?N - 1) * step + step = int ?N * step" using N by (simp add: of_nat_diff algebra_simps)
    ultimately show ?thesis by (simp add: window_at_def)
  qed
  moreover have "generate_splits n train_size test_size step_arg mode embargo purge = Some (Inr ?specs)"
    using generate_splits_value [OF assms, of n train_size embargo purge mode] False by simp
  ultimately show ?thesis using all [unfolded P_def] srt False N by (intro exI [of _ "Inr ?specs"]) (auto simp del: upt_Suc)
qed

theorem splits_are_built_without_leakage_witness:
  "\<exists>r. generate_splits 20 6 4 None WM_ANCHORED 1 2 = Some r \<and> (\<exists>specs. r = Inr specs \<and> assert_no_leakage specs 2 1 = Inr ())"
  using splits_are_built_without_leakage [of 4 4 None 20 6 WM_ANCHORED 1 2] by (auto simp: splits_refused_def)

section \<open>Fitting sees the training range only\<close>

lemma take_searchsorted: "take (searchsorted_right ts u) ts = takeWhile (\<lambda>x. x \<le> u) ts"
  by (simp add: searchsorted_right_def takeWhile_eq_take [symmetric])

lemma takeWhile_stronger: "(\<And>x. P x \<Longrightarrow> Q x) \<Longrightarrow> takeWhile P (takeWhile Q xs) = takeWhile P xs"
  by (induction xs) auto

lemma searchsorted_agree:
  assumes "series_agree u s s'" "t \<le> u"
  shows "searchsorted_left (ss_ts s) t = searchsorted_left (ss_ts s') t" "searchsorted_right (ss_ts s) t = searchsorted_right (ss_ts s') t"
    "searchsorted_right (ss_ts s) t \<le> searchsorted_right (ss_ts s) u"
proof -
  have eq: "takeWhile (\<lambda>x. x \<le> u) (ss_ts s) = takeWhile (\<lambda>x. x \<le> u) (ss_ts s')"
    using assms(1) unfolding take_searchsorted [symmetric] series_agree_def series_eq_def by (elim conjE) simp
  have "takeWhile P (ss_ts s) = takeWhile P (ss_ts s')" if "\<And>x. P x \<Longrightarrow> x \<le> u" for P
    using takeWhile_stronger [of P "\<lambda>x. x \<le> u" "ss_ts s"] takeWhile_stronger [of P "\<lambda>x. x \<le> u" "ss_ts s'"] that eq by simp
  from this [of "\<lambda>x. x < t"] this [of "\<lambda>x. x \<le> t"] show "searchsorted_left (ss_ts s) t = searchsorted_left (ss_ts s') t"
    "searchsorted_right (ss_ts s) t = searchsorted_right (ss_ts s') t"
    using assms(2) by (auto simp: searchsorted_left_def searchsorted_right_def)
  have "takeWhile (\<lambda>x. x \<le> t) (ss_ts s) = takeWhile (\<lambda>x. x \<le> t) (takeWhile (\<lambda>x. x \<le> u) (ss_ts s))"
    using takeWhile_stronger [of "\<lambda>x. x \<le> t" "\<lambda>x. x \<le> u"] assms(2) by auto
  then show "searchsorted_right (ss_ts s) t \<le> searchsorted_right (ss_ts s) u"
    by (metis length_takeWhile_le searchsorted_right_def)
qed

lemma series_slice_agree:
  assumes "series_agree u s s'" "lo \<le> u" "hi \<le> u"
  shows "series_slice_time s lo hi = series_slice_time s' lo hi"
proof -
  note l = searchsorted_agree(1) [OF assms(1,2)] and h = searchsorted_agree(2,3) [OF assms(1,3)]
  have "series_eq (searchsorted_right (ss_ts s) hi) s s'"
    using assms(1) h(2) series_eq_le by (auto simp: series_agree_def)
  then show ?thesis unfolding series_slice_time_def l h(1) [symmetric] by (simp add: series_eq_def column_slice_def Let_def)
qed

lemma md_slice_agree:
  assumes "data_agree u d d'" "lo \<le> u" "hi \<le> u"
  shows "md_slice_time d lo hi = md_slice_time d' lo hi"
proof -
  have "map (\<lambda>s. series_slice_time s lo hi) (md_series d) = map (\<lambda>s. series_slice_time s lo hi) (md_series d')"
    using assms(1) unfolding data_agree_def
    by (induction rule: list_all2_induct) (simp_all add: series_slice_agree [OF _ assms(2,3)])
  moreover have "rmap f xs = rmap id (map f xs)" for f :: "symbol_series \<Rightarrow> exc + symbol_series option" and xs
    by (induction xs) simp_all
  ultimately have "rmap (\<lambda>s. series_slice_time s lo hi) (md_series d) = rmap (\<lambda>s. series_slice_time s lo hi) (md_series d')" by metis
  then show ?thesis by (simp add: md_slice_time_def)
qed

lemma timeline_increasing:
  assumes "data_valid d" "i < j" "j < length (md_timeline d)"
  shows "md_timeline d ! i < md_timeline d ! j"
proof -
  have "sorted (md_timeline d)" "distinct (md_timeline d)" using assms(1) by (simp_all add: data_valid_def)
  then have "sorted_wrt (<) (md_timeline d)" by (simp add: strict_sorted_iff)
  then show ?thesis using assms(2,3) by (simp add: sorted_wrt_iff_nth_less)
qed

lemma timeline_at_agree:
  assumes "data_valid d" "data_valid d'" "0 \<le> i" "i \<le> j" "j < int (length (md_timeline d))" "data_agree (md_timeline d ! nat j) d d'"
  shows "timeline_at d' i = Inr (md_timeline d ! nat i)" "timeline_at d i = Inr (md_timeline d ! nat i)"
    "md_timeline d ! nat i \<le> md_timeline d ! nat j"
proof -
  let ?u = "md_timeline d ! nat j" and ?tw = "takeWhile (\<lambda>t. t \<le> md_timeline d ! nat j)"
  have le: "md_timeline d ! m \<le> ?u" if "m \<le> nat j" for m
  proof (cases "m = nat j")
    case False
    have "nat j < length (md_timeline d)" using assms(3-5) by linarith
    then show ?thesis using timeline_increasing [OF assms(1), of m "nat j"] that False by simp
  qed simp
  show "md_timeline d ! nat i \<le> ?u" using le assms(4) by simp
  show "timeline_at d i = Inr (md_timeline d ! nat i)" using assms(3-5) by (simp add: timeline_at_def)
  have len: "nat j < length (?tw (md_timeline d))"
  proof (rule ccontr)
    assume "\<not> ?thesis"
    then have l: "length (?tw (md_timeline d)) \<le> nat j" by simp
    then have "length (?tw (md_timeline d)) < length (md_timeline d)" using assms(3-5) by linarith
    from nth_length_takeWhile [OF this] le [OF l] show False by simp
  qed
  have eq: "?tw (md_timeline d) = ?tw (md_timeline d')" using timeline_agree [OF assms(1,2,6)] .
  have "nat i < length (?tw (md_timeline d))" using len assms(4) by linarith
  then have "md_timeline d ! nat i = md_timeline d' ! nat i" using takeWhile_nth eq by metis
  moreover have "nat j < length (md_timeline d')" using len eq length_takeWhile_le order.strict_trans2 by metis
  ultimately show "timeline_at d' i = Inr (md_timeline d ! nat i)" using assms(3,4) by (auto simp: timeline_at_def Let_def)
qed

text \<open>
  C39: Fitting a window never sees its test range. For a window that \<open>generate_splits\<close> built, the
  parameters chosen and the training run depend on nothing after the last training bar: any other valid
  market data that holds the same bars up to there gives the same fit, errors included, for every strategy,
  even one that inspects the raw series behind its view. The test range starts strictly later than that bar.
\<close>

theorem fit_never_sees_the_test_range:
  assumes "data_valid d" "data_valid d'"
    and "generate_splits (int (length (md_timeline d))) (wc_train_size cfg) (wc_test_size cfg) (wc_step cfg) (wc_mode cfg)
      (wc_embargo cfg) (wc_purge cfg) = Some (Inr specs)"
    and "spec \<in> set specs" "data_agree (md_timeline d ! nat (ws_train_end spec - 1)) d d'"
  shows "fit_window w mc d factory combos spec cfg bt = fit_window w mc d' factory combos spec cfg bt
    \<and> md_timeline d ! nat (ws_train_end spec - 1) < md_timeline d ! nat (ws_test_start spec)"
proof -
  have sp: "0 \<le> ws_train_start spec" "ws_train_start spec + 3 \<le> ws_train_end spec" "ws_train_end spec \<le> ws_test_start spec"
    "ws_test_start spec < int (length (md_timeline d))"
    using generated_spec [OF assms(3,4)] by auto
  let ?j = "ws_train_end spec - 1"
  have j: "0 \<le> ?j" "?j \<le> ?j" "?j < int (length (md_timeline d))" "ws_train_start spec \<le> ?j" using sp by auto
  note a = timeline_at_agree [OF assms(1,2) sp(1) j(4,3) assms(5)] and b = timeline_at_agree [OF assms(1,2) j(1-3) assms(5)]
  have "fit_window w mc d factory combos spec cfg bt = fit_window w mc d' factory combos spec cfg bt"
    using md_slice_agree [OF assms(5) a(3) b(3)] by (simp add: fit_window_def a(1,2) b(1,2))
  moreover have "md_timeline d ! nat ?j < md_timeline d ! nat (ws_test_start spec)"
    by (rule timeline_increasing [OF assms(1)]) (use sp in auto)
  ultimately show ?thesis ..
qed

definition demo_wfa :: wfa_config where
  "demo_wfa = \<lparr>wc_train_size = 3, wc_test_size = 2, wc_step = None, wc_mode = WM_ROLLING, wc_embargo = 0, wc_purge = 0,
     wc_warmup_bars = 1, wc_objective = ''total_return'', wc_min_regime_periods = 30\<rparr>"

definition demo_window :: window_spec where
  "demo_window = \<lparr>ws_index = 0, ws_train_start = 0, ws_train_end = 3, ws_test_start = 3, ws_test_end = 5\<rparr>"

definition demo_factory :: "bool strategy_factory" where
  "demo_factory params = Inr (buy_and_hold ''AAA'' (the (map_of params ''fraction'')), False)"

theorem fit_never_sees_the_test_range_witness:
  "generate_splits 5 3 2 None WM_ROLLING 0 0 = Some (Inr [demo_window])
   \<and> fit_window \<lparr>ww_numpy = demo_numpy, ww_stats = demo_stats\<rparr> \<lparr>mc_periods_per_year = 252, mc_risk_free_rate = 0\<rparr>
       (demo_data [(1, 100), (2, 110), (3, 120), (4, 130), (5, 140)]) demo_factory [[(''fraction'', 1 / 2)], [(''fraction'', 1 / 4)]]
       demo_window demo_wfa demo_config
     = fit_window \<lparr>ww_numpy = demo_numpy, ww_stats = demo_stats\<rparr> \<lparr>mc_periods_per_year = 252, mc_risk_free_rate = 0\<rparr>
       (demo_data [(1, 100), (2, 110), (3, 120), (4, 20), (6, 10)]) demo_factory [[(''fraction'', 1 / 2)], [(''fraction'', 1 / 4)]]
       demo_window demo_wfa demo_config"
proof -
  let ?d = "demo_data [(1, 100), (2, 110), (3, 120), (4, 130), (5, 140)]" and ?d' = "demo_data [(1, 100), (2, 110), (3, 120), (4, 20), (6, 10)]"
  have v: "data_valid ?d" "data_valid ?d'"
    by (simp_all add: data_valid_def demo_data_def demo_series_def series_valid_def series_checks_def guard_def)
  have g: "generate_splits 5 3 2 None WM_ROLLING 0 0 = Some (Inr [demo_window])"
    using generate_splits_value [of 2 2 None 5 3 0 0 WM_ROLLING]
    by (simp add: splits_refused_def n_windows_def window_at_def demo_window_def)
  then have s: "generate_splits (int (length (md_timeline ?d))) (wc_train_size demo_wfa) (wc_test_size demo_wfa) (wc_step demo_wfa)
      (wc_mode demo_wfa) (wc_embargo demo_wfa) (wc_purge demo_wfa) = Some (Inr [demo_window])"
    by (simp add: demo_wfa_def demo_data_def)
  have a: "data_agree (md_timeline ?d ! nat (ws_train_end demo_window - 1)) ?d ?d'"
    by (simp add: data_agree_def demo_data_def demo_window_def demo_series_def series_agree_def series_eq_def searchsorted_right_def)
  have m: "demo_window \<in> set [demo_window]" by simp
  show ?thesis using g conjunct1 [OF fit_never_sees_the_test_range [OF v s m a]] by blast
qed

section \<open>The search\<close>

text \<open>The search keeps the first parameters that no other scores above.\<close>

lemma search_grid_best:
  assumes "search_grid run objective combos best = Inr out"
    and "\<And>b. best = Some b \<Longrightarrow> run (fst (snd b)) = Inr (snd (snd b)) \<and> fst b = metric_score (snd (snd (snd b))) objective"
  shows "(out = None \<longleftrightarrow> best = None \<and> combos = []) \<and>
    (\<forall>b. out = Some b \<longrightarrow> (best = Some b \<or> fst (snd b) \<in> set combos) \<and> run (fst (snd b)) = Inr (snd (snd b))
       \<and> fst b = metric_score (snd (snd (snd b))) objective
       \<and> (\<forall>b0. best = Some b0 \<longrightarrow> \<not> score_gt (fst b0) (fst b))
       \<and> (\<forall>p \<in> set combos. \<exists>res. run p = Inr res \<and> \<not> score_gt (metric_score (snd res) objective) (fst b)))"
  using assms
proof (induction combos arbitrary: best)
  case Nil
  have irr: "\<not> score_gt x x" for x by (cases x) auto
  show ?case using Nil irr by auto
next
  case (Cons p combos)
  obtain res where res: "run p = Inr res"
    "search_grid run objective combos
       (if (case best of None \<Rightarrow> True | Some b \<Rightarrow> score_gt (metric_score (snd res) objective) (fst b))
        then Some (metric_score (snd res) objective, p, res) else best) = Inr out"
    using Cons.prems(1) by (auto simp: rbind_eq_Inr Let_def)
  let ?score = "metric_score (snd res) objective"
  show ?case
  proof (cases "case best of None \<Rightarrow> True | Some b \<Rightarrow> score_gt ?score (fst b)")
    case True
    then have step: "search_grid run objective combos (Some (?score, p, res)) = Inr out" using res(2) by simp
    have trans: "best = Some b0 \<Longrightarrow> \<not> score_gt ?score x \<Longrightarrow> \<not> score_gt (fst b0) x" for b0 x
      using True by (cases x; cases "fst b0"; cases ?score) auto
    have ih: "out \<noteq> None" "\<And>b. out = Some b \<Longrightarrow> ((?score, p, res) = b \<or> fst (snd b) \<in> set combos) \<and> run (fst (snd b)) = Inr (snd (snd b))
        \<and> fst b = metric_score (snd (snd (snd b))) objective \<and> \<not> score_gt ?score (fst b)
        \<and> (\<forall>p \<in> set combos. \<exists>res. run p = Inr res \<and> \<not> score_gt (metric_score (snd res) objective) (fst b))"
      using Cons.IH [OF step] res(1) by auto
    then obtain b where b: "out = Some b" by auto
    show ?thesis using ih(2) [OF b] trans [of _ "fst b"] res(1) unfolding b by (cases res) auto
  next
    case False
    then obtain b0 where b0: "best = Some b0" "\<not> score_gt ?score (fst b0)" by (auto split: option.splits)
    then have step: "search_grid run objective combos best = Inr out" using res(2) by simp
    have trans: "\<not> score_gt (fst b0) x \<Longrightarrow> \<not> score_gt ?score x" for x
      using b0(2) by (cases x; cases "fst b0"; cases ?score) auto
    have ih: "out \<noteq> None" "\<And>b. out = Some b \<Longrightarrow> (b0 = b \<or> fst (snd b) \<in> set combos) \<and> run (fst (snd b)) = Inr (snd (snd b))
        \<and> fst b = metric_score (snd (snd (snd b))) objective \<and> \<not> score_gt (fst b0) (fst b)
        \<and> (\<forall>p \<in> set combos. \<exists>res. run p = Inr res \<and> \<not> score_gt (metric_score (snd res) objective) (fst b))"
      using Cons.IH [OF step Cons.prems(2)] b0(1) by auto
    then obtain b where b: "out = Some b" by auto
    show ?thesis using ih(2) [OF b] trans [of "fst b"] res(1) b0(1) unfolding b by (cases res) auto
  qed
qed

end
