(* ===== verification/Spec2Isabelle.thy ===== *)
theory Spec2Isabelle
  imports Motor_Properties Service_Properties Kill_Watch Sharp_Safety Reporter Alpaca_Properties
    Hitl_Properties Audit_Log_Properties Order_Record
    Relay Cognitive_Config Refdata_Properties Bt_Runs Bt_Walk_Forward
begin

text \<open>
  A verification of the order path and the control plane of the agentic fintech ecosystem
  (\<open>src/agent-core\<close>, Python).

  \<^bold>\<open>The program.\<close> Zone A proposes trades, Zone B checks and executes them, Zone C keeps humans and
  records in the loop. The cognitive core (\<open>zone-a/cognitive-core\<close>) lets language models debate a
  market snapshot, turns the verdict into a signal and submits it to Aegis. Aegis (Rust, not modelled) attests an order with a signature; the execution
  motor (\<open>zone-b/execution-motor\<close>) checks the attestation and its own limits and sends the order to
  a broker at most once; it reports back to Aegis and follows Aegis's kill state. The SHARP gate
  (\<open>zone-c/sharp-gate\<close>) promotes a strategy only after six signatures; the motor's compliance gate
  asks it, and the manifest store, before an order leaves. The HITL backend (\<open>zone-c/hitl-backend\<close>)
  lets authenticated operators decide held orders. The compliance manifest
  (\<open>zone-c/compliance-manifest\<close>) documents every order before it leaves, in a write-once chain of
  files. The audit log (\<open>zone-c/audit-logger\<close>) is the hash-chained table these services write to.
  The reference data bridge (\<open>zone-b/refdata-bridge\<close>) passes market snapshots and regime labels on to
  Aegis. The backtester (\<open>backtesting\<close>) replays strategies over past bars and fits them by walk-forward
  analysis.

  \<^bold>\<open>Shared vocabulary.\<close>
  \<^item> \<open>Prelude\<close>: Python strings and results that may be exceptions (\<open>exc + 'a\<close>, chained by \<open>rbind\<close>
    and \<open>rmap\<close>); \<open>Py_Decimal\<close>: \<open>decimal.Decimal\<close> with 28 significant digits, half-even rounding
    (locale \<open>rounding\<close>, interpreted on the context's rounding); \<open>Py_Float\<close>: doubles as rationals with
    their rounding; \<open>Json\<close>: JSON values, the sorted ASCII printer \<open>dumps\<close> and a reader \<open>loads_text\<close>,
    with the round trip between them.

  \<^bold>\<open>The execution motor\<close> (\<open>execution_motor/*.py\<close>).
  \<^item> \<open>Motor_Models\<close>: \<open>models.py\<close>, \<open>broker.py\<close>, \<open>quotes.py\<close>, the records with their validators.
  \<^item> \<open>Halt\<close>: \<open>halt.py\<close>. The kill switch fails closed and only an authorised resume opens it.
  \<^item> \<open>Motor_Limits\<close>: \<open>limits.py\<close>. Locale \<open>single_use\<close> is the contract of claims, interpreted on the
    memory store, the file store and the store the motor holds; the ledger stays within its cap.
  \<^item> \<open>Router\<close>: \<open>toxicity.py\<close>, \<open>sor.py\<close>. Scores are in the unit interval and no toxic venue is picked.
  \<^item> \<open>Attestation\<close>: \<open>canonical.py\<close>, \<open>proto_adapter.py\<close>, \<open>attestation.py\<close>, \<open>verifiers.py\<close>. The signed
    text is injective: it determines the order the broker is told.
  \<^item> \<open>Motor_Config\<close>: \<open>config.py\<close>. A configuration read from the environment is explicit and ordered.
  \<^item> \<open>Motor\<close>: \<open>motor.py\<close>, one definition per stage of \<open>ExecutionMotor.execute\<close>, over an explicit
    state (kill switch, claims, ledger, requests sent) and a \<open>world\<close> that answers for clock, disk,
    quotes and brokers. \<open>Motor_Stages\<close> says what each stage leaves alone, \<open>Motor_Lifetime\<close> runs it
    over executions, operator actions and restarts, \<open>Motor_Properties\<close> states the results.
  \<^item> \<open>Alpaca\<close>: \<open>alpaca.py\<close>, \<open>alpaca_parse.py\<close>, \<open>mock_broker.py\<close>. \<open>Alpaca_Properties\<close>: locales
    \<open>broker_truth\<close> and \<open>broker_once\<close> are the contract of a broker, interpreted on both clients; the
    motor over Alpaca refines at-most-once submission.
  \<^item> \<open>Kill_Watch\<close>: \<open>kill_watch.py\<close> as a step relation of the stream and the sweeper threads.
  \<^item> \<open>Service\<close>: \<open>compliance.py\<close>, \<open>service.py\<close>, \<open>grpc_service.py\<close>; \<open>Service_Properties\<close>: what
    reaching a broker implies about compliance, and what Aegis is told.
  \<^item> \<open>Reporter\<close>: \<open>aegis_reporter.py\<close>. Reports are conserved and cumulative.

  \<^bold>\<open>The cognitive core\<close> (\<open>zone-a/cognitive-core/*.py\<close>).
  \<^item> \<open>Debate\<close>: \<open>models.py\<close>, \<open>parsing.py\<close>, \<open>config.py\<close> (the settings), \<open>sizing.py\<close>, \<open>signals.py\<close>,
    \<open>graph.py\<close> and the quoting of \<open>prompts.py\<close>: one definition per node of the graph, over a world of
    model replies and clock readings. \<open>Debate_Properties\<close>: a debate always returns a signal, an
    actionable one is earned; sized orders are bounded; quoted text stays inside its block.
  \<^item> \<open>Cognitive\<close>: \<open>context.py\<close>, \<open>halt.py\<close>, \<open>memory.py\<close>, \<open>proto_mapping.py\<close>, \<open>sinks.py\<close>, \<open>service.py\<close>:
    from a message of the feed to the calls it causes. \<open>Cognitive_Properties\<close>: what it takes for a
    signal to leave, the cooldown, the bounded queue; locale \<open>signal_sink_contract\<close> is what the runner
    asks of a sink, interpreted on the sinks of the code.
  \<^item> \<open>Cognitive_Config\<close>: \<open>config.py\<close>, \<open>runner_config.py\<close>, the TLS settings of \<open>sinks.py\<close> and the start
    in \<open>__main__.py\<close>. A core that starts in production is configured safely.
  \<^item> \<open>Relay\<close>: the runner composed with the execution motor; every order comes from a debate.

  \<^bold>\<open>Zone C.\<close>
  \<^item> \<open>Sharp\<close>, \<open>Sharp_Gate\<close>: \<open>models.py\<close>, \<open>gate.py\<close>, \<open>memory_store.py\<close> of the SHARP gate; events are
    folded into a record, commands append audited events. \<open>Sharp_Safety\<close>: a promoted proposal has
    six distinct signers, and histories fold however processes interleave.
  \<^item> \<open>Hitl\<close>: \<open>service.py\<close>, \<open>holds.py\<close>, \<open>auth.py\<close>, \<open>http_api.py\<close>, \<open>config.py\<close> of the HITL backend.
    \<open>Hitl_Properties\<close>: a hold is resolved only audited, authorised and once.
  \<^item> \<open>Audit_Log\<close>: \<open>canonical.py\<close>, \<open>models.py\<close>, \<open>logger.py\<close>, \<open>verifier.py\<close>, \<open>anchor.py\<close> of the audit
    logger. \<open>Audit_Log_Properties\<close>: what the logger writes verifies, and a verified head or a
    matching anchor fixes the history unless the hash function collides on the two tables.
  \<^item> \<open>Retention\<close>: \<open>retention.py\<close> of the manifest package over the Gregorian calendar; retention is
    exact to the nanosecond and never short.
  \<^item> \<open>Manifest\<close>: \<open>canonical.py\<close>, \<open>model.py\<close>, \<open>builder.py\<close>, \<open>verify.py\<close>, \<open>store.py\<close>; a protobuf
    message is a tree of named fields, the store a list of numbered files. \<open>Manifest_Properties\<close>: what
    is built verifies, no manifest for a forbidden order, the store stays a chain. Locale \<open>audit_trail\<close>
    is what the store asks of its audit sink, interpreted on the audit logger.
  \<^item> \<open>Manifest_Writer\<close>: the writer of the motor's \<open>compliance.py\<close>, from an Aegis decision to a stored,
    chained and audited manifest.
  \<^item> \<open>Order_Record\<close>: the execution service composed with the writer, the store and the audit log over
    its lifetime; every order sent to a broker is on record in both.

  \<^bold>\<open>The reference data bridge\<close> (\<open>refdata_bridge/*.py\<close>).
  \<^item> \<open>Refdata\<close>: \<open>mapping.py\<close>, \<open>batch.py\<close>, \<open>aegis_client.py\<close>, \<open>service.py\<close>, \<open>config.py\<close>; a push is two
    definitions, before and after the call it awaits. \<open>Refdata_Properties\<close>: the bridge as a step relation
    in which messages arrive during a push. A regime label stays due until it is acknowledged; a
    snapshot is never guessed to be fresh; lemmas show a snapshot lost to a race and two exceptions that leave
    the handlers.

  \<^bold>\<open>Backtesting\<close> (\<open>backtesting/*.py\<close>).
  \<^item> \<open>Bt_Models\<close>: \<open>models.py\<close>; \<open>Bt_Portfolio\<close>: \<open>portfolio.py\<close>, the accounting in 28-digit decimals;
    \<open>Bt_Data\<close>: \<open>data.py\<close> and \<open>feed.py\<close>, validated columns, their timeline and the views that stop at a
    cursor; \<open>Bt_Execution\<close>: \<open>execution.py\<close>; \<open>Bt_Engine\<close>: \<open>engine.py\<close> as a fold of \<open>run_event\<close> over the
    events of the feed, and \<open>strategies.py\<close>.
  \<^item> \<open>Bt_Causality\<close>: runs over data that agree up to an instant agree up to it. A strategy is causal when
    it reads its view through the accessors; the reference strategies are.
  \<^item> \<open>Bt_Orders\<close>: the order book and the positions under one pass over the open orders. \<open>Bt_Runs\<close>: a
    backtest as a step relation; fills follow their orders, a long-only run is never short, no bar is
    traded beyond its capacity. Quantities are multiples of a power of ten small enough to be subtracted exactly
    (\<open>fits\<close>), which the theorems take as a hypothesis.
  \<^item> \<open>Bt_Metrics\<close>: \<open>metrics.py\<close>, \<open>regime_analysis.py\<close> and the end of a run; the breakdown by regime is
    complete. \<open>Bt_Walk_Forward\<close>: \<open>wfa.py\<close>; the loop that builds the windows is a partial function, shown to
    end; windows do not leak, fitting never sees the test range, the search returns a best parameter set.

  \<^bold>\<open>Parameters.\<close> Signature checks, SHA-256, JWT decoding, HTTP and gRPC answers, the clock, the disk
  and the database, numpy's statistics and its generator are arguments of the definitions; a theorem that needs something of them says so
  as a hypothesis, and its witness shows it can hold.

  \<^bold>\<open>Bounds and fuel.\<close> Loops over data are structural recursions. The retrying loops recurse on the
  remaining attempts, as the code counts them. The JSON reader recurses on a fuel equal to the length
  of the text plus one, and each nested value consumes at least one character, so a printed text
  is always read (\<open>loads_dumps\<close>). Decimals are rationals rounded at 28 digits; the ranges of their
  exponents, far beyond any price, are not modelled. A Python \<open>str\<close> is a list of 8-bit characters.

  \<^bold>\<open>Not modelled.\<close> Process start, TLS and thread wiring of the motor, the HITL backend and the bridge
  (\<open>server.py\<close>, \<open>__main__.py\<close>, \<open>main.py\<close>, \<open>aegis_channel.py\<close>), PostgreSQL statements (\<open>pg_store.py\<close>,
  \<open>pg_audit.py\<close>, \<open>db.py\<close>) and the schema drift check of the audit log; prompt templates, LLM clients,
  the reflector, the health servers and the Redis sources; the hidden Markov model
  (\<open>zone-a/regime-detector\<close>) and the vector store (\<open>zone-a/vector-db\<close>), which are glue around third-party
  packages; loading of data frames, Monte Carlo resampling, the aggregate statistics of walk-forward analysis
  and the calibration reports, which are numpy, pandas and scipy computations and text; the Rust services, the
  TypeScript interface, schemas and deployment files.
\<close>

end
